(* ===== verification/LtePrelude.thy ===== *)
theory LtePrelude
  imports Main "HOL-Library.Word"
begin

text \<open>
  Shared vocabulary of the development: the machine types of the drivers under
  src/kernel/drivers/lte (a 32-bit little-endian ARM kernel, so \<open>unsigned long\<close>,
  \<open>int\<close> and pointers are 32 bits wide), the ways a kernel function can go wrong at
  the machine level, the result type that carries them, and the generic facts on lists
  and words the component theories share.

  A function of the model returns \<open>Inl f\<close> where the C code would dereference a null or
  dangling pointer, index past the end of an object, free what was never allocated, loop
  forever or call \<open>panic\<close>, and \<open>Inr v\<close> where it returns.
  The error codes the C code itself returns are ordinary values.
\<close>

unbundle bit_operations_syntax

type_synonym u8 = "8 word"
type_synonym u16 = "16 word"
type_synonym u32 = "32 word"
type_synonym u64 = "64 word"

text \<open>Heap addresses; a C pointer is an optional address, \<open>None\<close> being NULL.\<close>

type_synonym addr = nat
type_synonym ptr = "addr option"

datatype fault = NullDeref | DanglingDeref | OutOfBounds | WildFree | Diverges | Panic

type_synonym 'a res = "fault + 'a"

named_theorems res_simps \<open>computation rules of the result type\<close>

definition rbind :: "'a res \<Rightarrow> ('a \<Rightarrow> 'b res) \<Rightarrow> 'b res" where
  "rbind m f = (case m of Inl e \<Rightarrow> Inl e | Inr x \<Rightarrow> f x)"

lemma rbind_Inl [simp, res_simps]: "rbind (Inl e) f = Inl e"
  by (simp add: rbind_def)

lemma rbind_Inr [simp, res_simps]: "rbind (Inr x) f = f x"
  by (simp add: rbind_def)

lemma rbind_eq_Inr_iff: "rbind m f = Inr y \<longleftrightarrow> (\<exists>x. m = Inr x \<and> f x = Inr y)"
  by (cases m) auto

lemma rbind_eq_Inl_iff:
  "rbind m f = Inl e \<longleftrightarrow> m = Inl e \<or> (\<exists>x. m = Inr x \<and> f x = Inl e)"
  by (cases m) auto

lemma rbind_assoc: "rbind (rbind m f) g = rbind m (\<lambda>x. rbind (f x) g)"
  by (cases m) auto

text \<open>A loop whose model is a partial function: not returning is the fault \<open>Diverges\<close>.\<close>

definition returned :: "'a res option \<Rightarrow> 'a res" where
  "returned r = (case r of None \<Rightarrow> Inl Diverges | Some x \<Rightarrow> x)"

lemma returned_Some [simp, res_simps]: "returned (Some x) = x"
  by (simp add: returned_def)

lemma case_sum_mono [partial_function_mono]:
  "(\<And>x. mono_option (F x)) \<Longrightarrow> (\<And>y. mono_option (G y)) \<Longrightarrow>
     mono_option (\<lambda>f. case r of Inl x \<Rightarrow> F x f | Inr y \<Rightarrow> G y f)"
  by (cases r) simp_all

text \<open>Reading and writing an array with the bounds of the object it lies in.\<close>

definition arr_get :: "'a list \<Rightarrow> nat \<Rightarrow> 'a res" where
  "arr_get xs i = (if i < length xs then Inr (xs ! i) else Inl OutOfBounds)"

definition arr_put :: "'a list \<Rightarrow> nat \<Rightarrow> 'a \<Rightarrow> 'a list res" where
  "arr_put xs i v = (if i < length xs then Inr (xs[i := v]) else Inl OutOfBounds)"

lemma arr_get_ok [simp]: "i < length xs \<Longrightarrow> arr_get xs i = Inr (xs ! i)"
  by (simp add: arr_get_def)

lemma arr_put_ok [simp]: "i < length xs \<Longrightarrow> arr_put xs i v = Inr (xs[i := v])"
  by (simp add: arr_put_def)

lemma arr_get_Inr_iff: "arr_get xs i = Inr v \<longleftrightarrow> i < length xs \<and> v = xs ! i"
  by (auto simp: arr_get_def)

lemma arr_put_Inr_iff: "arr_put xs i v = Inr ys \<longleftrightarrow> i < length xs \<and> ys = xs[i := v]"
  by (auto simp: arr_put_def)

lemma map_update_same:
  "i < length xs \<Longrightarrow> f y = f (xs ! i) \<Longrightarrow> map f (xs[i := y]) = map f xs"
  by (metis list_update_id map_update)

text \<open>Counts that fit into a byte or a half word.\<close>

lemma unat_of_nat_u8: "n < 256 \<Longrightarrow> unat (of_nat n :: u8) = n"
  by (simp add: unsigned_of_nat take_bit_nat_eq_self)

lemma unat_of_nat_u16: "n < 65536 \<Longrightarrow> unat (of_nat n :: u16) = n"
  by (simp add: unsigned_of_nat take_bit_nat_eq_self)

text \<open>Positions in a ring of \<open>n\<close> slots.\<close>

lemma mod_add_inj:
  assumes "a < n" "b < n" "(c + a) mod n = (c + b) mod n"
  shows "a = (b::nat)"
proof -
  have *: "a = b" if "a \<le> b" "a < n" "b < n" "(c + a) mod n = (c + b) mod n" for a b :: nat
  proof -
    from that have "n dvd (c + b) - (c + a)"
      by (metis add_le_cancel_left mod_eq_dvd_iff_nat)
    then have "n dvd b - a" by simp
    with that show ?thesis by (auto dest: dvd_imp_le)
  qed
  show ?thesis
    using *[of a b] *[of b a] assms by (cases "a \<le> b") auto
qed

end
