(* ===== verification/PtrFifo.thy ===== *)
theory PtrFifo
  imports LtePrelude
begin

text \<open>
  The pointer FIFO of src/kernel/drivers/lte/common/ptr_fifo.c: a ring of
  \<open>fifo_size\<close> slots of which one is always unused, so that \<open>head = tail\<close> means empty.
  A handle is an optional object (\<open>None\<close> is the NULL handle), the payload type \<open>'a\<close>
  stands for \<open>void*\<close>. Each operation returns the C error code together with the new
  object and the values written through its pointer arguments; the spinlock brackets
  every body, so an operation is one atomic step.
  The second half gives the interface of a bounded queue as a locale and shows that the
  ring implements it.
\<close>

section \<open>The object and its operations\<close>

abbreviation (input) PTR_FIFO_ERROR_NONE :: int where "PTR_FIFO_ERROR_NONE \<equiv> 0"
abbreviation (input) PTR_FIFO_ERROR_INVALID_PARAMETER :: int
  where "PTR_FIFO_ERROR_INVALID_PARAMETER \<equiv> - 1"
abbreviation (input) PTR_FIFO_ERROR_INVALID_FIFO_SIZE :: int
  where "PTR_FIFO_ERROR_INVALID_FIFO_SIZE \<equiv> - 2"
abbreviation (input) PTR_FIFO_ERROR_RESOURCE_ALLOC :: int
  where "PTR_FIFO_ERROR_RESOURCE_ALLOC \<equiv> - 3"
abbreviation (input) PTR_FIFO_ERROR_INVALID_HANDLE :: int
  where "PTR_FIFO_ERROR_INVALID_HANDLE \<equiv> - 4"
abbreviation (input) PTR_FIFO_ERROR_FIFO_OVERFLOW :: int
  where "PTR_FIFO_ERROR_FIFO_OVERFLOW \<equiv> - 5"
abbreviation (input) PTR_FIFO_ERROR_FIFO_UNDERFLOW :: int
  where "PTR_FIFO_ERROR_FIFO_UNDERFLOW \<equiv> - 6"

definition PTR_FIFO_SIGNATURE :: u32 where
  "PTR_FIFO_SIGNATURE = 0xBEEDDEEB"

text \<open>
  The size stamp: eight 4-byte members and a one-word spinlock. Only its equality with
  the stamp written by \<open>ptr_fifo_alloc\<close> is ever used.
\<close>

definition sizeof_PTR_FIFO :: u32 where
  "sizeof_PTR_FIFO = 36"

record 'a PTR_FIFO =
  signature :: u32
  size_stamp :: u32
  fifo_size :: u32
  fifo_flags :: u32
  pfifo_data :: "'a list"
  tail :: u32
  head :: u32
  num_elements :: u32

definition ptr_fifo_object_valid :: "'a PTR_FIFO option \<Rightarrow> int" where
  "ptr_fifo_object_valid p =
     (case p of
        None \<Rightarrow> PTR_FIFO_ERROR_INVALID_HANDLE
      | Some f \<Rightarrow>
          if signature f \<noteq> PTR_FIFO_SIGNATURE \<or> size_stamp f \<noteq> sizeof_PTR_FIFO
          then PTR_FIFO_ERROR_INVALID_HANDLE else PTR_FIFO_ERROR_NONE)"

text \<open>
  Allocation. \<open>phptr_fifo\<close> is the caller's handle cell (\<open>None\<close>: a NULL argument;
  \<open>Some h\<close>: a cell that holds \<open>h\<close>). \<open>km_obj\<close> says whether the first \<open>kmalloc\<close>
  succeeds, \<open>km_data n\<close> is the block the second one returns for \<open>n\<close> bytes, with its
  uninitialised contents. The byte count \<open>sizeof(void*) * fifo_size\<close> is computed at
  32 bits.
\<close>

definition ptr_fifo_alloc ::
  "bool \<Rightarrow> (u32 \<Rightarrow> 'a list option) \<Rightarrow> u32 \<Rightarrow> u32 \<Rightarrow> 'a PTR_FIFO option option
    \<Rightarrow> int \<times> 'a PTR_FIFO option option" where
  "ptr_fifo_alloc km_obj km_data fsize flgs phptr_fifo =
     (if phptr_fifo = None then (PTR_FIFO_ERROR_INVALID_PARAMETER, phptr_fifo)
      else if fsize < 2 then (PTR_FIFO_ERROR_INVALID_FIFO_SIZE, phptr_fifo)
      else (let n = fsize + 1 in
        if \<not> km_obj then (PTR_FIFO_ERROR_RESOURCE_ALLOC, Some None)
        else (case km_data (4 * n) of
            None \<Rightarrow> (PTR_FIFO_ERROR_RESOURCE_ALLOC, Some None)
          | Some blk \<Rightarrow>
              (PTR_FIFO_ERROR_NONE,
               Some (Some \<lparr>signature = PTR_FIFO_SIGNATURE, size_stamp = sizeof_PTR_FIFO,
                 fifo_size = n, fifo_flags = flgs, pfifo_data = blk,
                 tail = 0, head = 0, num_elements = 0\<rparr>)))))"

definition ptr_fifo_free ::
  "'a PTR_FIFO option option \<Rightarrow> int \<times> 'a PTR_FIFO option option" where
  "ptr_fifo_free phptr_fifo =
     (case phptr_fifo of
        None \<Rightarrow> (PTR_FIFO_ERROR_INVALID_PARAMETER, None)
      | Some h \<Rightarrow>
          let retval = ptr_fifo_object_valid h in
          if retval \<noteq> PTR_FIFO_ERROR_NONE then (retval, Some h) else (retval, Some None))"

text \<open>
  The queries take a flag that says whether the out pointer is non-null; the value
  written through it is \<open>None\<close> when nothing is written.
\<close>

definition ptr_fifo_is_empty :: "'a PTR_FIFO option \<Rightarrow> bool \<Rightarrow> int \<times> u32 option" where
  "ptr_fifo_is_empty p out =
     (let retval = ptr_fifo_object_valid p in
      if retval \<noteq> PTR_FIFO_ERROR_NONE then (retval, None)
      else if \<not> out then (PTR_FIFO_ERROR_INVALID_PARAMETER, None)
      else (retval, Some (if head (the p) = tail (the p) then 1 else 0)))"

definition ptr_fifo_num_elements :: "'a PTR_FIFO option \<Rightarrow> bool \<Rightarrow> int \<times> u32 option" where
  "ptr_fifo_num_elements p out =
     (let retval = ptr_fifo_object_valid p in
      if retval \<noteq> PTR_FIFO_ERROR_NONE then (retval, None)
      else if \<not> out then (PTR_FIFO_ERROR_INVALID_PARAMETER, None)
      else (retval, Some (num_elements (the p))))"

definition ptr_fifo_free_avail :: "'a PTR_FIFO option \<Rightarrow> bool \<Rightarrow> int \<times> u32 option" where
  "ptr_fifo_free_avail p out =
     (let retval = ptr_fifo_object_valid p in
      if retval \<noteq> PTR_FIFO_ERROR_NONE then (retval, None)
      else if \<not> out then (PTR_FIFO_ERROR_INVALID_PARAMETER, None)
      else (retval, Some ((fifo_size (the p) - 1) - num_elements (the p))))"

definition ptr_fifo_insert ::
  "'a PTR_FIFO option \<Rightarrow> 'a \<Rightarrow> (int \<times> 'a PTR_FIFO option) res" where
  "ptr_fifo_insert p pv =
     (let retval = ptr_fifo_object_valid p in
      if retval \<noteq> PTR_FIFO_ERROR_NONE then Inr (retval, p)
      else let f = the p; t = (tail f + 1) mod fifo_size f in
        if t = head f then Inr (PTR_FIFO_ERROR_FIFO_OVERFLOW, p)
        else rbind (arr_put (pfifo_data f) (unat t) pv) (\<lambda>d.
          Inr (retval, Some (f\<lparr>tail := t, pfifo_data := d,
                               num_elements := num_elements f + 1\<rparr>))))"

definition ptr_fifo_remove ::
  "'a PTR_FIFO option \<Rightarrow> bool \<Rightarrow> (int \<times> 'a option \<times> 'a PTR_FIFO option) res" where
  "ptr_fifo_remove p out =
     (let retval = ptr_fifo_object_valid p in
      if retval \<noteq> PTR_FIFO_ERROR_NONE then Inr (retval, None, p)
      else if \<not> out then Inr (PTR_FIFO_ERROR_INVALID_PARAMETER, None, p)
      else let f = the p in
        if head f = tail f then Inr (PTR_FIFO_ERROR_FIFO_UNDERFLOW, None, p)
        else let h = (head f + 1) mod fifo_size f in
          rbind (arr_get (pfifo_data f) (unat h)) (\<lambda>v.
            Inr (retval, Some v, Some (f\<lparr>head := h, num_elements := num_elements f - 1\<rparr>))))"

definition ptr_fifo_peek :: "'a PTR_FIFO option \<Rightarrow> bool \<Rightarrow> (int \<times> 'a option) res" where
  "ptr_fifo_peek p out =
     (let retval = ptr_fifo_object_valid p in
      if retval \<noteq> PTR_FIFO_ERROR_NONE then Inr (retval, None)
      else if \<not> out then Inr (PTR_FIFO_ERROR_INVALID_PARAMETER, None)
      else let f = the p in
        if head f = tail f then Inr (PTR_FIFO_ERROR_FIFO_UNDERFLOW, None)
        else rbind (arr_get (pfifo_data f) (unat ((head f + 1) mod fifo_size f)))
               (\<lambda>v. Inr (retval, Some v)))"

definition ptr_fifo_peek_offset ::
  "'a PTR_FIFO option \<Rightarrow> u32 \<Rightarrow> bool \<Rightarrow> (int \<times> 'a option) res" where
  "ptr_fifo_peek_offset p offset out =
     (let retval = ptr_fifo_object_valid p in
      if retval \<noteq> PTR_FIFO_ERROR_NONE then Inr (retval, None)
      else if \<not> out then Inr (PTR_FIFO_ERROR_INVALID_PARAMETER, None)
      else let f = the p in
        if head f = tail f then Inr (PTR_FIFO_ERROR_FIFO_UNDERFLOW, None)
        else if offset + 1 > num_elements f then Inr (PTR_FIFO_ERROR_FIFO_UNDERFLOW, None)
        else rbind (arr_get (pfifo_data f) (unat ((head f + 1 + offset) mod fifo_size f)))
               (\<lambda>v. Inr (retval, Some v)))"

section \<open>Invariant and abstraction to a list\<close>

text \<open>
  A well-formed object carries its stamps, has at least three slots (a capacity of two)
  backed by memory, and its \<open>tail\<close> is \<open>num_elements\<close> slots after its \<open>head\<close>.
  Its contents are the slots after \<open>head\<close>, oldest first.
\<close>

fun fifo_inv :: "'a PTR_FIFO option \<Rightarrow> bool" where
  "fifo_inv None = False"
| "fifo_inv (Some f) =
     (signature f = PTR_FIFO_SIGNATURE \<and> size_stamp f = sizeof_PTR_FIFO \<and>
      3 \<le> unat (fifo_size f) \<and> unat (fifo_size f) \<le> 2 ^ 30 \<and>
      unat (fifo_size f) \<le> length (pfifo_data f) \<and>
      unat (head f) < unat (fifo_size f) \<and>
      unat (num_elements f) < unat (fifo_size f) \<and>
      unat (tail f) = (unat (head f) + unat (num_elements f)) mod unat (fifo_size f))"

fun fifo_list :: "'a PTR_FIFO option \<Rightarrow> 'a list" where
  "fifo_list None = []"
| "fifo_list (Some f) =
     map (\<lambda>i. pfifo_data f ! ((unat (head f) + 1 + i) mod unat (fifo_size f)))
       [0..<unat (num_elements f)]"

fun fifo_cap :: "'a PTR_FIFO option \<Rightarrow> nat" where
  "fifo_cap None = 0"
| "fifo_cap (Some f) = unat (fifo_size f) - 1"

lemma fifo_inv_valid [simp]: "fifo_inv p \<Longrightarrow> ptr_fifo_object_valid p = 0"
  by (cases p) (auto simp: ptr_fifo_object_valid_def)

lemma fifo_list_bound: "fifo_inv p \<Longrightarrow> length (fifo_list p) \<le> fifo_cap p"
  by (cases p) auto

lemma ring_succ:
  fixes i n :: u32
  assumes "unat i < unat n"
  shows "unat ((i + 1) mod n) = (unat i + 1) mod unat n"
proof -
  have "unat n < 2 ^ 32" using unsigned_less [of n] by simp
  with assms have "unat (i + 1) = unat i + 1"
    by (subst unat_add_lem [THEN iffD1]) auto
  then show ?thesis by (simp add: unat_mod)
qed

lemma ring_head_tail:
  assumes "h < n" "k < n"
  shows "(h + k) mod n = h \<longleftrightarrow> k = (0::nat)"
  using mod_add_inj [of k n 0 h] assms by auto

lemma ring_full:
  assumes "h < n" "k < n"
  shows "((h + k) mod n + 1) mod n = h \<longleftrightarrow> Suc k = (n::nat)"
proof (cases "Suc k = n")
  case True
  then have "(h + k + 1) mod n = h" using assms by (metis Suc_eq_plus1 add.assoc mod_add_self2 mod_less)
  with True show ?thesis by (simp add: mod_Suc_eq)
next
  case False
  then have "Suc k < n" using assms by simp
  with ring_head_tail [OF assms(1) this] False show ?thesis by (simp add: mod_Suc_eq)
qed

lemma fifo_empty_iff:
  "fifo_inv (Some f) \<Longrightarrow> head f = tail f \<longleftrightarrow> num_elements f = 0"
  using ring_head_tail [of "unat (head f)" "unat (fifo_size f)" "unat (num_elements f)"]
  by (auto simp: word_unat_eq_iff)

lemma fifo_full_iff:
  "fifo_inv (Some f) \<Longrightarrow>
     (tail f + 1) mod fifo_size f = head f \<longleftrightarrow> Suc (unat (num_elements f)) = unat (fifo_size f)"
  using ring_full [of "unat (head f)" "unat (fifo_size f)" "unat (num_elements f)"]
  by (auto simp: word_unat_eq_iff ring_succ)

section \<open>The interface: a bounded queue\<close>

text \<open>
  What the callers of the FIFO rely on: with room an insert appends and succeeds, a full
  queue refuses with the overflow code and stays as it is, a remove takes the oldest
  element, an empty queue refuses with the underflow code.
\<close>

locale bounded_fifo =
  fixes ins :: "'q \<Rightarrow> 'a \<Rightarrow> (int \<times> 'q) res"
    and rem :: "'q \<Rightarrow> (int \<times> 'a option \<times> 'q) res"
    and invar :: "'q \<Rightarrow> bool"
    and contents :: "'q \<Rightarrow> 'a list"
    and cap :: "'q \<Rightarrow> nat"
  assumes ins_room: "invar q \<Longrightarrow> length (contents q) < cap q \<Longrightarrow>
      \<exists>q'. ins q x = Inr (0, q') \<and> invar q' \<and> contents q' = contents q @ [x] \<and> cap q' = cap q"
    and ins_full: "invar q \<Longrightarrow> length (contents q) = cap q \<Longrightarrow> ins q x = Inr (- 5, q)"
    and rem_some: "invar q \<Longrightarrow> contents q = y # ys \<Longrightarrow>
      \<exists>q'. rem q = Inr (0, Some y, q') \<and> invar q' \<and> contents q' = ys \<and> cap q' = cap q"
    and rem_empty: "invar q \<Longrightarrow> contents q = [] \<Longrightarrow> rem q = Inr (- 6, None, q)"
    and bound: "invar q \<Longrightarrow> length (contents q) \<le> cap q"

text \<open>
  Two loops over the interface: inserting a list of elements, stopping at the first
  error, and the drain loop of the drivers, \<open>while (remove succeeds)\<close>, with fuel.
\<close>

fun insert_all :: "('q \<Rightarrow> 'a \<Rightarrow> (int \<times> 'q) res) \<Rightarrow> 'q \<Rightarrow> 'a list \<Rightarrow> (int \<times> 'q) res" where
  "insert_all ins q [] = Inr (0, q)"
| "insert_all ins q (x # xs) =
     rbind (ins q x) (\<lambda>(e, q'). if e \<noteq> 0 then Inr (e, q') else insert_all ins q' xs)"

fun drain :: "('q \<Rightarrow> (int \<times> 'a option \<times> 'q) res) \<Rightarrow> nat \<Rightarrow> 'q \<Rightarrow> ('a option list \<times> 'q) res option"
where
  "drain rem 0 q = None"
| "drain rem (Suc n) q =
     (case rem q of
        Inl e \<Rightarrow> Some (Inl e)
      | Inr (e, v, q') \<Rightarrow>
          if e \<noteq> 0 then Some (Inr ([], q'))
          else map_option (\<lambda>r. rbind r (\<lambda>(vs, q''). Inr (v # vs, q''))) (drain rem n q'))"

context bounded_fifo
begin

lemma insert_all_room:
  "invar q \<Longrightarrow> length (contents q) + length xs \<le> cap q \<Longrightarrow>
     \<exists>q'. insert_all ins q xs = Inr (0, q') \<and> invar q' \<and>
          contents q' = contents q @ xs \<and> cap q' = cap q"
proof (induction xs arbitrary: q)
  case Nil
  then show ?case by simp
next
  case (Cons x xs)
  from ins_room [OF Cons.prems(1), of x] Cons.prems(2) obtain q' where
    q': "ins q x = Inr (0, q')" "invar q'" "contents q' = contents q @ [x]" "cap q' = cap q"
    by auto
  with Cons.IH [OF q'(2)] Cons.prems show ?case by auto
qed

lemma drain_all:
  "invar q \<Longrightarrow> length (contents q) < n \<Longrightarrow>
     \<exists>q'. drain rem n q = Some (Inr (map Some (contents q), q')) \<and> invar q' \<and>
          contents q' = [] \<and> cap q' = cap q"
proof (induction n arbitrary: q)
  case 0
  then show ?case by simp
next
  case (Suc n)
  show ?case
  proof (cases "contents q")
    case Nil
    with Suc.prems rem_empty show ?thesis by simp
  next
    case (Cons y ys)
    from rem_some [OF Suc.prems(1) Cons] obtain q' where
      q': "rem q = Inr (0, Some y, q')" "invar q'" "contents q' = ys" "cap q' = cap q"
      by auto
    with Suc.IH [OF q'(2)] Suc.prems Cons show ?thesis by auto
  qed
qed

end

section \<open>The ring implements the interface\<close>

lemma fifo_list_nth:
  "i < length (fifo_list (Some f)) \<Longrightarrow>
     fifo_list (Some f) ! i = pfifo_data f ! ((unat (head f) + 1 + i) mod unat (fifo_size f))"
  by simp

lemma fifo_slot_distinct:
  assumes "fifo_inv (Some f)" "i < unat (num_elements f)"
    and "Suc (unat (num_elements f)) < unat (fifo_size f)"
  shows "(unat (head f) + 1 + i) mod unat (fifo_size f)
           \<noteq> (unat (head f) + 1 + unat (num_elements f)) mod unat (fifo_size f)"
  using mod_add_inj [of i "unat (fifo_size f)" "unat (num_elements f)" "unat (head f) + 1"] assms
  by auto

lemma unat_succ_u32:
  fixes k :: u32
  shows "unat k + 1 < 2 ^ 32 \<Longrightarrow> unat (k + 1) = unat k + 1"
  by (subst unat_add_lem [THEN iffD1]) auto

lemma unat_pred_u32:
  fixes k :: u32
  shows "k \<noteq> 0 \<Longrightarrow> unat (k - 1) = unat k - 1"
  by (metis unat_minus_one)

lemma insert_room:
  assumes inv: "fifo_inv (Some f)" and room: "length (fifo_list (Some f)) < fifo_cap (Some f)"
  shows "\<exists>f'. ptr_fifo_insert (Some f) x = Inr (0, Some f') \<and> fifo_inv (Some f') \<and>
           fifo_list (Some f') = fifo_list (Some f) @ [x] \<and> fifo_cap (Some f') = fifo_cap (Some f)"
proof -
  let ?n = "unat (fifo_size f)" and ?h = "unat (head f)" and ?k = "unat (num_elements f)"
  let ?t = "(tail f + 1) mod fifo_size f"
  from room have k: "Suc ?k < ?n" by simp
  from inv have n: "?n \<le> 2 ^ 30" "?n \<le> length (pfifo_data f)" by auto
  have t: "unat ?t = (?h + 1 + ?k) mod ?n"
    using inv ring_succ [of "tail f" "fifo_size f"] by (simp add: mod_Suc_eq)
  then have tn: "unat ?t < length (pfifo_data f)"
    using k n by (metis gr_implies_not_zero mod_less_divisor neq0_conv order_less_le_trans)
  have neq: "?t \<noteq> head f" using fifo_full_iff [OF inv] k by simp
  have ks: "unat (num_elements f + 1) = Suc ?k" using unat_succ_u32 k n by simp
  let ?f = "f\<lparr>tail := ?t, pfifo_data := (pfifo_data f)[unat ?t := x],
               num_elements := num_elements f + 1\<rparr>"
  have res: "ptr_fifo_insert (Some f) x = Inr (0, Some ?f)"
    using fifo_inv_valid [OF inv] neq tn by (simp add: ptr_fifo_insert_def Let_def)
  have "fifo_inv (Some ?f)" using inv t ks k by simp
  moreover have "fifo_list (Some ?f) = fifo_list (Some f) @ [x]"
  proof (rule nth_equalityI)
    show "length (fifo_list (Some ?f)) = length (fifo_list (Some f) @ [x])" by (simp add: ks)
  next
    fix i assume "i < length (fifo_list (Some ?f))"
    then have i: "i < ?k \<or> i = ?k" by (auto simp: ks)
    show "fifo_list (Some ?f) ! i = (fifo_list (Some f) @ [x]) ! i"
    proof (cases "i < ?k")
      case True
      with fifo_slot_distinct [OF inv True k] show ?thesis
        by (simp add: ks nth_append t del: upt_Suc)
    next
      case False
      with i have "i = ?k" by simp
      with tn t show ?thesis by (simp add: ks nth_append del: upt_Suc)
    qed
  qed
  ultimately show ?thesis using res by auto
qed

lemma remove_some:
  assumes inv: "fifo_inv (Some f)" and cons: "fifo_list (Some f) = y # ys"
  shows "\<exists>f'. ptr_fifo_remove (Some f) True = Inr (0, Some y, Some f') \<and> fifo_inv (Some f') \<and>
           fifo_list (Some f') = ys \<and> fifo_cap (Some f') = fifo_cap (Some f)"
proof -
  let ?n = "unat (fifo_size f)" and ?h = "unat (head f)" and ?k = "unat (num_elements f)"
  let ?h' = "(head f + 1) mod fifo_size f"
  from cons have "length (fifo_list (Some f)) = Suc (length ys)" by simp
  then have k: "?k = Suc (length ys)" by simp
  then have k0: "num_elements f \<noteq> 0" by auto
  from inv have n: "3 \<le> ?n" "?n \<le> length (pfifo_data f)" "?h < ?n" by auto
  have h: "unat ?h' = (?h + 1) mod ?n" using ring_succ [of "head f" "fifo_size f"] n by simp
  then have hn: "unat ?h' < ?n" "unat ?h' < length (pfifo_data f)" using n
    by (metis gr_implies_not_zero mod_less_divisor neq0_conv,
        metis gr_implies_not_zero mod_less_divisor neq0_conv order_less_le_trans)
  have ks: "unat (num_elements f - 1) = length ys" using unat_pred_u32 [OF k0] k by simp
  let ?f = "f\<lparr>head := ?h', num_elements := num_elements f - 1\<rparr>"
  have y: "y = pfifo_data f ! unat ?h'"
    using fifo_list_nth [of 0 f] cons h by (simp del: fifo_list.simps)
  have res: "ptr_fifo_remove (Some f) True = Inr (0, Some y, Some ?f)"
    using fifo_inv_valid [OF inv] fifo_empty_iff [OF inv] k0 hn y
    by (simp add: ptr_fifo_remove_def Let_def)
  have "fifo_inv (Some ?f)" using inv h hn ks k by (simp add: mod_add_left_eq)
  moreover have "fifo_list (Some ?f) = ys"
  proof (rule nth_equalityI)
    show "length (fifo_list (Some ?f)) = length ys" by (simp add: ks)
  next
    fix i assume "i < length (fifo_list (Some ?f))"
    then have i: "i < length ys" by (simp add: ks)
    then have "fifo_list (Some ?f) ! i = pfifo_data f ! ((unat ?h' + (1 + i)) mod ?n)"
      by (simp add: ks)
    also have "\<dots> = pfifo_data f ! ((?h + 1 + Suc i) mod ?n)"
      using mod_add_left_eq [of "?h + 1" ?n "1 + i"] h by (simp add: ac_simps)
    also have "\<dots> = fifo_list (Some f) ! Suc i" using i k by (simp del: upt_Suc)
    finally show "fifo_list (Some ?f) ! i = ys ! i" using cons by simp
  qed
  ultimately show ?thesis using res by auto
qed

interpretation ptr_ring: bounded_fifo ptr_fifo_insert "\<lambda>p. ptr_fifo_remove p True"
  fifo_inv fifo_list fifo_cap
proof (unfold_locales, goal_cases)
  case (1 q x)
  then obtain f where "q = Some f" by (cases q) auto
  with insert_room [of f x] 1 show ?case by blast
next
  case (2 q x)
  then obtain f where q: "q = Some f" by (cases q) auto
  with 2 have "(tail f + 1) mod fifo_size f = head f"
    using fifo_full_iff [of f] by auto
  with 2 q show ?case by (simp add: ptr_fifo_insert_def Let_def del: fifo_inv.simps)
next
  case (3 q y ys)
  then obtain f where "q = Some f" by (cases q) auto
  with remove_some [of f y ys] 3 show ?case by blast
next
  case (4 q)
  then obtain f where q: "q = Some f" by (cases q) auto
  with 4 have "head f = tail f"
    using fifo_empty_iff [of f] by (simp add: unat_eq_zero)
  with 4 q show ?case by (simp add: ptr_fifo_remove_def Let_def del: fifo_inv.simps)
next
  case (5 q)
  then show ?case by (rule fifo_list_bound)
qed

text \<open>
  The loops over the interface, at the ring: enough room inserts everything in order,
  and draining with one more unit of fuel than elements returns them oldest first.
\<close>

lemmas ring_insert_all = ptr_ring.insert_all_room
lemmas ring_drain_all = ptr_ring.drain_all

section \<open>Properties\<close>

text \<open>The three-slot object the witnesses run on: one element, stored in slot 1.\<close>

definition demo_fifo :: "nat PTR_FIFO" where
  "demo_fifo = \<lparr>signature = PTR_FIFO_SIGNATURE, size_stamp = sizeof_PTR_FIFO, fifo_size = 3,
     fifo_flags = 0, pfifo_data = [0, 7, 0], tail = 1, head = 0, num_elements = 1\<rparr>"

text \<open>
  C20. the ring refines a bounded queue. On a well-formed object an insert succeeds and
  appends exactly when fewer than \<open>fifo_size - 1\<close> elements are held, and otherwise
  returns the overflow code and changes nothing; in both cases the object stays
  well-formed and its capacity is the same.
\<close>

theorem ptr_fifo_insert_refines:
  assumes "fifo_inv p"
  shows "\<exists>e p'. ptr_fifo_insert p x = Inr (e, p') \<and> fifo_inv p' \<and> fifo_cap p' = fifo_cap p \<and>
     (if length (fifo_list p) < fifo_cap p
      then e = PTR_FIFO_ERROR_NONE \<and> fifo_list p' = fifo_list p @ [x]
      else e = PTR_FIFO_ERROR_FIFO_OVERFLOW \<and> p' = p)"
proof (cases "length (fifo_list p) < fifo_cap p")
  case True
  with ptr_ring.ins_room [OF assms] show ?thesis by auto
next
  case False
  with ptr_ring.bound [OF assms] ptr_ring.ins_full [OF assms] assms show ?thesis by auto
qed

theorem ptr_fifo_insert_refines_witness:
  "\<exists>p'. ptr_fifo_insert (Some demo_fifo) 9 = Inr (0, p') \<and> fifo_list p' = [7, 9]"
proof -
  have "fifo_inv (Some demo_fifo)" by (simp add: demo_fifo_def)
  from ptr_fifo_insert_refines [OF this, of 9] show ?thesis
    by (auto simp: demo_fifo_def)
qed

text \<open>
  C36. a remove takes the oldest element when there is one and otherwise returns the
  underflow code and changes nothing; the object stays well-formed.
\<close>

theorem ptr_fifo_remove_refines:
  assumes "fifo_inv p"
  shows "\<exists>e v p'. ptr_fifo_remove p True = Inr (e, v, p') \<and> fifo_inv p' \<and>
     (case fifo_list p of
        [] \<Rightarrow> e = PTR_FIFO_ERROR_FIFO_UNDERFLOW \<and> v = None \<and> p' = p
      | y # ys \<Rightarrow> e = PTR_FIFO_ERROR_NONE \<and> v = Some y \<and> fifo_list p' = ys)"
proof (cases "fifo_list p")
  case Nil
  with ptr_ring.rem_empty [OF assms] assms show ?thesis by auto
next
  case (Cons y ys)
  with ptr_ring.rem_some [OF assms Cons] show ?thesis by auto
qed

theorem ptr_fifo_remove_refines_witness:
  "\<exists>p'. ptr_fifo_remove (Some demo_fifo) True = Inr (0, Some 7, p') \<and> fifo_list p' = []"
proof -
  have "fifo_inv (Some demo_fifo)" by (simp add: demo_fifo_def)
  from ptr_fifo_remove_refines [OF this] show ?thesis
    by (auto simp: demo_fifo_def)
qed

text \<open>
  creation. Given an allocator that returns at least the bytes asked for, a request
  for \<open>n\<close> elements with \<open>2 \<le> n < 2 ^ 30 - 1\<close> yields, when both allocations succeed,
  a well-formed empty queue of capacity exactly \<open>n\<close>.
\<close>

theorem ptr_fifo_alloc_inv:
  assumes "\<And>sz blk. km sz = Some blk \<Longrightarrow> unat sz \<le> 4 * length blk"
    and "2 \<le> unat n" and "unat n < 2 ^ 30 - 1" and "km (4 * (n + 1)) \<noteq> None"
  shows "\<exists>p. ptr_fifo_alloc True km n fl (Some h) = (PTR_FIFO_ERROR_NONE, Some p) \<and>
     fifo_inv p \<and> fifo_list p = [] \<and> fifo_cap p = unat n"
proof -
  obtain blk where blk: "km (4 * (n + 1)) = Some blk" using assms(4) by blast
  have n1: "unat (n + 1) = unat n + 1" using unat_succ_u32 [of n] assms(3) by simp
  have "unat (4 * (n + 1)) = 4 * unat (n + 1)"
    using unat_mult_lem [of "4 :: u32" "n + 1"] n1 assms(3) by simp
  with assms(1) [OF blk] n1 have len: "unat n + 1 \<le> length blk" by simp
  have "\<not> n < 2" using assms(2) by (simp add: word_less_nat_alt)
  then show ?thesis using blk len n1 assms(2,3)
    by (simp add: ptr_fifo_alloc_def Let_def)
qed

theorem ptr_fifo_alloc_inv_witness:
  "\<exists>p. ptr_fifo_alloc True (\<lambda>sz. Some (replicate (unat sz) (0::nat))) 8 0 (Some None) = (0, Some p) \<and>
     fifo_inv p \<and> fifo_list p = [] \<and> fifo_cap p = 8"
  using ptr_fifo_alloc_inv [of "\<lambda>sz. Some (replicate (unat sz) (0::nat))" 8 0 None] by simp

text \<open>
  At the largest requests the two size computations wrap: with \<open>2 ^ 30 - 1\<close> elements the
  byte count is 0, so an allocator that answers it with a zero-length block makes the
  first insert write outside the block.
\<close>

theorem ptr_fifo_alloc_wraps:
  "\<exists>p. ptr_fifo_alloc True (\<lambda>sz. if sz = 0 then Some [] else None) 0x3FFFFFFF 0 (Some None) =
         (PTR_FIFO_ERROR_NONE, Some p) \<and>
       ptr_fifo_insert p (x :: nat) = Inl OutOfBounds"
  by (simp add: ptr_fifo_alloc_def ptr_fifo_insert_def ptr_fifo_object_valid_def arr_put_def Let_def)

text \<open>
  Peeking at an offset returns that element, counted from the oldest, exactly when the
  queue holds it (for offsets below \<open>2 ^ 32 - 1\<close>, where the successor does not wrap).
\<close>

lemma peek_offset_lookup:
  assumes inv: "fifo_inv p" and off: "unat offset + 1 < 2 ^ 32"
  shows "ptr_fifo_peek_offset p offset True =
     (if unat offset < length (fifo_list p)
      then Inr (PTR_FIFO_ERROR_NONE, Some (fifo_list p ! unat offset))
      else Inr (PTR_FIFO_ERROR_FIFO_UNDERFLOW, None))"
proof -
  obtain f where p: "p = Some f" using inv by (cases p) auto
  let ?n = "unat (fifo_size f)" and ?h = "unat (head f)" and ?k = "unat (num_elements f)"
  have o1: "unat (offset + 1) = unat offset + 1" using unat_succ_u32 off by blast
  have le: "offset + 1 > num_elements f \<longleftrightarrow> \<not> unat offset < ?k"
    by (simp add: word_less_nat_alt o1 less_Suc_eq_le not_less)
  show ?thesis
  proof (cases "unat offset < ?k")
    case True
    have bnd: "?h + 1 + unat offset < 2 ^ 32" "?h + 1 < 2 ^ 32" using inv p True by auto
    then have "unat (head f + 1 + offset) = ?h + 1 + unat offset"
      using unat_succ_u32 [of "head f"] unat_add_lem [of "head f + 1" offset] by simp
    moreover have "(?h + 1 + unat offset) mod ?n < length (pfifo_data f)"
      using inv p by (auto intro: order_less_le_trans [OF mod_less_divisor])
    moreover have "num_elements f \<noteq> 0" using True by auto
    ultimately show ?thesis using True fifo_empty_iff [of f] fifo_inv_valid [OF inv] le inv p
      by (simp add: ptr_fifo_peek_offset_def Let_def unat_mod)
  next
    case False
    then show ?thesis using fifo_inv_valid [OF inv] le p
      by (simp add: ptr_fifo_peek_offset_def Let_def)
  qed
qed

text \<open>The plain peek is the peek at offset 0, and the counters report the abstract queue.\<close>

lemma ptr_fifo_peek_hd:
  assumes "fifo_inv p"
  shows "ptr_fifo_peek p True =
     (if fifo_list p = [] then Inr (PTR_FIFO_ERROR_FIFO_UNDERFLOW, None)
      else Inr (PTR_FIFO_ERROR_NONE, Some (hd (fifo_list p))))"
proof -
  have "ptr_fifo_peek p True = ptr_fifo_peek_offset p 0 True"
    using assms fifo_empty_iff [of "the p"]
    by (cases p) (auto simp: ptr_fifo_peek_def ptr_fifo_peek_offset_def Let_def
        word_less_nat_alt unat_eq_zero simp del: fifo_inv.simps(2))
  then show ?thesis
    using peek_offset_lookup [OF assms, of 0] by (simp add: hd_conv_nth)
qed

lemma ptr_fifo_counters:
  assumes "fifo_inv p"
  shows "ptr_fifo_is_empty p True = (0, Some (if fifo_list p = [] then 1 else 0))"
    and "ptr_fifo_num_elements p True = (0, Some (of_nat (length (fifo_list p))))"
    and "ptr_fifo_free_avail p True = (0, Some (of_nat (fifo_cap p - length (fifo_list p))))"
proof -
  obtain f where p: "p = Some f" using assms by (cases p) auto
  show "ptr_fifo_is_empty p True = (0, Some (if fifo_list p = [] then 1 else 0))"
    using assms p fifo_empty_iff [of f]
    by (auto simp: ptr_fifo_is_empty_def Let_def unat_eq_zero simp del: fifo_inv.simps)
  show "ptr_fifo_num_elements p True = (0, Some (of_nat (length (fifo_list p))))"
    using assms p by (simp add: ptr_fifo_num_elements_def Let_def del: fifo_inv.simps)
  have "of_nat (unat (fifo_size f) - 1 - unat (num_elements f)) = fifo_size f - 1 - num_elements f"
    using assms p by (simp add: of_nat_diff)
  then show "ptr_fifo_free_avail p True = (0, Some (of_nat (fifo_cap p - length (fifo_list p))))"
    using assms p by (simp add: ptr_fifo_free_avail_def Let_def del: fifo_inv.simps)
qed

text \<open>
  the queries report the abstract queue. On a well-formed object the emptiness flag,
  the element count and the free count are those of the abstract list, a peek returns its
  first element and a peek at an offset the element at that position, with the underflow
  code where there is none.
\<close>

theorem ptr_fifo_queries_agree:
  assumes "fifo_inv p"
  shows "ptr_fifo_is_empty p True = (0, Some (if fifo_list p = [] then 1 else 0)) \<and>
     ptr_fifo_num_elements p True = (0, Some (of_nat (length (fifo_list p)))) \<and>
     ptr_fifo_free_avail p True = (0, Some (of_nat (fifo_cap p - length (fifo_list p)))) \<and>
     ptr_fifo_peek p True =
       (if fifo_list p = [] then Inr (PTR_FIFO_ERROR_FIFO_UNDERFLOW, None)
        else Inr (PTR_FIFO_ERROR_NONE, Some (hd (fifo_list p)))) \<and>
     (\<forall>offset. unat offset + 1 < 2 ^ 32 \<longrightarrow>
        ptr_fifo_peek_offset p offset True =
          (if unat offset < length (fifo_list p)
           then Inr (PTR_FIFO_ERROR_NONE, Some (fifo_list p ! unat offset))
           else Inr (PTR_FIFO_ERROR_FIFO_UNDERFLOW, None)))"
  using ptr_fifo_counters [OF assms] ptr_fifo_peek_hd [OF assms] peek_offset_lookup [OF assms]
  by blast

theorem ptr_fifo_queries_agree_witness:
  "ptr_fifo_num_elements (Some demo_fifo) True = (0, Some 1) \<and>
   ptr_fifo_peek_offset (Some demo_fifo) 0 True = Inr (0, Some 7)"
proof -
  have "fifo_inv (Some demo_fifo)" by (simp add: demo_fifo_def)
  from ptr_fifo_queries_agree [OF this] show ?thesis by (auto simp: demo_fifo_def)
qed

end
