(* ===== verification/QaTypes.thy ===== *)
theory QaTypes
  imports PtrFifo
begin

text \<open>
  Data of the LTE QoS agent, src/kernel/drivers/lte/lte_classifier: packet filters and
  the doubly linked classifier table that holds them (lte_qos_agent.h, lte_host_qos.h),
  bearers (\<open>tTFT\<close>), packet data networks (\<open>tPDN_CLASSIFIER\<close>), the parsed TFT message
  (\<open>tTFT_RECVD\<close>) and the packet analysis results. The build is the one the Makefiles
  select: \<open>LTE93\<close> and \<open>CONFIG_LTE\<close> defined.

  Table entries live in an explicit heap from addresses to entries. A freed address is
  absent from the heap, so that a use after free is a \<open>DanglingDeref\<close>. C arrays inside
  a structure are lists of the declared length; bit fields are bytes that the code masks
  before it stores them.
\<close>

section \<open>Constants\<close>

definition MAX_FILTERS_PER_TFT :: nat where "MAX_FILTERS_PER_TFT = 16"
definition MAX_DEDICATED_BEARER_PER_PDN :: nat where "MAX_DEDICATED_BEARER_PER_PDN = 16"
definition MAX_PDNS :: nat where "MAX_PDNS = 5"
definition ETH_ALEN :: nat where "ETH_ALEN = 6"

definition DIRECTION_TFT_UL :: u8 where "DIRECTION_TFT_UL = 2"
definition DIRECTION_TFT_DL :: u8 where "DIRECTION_TFT_DL = 1"
definition DIRECTION_TFT_BI :: u8 where "DIRECTION_TFT_BI = DIRECTION_TFT_UL OR DIRECTION_TFT_DL"

text \<open>The filter component mask, lte_host_qos.h: each bit is one component type.\<close>

definition LTE_CLA_RULE_IPV4_DESTINATION_ADDRESS_TYPE :: u64
  where "LTE_CLA_RULE_IPV4_DESTINATION_ADDRESS_TYPE = 0x0000000000800000"
definition LTE_CLA_RULE_IPV6_DESTINATION_ADDRESS_TYPE :: u64
  where "LTE_CLA_RULE_IPV6_DESTINATION_ADDRESS_TYPE = 0x0000000001000000"
definition LTE_CLA_RULE_PROTOCOL_IDENTIFIER_TYPE :: u64
  where "LTE_CLA_RULE_PROTOCOL_IDENTIFIER_TYPE = 0x0000000002000000"
definition LTE_CLA_RULE_SINGLE_DESTINATION_PORT_TYPE :: u64
  where "LTE_CLA_RULE_SINGLE_DESTINATION_PORT_TYPE = 0x0000000008000000"
definition LTE_CLA_RULE_DESTINATION_PORT_RANGE_TYPE :: u64
  where "LTE_CLA_RULE_DESTINATION_PORT_RANGE_TYPE = 0x0000000010000000"
definition LTE_CLA_RULE_SINGLE_SOURCE_PORT_TYPE :: u64
  where "LTE_CLA_RULE_SINGLE_SOURCE_PORT_TYPE = 0x0000000020000000"
definition LTE_CLA_RULE_SOURCE_PORT_RANGE_TYPE :: u64
  where "LTE_CLA_RULE_SOURCE_PORT_RANGE_TYPE = 0x0000000040000000"
definition LTE_CLA_RULE_SECURITY_PARAMETER_INDEX_TYPE :: u64
  where "LTE_CLA_RULE_SECURITY_PARAMETER_INDEX_TYPE = 0x0000000080000000"
definition LTE_CLA_RULE_TYPE_OF_SERVICE_TYPE :: u64
  where "LTE_CLA_RULE_TYPE_OF_SERVICE_TYPE = 0x0000000100000000"
definition LTE_CLA_RULE_TRAFFIC_CLASS_TYPE :: u64
  where "LTE_CLA_RULE_TRAFFIC_CLASS_TYPE = 0x0000000200000000"
definition LTE_CLA_RULE_FLOW_LABEL_TYPE :: u64
  where "LTE_CLA_RULE_FLOW_LABEL_TYPE = 0x0000000400000000"
definition LTE_CLA_RULE_MATCH_ALL :: u64
  where "LTE_CLA_RULE_MATCH_ALL = 0xffffffffffffffff"

lemmas cla_rule_defs =
  LTE_CLA_RULE_IPV4_DESTINATION_ADDRESS_TYPE_def LTE_CLA_RULE_IPV6_DESTINATION_ADDRESS_TYPE_def
  LTE_CLA_RULE_PROTOCOL_IDENTIFIER_TYPE_def LTE_CLA_RULE_SINGLE_DESTINATION_PORT_TYPE_def
  LTE_CLA_RULE_DESTINATION_PORT_RANGE_TYPE_def LTE_CLA_RULE_SINGLE_SOURCE_PORT_TYPE_def
  LTE_CLA_RULE_SOURCE_PORT_RANGE_TYPE_def LTE_CLA_RULE_SECURITY_PARAMETER_INDEX_TYPE_def
  LTE_CLA_RULE_TYPE_OF_SERVICE_TYPE_def LTE_CLA_RULE_TRAFFIC_CLASS_TYPE_def
  LTE_CLA_RULE_FLOW_LABEL_TYPE_def LTE_CLA_RULE_MATCH_ALL_def

lemmas direction_defs = DIRECTION_TFT_UL_def DIRECTION_TFT_DL_def DIRECTION_TFT_BI_def

lemmas max_defs = MAX_FILTERS_PER_TFT_def MAX_DEDICATED_BEARER_PER_PDN_def MAX_PDNS_def

text \<open>Return codes, \<open>AMP_RET_CODE_E\<close> of AMP_general.h: those the agent returns.\<close>

datatype amp_ret = eAMP_RET_SUCCESS | eAMP_RET_FAIL | eAMP_RET_WIMAX_QOS_PKT_DROP

section \<open>Filters and table entries\<close>

text \<open>
  One-element arrays of the C structure (\<open>sEntry[0]\<close>, \<open>u8Entry[0]\<close>) are plain fields.
\<close>

record tPACKET_FILTER =
  u8EpsId :: u8
  u8Direction :: u8
  u8PacketFilterIdentifier :: u8
  u8PacketFilterPrecedence :: u8
  u32ClaMask :: u64
  sIpProt_NumOfEntry :: u32
  sIpProt_Entry :: u8
  sIpv4DestAddrMask_Entry1 :: "u8 list"
  sIpv4DestAddrMask_Entry2 :: "u8 list"
  sIpv6DestAddrMask_Entry1 :: "u8 list"
  sIpv6DestAddrMask_Entry2 :: "u8 list"
  sIpSrcPort_NumOfEntry :: u32
  sIpSrcPort_Entry1 :: u16
  sIpSrcPort_Entry2 :: u16
  sIpDestPort_NumOfEntry :: u32
  sIpDestPort_Entry1 :: u16
  sIpDestPort_Entry2 :: u16
  sSpi_NumOfEntry :: u32
  sSpi_Entry :: u32
  sDscp_Entry1 :: u8
  sDscp_Entry2 :: u8
  u8Ipv6FlowLabel :: "u8 list"

definition zero_filter :: tPACKET_FILTER where
  "zero_filter = \<lparr>u8EpsId = 0, u8Direction = 0, u8PacketFilterIdentifier = 0,
     u8PacketFilterPrecedence = 0, u32ClaMask = 0, sIpProt_NumOfEntry = 0, sIpProt_Entry = 0,
     sIpv4DestAddrMask_Entry1 = replicate 4 0, sIpv4DestAddrMask_Entry2 = replicate 4 0,
     sIpv6DestAddrMask_Entry1 = replicate 16 0, sIpv6DestAddrMask_Entry2 = replicate 16 0,
     sIpSrcPort_NumOfEntry = 0, sIpSrcPort_Entry1 = 0, sIpSrcPort_Entry2 = 0,
     sIpDestPort_NumOfEntry = 0, sIpDestPort_Entry1 = 0, sIpDestPort_Entry2 = 0,
     sSpi_NumOfEntry = 0, sSpi_Entry = 0, sDscp_Entry1 = 0, sDscp_Entry2 = 0,
     u8Ipv6FlowLabel = replicate 3 0\<rparr>"

record tCLASSIFIER_TABLE_ENTRY =
  tPacketFilter :: tPACKET_FILTER
  tNextPF :: ptr
  tPrevPF :: ptr

type_synonym heap = "addr \<rightharpoonup> tCLASSIFIER_TABLE_ENTRY"

abbreviation prec :: "tCLASSIFIER_TABLE_ENTRY \<Rightarrow> u8" where
  "prec e \<equiv> u8PacketFilterPrecedence (tPacketFilter e)"

abbreviation pfid :: "tCLASSIFIER_TABLE_ENTRY \<Rightarrow> u8" where
  "pfid e \<equiv> u8PacketFilterIdentifier (tPacketFilter e)"

definition deref :: "heap \<Rightarrow> ptr \<Rightarrow> tCLASSIFIER_TABLE_ENTRY res" where
  "deref h p = (case p of None \<Rightarrow> Inl NullDeref
                | Some a \<Rightarrow> (case h a of None \<Rightarrow> Inl DanglingDeref | Some e \<Rightarrow> Inr e))"

text \<open>Assignments through a pointer.\<close>

definition put_entry ::
  "heap \<Rightarrow> ptr \<Rightarrow> (tCLASSIFIER_TABLE_ENTRY \<Rightarrow> tCLASSIFIER_TABLE_ENTRY) \<Rightarrow> heap res" where
  "put_entry h p f = rbind (deref h p) (\<lambda>e. Inr (h(the p \<mapsto> f e)))"

abbreviation set_next :: "heap \<Rightarrow> ptr \<Rightarrow> ptr \<Rightarrow> heap res" where
  "set_next h p n \<equiv> put_entry h p (\<lambda>e. e\<lparr>tNextPF := n\<rparr>)"

abbreviation set_prev :: "heap \<Rightarrow> ptr \<Rightarrow> ptr \<Rightarrow> heap res" where
  "set_prev h p n \<equiv> put_entry h p (\<lambda>e. e\<lparr>tPrevPF := n\<rparr>)"

abbreviation set_filter :: "heap \<Rightarrow> ptr \<Rightarrow> tPACKET_FILTER \<Rightarrow> heap res" where
  "set_filter h p f \<equiv> put_entry h p (\<lambda>e. e\<lparr>tPacketFilter := f\<rparr>)"

text \<open>\<open>kfree\<close>: freeing NULL does nothing, the block of any other address goes away.\<close>

definition kfree_entry :: "heap \<Rightarrow> ptr \<Rightarrow> heap" where
  "kfree_entry h p = (case p of None \<Rightarrow> h | Some a \<Rightarrow> h(a := None))"

text \<open>
  \<open>kmalloc (sizeof(tCLASSIFIER_TABLE_ENTRY))\<close> is a parameter of the operations that
  allocate: the address it returns with the uninitialised contents of the block, or
  \<open>None\<close> for failure. What the code relies on is that the block is not in use.
\<close>

type_synonym allocator = "heap \<Rightarrow> (addr \<times> tCLASSIFIER_TABLE_ENTRY) option"

definition fresh_allocator :: "allocator \<Rightarrow> bool" where
  "fresh_allocator km \<longleftrightarrow> (\<forall>h a e. km h = Some (a, e) \<longrightarrow> h a = None)"

lemma deref_Some [simp]: "h a = Some e \<Longrightarrow> deref h (Some a) = Inr e"
  by (simp add: deref_def)

lemma deref_None [simp]: "deref h None = Inl NullDeref"
  by (simp add: deref_def)

lemma deref_dangling [simp]: "h a = None \<Longrightarrow> deref h (Some a) = Inl DanglingDeref"
  by (simp add: deref_def)

lemma put_entry_Some [simp]: "h a = Some e \<Longrightarrow> put_entry h (Some a) f = Inr (h(a \<mapsto> f e))"
  by (simp add: put_entry_def)

lemma put_entry_None [simp]: "put_entry h None f = Inl NullDeref"
  by (simp add: put_entry_def)

lemma kfree_entry_simps [simp]: "kfree_entry h None = h" "kfree_entry h (Some a) = h(a := None)"
  by (simp_all add: kfree_entry_def)

section \<open>Bearers, networks and the agent's state\<close>

record tHIF_QOS =
  u8Len :: u8
  uQciLabel :: u8
  uMaxBitRateUplnk :: u8
  uMaxBitRateDownlnk :: u8
  uGaurenBitRateUplnk :: u8
  uGaurenBitRateDownlnk :: u8
  uMaxBitRateUplnkExt :: u8
  uMaxBitRateDownlnkExt :: u8
  uGaurenBitRateUplnkExt :: u8
  uGaurenBitRateDownlnkExt :: u8

definition zero_qos :: tHIF_QOS where
  "zero_qos = \<lparr>u8Len = 0, uQciLabel = 0, uMaxBitRateUplnk = 0, uMaxBitRateDownlnk = 0,
     uGaurenBitRateUplnk = 0, uGaurenBitRateDownlnk = 0, uMaxBitRateUplnkExt = 0,
     uMaxBitRateDownlnkExt = 0, uGaurenBitRateUplnkExt = 0, uGaurenBitRateDownlnkExt = 0\<rparr>"

record tTFT =
  u8EpsBearerId :: u8
  tHifQos :: tHIF_QOS
  u8NumFilters :: u8
  tPacketFilters :: "ptr list"

definition zero_tft :: tTFT where
  "zero_tft = \<lparr>u8EpsBearerId = 0, tHifQos = zero_qos, u8NumFilters = 0,
     tPacketFilters = replicate MAX_FILTERS_PER_TFT None\<rparr>"

text \<open>The access point name is never read or written by the agent and is left out.\<close>

record tPDN_CLASSIFIER =
  tDefaultBearer :: tTFT
  u8MatchAll :: u8
  u8SrcMacAddr :: "u8 list"
  u8PdnType :: u8
  u8PdnAddress :: "u8 list"
  u8NumDedicatedBearers :: u8
  tDedicatedBearer :: "tTFT list"
  tClassifierTable :: ptr

definition zero_pdn :: tPDN_CLASSIFIER where
  "zero_pdn = \<lparr>tDefaultBearer = zero_tft, u8MatchAll = 0, u8SrcMacAddr = replicate 6 0,
     u8PdnType = 0, u8PdnAddress = replicate 12 0, u8NumDedicatedBearers = 0,
     tDedicatedBearer = replicate MAX_DEDICATED_BEARER_PER_PDN zero_tft,
     tClassifierTable = None\<rparr>"

text \<open>
  The received TFT. In C \<open>u8PfidList\<close> and the filter array share a union; a message
  uses one of the two, after the whole structure has been cleared.
\<close>

record tTFT_RECVD =
  rcv_EpsBearerId :: u8
  rcv_TFTOpCode :: u8
  rcv_EBit :: u8
  rcv_NumFilters :: u8
  rcv_PfidList :: "u8 list"
  rcv_PacketFilters :: "tPACKET_FILTER list"

definition zero_tft_recvd :: tTFT_RECVD where
  "zero_tft_recvd = \<lparr>rcv_EpsBearerId = 0, rcv_TFTOpCode = 0, rcv_EBit = 0, rcv_NumFilters = 0,
     rcv_PfidList = replicate MAX_FILTERS_PER_TFT 0,
     rcv_PacketFilters = replicate MAX_FILTERS_PER_TFT zero_filter\<rparr>"

text \<open>
  Packet analysis results, with pointers into the packet represented by the bytes from
  the pointer to the end of the packet (\<open>None\<close> for the initial NULL).
\<close>

record packet_result =
  u8IpTos :: u8
  u8IpProtocol :: u8
  u8IpVersion :: u8
  u32Ipv6FlowLabel :: u32
  pu8IpSourceAddr :: "u8 list option"
  pu8IpDestAddr :: "u8 list option"
  u16SourcePort :: u16
  u16DestPort :: u16
  pu8SourceMacAddr :: "u8 list option"
  u16Present :: u16
  n32IpAddressLength :: nat

definition zero_packet_result :: packet_result where
  "zero_packet_result = \<lparr>u8IpTos = 0, u8IpProtocol = 0, u8IpVersion = 0, u32Ipv6FlowLabel = 0,
     pu8IpSourceAddr = None, pu8IpDestAddr = None, u16SourcePort = 0, u16DestPort = 0,
     pu8SourceMacAddr = None, u16Present = 0, n32IpAddressLength = 0\<rparr>"

text \<open>The module's globals: the heap, \<open>gsQa_lte\<close> and \<open>tft_recvd\<close>.\<close>

record qa_state =
  qa_heap :: heap
  gsQa_lte :: "tPDN_CLASSIFIER list"
  tft_recvd :: tTFT_RECVD

definition qa_init :: qa_state where
  "qa_init = \<lparr>qa_heap = Map.empty, gsQa_lte = replicate MAX_PDNS zero_pdn,
     tft_recvd = zero_tft_recvd\<rparr>"

end
