(* ===== verification/QaTable.thy ===== *)
theory QaTable
  imports QaTypes
begin

text \<open>
  The classifier table of one packet data network: a doubly linked list of filters kept
  in ascending precedence. The theory gives the pointer operations the agent performs on
  it (walk, insert at a position, unlink, append), the shape predicate \<open>dseg\<close> of a list
  segment in the heap, and the refinement of each operation to an operation on lists of
  addresses.
\<close>

section \<open>Pointer operations\<close>

text \<open>
  The loop \<open>while (p != NULL && c(p)) { q = p; p = p->tNextPF; }\<close>. The list could be
  cyclic, so the loop is a partial function whose \<open>None\<close> means that it never ends.
\<close>

partial_function (option) qa_walk ::
  "(tCLASSIFIER_TABLE_ENTRY \<Rightarrow> bool) \<Rightarrow> heap \<Rightarrow> ptr \<Rightarrow> ptr \<Rightarrow> (ptr \<times> ptr) res option" where
  "qa_walk c h q p =
     (case p of
        None \<Rightarrow> Some (Inr (q, p))
      | Some a \<Rightarrow>
          (case h a of
             None \<Rightarrow> Some (Inl DanglingDeref)
           | Some e \<Rightarrow> if c e then qa_walk c h p (tNextPF e) else Some (Inr (q, p))))"

text \<open>
  Inserting a filter at the place its precedence gives it, the body of the filter loop of
  \<open>Qa_Add_SortTFT\<close>: in front when the list is empty or its first precedence is not
  smaller, otherwise after the entries of smaller precedence. The result is the new heap,
  the new head and the address of the new entry; \<open>None\<close> when the allocation fails.
\<close>

definition qa_add_sorted ::
  "allocator \<Rightarrow> heap \<Rightarrow> ptr \<Rightarrow> tPACKET_FILTER \<Rightarrow> (heap \<times> ptr \<times> addr) option res" where
  "qa_add_sorted km h tab f =
     rbind (case tab of None \<Rightarrow> Inr True
            | Some _ \<Rightarrow> rbind (deref h tab) (\<lambda>e. Inr (u8PacketFilterPrecedence f \<le> prec e)))
       (\<lambda>front.
        if front then
          (case km h of
             None \<Rightarrow> Inr None
           | Some (t, e0) \<Rightarrow>
               rbind (put_entry (h(t \<mapsto> e0)) (Some t)
                        (\<lambda>e. e\<lparr>tPacketFilter := f, tNextPF := tab, tPrevPF := None\<rparr>)) (\<lambda>h1.
               rbind (if tab \<noteq> None then set_prev h1 tab (Some t) else Inr h1) (\<lambda>h2.
               Inr (Some (h2, Some t, t)))))
        else
          rbind (returned (qa_walk (\<lambda>e. prec e < u8PacketFilterPrecedence f) h None tab)) (\<lambda>(q, p).
            (case km h of
               None \<Rightarrow> Inr None
             | Some (t, e0) \<Rightarrow>
                 let h0 = h(t \<mapsto> e0) in
                 if p \<noteq> None \<and> q \<noteq> None then
                   rbind (put_entry h0 (Some t)
                            (\<lambda>e. e\<lparr>tPacketFilter := f, tNextPF := p, tPrevPF := q\<rparr>)) (\<lambda>h1.
                   rbind (set_next h1 q (Some t)) (\<lambda>h2.
                   rbind (set_prev h2 p (Some t)) (\<lambda>h3.
                   Inr (Some (h3, tab, t)))))
                 else if p = None \<and> q \<noteq> None then
                   rbind (put_entry h0 (Some t)
                            (\<lambda>e. e\<lparr>tPacketFilter := f, tNextPF := p, tPrevPF := q\<rparr>)) (\<lambda>h1.
                   rbind (set_next h1 q (Some t)) (\<lambda>h2.
                   Inr (Some (h2, tab, t))))
                 else Inr (Some (h0, tab, t)))))"

text \<open>
  Taking an entry out of the list, the code shared by the four deletion paths. With
  \<open>chk\<close> the successor of a deleted head is tested for NULL before its back pointer is
  written; \<open>Qa_Bearer_Delete\<close> omits that test.
\<close>

definition qa_unlink :: "bool \<Rightarrow> heap \<Rightarrow> ptr \<Rightarrow> ptr \<Rightarrow> (heap \<times> ptr) res" where
  "qa_unlink chk h tab temp =
     rbind (deref h temp) (\<lambda>e.
       if temp = tab then
         rbind (if chk \<and> tNextPF e = None then Inr h else set_prev h (tNextPF e) None) (\<lambda>h1.
         Inr (h1, tNextPF e))
       else if tNextPF e = None then
         rbind (set_next h (tPrevPF e) None) (\<lambda>h1. Inr (h1, tab))
       else
         rbind (set_next h (tPrevPF e) (tNextPF e)) (\<lambda>h1.
         rbind (set_prev h1 (tNextPF e) (tPrevPF e)) (\<lambda>h2.
         Inr (h2, tab))))"

section \<open>List segments in the heap\<close>

text \<open>
  \<open>dseg h prv p as nxt\<close>: following \<open>tNextPF\<close> from \<open>p\<close> visits the addresses \<open>as\<close> and
  then reaches \<open>nxt\<close>; each entry points back to the one before it, the first to \<open>prv\<close>.
\<close>

fun dseg :: "heap \<Rightarrow> ptr \<Rightarrow> ptr \<Rightarrow> addr list \<Rightarrow> ptr \<Rightarrow> bool" where
  "dseg h prv p [] nxt = (p = nxt)"
| "dseg h prv p (a # as) nxt =
     (p = Some a \<and>
      (case h a of None \<Rightarrow> False
       | Some e \<Rightarrow> tPrevPF e = prv \<and> dseg h (Some a) (tNextPF e) as nxt))"

definition firstp :: "addr list \<Rightarrow> ptr \<Rightarrow> ptr" where
  "firstp as nxt = (case as of [] \<Rightarrow> nxt | a # _ \<Rightarrow> Some a)"

definition lastp :: "ptr \<Rightarrow> addr list \<Rightarrow> ptr" where
  "lastp prv as = (if as = [] then prv else Some (last as))"

lemma firstp_simps [simp]: "firstp [] nxt = nxt" "firstp (a # as) nxt = Some a"
  by (simp_all add: firstp_def)

lemma lastp_simps [simp]:
  "lastp prv [] = prv" "lastp prv (as @ [a]) = Some a" "lastp prv (a # as) = lastp (Some a) as"
  by (simp_all add: lastp_def)

lemma dseg_first: "dseg h prv p as nxt \<Longrightarrow> p = firstp as nxt"
  by (cases as) auto

lemma dseg_append [simp]:
  "dseg h prv p (xs @ ys) nxt \<longleftrightarrow>
     dseg h prv p xs (firstp ys nxt) \<and> dseg h (lastp prv xs) (firstp ys nxt) ys nxt"
proof (induction xs arbitrary: prv p)
  case Nil
  then show ?case by (cases ys) auto
next
  case (Cons a xs)
  then show ?case by (auto split: option.splits)
qed

lemma dseg_cong:
  "(\<And>a. a \<in> set as \<Longrightarrow> h' a = h a) \<Longrightarrow> dseg h' prv p as nxt = dseg h prv p as nxt"
  by (induction as arbitrary: prv p) (auto split: option.splits)

lemma dseg_upd_other [simp]:
  "a \<notin> set as \<Longrightarrow> dseg (h(a := v)) prv p as nxt = dseg h prv p as nxt"
  by (rule dseg_cong) auto

lemma dseg_in_heap: "dseg h prv p as nxt \<Longrightarrow> a \<in> set as \<Longrightarrow> \<exists>e. h a = Some e"
  by (induction as arbitrary: prv p) (auto split: option.splits)

lemma dseg_unique:
  "dseg h prv p as None \<Longrightarrow> dseg h prv' p bs None \<Longrightarrow> as = bs"
proof (induction as arbitrary: prv prv' p bs)
  case Nil
  then show ?case by (cases bs) auto
next
  case (Cons a as)
  then show ?case by (cases bs) (auto split: option.splits)
qed

lemma dseg_next_upd:
  assumes "dseg h prv p xs nxt" "xs \<noteq> []" "distinct xs" "h (last xs) = Some e"
  shows "dseg (h(last xs \<mapsto> e\<lparr>tNextPF := n\<rparr>)) prv p xs n"
proof -
  obtain ys a where xs: "xs = ys @ [a]" using assms(2) by (metis rev_exhaust)
  with assms show ?thesis by (auto split: option.splits)
qed

lemma dseg_prev_upd:
  assumes "dseg h prv p (b # ys) nxt" "b \<notin> set ys" "h b = Some e"
  shows "dseg (h(b \<mapsto> e\<lparr>tPrevPF := q\<rparr>)) q (Some b) (b # ys) nxt"
  using assms by auto

section \<open>Walking\<close>

lemma qa_walk_dseg:
  "dseg h q p as None \<Longrightarrow>
     qa_walk c h q p =
       Some (Inr (lastp q (takeWhile (\<lambda>a. c (the (h a))) as),
                  firstp (dropWhile (\<lambda>a. c (the (h a))) as) None))"
proof (induction as arbitrary: q p)
  case Nil
  then show ?case by (simp add: qa_walk.simps)
next
  case (Cons a as)
  then obtain e where e: "h a = Some e" "p = Some a" "dseg h (Some a) (tNextPF e) as None"
    by (auto split: option.splits)
  show ?case
  proof (cases "c e")
    case True
    with e Cons.IH [OF e(3)] show ?thesis by (simp add: qa_walk.simps [of c h q])
  next
    case False
    with e show ?thesis by (simp add: qa_walk.simps)
  qed
qed

section \<open>Well-formed tables\<close>

definition filters_of :: "heap \<Rightarrow> addr list \<Rightarrow> tPACKET_FILTER list" where
  "filters_of h as = map (\<lambda>a. tPacketFilter (the (h a))) as"

text \<open>
  The table \<open>tab\<close> is the list \<open>as\<close>: a null-terminated doubly linked list without
  repetition whose precedences ascend.
\<close>

definition dlist :: "heap \<Rightarrow> ptr \<Rightarrow> addr list \<Rightarrow> bool" where
  "dlist h tab as \<longleftrightarrow> dseg h None tab as None \<and> distinct as"

lemma dlist_in_heap: "dlist h tab as \<Longrightarrow> a \<in> set as \<Longrightarrow> \<exists>e. h a = Some e"
  by (auto simp: dlist_def dest: dseg_in_heap)

definition sorted_filters :: "tPACKET_FILTER list \<Rightarrow> bool" where
  "sorted_filters fs \<longleftrightarrow> sorted (map u8PacketFilterPrecedence fs)"

definition table_ok :: "heap \<Rightarrow> ptr \<Rightarrow> addr list \<Rightarrow> bool" where
  "table_ok h tab as \<longleftrightarrow> dlist h tab as \<and> sorted_filters (filters_of h as)"

text \<open>The abstract insertion: in front of the first filter of no smaller precedence.\<close>

definition ins_filter :: "tPACKET_FILTER \<Rightarrow> tPACKET_FILTER list \<Rightarrow> tPACKET_FILTER list" where
  "ins_filter f fs =
     takeWhile (\<lambda>g. u8PacketFilterPrecedence g < u8PacketFilterPrecedence f) fs @ f #
     dropWhile (\<lambda>g. u8PacketFilterPrecedence g < u8PacketFilterPrecedence f) fs"

lemma dropWhile_sorted_ge:
  fixes k :: "'b \<Rightarrow> 'a :: linorder"
  assumes "sorted (map k xs)" "y \<in> set (dropWhile (\<lambda>x. k x < v) xs)"
  shows "v \<le> k y"
  using assms
  by (induction xs) (auto split: if_splits)

lemma sorted_ins_filter: "sorted_filters fs \<Longrightarrow> sorted_filters (ins_filter f fs)"
  unfolding sorted_filters_def ins_filter_def
proof -
  let ?p = u8PacketFilterPrecedence
  let ?xs = "takeWhile (\<lambda>g. ?p g < ?p f) fs" and ?ys = "dropWhile (\<lambda>g. ?p g < ?p f) fs"
  assume s: "sorted (map ?p fs)"
  then have "sorted (map ?p ?xs)" "sorted (map ?p ?ys)"
    by (metis map_append sorted_append takeWhile_dropWhile_id)+
  moreover have "\<forall>g \<in> set ?xs. ?p g < ?p f" by (auto dest: set_takeWhileD)
  moreover have "\<forall>g \<in> set ?ys. ?p f \<le> ?p g" using dropWhile_sorted_ge [OF s] by blast
  ultimately show "sorted (map ?p (?xs @ f # ?ys))"
    by (fastforce simp: sorted_append)
qed

text \<open>
  Which entries an operation on the list \<open>as\<close> may change: outside it nothing changes,
  inside it the filters stay.
\<close>

definition links_only :: "heap \<Rightarrow> heap \<Rightarrow> addr set \<Rightarrow> bool" where
  "links_only h h' A \<longleftrightarrow>
     (\<forall>a. a \<notin> A \<longrightarrow> h' a = h a) \<and>
     (\<forall>a \<in> A. map_option tPacketFilter (h' a) = map_option tPacketFilter (h a))"

lemma links_only_filter:
  "links_only h h' A \<Longrightarrow> map_option tPacketFilter (h' a) = map_option tPacketFilter (h a)"
  by (cases "a \<in> A") (auto simp: links_only_def)

lemma links_only_filters_of:
  assumes "links_only h h' A" "\<And>a. a \<in> set as \<Longrightarrow> \<exists>e. h a = Some e"
  shows "filters_of h' as = filters_of h as"
  unfolding filters_of_def
proof (rule map_cong [OF refl])
  fix a assume "a \<in> set as"
  with assms(2) obtain e where "h a = Some e" by blast
  with links_only_filter [OF assms(1), of a] show
    "tPacketFilter (the (h' a)) = tPacketFilter (the (h a))" by auto
qed

section \<open>Insertion\<close>

definition splice_heap :: "heap \<Rightarrow> ptr \<Rightarrow> addr \<Rightarrow> ptr \<Rightarrow> tPACKET_FILTER \<Rightarrow> heap" where
  "splice_heap h q t p f =
     (let h1 = h(t \<mapsto> \<lparr>tPacketFilter = f, tNextPF = p, tPrevPF = q\<rparr>);
          h2 = (case q of None \<Rightarrow> h1 | Some a \<Rightarrow> h1(a := map_option (\<lambda>e. e\<lparr>tNextPF := Some t\<rparr>) (h1 a)))
      in (case p of None \<Rightarrow> h2 | Some b \<Rightarrow> h2(b := map_option (\<lambda>e. e\<lparr>tPrevPF := Some t\<rparr>) (h2 b))))"

lemma splice_dlist:
  assumes "dlist h tab (xs @ ys)" "t \<notin> set (xs @ ys)"
  shows "dlist (splice_heap h (lastp None xs) t (firstp ys None) f)
           (if xs = [] then Some t else tab) (xs @ t # ys)"
proof -
  have d: "dseg h None tab xs (firstp ys None)" "dseg h (lastp None xs) (firstp ys None) ys None"
    "distinct (xs @ ys)" using assms(1) by (auto simp: dlist_def)
  show ?thesis
  proof (cases xs rule: rev_cases)
    case Nil
    with d assms(2) show ?thesis
      by (cases ys) (auto simp: dlist_def splice_heap_def Let_def split: option.splits)
  next
    case (snoc us a)
    with d assms(2) show ?thesis
      by (cases ys) (auto simp: dlist_def splice_heap_def Let_def split: option.splits)
  qed
qed

lemma splice_links_only:
  assumes "dlist h tab (xs @ ys)" "t \<notin> set (xs @ ys)"
  shows "links_only (h(t \<mapsto> \<lparr>tPacketFilter = f, tNextPF = p0, tPrevPF = q0\<rparr>))
           (splice_heap h (lastp None xs) t (firstp ys None) f) (insert t (set (xs @ ys)))"
  using assms
  by (cases xs rule: rev_cases; cases ys)
     (auto simp: links_only_def dlist_def splice_heap_def Let_def option.map_comp comp_def
           split: option.splits)

lemma entry_upd_all [simp]:
  "e\<lparr>tPacketFilter := f, tNextPF := n, tPrevPF := q\<rparr> =
     \<lparr>tPacketFilter = f, tNextPF = n, tPrevPF = q\<rparr>"
  for e :: tCLASSIFIER_TABLE_ENTRY
  by (cases e) simp

lemma qa_add_sorted_splice:
  fixes f :: tPACKET_FILTER
  defines "C h \<equiv> \<lambda>a. prec (the (h a)) < u8PacketFilterPrecedence f"
  assumes dl: "dlist h tab as" and km: "km h = Some (t, e0)" and fr: "h t = None"
  shows "qa_add_sorted km h tab f =
     Inr (Some (splice_heap h (lastp None (takeWhile (C h) as)) t (firstp (dropWhile (C h) as) None) f,
                if takeWhile (C h) as = [] then Some t else tab, t))"
proof (cases as)
  case Nil
  with dl have "tab = None" by (simp add: dlist_def)
  with Nil km show ?thesis by (simp add: qa_add_sorted_def splice_heap_def)
next
  case (Cons a as')
  with dl obtain e where "tab = Some a" "h a = Some e"
    by (cases "h a") (auto simp: dlist_def)
  with fr have e: "tab = Some a" "h a = Some e" "a \<noteq> t" by auto
  show ?thesis
  proof (cases "prec e < u8PacketFilterPrecedence f")
    case False
    then have "u8PacketFilterPrecedence f \<le> prec e" by simp
    with False e km Cons show ?thesis
      by (simp add: qa_add_sorted_def splice_heap_def C_def Let_def del: not_less)
  next
    case True
    then have nle: "\<not> u8PacketFilterPrecedence f \<le> prec e" by simp
    let ?xs = "takeWhile (C h) as" and ?ys = "dropWhile (C h) as"
    have w: "qa_walk (\<lambda>e. prec e < u8PacketFilterPrecedence f) h None tab =
        Some (Inr (lastp None ?xs, firstp ?ys None))"
      using qa_walk_dseg [of h None tab as] dl by (simp add: dlist_def C_def)
    have ne: "?xs \<noteq> []" using True e Cons by (simp add: C_def)
    then obtain q where q: "lastp None ?xs = Some q" "q \<in> set as"
      using set_takeWhileD [of "last ?xs" "C h" as] by (auto simp: lastp_def)
    then obtain eq where "h q = Some eq" using dlist_in_heap [OF dl] by blast
    with fr have eq: "h q = Some eq" "q \<noteq> t" by auto
    show ?thesis
    proof (cases ?ys)
      case Nil
      then have "firstp ?ys None = None" by (simp only: firstp_simps)
      with nle e km w q eq ne show ?thesis
        by (simp add: qa_add_sorted_def splice_heap_def Let_def)
    next
      case ys: (Cons b zs)
      then have b: "b \<in> set as" "b \<in> set ?ys" using set_dropWhileD [of b "C h" as] by auto
      moreover have "q \<in> set ?xs" using q ne by (auto simp: lastp_def)
      moreover have "set ?xs \<inter> set ?ys = {}"
        using dl by (metis dlist_def distinct_append takeWhile_dropWhile_id)
      ultimately have "b \<noteq> q" by auto
      moreover obtain eb where "h b = Some eb" using dlist_in_heap [OF dl b(1)] by blast
      moreover from this fr have "b \<noteq> t" by auto
      ultimately show ?thesis using nle e km w q eq ne ys
        by (simp add: qa_add_sorted_def splice_heap_def Let_def)
    qed
  qed
qed

lemma qa_add_sorted_no_memory:
  assumes "dlist h tab as" "km h = None"
  shows "qa_add_sorted km h tab f = Inr None"
proof (cases as)
  case Nil
  with assms show ?thesis by (simp add: dlist_def qa_add_sorted_def)
next
  case (Cons a as')
  with assms(1) obtain e where "tab = Some a" "h a = Some e"
    by (cases "h a") (auto simp: dlist_def)
  moreover note qa_walk_dseg [of h None tab as]
  ultimately show ?thesis
    using assms by (simp add: qa_add_sorted_def dlist_def)
qed

text \<open>
  Inserting into a well-formed table succeeds, leaves a well-formed table whose filters
  are the abstract insertion, and touches no entry outside the table.
\<close>

lemma qa_add_sorted_refines:
  assumes ok: "dlist h tab as" and km: "km h = Some (t, e0)" and fr: "h t = None"
  shows "\<exists>h' tab' as'. qa_add_sorted km h tab f = Inr (Some (h', tab', t)) \<and>
     dlist h' tab' as' \<and> set as' = insert t (set as) \<and>
     filters_of h' as' = ins_filter f (filters_of h as) \<and>
     map_option tPacketFilter (h' t) = Some f \<and>
     (\<forall>a. a \<notin> insert t (set as) \<longrightarrow> h' a = h a) \<and>
     (\<forall>a \<in> set as. map_option tPacketFilter (h' a) = map_option tPacketFilter (h a))"
proof -
  let ?C = "\<lambda>a. prec (the (h a)) < u8PacketFilterPrecedence f"
  let ?xs = "takeWhile ?C as" and ?ys = "dropWhile ?C as"
  let ?h = "splice_heap h (lastp None ?xs) t (firstp ?ys None) f"
  have t: "t \<notin> set (?xs @ ?ys)"
    using fr dseg_in_heap [of h None tab as None t] ok by (auto simp: dlist_def)
  have dl: "dlist h tab (?xs @ ?ys)" using ok by simp
  note lo = splice_links_only [OF dl t, of f None None]
  have lt: "map_option tPacketFilter (?h t) = Some f"
    using links_only_filter [OF lo, of t] by simp
  have la: "map_option tPacketFilter (?h a) = map_option tPacketFilter (h a)" if "a \<noteq> t" for a
    using links_only_filter [OF lo, of a] that by simp
  have lf: "tPacketFilter (the (?h a)) = tPacketFilter (the (h a))" if a: "a \<in> set as" for a
  proof -
    have "a \<noteq> t" using a t by auto
    moreover obtain e where "h a = Some e" using dlist_in_heap [OF ok a] by blast
    ultimately show ?thesis using la [of a] by auto
  qed
  have "filters_of ?h (?xs @ t # ?ys) =
      map (\<lambda>a. tPacketFilter (the (h a))) ?xs @ f # map (\<lambda>a. tPacketFilter (the (h a))) ?ys"
    using lf lt by (auto simp: filters_of_def dest: set_takeWhileD set_dropWhileD)
  also have "\<dots> = ins_filter f (filters_of h as)"
    by (simp add: ins_filter_def filters_of_def takeWhile_map dropWhile_map comp_def)
  finally have "filters_of ?h (?xs @ t # ?ys) = ins_filter f (filters_of h as)" .
  moreover have "set (?xs @ t # ?ys) = insert t (set as)"
    by (metis Un_insert_right list.simps(15) set_append takeWhile_dropWhile_id)
  moreover have "\<forall>a. a \<notin> insert t (set as) \<longrightarrow> ?h a = h a"
    using lo by (auto simp: links_only_def)
  moreover have "\<forall>a \<in> set as. map_option tPacketFilter (?h a) = map_option tPacketFilter (h a)"
  proof
    fix a assume "a \<in> set as"
    with t have "a \<noteq> t" by auto
    then show "map_option tPacketFilter (?h a) = map_option tPacketFilter (h a)" by (rule la)
  qed
  ultimately show ?thesis
    using qa_add_sorted_splice [of h tab as km t e0 f, OF ok km fr] splice_dlist [OF dl t, of f] lt by blast
qed

section \<open>Removal\<close>

text \<open>
  Taking an entry out of a well-formed list removes exactly that address; only links of
  the other entries change. Without the NULL test the removal of the only entry is a null
  dereference.
\<close>

lemma qa_unlink_refines:
  assumes dl: "dlist h tab (xs @ t # ys)" and ok: "chk \<or> xs \<noteq> [] \<or> ys \<noteq> []"
  shows "\<exists>h' tab'. qa_unlink chk h tab (Some t) = Inr (h', tab') \<and> dlist h' tab' (xs @ ys) \<and>
     links_only h h' (set (xs @ ys))"
proof -
  obtain e where e: "h t = Some e" using dlist_in_heap [OF dl, of t] by auto
  show ?thesis
  proof (cases xs rule: rev_cases)
    case Nil
    show ?thesis
    proof (cases ys)
      case Nil
      with \<open>xs = []\<close> dl e ok show ?thesis by (auto simp: qa_unlink_def dlist_def links_only_def)
    next
      case (Cons b zs)
      obtain eb where eb: "h b = Some eb" using dlist_in_heap [OF dl, of b] Cons by auto
      from Cons \<open>xs = []\<close> dl e eb ok show ?thesis
        by (auto simp: qa_unlink_def dlist_def links_only_def)
    qed
  next
    case (snoc us a)
    obtain ea where ea: "h a = Some ea" using dlist_in_heap [OF dl, of a] snoc by auto
    have tab: "tab \<noteq> Some t" using dl snoc by (cases us) (auto simp: dlist_def)
    show ?thesis
    proof (cases ys)
      case Nil
      with snoc dl e ea tab show ?thesis
        by (auto simp: qa_unlink_def dlist_def links_only_def split: option.splits)
    next
      case (Cons b zs)
      obtain eb where eb: "h b = Some eb" using dlist_in_heap [OF dl, of b] Cons by auto
      from snoc Cons dl e ea eb tab show ?thesis
        by (auto simp: qa_unlink_def dlist_def links_only_def split: option.splits)
    qed
  qed
qed

lemma qa_unlink_only_entry:
  "dlist h tab [t] \<Longrightarrow> qa_unlink False h tab (Some t) = Inl NullDeref"
  by (auto simp: qa_unlink_def dlist_def split: option.splits)

text \<open>
  A removal that frees the entry leaves a list without it, and the filters of the rest.
\<close>

lemma qa_unlink_free:
  assumes dl: "dlist h tab as" and t: "t \<in> set as" and ok: "chk \<or> as \<noteq> [t]"
  shows "\<exists>h' tab'. qa_unlink chk h tab (Some t) = Inr (h', tab') \<and>
     dlist (kfree_entry h' (Some t)) tab' (remove1 t as) \<and>
     filters_of (kfree_entry h' (Some t)) (remove1 t as) = filters_of h (remove1 t as) \<and>
     (\<forall>a. a \<notin> set as \<longrightarrow> h' a = h a) \<and>
     (\<forall>a. map_option tPacketFilter (h' a) = map_option tPacketFilter (h a))"
proof -
  obtain xs ys where as: "as = xs @ t # ys" "t \<notin> set xs"
    using split_list_first [OF t] by blast
  have nt: "t \<notin> set (xs @ ys)" "remove1 t as = xs @ ys"
    using dl as by (auto simp: dlist_def remove1_append)
  have "chk \<or> xs \<noteq> [] \<or> ys \<noteq> []" using ok as by auto
  from qa_unlink_refines [OF dl [unfolded as(1)] this] obtain h' tab' where
    u: "qa_unlink chk h tab (Some t) = Inr (h', tab')" "dlist h' tab' (xs @ ys)"
    "links_only h h' (set (xs @ ys))" by blast
  have "dlist (h'(t := None)) tab' (xs @ ys)" using u(2) nt(1) by (simp add: dlist_def)
  moreover have "filters_of (h'(t := None)) (xs @ ys) = filters_of h (xs @ ys)"
  proof -
    have "filters_of (h'(t := None)) (xs @ ys) = filters_of h' (xs @ ys)"
      using nt(1) by (auto simp: filters_of_def)
    also have "\<dots> = filters_of h (xs @ ys)"
      by (rule links_only_filters_of [OF u(3)]) (use dlist_in_heap [OF dl] as in auto)
    finally show ?thesis .
  qed
  moreover have "\<forall>a. a \<notin> set as \<longrightarrow> h' a = h a" using u(3) as by (auto simp: links_only_def)
  ultimately show ?thesis using u(1) nt(2) links_only_filter [OF u(3)] by auto
qed

end
