(* ===== verification/QaOps.thy ===== *)
theory QaOps
  imports QaTable
begin

text \<open>
  The bearer and filter operations of lte_qos_agent.c on the agent's state: adding,
  replacing and deleting filters of a bearer, the match-all filter of a default bearer,
  deleting bearers. Every operation returns the C return code with the new state. The
  table index \<open>ct_index\<close> is the value \<open>find_classifier_table\<close> returned; the bearer is
  the default bearer when the flag is 1 and otherwise the dedicated bearer at
  \<open>bearer_index\<close>. Accesses outside the arrays are faults.
\<close>

section \<open>State access\<close>

definition get_pdn :: "qa_state \<Rightarrow> nat \<Rightarrow> tPDN_CLASSIFIER res" where
  "get_pdn s ct = arr_get (gsQa_lte s) ct"

definition put_pdn :: "qa_state \<Rightarrow> nat \<Rightarrow> tPDN_CLASSIFIER \<Rightarrow> qa_state res" where
  "put_pdn s ct pd = rbind (arr_put (gsQa_lte s) ct pd) (\<lambda>l. Inr (s\<lparr>gsQa_lte := l\<rparr>))"

definition get_tft :: "qa_state \<Rightarrow> nat \<Rightarrow> nat \<Rightarrow> u8 \<Rightarrow> tTFT res" where
  "get_tft s ct bidx dflt =
     rbind (get_pdn s ct) (\<lambda>pd.
       if dflt = 1 then Inr (tDefaultBearer pd) else arr_get (tDedicatedBearer pd) bidx)"

definition put_tft :: "qa_state \<Rightarrow> nat \<Rightarrow> nat \<Rightarrow> u8 \<Rightarrow> tTFT \<Rightarrow> qa_state res" where
  "put_tft s ct bidx dflt tft =
     rbind (get_pdn s ct) (\<lambda>pd.
       if dflt = 1 then put_pdn s ct (pd\<lparr>tDefaultBearer := tft\<rparr>)
       else rbind (arr_put (tDedicatedBearer pd) bidx tft) (\<lambda>ds.
         put_pdn s ct (pd\<lparr>tDedicatedBearer := ds\<rparr>)))"

lemma get_pdn_ok [simp]: "ct < length (gsQa_lte s) \<Longrightarrow> get_pdn s ct = Inr (gsQa_lte s ! ct)"
  by (simp add: get_pdn_def)

lemma put_pdn_ok [simp]:
  "ct < length (gsQa_lte s) \<Longrightarrow> put_pdn s ct pd = Inr (s\<lparr>gsQa_lte := (gsQa_lte s)[ct := pd]\<rparr>)"
  by (simp add: put_pdn_def)

text \<open>The table whose default bearer has the given id, \<open>None\<close> for the code's -1.\<close>

definition find_classifier_table :: "qa_state \<Rightarrow> u8 \<Rightarrow> nat option" where
  "find_classifier_table s bearer_id =
     List.find (\<lambda>i. u8EpsBearerId (tDefaultBearer (gsQa_lte s ! i)) = bearer_id)
       [0..<length (gsQa_lte s)]"

section \<open>The match-all filter of the default bearer\<close>

text \<open>
  The assignments that make an allocated block the match-all filter; the other members
  of the block keep what \<open>kmalloc\<close> left there.
\<close>

definition match_all_entry :: "u8 \<Rightarrow> tCLASSIFIER_TABLE_ENTRY \<Rightarrow> tCLASSIFIER_TABLE_ENTRY" where
  "match_all_entry bearer_id e =
     e\<lparr>tPacketFilter := (tPacketFilter e)\<lparr>u8EpsId := bearer_id, u8Direction := DIRECTION_TFT_BI,
          u8PacketFilterPrecedence := 255, u32ClaMask := LTE_CLA_RULE_MATCH_ALL\<rparr>,
        tNextPF := None, tPrevPF := None\<rparr>"

definition Create_Match_All_Filter ::
  "allocator \<Rightarrow> qa_state \<Rightarrow> nat \<Rightarrow> u8 \<Rightarrow> (amp_ret \<times> qa_state) res" where
  "Create_Match_All_Filter km s ct bearer_id =
     rbind (get_pdn s ct) (\<lambda>pd.
       let h = qa_heap s;
           blk = km h;
           h0 = (case blk of None \<Rightarrow> h | Some (t, e0) \<Rightarrow> h(t \<mapsto> e0));
           new = map_option fst blk;
           db = tDefaultBearer pd in
       rbind (arr_put (tPacketFilters db) 0 new) (\<lambda>fs.
       rbind (put_entry h0 new (match_all_entry bearer_id)) (\<lambda>h1.
       rbind (returned (qa_walk (\<lambda>e. tNextPF e \<noteq> None) h1 None (tClassifierTable pd))) (\<lambda>(q, pCft).
       let pd1 = pd\<lparr>tDefaultBearer := db\<lparr>tPacketFilters := fs\<rparr>, u8MatchAll := 1\<rparr> in
       if pCft = None then
         rbind (put_pdn (s\<lparr>qa_heap := h1\<rparr>) ct (pd1\<lparr>tClassifierTable := new\<rparr>)) (\<lambda>s'.
         Inr (eAMP_RET_SUCCESS, s'))
       else
         rbind (set_next h1 pCft new) (\<lambda>h2.
         rbind (set_prev h2 new pCft) (\<lambda>h3.
         rbind (put_pdn (s\<lparr>qa_heap := h3\<rparr>) ct pd1) (\<lambda>s'.
         Inr (eAMP_RET_SUCCESS, s'))))))))"

definition Qa_Delete_Default_Bearer_MatchAll_TFT ::
  "qa_state \<Rightarrow> nat \<Rightarrow> (amp_ret \<times> qa_state) res" where
  "Qa_Delete_Default_Bearer_MatchAll_TFT s ct =
     rbind (get_pdn s ct) (\<lambda>pd.
       let db = tDefaultBearer pd in
       rbind (arr_get (tPacketFilters db) 0) (\<lambda>temp.
       if temp = None then Inr (eAMP_RET_FAIL, s)
       else
         rbind (qa_unlink True (qa_heap s) (tClassifierTable pd) temp) (\<lambda>(h1, tab).
         rbind (arr_put (tPacketFilters db) 0 None) (\<lambda>fs.
         rbind (put_pdn (s\<lparr>qa_heap := kfree_entry h1 temp\<rparr>) ct
                  (pd\<lparr>tDefaultBearer := db\<lparr>tPacketFilters := fs, u8NumFilters := 0\<rparr>,
                      u8MatchAll := 0, tClassifierTable := tab\<rparr>)) (\<lambda>s'.
         Inr (eAMP_RET_SUCCESS, s'))))))"

section \<open>Adding filters\<close>

definition first_null :: "ptr list \<Rightarrow> nat option" where
  "first_null ps =
     (let j = length (takeWhile (\<lambda>p. p \<noteq> None) ps) in if j = length ps then None else Some j)"

text \<open>
  Recording the new entry in the first free slot of the bearer. When there is none the
  operation fails, with the entry already in the table.
\<close>

definition qa_record_filter ::
  "qa_state \<Rightarrow> nat \<Rightarrow> nat \<Rightarrow> u8 \<Rightarrow> addr \<Rightarrow> (amp_ret \<times> qa_state) res" where
  "qa_record_filter s ct bidx dflt t =
     rbind (get_tft s ct bidx dflt) (\<lambda>tft.
       case first_null (tPacketFilters tft) of
         None \<Rightarrow> Inr (eAMP_RET_FAIL, s)
       | Some j \<Rightarrow>
           rbind (put_tft s ct bidx dflt
                    (tft\<lparr>tPacketFilters := (tPacketFilters tft)[j := Some t],
                         u8NumFilters := u8NumFilters tft + 1\<rparr>)) (\<lambda>s'.
           Inr (eAMP_RET_SUCCESS, s')))"

definition qa_add_one ::
  "allocator \<Rightarrow> qa_state \<Rightarrow> nat \<Rightarrow> nat \<Rightarrow> u8 \<Rightarrow> tPACKET_FILTER \<Rightarrow> (amp_ret \<times> qa_state) res" where
  "qa_add_one km s ct bidx dflt f =
     rbind (get_pdn s ct) (\<lambda>pd.
     rbind (qa_add_sorted km (qa_heap s) (tClassifierTable pd) f) (\<lambda>r.
       case r of
         None \<Rightarrow> Inr (eAMP_RET_FAIL, s)
       | Some (h', tab', t) \<Rightarrow>
           rbind (put_pdn (s\<lparr>qa_heap := h'\<rparr>) ct (pd\<lparr>tClassifierTable := tab'\<rparr>)) (\<lambda>s1.
           qa_record_filter s1 ct bidx dflt t)))"

fun qa_add_loop ::
  "allocator \<Rightarrow> qa_state \<Rightarrow> nat \<Rightarrow> nat \<Rightarrow> u8 \<Rightarrow> tPACKET_FILTER list \<Rightarrow> (amp_ret \<times> qa_state) res"
where
  "qa_add_loop km s ct bidx dflt [] = Inr (eAMP_RET_SUCCESS, s)"
| "qa_add_loop km s ct bidx dflt (f # fs) =
     rbind (qa_add_one km s ct bidx dflt f) (\<lambda>(r, s').
       if r = eAMP_RET_SUCCESS then qa_add_loop km s' ct bidx dflt fs else Inr (r, s'))"

text \<open>
  \<open>no_filters\<close> is a four-bit member, so the loop stays inside the array of 16.
\<close>

definition Qa_Add_SortTFT ::
  "allocator \<Rightarrow> qa_state \<Rightarrow> tTFT_RECVD \<Rightarrow> nat \<Rightarrow> nat \<Rightarrow> u8 \<Rightarrow> (amp_ret \<times> qa_state) res" where
  "Qa_Add_SortTFT km s r bidx ct dflt =
     rbind (get_pdn s ct) (\<lambda>pd.
     rbind (if dflt = 1 \<and> u8MatchAll pd = 1 then Qa_Delete_Default_Bearer_MatchAll_TFT s ct
            else Inr (eAMP_RET_SUCCESS, s)) (\<lambda>(_, s1).
     qa_add_loop km s1 ct bidx dflt (take (unat (rcv_NumFilters r)) (rcv_PacketFilters r))))"

section \<open>Deleting filters\<close>

text \<open>
  One round of the slot loop of \<open>Qa_Delete_Filter\<close> for slot \<open>j\<close>. The \<open>memset\<close> of the
  deleted filter goes through the slot of the dedicated bearer \<open>bearer_index\<close> also when
  the filter belongs to the default bearer.
\<close>

definition qa_delete_slot ::
  "allocator \<Rightarrow> qa_state \<Rightarrow> u8 list \<Rightarrow> nat \<Rightarrow> nat \<Rightarrow> u8 \<Rightarrow> nat \<Rightarrow> qa_state res" where
  "qa_delete_slot km s ids bidx ct dflt j =
     rbind (get_tft s ct bidx dflt) (\<lambda>tft.
     rbind (arr_get (tPacketFilters tft) j) (\<lambda>temp.
     if temp = None \<or> ids = [] then Inr s
     else rbind (deref (qa_heap s) temp) (\<lambda>e.
       if pfid e \<notin> set ids then Inr s
       else
         rbind (get_pdn s ct) (\<lambda>pd.
         rbind (qa_unlink True (qa_heap s) (tClassifierTable pd) temp) (\<lambda>(h1, tab).
         rbind (arr_get (tDedicatedBearer pd) bidx) (\<lambda>ded.
         rbind (arr_get (tPacketFilters ded) j) (\<lambda>slot.
         rbind (set_filter h1 slot zero_filter) (\<lambda>h2.
         rbind (put_pdn (s\<lparr>qa_heap := kfree_entry h2 temp\<rparr>) ct (pd\<lparr>tClassifierTable := tab\<rparr>)) (\<lambda>s1.
         rbind (put_tft s1 ct bidx dflt
                  (tft\<lparr>tPacketFilters := (tPacketFilters tft)[j := None],
                       u8NumFilters := u8NumFilters tft - 1\<rparr>)) (\<lambda>s2.
         if dflt \<noteq> 0 \<and> u8NumFilters tft - 1 = 0 then
           rbind (Create_Match_All_Filter km s2 ct (u8EpsBearerId (tDefaultBearer pd))) (\<lambda>(_, s3). Inr s3)
         else Inr s2))))))))))"

fun qa_delete_slots ::
  "allocator \<Rightarrow> qa_state \<Rightarrow> u8 list \<Rightarrow> nat \<Rightarrow> nat \<Rightarrow> u8 \<Rightarrow> nat list \<Rightarrow> qa_state res" where
  "qa_delete_slots km s ids bidx ct dflt [] = Inr s"
| "qa_delete_slots km s ids bidx ct dflt (j # js) =
     rbind (qa_delete_slot km s ids bidx ct dflt j) (\<lambda>s'. qa_delete_slots km s' ids bidx ct dflt js)"

definition Qa_Delete_Filter ::
  "allocator \<Rightarrow> qa_state \<Rightarrow> tTFT_RECVD \<Rightarrow> nat \<Rightarrow> u8 \<Rightarrow> nat \<Rightarrow> u8 \<Rightarrow> (amp_ret \<times> qa_state) res" where
  "Qa_Delete_Filter km s r bidx num_filters ct dflt =
     rbind (qa_delete_slots km s (take (unat num_filters) (rcv_PfidList r)) bidx ct dflt
              [0..<MAX_FILTERS_PER_TFT]) (\<lambda>s'.
     Inr (eAMP_RET_SUCCESS, s'))"

section \<open>Replacing filters\<close>

text \<open>The first slot whose entry has the given identifier.\<close>

fun find_pfid_slot :: "heap \<Rightarrow> ptr list \<Rightarrow> u8 \<Rightarrow> nat \<Rightarrow> nat option res" where
  "find_pfid_slot h [] i j = Inr None"
| "find_pfid_slot h (p # ps) i j =
     (if p = None then find_pfid_slot h ps i (Suc j)
      else rbind (deref h p) (\<lambda>e. if pfid e = i then Inr (Some j) else find_pfid_slot h ps i (Suc j)))"

fun qa_delete_replace_loop ::
  "qa_state \<Rightarrow> tPACKET_FILTER list \<Rightarrow> nat \<Rightarrow> nat \<Rightarrow> bool \<Rightarrow> u8 \<Rightarrow> (amp_ret \<times> qa_state) res" where
  "qa_delete_replace_loop s [] bidx ct wr dflt = Inr (eAMP_RET_SUCCESS, s)"
| "qa_delete_replace_loop s (f # fs) bidx ct wr dflt =
     rbind (get_tft s ct bidx dflt) (\<lambda>tft.
     rbind (find_pfid_slot (qa_heap s) (tPacketFilters tft) (u8PacketFilterIdentifier f) 0) (\<lambda>r.
       case r of
         None \<Rightarrow> Inr (eAMP_RET_FAIL, s)
       | Some j \<Rightarrow>
           if \<not> wr then qa_delete_replace_loop s fs bidx ct wr dflt
           else
             (let temp = tPacketFilters tft ! j in
              rbind (get_pdn s ct) (\<lambda>pd.
              rbind (qa_unlink True (qa_heap s) (tClassifierTable pd) temp) (\<lambda>(h1, tab).
              rbind (put_entry h1 temp (\<lambda>e. e\<lparr>tNextPF := None, tPrevPF := None, tPacketFilter := f\<rparr>)) (\<lambda>h2.
              rbind (put_pdn (s\<lparr>qa_heap := h2\<rparr>) ct (pd\<lparr>tClassifierTable := tab\<rparr>)) (\<lambda>s'.
              qa_delete_replace_loop s' fs bidx ct wr dflt)))))))"

definition Qa_Delete_Filter_Replace ::
  "qa_state \<Rightarrow> tTFT_RECVD \<Rightarrow> nat \<Rightarrow> u8 \<Rightarrow> nat \<Rightarrow> bool \<Rightarrow> u8 \<Rightarrow> (amp_ret \<times> qa_state) res" where
  "Qa_Delete_Filter_Replace s r bidx num_filters ct writeData dflt =
     qa_delete_replace_loop s (take (unat num_filters) (rcv_PacketFilters r)) bidx ct writeData dflt"

text \<open>
  Putting the entry \<open>temp1\<close> back at the place of precedence \<open>pr\<close>: in front of a head of
  larger precedence, otherwise after the entries of smaller precedence. When the walk stops
  at the head (a head of equal precedence) none of the three cases applies and the entry
  is not linked.
\<close>

definition qa_relink :: "heap \<Rightarrow> ptr \<Rightarrow> ptr \<Rightarrow> u8 \<Rightarrow> (heap \<times> ptr) res" where
  "qa_relink h tab temp1 pr =
     rbind (case tab of None \<Rightarrow> Inr False | Some _ \<Rightarrow> rbind (deref h tab) (\<lambda>e. Inr (pr < prec e)))
       (\<lambda>front.
        if front then
          rbind (put_entry h temp1 (\<lambda>e. e\<lparr>tNextPF := tab, tPrevPF := None\<rparr>)) (\<lambda>h1.
          rbind (set_prev h1 tab temp1) (\<lambda>h2.
          Inr (h2, temp1)))
        else
          rbind (returned (qa_walk (\<lambda>e. prec e < pr) h None tab)) (\<lambda>(q, p).
            if p \<noteq> None \<and> q \<noteq> None then
              rbind (put_entry h temp1 (\<lambda>e. e\<lparr>tNextPF := p, tPrevPF := q\<rparr>)) (\<lambda>h1.
              rbind (set_next h1 q temp1) (\<lambda>h2.
              rbind (set_prev h2 p temp1) (\<lambda>h3.
              Inr (h3, tab))))
            else if p = None \<and> q \<noteq> None then
              rbind (put_entry h temp1 (\<lambda>e. e\<lparr>tNextPF := p, tPrevPF := q\<rparr>)) (\<lambda>h1.
              rbind (set_next h1 q temp1) (\<lambda>h2.
              Inr (h2, tab)))
            else if p = None \<and> q = None then
              rbind (put_entry h temp1 (\<lambda>e. e\<lparr>tNextPF := p, tPrevPF := q\<rparr>)) (\<lambda>h1.
              Inr (h1, temp1))
            else Inr (h, tab)))"

text \<open>The loop keeps \<open>temp1\<close> from one filter to the next, as the code does.\<close>

fun qa_replace_sort_loop ::
  "qa_state \<Rightarrow> tPACKET_FILTER list \<Rightarrow> nat \<Rightarrow> nat \<Rightarrow> u8 \<Rightarrow> ptr \<Rightarrow> qa_state res" where
  "qa_replace_sort_loop s [] bidx ct dflt temp1 = Inr s"
| "qa_replace_sort_loop s (f # fs) bidx ct dflt temp1 =
     rbind (get_tft s ct bidx dflt) (\<lambda>tft.
     rbind (find_pfid_slot (qa_heap s) (tPacketFilters tft) (u8PacketFilterIdentifier f) 0) (\<lambda>r.
       let temp1' = (case r of None \<Rightarrow> temp1 | Some j \<Rightarrow> tPacketFilters tft ! j) in
       if temp1' = None then qa_replace_sort_loop s fs bidx ct dflt temp1'
       else
         rbind (get_pdn s ct) (\<lambda>pd.
         rbind (qa_relink (qa_heap s) (tClassifierTable pd) temp1' (u8PacketFilterPrecedence f)) (\<lambda>(h1, tab).
         rbind (put_pdn (s\<lparr>qa_heap := h1\<rparr>) ct (pd\<lparr>tClassifierTable := tab\<rparr>)) (\<lambda>s'.
         qa_replace_sort_loop s' fs bidx ct dflt temp1')))))"

definition Qa_Replace_SortTFT ::
  "qa_state \<Rightarrow> tTFT_RECVD \<Rightarrow> nat \<Rightarrow> nat \<Rightarrow> u8 \<Rightarrow> (amp_ret \<times> qa_state) res" where
  "Qa_Replace_SortTFT s r bidx ct dflt =
     rbind (qa_replace_sort_loop s (take (unat (rcv_NumFilters r)) (rcv_PacketFilters r)) bidx ct dflt None)
       (\<lambda>s'. Inr (eAMP_RET_SUCCESS, s'))"

definition Qa_Replace_Filters ::
  "qa_state \<Rightarrow> tTFT_RECVD \<Rightarrow> nat \<Rightarrow> u8 \<Rightarrow> nat \<Rightarrow> u8 \<Rightarrow> (amp_ret \<times> qa_state) res" where
  "Qa_Replace_Filters s r bidx num_filters ct dflt =
     rbind (Qa_Delete_Filter_Replace s r bidx num_filters ct False dflt) (\<lambda>(eRet, s1).
     rbind (if eRet = eAMP_RET_SUCCESS
            then Qa_Delete_Filter_Replace s1 r bidx num_filters ct True dflt
            else Inr (eRet, s1)) (\<lambda>(_, s2).
     Qa_Replace_SortTFT s2 r bidx ct dflt))"

section \<open>Deleting bearers\<close>

partial_function (option) qa_free_list :: "heap \<Rightarrow> ptr \<Rightarrow> heap res option" where
  "qa_free_list h p =
     (case p of
        None \<Rightarrow> Some (Inr h)
      | Some a \<Rightarrow>
          (case h a of
             None \<Rightarrow> Some (Inl DanglingDeref)
           | Some e \<Rightarrow> qa_free_list (h(a := None)) (tNextPF e)))"

text \<open>Unlinking and freeing the filters of a dedicated bearer, slot by slot.\<close>

fun qa_free_slots :: "heap \<Rightarrow> ptr \<Rightarrow> ptr list \<Rightarrow> (heap \<times> ptr) res" where
  "qa_free_slots h tab [] = Inr (h, tab)"
| "qa_free_slots h tab (temp # ps) =
     (if temp = None then qa_free_slots h tab ps
      else rbind (qa_unlink False h tab temp) (\<lambda>(h1, tab1).
        qa_free_slots (kfree_entry h1 temp) tab1 ps))"

definition Qa_Bearer_Delete :: "qa_state \<Rightarrow> u8 \<Rightarrow> nat \<Rightarrow> (amp_ret \<times> qa_state) res" where
  "Qa_Bearer_Delete s bearer_id ct =
     rbind (get_pdn s ct) (\<lambda>pd.
       let n = unat (u8NumDedicatedBearers pd); ds = tDedicatedBearer pd in
       if u8EpsBearerId (tDefaultBearer pd) = bearer_id \<or> bearer_id = 0 then
         if length ds < n then Inl OutOfBounds
         else rbind (returned (qa_free_list (qa_heap s) (tClassifierTable pd))) (\<lambda>h.
           rbind (put_pdn (s\<lparr>qa_heap := h\<rparr>) ct
                    (pd\<lparr>tDefaultBearer := zero_tft, u8NumDedicatedBearers := 0,
                        tDedicatedBearer := replicate n zero_tft @ drop n ds,
                        tClassifierTable := None\<rparr>)) (\<lambda>s'.
           Inr (eAMP_RET_SUCCESS, s')))
       else
         (case List.find (\<lambda>i. u8EpsBearerId (ds ! i) = bearer_id) [0..<min n (length ds)] of
            None \<Rightarrow> if length ds < n then Inl OutOfBounds else Inr (eAMP_RET_FAIL, s)
          | Some i \<Rightarrow>
              rbind (qa_free_slots (qa_heap s) (tClassifierTable pd) (tPacketFilters (ds ! i))) (\<lambda>(h, tab).
              rbind (put_pdn (s\<lparr>qa_heap := h\<rparr>) ct
                       (pd\<lparr>tDedicatedBearer := ds[i := zero_tft], tClassifierTable := tab,
                           u8NumDedicatedBearers := u8NumDedicatedBearers pd - 1\<rparr>)) (\<lambda>s'.
              Inr (eAMP_RET_SUCCESS, s')))))"

end
