(* ===== verification/QaInv.thy ===== *)
theory QaInv
  imports QaOps "HOL-Library.Multiset"
begin

text \<open>
  The representation invariant of a packet data network and the refinement of the
  operations of theory QaOps to its sorted list of filters: adding filters is repeated
  sorted insertion, deleting filters of a dedicated bearer removes exactly those entries,
  deleting a bearer removes its entries and frees them.
\<close>

section \<open>The invariant\<close>

definition addrs_of :: "ptr list \<Rightarrow> addr list" where
  "addrs_of ps = map the (filter (\<lambda>p. p \<noteq> None) ps)"

text \<open>The bearers of a network, the default bearer first, and the entries they record.\<close>

definition bearers :: "tPDN_CLASSIFIER \<Rightarrow> tTFT list" where
  "bearers pd = tDefaultBearer pd # tDedicatedBearer pd"

definition slots_of :: "tTFT list \<Rightarrow> addr list" where
  "slots_of ts = concat (map (\<lambda>tft. addrs_of (tPacketFilters tft)) ts)"

text \<open>
  The table of the network is the sorted list \<open>as\<close>, every filter a bearer records is an
  entry of that list, no entry is recorded twice, and the arrays have their sizes.
\<close>

definition pdn_ok :: "heap \<Rightarrow> tPDN_CLASSIFIER \<Rightarrow> addr list \<Rightarrow> bool" where
  "pdn_ok h pd as \<longleftrightarrow>
     table_ok h (tClassifierTable pd) as \<and>
     length (tDedicatedBearer pd) = MAX_DEDICATED_BEARER_PER_PDN \<and>
     list_all (\<lambda>tft. length (tPacketFilters tft) = MAX_FILTERS_PER_TFT) (bearers pd) \<and>
     distinct (slots_of (bearers pd)) \<and> set (slots_of (bearers pd)) \<subseteq> set as \<and>
     length (u8SrcMacAddr pd) = ETH_ALEN \<and> length (u8PdnAddress pd) = 12"

text \<open>All networks are well formed and their tables share no entry.\<close>

definition qa_ok :: "qa_state \<Rightarrow> addr list list \<Rightarrow> bool" where
  "qa_ok s ass \<longleftrightarrow>
     length (gsQa_lte s) = MAX_PDNS \<and> length ass = MAX_PDNS \<and> distinct (concat ass) \<and>
     finite (dom (qa_heap s)) \<and> list_all2 (pdn_ok (qa_heap s)) (gsQa_lte s) ass"

text \<open>The abstract state: for each network the filters of its table, in table order.\<close>

definition tables :: "qa_state \<Rightarrow> addr list list \<Rightarrow> tPACKET_FILTER list list" where
  "tables s ass = map (filters_of (qa_heap s)) ass"

lemma addrs_of_simps [simp]:
  "addrs_of [] = []" "addrs_of (None # ps) = addrs_of ps"
  "addrs_of (Some a # ps) = a # addrs_of ps" "addrs_of (ps @ qs) = addrs_of ps @ addrs_of qs"
  by (simp_all add: addrs_of_def)

lemma addrs_of_replicate_None [simp]: "addrs_of (replicate n None) = []"
  by (simp add: addrs_of_def)

lemma slots_of_simps [simp]:
  "slots_of [] = []" "slots_of (tft # ts) = addrs_of (tPacketFilters tft) @ slots_of ts"
  "slots_of (ts @ us) = slots_of ts @ slots_of us"
  by (simp_all add: slots_of_def)

lemma split_at: "j < length xs \<Longrightarrow> xs = take j xs @ xs ! j # drop (Suc j) xs"
  by (rule id_take_nth_drop)

text \<open>
  One slot among all slots: the recorded addresses are \<open>L\<close>, the slot's own and \<open>R\<close>,
  whatever the slot is set to.
\<close>

lemma slot_split:
  assumes "k < length ts" "j < length (tPacketFilters (ts ! k))"
  obtains L R where
    "slots_of ts = L @ addrs_of [tPacketFilters (ts ! k) ! j] @ R"
    "\<And>tft' q. tPacketFilters tft' = (tPacketFilters (ts ! k))[j := q] \<Longrightarrow>
        slots_of (ts[k := tft']) = L @ addrs_of [q] @ R"
proof -
  let ?ps = "tPacketFilters (ts ! k)"
  let ?L = "slots_of (take k ts) @ addrs_of (take j ?ps)"
  let ?R = "addrs_of (drop (Suc j) ?ps) @ slots_of (drop (Suc k) ts)"
  have upd: "slots_of (ts[k := tft']) = ?L @ addrs_of [q] @ ?R"
    if "tPacketFilters tft' = ?ps[j := q]" for tft' q
  proof -
    have "addrs_of (?ps[j := q]) = addrs_of (take j ?ps) @ addrs_of ([q] @ drop (Suc j) ?ps)"
      using assms(2) by (simp add: upd_conv_take_nth_drop del: addrs_of_simps(2,3))
    then show ?thesis
      using assms(1) that by (cases q) (simp_all add: upd_conv_take_nth_drop)
  qed
  have "slots_of ts = ?L @ addrs_of [?ps ! j] @ ?R"
    using upd [of "ts ! k" "?ps ! j"] by simp
  with upd show ?thesis using that by blast
qed

lemma pdn_ok_cong:
  assumes "\<And>a. a \<in> set as \<Longrightarrow> h' a = h a"
  shows "pdn_ok h' pd as = pdn_ok h pd as"
proof -
  have "filters_of h' as = filters_of h as" using assms by (auto simp: filters_of_def)
  with dseg_cong [of as h' h] assms show ?thesis
    by (simp add: pdn_ok_def table_ok_def dlist_def)
qed

lemma qa_ok_len: "qa_ok s ass \<Longrightarrow> length (gsQa_lte s) = MAX_PDNS" "qa_ok s ass \<Longrightarrow> length ass = MAX_PDNS"
  by (simp_all add: qa_ok_def)

lemma qa_ok_pdn: "qa_ok s ass \<Longrightarrow> ct < MAX_PDNS \<Longrightarrow> pdn_ok (qa_heap s) (gsQa_lte s ! ct) (ass ! ct)"
  by (simp add: qa_ok_def list_all2_conv_all_nth)

lemma distinct_concat_upd:
  assumes "distinct (concat ass)" "ct < length ass" "distinct as'"
    "set as' \<inter> (set (concat ass) - set (ass ! ct)) = {}"
  shows "distinct (concat (ass[ct := as']))"
proof -
  obtain A B where e: "concat ass = A @ ass ! ct @ B" "concat (ass[ct := as']) = A @ as' @ B"
    using arg_cong [OF split_at [OF assms(2)], of concat] assms(2)
    by (simp add: upd_conv_take_nth_drop)
  from assms(1,4) have "set as' \<inter> set A = {}" "set as' \<inter> set B = {}"
    unfolding e(1) by auto
  with assms(1,3) show ?thesis unfolding e by auto
qed

lemma distinct_concat_nth:
  "distinct (concat xss) \<Longrightarrow> i < length xss \<Longrightarrow> j < length xss \<Longrightarrow> i \<noteq> j \<Longrightarrow>
     set (xss ! i) \<inter> set (xss ! j) = {}"
proof (induction xss arbitrary: i j)
  case (Cons xs xss)
  have "set xs \<inter> set (xss ! k) = {}" if "k < length xss" for k
    using Cons.prems(1) nth_mem [OF that] by auto
  with Cons show ?case by (cases i; cases j) auto
qed simp

text \<open>
  An operation on the network \<open>ct\<close> that changes only its own entries and entries that
  were free keeps the other networks as they were.
\<close>

lemma qa_ok_used:
  "qa_ok s ass \<Longrightarrow> i < MAX_PDNS \<Longrightarrow> a \<in> set (ass ! i) \<Longrightarrow> qa_heap s a \<noteq> None"
  using qa_ok_pdn dlist_in_heap by (fastforce simp: pdn_ok_def table_ok_def)

lemma qa_ok_disjoint:
  "qa_ok s ass \<Longrightarrow> i < MAX_PDNS \<Longrightarrow> ct < MAX_PDNS \<Longrightarrow> i \<noteq> ct \<Longrightarrow> a \<in> set (ass ! i) \<Longrightarrow>
     a \<notin> set (ass ! ct)"
  using distinct_concat_nth [of ass i ct] by (auto simp: qa_ok_def)

lemma qa_ok_step:
  assumes ok: "qa_ok s ass" and ct: "ct < MAX_PDNS"
    and new: "pdn_ok h' pd' as'"
    and frame: "\<And>a. a \<notin> set (ass ! ct) \<Longrightarrow> qa_heap s a \<noteq> None \<Longrightarrow> h' a = qa_heap s a"
    and own: "\<And>a. a \<in> set as' \<Longrightarrow> a \<in> set (ass ! ct) \<or> qa_heap s a = None"
    and fin: "dom h' \<subseteq> dom (qa_heap s) \<union> set as'"
    and s': "qa_heap s' = h'" "gsQa_lte s' = (gsQa_lte s)[ct := pd']"
  shows "qa_ok s' (ass[ct := as'])"
    and "tables s' (ass[ct := as']) = (tables s ass)[ct := filters_of h' as']"
proof -
  have same: "h' a = qa_heap s a" if "i < MAX_PDNS" "i \<noteq> ct" "a \<in> set (ass ! i)" for i a
    using frame qa_ok_disjoint [OF ok that(1) ct that(2,3)] qa_ok_used [OF ok that(1,3)] by blast
  have other: "pdn_ok h' (gsQa_lte s ! i) (ass ! i)" if i: "i < MAX_PDNS" "i \<noteq> ct" for i
    using pdn_ok_cong [of "ass ! i" h' "qa_heap s"] same [OF i] qa_ok_pdn [OF ok i(1)] by blast
  have "set as' \<inter> (set (concat ass) - set (ass ! ct)) = {}"
    using own qa_ok_used [OF ok] ok by (fastforce simp: qa_ok_def in_set_conv_nth)
  moreover have "distinct as'" using new by (simp add: pdn_ok_def table_ok_def dlist_def)
  ultimately have "distinct (concat (ass[ct := as']))"
    using distinct_concat_upd [of ass ct as'] ok ct by (simp add: qa_ok_def)
  moreover have "finite (dom h')"
    using finite_subset [OF fin] ok by (simp add: qa_ok_def)
  ultimately show "qa_ok s' (ass[ct := as'])"
    using ok other new ct s' by (auto simp: qa_ok_def list_all2_conv_all_nth nth_list_update)
  have "filters_of h' (ass ! i) = filters_of (qa_heap s) (ass ! i)" if i: "i < MAX_PDNS" "i \<noteq> ct" for i
    using same [OF i] by (simp add: filters_of_def)
  then show "tables s' (ass[ct := as']) = (tables s ass)[ct := filters_of h' as']"
    using ok ct s' by (intro nth_equalityI) (auto simp: tables_def qa_ok_def nth_list_update)
qed

lemma qa_ok_shrink:
  assumes ok: "qa_ok s ass" and ct: "ct < MAX_PDNS"
    and new: "pdn_ok h' pd' as'"
    and frame: "\<forall>a. a \<notin> set (ass ! ct) \<longrightarrow> h' a = qa_heap s a"
    and own: "set as' \<subseteq> set (ass ! ct)"
    and dom: "\<forall>a. qa_heap s a = None \<longrightarrow> h' a = None"
    and s': "qa_heap s' = h'" "gsQa_lte s' = (gsQa_lte s)[ct := pd']"
  shows "qa_ok s' (ass[ct := as']) \<and>
    tables s' (ass[ct := as']) = (tables s ass)[ct := filters_of h' as']"
proof -
  have "dom h' \<subseteq> dom (qa_heap s) \<union> set as'" using dom by (metis domIff subsetI UnI1)
  moreover have "a \<in> set (ass ! ct) \<or> qa_heap s a = None" if "a \<in> set as'" for a
    using own that by blast
  ultimately show ?thesis using qa_ok_step [OF ok ct new _ _ _ s'] frame by simp
qed

section \<open>Bearers by position\<close>

text \<open>The bearer the pair of default flag and index selects, as a position in \<open>bearers\<close>.\<close>

definition bsel :: "nat \<Rightarrow> u8 \<Rightarrow> nat" where
  "bsel bidx dflt = (if dflt = 1 then 0 else Suc bidx)"

definition set_bearer :: "tPDN_CLASSIFIER \<Rightarrow> nat \<Rightarrow> tTFT \<Rightarrow> tPDN_CLASSIFIER" where
  "set_bearer pd k tft =
     (case k of 0 \<Rightarrow> pd\<lparr>tDefaultBearer := tft\<rparr>
      | Suc i \<Rightarrow> pd\<lparr>tDedicatedBearer := (tDedicatedBearer pd)[i := tft]\<rparr>)"

lemma set_bearer_simps [simp]:
  "bearers (set_bearer pd k tft) = (bearers pd)[k := tft]"
  "tClassifierTable (set_bearer pd k tft) = tClassifierTable pd"
  "length (tDedicatedBearer (set_bearer pd k tft)) = length (tDedicatedBearer pd)"
  "u8SrcMacAddr (set_bearer pd k tft) = u8SrcMacAddr pd"
  "u8PdnAddress (set_bearer pd k tft) = u8PdnAddress pd"
  "bearers (pd\<lparr>tClassifierTable := tab\<rparr>) = bearers pd"
  "bearers (pd\<lparr>u8MatchAll := m\<rparr>) = bearers pd"
  by (simp_all add: set_bearer_def bearers_def split: nat.splits)

lemma length_bearers [simp]: "length (bearers pd) = Suc (length (tDedicatedBearer pd))"
  by (simp add: bearers_def)

lemma get_tft_bearers:
  assumes "ct < length (gsQa_lte s)" "bsel bidx dflt < length (bearers (gsQa_lte s ! ct))"
  shows "get_tft s ct bidx dflt = Inr (bearers (gsQa_lte s ! ct) ! bsel bidx dflt)"
  using assms by (auto simp: get_tft_def bsel_def bearers_def split: if_splits)

lemma put_tft_bearers:
  assumes "ct < length (gsQa_lte s)" "bsel bidx dflt < length (bearers (gsQa_lte s ! ct))"
  shows "put_tft s ct bidx dflt tft =
     Inr (s\<lparr>gsQa_lte := (gsQa_lte s)[ct := set_bearer (gsQa_lte s ! ct) (bsel bidx dflt) tft]\<rparr>)"
  using assms by (auto simp: put_tft_def bsel_def set_bearer_def split: if_splits)

lemma first_null_simps [simp]:
  "first_null [] = None"
  "first_null (p # ps) = (if p = None then Some 0 else map_option Suc (first_null ps))"
  by (simp_all add: first_null_def Let_def)

lemma first_null_Some: "first_null ps = Some j \<Longrightarrow> j < length ps \<and> ps ! j = None"
  by (induction ps arbitrary: j) (auto split: if_splits)

lemma first_null_None: "first_null ps = None \<longleftrightarrow> None \<notin> set ps"
  by (induction ps) auto

text \<open>The bearer at a position of a network.\<close>

definition tft_at :: "qa_state \<Rightarrow> nat \<Rightarrow> nat \<Rightarrow> tTFT" where
  "tft_at s ct k = bearers (gsQa_lte s ! ct) ! k"

text \<open>Recording an entry of the table in a free slot.\<close>

lemma pdn_ok_record:
  assumes ok: "pdn_ok h pd as" and k: "k < length (bearers pd)"
    and j: "j < MAX_FILTERS_PER_TFT" "tPacketFilters (bearers pd ! k) ! j = None"
    and t: "t \<in> set as" "t \<notin> set (slots_of (bearers pd))"
    and tft: "tPacketFilters tft' = (tPacketFilters (bearers pd ! k))[j := Some t]"
  shows "pdn_ok h (set_bearer pd k tft') as"
proof -
  have len: "length (tPacketFilters (bearers pd ! k)) = MAX_FILTERS_PER_TFT"
    using ok k by (auto simp: pdn_ok_def list_all_length)
  obtain L R where
    s: "slots_of (bearers pd) = L @ R" "slots_of ((bearers pd)[k := tft']) = L @ t # R"
    using slot_split [of k "bearers pd" j] k j len tft by (metis addrs_of_simps(1,2,3) append_Cons append_Nil)
  show ?thesis
    using ok t len tft k unfolding pdn_ok_def set_bearer_simps s
    by (auto simp: list_all_length nth_list_update)
qed

text \<open>Clearing the slot of an entry that left the table.\<close>

lemma pdn_ok_clear:
  assumes ok: "pdn_ok h pd as" and k: "k < length (bearers pd)"
    and j: "j < MAX_FILTERS_PER_TFT" "tPacketFilters (bearers pd ! k) ! j = Some t"
    and tab: "table_ok h' tab (remove1 t as)"
    and tft: "tPacketFilters tft' = (tPacketFilters (bearers pd ! k))[j := None]"
  shows "pdn_ok h' (set_bearer (pd\<lparr>tClassifierTable := tab\<rparr>) k tft') (remove1 t as)"
proof -
  have len: "length (tPacketFilters (bearers pd ! k)) = MAX_FILTERS_PER_TFT"
    using ok k by (auto simp: pdn_ok_def list_all_length)
  obtain L R where
    s: "slots_of (bearers pd) = L @ t # R" "slots_of ((bearers pd)[k := tft']) = L @ R"
    using slot_split [of k "bearers pd" j] k j len tft by (metis addrs_of_simps(1,2,3) append_Cons append_Nil)
  have "distinct as" using ok by (simp add: pdn_ok_def table_ok_def dlist_def)
  with ok tab tft len k show ?thesis unfolding pdn_ok_def set_bearer_simps s
    by (auto simp: list_all_length nth_list_update)
qed

text \<open>
  Unlinking and freeing an entry that a bearer records: the table loses exactly that
  entry. The removal without the NULL test needs another entry in the table.
\<close>

lemma sorted_remove1: "sorted_filters (filters_of h as) \<Longrightarrow> sorted_filters (filters_of h (remove1 t as))"
  by (induction as) (auto simp: sorted_filters_def filters_of_def dest: notin_set_remove1)

lemma table_unlink_free:
  assumes ok: "table_ok h tab as" and t: "t \<in> set as" and c: "chk \<or> as \<noteq> [t]"
  shows "\<exists>h' tab'. qa_unlink chk h tab (Some t) = Inr (h', tab') \<and>
    table_ok (h'(t := None)) tab' (remove1 t as) \<and>
    filters_of (h'(t := None)) (remove1 t as) = filters_of h (remove1 t as) \<and>
    (\<forall>a. a \<notin> set as \<longrightarrow> h' a = h a) \<and> (\<exists>e. h' t = Some e) \<and>
    (\<forall>a. h' a = None \<longleftrightarrow> h a = None)"
proof -
  have dl: "dlist h tab as" using ok by (simp add: table_ok_def)
  from qa_unlink_free [OF dl t c] obtain h' tab' where
    u: "qa_unlink chk h tab (Some t) = Inr (h', tab')"
      "dlist (h'(t := None)) tab' (remove1 t as)"
      "filters_of (h'(t := None)) (remove1 t as) = filters_of h (remove1 t as)"
      "\<forall>a. a \<notin> set as \<longrightarrow> h' a = h a"
      "\<forall>a. map_option tPacketFilter (h' a) = map_option tPacketFilter (h a)"
    by auto
  have dom: "h' a = None \<longleftrightarrow> h a = None" for a using u(5) by (metis option.map_disc_iff)
  moreover have "\<exists>e. h' t = Some e" using dlist_in_heap [OF dl t] dom [of t] by auto
  moreover have "table_ok (h'(t := None)) tab' (remove1 t as)"
    using ok u(2,3) sorted_remove1 by (simp add: table_ok_def)
  ultimately show ?thesis using u by blast
qed

lemma pdn_ok_slot:
  assumes ok: "pdn_ok h pd as" and k: "k < length (bearers pd)"
    and t: "Some t \<in> set (tPacketFilters (bearers pd ! k))"
  shows "t \<in> set as"
proof -
  have "t \<in> set (addrs_of (tPacketFilters (bearers pd ! k)))"
    using t by (force simp: addrs_of_def)
  then have "t \<in> set (slots_of (bearers pd))"
    using nth_mem [OF k] by (auto simp: slots_of_def)
  with ok show ?thesis by (auto simp: pdn_ok_def)
qed

lemma pdn_ok_slots_len:
  "pdn_ok h pd as \<Longrightarrow> k < length (bearers pd) \<Longrightarrow>
     length (tPacketFilters (bearers pd ! k)) = MAX_FILTERS_PER_TFT"
  unfolding pdn_ok_def list_all_length by blast

lemma zero_pdn_ok: "pdn_ok h zero_pdn []"
  by (simp add: pdn_ok_def table_ok_def dlist_def zero_pdn_def sorted_filters_def filters_of_def
      bearers_def zero_tft_def slots_of_def max_defs ETH_ALEN_def list_all_length nth_Cons')

lemma qa_init_ok: "qa_ok qa_init (replicate MAX_PDNS [])"
  by (simp add: qa_ok_def qa_init_def zero_pdn_ok list_all2_conv_all_nth)

end
