(* ===== verification/QaAdd.thy ===== *)
theory QaAdd
  imports QaInv
begin

text \<open>
  Adding filters, \<open>Qa_Add_SortTFT\<close>: on a well-formed state it never faults, it keeps the
  invariant on every exit and what it does to the table of the network is sorted insertion
  of the filters it processed; it processes all of them when memory and slots suffice.
\<close>

section \<open>One filter\<close>

definition free_slots :: "tTFT \<Rightarrow> nat" where
  "free_slots tft = count_list (tPacketFilters tft) None"

text \<open>\<open>kmalloc\<close> that only fails when the address space is used up.\<close>

definition total_allocator :: "allocator \<Rightarrow> bool" where
  "total_allocator km \<longleftrightarrow> (\<forall>h. finite (dom h) \<longrightarrow> km h \<noteq> None)"

lemma count_list_update:
  "j < length xs \<Longrightarrow> xs ! j = x \<Longrightarrow> y \<noteq> x \<Longrightarrow> Suc (count_list (xs[j := y]) x) = count_list xs x"
  by (induction xs arbitrary: j) (auto split: nat.splits simp: nth_Cons)

lemma qa_add_one_refines:
  assumes ok: "qa_ok s ass" and ct: "ct < MAX_PDNS" and km: "fresh_allocator km"
    and k: "bsel bidx dflt \<le> MAX_DEDICATED_BEARER_PER_PDN"
  shows "(km (qa_heap s) = None \<and> qa_add_one km s ct bidx dflt f = Inr (eAMP_RET_FAIL, s)) \<or>
    (\<exists>r s' as'. qa_add_one km s ct bidx dflt f = Inr (r, s') \<and> qa_ok s' (ass[ct := as']) \<and>
       tables s' (ass[ct := as']) = (tables s ass)[ct := ins_filter f (tables s ass ! ct)] \<and>
       (if free_slots (tft_at s ct (bsel bidx dflt)) = 0 then r = eAMP_RET_FAIL
        else r = eAMP_RET_SUCCESS \<and> Suc (free_slots (tft_at s' ct (bsel bidx dflt))) = free_slots (tft_at s ct (bsel bidx dflt))))"
proof -
  let ?pd = "gsQa_lte s ! ct" and ?as = "ass ! ct" and ?h = "qa_heap s"
  note len = qa_ok_len [OF ok]
  have pd: "pdn_ok ?h ?pd ?as" using qa_ok_pdn [OF ok ct] .
  have kb: "bsel bidx dflt < length (bearers ?pd)" using pd k by (simp add: pdn_ok_def)
  show ?thesis
  proof (cases "km ?h")
    case None
    have "qa_add_sorted km ?h (tClassifierTable ?pd) f = Inr None"
      using qa_add_sorted_no_memory [of ?h _ ?as km] None pd by (simp add: pdn_ok_def table_ok_def)
    with None len ct show ?thesis by (simp add: qa_add_one_def)
  next
    case (Some te)
    then obtain t e0 where te: "km ?h = Some (t, e0)" by (cases te) auto
    with km have fr: "?h t = None" by (auto simp: fresh_allocator_def)
    have dl: "dlist ?h (tClassifierTable ?pd) ?as" using pd by (simp add: pdn_ok_def table_ok_def)
    from qa_add_sorted_refines [of ?h _ ?as km t e0 f, OF dl te fr] obtain h' tab' as' where
      add: "qa_add_sorted km ?h (tClassifierTable ?pd) f = Inr (Some (h', tab', t))"
        "dlist h' tab' as'" "set as' = insert t (set ?as)"
        "filters_of h' as' = ins_filter f (filters_of ?h ?as)"
        "\<And>a. a \<notin> insert t (set ?as) \<Longrightarrow> h' a = ?h a" by blast
    let ?pd1 = "?pd\<lparr>tClassifierTable := tab'\<rparr>"
    have ok1: "pdn_ok h' ?pd1 as'"
      using pd add(2,3,4) sorted_ins_filter by (auto simp: pdn_ok_def table_ok_def)
    have tn: "t \<notin> set (slots_of (bearers ?pd1))"
      using pd fr dlist_in_heap [OF dl, of t] by (auto simp: pdn_ok_def)
    have frame: "h' a = ?h a" if "a \<notin> set ?as" "?h a \<noteq> None" for a
      using add(5) that fr by (metis insert_iff)
    have dom: "dom h' \<subseteq> dom ?h \<union> set as'"
      using add(3,5) by (auto simp: dom_def)
    have own: "a \<in> set ?as \<or> ?h a = None" if "a \<in> set as'" for a
      using that add(3) fr by auto
    note step = qa_ok_step [OF ok ct _ frame own dom]
    have one: "qa_add_one km s ct bidx dflt f =
        qa_record_filter (s\<lparr>qa_heap := h', gsQa_lte := (gsQa_lte s)[ct := ?pd1]\<rparr>) ct bidx dflt t"
      using add(1) len ct by (simp add: qa_add_one_def)
    let ?s1 = "s\<lparr>qa_heap := h', gsQa_lte := (gsQa_lte s)[ct := ?pd1]\<rparr>"
    let ?tft = "tft_at s ct (bsel bidx dflt)"
    have get: "get_tft ?s1 ct bidx dflt = Inr ?tft"
      using get_tft_bearers [of ct ?s1 bidx dflt] kb len ct by (simp add: tft_at_def)
    have tab: "filters_of h' as' = ins_filter f (tables s ass ! ct)"
      using add(4) len ct by (simp add: tables_def)
    show ?thesis
    proof (cases "first_null (tPacketFilters ?tft)")
      case None
      then have "free_slots ?tft = 0" by (simp add: first_null_None free_slots_def count_list_0_iff)
      moreover have "qa_add_one km s ct bidx dflt f = Inr (eAMP_RET_FAIL, ?s1)"
        using one get None by (simp add: qa_record_filter_def)
      ultimately show ?thesis using step [OF ok1, of ?s1] tab by auto
    next
      case (Some j)
      let ?tft' = "?tft\<lparr>tPacketFilters := (tPacketFilters ?tft)[j := Some t], u8NumFilters := u8NumFilters ?tft + 1\<rparr>"
      let ?pd2 = "set_bearer ?pd1 (bsel bidx dflt) ?tft'"
      let ?s2 = "s\<lparr>qa_heap := h', gsQa_lte := (gsQa_lte s)[ct := ?pd2]\<rparr>"
      note j = first_null_Some [OF Some]
      have l: "length (tPacketFilters ?tft) = MAX_FILTERS_PER_TFT"
        using pd kb unfolding tft_at_def pdn_ok_def list_all_length by blast
      have ok2: "pdn_ok h' ?pd2 as'"
        by (rule pdn_ok_record [OF ok1, of _ j t]) (use kb j l add(3) tn in \<open>simp_all add: tft_at_def\<close>)
      have put: "put_tft ?s1 ct bidx dflt ?tft' = Inr ?s2"
        using put_tft_bearers [of ct ?s1 bidx dflt ?tft'] kb len ct by simp
      have "qa_add_one km s ct bidx dflt f = Inr (eAMP_RET_SUCCESS, ?s2)"
        using one get put Some by (simp add: qa_record_filter_def)
      moreover have "Suc (free_slots (tft_at ?s2 ct (bsel bidx dflt))) = free_slots ?tft"
        using count_list_update [of j "tPacketFilters ?tft" None "Some t"] j kb len ct
        by (simp add: free_slots_def tft_at_def)
      ultimately show ?thesis using step [OF ok2, of ?s2] tab by auto
    qed
  qed
qed

section \<open>All filters\<close>

lemma qa_add_loop_refines:
  assumes "qa_ok s ass" and "ct < MAX_PDNS" and "fresh_allocator km"
    and "bsel bidx dflt \<le> MAX_DEDICATED_BEARER_PER_PDN"
  shows "\<exists>r s' as' n. qa_add_loop km s ct bidx dflt fs = Inr (r, s') \<and> qa_ok s' (ass[ct := as']) \<and>
       n \<le> length fs \<and>
       tables s' (ass[ct := as']) = (tables s ass)[ct := fold ins_filter (take n fs) (tables s ass ! ct)] \<and>
       (r = eAMP_RET_SUCCESS \<longrightarrow> n = length fs) \<and>
       (total_allocator km \<and> length fs \<le> free_slots (tft_at s ct (bsel bidx dflt)) \<longrightarrow>
          r = eAMP_RET_SUCCESS)"
  using assms
proof (induction fs arbitrary: s ass)
  case Nil
  then show ?case by (intro exI [of _ "ass ! ct"] exI) auto
next
  case (Cons f fs)
  let ?k = "bsel bidx dflt"
  have len: "ct < length ass" "ct < length (tables s ass)"
    using Cons.prems by (simp_all add: qa_ok_def tables_def)
  consider (nomem) "km (qa_heap s) = None" "qa_add_one km s ct bidx dflt f = Inr (eAMP_RET_FAIL, s)"
    | (ins) r s' as' where "qa_add_one km s ct bidx dflt f = Inr (r, s')" "qa_ok s' (ass[ct := as'])"
       "tables s' (ass[ct := as']) = (tables s ass)[ct := ins_filter f (tables s ass ! ct)]"
       "if free_slots (tft_at s ct ?k) = 0 then r = eAMP_RET_FAIL
        else r = eAMP_RET_SUCCESS \<and> Suc (free_slots (tft_at s' ct ?k)) = free_slots (tft_at s ct ?k)"
    using qa_add_one_refines [OF Cons.prems, of f] by (elim disjE exE conjE) assumption+
  then show ?case
  proof cases
    case nomem
    with Cons.prems(1) have "\<not> total_allocator km" by (auto simp: total_allocator_def qa_ok_def)
    with nomem Cons.prems(1) show ?thesis
      by (intro exI [of _ eAMP_RET_FAIL] exI [of _ s] exI [of _ "ass ! ct"] exI [of _ 0]) simp
  next
    case ins
    show ?thesis
    proof (cases "r = eAMP_RET_SUCCESS")
      case False
      with ins len show ?thesis
        by (intro exI [of _ r] exI [of _ s'] exI [of _ as'] exI [of _ 1]) (auto split: if_splits)
    next
      case True
      with ins(4) have fs: "Suc (free_slots (tft_at s' ct ?k)) = free_slots (tft_at s ct ?k)"
        by (auto split: if_splits)
      from Cons.IH [OF ins(2) Cons.prems(2-)] obtain r'' s'' as'' n where
        ih: "qa_add_loop km s' ct bidx dflt fs = Inr (r'', s'')" "qa_ok s'' (ass[ct := as''])"
          "n \<le> length fs" "tables s'' (ass[ct := as'']) =
             (tables s ass)[ct := fold ins_filter (take n fs) (ins_filter f (tables s ass ! ct))]"
          "r'' = eAMP_RET_SUCCESS \<longrightarrow> n = length fs"
          "total_allocator km \<and> length fs \<le> free_slots (tft_at s' ct ?k) \<longrightarrow> r'' = eAMP_RET_SUCCESS"
        using len ins(3) by auto
      with ins(1) True fs show ?thesis
        by (intro exI [of _ r''] exI [of _ s''] exI [of _ as''] exI [of _ "Suc n"]) auto
    qed
  qed
qed

section \<open>The match-all filter makes way\<close>

text \<open>
  Deleting the match-all filter of the default bearer takes the entry of its first slot
  out of the table, and does nothing when that slot is empty.
\<close>

lemma delete_match_all_refines:
  assumes ok: "qa_ok s ass" and ct: "ct < MAX_PDNS"
  defines "slot \<equiv> tPacketFilters (tft_at s ct 0) ! 0"
  shows "case slot of
     None \<Rightarrow> Qa_Delete_Default_Bearer_MatchAll_TFT s ct = Inr (eAMP_RET_FAIL, s)
   | Some t \<Rightarrow> \<exists>s'. Qa_Delete_Default_Bearer_MatchAll_TFT s ct = Inr (eAMP_RET_SUCCESS, s') \<and>
        qa_ok s' (ass[ct := remove1 t (ass ! ct)]) \<and>
        tables s' (ass[ct := remove1 t (ass ! ct)]) =
          (tables s ass)[ct := filters_of (qa_heap s) (remove1 t (ass ! ct))] \<and>
        tPacketFilters (tft_at s' ct 0) = (tPacketFilters (tft_at s ct 0))[0 := None] \<and>
        tDedicatedBearer (gsQa_lte s' ! ct) = tDedicatedBearer (gsQa_lte s ! ct)"
proof -
  let ?pd = "gsQa_lte s ! ct" and ?as = "ass ! ct" and ?h = "qa_heap s"
  let ?db = "tDefaultBearer ?pd"
  note len = qa_ok_len [OF ok]
  have pd: "pdn_ok ?h ?pd ?as" using qa_ok_pdn [OF ok ct] .
  have l: "length (tPacketFilters ?db) = MAX_FILTERS_PER_TFT"
    using pdn_ok_slots_len [OF pd, of 0] by (simp add: bearers_def)
  then have l0: "0 < length (tPacketFilters ?db)" by (simp add: max_defs)
  have slot: "slot = tPacketFilters ?db ! 0" by (simp add: slot_def tft_at_def bearers_def)
  show ?thesis
  proof (cases slot)
    case None
    with slot len ct l0 show ?thesis by (simp add: Qa_Delete_Default_Bearer_MatchAll_TFT_def)
  next
    case (Some t)
    have "Some t \<in> set (tPacketFilters (bearers ?pd ! 0))"
      using nth_mem [OF l0] Some slot by (simp add: bearers_def)
    then have tin: "t \<in> set ?as" using pdn_ok_slot [OF pd, of 0 t] by simp
    have tok: "table_ok ?h (tClassifierTable ?pd) ?as" using pd by (simp add: pdn_ok_def)
    obtain h1 tab where u: "qa_unlink True ?h (tClassifierTable ?pd) (Some t) = Inr (h1, tab)"
      "table_ok (h1(t := None)) tab (remove1 t ?as)"
      "filters_of (h1(t := None)) (remove1 t ?as) = filters_of ?h (remove1 t ?as)"
      "\<forall>a. a \<notin> set ?as \<longrightarrow> h1 a = ?h a" "\<exists>e. h1 t = Some e" "\<forall>a. h1 a = None \<longleftrightarrow> ?h a = None"
      using table_unlink_free [OF tok tin, of True] by auto
    let ?db' = "?db\<lparr>tPacketFilters := (tPacketFilters ?db)[0 := None], u8NumFilters := 0\<rparr>"
    let ?pd' = "?pd\<lparr>tDefaultBearer := ?db', u8MatchAll := 0, tClassifierTable := tab\<rparr>"
    let ?s' = "s\<lparr>qa_heap := h1(t := None), gsQa_lte := (gsQa_lte s)[ct := ?pd']\<rparr>"
    have run: "Qa_Delete_Default_Bearer_MatchAll_TFT s ct = Inr (eAMP_RET_SUCCESS, ?s')"
      using Some slot len ct l0 u(1) by (simp add: Qa_Delete_Default_Bearer_MatchAll_TFT_def Let_def)
    have "pdn_ok (h1(t := None)) (set_bearer (?pd\<lparr>tClassifierTable := tab\<rparr>) 0 ?db') (remove1 t ?as)"
      by (rule pdn_ok_clear [OF pd, of 0 0]) (use l0 l u(2) Some slot in \<open>simp_all add: bearers_def\<close>)
    then have ok': "pdn_ok (h1(t := None)) ?pd' (remove1 t ?as)"
      by (simp add: set_bearer_def pdn_ok_def bearers_def)
    have frame: "\<forall>a. a \<notin> set ?as \<longrightarrow> (h1(t := None)) a = ?h a" using u(4) tin by auto
    have dom: "\<forall>a. ?h a = None \<longrightarrow> (h1(t := None)) a = None" using u(6) by simp
    have "qa_ok ?s' (ass[ct := remove1 t ?as]) \<and>
      tables ?s' (ass[ct := remove1 t ?as]) = (tables s ass)[ct := filters_of ?h (remove1 t ?as)]"
      using qa_ok_shrink [where h' = "h1(t := None)", OF ok ct ok' frame set_remove1_subset dom, of ?s'] u(3)
      by simp
    with run Some len ct show ?thesis by (simp add: tft_at_def bearers_def)
  qed
qed

section \<open>Qa_Add_SortTFT\<close>

text \<open>The entries the operation starts from: the match-all filter goes first.\<close>

definition add_base :: "qa_state \<Rightarrow> addr list list \<Rightarrow> nat \<Rightarrow> u8 \<Rightarrow> addr list" where
  "add_base s ass ct dflt =
     (if dflt = 1 \<and> u8MatchAll (gsQa_lte s ! ct) = 1
      then (case tPacketFilters (tft_at s ct 0) ! 0 of
              None \<Rightarrow> ass ! ct | Some t \<Rightarrow> remove1 t (ass ! ct))
      else ass ! ct)"

lemma match_all_step:
  assumes ok: "qa_ok s ass" and ct: "ct < MAX_PDNS"
  shows "\<exists>ret s1. (if dflt = 1 \<and> u8MatchAll (gsQa_lte s ! ct) = 1
          then Qa_Delete_Default_Bearer_MatchAll_TFT s ct else Inr (eAMP_RET_SUCCESS, s)) = Inr (ret, s1) \<and>
     qa_ok s1 (ass[ct := add_base s ass ct dflt]) \<and>
     tables s1 (ass[ct := add_base s ass ct dflt]) =
       (tables s ass)[ct := filters_of (qa_heap s) (add_base s ass ct dflt)] \<and>
     free_slots (tft_at s ct (bsel bidx dflt)) \<le> free_slots (tft_at s1 ct (bsel bidx dflt))"
proof (cases "dflt = 1 \<and> u8MatchAll (gsQa_lte s ! ct) = 1 \<and> tPacketFilters (tft_at s ct 0) ! 0 \<noteq> None")
  case False
  then have "add_base s ass ct dflt = ass ! ct" by (auto simp: add_base_def)
  moreover have "filters_of (qa_heap s) (ass ! ct) = tables s ass ! ct"
    using qa_ok_len [OF ok] ct by (simp add: tables_def)
  moreover note delete_match_all_refines [OF ok ct]
  ultimately show ?thesis using False ok by auto
next
  case True
  then obtain t where t: "tPacketFilters (tft_at s ct 0) ! 0 = Some t" by auto
  let ?ps = "tPacketFilters (tft_at s ct 0)"
  have "length ?ps = MAX_FILTERS_PER_TFT"
    using pdn_ok_slots_len [OF qa_ok_pdn [OF ok ct], of 0] by (simp add: tft_at_def)
  then obtain p ps where "?ps = p # ps" by (cases ?ps) (auto simp: max_defs)
  with t have "count_list ?ps None \<le> count_list (?ps[0 := None]) None" by simp
  with True t delete_match_all_refines [OF ok ct] show ?thesis
    by (auto simp: add_base_def bsel_def free_slots_def)
qed

text \<open>The filters a parsed TFT carries.\<close>

definition recvd_filters :: "tTFT_RECVD \<Rightarrow> tPACKET_FILTER list" where
  "recvd_filters r = take (unat (rcv_NumFilters r)) (rcv_PacketFilters r)"

lemma add_sort_tft:
  assumes ok: "qa_ok s ass" and ct: "ct < MAX_PDNS" and km: "fresh_allocator km"
    and k: "bsel bidx dflt \<le> MAX_DEDICATED_BEARER_PER_PDN"
  shows "\<exists>ret s' as' n. Qa_Add_SortTFT km s r bidx ct dflt = Inr (ret, s') \<and>
     qa_ok s' (ass[ct := as']) \<and> n \<le> length (recvd_filters r) \<and>
     tables s' (ass[ct := as']) =
       (tables s ass)[ct := fold ins_filter (take n (recvd_filters r)) (filters_of (qa_heap s) (add_base s ass ct dflt))] \<and>
     (ret = eAMP_RET_SUCCESS \<longrightarrow> n = length (recvd_filters r)) \<and>
     (total_allocator km \<and> length (recvd_filters r) \<le> free_slots (tft_at s ct (bsel bidx dflt)) \<longrightarrow> ret = eAMP_RET_SUCCESS)"
proof -
  let ?b = "add_base s ass ct dflt" and ?fs = "recvd_filters r"
  have len: "ct < length (gsQa_lte s)" "ct < length (tables s ass)"
    using qa_ok_len [OF ok] ct by (simp_all add: tables_def)
  obtain ret1 s1 where
    m: "(if dflt = 1 \<and> u8MatchAll (gsQa_lte s ! ct) = 1
        then Qa_Delete_Default_Bearer_MatchAll_TFT s ct else Inr (eAMP_RET_SUCCESS, s)) = Inr (ret1, s1)"
      "qa_ok s1 (ass[ct := ?b])"
      "tables s1 (ass[ct := ?b]) = (tables s ass)[ct := filters_of (qa_heap s) ?b]"
      "free_slots (tft_at s ct (bsel bidx dflt)) \<le> free_slots (tft_at s1 ct (bsel bidx dflt))"
    using match_all_step [OF ok ct, of dflt bidx] by (elim exE conjE) (rule that)
  have run: "Qa_Add_SortTFT km s r bidx ct dflt = qa_add_loop km s1 ct bidx dflt ?fs"
    using len m(1) by (simp add: Qa_Add_SortTFT_def recvd_filters_def)
  from qa_add_loop_refines [OF m(2) ct km k, of ?fs] obtain ret s' as' n where
    l: "qa_add_loop km s1 ct bidx dflt ?fs = Inr (ret, s')" "qa_ok s' (ass[ct := as'])" "n \<le> length ?fs"
      "tables s' (ass[ct := as']) =
        (tables s ass)[ct := fold ins_filter (take n ?fs) (filters_of (qa_heap s) ?b)]"
      "ret = eAMP_RET_SUCCESS \<longrightarrow> n = length ?fs"
      "total_allocator km \<and> length ?fs \<le> free_slots (tft_at s1 ct (bsel bidx dflt)) \<longrightarrow> ret = eAMP_RET_SUCCESS"
    using len m(3) by auto
  with m(4) run show ?thesis by (intro exI [of _ ret] exI [of _ s'] exI [of _ as'] exI [of _ n]) auto
qed

text \<open>
  C14. Adding the filters of a received TFT to a bearer of a well-formed agent state never
  faults and leaves a well-formed state on every exit. The table of the network becomes
  the sorted insertion of the first \<open>n\<close> filters (after the match-all filter of a default
  bearer was taken out) and the tables of the other networks stay as they are. Success is
  reported only when all filters went in, and is reported whenever memory and slots of
  the bearer suffice.
\<close>

theorem Qa_Add_SortTFT_refines:
  assumes "qa_ok s ass" and "ct < MAX_PDNS" and "fresh_allocator km"
    and "bsel bidx dflt \<le> MAX_DEDICATED_BEARER_PER_PDN"
  shows "\<exists>ret s' as' n. Qa_Add_SortTFT km s r bidx ct dflt = Inr (ret, s') \<and>
     qa_ok s' (ass[ct := as']) \<and> n \<le> length (recvd_filters r) \<and>
     tables s' (ass[ct := as']) =
       (tables s ass)[ct := fold ins_filter (take n (recvd_filters r))
                             (filters_of (qa_heap s) (add_base s ass ct dflt))] \<and>
     (ret = eAMP_RET_SUCCESS \<longrightarrow> n = length (recvd_filters r)) \<and>
     (total_allocator km \<and> length (recvd_filters r) \<le> free_slots (tft_at s ct (bsel bidx dflt)) \<longrightarrow>
        ret = eAMP_RET_SUCCESS)"
  using add_sort_tft [OF assms] .

text \<open>A concrete allocator: the address after the largest one in use.\<close>

definition next_addr :: allocator where
  "next_addr h =
     (if finite (dom h)
      then Some (Suc (Max (insert 0 (dom h))),
                 \<lparr>tPacketFilter = zero_filter, tNextPF = None, tPrevPF = None\<rparr>)
      else None)"

lemma next_addr_fresh: "fresh_allocator next_addr"
proof -
  have "h (Suc (Max (insert 0 (dom h)))) = None" if "finite (dom h)" for h :: heap
  proof (rule ccontr)
    assume "h (Suc (Max (insert 0 (dom h)))) \<noteq> None"
    then have "Suc (Max (insert 0 (dom h))) \<in> insert 0 (dom h)" by auto
    with that have "Suc (Max (insert 0 (dom h))) \<le> Max (insert 0 (dom h))"
      by (intro Max_ge) auto
    then show False by simp
  qed
  then show ?thesis by (auto simp: fresh_allocator_def next_addr_def split: if_splits)
qed

lemma next_addr_total: "total_allocator next_addr"
  by (simp add: total_allocator_def next_addr_def)

text \<open>A TFT with two filters in descending precedence.\<close>

definition two_filters :: tTFT_RECVD where
  "two_filters = zero_tft_recvd\<lparr>rcv_NumFilters := 2, rcv_PacketFilters :=
     (rcv_PacketFilters zero_tft_recvd)
       [0 := zero_filter\<lparr>u8PacketFilterPrecedence := 20\<rparr>,
        1 := zero_filter\<lparr>u8PacketFilterPrecedence := 10\<rparr>]\<rparr>"

lemma replicate_16: "replicate 16 x = x # x # replicate 14 x"
  by (simp add: eval_nat_numeral)

lemma replicate_5: "replicate 5 x = x # replicate 4 x"
  by (simp add: eval_nat_numeral)

theorem Qa_Add_SortTFT_refines_witness:
  "\<exists>s' as'. Qa_Add_SortTFT next_addr qa_init two_filters 0 0 0 = Inr (eAMP_RET_SUCCESS, s') \<and>
     qa_ok s' ((replicate MAX_PDNS [])[0 := as']) \<and>
     filters_of (qa_heap s') as' =
       [zero_filter\<lparr>u8PacketFilterPrecedence := 10\<rparr>, zero_filter\<lparr>u8PacketFilterPrecedence := 20\<rparr>]"
proof -
  have fs: "recvd_filters two_filters =
      [zero_filter\<lparr>u8PacketFilterPrecedence := 20\<rparr>, zero_filter\<lparr>u8PacketFilterPrecedence := 10\<rparr>]"
    by (simp add: recvd_filters_def two_filters_def zero_tft_recvd_def max_defs replicate_16)
  have room: "length (recvd_filters two_filters) \<le> free_slots (tft_at qa_init 0 (bsel 0 0))"
    by (simp add: fs free_slots_def tft_at_def qa_init_def max_defs zero_pdn_def bearers_def bsel_def
        zero_tft_def eval_nat_numeral)
  have "bsel 0 0 \<le> MAX_DEDICATED_BEARER_PER_PDN" "0 < MAX_PDNS" by (simp_all add: bsel_def max_defs)
  from Qa_Add_SortTFT_refines [OF qa_init_ok this(2) next_addr_fresh this(1), of two_filters]
  obtain ret s' as' n where *: "Qa_Add_SortTFT next_addr qa_init two_filters 0 0 0 = Inr (ret, s')"
    "qa_ok s' ((replicate MAX_PDNS [])[0 := as'])" "ret = eAMP_RET_SUCCESS" "n = length (recvd_filters two_filters)"
    "tables s' ((replicate MAX_PDNS [])[0 := as']) = (tables qa_init (replicate MAX_PDNS []))[0 :=
       fold ins_filter (take n (recvd_filters two_filters))
         (filters_of (qa_heap qa_init) (add_base qa_init (replicate MAX_PDNS []) 0 0))]"
    using room next_addr_total by auto
  have "filters_of (qa_heap s') as' =
      [zero_filter\<lparr>u8PacketFilterPrecedence := 10\<rparr>, zero_filter\<lparr>u8PacketFilterPrecedence := 20\<rparr>]"
    using *(5) unfolding *(4) fs
    by (simp add: tables_def max_defs add_base_def filters_of_def ins_filter_def replicate_5)
  with * show ?thesis by blast
qed

end
