(* ===== verification/QaDelete.thy ===== *)
theory QaDelete
  imports QaAdd
begin

text \<open>
  Deleting filters (\<open>Qa_Delete_Filter\<close>) and bearers (\<open>Qa_Bearer_Delete\<close>): on a
  well-formed state exactly the entries of the bearer that were asked for leave the table,
  their memory is freed and the invariant is kept. The theory also proves the cases in
  which the code faults.
\<close>

section \<open>One slot of a dedicated bearer\<close>

lemma filters_of_pointwise:
  "filters_of h' as = filters_of h as \<Longrightarrow> a \<in> set as \<Longrightarrow>
     tPacketFilter (the (h' a)) = tPacketFilter (the (h a))"
  by (simp add: filters_of_def)

lemma delete_slot_refines:
  assumes ok: "qa_ok s ass" and ct: "ct < MAX_PDNS" and b: "bidx < MAX_DEDICATED_BEARER_PER_PDN"
    and j: "j < MAX_FILTERS_PER_TFT" and t: "tPacketFilters (tft_at s ct (Suc bidx)) ! j = Some t"
    and id: "pfid (the (qa_heap s t)) \<in> set ids"
  defines "as' \<equiv> remove1 t (ass ! ct)"
  shows "\<exists>s'. qa_delete_slot km s ids bidx ct 0 j = Inr s' \<and> qa_ok s' (ass[ct := as']) \<and>
     tables s' (ass[ct := as']) = (tables s ass)[ct := filters_of (qa_heap s) as'] \<and>
     tPacketFilters (tft_at s' ct (Suc bidx)) = (tPacketFilters (tft_at s ct (Suc bidx)))[j := None]"
proof -
  let ?pd = "gsQa_lte s ! ct" and ?as = "ass ! ct" and ?h = "qa_heap s"
  let ?tft = "tft_at s ct (Suc bidx)"
  note len = qa_ok_len [OF ok]
  have pd: "pdn_ok ?h ?pd ?as" using qa_ok_pdn [OF ok ct] .
  have k: "Suc bidx < length (bearers ?pd)" "bidx < length (tDedicatedBearer ?pd)"
    using pd b by (simp_all add: pdn_ok_def)
  have tft: "?tft = tDedicatedBearer ?pd ! bidx" by (simp add: tft_at_def bearers_def)
  have l: "length (tPacketFilters ?tft) = MAX_FILTERS_PER_TFT"
    using pdn_ok_slots_len [OF pd k(1)] by (simp add: tft_at_def)
  have "Some t \<in> set (tPacketFilters (bearers ?pd ! Suc bidx))"
    using t j l nth_mem unfolding tft_at_def by metis
  then have tin: "t \<in> set ?as" by (rule pdn_ok_slot [OF pd k(1)])
  have tok: "table_ok ?h (tClassifierTable ?pd) ?as" using pd by (simp add: pdn_ok_def)
  obtain e where e: "?h t = Some e" using qa_ok_used [OF ok ct tin] by auto
  obtain h1 tab where u: "qa_unlink True ?h (tClassifierTable ?pd) (Some t) = Inr (h1, tab)"
    "table_ok (h1(t := None)) tab as'" "filters_of (h1(t := None)) as' = filters_of ?h as'"
    "\<forall>a. a \<notin> set ?as \<longrightarrow> h1 a = ?h a" "\<exists>e. h1 t = Some e" "\<forall>a. h1 a = None \<longleftrightarrow> ?h a = None"
    using table_unlink_free [OF tok tin, of True] unfolding as'_def by auto
  let ?tft' = "?tft\<lparr>tPacketFilters := (tPacketFilters ?tft)[j := None], u8NumFilters := u8NumFilters ?tft - 1\<rparr>"
  let ?pd' = "set_bearer (?pd\<lparr>tClassifierTable := tab\<rparr>) (Suc bidx) ?tft'"
  let ?s' = "s\<lparr>qa_heap := h1(t := None), gsQa_lte := (gsQa_lte s)[ct := ?pd']\<rparr>"
  have get: "get_tft s ct bidx 0 = Inr ?tft"
    using get_tft_bearers [of ct s bidx 0] k len ct by (simp add: tft_at_def bsel_def)
  have "ids \<noteq> []" using id by auto
  then have run: "qa_delete_slot km s ids bidx ct 0 j = Inr ?s'"
    using get e id j l t u(1,5) k len ct tft
    by (auto simp: qa_delete_slot_def put_tft_def set_bearer_def)
  have ok': "pdn_ok (h1(t := None)) ?pd' as'"
    unfolding as'_def
    by (rule pdn_ok_clear [OF pd k(1) j]) (use t u(2) in \<open>simp_all add: tft_at_def as'_def\<close>)
  have frame: "\<forall>a. a \<notin> set ?as \<longrightarrow> (h1(t := None)) a = ?h a" using u(4) tin by auto
  have dom: "\<forall>a. ?h a = None \<longrightarrow> (h1(t := None)) a = None" using u(6) by simp
  have "set as' \<subseteq> set ?as" unfolding as'_def by (rule set_remove1_subset)
  from qa_ok_shrink [where h' = "h1(t := None)", OF ok ct ok' frame this dom, of ?s'] run u(3) k len ct
  show ?thesis by (intro exI [of _ ?s']) (simp add: tft_at_def)
qed

lemma delete_slot_skip:
  assumes ok: "qa_ok s ass" and ct: "ct < MAX_PDNS" and b: "bidx < MAX_DEDICATED_BEARER_PER_PDN"
    and j: "j < MAX_FILTERS_PER_TFT"
    and skip: "case tPacketFilters (tft_at s ct (Suc bidx)) ! j of
                 None \<Rightarrow> True | Some t \<Rightarrow> pfid (the (qa_heap s t)) \<notin> set ids"
  shows "qa_delete_slot km s ids bidx ct 0 j = Inr s"
proof -
  let ?pd = "gsQa_lte s ! ct" and ?tft = "tft_at s ct (Suc bidx)"
  note len = qa_ok_len [OF ok]
  have pd: "pdn_ok (qa_heap s) ?pd (ass ! ct)" using qa_ok_pdn [OF ok ct] .
  have k: "Suc bidx < length (bearers ?pd)" using pd b by (simp add: pdn_ok_def)
  have l: "length (tPacketFilters ?tft) = MAX_FILTERS_PER_TFT"
    using pdn_ok_slots_len [OF pd k] by (simp add: tft_at_def)
  have get: "get_tft s ct bidx 0 = Inr ?tft"
    using get_tft_bearers [of ct s bidx 0] k len ct by (simp add: tft_at_def bsel_def)
  show ?thesis
  proof (cases "tPacketFilters ?tft ! j")
    case None
    with get l j show ?thesis by (simp add: qa_delete_slot_def)
  next
    case (Some t)
    then have "Some t \<in> set (tPacketFilters (bearers ?pd ! Suc bidx))"
      using j l nth_mem unfolding tft_at_def by metis
    then have "t \<in> set (ass ! ct)" by (rule pdn_ok_slot [OF pd k])
    then obtain e where "qa_heap s t = Some e" using qa_ok_used [OF ok ct] by auto
    with Some get l j skip show ?thesis by (simp add: qa_delete_slot_def)
  qed
qed

section \<open>All slots\<close>

text \<open>The entries among the slots \<open>ps\<close> whose identifier is listed.\<close>

definition doomed :: "heap \<Rightarrow> u8 list \<Rightarrow> ptr list \<Rightarrow> addr list" where
  "doomed h ids ps = filter (\<lambda>t. pfid (the (h t)) \<in> set ids) (addrs_of ps)"

lemma set_addrs_of: "set (addrs_of ps) = {t. Some t \<in> set ps}"
  by (force simp: addrs_of_def)

lemma distinct_addrs_nth:
  "distinct (addrs_of ps) \<Longrightarrow> i < length ps \<Longrightarrow> j < length ps \<Longrightarrow> ps ! i = Some t \<Longrightarrow> ps ! j = Some t \<Longrightarrow> i = j"
proof (induction ps arbitrary: i j)
  case (Cons p ps)
  have "t \<in> set (addrs_of ps)" if "k < length ps" "ps ! k = Some t" for k
    using nth_mem [OF that(1)] that(2) by (simp add: set_addrs_of)
  with Cons show ?case by (cases p; cases i; cases j) auto
qed simp

lemma pdn_ok_distinct_slots:
  assumes "pdn_ok h pd as" "k < length (bearers pd)"
  shows "distinct (addrs_of (tPacketFilters (bearers pd ! k)))"
proof -
  have "bearers pd = take k (bearers pd) @ bearers pd ! k # drop (Suc k) (bearers pd)"
    by (rule split_at [OF assms(2)])
  then have "slots_of (bearers pd) =
      slots_of (take k (bearers pd)) @ addrs_of (tPacketFilters (bearers pd ! k)) @ slots_of (drop (Suc k) (bearers pd))"
    by (metis slots_of_simps(2,3))
  moreover have "distinct (slots_of (bearers pd))" using assms(1) by (simp add: pdn_ok_def)
  ultimately show ?thesis by (metis distinct_append)
qed

lemma delete_slots_refines:
  assumes "qa_ok s ass" and "ct < MAX_PDNS" and "bidx < MAX_DEDICATED_BEARER_PER_PDN"
    and "distinct js" and "\<And>j. j \<in> set js \<Longrightarrow> j < MAX_FILTERS_PER_TFT"
  shows "\<exists>s' as'. qa_delete_slots km s ids bidx ct 0 js = Inr s' \<and>
     as' = filter (\<lambda>a. a \<notin> set (doomed (qa_heap s) ids
              (map ((!) (tPacketFilters (tft_at s ct (Suc bidx)))) js))) (ass ! ct) \<and>
     qa_ok s' (ass[ct := as']) \<and>
     tables s' (ass[ct := as']) = (tables s ass)[ct := filters_of (qa_heap s) as']"
  using assms
proof (induction js arbitrary: s ass)
  case Nil
  then have "filters_of (qa_heap s) (ass ! ct) = tables s ass ! ct"
    by (simp add: tables_def qa_ok_def)
  with Nil show ?case by (simp add: doomed_def)
next
  case (Cons j js)
  let ?ps = "tPacketFilters (tft_at s ct (Suc bidx))" and ?as = "ass ! ct" and ?h = "qa_heap s"
  let ?pd = "gsQa_lte s ! ct"
  have j: "j < MAX_FILTERS_PER_TFT" "j \<notin> set js" "distinct js" using Cons.prems by auto
  have pd: "pdn_ok ?h ?pd ?as" using qa_ok_pdn [OF Cons.prems(1,2)] .
  have k: "Suc bidx < length (bearers ?pd)" using pd Cons.prems(3) by (simp add: pdn_ok_def)
  have l: "length ?ps = MAX_FILTERS_PER_TFT"
    using pdn_ok_slots_len [OF pd k] by (simp add: tft_at_def)
  have dp: "distinct (addrs_of ?ps)" using pdn_ok_distinct_slots [OF pd k] by (simp add: tft_at_def)
  show ?case
  proof (cases "case ?ps ! j of None \<Rightarrow> True | Some t \<Rightarrow> pfid (the (?h t)) \<notin> set ids")
    case True
    then have "doomed ?h ids (map ((!) ?ps) (j # js)) = doomed ?h ids (map ((!) ?ps) js)"
      by (auto simp: doomed_def split: option.splits)
    with Cons.IH [OF Cons.prems(1-3) j(3)] delete_slot_skip [OF Cons.prems(1-3) j(1) True] Cons.prems(5)
    show ?thesis by simp
  next
    case False
    then obtain t where t: "?ps ! j = Some t" "pfid (the (?h t)) \<in> set ids" by (auto split: option.splits)
    let ?as1 = "remove1 t ?as"
    obtain s1 where s1: "qa_delete_slot km s ids bidx ct 0 j = Inr s1" "qa_ok s1 (ass[ct := ?as1])"
      "tables s1 (ass[ct := ?as1]) = (tables s ass)[ct := filters_of ?h ?as1]"
      "tPacketFilters (tft_at s1 ct (Suc bidx)) = ?ps[j := None]"
      using delete_slot_refines [OF Cons.prems(1-3) j(1) t] by blast
    have lt: "ct < length ass" "ct < length (tables s ass)"
      using Cons.prems(1,2) by (simp_all add: qa_ok_def tables_def)
    have d: "distinct ?as" using pd by (simp add: pdn_ok_def table_ok_def dlist_def)
    have f1: "filters_of (qa_heap s1) ?as1 = filters_of ?h ?as1"
      using arg_cong [OF s1(3), of "\<lambda>x. x ! ct"] lt by (simp add: tables_def)
    have same: "map ((!) (?ps[j := None])) js = map ((!) ?ps) js" using j(2) by (auto intro!: nth_list_update_neq)
    have other: "a \<in> set ?as1" if "a \<in> set (addrs_of (map ((!) ?ps) js))" for a
    proof -
      obtain i where i: "i \<in> set js" "?ps ! i = Some a" using \<open>a \<in> _\<close> by (auto simp: set_addrs_of)
      have il: "i < length ?ps" "j < length ?ps" using Cons.prems(5) i(1) j(1) l by auto
      have "a \<noteq> t" using distinct_addrs_nth [OF dp il, of t] i t(1) j(2) by auto
      moreover have "a \<in> set ?as"
        using pdn_ok_slot [OF pd k, of a] nth_mem [OF il(1)] i(2) by (simp add: tft_at_def)
      ultimately show ?thesis using d by simp
    qed
    have dm: "doomed (qa_heap s1) ids (map ((!) (?ps[j := None])) js) = doomed ?h ids (map ((!) ?ps) js)"
      unfolding doomed_def same using filters_of_pointwise [OF f1 other] by (intro filter_cong) auto
    have "set (doomed ?h ids (map ((!) ?ps) (j # js))) = insert t (set (doomed ?h ids (map ((!) ?ps) js)))"
      using t by (simp add: doomed_def)
    then have as2: "filter (\<lambda>a. a \<notin> set (doomed ?h ids (map ((!) ?ps) js))) ?as1 =
        filter (\<lambda>a. a \<notin> set (doomed ?h ids (map ((!) ?ps) (j # js)))) ?as" (is "?l = ?r")
      using d by (auto simp: distinct_remove1_removeAll removeAll_filter_not_eq intro!: filter_cong)
    have f2: "filters_of (qa_heap s1) ?l = filters_of ?h ?l"
      using filters_of_pointwise [OF f1] by (auto simp: filters_of_def)
    from Cons.IH [OF s1(2) Cons.prems(2,3) j(3)] Cons.prems(5) obtain s' where
      "qa_delete_slots km s1 ids bidx ct 0 js = Inr s'" "qa_ok s' (ass[ct := ?l])"
      "tables s' (ass[ct := ?l]) = (tables s ass)[ct := filters_of ?h ?l]"
      using lt s1(3,4) dm f2 by auto
    with s1(1) show ?thesis unfolding as2 by auto
  qed
qed

text \<open>
  C24. Deleting filters of a dedicated bearer by identifier never faults: exactly the
  entries of that bearer whose identifier is listed leave the table of the network, all
  other entries keep their order and their filters, the other tables do not change and
  the invariant is kept.
\<close>

theorem Qa_Delete_Filter_refines:
  assumes "qa_ok s ass" and "ct < MAX_PDNS" and "bidx < MAX_DEDICATED_BEARER_PER_PDN"
  shows "\<exists>s' as'. Qa_Delete_Filter km s r bidx n ct 0 = Inr (eAMP_RET_SUCCESS, s') \<and>
     as' = filter (\<lambda>a. a \<notin> set (doomed (qa_heap s) (take (unat n) (rcv_PfidList r))
              (tPacketFilters (tft_at s ct (Suc bidx))))) (ass ! ct) \<and>
     qa_ok s' (ass[ct := as']) \<and>
     tables s' (ass[ct := as']) = (tables s ass)[ct := filters_of (qa_heap s) as']"
proof -
  let ?ps = "tPacketFilters (tft_at s ct (Suc bidx))"
  have pd: "pdn_ok (qa_heap s) (gsQa_lte s ! ct) (ass ! ct)" using qa_ok_pdn [OF assms(1,2)] .
  have "length ?ps = MAX_FILTERS_PER_TFT"
    using pdn_ok_slots_len [OF pd, of "Suc bidx"] pd assms(3) by (simp add: tft_at_def pdn_ok_def)
  then have "map ((!) ?ps) [0..<MAX_FILTERS_PER_TFT] = ?ps" by (metis map_nth)
  with delete_slots_refines [OF assms, of "[0..<MAX_FILTERS_PER_TFT]" km "take (unat n) (rcv_PfidList r)"]
  show ?thesis by (auto simp: Qa_Delete_Filter_def)
qed

text \<open>
  A network with a dedicated bearer that records one filter, identifier 3, behind which a
  match-all filter stands.
\<close>

definition one_ded_state :: qa_state where
  "one_ded_state = qa_init\<lparr>
     qa_heap := [2 \<mapsto> \<lparr>tPacketFilter = zero_filter\<lparr>u8PacketFilterIdentifier := 3\<rparr>, tNextPF = Some 3, tPrevPF = None\<rparr>,
                 3 \<mapsto> \<lparr>tPacketFilter = zero_filter\<lparr>u8PacketFilterPrecedence := 255\<rparr>, tNextPF = None, tPrevPF = Some 2\<rparr>],
     gsQa_lte := (gsQa_lte qa_init)[0 := zero_pdn\<lparr>tClassifierTable := Some 2, u8NumDedicatedBearers := 1,
       tDedicatedBearer := (replicate 16 zero_tft)[0 := zero_tft\<lparr>u8EpsBearerId := 6, u8NumFilters := 1,
          tPacketFilters := (replicate 16 None)[0 := Some 2]\<rparr>]\<rparr>]\<rparr>"

lemma one_ded_tables: "gsQa_lte one_ded_state ! 0 = zero_pdn\<lparr>tClassifierTable := Some 2, u8NumDedicatedBearers := 1,
       tDedicatedBearer := (replicate 16 zero_tft)[0 := zero_tft\<lparr>u8EpsBearerId := 6, u8NumFilters := 1,
          tPacketFilters := (replicate 16 None)[0 := Some 2]\<rparr>]\<rparr>"
  by (simp add: one_ded_state_def qa_init_def max_defs replicate_5)

lemma one_ded_ok: "qa_ok one_ded_state [[2, 3], [], [], [], []]"
proof -
  let ?pd = "gsQa_lte one_ded_state ! 0"
  have g: "gsQa_lte one_ded_state = [?pd, zero_pdn, zero_pdn, zero_pdn, zero_pdn]"
    by (simp add: one_ded_state_def qa_init_def max_defs eval_nat_numeral)
  have "table_ok (qa_heap one_ded_state) (Some 2) [2, 3]"
    by (simp add: table_ok_def dlist_def sorted_filters_def one_ded_state_def filters_of_def zero_filter_def)
  moreover have "slots_of (bearers ?pd) = [2]"
    unfolding one_ded_tables
    by (simp add: bearers_def zero_pdn_def zero_tft_def slots_of_def max_defs replicate_16 addrs_of_def)
  ultimately have "pdn_ok (qa_heap one_ded_state) ?pd [2, 3]"
    unfolding pdn_ok_def
    by (simp add: one_ded_tables bearers_def zero_pdn_def zero_tft_def max_defs ETH_ALEN_def replicate_16
        list_all_iff)
  moreover have "finite (dom (qa_heap one_ded_state))" by (simp add: one_ded_state_def)
  ultimately show ?thesis
    unfolding qa_ok_def by (subst g, subst g) (simp add: zero_pdn_ok max_defs)
qed

lemma one_ded_slots: "tPacketFilters (tft_at one_ded_state 0 1) = Some 2 # None # replicate 14 None"
  unfolding tft_at_def one_ded_tables by (simp add: bearers_def max_defs replicate_16)

theorem Qa_Delete_Filter_refines_witness:
  "\<exists>s'. Qa_Delete_Filter next_addr one_ded_state (zero_tft_recvd\<lparr>rcv_PfidList := 3 # replicate 15 0\<rparr>) 0 1 0 0 =
       Inr (eAMP_RET_SUCCESS, s') \<and> qa_ok s' [[3], [], [], [], []]"
proof -
  have d: "doomed (qa_heap one_ded_state) [3] (tPacketFilters (tft_at one_ded_state 0 1)) = [2]"
    unfolding one_ded_slots by (simp add: doomed_def one_ded_state_def)
  have "0 < MAX_PDNS" "0 < MAX_DEDICATED_BEARER_PER_PDN" by (simp_all add: max_defs)
  from Qa_Delete_Filter_refines [OF one_ded_ok this, of next_addr
      "zero_tft_recvd\<lparr>rcv_PfidList := 3 # replicate 15 0\<rparr>" 1] d
  show ?thesis by auto
qed

section \<open>Deleting a dedicated bearer\<close>

lemma free_slots_refines:
  assumes "table_ok h tab as" "distinct (addrs_of ps)" "set (addrs_of ps) \<subseteq> set as"
    "x \<in> set as" "x \<notin> set (addrs_of ps)"
  shows "\<exists>h' tab' as'. qa_free_slots h tab ps = Inr (h', tab') \<and>
     as' = filter (\<lambda>a. a \<notin> set (addrs_of ps)) as \<and> table_ok h' tab' as' \<and>
     filters_of h' as' = filters_of h as' \<and> (\<forall>a. a \<notin> set as \<longrightarrow> h' a = h a) \<and>
     (\<forall>a. h a = None \<longrightarrow> h' a = None) \<and> (\<forall>a \<in> set (addrs_of ps). h' a = None)"
  using assms
proof (induction ps arbitrary: h tab as)
  case Nil
  then show ?case by simp
next
  case (Cons p ps)
  show ?case
  proof (cases p)
    case None
    with Cons show ?thesis by simp
  next
    case (Some t)
    have t: "t \<in> set as" "as \<noteq> [t]" "distinct as"
      using Cons.prems Some by (auto simp: table_ok_def dlist_def)
    obtain h1 tab1 where u: "qa_unlink False h tab (Some t) = Inr (h1, tab1)"
      "table_ok (h1(t := None)) tab1 (remove1 t as)"
      "filters_of (h1(t := None)) (remove1 t as) = filters_of h (remove1 t as)"
      "\<forall>a. a \<notin> set as \<longrightarrow> h1 a = h a" "\<forall>a. h1 a = None \<longleftrightarrow> h a = None"
      using table_unlink_free [OF Cons.prems(1) t(1), of False] t(2) by auto
    let ?as' = "filter (\<lambda>a. a \<notin> set (addrs_of (p # ps))) as"
    have as': "filter (\<lambda>a. a \<notin> set (addrs_of ps)) (remove1 t as) = ?as'"
      using t(3) Some by (auto simp: distinct_remove1_removeAll removeAll_filter_not_eq intro!: filter_cong)
    have "set (addrs_of ps) \<subseteq> set (remove1 t as)" "x \<in> set (remove1 t as)" "x \<notin> set (addrs_of ps)"
      "distinct (addrs_of ps)"
      using Cons.prems Some t(3) by auto
    from Cons.IH [OF u(2) this(4,1,2,3)] obtain h' tab' where
      ih: "qa_free_slots (h1(t := None)) tab1 ps = Inr (h', tab')" "table_ok h' tab' ?as'"
        "filters_of h' ?as' = filters_of (h1(t := None)) ?as'"
        "\<forall>a. a \<notin> set (remove1 t as) \<longrightarrow> h' a = (h1(t := None)) a"
        "\<forall>a. (h1(t := None)) a = None \<longrightarrow> h' a = None" "\<forall>a \<in> set (addrs_of ps). h' a = None"
      unfolding as' by blast
    have "filters_of (h1(t := None)) ?as' = filters_of h ?as'"
      using filters_of_pointwise [OF u(3)] t(3) Some by (auto simp: filters_of_def)
    moreover have "\<forall>a. a \<notin> set as \<longrightarrow> h' a = h a" using ih(4) u(4) t(1) notin_set_remove1 by fastforce
    moreover have "\<forall>a. h a = None \<longrightarrow> h' a = None" using ih(5) u(5) by simp
    moreover have "\<forall>a \<in> set (addrs_of (p # ps)). h' a = None" using ih(5,6) Some by simp
    ultimately show ?thesis using ih(1,2,3) u(1) Some by (intro exI [of _ h'] exI [of _ tab']) auto
  qed
qed

lemma slots_zero_bearer:
  assumes "k < length ts"
  obtains L R where "slots_of ts = L @ addrs_of (tPacketFilters (ts ! k)) @ R"
    "slots_of (ts[k := zero_tft]) = L @ R"
proof -
  have "slots_of ts = slots_of (take k ts) @ addrs_of (tPacketFilters (ts ! k)) @ slots_of (drop (Suc k) ts)"
    using arg_cong [OF split_at [OF assms], of slots_of] by simp
  moreover have "slots_of (ts[k := zero_tft]) = slots_of (take k ts) @ slots_of (drop (Suc k) ts)"
    using assms by (simp add: upd_conv_take_nth_drop zero_tft_def)
  ultimately show ?thesis using that by blast
qed

lemma pdn_ok_zero_bearer:
  assumes ok: "pdn_ok h pd as" and k: "k < length (bearers pd)"
    and tab: "table_ok h' tab (filter (\<lambda>a. a \<notin> set (addrs_of (tPacketFilters (bearers pd ! k)))) as)"
  shows "pdn_ok h' (set_bearer (pd\<lparr>tClassifierTable := tab\<rparr>) k zero_tft)
     (filter (\<lambda>a. a \<notin> set (addrs_of (tPacketFilters (bearers pd ! k)))) as)"
proof -
  obtain L R where s: "slots_of (bearers pd) = L @ addrs_of (tPacketFilters (bearers pd ! k)) @ R"
    "slots_of ((bearers pd)[k := zero_tft]) = L @ R" using slots_zero_bearer [OF k] .
  have "length (tPacketFilters zero_tft) = MAX_FILTERS_PER_TFT" by (simp add: zero_tft_def)
  then have "list_all (\<lambda>tft. length (tPacketFilters tft) = MAX_FILTERS_PER_TFT) ((bearers pd)[k := zero_tft])"
    using ok unfolding pdn_ok_def list_all_iff by (metis insert_iff set_update_subset_insert subsetD)
  with ok tab show ?thesis unfolding pdn_ok_def set_bearer_simps s by auto
qed

lemma bearer_delete:
  assumes "qa_ok s ass" and "ct < MAX_PDNS"
    and "bearer_id \<noteq> 0" and "u8EpsBearerId (tDefaultBearer (gsQa_lte s ! ct)) \<noteq> bearer_id"
    and "unat (u8NumDedicatedBearers (gsQa_lte s ! ct)) \<le> MAX_DEDICATED_BEARER_PER_PDN"
    and "List.find (\<lambda>i. u8EpsBearerId (tDedicatedBearer (gsQa_lte s ! ct) ! i) = bearer_id)
           [0..<unat (u8NumDedicatedBearers (gsQa_lte s ! ct))] = Some i"
    and "x \<in> set (ass ! ct)" and "x \<notin> set (addrs_of (tPacketFilters (tft_at s ct (Suc i))))"
  shows "\<exists>s' as'. Qa_Bearer_Delete s bearer_id ct = Inr (eAMP_RET_SUCCESS, s') \<and>
     as' = filter (\<lambda>a. a \<notin> set (addrs_of (tPacketFilters (tft_at s ct (Suc i))))) (ass ! ct) \<and>
     qa_ok s' (ass[ct := as']) \<and>
     tables s' (ass[ct := as']) = (tables s ass)[ct := filters_of (qa_heap s) as'] \<and>
     (\<forall>a \<in> set (addrs_of (tPacketFilters (tft_at s ct (Suc i)))). qa_heap s' a = None) \<and>
     tft_at s' ct (Suc i) = zero_tft \<and>
     u8NumDedicatedBearers (gsQa_lte s' ! ct) = u8NumDedicatedBearers (gsQa_lte s ! ct) - 1 \<and>
     tDedicatedBearer (gsQa_lte s' ! ct) = (tDedicatedBearer (gsQa_lte s ! ct))[i := zero_tft] \<and>
     tDefaultBearer (gsQa_lte s' ! ct) = tDefaultBearer (gsQa_lte s ! ct)"
proof -
  let ?pd = "gsQa_lte s ! ct" and ?as = "ass ! ct" and ?ps = "tPacketFilters (tft_at s ct (Suc i))"
  note len = qa_ok_len [OF assms(1)]
  have pd: "pdn_ok (qa_heap s) ?pd ?as" using qa_ok_pdn [OF assms(1,2)] .
  have i: "i < unat (u8NumDedicatedBearers ?pd)" using assms(6) by (auto simp: find_Some_iff)
  then have k: "Suc i < length (bearers ?pd)" "i < length (tDedicatedBearer ?pd)"
    using pd assms(5) by (simp_all add: pdn_ok_def)
  have ps: "?ps = tPacketFilters (bearers ?pd ! Suc i)" "tDedicatedBearer ?pd ! i = tft_at s ct (Suc i)"
    by (simp_all add: tft_at_def bearers_def)
  have dis: "distinct (addrs_of ?ps)" using pdn_ok_distinct_slots [OF pd k(1)] by (simp add: ps)
  have sub: "set (addrs_of ?ps) \<subseteq> set ?as" using pdn_ok_slot [OF pd k(1)] by (auto simp: ps set_addrs_of)
  have tok: "table_ok (qa_heap s) (tClassifierTable ?pd) ?as" using pd by (simp add: pdn_ok_def)
  let ?as' = "filter (\<lambda>a. a \<notin> set (addrs_of ?ps)) ?as"
  obtain h' tab' where f: "qa_free_slots (qa_heap s) (tClassifierTable ?pd) ?ps = Inr (h', tab')"
    "table_ok h' tab' ?as'" "filters_of h' ?as' = filters_of (qa_heap s) ?as'"
    "\<forall>a. a \<notin> set ?as \<longrightarrow> h' a = qa_heap s a" "\<forall>a. qa_heap s a = None \<longrightarrow> h' a = None"
    "\<forall>a \<in> set (addrs_of ?ps). h' a = None"
    using free_slots_refines [OF tok dis sub assms(7,8)] by blast
  let ?pd' = "?pd\<lparr>tDedicatedBearer := (tDedicatedBearer ?pd)[i := zero_tft], tClassifierTable := tab',
      u8NumDedicatedBearers := u8NumDedicatedBearers ?pd - 1\<rparr>"
  let ?s' = "s\<lparr>qa_heap := h', gsQa_lte := (gsQa_lte s)[ct := ?pd']\<rparr>"
  have "length (tDedicatedBearer ?pd) = MAX_DEDICATED_BEARER_PER_PDN" using pd by (simp add: pdn_ok_def)
  then have run: "Qa_Bearer_Delete s bearer_id ct = Inr (eAMP_RET_SUCCESS, ?s')"
    using assms(3-6) f(1) len assms(2) ps(2) by (simp add: Qa_Bearer_Delete_def Let_def min_absorb1)
  have "pdn_ok h' (set_bearer (?pd\<lparr>tClassifierTable := tab'\<rparr>) (Suc i) zero_tft) ?as'"
    using pdn_ok_zero_bearer [OF pd k(1), of h' tab'] f(2) by (simp add: ps)
  then have ok': "pdn_ok h' ?pd' ?as'" by (simp add: pdn_ok_def set_bearer_def bearers_def)
  have "set ?as' \<subseteq> set ?as" by auto
  from qa_ok_shrink [OF assms(1,2) ok' f(4) this f(5), of ?s'] f(3,6) run k len assms(2)
  show ?thesis by (intro exI [of _ ?s'] exI [of _ ?as']) (simp add: tft_at_def bearers_def)
qed

text \<open>
  Deleting a dedicated bearer whose filters are not the whole table: the entries of
  the bearer leave the table and are freed, the others stay, the bearer's record is
  cleared, the count of bearers goes down and the invariant is kept.
\<close>

theorem Qa_Bearer_Delete_dedicated:
  assumes "qa_ok s ass" and "ct < MAX_PDNS"
    and "bearer_id \<noteq> 0" and "u8EpsBearerId (tDefaultBearer (gsQa_lte s ! ct)) \<noteq> bearer_id"
    and "unat (u8NumDedicatedBearers (gsQa_lte s ! ct)) \<le> MAX_DEDICATED_BEARER_PER_PDN"
    and "List.find (\<lambda>i. u8EpsBearerId (tDedicatedBearer (gsQa_lte s ! ct) ! i) = bearer_id)
           [0..<unat (u8NumDedicatedBearers (gsQa_lte s ! ct))] = Some i"
    and "x \<in> set (ass ! ct)" and "x \<notin> set (addrs_of (tPacketFilters (tft_at s ct (Suc i))))"
  shows "\<exists>s' as'. Qa_Bearer_Delete s bearer_id ct = Inr (eAMP_RET_SUCCESS, s') \<and>
     as' = filter (\<lambda>a. a \<notin> set (addrs_of (tPacketFilters (tft_at s ct (Suc i))))) (ass ! ct) \<and>
     qa_ok s' (ass[ct := as']) \<and>
     tables s' (ass[ct := as']) = (tables s ass)[ct := filters_of (qa_heap s) as'] \<and>
     (\<forall>a \<in> set (addrs_of (tPacketFilters (tft_at s ct (Suc i)))). qa_heap s' a = None) \<and>
     tft_at s' ct (Suc i) = zero_tft \<and>
     u8NumDedicatedBearers (gsQa_lte s' ! ct) = u8NumDedicatedBearers (gsQa_lte s ! ct) - 1"
  using bearer_delete [OF assms] by blast

theorem Qa_Bearer_Delete_dedicated_witness:
  "\<exists>s'. Qa_Bearer_Delete one_ded_state 6 0 = Inr (eAMP_RET_SUCCESS, s') \<and>
     qa_ok s' [[3], [], [], [], []] \<and> qa_heap s' 2 = None"
proof -
  have p: "tPacketFilters (tft_at one_ded_state 0 (Suc 0)) = Some 2 # None # replicate 14 None"
    using one_ded_slots by simp
  have a: "u8EpsBearerId (tDefaultBearer (gsQa_lte one_ded_state ! 0)) \<noteq> 6"
    "unat (u8NumDedicatedBearers (gsQa_lte one_ded_state ! 0)) \<le> MAX_DEDICATED_BEARER_PER_PDN"
    "List.find (\<lambda>i. u8EpsBearerId (tDedicatedBearer (gsQa_lte one_ded_state ! 0) ! i) = 6)
       [0..<unat (u8NumDedicatedBearers (gsQa_lte one_ded_state ! 0))] = Some 0"
    unfolding one_ded_tables by (simp_all add: zero_pdn_def zero_tft_def max_defs replicate_16)
  have x: "0 < MAX_PDNS" "(6 :: u8) \<noteq> 0" "3 \<in> set ([[2, 3], [], [], [], []] ! 0 :: nat list)"
    "3 \<notin> set (addrs_of (tPacketFilters (tft_at one_ded_state 0 (Suc 0))))"
    by (simp_all add: max_defs p)
  from Qa_Bearer_Delete_dedicated [OF one_ded_ok x(1,2) a x(3,4)] show ?thesis by (auto simp: p)
qed

section \<open>Deleting the default bearer\<close>

lemma free_list_dseg:
  "dseg h prv p as None \<Longrightarrow> distinct as \<Longrightarrow>
     qa_free_list h p = Some (Inr (\<lambda>a. if a \<in> set as then None else h a))"
proof (induction as arbitrary: h prv p)
  case Nil
  then show ?case by (simp add: qa_free_list.simps)
next
  case (Cons a as)
  then obtain e where e: "h a = Some e" "p = Some a" "dseg h (Some a) (tNextPF e) as None"
    by (auto split: option.splits)
  have "dseg (h(a := None)) (Some a) (tNextPF e) as None" using e(3) Cons.prems(2) by simp
  then have "qa_free_list (h(a := None)) (tNextPF e) =
      Some (Inr (\<lambda>b. if b \<in> set as then None else (h(a := None)) b))"
    by (rule Cons.IH) (use Cons.prems(2) in simp)
  also have "(\<lambda>b. if b \<in> set as then None else (h(a := None)) b) = (\<lambda>b. if b \<in> set (a # as) then None else h b)"
    by auto
  finally show ?case using e(1,2) by (simp add: qa_free_list.simps [of h "Some a"] del: fun_upd_apply)
qed

text \<open>The tables of the other networks do not depend on the entries of this one.\<close>

lemma other_tables:
  assumes ok: "qa_ok s ass" and ct: "ct < MAX_PDNS" and frame: "\<forall>a. a \<notin> set (ass ! ct) \<longrightarrow> h a = qa_heap s a"
  shows "map (filters_of h) (ass[ct := []]) = (tables s ass)[ct := []]"
proof (rule nth_equalityI)
  have len: "length ass = MAX_PDNS" "distinct (concat ass)" using ok by (simp_all add: qa_ok_def)
  show "length (map (filters_of h) (ass[ct := []])) = length ((tables s ass)[ct := []])" by (simp add: tables_def)
  fix k
  assume "k < length (map (filters_of h) (ass[ct := []]))"
  then have k: "k < length ass" by simp
  have "set (ass ! k) \<inter> set (ass ! ct) = {}" if "k \<noteq> ct"
    using distinct_concat_nth [of ass k ct] len k ct that by auto
  then have "filters_of h (ass ! k) = filters_of (qa_heap s) (ass ! k)" if "k \<noteq> ct"
    using frame that by (fastforce simp: filters_of_def)
  then show "map (filters_of h) (ass[ct := []]) ! k = (tables s ass)[ct := []] ! k"
    using k ct len(1) by (cases "k = ct") (simp_all add: tables_def filters_of_def)
qed

text \<open>
  C32. Deleting the default bearer, or every bearer with the identifier 0, on any well-formed state.
  With a count of dedicated bearers beyond the array it reads outside of it; otherwise it succeeds,
  frees exactly the entries of the table of the network and clears the default bearer and as many
  dedicated bearers from the first on as the count says, while the tables of the other networks stay.
  The bearers behind the count are kept with the filters they record, which are freed: the state is
  well formed afterwards if and only if they record none. (Deleting a dedicated bearer lowers the count
  without closing the gap and can leave such a bearer.)
\<close>

theorem Qa_Bearer_Delete_default:
  assumes "qa_ok s ass" and "ct < MAX_PDNS"
    and "u8EpsBearerId (tDefaultBearer (gsQa_lte s ! ct)) = bearer_id \<or> bearer_id = 0"
    and "n = unat (u8NumDedicatedBearers (gsQa_lte s ! ct))"
  shows "if MAX_DEDICATED_BEARER_PER_PDN < n then Qa_Bearer_Delete s bearer_id ct = Inl OutOfBounds
     else \<exists>s'. Qa_Bearer_Delete s bearer_id ct = Inr (eAMP_RET_SUCCESS, s') \<and>
       (\<forall>a. qa_heap s' a = (if a \<in> set (ass ! ct) then None else qa_heap s a)) \<and>
       tables s' (ass[ct := []]) = (tables s ass)[ct := []] \<and>
       tDefaultBearer (gsQa_lte s' ! ct) = zero_tft \<and> u8NumDedicatedBearers (gsQa_lte s' ! ct) = 0 \<and>
       tClassifierTable (gsQa_lte s' ! ct) = None \<and>
       tDedicatedBearer (gsQa_lte s' ! ct) = replicate n zero_tft @ drop n (tDedicatedBearer (gsQa_lte s ! ct)) \<and>
       (qa_ok s' (ass[ct := []]) \<longleftrightarrow> slots_of (drop n (tDedicatedBearer (gsQa_lte s ! ct))) = [])"
proof -
  let ?pd = "gsQa_lte s ! ct" and ?as = "ass ! ct"
  let ?ds = "tDedicatedBearer ?pd"
  let ?h' = "\<lambda>a. if a \<in> set ?as then None else qa_heap s a"
  note len = qa_ok_len [OF assms(1)]
  have pd: "pdn_ok (qa_heap s) ?pd ?as" using qa_ok_pdn [OF assms(1,2)] .
  have "dseg (qa_heap s) None (tClassifierTable ?pd) ?as None" "distinct ?as"
    using pd by (simp_all add: pdn_ok_def table_ok_def dlist_def)
  note fl = free_list_dseg [OF this]
  have ld: "length ?ds = MAX_DEDICATED_BEARER_PER_PDN" using pd by (simp add: pdn_ok_def)
  let ?pd' = "?pd\<lparr>tDefaultBearer := zero_tft, u8NumDedicatedBearers := 0,
       tDedicatedBearer := replicate n zero_tft @ drop n ?ds, tClassifierTable := None\<rparr>"
  define s' where "s' = s\<lparr>qa_heap := ?h', gsQa_lte := (gsQa_lte s)[ct := ?pd']\<rparr>"
  show ?thesis
  proof (cases "MAX_DEDICATED_BEARER_PER_PDN < n")
    case True
    then show ?thesis using assms(2,3,4) len ld by (auto simp: Qa_Bearer_Delete_def Let_def)
  next
    case False
    have run: "Qa_Bearer_Delete s bearer_id ct = Inr (eAMP_RET_SUCCESS, s')"
      using assms(2,3,4) False fl len ld by (auto simp: Qa_Bearer_Delete_def Let_def s'_def)
    have at: "gsQa_lte s' ! ct = ?pd'" "qa_heap s' = ?h'" using assms(2) len by (simp_all add: s'_def)
    have z: "slots_of (replicate m zero_tft) = []" for m by (induction m) (simp_all add: zero_tft_def)
    have sl: "slots_of (bearers ?pd') = slots_of (drop n ?ds)" using z [of n] z [of 1] by (simp add: bearers_def)
    have "list_all (\<lambda>tft. length (tPacketFilters tft) = MAX_FILTERS_PER_TFT) (bearers ?pd')"
      using pd by (auto simp: pdn_ok_def bearers_def list_all_iff zero_tft_def dest: in_set_dropD)
    then have "pdn_ok ?h' ?pd' []" if "slots_of (drop n ?ds) = []"
      using pd False ld sl that by (simp add: pdn_ok_def table_ok_def dlist_def sorted_filters_def filters_of_def)
    then have "qa_ok s' (ass[ct := []])" if "slots_of (drop n ?ds) = []"
      using qa_ok_shrink [OF assms(1,2), of ?h' ?pd' "[]" s'] that by (auto simp: s'_def)
    moreover have "slots_of (drop n ?ds) = []" if "qa_ok s' (ass[ct := []])"
      using qa_ok_pdn [OF that assms(2)] at(1) sl assms(2) len by (simp add: pdn_ok_def)
    moreover have "tables s' (ass[ct := []]) = (tables s ass)[ct := []]"
      using other_tables [OF assms(1,2), of ?h'] at(2) by (simp add: tables_def)
    ultimately show ?thesis using run at False by (simp only: if_False) (intro exI [of _ s'], auto)
  qed
qed

theorem Qa_Bearer_Delete_default_witness:
  "\<exists>s'. Qa_Bearer_Delete one_ded_state 0 0 = Inr (eAMP_RET_SUCCESS, s') \<and>
     qa_ok s' [[], [], [], [], []] \<and> qa_heap s' 2 = None \<and> qa_heap s' 3 = None"
proof -
  have z: "slots_of (replicate m zero_tft) = []" for m by (induction m) (simp_all add: zero_tft_def)
  have "0 < MAX_PDNS" by (simp add: max_defs)
  moreover have "unat (u8NumDedicatedBearers (gsQa_lte one_ded_state ! 0)) \<le> MAX_DEDICATED_BEARER_PER_PDN"
    "slots_of (drop (unat (u8NumDedicatedBearers (gsQa_lte one_ded_state ! 0)))
       (tDedicatedBearer (gsQa_lte one_ded_state ! 0))) = []"
    unfolding one_ded_tables using z [of 14] z [of 1] by (simp_all add: max_defs replicate_16)
  ultimately show ?thesis using Qa_Bearer_Delete_default [OF one_ded_ok, of 0 0] by (auto simp: not_less)
qed

section \<open>Where deletion goes wrong\<close>

lemma free_slots_all_null:
  assumes "table_ok h tab as" "distinct (addrs_of ps)" "set (addrs_of ps) = set as" "as \<noteq> []"
  shows "qa_free_slots h tab ps = Inl NullDeref"
  using assms
proof (induction ps arbitrary: h tab as)
  case Nil
  then show ?case by simp
next
  case (Cons p ps)
  show ?case
  proof (cases p)
    case None
    with Cons show ?thesis by simp
  next
    case (Some t)
    have t: "t \<in> set as" "distinct as" using Cons.prems Some by (auto simp: table_ok_def dlist_def)
    show ?thesis
    proof (cases "as = [t]")
      case True
      with Cons.prems(1) Some show ?thesis by (simp add: qa_unlink_only_entry table_ok_def)
    next
      case False
      then obtain h1 tab1 where u: "qa_unlink False h tab (Some t) = Inr (h1, tab1)"
        "table_ok (h1(t := None)) tab1 (remove1 t as)"
        using table_unlink_free [OF Cons.prems(1) t(1), of False] by auto
      have "set (addrs_of ps) = set (remove1 t as)" using Cons.prems(2,3) Some t(2) by auto
      moreover have "remove1 t as \<noteq> []" using False t by (cases as) (auto split: if_splits)
      ultimately have "qa_free_slots (h1(t := None)) tab1 ps = Inl NullDeref"
        using Cons.IH [of "h1(t := None)" tab1 "remove1 t as"] u(2) Cons.prems(2) Some
        by (simp del: fun_upd_apply)
      with u(1) Some show ?thesis by simp
    qed
  qed
qed

text \<open>
  The removal used for bearers omits the NULL test that the other removals have: when
  the filters of a dedicated bearer are the whole table of its network, deleting the
  bearer dereferences NULL.
\<close>

theorem Qa_Bearer_Delete_last_filters_null:
  assumes "qa_ok s ass" and "ct < MAX_PDNS"
    and "bearer_id \<noteq> 0" and "u8EpsBearerId (tDefaultBearer (gsQa_lte s ! ct)) \<noteq> bearer_id"
    and "unat (u8NumDedicatedBearers (gsQa_lte s ! ct)) \<le> MAX_DEDICATED_BEARER_PER_PDN"
    and "List.find (\<lambda>i. u8EpsBearerId (tDedicatedBearer (gsQa_lte s ! ct) ! i) = bearer_id)
           [0..<unat (u8NumDedicatedBearers (gsQa_lte s ! ct))] = Some i"
    and "set (addrs_of (tPacketFilters (tft_at s ct (Suc i)))) = set (ass ! ct)" and "ass ! ct \<noteq> []"
  shows "Qa_Bearer_Delete s bearer_id ct = Inl NullDeref"
proof -
  let ?pd = "gsQa_lte s ! ct"
  note len = qa_ok_len [OF assms(1)]
  have pd: "pdn_ok (qa_heap s) ?pd (ass ! ct)" using qa_ok_pdn [OF assms(1,2)] .
  then have ld: "length (tDedicatedBearer ?pd) = MAX_DEDICATED_BEARER_PER_PDN" by (simp add: pdn_ok_def)
  have "i < unat (u8NumDedicatedBearers ?pd)" using assms(6) by (auto simp: find_Some_iff)
  then have "Suc i < length (bearers ?pd)" using ld assms(5) by simp
  then have "distinct (addrs_of (tPacketFilters (tft_at s ct (Suc i))))"
    using pdn_ok_distinct_slots [OF pd] by (simp add: tft_at_def)
  moreover have "table_ok (qa_heap s) (tClassifierTable ?pd) (ass ! ct)" using pd by (simp add: pdn_ok_def)
  ultimately have "qa_free_slots (qa_heap s) (tClassifierTable ?pd) (tPacketFilters (tDedicatedBearer ?pd ! i)) =
      Inl NullDeref"
    using free_slots_all_null assms(7,8) by (simp add: tft_at_def bearers_def)
  with assms(2-6) len ld show ?thesis by (simp add: Qa_Bearer_Delete_def Let_def min_absorb1)
qed

text \<open>A network whose only filter is that of its dedicated bearer.\<close>

definition lone_ded_state :: qa_state where
  "lone_ded_state = one_ded_state\<lparr>
     qa_heap := [2 \<mapsto> \<lparr>tPacketFilter = zero_filter, tNextPF = None, tPrevPF = None\<rparr>]\<rparr>"

lemma lone_ded_ok: "qa_ok lone_ded_state [[2], [], [], [], []]"
proof -
  have g: "gsQa_lte lone_ded_state = gsQa_lte one_ded_state" by (simp add: lone_ded_state_def)
  have g5: "gsQa_lte one_ded_state = [gsQa_lte one_ded_state ! 0, zero_pdn, zero_pdn, zero_pdn, zero_pdn]"
    by (simp add: one_ded_state_def qa_init_def max_defs eval_nat_numeral)
  have "table_ok (qa_heap lone_ded_state) (Some 2) [2]"
    by (simp add: table_ok_def dlist_def sorted_filters_def lone_ded_state_def filters_of_def)
  moreover have "pdn_ok (qa_heap one_ded_state) (gsQa_lte one_ded_state ! 0) [2, 3]"
    using qa_ok_pdn [OF one_ded_ok, of 0] by (simp add: max_defs)
  moreover have "slots_of (bearers (gsQa_lte one_ded_state ! 0)) = [2]"
    unfolding one_ded_tables
    by (simp add: bearers_def zero_pdn_def zero_tft_def slots_of_def max_defs replicate_16 addrs_of_def)
  ultimately have "pdn_ok (qa_heap lone_ded_state) (gsQa_lte one_ded_state ! 0) [2]"
    by (simp add: pdn_ok_def) (simp add: one_ded_tables)
  moreover have "finite (dom (qa_heap lone_ded_state))" by (simp add: lone_ded_state_def)
  ultimately show ?thesis
    unfolding qa_ok_def g by (subst g5, subst g5) (simp add: zero_pdn_ok max_defs)
qed

theorem Qa_Bearer_Delete_last_filters_null_witness:
  "Qa_Bearer_Delete lone_ded_state 6 0 = Inl NullDeref"
proof -
  have g: "gsQa_lte lone_ded_state = gsQa_lte one_ded_state" by (simp add: lone_ded_state_def)
  have p: "tPacketFilters (tft_at lone_ded_state 0 (Suc 0)) = Some 2 # None # replicate 14 None"
    using one_ded_slots by (simp add: tft_at_def g)
  have a: "u8EpsBearerId (tDefaultBearer (gsQa_lte lone_ded_state ! 0)) \<noteq> 6"
    "unat (u8NumDedicatedBearers (gsQa_lte lone_ded_state ! 0)) \<le> MAX_DEDICATED_BEARER_PER_PDN"
    "List.find (\<lambda>i. u8EpsBearerId (tDedicatedBearer (gsQa_lte lone_ded_state ! 0) ! i) = 6)
       [0..<unat (u8NumDedicatedBearers (gsQa_lte lone_ded_state ! 0))] = Some 0"
    unfolding g one_ded_tables by (simp_all add: zero_pdn_def zero_tft_def max_defs replicate_16)
  have x: "0 < MAX_PDNS" "(6 :: u8) \<noteq> 0" by (simp_all add: max_defs)
  show ?thesis by (rule Qa_Bearer_Delete_last_filters_null [OF lone_ded_ok x a]) (simp_all add: p)
qed

text \<open>
  Deleting a dedicated bearer lowers the count without moving the bearers behind it:
  the last of them falls outside the count, and a later request to delete it fails although
  its filters are still in the table.
\<close>

theorem Qa_Bearer_Delete_loses_last_bearer:
  assumes "qa_ok s ass" and "ct < MAX_PDNS"
    and "bearer_id \<noteq> 0" and "u8EpsBearerId (tDefaultBearer (gsQa_lte s ! ct)) \<noteq> bearer_id"
    and "unat (u8NumDedicatedBearers (gsQa_lte s ! ct)) = Suc n" and "Suc n \<le> MAX_DEDICATED_BEARER_PER_PDN"
    and "List.find (\<lambda>i. u8EpsBearerId (tDedicatedBearer (gsQa_lte s ! ct) ! i) = bearer_id)
           [0..<Suc n] = Some i"
    and "i < n" and "x \<in> set (ass ! ct)" and "x \<notin> set (addrs_of (tPacketFilters (tft_at s ct (Suc i))))"
    and "other \<noteq> 0" and "other \<noteq> u8EpsBearerId (tDefaultBearer (gsQa_lte s ! ct))"
    and "u8EpsBearerId (tDedicatedBearer (gsQa_lte s ! ct) ! n) = other"
    and "\<forall>j < n. u8EpsBearerId (tDedicatedBearer (gsQa_lte s ! ct) ! j) \<noteq> other"
  shows "\<exists>s'. Qa_Bearer_Delete s bearer_id ct = Inr (eAMP_RET_SUCCESS, s') \<and>
     tft_at s' ct (Suc n) = tft_at s ct (Suc n) \<and>
     Qa_Bearer_Delete s' other ct = Inr (eAMP_RET_FAIL, s')"
proof -
  let ?pd = "gsQa_lte s ! ct"
  have n: "unat (u8NumDedicatedBearers ?pd) \<le> MAX_DEDICATED_BEARER_PER_PDN" using assms(5,6) by simp
  from bearer_delete [OF assms(1-4) n _ assms(9,10)] assms(5,7) obtain s' as' where
    d: "Qa_Bearer_Delete s bearer_id ct = Inr (eAMP_RET_SUCCESS, s')" "qa_ok s' (ass[ct := as'])"
      "u8NumDedicatedBearers (gsQa_lte s' ! ct) = u8NumDedicatedBearers ?pd - 1"
      "tDedicatedBearer (gsQa_lte s' ! ct) = (tDedicatedBearer ?pd)[i := zero_tft]"
      "tDefaultBearer (gsQa_lte s' ! ct) = tDefaultBearer ?pd" by auto
  have ld: "length (tDedicatedBearer ?pd) = MAX_DEDICATED_BEARER_PER_PDN"
    using qa_ok_pdn [OF assms(1,2)] by (simp add: pdn_ok_def)
  have "unat (u8NumDedicatedBearers ?pd - 1) = n"
    using assms(5) by (simp add: unat_sub_if')
  then have n': "unat (u8NumDedicatedBearers (gsQa_lte s' ! ct)) = n" by (simp add: d(3))
  have "List.find (\<lambda>j. u8EpsBearerId (tDedicatedBearer (gsQa_lte s' ! ct) ! j) = other) [0..<n] = None"
    using assms(6,8,11,14) ld by (auto simp: find_None_iff d(4) nth_list_update zero_tft_def)
  moreover have "length (gsQa_lte s') = MAX_PDNS" using d(2) by (simp add: qa_ok_def)
  ultimately have "Qa_Bearer_Delete s' other ct = Inr (eAMP_RET_FAIL, s')"
    using assms(2,6,11,12) n' ld by (simp add: Qa_Bearer_Delete_def Let_def d(4,5) min_absorb1)
  moreover have "tft_at s' ct (Suc n) = tft_at s ct (Suc n)"
    using assms(8) by (simp add: tft_at_def bearers_def d(4))
  ultimately show ?thesis using d(1) by blast
qed

text \<open>The network of the earlier example with a second dedicated bearer, identifier 7.\<close>

definition two_ded_state :: qa_state where
  "two_ded_state = one_ded_state\<lparr>gsQa_lte := (gsQa_lte one_ded_state)[0 :=
     (gsQa_lte one_ded_state ! 0)\<lparr>u8NumDedicatedBearers := 2,
       tDedicatedBearer := (tDedicatedBearer (gsQa_lte one_ded_state ! 0))[1 :=
         zero_tft\<lparr>u8EpsBearerId := 7, u8NumFilters := 1,
                   tPacketFilters := (replicate 16 None)[0 := Some 3]\<rparr>]\<rparr>]\<rparr>"

lemma two_ded_pdn: "gsQa_lte two_ded_state ! 0 = zero_pdn\<lparr>tClassifierTable := Some 2, u8NumDedicatedBearers := 2,
    tDedicatedBearer :=
      zero_tft\<lparr>u8EpsBearerId := 6, u8NumFilters := 1, tPacketFilters := Some 2 # None # replicate 14 None\<rparr> #
      zero_tft\<lparr>u8EpsBearerId := 7, u8NumFilters := 1, tPacketFilters := Some 3 # None # replicate 14 None\<rparr> #
      replicate 14 zero_tft\<rparr>"
proof -
  have "0 < length (gsQa_lte one_ded_state)" using qa_ok_len [OF one_ded_ok] by (simp add: max_defs)
  then show ?thesis by (simp add: two_ded_state_def one_ded_tables replicate_16)
qed

lemma two_ded_ok: "qa_ok two_ded_state [[2, 3], [], [], [], []]"
proof -
  have h: "qa_heap two_ded_state = qa_heap one_ded_state" by (simp add: two_ded_state_def)
  have g: "gsQa_lte two_ded_state = [gsQa_lte two_ded_state ! 0, zero_pdn, zero_pdn, zero_pdn, zero_pdn]"
    by (simp add: two_ded_state_def one_ded_state_def qa_init_def max_defs eval_nat_numeral)
  have z: "slots_of (replicate m zero_tft) = []" for m by (induction m) (simp_all add: zero_tft_def)
  have "table_ok (qa_heap one_ded_state) (Some 2) [2, 3]"
    using qa_ok_pdn [OF one_ded_ok, of 0] by (simp add: max_defs pdn_ok_def one_ded_tables)
  moreover have "slots_of (bearers (gsQa_lte two_ded_state ! 0)) = [2, 3]"
    unfolding two_ded_pdn using z [of 14] by (simp add: bearers_def zero_pdn_def zero_tft_def)
  ultimately have "pdn_ok (qa_heap one_ded_state) (gsQa_lte two_ded_state ! 0) [2, 3]"
    unfolding pdn_ok_def
    by (simp add: two_ded_pdn bearers_def zero_pdn_def zero_tft_def max_defs ETH_ALEN_def list_all_iff)
  moreover have "finite (dom (qa_heap one_ded_state))" by (simp add: one_ded_state_def)
  ultimately show ?thesis
    unfolding qa_ok_def h by (subst g, subst g) (simp add: zero_pdn_ok max_defs)
qed

theorem Qa_Bearer_Delete_loses_last_bearer_witness:
  "\<exists>s'. Qa_Bearer_Delete two_ded_state 6 0 = Inr (eAMP_RET_SUCCESS, s') \<and>
     tPacketFilters (tft_at s' 0 2) ! 0 = Some 3 \<and>
     Qa_Bearer_Delete s' 7 0 = Inr (eAMP_RET_FAIL, s')"
proof -
  have p: "tft_at two_ded_state 0 (Suc 0) = zero_tft\<lparr>u8EpsBearerId := 6, u8NumFilters := 1,
      tPacketFilters := Some 2 # None # replicate 14 None\<rparr>"
    "tft_at two_ded_state 0 (Suc (Suc 0)) = zero_tft\<lparr>u8EpsBearerId := 7, u8NumFilters := 1,
      tPacketFilters := Some 3 # None # replicate 14 None\<rparr>"
    by (simp_all add: tft_at_def two_ded_pdn bearers_def)
  have x: "0 < MAX_PDNS" "(6 :: u8) \<noteq> 0" "u8EpsBearerId (tDefaultBearer (gsQa_lte two_ded_state ! 0)) \<noteq> 6"
    "unat (u8NumDedicatedBearers (gsQa_lte two_ded_state ! 0)) = Suc 1" "Suc 1 \<le> MAX_DEDICATED_BEARER_PER_PDN"
    "List.find (\<lambda>i. u8EpsBearerId (tDedicatedBearer (gsQa_lte two_ded_state ! 0) ! i) = 6) [0..<Suc 1] = Some 0"
    unfolding two_ded_pdn by (simp_all add: max_defs zero_pdn_def zero_tft_def)
  have y: "(7 :: u8) \<noteq> 0" "7 \<noteq> u8EpsBearerId (tDefaultBearer (gsQa_lte two_ded_state ! 0))"
    "u8EpsBearerId (tDedicatedBearer (gsQa_lte two_ded_state ! 0) ! 1) = 7"
    "\<forall>j < 1. u8EpsBearerId (tDedicatedBearer (gsQa_lte two_ded_state ! 0) ! j) \<noteq> 7"
    unfolding two_ded_pdn by (simp_all add: zero_pdn_def zero_tft_def)
  have "3 \<in> set ([[2, 3], [], [], [], []] ! 0 :: nat list)"
    "3 \<notin> set (addrs_of (tPacketFilters (tft_at two_ded_state 0 (Suc 0))))" by (simp_all add: p)
  from Qa_Bearer_Delete_loses_last_bearer [OF two_ded_ok x _ this y] p show ?thesis by (auto simp: numeral_2_eq_2)
qed

text \<open>
  Deleting a filter of the default bearer clears the entry of the dedicated bearer at
  the passed index instead of the deleted one. When that slot is empty, as in a network
  without dedicated bearers, the clearing dereferences NULL.
\<close>

theorem Qa_Delete_Filter_default_null:
  assumes "qa_ok s ass" and "ct < MAX_PDNS" and "bidx < MAX_DEDICATED_BEARER_PER_PDN"
    and "tPacketFilters (tft_at s ct 0) ! 0 = Some t" and "pfid (the (qa_heap s t)) \<in> set (take (unat n) (rcv_PfidList r))"
    and "tPacketFilters (tft_at s ct (Suc bidx)) ! 0 = None"
  shows "Qa_Delete_Filter km s r bidx n ct 1 = Inl NullDeref"
proof -
  let ?pd = "gsQa_lte s ! ct" and ?h = "qa_heap s"
  let ?ids = "take (unat n) (rcv_PfidList r)"
  note len = qa_ok_len [OF assms(1)]
  have pd: "pdn_ok ?h ?pd (ass ! ct)" using qa_ok_pdn [OF assms(1,2)] .
  have b: "bidx < length (tDedicatedBearer ?pd)" using pd assms(3) by (simp add: pdn_ok_def)
  have ne: "?ids \<noteq> []" using assms(5) by force
  have l0: "0 < length (tPacketFilters (bearers ?pd ! k))" if "k < length (bearers ?pd)" for k
    using pdn_ok_slots_len [OF pd that] by (simp add: max_defs)
  have l: "tPacketFilters (tDefaultBearer ?pd) \<noteq> []" "tPacketFilters (tDedicatedBearer ?pd ! bidx) \<noteq> []"
    using l0 [of 0] l0 [of "Suc bidx"] b by (simp_all add: bearers_def)
  have tft: "tft_at s ct 0 = tDefaultBearer ?pd" "tft_at s ct (Suc bidx) = tDedicatedBearer ?pd ! bidx"
    by (simp_all add: tft_at_def bearers_def)
  have "Some t \<in> set (tPacketFilters (bearers ?pd ! 0))"
    using l(1) assms(4) tft by (cases "tPacketFilters (tDefaultBearer ?pd)") (simp_all add: bearers_def)
  then have tin: "t \<in> set (ass ! ct)" using pdn_ok_slot [OF pd, of 0 t] by simp
  obtain e where e: "?h t = Some e" using qa_ok_used [OF assms(1,2) tin] by auto
  have "table_ok ?h (tClassifierTable ?pd) (ass ! ct)" using pd by (simp add: pdn_ok_def)
  from table_unlink_free [OF this tin, of True] obtain h1 tab where
    u: "qa_unlink True ?h (tClassifierTable ?pd) (Some t) = Inr (h1, tab)" by auto
  have "qa_delete_slot km s ?ids bidx ct 1 0 = Inl NullDeref"
    using assms(2,4,5,6) len l b ne e u tft by (simp add: qa_delete_slot_def get_tft_def)
  moreover have "[0..<MAX_FILTERS_PER_TFT] = 0 # [1..<MAX_FILTERS_PER_TFT]" by (simp add: max_defs upt_rec)
  ultimately show ?thesis by (simp add: Qa_Delete_Filter_def)
qed

theorem Qa_Delete_Filter_default_null_witness:
  "Qa_Delete_Filter next_addr
     (one_ded_state\<lparr>gsQa_lte := (gsQa_lte qa_init)[0 := zero_pdn\<lparr>tClassifierTable := Some 2,
        tDefaultBearer := zero_tft\<lparr>tPacketFilters := Some 2 # replicate 15 None\<rparr>\<rparr>]\<rparr>)
     (zero_tft_recvd\<lparr>rcv_PfidList := 3 # replicate 15 0\<rparr>) 0 1 0 1 = Inl NullDeref"
proof -
  let ?pd = "zero_pdn\<lparr>tClassifierTable := Some 2,
        tDefaultBearer := zero_tft\<lparr>tPacketFilters := Some 2 # replicate 15 None\<rparr>\<rparr>"
  let ?s = "one_ded_state\<lparr>gsQa_lte := (gsQa_lte qa_init)[0 := ?pd]\<rparr>"
  have z: "slots_of (replicate m zero_tft) = []" for m by (induction m) (simp_all add: zero_tft_def)
  have tab: "table_ok (qa_heap one_ded_state) (Some 2) [2, 3]"
    using qa_ok_pdn [OF one_ded_ok, of 0] by (simp add: max_defs pdn_ok_def one_ded_tables)
  have "pdn_ok (qa_heap one_ded_state) ?pd [2, 3]"
    using tab z [of 16] by (simp add: pdn_ok_def bearers_def zero_pdn_def max_defs ETH_ALEN_def list_all_iff zero_tft_def)
  moreover have g: "gsQa_lte ?s = [?pd, zero_pdn, zero_pdn, zero_pdn, zero_pdn]"
    by (simp add: qa_init_def max_defs eval_nat_numeral)
  moreover have "finite (dom (qa_heap one_ded_state))" by (simp add: one_ded_state_def)
  ultimately have ok: "qa_ok ?s [[2, 3], [], [], [], []]"
    unfolding qa_ok_def by (simp add: zero_pdn_ok max_defs)
  have t: "tft_at ?s 0 0 = zero_tft\<lparr>tPacketFilters := Some 2 # replicate 15 None\<rparr>" "tft_at ?s 0 (Suc 0) = zero_tft"
    unfolding tft_at_def g by (simp_all add: bearers_def zero_pdn_def max_defs)
  show ?thesis
    by (rule Qa_Delete_Filter_default_null [OF ok, of 0 0 2])
       (simp_all only: t, simp_all add: max_defs zero_tft_def one_ded_state_def)
qed

end
