(* ===== verification/QaReplace.thy ===== *)
theory QaReplace
  imports QaDelete
begin

text \<open>
  Replacing filters, \<open>Qa_Replace_Filters\<close>: a replacement of one filter whose new
  precedence differs from that of the head of the remaining table is removal followed by
  sorted insertion. The other two theorems show what the code does outside that case: a
  filter of equal precedence is dropped from the table, and a message with an unknown
  identifier makes the table cyclic, so that the operation never returns.
\<close>

section \<open>Relinking an entry\<close>

definition relink_ok :: "heap \<Rightarrow> addr list \<Rightarrow> u8 \<Rightarrow> bool" where
  "relink_ok h as pr \<longleftrightarrow> (case as of [] \<Rightarrow> True | a # _ \<Rightarrow> prec (the (h a)) \<noteq> pr)"

lemma qa_relink_splice:
  assumes dl: "dlist h tab as" and t: "h t = Some e" "t \<notin> set as" and ok: "relink_ok h as pr"
  defines "xs \<equiv> takeWhile (\<lambda>a. prec (the (h a)) < pr) as"
    and "ys \<equiv> dropWhile (\<lambda>a. prec (the (h a)) < pr) as"
  shows "qa_relink h tab (Some t) pr =
     Inr (splice_heap h (lastp None xs) t (firstp ys None) (tPacketFilter e),
          if xs = [] then Some t else tab)"
proof -
  have w: "qa_walk (\<lambda>e. prec e < pr) h None tab = Some (Inr (lastp None xs, firstp ys None))"
    using qa_walk_dseg [of h None tab as] dl by (simp add: dlist_def xs_def ys_def)
  have te: "h(t \<mapsto> e\<lparr>tNextPF := n, tPrevPF := q\<rparr>) =
      h(t \<mapsto> \<lparr>tPacketFilter = tPacketFilter e, tNextPF = n, tPrevPF = q\<rparr>)" for n q
    by (cases e) simp
  have mem: "a \<noteq> t" "\<exists>ea. h a = Some ea" if "a \<in> set as" for a using that t dlist_in_heap [OF dl] by auto
  show ?thesis
  proof (cases as)
    case Nil
    with dl have "tab = None" by (simp add: dlist_def)
    with Nil w t(1) show ?thesis
      by (simp add: qa_relink_def splice_heap_def xs_def ys_def te)
  next
    case (Cons a as')
    with dl have tab: "tab = Some a" by (cases "h a") (auto simp: dlist_def)
    obtain ea where ea: "h a = Some ea" "a \<noteq> t" using mem [of a] Cons by auto
    show ?thesis
    proof (cases "pr < prec ea")
      case True
      then have "\<not> prec ea < pr" by simp
      then have e0: "xs = []" "ys = as" using Cons ea by (simp_all add: xs_def ys_def)
      from True Cons tab ea t(1) show ?thesis unfolding e0
        by (simp add: qa_relink_def splice_heap_def Let_def te)
    next
      case False
      with ok Cons ea have lt: "prec ea < pr" by (auto simp: relink_ok_def)
      then have ne: "xs \<noteq> []" using Cons ea by (simp add: xs_def)
      then obtain q where q: "lastp None xs = Some q" "q \<in> set xs" by (auto simp: lastp_def)
      then have "q \<in> set as" by (auto simp: xs_def dest: set_takeWhileD)
      then obtain eq where eq: "h q = Some eq" "q \<noteq> t" using mem by blast
      show ?thesis
      proof (cases ys)
        case Nil
        with False tab ea w q eq ne t(1) show ?thesis
          by (simp add: qa_relink_def splice_heap_def Let_def te)
      next
        case ys: (Cons b zs)
        have "set xs \<inter> set ys = {}" using dl unfolding xs_def ys_def
          by (metis dlist_def distinct_append takeWhile_dropWhile_id)
        then have "b \<noteq> q" using q(2) ys by auto
        moreover have "b \<in> set as" using ys unfolding ys_def by (metis list.set_intros(1) set_dropWhileD)
        moreover from this obtain eb where "h b = Some eb" "b \<noteq> t" using mem by blast
        ultimately show ?thesis using False tab ea w q eq ne t(1) ys
          by (simp add: qa_relink_def splice_heap_def Let_def te)
      qed
    qed
  qed
qed

lemma qa_relink_refines:
  assumes dl: "dlist h tab as" and t: "h t = Some e" "t \<notin> set as" and ok: "relink_ok h as (prec e)"
  shows "\<exists>h' tab' as'. qa_relink h tab (Some t) (prec e) = Inr (h', tab') \<and> dlist h' tab' as' \<and>
     set as' = insert t (set as) \<and>
     filters_of h' as' = ins_filter (tPacketFilter e) (filters_of h as) \<and>
     (\<forall>a. a \<notin> insert t (set as) \<longrightarrow> h' a = h a) \<and> (\<forall>a. h' a = None \<longleftrightarrow> h a = None)"
proof -
  let ?C = "\<lambda>a. prec (the (h a)) < prec e"
  let ?xs = "takeWhile ?C as" and ?ys = "dropWhile ?C as"
  let ?h = "splice_heap h (lastp None ?xs) t (firstp ?ys None) (tPacketFilter e)"
  have dl': "dlist h tab (?xs @ ?ys)" and t': "t \<notin> set (?xs @ ?ys)" using dl t(2) by simp_all
  have "h = h(t \<mapsto> \<lparr>tPacketFilter = tPacketFilter e, tNextPF = tNextPF e, tPrevPF = tPrevPF e\<rparr>)"
    using t(1) by (auto simp: fun_eq_iff)
  with splice_links_only [OF dl' t', of "tPacketFilter e" "tNextPF e" "tPrevPF e"]
  have lo: "links_only h ?h (insert t (set as))" by simp
  have same: "map_option tPacketFilter (?h a) = map_option tPacketFilter (h a)" for a
    by (rule links_only_filter [OF lo])
  have inh: "\<exists>e. h a = Some e" if "a \<in> set (?xs @ t # ?ys)" for a
    using that dlist_in_heap [OF dl] t(1) by (auto dest: set_takeWhileD set_dropWhileD)
  have "filters_of ?h (?xs @ t # ?ys) = filters_of h (?xs @ t # ?ys)"
    by (rule links_only_filters_of [OF lo inh])
  also have "\<dots> = ins_filter (tPacketFilter e) (filters_of h as)"
    using t(1) by (simp add: ins_filter_def filters_of_def takeWhile_map dropWhile_map comp_def)
  finally have "filters_of ?h (?xs @ t # ?ys) = ins_filter (tPacketFilter e) (filters_of h as)" .
  moreover have "set (?xs @ t # ?ys) = insert t (set as)"
    by (metis Un_insert_right list.simps(15) set_append takeWhile_dropWhile_id)
  moreover have "?h a = None \<longleftrightarrow> h a = None" for a using same [of a] by (metis option.map_disc_iff)
  moreover have "\<forall>a. a \<notin> insert t (set as) \<longrightarrow> ?h a = h a" using lo by (auto simp: links_only_def)
  ultimately show ?thesis
    using qa_relink_splice [OF dl t ok] splice_dlist [OF dl' t', of "tPacketFilter e"] by blast
qed

section \<open>Finding the slot\<close>

lemma find_pfid_slot_cong:
  "(\<And>a. Some a \<in> set ps \<Longrightarrow> map_option pfid (h' a) = map_option pfid (h a)) \<Longrightarrow>
     find_pfid_slot h' ps i j = find_pfid_slot h ps i j"
proof (induction ps arbitrary: j)
  case (Cons p ps)
  then have "find_pfid_slot h' ps i k = find_pfid_slot h ps i k" for k by simp
  moreover have "map_option pfid (h' a) = map_option pfid (h a)" if "p = Some a" for a
    using Cons.prems that by simp
  ultimately show ?case
    by (cases p; cases "h' (the p)"; cases "h (the p)") (fastforce simp: deref_def)+
qed simp

lemma find_pfid_slot_Some:
  "find_pfid_slot h ps i j0 = Inr (Some j) \<Longrightarrow>
     \<exists>k t e. j = j0 + k \<and> k < length ps \<and> ps ! k = Some t \<and> h t = Some e \<and> pfid e = i"
proof (induction ps arbitrary: j0)
  case (Cons p ps)
  show ?case
  proof (cases p)
    case None
    with Cons obtain k t e where "j = Suc j0 + k" "k < length ps" "ps ! k = Some t" "h t = Some e" "pfid e = i"
      by fastforce
    then show ?thesis by (intro exI [of _ "Suc k"] exI [of _ t] exI [of _ e]) auto
  next
    case (Some a)
    with Cons.prems obtain e where e: "h a = Some e" by (cases "h a") auto
    show ?thesis
    proof (cases "pfid e = i")
      case True
      with Cons.prems Some e show ?thesis by (intro exI [of _ 0] exI [of _ a] exI [of _ e]) auto
    next
      case False
      with Cons Some e obtain k t e' where "j = Suc j0 + k" "k < length ps" "ps ! k = Some t" "h t = Some e'" "pfid e' = i"
        by fastforce
      then show ?thesis by (intro exI [of _ "Suc k"] exI [of _ t] exI [of _ e']) auto
    qed
  qed
qed simp

section \<open>Replacing one filter\<close>

definition one_filter :: "tPACKET_FILTER \<Rightarrow> tTFT_RECVD \<Rightarrow> bool" where
  "one_filter f r \<longleftrightarrow> rcv_NumFilters r = 1 \<and> recvd_filters r = [f]"

lemma replace_unlinked:
  assumes ok: "qa_ok s ass" and ct: "ct < MAX_PDNS" and k: "bsel bidx dflt \<le> MAX_DEDICATED_BEARER_PER_PDN"
    and f: "one_filter f r"
    and j: "find_pfid_slot (qa_heap s) (tPacketFilters (tft_at s ct (bsel bidx dflt))) (u8PacketFilterIdentifier f) 0 =
            Inr (Some j)"
    and t: "tPacketFilters (tft_at s ct (bsel bidx dflt)) ! j = Some t"
  shows "\<exists>h2 tab s2. s2 = s\<lparr>qa_heap := h2, gsQa_lte := (gsQa_lte s)[ct := (gsQa_lte s ! ct)\<lparr>tClassifierTable := tab\<rparr>]\<rparr> \<and>
     Qa_Replace_Filters s r bidx 1 ct dflt = Qa_Replace_SortTFT s2 r bidx ct dflt \<and>
     find_pfid_slot h2 (tPacketFilters (tft_at s ct (bsel bidx dflt))) (u8PacketFilterIdentifier f) 0 = Inr (Some j) \<and>
     table_ok h2 tab (remove1 t (ass ! ct)) \<and>
     filters_of h2 (remove1 t (ass ! ct)) = filters_of (qa_heap s) (remove1 t (ass ! ct)) \<and>
     h2 t = Some \<lparr>tPacketFilter = f, tNextPF = None, tPrevPF = None\<rparr> \<and> t \<in> set (ass ! ct) \<and>
     (\<forall>a. a \<notin> set (ass ! ct) \<longrightarrow> h2 a = qa_heap s a) \<and> (\<forall>a. h2 a = None \<longleftrightarrow> qa_heap s a = None)"
proof -
  let ?k = "bsel bidx dflt" and ?pd = "gsQa_lte s ! ct" and ?h = "qa_heap s" and ?as = "ass ! ct"
  let ?ps = "tPacketFilters (tft_at s ct ?k)"
  note len = qa_ok_len [OF ok]
  have pd: "pdn_ok ?h ?pd ?as" using qa_ok_pdn [OF ok ct] .
  have kl: "?k < length (bearers ?pd)" using pd k by (simp add: pdn_ok_def)
  have get: "get_tft s ct bidx dflt = Inr (tft_at s ct ?k)"
    using get_tft_bearers [of ct s bidx dflt] kl len ct by (simp add: tft_at_def)
  obtain e where e: "j < length ?ps" "?h t = Some e" "pfid e = u8PacketFilterIdentifier f"
    using find_pfid_slot_Some [OF j] t by auto
  then have "Some t \<in> set (tPacketFilters (bearers ?pd ! ?k))" using t nth_mem unfolding tft_at_def by metis
  then have tin: "t \<in> set ?as" by (rule pdn_ok_slot [OF pd kl])
  have tok: "table_ok ?h (tClassifierTable ?pd) ?as" using pd by (simp add: pdn_ok_def)
  obtain h1 tab where u: "qa_unlink True ?h (tClassifierTable ?pd) (Some t) = Inr (h1, tab)"
    "table_ok (h1(t := None)) tab (remove1 t ?as)"
    "filters_of (h1(t := None)) (remove1 t ?as) = filters_of ?h (remove1 t ?as)"
    "\<forall>a. a \<notin> set ?as \<longrightarrow> h1 a = ?h a" "\<exists>e. h1 t = Some e" "\<forall>a. h1 a = None \<longleftrightarrow> ?h a = None"
    using table_unlink_free [OF tok tin, of True] by auto
  have dl: "dlist ?h (tClassifierTable ?pd) ?as" using tok by (simp add: table_ok_def)
  have keep: "\<forall>a. map_option tPacketFilter (h1 a) = map_option tPacketFilter (?h a)"
    using qa_unlink_free [OF dl tin, of True] u(1) by auto
  let ?E = "\<lparr>tPacketFilter = f, tNextPF = None, tPrevPF = None\<rparr>"
  let ?h2 = "h1(t \<mapsto> ?E)"
  let ?s2 = "s\<lparr>qa_heap := ?h2, gsQa_lte := (gsQa_lte s)[ct := ?pd\<lparr>tClassifierTable := tab\<rparr>]\<rparr>"
  have upd: "e0\<lparr>tNextPF := None, tPrevPF := None, tPacketFilter := f\<rparr> = ?E" for e0 :: tCLASSIFIER_TABLE_ENTRY
    by (cases e0) simp
  have d: "distinct ?as" using dl by (simp add: dlist_def)
  have nt: "t \<notin> set (remove1 t ?as)" using d by simp
  have "filters_of ?h2 (remove1 t ?as) = filters_of (h1(t := None)) (remove1 t ?as)"
    using nt by (auto simp: filters_of_def)
  with u(2,3) nt have "table_ok ?h2 tab (remove1 t ?as)"
    "filters_of ?h2 (remove1 t ?as) = filters_of ?h (remove1 t ?as)"
    by (simp_all add: table_ok_def dlist_def)
  moreover have "find_pfid_slot ?h2 ?ps (u8PacketFilterIdentifier f) 0 = Inr (Some j)"
  proof -
    have "map_option pfid (?h2 a) = map_option pfid (?h a)" for a
    proof (cases "a = t")
      case False
      have "map_option pfid x = map_option u8PacketFilterIdentifier (map_option tPacketFilter x)" for x
        by (simp add: option.map_comp comp_def)
      with False keep show ?thesis by simp
    qed (use e in simp)
    then show ?thesis using find_pfid_slot_cong [of ?ps ?h2 ?h] j by simp
  qed
  moreover have "Qa_Replace_Filters s r bidx 1 ct dflt = Qa_Replace_SortTFT ?s2 r bidx ct dflt"
    using f get j t u(1,5) len ct
    by (auto simp: Qa_Replace_Filters_def Qa_Delete_Filter_Replace_def one_filter_def recvd_filters_def upd)
  moreover have "\<forall>a. a \<notin> set ?as \<longrightarrow> ?h2 a = ?h a" "\<forall>a. ?h2 a = None \<longleftrightarrow> ?h a = None"
    using u(4,6) tin e(2) by auto
  ultimately show ?thesis using tin by (intro exI [of _ ?h2] exI [of _ tab] exI [of _ ?s2]) simp
qed

lemma replace_sort_one:
  assumes ct: "ct < length (gsQa_lte s)" and f: "one_filter f r"
    and get: "get_tft s ct bidx dflt = Inr tft"
    and j: "find_pfid_slot (qa_heap s) (tPacketFilters tft) (u8PacketFilterIdentifier f) 0 = Inr (Some j)"
    and t: "tPacketFilters tft ! j = Some t"
    and rl: "qa_relink (qa_heap s) (tClassifierTable (gsQa_lte s ! ct)) (Some t) (u8PacketFilterPrecedence f) =
             Inr (h', tab')"
  shows "Qa_Replace_SortTFT s r bidx ct dflt = Inr (eAMP_RET_SUCCESS,
     s\<lparr>qa_heap := h', gsQa_lte := (gsQa_lte s)[ct := (gsQa_lte s ! ct)\<lparr>tClassifierTable := tab'\<rparr>]\<rparr>)"
  using assms unfolding Qa_Replace_SortTFT_def one_filter_def recvd_filters_def [symmetric]
  by (simp add: Let_def)

lemma pdn_ok_new_table:
  "pdn_ok h pd as \<Longrightarrow> table_ok h' tab as' \<Longrightarrow> set as \<subseteq> set as' \<Longrightarrow> pdn_ok h' (pd\<lparr>tClassifierTable := tab\<rparr>) as'"
  by (auto simp: pdn_ok_def)

text \<open>A message that replaces the filter with identifier 3 by one of precedence \<open>pr\<close>.\<close>

definition replace_msg :: "u8 \<Rightarrow> tTFT_RECVD" where
  "replace_msg pr = zero_tft_recvd\<lparr>rcv_NumFilters := 1, rcv_PacketFilters := (rcv_PacketFilters zero_tft_recvd)
     [0 := zero_filter\<lparr>u8PacketFilterIdentifier := 3, u8PacketFilterPrecedence := pr\<rparr>]\<rparr>"

lemma replace_msg_ok:
  "0 < MAX_PDNS" "bsel 0 0 \<le> MAX_DEDICATED_BEARER_PER_PDN"
  "one_filter (zero_filter\<lparr>u8PacketFilterIdentifier := 3, u8PacketFilterPrecedence := pr\<rparr>) (replace_msg pr)"
  "find_pfid_slot (qa_heap one_ded_state) (tPacketFilters (tft_at one_ded_state 0 (bsel 0 0)))
     (u8PacketFilterIdentifier (zero_filter\<lparr>u8PacketFilterIdentifier := 3, u8PacketFilterPrecedence := pr\<rparr>)) 0 =
     Inr (Some 0)"
  "tPacketFilters (tft_at one_ded_state 0 (bsel 0 0)) ! 0 = Some 2"
proof -
  have p: "tPacketFilters (tft_at one_ded_state 0 (bsel 0 0)) = Some 2 # None # replicate 14 None"
    using one_ded_slots by (simp add: bsel_def)
  show "find_pfid_slot (qa_heap one_ded_state) (tPacketFilters (tft_at one_ded_state 0 (bsel 0 0)))
     (u8PacketFilterIdentifier (zero_filter\<lparr>u8PacketFilterIdentifier := 3, u8PacketFilterPrecedence := pr\<rparr>)) 0 =
     Inr (Some 0)" "tPacketFilters (tft_at one_ded_state 0 (bsel 0 0)) ! 0 = Some 2"
    unfolding p by (simp_all add: one_ded_state_def)
qed (simp_all add: max_defs bsel_def one_filter_def replace_msg_def recvd_filters_def zero_tft_recvd_def replicate_16)

text \<open>
  Replacing one filter of a bearer by a filter of the same identifier, when the new
  precedence is not that of the head of the remaining table: the operation succeeds, the
  table of the network becomes the sorted insertion of the new filter into the table
  without the old one, the same entries stay allocated and the invariant is kept.
\<close>

theorem Qa_Replace_Filters_one:
  assumes "qa_ok s ass" and "ct < MAX_PDNS" and "bsel bidx dflt \<le> MAX_DEDICATED_BEARER_PER_PDN"
    and "one_filter f r"
    and "find_pfid_slot (qa_heap s) (tPacketFilters (tft_at s ct (bsel bidx dflt))) (u8PacketFilterIdentifier f) 0 =
            Inr (Some j)"
    and "tPacketFilters (tft_at s ct (bsel bidx dflt)) ! j = Some t"
    and "relink_ok (qa_heap s) (remove1 t (ass ! ct)) (u8PacketFilterPrecedence f)"
  shows "\<exists>s' as'. Qa_Replace_Filters s r bidx 1 ct dflt = Inr (eAMP_RET_SUCCESS, s') \<and>
     qa_ok s' (ass[ct := as']) \<and> set as' = set (ass ! ct) \<and>
     tables s' (ass[ct := as']) =
       (tables s ass)[ct := ins_filter f (filters_of (qa_heap s) (remove1 t (ass ! ct)))]"
proof -
  let ?pd = "gsQa_lte s ! ct" and ?as = "ass ! ct" and ?k = "bsel bidx dflt"
  note len = qa_ok_len [OF assms(1)]
  have pd: "pdn_ok (qa_heap s) ?pd ?as" using qa_ok_pdn [OF assms(1,2)] .
  then have kl: "?k < length (bearers ?pd)" using assms(3) by (simp add: pdn_ok_def)
  from replace_unlinked [OF assms(1-6)] obtain h2 tab s2 where
    s2: "s2 = s\<lparr>qa_heap := h2, gsQa_lte := (gsQa_lte s)[ct := ?pd\<lparr>tClassifierTable := tab\<rparr>]\<rparr>"
    and r: "Qa_Replace_Filters s r bidx 1 ct dflt = Qa_Replace_SortTFT s2 r bidx ct dflt"
    and j2: "find_pfid_slot h2 (tPacketFilters (tft_at s ct ?k)) (u8PacketFilterIdentifier f) 0 = Inr (Some j)"
    and tok: "table_ok h2 tab (remove1 t ?as)"
    and fs: "filters_of h2 (remove1 t ?as) = filters_of (qa_heap s) (remove1 t ?as)"
    and t2: "h2 t = Some \<lparr>tPacketFilter = f, tNextPF = None, tPrevPF = None\<rparr>" and tin: "t \<in> set ?as"
    and fr: "\<forall>a. a \<notin> set ?as \<longrightarrow> h2 a = qa_heap s a" "\<forall>a. h2 a = None \<longleftrightarrow> qa_heap s a = None"
    by blast
  have d: "distinct ?as" using pd by (simp add: pdn_ok_def table_ok_def dlist_def)
  have nt: "t \<notin> set (remove1 t ?as)" "insert t (set (remove1 t ?as)) = set ?as" using d tin by auto
  have "relink_ok h2 (remove1 t ?as) (u8PacketFilterPrecedence f)"
    using assms(7) filters_of_pointwise [OF fs] by (cases "remove1 t ?as") (simp_all add: relink_ok_def)
  then obtain h3 tab3 as3 where
    q: "qa_relink h2 tab (Some t) (u8PacketFilterPrecedence f) = Inr (h3, tab3)" "dlist h3 tab3 as3"
      "set as3 = set ?as" "filters_of h3 as3 = ins_filter f (filters_of (qa_heap s) (remove1 t ?as))"
      "\<forall>a. a \<notin> set ?as \<longrightarrow> h3 a = h2 a" "\<forall>a. h3 a = None \<longleftrightarrow> h2 a = None"
    using qa_relink_refines [of h2 tab "remove1 t ?as" t, OF _ t2 nt(1)] tok fs nt(2)
    by (auto simp: table_ok_def)
  let ?s3 = "s\<lparr>qa_heap := h3, gsQa_lte := (gsQa_lte s)[ct := ?pd\<lparr>tClassifierTable := tab3\<rparr>]\<rparr>"
  have get: "get_tft s2 ct bidx dflt = Inr (tft_at s ct ?k)"
    using get_tft_bearers [of ct s2 bidx dflt] kl len assms(2) by (simp add: s2 tft_at_def)
  have run: "Qa_Replace_Filters s r bidx 1 ct dflt = Inr (eAMP_RET_SUCCESS, ?s3)"
    using replace_sort_one [OF _ assms(4) get _ assms(6), of h3 tab3] j2 q(1) r len assms(2)
    by (simp add: s2)
  have "sorted_filters (filters_of h2 (remove1 t ?as))" using tok by (simp add: table_ok_def)
  then have "table_ok h3 tab3 as3" using q(2,4) fs sorted_ins_filter by (simp add: table_ok_def)
  then have ok3: "pdn_ok h3 (?pd\<lparr>tClassifierTable := tab3\<rparr>) as3"
    using pdn_ok_new_table [OF pd] q(3) by blast
  have "qa_ok ?s3 (ass[ct := as3]) \<and> tables ?s3 (ass[ct := as3]) = (tables s ass)[ct := filters_of h3 as3]"
    by (rule qa_ok_shrink [OF assms(1,2) ok3]) (use q(3,5,6) fr in auto)
  with run q(3,4) show ?thesis by auto
qed

theorem Qa_Replace_Filters_one_witness:
  "\<exists>s' as'. Qa_Replace_Filters one_ded_state (replace_msg 20) 0 1 0 0 = Inr (eAMP_RET_SUCCESS, s') \<and>
     qa_ok s' ([[2, 3], [], [], [], []][0 := as']) \<and>
     map u8PacketFilterPrecedence (filters_of (qa_heap s') as') = [20, 255]"
proof -
  let ?f = "zero_filter\<lparr>u8PacketFilterIdentifier := 3, u8PacketFilterPrecedence := 20\<rparr>"
  have rl: "relink_ok (qa_heap one_ded_state) (remove1 2 ([[2, 3], [], [], [], []] ! 0)) (u8PacketFilterPrecedence ?f)"
    by (simp add: relink_ok_def one_ded_state_def)
  from Qa_Replace_Filters_one [OF one_ded_ok replace_msg_ok(1,2,3) replace_msg_ok(4,5) rl] obtain s' as' where
    r: "Qa_Replace_Filters one_ded_state (replace_msg 20) 0 1 0 0 = Inr (eAMP_RET_SUCCESS, s')"
      "qa_ok s' ([[2, 3], [], [], [], []][0 := as'])"
      "tables s' ([[2, 3], [], [], [], []][0 := as']) = (tables one_ded_state [[2, 3], [], [], [], []])[0 :=
         ins_filter ?f (filters_of (qa_heap one_ded_state) (remove1 2 ([[2, 3], [], [], [], []] ! 0)))]"
    by blast
  have "filters_of (qa_heap s') as' = [?f, zero_filter\<lparr>u8PacketFilterPrecedence := 255\<rparr>]"
    using r(3) by (simp add: tables_def filters_of_def ins_filter_def one_ded_state_def)
  with r(1,2) show ?thesis by (intro exI [of _ s'] exI [of _ as']) simp
qed

text \<open>
  When the new precedence equals that of the head of the remaining table, the code
  links the entry nowhere: the operation reports success, the table lacks the filter and
  the bearer still records it.
\<close>

theorem Qa_Replace_Filters_equal_precedence_lost:
  assumes "qa_ok s ass" and "ct < MAX_PDNS" and "bsel bidx dflt \<le> MAX_DEDICATED_BEARER_PER_PDN"
    and "one_filter f r"
    and "find_pfid_slot (qa_heap s) (tPacketFilters (tft_at s ct (bsel bidx dflt))) (u8PacketFilterIdentifier f) 0 =
            Inr (Some j)"
    and "tPacketFilters (tft_at s ct (bsel bidx dflt)) ! j = Some t"
    and "\<not> relink_ok (qa_heap s) (remove1 t (ass ! ct)) (u8PacketFilterPrecedence f)"
  shows "\<exists>s'. Qa_Replace_Filters s r bidx 1 ct dflt = Inr (eAMP_RET_SUCCESS, s') \<and>
     table_ok (qa_heap s') (tClassifierTable (gsQa_lte s' ! ct)) (remove1 t (ass ! ct)) \<and>
     filters_of (qa_heap s') (remove1 t (ass ! ct)) = filters_of (qa_heap s) (remove1 t (ass ! ct)) \<and>
     tPacketFilters (tft_at s' ct (bsel bidx dflt)) ! j = Some t \<and> t \<notin> set (remove1 t (ass ! ct))"
proof -
  let ?pd = "gsQa_lte s ! ct" and ?as = "ass ! ct" and ?k = "bsel bidx dflt"
  note len = qa_ok_len [OF assms(1)]
  have pd: "pdn_ok (qa_heap s) ?pd ?as" using qa_ok_pdn [OF assms(1,2)] .
  then have kl: "?k < length (bearers ?pd)" using assms(3) by (simp add: pdn_ok_def)
  from replace_unlinked [OF assms(1-6)] obtain h2 tab s2 where
    s2: "s2 = s\<lparr>qa_heap := h2, gsQa_lte := (gsQa_lte s)[ct := ?pd\<lparr>tClassifierTable := tab\<rparr>]\<rparr>"
    and r: "Qa_Replace_Filters s r bidx 1 ct dflt = Qa_Replace_SortTFT s2 r bidx ct dflt"
    and j2: "find_pfid_slot h2 (tPacketFilters (tft_at s ct ?k)) (u8PacketFilterIdentifier f) 0 = Inr (Some j)"
    and tok: "table_ok h2 tab (remove1 t ?as)"
    and fs: "filters_of h2 (remove1 t ?as) = filters_of (qa_heap s) (remove1 t ?as)"
    by blast
  obtain a as' where a: "remove1 t ?as = a # as'" "prec (the (qa_heap s a)) = u8PacketFilterPrecedence f"
    using assms(7) by (auto simp: relink_ok_def split: list.splits)
  obtain e where e: "h2 a = Some e" "tab = Some a" using tok a(1)
    by (auto simp: table_ok_def dlist_def split: option.splits)
  then have "prec e = u8PacketFilterPrecedence f" using filters_of_pointwise [OF fs, of a] a by simp
  then have rl: "qa_relink h2 tab (Some t) (u8PacketFilterPrecedence f) = Inr (h2, tab)"
    using e by (simp add: qa_relink_def qa_walk.simps)
  have get: "get_tft s2 ct bidx dflt = Inr (tft_at s ct ?k)"
    using get_tft_bearers [of ct s2 bidx dflt] kl len assms(2) by (simp add: s2 tft_at_def)
  have "Qa_Replace_Filters s r bidx 1 ct dflt = Inr (eAMP_RET_SUCCESS, s2)"
    using replace_sort_one [OF _ assms(4) get _ assms(6), of h2 tab] j2 rl r len assms(2) by (simp add: s2)
  moreover have "t \<notin> set (remove1 t ?as)"
    using pd by (simp add: pdn_ok_def table_ok_def dlist_def)
  ultimately show ?thesis using tok fs assms(2,6) len by (intro exI [of _ s2]) (simp add: s2 tft_at_def)
qed

theorem Qa_Replace_Filters_equal_precedence_lost_witness:
  "\<exists>s'. Qa_Replace_Filters one_ded_state (replace_msg 255) 0 1 0 0 = Inr (eAMP_RET_SUCCESS, s') \<and>
     table_ok (qa_heap s') (tClassifierTable (gsQa_lte s' ! 0)) [3] \<and>
     tPacketFilters (tft_at s' 0 1) ! 0 = Some 2"
proof -
  have rl: "\<not> relink_ok (qa_heap one_ded_state) (remove1 2 ([[2, 3], [], [], [], []] ! 0))
      (u8PacketFilterPrecedence (zero_filter\<lparr>u8PacketFilterIdentifier := 3, u8PacketFilterPrecedence := 255\<rparr>))"
    by (simp add: relink_ok_def one_ded_state_def)
  from Qa_Replace_Filters_equal_precedence_lost [OF one_ded_ok replace_msg_ok(1,2,3) replace_msg_ok(4,5) rl]
  show ?thesis by (auto simp: bsel_def)
qed

section \<open>A message with an unknown identifier\<close>

lemma qa_walk_self_loop:
  assumes "h a = Some e" "tNextPF e = Some a" "c e"
  shows "qa_walk c h q (Some a) = None"
proof -
  let ?P = "\<lambda>c' h' q' p' r'. \<not> (c' = c \<and> h' = h \<and> p' = Some a)"
  have "?P c' h' q' p' r" if "qa_walk c' h' q' p' = Some r" for c' h' q' p' r
    using that
    by (rule qa_walk.raw_induct [where P = ?P, rotated])
       (use assms in \<open>fastforce split: option.splits if_splits\<close>)
  then show ?thesis by (cases "qa_walk c h q (Some a)") blast+
qed

definition unknown_id_msg :: tTFT_RECVD where
  "unknown_id_msg = zero_tft_recvd\<lparr>rcv_NumFilters := 2, rcv_PacketFilters := (rcv_PacketFilters zero_tft_recvd)
     [0 := zero_filter\<lparr>u8PacketFilterIdentifier := 3, u8PacketFilterPrecedence := 100\<rparr>,
      1 := zero_filter\<lparr>u8PacketFilterIdentifier := 9, u8PacketFilterPrecedence := 100\<rparr>]\<rparr>"

text \<open>
  The result of the identifier check is ignored. An example of what can follow, on one
  well-formed state and one message: the second filter has an identifier the bearer does not
  record; an entry that is still in the table is relinked, which makes the table cyclic, and
  the search for the place of the second filter never ends.
\<close>

theorem Qa_Replace_Filters_unknown_id_diverges:
  "qa_ok one_ded_state [[2, 3], [], [], [], []] \<and>
   Qa_Replace_Filters one_ded_state unknown_id_msg 0 2 0 0 = Inl Diverges"
proof -
  let ?h = "qa_heap one_ded_state" and ?pd = "gsQa_lte one_ded_state ! 0"
  let ?f = "zero_filter\<lparr>u8PacketFilterIdentifier := 3, u8PacketFilterPrecedence := 100\<rparr>"
    and ?g = "zero_filter\<lparr>u8PacketFilterIdentifier := 9, u8PacketFilterPrecedence := 100\<rparr>"
  let ?e2 = "\<lparr>tPacketFilter = zero_filter\<lparr>u8PacketFilterIdentifier := 3\<rparr>, tNextPF = Some 2, tPrevPF = Some 2\<rparr>"
  let ?e3 = "\<lparr>tPacketFilter = zero_filter\<lparr>u8PacketFilterPrecedence := 255\<rparr>, tNextPF = None, tPrevPF = Some 2\<rparr>"
  let ?h1 = "?h(2 \<mapsto> ?e2, 3 \<mapsto> ?e3)"
  have fs: "take (unat (rcv_NumFilters unknown_id_msg)) (rcv_PacketFilters unknown_id_msg) = [?f, ?g]"
    "take 2 (rcv_PacketFilters unknown_id_msg) = [?f, ?g]"
    by (simp_all add: unknown_id_msg_def zero_tft_recvd_def max_defs replicate_16)
  have l: "0 < length (gsQa_lte one_ded_state)" using qa_ok_len [OF one_ded_ok] by (simp add: max_defs)
  have slots: "tPacketFilters (tDedicatedBearer ?pd ! 0) = Some 2 # None # replicate 14 None"
    by (simp add: one_ded_tables replicate_16)
  have ded: "tDedicatedBearer ?pd \<noteq> []" by (simp add: one_ded_tables replicate_16)
  have nul: "find_pfid_slot h (replicate m None) i k = Inr None" for h m i k by (induction m arbitrary: k) simp_all
  have find: "find_pfid_slot ?h (Some 2 # None # replicate 14 None) 3 0 = Inr (Some 0)"
    "find_pfid_slot ?h (Some 2 # None # replicate 14 None) 9 0 = Inr None"
    "find_pfid_slot ?h1 (Some 2 # None # replicate 14 None) 9 0 = Inr None"
    by (simp_all add: one_ded_state_def nul)
  have w: "qa_walk (\<lambda>e. prec e < 100) ?h None (Some 2) = Some (Inr (Some 2, Some 3))"
    by (subst qa_walk.simps, subst qa_walk.simps) (simp add: one_ded_state_def zero_filter_def)
  have r1: "qa_relink ?h (Some 2) (Some 2) 100 = Inr (?h1, Some 2)"
    using w by (simp add: qa_relink_def one_ded_state_def zero_filter_def)
  have "qa_walk (\<lambda>e. prec e < 100) ?h1 None (Some 2) = None"
    by (rule qa_walk_self_loop [where e = ?e2]) (simp_all add: zero_filter_def)
  then have r2: "qa_relink ?h1 (Some 2) (Some 2) 100 = Inl Diverges"
    by (simp add: qa_relink_def returned_def zero_filter_def)
  have tab: "tClassifierTable ?pd = Some 2" by (simp add: one_ded_tables)
  have chk: "Qa_Delete_Filter_Replace one_ded_state unknown_id_msg 0 2 0 False 0 = Inr (eAMP_RET_FAIL, one_ded_state)"
    using l ded by (simp add: Qa_Delete_Filter_Replace_def fs get_tft_def slots find del: find_pfid_slot.simps)
  have "Qa_Replace_SortTFT one_ded_state unknown_id_msg 0 0 0 = Inl Diverges"
    using l ded by (simp add: Qa_Replace_SortTFT_def fs get_tft_def slots find r1 r2 tab Let_def del: find_pfid_slot.simps)
  with chk one_ded_ok show ?thesis by (simp add: Qa_Replace_Filters_def)
qed

end
