(* ===== verification/QaParse.thy ===== *)
theory QaParse
  imports QaTypes
begin

text \<open>
  The byte-level parsers of the QoS agent: packet filter lists
  (\<open>Qa_BearerMod_Process_Filter\<close>), lists of filter identifiers
  (\<open>Qa_BearerMod_Process_Filter_Del\<close>) and bearer QoS
  (\<open>Qa_BearerMod_Process_QOS\<close>), with an encoder for the wire format and the round trip
  of the filter parser on encoded messages.

  The data argument is what the C pointer can read: the bytes from the pointer to the end
  of the message buffer. A read behind them is an \<open>OutOfBounds\<close> fault, and so is a
  filter beyond the 16 of \<open>tft_recvd\<close>, where the C code writes behind the array.
\<close>

section \<open>Component types on the wire\<close>

definition IPV4_SOURCE_ADDRESS_TYPE :: u8 where "IPV4_SOURCE_ADDRESS_TYPE = 0x10"
definition IPV6_SOURCE_ADDRESS_TYPE :: u8 where "IPV6_SOURCE_ADDRESS_TYPE = 0x20"
definition PROTOCOL_IDENTIFIER_TYPE :: u8 where "PROTOCOL_IDENTIFIER_TYPE = 0x30"
definition SINGLE_SOURCE_PORT_TYPE :: u8 where "SINGLE_SOURCE_PORT_TYPE = 0x40"
definition SOURCE_PORT_RANGE_TYPE :: u8 where "SOURCE_PORT_RANGE_TYPE = 0x41"
definition SINGLE_DESTINATION_PORT_TYPE :: u8 where "SINGLE_DESTINATION_PORT_TYPE = 0x50"
definition DESTINATION_PORT_RANGE_TYPE :: u8 where "DESTINATION_PORT_RANGE_TYPE = 0x51"
definition SECURITY_PARAMETER_INDEX_TYPE :: u8 where "SECURITY_PARAMETER_INDEX_TYPE = 0x60"
definition TYPE_OF_SERVICE_TYPE :: u8 where "TYPE_OF_SERVICE_TYPE = 0x70"
definition TRAFFIC_CLASS_TYPE :: u8 where "TRAFFIC_CLASS_TYPE = 0x71"
definition FLOW_LABEL_TYPE :: u8 where "FLOW_LABEL_TYPE = 0x80"

lemmas wire_type_defs =
  IPV4_SOURCE_ADDRESS_TYPE_def IPV6_SOURCE_ADDRESS_TYPE_def PROTOCOL_IDENTIFIER_TYPE_def
  SINGLE_SOURCE_PORT_TYPE_def SOURCE_PORT_RANGE_TYPE_def SINGLE_DESTINATION_PORT_TYPE_def
  DESTINATION_PORT_RANGE_TYPE_def SECURITY_PARAMETER_INDEX_TYPE_def TYPE_OF_SERVICE_TYPE_def
  TRAFFIC_CLASS_TYPE_def FLOW_LABEL_TYPE_def

section \<open>The filter parser\<close>

text \<open>
  The payload bytes each case of the \<open>switch\<close> reads, which is also what it subtracts
  from the remaining length. An unknown type reads none.
\<close>

definition component_size :: "u8 \<Rightarrow> nat" where
  "component_size ty =
     (if ty = IPV4_SOURCE_ADDRESS_TYPE then 8
      else if ty = IPV6_SOURCE_ADDRESS_TYPE then 32
      else if ty = PROTOCOL_IDENTIFIER_TYPE then 1
      else if ty = SINGLE_SOURCE_PORT_TYPE then 2
      else if ty = SINGLE_DESTINATION_PORT_TYPE then 2
      else if ty = DESTINATION_PORT_RANGE_TYPE then 4
      else if ty = SOURCE_PORT_RANGE_TYPE then 4
      else if ty = SECURITY_PARAMETER_INDEX_TYPE then 4
      else if ty = TYPE_OF_SERVICE_TYPE then 2
      else if ty = TRAFFIC_CLASS_TYPE then 2
      else if ty = FLOW_LABEL_TYPE then 3
      else 0)"

definition cat16 :: "u16 \<Rightarrow> u8 \<Rightarrow> u16" where
  "cat16 x b = push_bit 8 x OR ucast b"

definition cat32 :: "u32 \<Rightarrow> u8 \<Rightarrow> u32" where
  "cat32 x b = push_bit 8 x OR ucast b"

text \<open>
  The assignments of each case, for a payload \<open>d\<close> of the right size. In the port ranges
  the second entry is built from \<open>sEntry[1].u16Entry1\<close>, one past the one-element array:
  the low half of the count that follows in the packed structure, that of the destination
  ports for the source ports and that of the security parameter index for the
  destination ports.
\<close>

definition set_component :: "u8 \<Rightarrow> u8 list \<Rightarrow> tPACKET_FILTER \<Rightarrow> tPACKET_FILTER" where
  "set_component ty d f =
     (if ty = IPV4_SOURCE_ADDRESS_TYPE then
        f\<lparr>u32ClaMask := u32ClaMask f OR LTE_CLA_RULE_IPV4_DESTINATION_ADDRESS_TYPE,
          sIpv4DestAddrMask_Entry1 := take 4 d, sIpv4DestAddrMask_Entry2 := take 4 (drop 4 d)\<rparr>
      else if ty = IPV6_SOURCE_ADDRESS_TYPE then
        f\<lparr>u32ClaMask := u32ClaMask f OR LTE_CLA_RULE_IPV6_DESTINATION_ADDRESS_TYPE,
          sIpv6DestAddrMask_Entry1 := take 16 d, sIpv6DestAddrMask_Entry2 := take 16 (drop 16 d)\<rparr>
      else if ty = PROTOCOL_IDENTIFIER_TYPE then
        f\<lparr>u32ClaMask := u32ClaMask f OR LTE_CLA_RULE_PROTOCOL_IDENTIFIER_TYPE,
          sIpProt_NumOfEntry := 1, sIpProt_Entry := d ! 0\<rparr>
      else if ty = SINGLE_SOURCE_PORT_TYPE then
        f\<lparr>u32ClaMask := u32ClaMask f OR LTE_CLA_RULE_SINGLE_SOURCE_PORT_TYPE,
          sIpSrcPort_NumOfEntry := 1, sIpSrcPort_Entry1 := cat16 (ucast (d ! 0)) (d ! 1)\<rparr>
      else if ty = SINGLE_DESTINATION_PORT_TYPE then
        f\<lparr>u32ClaMask := u32ClaMask f OR LTE_CLA_RULE_SINGLE_DESTINATION_PORT_TYPE,
          sIpDestPort_NumOfEntry := 1, sIpDestPort_Entry1 := cat16 (ucast (d ! 0)) (d ! 1)\<rparr>
      else if ty = DESTINATION_PORT_RANGE_TYPE then
        f\<lparr>u32ClaMask := u32ClaMask f OR LTE_CLA_RULE_DESTINATION_PORT_RANGE_TYPE,
          sIpDestPort_NumOfEntry := 2, sIpDestPort_Entry1 := cat16 (ucast (d ! 0)) (d ! 1),
          sIpDestPort_Entry2 := cat16 (ucast (sSpi_NumOfEntry f)) (d ! 3)\<rparr>
      else if ty = SOURCE_PORT_RANGE_TYPE then
        f\<lparr>u32ClaMask := u32ClaMask f OR LTE_CLA_RULE_SOURCE_PORT_RANGE_TYPE,
          sIpSrcPort_NumOfEntry := 2, sIpSrcPort_Entry1 := cat16 (ucast (d ! 0)) (d ! 1),
          sIpSrcPort_Entry2 := cat16 (ucast (sIpDestPort_NumOfEntry f)) (d ! 3)\<rparr>
      else if ty = SECURITY_PARAMETER_INDEX_TYPE then
        f\<lparr>u32ClaMask := u32ClaMask f OR LTE_CLA_RULE_SECURITY_PARAMETER_INDEX_TYPE,
          sSpi_NumOfEntry := 1, sSpi_Entry := cat32 (cat32 (cat32 (ucast (d ! 0)) (d ! 1)) (d ! 2)) (d ! 3)\<rparr>
      else if ty = TYPE_OF_SERVICE_TYPE then
        f\<lparr>u32ClaMask := u32ClaMask f OR LTE_CLA_RULE_TYPE_OF_SERVICE_TYPE,
          sDscp_Entry1 := d ! 0, sDscp_Entry2 := d ! 1\<rparr>
      else if ty = TRAFFIC_CLASS_TYPE then
        f\<lparr>u32ClaMask := u32ClaMask f OR LTE_CLA_RULE_TRAFFIC_CLASS_TYPE,
          sDscp_Entry1 := d ! 0, sDscp_Entry2 := d ! 1\<rparr>
      else if ty = FLOW_LABEL_TYPE then
        f\<lparr>u32ClaMask := u32ClaMask f OR LTE_CLA_RULE_FLOW_LABEL_TYPE,
          u8Ipv6FlowLabel := [d ! 2, d ! 1, d ! 0]\<rparr>
      else f)"

text \<open>
  The loop over the components of one filter. The remaining length is a byte, so that a
  component longer than the rest makes it wrap and the loop read on.
\<close>

function parse_contents :: "u8 \<Rightarrow> u8 list \<Rightarrow> tPACKET_FILTER \<Rightarrow> (tPACKET_FILTER \<times> u8 list) res" where
  "parse_contents n bs f =
     (if n = 0 then Inr (f, bs)
      else
        (case bs of
           [] \<Rightarrow> Inl OutOfBounds
         | ty # d \<Rightarrow>
             if length d < component_size ty then Inl OutOfBounds
             else parse_contents (n - 1 - of_nat (component_size ty)) (drop (component_size ty) d)
                    (set_component ty (take (component_size ty) d) f)))"
  by pat_completeness auto
termination
  by (relation "measure (\<lambda>(n, bs, f). length bs)") auto

declare parse_contents.simps [simp del]

text \<open>
  The loop over the filters. \<open>u16ReadIndex_z\<close> and \<open>offsetlen_z\<close> are 16 bits wide; their
  difference is taken in \<open>int\<close>.
\<close>

function parse_filters ::
  "u8 \<Rightarrow> u16 \<Rightarrow> u16 \<Rightarrow> u8 list \<Rightarrow> nat \<Rightarrow> tPACKET_FILTER list \<Rightarrow> (nat \<times> tPACKET_FILTER list) res" where
  "parse_filters bearer offsetlen_z read_index bs num fs =
     (if \<not> unat read_index < unat offsetlen_z then Inr (num, fs)
      else if length fs \<le> num then Inl OutOfBounds
      else
        (case bs of
           b0 # pr # con_len # d \<Rightarrow>
             rbind (parse_contents con_len d
                      ((fs ! num)\<lparr>u8EpsId := bearer, u8Direction := drop_bit 4 (b0 AND 0x30),
                         u8PacketFilterIdentifier := b0 AND 0x0F, u8PacketFilterPrecedence := pr\<rparr>)) (\<lambda>(f, d').
             parse_filters bearer offsetlen_z (read_index + 3 + ucast con_len) d' (Suc num) (fs[num := f]))
         | _ \<Rightarrow> Inl OutOfBounds))"
  by pat_completeness auto
termination
  by (relation "measure (\<lambda>(b, z, r, bs, num, fs). length fs - num)") auto

declare parse_filters.simps [simp del]

text \<open>
  \<open>data\<close> starts behind the TFT operation byte and \<open>offsetlen\<close> counts it. The result is
  the new \<open>tft_recvd\<close> and the number stored through \<open>pnum_pkt_filter\<close>.
\<close>

definition Qa_BearerMod_Process_Filter ::
  "tTFT_RECVD \<Rightarrow> u16 \<Rightarrow> u8 list \<Rightarrow> u8 \<Rightarrow> (amp_ret \<times> tTFT_RECVD \<times> u8) res" where
  "Qa_BearerMod_Process_Filter r offsetlen data bearer_id =
     rbind (parse_filters bearer_id (offsetlen - 1) 0 data 0 (rcv_PacketFilters r)) (\<lambda>(num, fs).
     Inr (eAMP_RET_SUCCESS, r\<lparr>rcv_PacketFilters := fs\<rparr>, of_nat num))"

section \<open>Identifier lists and QoS\<close>

definition Qa_BearerMod_Process_Filter_Del ::
  "tTFT_RECVD \<Rightarrow> u8 list \<Rightarrow> u8 \<Rightarrow> (amp_ret \<times> tTFT_RECVD) res" where
  "Qa_BearerMod_Process_Filter_Del r data num_filters =
     (let n = unat num_filters in
      if n \<le> length data \<and> n \<le> length (rcv_PfidList r)
      then Inr (eAMP_RET_SUCCESS, r\<lparr>rcv_PfidList := take n data @ drop n (rcv_PfidList r)\<rparr>)
      else Inl OutOfBounds)"

text \<open>
  One \<open>if (len >= k) { member = *bearer_mod1; bearer_mod1--; }\<close>; the position is an index
  into the data.
\<close>

definition qos_step ::
  "u8 list \<Rightarrow> u8 \<Rightarrow> u8 \<Rightarrow> (u8 \<Rightarrow> tHIF_QOS \<Rightarrow> tHIF_QOS) \<Rightarrow> tHIF_QOS \<times> nat \<Rightarrow> (tHIF_QOS \<times> nat) res" where
  "qos_step data len k upd qp =
     (if k \<le> len then rbind (arr_get data (snd qp)) (\<lambda>b. Inr (upd b (fst qp), snd qp - 1)) else Inr qp)"

definition Qa_BearerMod_Process_QOS :: "tTFT \<Rightarrow> u8 list \<Rightarrow> (amp_ret \<times> tTFT) res" where
  "Qa_BearerMod_Process_QOS tft data =
     rbind (arr_get data 0) (\<lambda>len.
     rbind (qos_step data len 9 (\<lambda>b q. q\<lparr>uGaurenBitRateDownlnkExt := b\<rparr>) ((tHifQos tft)\<lparr>u8Len := len\<rparr>, unat len)) (\<lambda>q9.
     rbind (qos_step data len 8 (\<lambda>b q. q\<lparr>uGaurenBitRateUplnkExt := b\<rparr>) q9) (\<lambda>q8.
     rbind (qos_step data len 7 (\<lambda>b q. q\<lparr>uMaxBitRateDownlnkExt := b\<rparr>) q8) (\<lambda>q7.
     rbind (qos_step data len 6 (\<lambda>b q. q\<lparr>uMaxBitRateUplnkExt := b\<rparr>) q7) (\<lambda>q6.
     rbind (qos_step data len 5 (\<lambda>b q. q\<lparr>uGaurenBitRateDownlnk := b\<rparr>) q6) (\<lambda>q5.
     rbind (qos_step data len 4 (\<lambda>b q. q\<lparr>uGaurenBitRateUplnk := b\<rparr>) q5) (\<lambda>q4.
     rbind (qos_step data len 3 (\<lambda>b q. q\<lparr>uMaxBitRateDownlnk := b\<rparr>) q4) (\<lambda>q3.
     rbind (qos_step data len 2 (\<lambda>b q. q\<lparr>uMaxBitRateUplnk := b\<rparr>) q3) (\<lambda>q2.
     rbind (qos_step data len 1 (\<lambda>b q. q\<lparr>uQciLabel := b\<rparr>) q2) (\<lambda>q1.
     Inr (eAMP_RET_SUCCESS, tft\<lparr>tHifQos := fst q1\<rparr>)))))))))))"

section \<open>The wire format\<close>

text \<open>
  Filter components as the network sends them, their encoding, and the effect each should
  have on a filter. A port range is a low and a high port.
\<close>

datatype tft_component =
    Ipv4Remote "u8 list" "u8 list" | Ipv6Remote "u8 list" "u8 list" | Protocol u8
  | LocalPort u8 u8 | RemotePort u8 u8 | LocalRange u8 u8 u8 u8 | RemoteRange u8 u8 u8 u8
  | Spi u8 u8 u8 u8 | TypeOfService u8 u8 | TrafficClass u8 u8 | FlowLabel u8 u8 u8

primrec component_wf :: "tft_component \<Rightarrow> bool" where
  "component_wf (Ipv4Remote a m) \<longleftrightarrow> length a = 4 \<and> length m = 4"
| "component_wf (Ipv6Remote a m) \<longleftrightarrow> length a = 16 \<and> length m = 16"
| "component_wf (Protocol p) \<longleftrightarrow> True"
| "component_wf (LocalPort a b) \<longleftrightarrow> True"
| "component_wf (RemotePort a b) \<longleftrightarrow> True"
| "component_wf (LocalRange a b c d) \<longleftrightarrow> False"
| "component_wf (RemoteRange a b c d) \<longleftrightarrow> False"
| "component_wf (Spi a b c d) \<longleftrightarrow> True"
| "component_wf (TypeOfService a b) \<longleftrightarrow> True"
| "component_wf (TrafficClass a b) \<longleftrightarrow> True"
| "component_wf (FlowLabel a b c) \<longleftrightarrow> True"

primrec enc_component :: "tft_component \<Rightarrow> u8 list" where
  "enc_component (Ipv4Remote a m) = IPV4_SOURCE_ADDRESS_TYPE # a @ m"
| "enc_component (Ipv6Remote a m) = IPV6_SOURCE_ADDRESS_TYPE # a @ m"
| "enc_component (Protocol p) = [PROTOCOL_IDENTIFIER_TYPE, p]"
| "enc_component (LocalPort a b) = [SINGLE_SOURCE_PORT_TYPE, a, b]"
| "enc_component (RemotePort a b) = [SINGLE_DESTINATION_PORT_TYPE, a, b]"
| "enc_component (LocalRange a b c d) = [SOURCE_PORT_RANGE_TYPE, a, b, c, d]"
| "enc_component (RemoteRange a b c d) = [DESTINATION_PORT_RANGE_TYPE, a, b, c, d]"
| "enc_component (Spi a b c d) = [SECURITY_PARAMETER_INDEX_TYPE, a, b, c, d]"
| "enc_component (TypeOfService a b) = [TYPE_OF_SERVICE_TYPE, a, b]"
| "enc_component (TrafficClass a b) = [TRAFFIC_CLASS_TYPE, a, b]"
| "enc_component (FlowLabel a b c) = [FLOW_LABEL_TYPE, a, b, c]"

abbreviation with_mask :: "u64 \<Rightarrow> tPACKET_FILTER \<Rightarrow> tPACKET_FILTER" where
  "with_mask m f \<equiv> f\<lparr>u32ClaMask := u32ClaMask f OR m\<rparr>"

primrec sem_component :: "tft_component \<Rightarrow> tPACKET_FILTER \<Rightarrow> tPACKET_FILTER" where
  "sem_component (Ipv4Remote a m) f = (with_mask LTE_CLA_RULE_IPV4_DESTINATION_ADDRESS_TYPE f)
     \<lparr>sIpv4DestAddrMask_Entry1 := a, sIpv4DestAddrMask_Entry2 := m\<rparr>"
| "sem_component (Ipv6Remote a m) f = (with_mask LTE_CLA_RULE_IPV6_DESTINATION_ADDRESS_TYPE f)
     \<lparr>sIpv6DestAddrMask_Entry1 := a, sIpv6DestAddrMask_Entry2 := m\<rparr>"
| "sem_component (Protocol p) f = (with_mask LTE_CLA_RULE_PROTOCOL_IDENTIFIER_TYPE f)
     \<lparr>sIpProt_NumOfEntry := 1, sIpProt_Entry := p\<rparr>"
| "sem_component (LocalPort a b) f = (with_mask LTE_CLA_RULE_SINGLE_SOURCE_PORT_TYPE f)
     \<lparr>sIpSrcPort_NumOfEntry := 1, sIpSrcPort_Entry1 := 256 * ucast a + ucast b\<rparr>"
| "sem_component (RemotePort a b) f = (with_mask LTE_CLA_RULE_SINGLE_DESTINATION_PORT_TYPE f)
     \<lparr>sIpDestPort_NumOfEntry := 1, sIpDestPort_Entry1 := 256 * ucast a + ucast b\<rparr>"
| "sem_component (LocalRange a b c d) f = (with_mask LTE_CLA_RULE_SOURCE_PORT_RANGE_TYPE f)
     \<lparr>sIpSrcPort_NumOfEntry := 2, sIpSrcPort_Entry1 := 256 * ucast a + ucast b, sIpSrcPort_Entry2 := 256 * ucast c + ucast d\<rparr>"
| "sem_component (RemoteRange a b c d) f = (with_mask LTE_CLA_RULE_DESTINATION_PORT_RANGE_TYPE f)
     \<lparr>sIpDestPort_NumOfEntry := 2, sIpDestPort_Entry1 := 256 * ucast a + ucast b, sIpDestPort_Entry2 := 256 * ucast c + ucast d\<rparr>"
| "sem_component (Spi a b c d) f = (with_mask LTE_CLA_RULE_SECURITY_PARAMETER_INDEX_TYPE f)
     \<lparr>sSpi_NumOfEntry := 1, sSpi_Entry := 256 * (256 * (256 * ucast a + ucast b) + ucast c) + ucast d\<rparr>"
| "sem_component (TypeOfService a b) f = (with_mask LTE_CLA_RULE_TYPE_OF_SERVICE_TYPE f)
     \<lparr>sDscp_Entry1 := a, sDscp_Entry2 := b\<rparr>"
| "sem_component (TrafficClass a b) f = (with_mask LTE_CLA_RULE_TRAFFIC_CLASS_TYPE f)
     \<lparr>sDscp_Entry1 := a, sDscp_Entry2 := b\<rparr>"
| "sem_component (FlowLabel a b c) f = (with_mask LTE_CLA_RULE_FLOW_LABEL_TYPE f)
     \<lparr>u8Ipv6FlowLabel := [c, b, a]\<rparr>"

definition enc_components :: "tft_component list \<Rightarrow> u8 list" where
  "enc_components cs = concat (map enc_component cs)"

text \<open>A packet filter: direction, identifier, precedence and components.\<close>

record tft_filter =
  tf_dir :: u8
  tf_id :: u8
  tf_prec :: u8
  tf_components :: "tft_component list"

definition tft_filter_wf :: "tft_filter \<Rightarrow> bool" where
  "tft_filter_wf t \<longleftrightarrow>
     tf_dir t < 4 \<and> tf_id t < 16 \<and> list_all component_wf (tf_components t) \<and>
     length (enc_components (tf_components t)) < 256"

definition enc_filter :: "tft_filter \<Rightarrow> u8 list" where
  "enc_filter t =
     (push_bit 4 (tf_dir t) OR tf_id t) # tf_prec t #
     of_nat (length (enc_components (tf_components t))) # enc_components (tf_components t)"

definition enc_filters :: "tft_filter list \<Rightarrow> u8 list" where
  "enc_filters ts = concat (map enc_filter ts)"

definition sem_filter :: "u8 \<Rightarrow> tft_filter \<Rightarrow> tPACKET_FILTER \<Rightarrow> tPACKET_FILTER" where
  "sem_filter bearer t f =
     fold sem_component (tf_components t)
       (f\<lparr>u8EpsId := bearer, u8Direction := tf_dir t, u8PacketFilterIdentifier := tf_id t,
          u8PacketFilterPrecedence := tf_prec t\<rparr>)"

section \<open>Round trip\<close>

lemma cat16_add: "cat16 x b = 256 * x + ucast b"
proof -
  have "push_bit 8 x AND ucast b = (0 :: u16)"
    by (rule bit_word_eqI) (auto simp: bit_simps dest: bit_imp_le_length)
  then show ?thesis
    by (simp add: cat16_def disjunctive_add_eq_or [symmetric] push_bit_eq_mult mult.commute)
qed

lemma cat32_add: "cat32 x b = 256 * x + ucast b"
proof -
  have "push_bit 8 x AND ucast b = (0 :: u32)"
    by (rule bit_word_eqI) (auto simp: bit_simps dest: bit_imp_le_length)
  then show ?thesis
    by (simp add: cat32_def disjunctive_add_eq_or [symmetric] push_bit_eq_mult mult.commute)
qed

lemma dir_id_bits:
  assumes "d < 4" "i < (16 :: u8)"
  shows "drop_bit 4 ((push_bit 4 d OR i) AND 0x30) = d" "(push_bit 4 d OR i) AND 0x0F = (i :: u8)"
proof -
  have d: "unat d < 4" and i: "unat i < 16" using assms by (simp_all add: word_less_nat_alt)
  have "unat d \<in> {0, 1, 2, 3}" using d by auto
  then have "d \<in> of_nat ` {0, 1, 2, 3}" by (intro image_eqI [where x = "unat d"]) simp_all
  moreover have "unat i \<in> {0, 1, 2, 3, 4, 5, 6, 7, 8, 9, 10, 11, 12, 13, 14, 15}"
    using i unfolding insert_iff empty_iff by presburger
  then have "i \<in> of_nat ` {0, 1, 2, 3, 4, 5, 6, 7, 8, 9, 10, 11, 12, 13, 14, 15}"
    by (intro image_eqI [where x = "unat i"]) simp_all
  ultimately show "drop_bit 4 ((push_bit 4 d OR i) AND 0x30) = d" "(push_bit 4 d OR i) AND 0x0F = (i :: u8)"
    by auto
qed

lemma parse_component:
  assumes "component_wf c" "n \<noteq> 0"
  shows "parse_contents n (enc_component c @ rest) f =
     parse_contents (n - of_nat (length (enc_component c))) rest (sem_component c f)"
  using assms
  by (cases c; subst parse_contents.simps)
     (simp_all add: component_size_def set_component_def wire_type_defs cat16_add cat32_add diff_diff_eq)

lemma parse_contents_enc:
  assumes "list_all component_wf cs" "length (enc_components cs) < 256"
  shows "parse_contents (of_nat (length (enc_components cs))) (enc_components cs @ rest) f =
     Inr (fold sem_component cs f, rest)"
  using assms
proof (induction cs arbitrary: f)
  case Nil
  then show ?case by (simp add: enc_components_def parse_contents.simps)
next
  case (Cons c cs)
  let ?n = "length (enc_component c)" and ?m = "length (enc_components cs)"
  have e: "enc_components (c # cs) = enc_component c @ enc_components cs" by (simp add: enc_components_def)
  have "0 < ?n" by (cases c) simp_all
  then have "(of_nat (?n + ?m) :: u8) \<noteq> 0"
    using Cons.prems(2) by (simp add: e word_unat_eq_iff unat_of_nat del: of_nat_add)
  with Cons e show ?case by (simp add: parse_component)
qed

lemma parse_filters_prefix:
  assumes "list_all tft_filter_wf ts" "num + length ts \<le> length fs"
    "unat r + length (enc_filters ts) \<le> unat z"
  shows "\<exists>fs' r'. parse_filters b z r (enc_filters ts @ rest) num fs =
        parse_filters b z r' rest (num + length ts) fs' \<and>
     unat r' = unat r + length (enc_filters ts) \<and> length fs' = length fs \<and>
     (\<forall>i < length ts. fs' ! (num + i) = sem_filter b (ts ! i) (fs ! (num + i))) \<and>
     (\<forall>i. i < num \<or> num + length ts \<le> i \<longrightarrow> fs' ! i = fs ! i)"
  using assms
proof (induction ts arbitrary: num fs r)
  case Nil
  then show ?case by (auto simp: enc_filters_def)
next
  case (Cons t ts)
  let ?c = "enc_components (tf_components t)"
  have wf: "tf_dir t < 4" "tf_id t < 16" "list_all component_wf (tf_components t)" "length ?c < 256"
    using Cons.prems(1) by (simp_all add: tft_filter_wf_def)
  have e: "enc_filters (t # ts) = enc_filter t @ enc_filters ts" by (simp add: enc_filters_def)
  have ln: "length (enc_filter t) = 3 + length ?c" by (simp add: enc_filter_def)
  have "unat (ucast (of_nat (length ?c) :: u8) :: u16) = length ?c"
    using wf(4) by (simp add: unsigned_ucast_eq unsigned_of_nat take_bit_nat_eq_self)
  moreover have "unat z < 2 ^ LENGTH(16)" by (rule unsigned_less)
  then have lt: "unat z < 65536" by simp
  ultimately have r': "unat (r + 3 + ucast (of_nat (length ?c) :: u8)) = unat r + 3 + length ?c"
    using Cons.prems(3) by (simp add: e ln unat_word_ariths)
  let ?f = "sem_filter b t (fs ! num)"
  have step: "parse_filters b z r (enc_filters (t # ts) @ rest) num fs =
      parse_filters b z (r + 3 + ucast (of_nat (length ?c) :: u8)) (enc_filters ts @ rest) (Suc num) (fs[num := ?f])"
    using Cons.prems(2,3) wf parse_contents_enc [OF wf(3,4)] dir_id_bits [OF wf(1,2)]
    by (subst parse_filters.simps) (simp add: e ln enc_filter_def sem_filter_def)
  have "unat (r + 3 + ucast (of_nat (length ?c) :: u8)) + length (enc_filters ts) \<le> unat z"
    using Cons.prems(3) r' by (simp add: e ln)
  from Cons.IH [OF _ _ this, of "Suc num" "fs[num := ?f]"] Cons.prems(1,2) obtain fs' r2 where
    ih: "parse_filters b z (r + 3 + ucast (of_nat (length ?c) :: u8)) (enc_filters ts @ rest) (Suc num) (fs[num := ?f]) =
        parse_filters b z r2 rest (Suc num + length ts) fs'" "length fs' = length fs"
      "\<forall>i < length ts. fs' ! (Suc num + i) = sem_filter b (ts ! i) (fs[num := ?f] ! (Suc num + i))"
      "\<forall>i. i < Suc num \<or> Suc num + length ts \<le> i \<longrightarrow> fs' ! i = fs[num := ?f] ! i"
      "unat r2 = unat (r + 3 + ucast (of_nat (length ?c) :: u8)) + length (enc_filters ts)"
    by auto
  have "fs' ! (num + i) = sem_filter b ((t # ts) ! i) (fs ! (num + i))" if "i < length (t # ts)" for i
  proof (cases i)
    case 0
    then show ?thesis using ih(4) Cons.prems(2) by simp
  next
    case (Suc k)
    then show ?thesis using ih(3) that by simp
  qed
  with step ih r' show ?case by (intro exI [of _ fs'] exI [of _ r2]) (auto simp: e ln)
qed

lemma process_filter_enc:
  assumes "list_all tft_filter_wf ts" and "length ts \<le> length (rcv_PacketFilters r)"
    and "length (enc_filters ts) < 65535"
  shows "\<exists>fs'. Qa_BearerMod_Process_Filter r (of_nat (length (enc_filters ts) + 1)) (enc_filters ts @ rest) bearer =
       Inr (eAMP_RET_SUCCESS, r\<lparr>rcv_PacketFilters := fs'\<rparr>, of_nat (length ts)) \<and>
     length fs' = length (rcv_PacketFilters r) \<and>
     (\<forall>i < length ts. fs' ! i = sem_filter bearer (ts ! i) (rcv_PacketFilters r ! i)) \<and>
     (\<forall>i. length ts \<le> i \<longrightarrow> fs' ! i = rcv_PacketFilters r ! i)"
proof -
  let ?z = "of_nat (length (enc_filters ts) + 1) - 1 :: u16"
  have z: "unat ?z = length (enc_filters ts)" using assms(3) by (simp add: unsigned_of_nat take_bit_nat_eq_self)
  obtain fs' r' where p: "parse_filters bearer ?z 0 (enc_filters ts @ rest) 0 (rcv_PacketFilters r) =
      parse_filters bearer ?z r' rest (length ts) fs'" "unat r' = length (enc_filters ts)"
    "length fs' = length (rcv_PacketFilters r)"
    "\<forall>i < length ts. fs' ! i = sem_filter bearer (ts ! i) (rcv_PacketFilters r ! i)"
    "\<forall>i. length ts \<le> i \<longrightarrow> fs' ! i = rcv_PacketFilters r ! i"
    using parse_filters_prefix [OF assms(1), of 0 "rcv_PacketFilters r" 0 ?z bearer rest] assms(2) z by auto
  have "parse_filters bearer ?z r' rest (length ts) fs' = Inr (length ts, fs')"
    using p(2) z by (subst parse_filters.simps) simp
  with p show ?thesis
    by (intro exI [of _ fs']) (simp add: Qa_BearerMod_Process_Filter_def)
qed

text \<open>
  C15. Round trip of the filter parser: a message of at most 16 well-formed filters without
  port ranges, followed by anything, is parsed completely, the count is stored, and the
  i-th filter received is the i-th filter sent.
\<close>

theorem Qa_BearerMod_Process_Filter_roundtrip:
  assumes "list_all tft_filter_wf ts" and "length ts \<le> length (rcv_PacketFilters r)"
    and "length (rcv_PacketFilters r) = MAX_FILTERS_PER_TFT" and "length (enc_filters ts) < 65535"
  shows "\<exists>r'. Qa_BearerMod_Process_Filter r (of_nat (length (enc_filters ts) + 1)) (enc_filters ts @ rest) bearer =
       Inr (eAMP_RET_SUCCESS, r', of_nat (length ts)) \<and>
     (\<forall>i < length ts. rcv_PacketFilters r' ! i = sem_filter bearer (ts ! i) (rcv_PacketFilters r ! i)) \<and>
     (\<forall>i. length ts \<le> i \<longrightarrow> rcv_PacketFilters r' ! i = rcv_PacketFilters r ! i)"
  using process_filter_enc [OF assms(1,2,4), of rest bearer]
  by (elim exE conjE) (intro exI conjI, assumption, simp_all)

text \<open>Two filters of a TFT.\<close>

definition wire_filters :: "tft_filter list" where
  "wire_filters =
     [\<lparr>tf_dir = 2, tf_id = 1, tf_prec = 7, tf_components = [Protocol 17, RemotePort 0x13 0x88]\<rparr>,
      \<lparr>tf_dir = 3, tf_id = 2, tf_prec = 9, tf_components = [Ipv4Remote [10, 0, 0, 0] [255, 0, 0, 0]]\<rparr>]"

theorem Qa_BearerMod_Process_Filter_roundtrip_witness:
  "\<exists>r'. Qa_BearerMod_Process_Filter zero_tft_recvd 21 (enc_filters wire_filters) 6 =
       Inr (eAMP_RET_SUCCESS, r', 2) \<and>
     sIpDestPort_Entry1 (rcv_PacketFilters r' ! 0) = 5000 \<and>
     sIpv4DestAddrMask_Entry1 (rcv_PacketFilters r' ! 1) = [10, 0, 0, 0]"
proof -
  have wf: "list_all tft_filter_wf wire_filters"
    by (simp add: wire_filters_def tft_filter_wf_def enc_components_def)
  have ln: "length (enc_filters wire_filters) = 20"
    by (simp add: enc_filters_def wire_filters_def enc_filter_def enc_components_def)
  have l16: "length (rcv_PacketFilters zero_tft_recvd) = MAX_FILTERS_PER_TFT" "length wire_filters = 2"
    by (simp_all add: zero_tft_recvd_def wire_filters_def)
  from Qa_BearerMod_Process_Filter_roundtrip [OF wf, of zero_tft_recvd "[]" 6] l16 ln obtain r' where
    r: "Qa_BearerMod_Process_Filter zero_tft_recvd 21 (enc_filters wire_filters) 6 = Inr (eAMP_RET_SUCCESS, r', 2)"
      "\<forall>i < 2. rcv_PacketFilters r' ! i = sem_filter 6 (wire_filters ! i) (rcv_PacketFilters zero_tft_recvd ! i)"
    by (auto simp: max_defs)
  have "rcv_PacketFilters r' ! 0 = sem_filter 6 (wire_filters ! 0) (rcv_PacketFilters zero_tft_recvd ! 0)"
    "rcv_PacketFilters r' ! 1 = sem_filter 6 (wire_filters ! 1) (rcv_PacketFilters zero_tft_recvd ! 1)"
    using r(2) by simp_all
  with r(1) show ?thesis by (simp add: sem_filter_def wire_filters_def)
qed

text \<open>
  C37. The parser does not bound the number of filters: a seventeenth filter is written
  behind the array of 16, whatever the buffer holds.
\<close>

theorem Qa_BearerMod_Process_Filter_overflow:
  assumes "list_all tft_filter_wf ts" and "length ts = MAX_FILTERS_PER_TFT"
    and "length (rcv_PacketFilters r) = MAX_FILTERS_PER_TFT"
    and "length (enc_filters ts) < unat (offsetlen - 1)"
  shows "Qa_BearerMod_Process_Filter r offsetlen (enc_filters ts @ rest) bearer = Inl OutOfBounds"
proof -
  let ?z = "offsetlen - 1"
  obtain fs' r' where p: "parse_filters bearer ?z 0 (enc_filters ts @ rest) 0 (rcv_PacketFilters r) =
      parse_filters bearer ?z r' rest (length ts) fs'" "unat r' = length (enc_filters ts)" "length fs' = length ts"
    using parse_filters_prefix [OF assms(1), of 0 "rcv_PacketFilters r" 0 ?z bearer rest] assms(2,3,4) by auto
  have "parse_filters bearer ?z r' rest (length ts) fs' = Inl OutOfBounds"
    using p(2,3) assms(4) by (subst parse_filters.simps) simp
  with p(1) show ?thesis by (simp add: Qa_BearerMod_Process_Filter_def)
qed

theorem Qa_BearerMod_Process_Filter_overflow_witness:
  "Qa_BearerMod_Process_Filter zero_tft_recvd 60
     (enc_filters (replicate 16 \<lparr>tf_dir = 2, tf_id = 1, tf_prec = 7, tf_components = []\<rparr>) @ replicate 12 0) 6 =
   Inl OutOfBounds"
proof -
  let ?t = "\<lparr>tf_dir = 2, tf_id = 1, tf_prec = 7, tf_components = []\<rparr>"
  have "length (enc_filter ?t) = 3" by (simp add: enc_filter_def enc_components_def)
  then have "length (enc_filters (replicate n ?t)) = 3 * n" for n
    by (simp add: enc_filters_def length_concat sum_list_replicate)
  then show ?thesis
    by (intro Qa_BearerMod_Process_Filter_overflow)
       (simp_all add: list_all_iff tft_filter_wf_def enc_components_def max_defs zero_tft_recvd_def)
qed

text \<open>
  Port ranges lose the high byte of the upper port: parsed into a cleared filter, the
  range from \<open>256 a + b\<close> to \<open>256 c + d\<close> is stored with the upper port \<open>d\<close>.
\<close>

theorem port_range_high_byte_lost:
  assumes "sSpi_NumOfEntry f = 0" and "sIpDestPort_NumOfEntry f = 0"
  shows "parse_contents 5 (enc_component (RemoteRange a b c d) @ rest) f =
       Inr ((sem_component (RemoteRange a b c d) f)\<lparr>sIpDestPort_Entry2 := ucast d\<rparr>, rest) \<and>
     parse_contents 5 (enc_component (LocalRange a b c d) @ rest) f =
       Inr ((sem_component (LocalRange a b c d) f)\<lparr>sIpSrcPort_Entry2 := ucast d\<rparr>, rest)"
proof -
  have "parse_contents 0 rest g = Inr (g, rest)" for g by (simp add: parse_contents.simps)
  then show ?thesis using assms
    by (subst (1 2) parse_contents.simps)
       (simp add: component_size_def set_component_def wire_type_defs cat16_add)
qed

theorem port_range_high_byte_lost_witness:
  "\<exists>f. parse_contents 5 (enc_component (RemoteRange 0 80 0x1F 0x90)) zero_filter = Inr (f, []) \<and>
     sIpDestPort_Entry2 f = 0x90 \<and> sIpDestPort_Entry2 (sem_component (RemoteRange 0 80 0x1F 0x90) zero_filter) = 0x1F90"
  using port_range_high_byte_lost [where f = zero_filter and a = 0 and b = 80 and c = "0x1F" and d = "0x90" and rest = "[]"]
  by (simp add: zero_filter_def)

section \<open>QoS and identifier lists\<close>

definition qos_bytes :: "tHIF_QOS \<Rightarrow> u8 list" where
  "qos_bytes q = [uQciLabel q, uMaxBitRateUplnk q, uMaxBitRateDownlnk q, uGaurenBitRateUplnk q,
     uGaurenBitRateDownlnk q, uMaxBitRateUplnkExt q, uMaxBitRateDownlnkExt q, uGaurenBitRateUplnkExt q,
     uGaurenBitRateDownlnkExt q]"

lemma list_up_to_9:
  "length vs \<le> 9 \<Longrightarrow>
     vs = [] \<or>
     (\<exists>a. vs = [a]) \<or>
     (\<exists>a b. vs = [a, b]) \<or>
     (\<exists>a b c. vs = [a, b, c]) \<or>
     (\<exists>a b c d. vs = [a, b, c, d]) \<or>
     (\<exists>a b c d e. vs = [a, b, c, d, e]) \<or>
     (\<exists>a b c d e f. vs = [a, b, c, d, e, f]) \<or>
     (\<exists>a b c d e f g. vs = [a, b, c, d, e, f, g]) \<or>
     (\<exists>a b c d e f g h. vs = [a, b, c, d, e, f, g, h]) \<or>
     (\<exists>a b c d e f g h i. vs = [a, b, c, d, e, f, g, h, i])"
  by (auto simp: numeral_eq_Suc le_Suc_eq length_Suc_conv)

lemma process_qos:
  assumes "length vs \<le> 9"
  shows "\<exists>tft'. Qa_BearerMod_Process_QOS tft (of_nat (length vs) # vs @ rest) = Inr (eAMP_RET_SUCCESS, tft') \<and>
     qos_bytes (tHifQos tft') = vs @ drop (length vs) (qos_bytes (tHifQos tft)) \<and>
     u8Len (tHifQos tft') = of_nat (length vs) \<and> u8EpsBearerId tft' = u8EpsBearerId tft \<and>
     tPacketFilters tft' = tPacketFilters tft"
  using list_up_to_9 [OF assms]
  by (elim disjE exE) (simp_all add: Qa_BearerMod_Process_QOS_def qos_step_def qos_bytes_def word_le_nat_alt)

text \<open>
  The QoS parser on a message with at most nine values: the values land in the members
  in message order, the members beyond the length keep their old values.
\<close>

theorem Qa_BearerMod_Process_QOS_correct:
  assumes "length vs \<le> 9"
  shows "\<exists>tft'. Qa_BearerMod_Process_QOS tft (of_nat (length vs) # vs @ rest) = Inr (eAMP_RET_SUCCESS, tft') \<and>
     qos_bytes (tHifQos tft') = vs @ drop (length vs) (qos_bytes (tHifQos tft)) \<and>
     u8Len (tHifQos tft') = of_nat (length vs) \<and> tPacketFilters tft' = tPacketFilters tft"
  using process_qos [OF assms, of tft rest] by auto

theorem Qa_BearerMod_Process_QOS_correct_witness:
  "\<exists>tft'. Qa_BearerMod_Process_QOS zero_tft [5, 1, 72, 73, 74, 75] = Inr (eAMP_RET_SUCCESS, tft') \<and>
     uQciLabel (tHifQos tft') = 1 \<and> uGaurenBitRateDownlnk (tHifQos tft') = 75"
  using Qa_BearerMod_Process_QOS_correct [of "[1, 72, 73, 74, 75]" zero_tft "[]"] by (auto simp: qos_bytes_def)

text \<open>
  The identifier parser stores the first identifiers of the data, in order, when the
  message holds them.
\<close>

theorem Qa_BearerMod_Process_Filter_Del_correct:
  assumes "length ids \<le> 15" and "length (rcv_PfidList r) = MAX_FILTERS_PER_TFT"
  shows "\<exists>r'. Qa_BearerMod_Process_Filter_Del r (ids @ rest) (of_nat (length ids)) = Inr (eAMP_RET_SUCCESS, r') \<and>
     take (length ids) (rcv_PfidList r') = ids \<and> length (rcv_PfidList r') = MAX_FILTERS_PER_TFT \<and>
     rcv_NumFilters r' = rcv_NumFilters r"
proof -
  have "unat (of_nat (length ids) :: u8) = length ids"
    using assms(1) by (simp add: unsigned_of_nat take_bit_nat_eq_self)
  with assms show ?thesis by (simp add: Qa_BearerMod_Process_Filter_Del_def max_defs)
qed

theorem Qa_BearerMod_Process_Filter_Del_correct_witness:
  "\<exists>r'. Qa_BearerMod_Process_Filter_Del zero_tft_recvd [3, 1, 9] 2 = Inr (eAMP_RET_SUCCESS, r') \<and>
     take 2 (rcv_PfidList r') = [3, 1]"
proof -
  have l: "length [3, 1 :: u8] = 2" "of_nat (length [3, 1 :: u8]) = (2 :: u8)" by simp_all
  have "length (rcv_PfidList zero_tft_recvd) = MAX_FILTERS_PER_TFT" by (simp add: zero_tft_recvd_def)
  from Qa_BearerMod_Process_Filter_Del_correct [OF _ this, of "[3, 1]" "[9]"] show ?thesis unfolding l by auto
qed

end
