(* ===== verification/QaMsg.thy ===== *)
theory QaMsg
  imports QaParse QaOps
begin

text \<open>
  The message handlers of lte_qos_agent.c: confirmation of a packet data network, the
  default bearer, bearer allocation and modification (\<open>QA_Process_Bearer_Mod\<close>), bearer
  release, detach, and the two dispatchers. The state of the module is the agent's state
  with the character device's management FIFOs and the transaction table.

  A received message is its header and the bytes from \<open>u8Data\<close> to the end of its
  buffer; a read behind them is a fault. The spinlock makes the updates of the tables
  atomic. \<open>QA_PrintFilterList\<close> and the dump loops only feed the disabled log.
\<close>

section \<open>Messages\<close>

record AMP_HOST_MAC_MSG_S =
  u16HostMsgType :: u16
  u16Context :: u16
  u8MacMsgType :: u8
  u8MsgSubtype :: u8
  u16Length :: u16
  u8Data :: "u8 list"

definition ESM_PDN_CONN_REQ :: u8 where "ESM_PDN_CONN_REQ = 0x01"
definition ESM_PDN_CONN_CNF :: u8 where "ESM_PDN_CONN_CNF = 0x02"
definition ESM_PDN_CONN_REJ :: u8 where "ESM_PDN_CONN_REJ = 0x03"
definition ESM_PDN_CONN_REL_CNF :: u8 where "ESM_PDN_CONN_REL_CNF = 0x05"
definition ESM_PDN_CONN_REL_REJ :: u8 where "ESM_PDN_CONN_REL_REJ = 0x06"
definition ESM_BEARER_ALLOC_REQ :: u8 where "ESM_BEARER_ALLOC_REQ = 0x07"
definition ESM_BEARER_ALLOC_CNF :: u8 where "ESM_BEARER_ALLOC_CNF = 0x08"
definition ESM_BEARER_ALLOC_REJ :: u8 where "ESM_BEARER_ALLOC_REJ = 0x09"
definition ESM_BEARER_REL_REQ :: u8 where "ESM_BEARER_REL_REQ = 0x0a"
definition ESM_BEARER_REL_CNF :: u8 where "ESM_BEARER_REL_CNF = 0x0b"
definition ESM_BEARER_MOD_REQ :: u8 where "ESM_BEARER_MOD_REQ = 0x0d"
definition ESM_BEARER_MOD_CNF :: u8 where "ESM_BEARER_MOD_CNF = 0x0e"
definition ESM_BEARER_MOD_REJ :: u8 where "ESM_BEARER_MOD_REJ = 0x0f"
definition ESM_BEARER_ALLOC_IND :: u8 where "ESM_BEARER_ALLOC_IND = 0x10"
definition ESM_BEARER_ALLOC_RSP :: u8 where "ESM_BEARER_ALLOC_RSP = 0x11"
definition ESM_BEARER_REL_IND :: u8 where "ESM_BEARER_REL_IND = 0x12"
definition ESM_BEARER_REL_RSP :: u8 where "ESM_BEARER_REL_RSP = 0x13"
definition ESM_BEARER_MOD_IND :: u8 where "ESM_BEARER_MOD_IND = 0x14"
definition ESM_BEARER_MOD_RSP :: u8 where "ESM_BEARER_MOD_RSP = 0x15"
definition eIPC_LTE_SP_QA_REGISTER_CNF :: u8 where "eIPC_LTE_SP_QA_REGISTER_CNF = 0xF2"
definition eIPC_LTE_SP_QA_DETACH_CNF :: u8 where "eIPC_LTE_SP_QA_DETACH_CNF = 0xF3"

lemmas esm_defs =
  ESM_PDN_CONN_REQ_def ESM_PDN_CONN_CNF_def ESM_PDN_CONN_REJ_def ESM_PDN_CONN_REL_CNF_def
  ESM_PDN_CONN_REL_REJ_def ESM_BEARER_ALLOC_REQ_def ESM_BEARER_ALLOC_CNF_def ESM_BEARER_ALLOC_REJ_def
  ESM_BEARER_REL_REQ_def ESM_BEARER_REL_CNF_def ESM_BEARER_MOD_REQ_def ESM_BEARER_MOD_CNF_def
  ESM_BEARER_MOD_REJ_def ESM_BEARER_ALLOC_IND_def ESM_BEARER_ALLOC_RSP_def ESM_BEARER_REL_IND_def
  ESM_BEARER_REL_RSP_def ESM_BEARER_MOD_IND_def ESM_BEARER_MOD_RSP_def
  eIPC_LTE_SP_QA_REGISTER_CNF_def eIPC_LTE_SP_QA_DETACH_CNF_def

definition LTE_HMM_NAS :: u8 where "LTE_HMM_NAS = 0x80"
definition eMAC_HDR_HOST_MSG_LTE_NAS_TFT_MSG :: u16 where "eMAC_HDR_HOST_MSG_LTE_NAS_TFT_MSG = 26"
definition TAG_QOS :: u8 where "TAG_QOS = 0x05"
definition TAG_TFA :: u8 where "TAG_TFA = 0x06"
definition TAG_PDN_ADDRESS_TYPE :: u8 where "TAG_PDN_ADDRESS_TYPE = 0x0F"

definition TD_TFT_OP_CODE_CREATE_NEW_TFT :: u8 where "TD_TFT_OP_CODE_CREATE_NEW_TFT = 1"
definition TD_TFT_OP_CODE_DELETE_EXISTING_TFT :: u8 where "TD_TFT_OP_CODE_DELETE_EXISTING_TFT = 2"
definition TD_TFT_OP_CODE_ADD_PKT_FLTR_TO_EXISTING_TFT :: u8
  where "TD_TFT_OP_CODE_ADD_PKT_FLTR_TO_EXISTING_TFT = 3"
definition TD_TFT_OP_CODE_REPLACE_PKT_FLTR_TO_EXISTING_TFT :: u8
  where "TD_TFT_OP_CODE_REPLACE_PKT_FLTR_TO_EXISTING_TFT = 4"
definition TD_TFT_OP_CODE_DELETE_PKT_FLTR_FROM_EXISTING_TFT :: u8
  where "TD_TFT_OP_CODE_DELETE_PKT_FLTR_FROM_EXISTING_TFT = 5"

lemmas tft_op_defs =
  TD_TFT_OP_CODE_CREATE_NEW_TFT_def TD_TFT_OP_CODE_DELETE_EXISTING_TFT_def
  TD_TFT_OP_CODE_ADD_PKT_FLTR_TO_EXISTING_TFT_def TD_TFT_OP_CODE_REPLACE_PKT_FLTR_TO_EXISTING_TFT_def
  TD_TFT_OP_CODE_DELETE_PKT_FLTR_FROM_EXISTING_TFT_def

text \<open>\<open>cpu_to_be16\<close> and \<open>be16_to_cpu\<close> of the little-endian CPU swap the two bytes.\<close>

definition bswap16 :: "u16 \<Rightarrow> u16" where
  "bswap16 x = push_bit 8 x OR drop_bit 8 x"

text \<open>\<open>memcpy\<close> of \<open>n\<close> bytes of the message at \<open>off\<close> to the start of an array.\<close>

definition copy_bytes :: "u8 list \<Rightarrow> u8 list \<Rightarrow> nat \<Rightarrow> nat \<Rightarrow> u8 list res" where
  "copy_bytes dst src off n =
     (if n \<le> length dst \<and> (n = 0 \<or> off + n \<le> length src)
      then Inr (take n (drop off src) @ drop n dst) else Inl OutOfBounds)"

section \<open>State of the module\<close>

text \<open>
  The management FIFOs hold \<open>void*\<close>: the receive FIFO management packets with their
  payload, the transmit FIFO the messages the handlers allocate for their replies.
\<close>

datatype fifo_item = MgmtPacket "u8 list" | MacMsg AMP_HOST_MAC_MSG_S

record lte_qa_dev_t =
  h_tx_mgmt_fifo :: "fifo_item PTR_FIFO option"
  h_rx_mgmt_fifo :: "fifo_item PTR_FIFO option"
  tx_mgmt_packet_write_cnt :: u32
  tx_mgmt_packet_read_cnt :: u32
  rx_mgmt_packet_write_cnt :: u32
  rx_mgmt_packet_read_cnt :: u32

text \<open>Of \<open>gsQa_Tran\<close> only the transaction ids are ever different from zero.\<close>

record qa_module =
  agent :: qa_state
  qa_dev :: lte_qa_dev_t
  sSfTransactionTable :: "u16 list"

definition AMP_WIMAX_MAX_SF_TRANSACTION :: nat where "AMP_WIMAX_MAX_SF_TRANSACTION = 20"

text \<open>
  A reply of two payload bytes, bearer id and cause 0, into the transmit FIFO. \<open>km_msg\<close>
  says whether its \<open>kmalloc\<close> succeeds. A message the full FIFO refuses is dropped.
\<close>

definition send_rsp :: "bool \<Rightarrow> qa_module \<Rightarrow> AMP_HOST_MAC_MSG_S \<Rightarrow> u8 \<Rightarrow> u8 \<Rightarrow> qa_module res" where
  "send_rsp km_msg m msg subtype bearerid =
     (if \<not> km_msg then Inr m
      else
        let rsp = \<lparr>u16HostMsgType = bswap16 eMAC_HDR_HOST_MSG_LTE_NAS_TFT_MSG,
              u16Context = bswap16 (u16Context msg), u8MacMsgType = LTE_HMM_NAS, u8MsgSubtype = subtype,
              u16Length = bswap16 2, u8Data = [bearerid, 0]\<rparr>;
            d = qa_dev m in
        rbind (ptr_fifo_insert (h_tx_mgmt_fifo d) (MacMsg rsp)) (\<lambda>(pfval, f).
          let d1 = d\<lparr>h_tx_mgmt_fifo := f\<rparr> in
          Inr (m\<lparr>qa_dev := if pfval = PTR_FIFO_ERROR_NONE
                          then d1\<lparr>tx_mgmt_packet_write_cnt := tx_mgmt_packet_write_cnt d1 + 1\<rparr> else d1\<rparr>)))"

section \<open>Default bearers\<close>

text \<open>
  The common end of \<open>QA_Process_PdnConn_Cnf\<close> and \<open>QA_ProcessRegConf_Lte\<close>: the default
  bearer of network \<open>ct\<close>, whose record is \<open>pd\<close> so far, gets its id and a freshly allocated
  match-all filter, which becomes the whole table. The \<open>kmalloc\<close> is not checked.
\<close>

definition install_default_bearer ::
  "allocator \<Rightarrow> qa_state \<Rightarrow> nat \<Rightarrow> u8 \<Rightarrow> tPDN_CLASSIFIER \<Rightarrow> (amp_ret \<times> qa_state) res" where
  "install_default_bearer km s ct bearer_id pd =
     (let h = qa_heap s;
          blk = km h;
          h0 = (case blk of None \<Rightarrow> h | Some (t, e0) \<Rightarrow> h(t \<mapsto> e0));
          new = map_option fst blk;
          db = tDefaultBearer pd in
      rbind (arr_put (tPacketFilters db) 0 new) (\<lambda>fs.
      rbind (put_entry h0 new (match_all_entry bearer_id)) (\<lambda>h1.
      rbind (put_pdn (s\<lparr>qa_heap := h1\<rparr>) ct
               (pd\<lparr>tDefaultBearer := db\<lparr>u8EpsBearerId := bearer_id, u8NumFilters := 1, tPacketFilters := fs\<rparr>,
                   u8NumDedicatedBearers := 0, u8MatchAll := 1, tClassifierTable := new\<rparr>)) (\<lambda>s'.
      Inr (eAMP_RET_SUCCESS, s')))))"

definition QA_Process_PdnConn_Cnf ::
  "allocator \<Rightarrow> qa_state \<Rightarrow> AMP_HOST_MAC_MSG_S \<Rightarrow> (amp_ret \<times> qa_state) res" where
  "QA_Process_PdnConn_Cnf km s msg =
     (case find_classifier_table s 0 of
        None \<Rightarrow> Inr (eAMP_RET_FAIL, s)
      | Some ct \<Rightarrow>
          let data = u8Data msg in
          rbind (arr_get data 0) (\<lambda>bearer_id.
          rbind (arr_get data 1) (\<lambda>u8QosLen.
          let p = 1 + unat u8QosLen in
          rbind (arr_get data (p + 1)) (\<lambda>pdn_length.
          rbind (arr_get data (p + 2)) (\<lambda>pdn_type.
          rbind (get_pdn s ct) (\<lambda>pd.
          rbind (copy_bytes (u8PdnAddress pd) data (p + 3) (unat pdn_length - 1)) (\<lambda>address.
          install_default_bearer km s ct bearer_id
            (pd\<lparr>tDefaultBearer := (tDefaultBearer pd)\<lparr>tHifQos := zero_qos\<rparr>,
                u8PdnType := pdn_type, u8PdnAddress := address\<rparr>))))))))"

text \<open>
  The default bearer is always installed in the first network. \<open>u16Length\<close> is used as it
  came, without a byte swap. A PDN address of length 0 makes the size of the \<open>memcpy\<close>
  negative, which is a huge size.
\<close>

definition QA_ProcessRegConf_Lte ::
  "allocator \<Rightarrow> qa_state \<Rightarrow> AMP_HOST_MAC_MSG_S \<Rightarrow> (amp_ret \<times> qa_state) res" where
  "QA_ProcessRegConf_Lte km s msg =
     (let data = u8Data msg; pdn_cla_end = unat (u16Length msg) in
      rbind (arr_get data 2) (\<lambda>qos_len.
      rbind (arr_get data 0) (\<lambda>bearer_id.
      let p0 = 2 + unat qos_len + 1 in
      rbind (if p0 < pdn_cla_end
             then rbind (arr_get data p0) (\<lambda>tag.
               if tag = TAG_TFA then rbind (arr_get data (p0 + 1)) (\<lambda>n. Inr (p0 + unat n + 2)) else Inr p0)
             else Inr p0) (\<lambda>p.
      rbind (arr_get data p) (\<lambda>val.
      rbind (get_pdn s 0) (\<lambda>pd.
      rbind (if p < pdn_cla_end \<and> val = TAG_PDN_ADDRESS_TYPE
             then rbind (arr_get data (p + 1)) (\<lambda>n.
               rbind (arr_get data (p + 2)) (\<lambda>pdn_type.
               if n = 0 then Inl OutOfBounds
               else rbind (copy_bytes (u8PdnAddress pd) data (p + 3) (unat n - 1)) (\<lambda>address.
                 Inr (pd\<lparr>u8PdnType := pdn_type, u8PdnAddress := address\<rparr>))))
             else Inr pd) (\<lambda>pd1.
      install_default_bearer km s 0 bearer_id pd1)))))))"

section \<open>Bearer allocation and modification\<close>

text \<open>
  Where the QoS is, its length and where the parser stands behind it: TLV and optional in
  the modification messages, LV in the allocation messages.
\<close>

definition bearer_mod_qos :: "u8 \<Rightarrow> u8 list \<Rightarrow> (nat \<times> u8 \<times> nat) res" where
  "bearer_mod_qos eMsgId data =
     (if eMsgId = ESM_BEARER_MOD_CNF \<or> eMsgId = ESM_BEARER_MOD_IND then
        rbind (arr_get data 2) (\<lambda>tag.
        if tag = TAG_QOS then rbind (arr_get data 3) (\<lambda>u8Qoslen. Inr (3, u8Qoslen, 4 + unat u8Qoslen))
        else Inr (2, 0, 2))
      else rbind (arr_get data 2) (\<lambda>u8Qoslen. Inr (2, u8Qoslen, 3 + unat u8Qoslen)))"

text \<open>
  The position of the TFT's length byte, \<open>None\<close> when the message has no TFT.
\<close>

definition bearer_mod_tft :: "u8 \<Rightarrow> u8 list \<Rightarrow> nat \<Rightarrow> nat option res" where
  "bearer_mod_tft eMsgId data p =
     rbind (if eMsgId = ESM_BEARER_ALLOC_IND \<or> eMsgId = ESM_BEARER_MOD_CNF \<or> eMsgId = ESM_BEARER_MOD_IND
            then rbind (arr_get data p) (\<lambda>u8TFT_Type. Inr (u8TFT_Type, p + 1)) else Inr (0, p)) (\<lambda>(ty, p1).
     Inr (if ty = TAG_TFA \<or> eMsgId = ESM_BEARER_ALLOC_CNF then Some p1 else None))"

text \<open>
  The index of the dedicated bearer with the given id, the number of bearers when there is
  none: the code does not test whether the search succeeded.
\<close>

definition find_dedicated :: "tPDN_CLASSIFIER \<Rightarrow> u8 \<Rightarrow> nat res" where
  "find_dedicated pd bearer_id =
     (let n = unat (u8NumDedicatedBearers pd); ds = tDedicatedBearer pd in
      case List.find (\<lambda>i. u8EpsBearerId (ds ! i) = bearer_id) [0..<min n (length ds)] of
        Some i \<Rightarrow> Inr i
      | None \<Rightarrow> if length ds < n then Inl OutOfBounds else Inr n)"

text \<open>
  The operations of the \<open>switch\<close>. \<open>p\<close> is the position behind the operation byte, \<open>bid\<close>
  and \<open>linked\<close> are the two ids of the message. A bearer equal to its linked bearer is the
  default bearer of the network. Their return codes are ignored.
\<close>

definition bearer_mod_create ::
  "allocator \<Rightarrow> qa_state \<Rightarrow> nat \<Rightarrow> u8 list \<Rightarrow> u8 \<Rightarrow> u8 \<Rightarrow> nat \<Rightarrow> u8 \<Rightarrow> u16 \<Rightarrow> nat \<Rightarrow> qa_state res" where
  "bearer_mod_create km s ct data bid linked qos u8Qoslen offsetlen p =
     rbind (get_pdn s ct) (\<lambda>pd.
     let n = unat (u8NumDedicatedBearers pd); dflt = (if bid = linked then 1 else 0) in
     rbind (get_tft s ct n dflt) (\<lambda>tft.
     let pTFT = (if bid = linked then tft else tft\<lparr>u8EpsBearerId := bid\<rparr>) in
     rbind (if 0 < u8Qoslen then Qa_BearerMod_Process_QOS pTFT (drop qos data)
            else Inr (eAMP_RET_SUCCESS, pTFT)) (\<lambda>(_, tft1).
     rbind (put_tft s ct n dflt tft1) (\<lambda>s1.
     rbind (get_pdn s1 ct) (\<lambda>pd1.
     let cnt = (if bid = linked then u8NumDedicatedBearers pd1 else u8NumDedicatedBearers pd1 + 1) in
     rbind (put_pdn s1 ct (pd1\<lparr>u8NumDedicatedBearers := cnt\<rparr>)) (\<lambda>s2.
     rbind (Qa_BearerMod_Process_Filter (tft_recvd s2) offsetlen (drop p data) bid) (\<lambda>(_, r, _).
     rbind (Qa_Add_SortTFT km (s2\<lparr>tft_recvd := r\<rparr>) r (unat (cnt - 1)) ct dflt) (\<lambda>(_, s'). Inr s'))))))))"

definition bearer_mod_add ::
  "allocator \<Rightarrow> qa_state \<Rightarrow> nat \<Rightarrow> u8 list \<Rightarrow> u8 \<Rightarrow> u8 \<Rightarrow> u16 \<Rightarrow> nat \<Rightarrow> qa_state res" where
  "bearer_mod_add km s ct data bid linked offsetlen p =
     rbind (get_pdn s ct) (\<lambda>pd.
     rbind (if bid \<noteq> linked then find_dedicated pd bid else Inr 0) (\<lambda>i.
     rbind (Qa_BearerMod_Process_Filter (tft_recvd s) offsetlen (drop p data) bid) (\<lambda>(_, r, _).
     rbind (Qa_Add_SortTFT km (s\<lparr>tft_recvd := r\<rparr>) r i ct (if bid = linked then 1 else 0)) (\<lambda>(_, s'). Inr s'))))"

definition bearer_mod_replace ::
  "qa_state \<Rightarrow> nat \<Rightarrow> u8 list \<Rightarrow> u8 \<Rightarrow> u8 \<Rightarrow> u8 \<Rightarrow> u16 \<Rightarrow> nat \<Rightarrow> qa_state res" where
  "bearer_mod_replace s ct data bid linked no_filters offsetlen p =
     rbind (get_pdn s ct) (\<lambda>pd.
     rbind (if bid \<noteq> linked then find_dedicated pd bid else Inr 0) (\<lambda>i.
     rbind (Qa_BearerMod_Process_Filter (tft_recvd s) offsetlen (drop p data) bid) (\<lambda>(_, r, _).
     rbind (Qa_Replace_Filters (s\<lparr>tft_recvd := r\<rparr>) r i no_filters ct (if bid = linked then 1 else 0))
       (\<lambda>(_, s'). Inr s'))))"

definition bearer_mod_delete_filters ::
  "allocator \<Rightarrow> qa_state \<Rightarrow> nat \<Rightarrow> u8 list \<Rightarrow> u8 \<Rightarrow> u8 \<Rightarrow> u8 \<Rightarrow> nat \<Rightarrow> qa_state res" where
  "bearer_mod_delete_filters km s ct data bid linked no_filters p =
     rbind (get_pdn s ct) (\<lambda>pd.
     rbind (if bid \<noteq> linked then find_dedicated pd bid else Inr 0) (\<lambda>i.
     rbind (Qa_BearerMod_Process_Filter_Del (tft_recvd s) (drop p data) no_filters) (\<lambda>(_, r).
     rbind (Qa_Delete_Filter km (s\<lparr>tft_recvd := r\<rparr>) r i no_filters ct (if bid = linked then 1 else 0))
       (\<lambda>(_, s'). Inr s'))))"

text \<open>\<open>Qa_Bearer_Delete\<close> ignores the linked bearer's id it is given.\<close>

definition Qa_Process_Bearer_Delete :: "qa_state \<Rightarrow> tTFT_RECVD \<Rightarrow> nat \<Rightarrow> (amp_ret \<times> qa_state) res" where
  "Qa_Process_Bearer_Delete s r ct = Qa_Bearer_Delete s (rcv_EpsBearerId r) ct"

text \<open>
  The TFT part of the message for network \<open>ct\<close>: the operation byte splits into operation
  code, E bit and number of filters, and selects the operation.
\<close>

definition bearer_mod_switch ::
  "allocator \<Rightarrow> qa_state \<Rightarrow> nat \<Rightarrow> u8 list \<Rightarrow> u8 \<Rightarrow> u8 \<Rightarrow> nat \<Rightarrow> u8 \<Rightarrow> nat \<Rightarrow> qa_state res" where
  "bearer_mod_switch km s ct data bid linked qos u8Qoslen p =
     rbind (arr_get data p) (\<lambda>tft_length.
     rbind (arr_get data (p + 1)) (\<lambda>junk.
     let op = drop_bit 5 junk; no_filters = junk AND 0x0F; offsetlen = ucast tft_length;
         s1 = s\<lparr>tft_recvd := (tft_recvd s)\<lparr>rcv_TFTOpCode := op, rcv_NumFilters := no_filters,
                                 rcv_EBit := drop_bit 4 (junk AND 0x10)\<rparr>\<rparr> in
     if op = TD_TFT_OP_CODE_CREATE_NEW_TFT then
       bearer_mod_create km s1 ct data bid linked qos u8Qoslen offsetlen (p + 2)
     else if op = TD_TFT_OP_CODE_DELETE_EXISTING_TFT then
       rbind (Qa_Process_Bearer_Delete s1 (tft_recvd s1) ct) (\<lambda>(_, s'). Inr s')
     else if op = TD_TFT_OP_CODE_ADD_PKT_FLTR_TO_EXISTING_TFT then
       bearer_mod_add km s1 ct data bid linked offsetlen (p + 2)
     else if op = TD_TFT_OP_CODE_REPLACE_PKT_FLTR_TO_EXISTING_TFT then
       bearer_mod_replace s1 ct data bid linked no_filters offsetlen (p + 2)
     else if op = TD_TFT_OP_CODE_DELETE_PKT_FLTR_FROM_EXISTING_TFT then
       bearer_mod_delete_filters km s1 ct data bid linked no_filters (p + 2)
     else Inr s1))"

text \<open>
  The handler up to its reply; it returns early, with \<open>eAMP_RET_FAIL\<close>, only when no
  network has the linked bearer. The byte order of \<open>u16Length\<close> is fixed for the log only.
\<close>

definition bearer_mod_body ::
  "allocator \<Rightarrow> qa_state \<Rightarrow> AMP_HOST_MAC_MSG_S \<Rightarrow> u8 \<Rightarrow> (amp_ret \<times> qa_state) res" where
  "bearer_mod_body km s msg eMsgId =
     (let data = u8Data msg; s0 = s\<lparr>tft_recvd := zero_tft_recvd\<rparr> in
      rbind (arr_get data 0) (\<lambda>bid.
      rbind (arr_get data 1) (\<lambda>linked.
      if bid = linked \<and> (eMsgId = ESM_BEARER_ALLOC_IND \<or> eMsgId = ESM_BEARER_ALLOC_CNF) then
        rbind (QA_ProcessRegConf_Lte km s0 msg) (\<lambda>(_, s'). Inr (eAMP_RET_SUCCESS, s'))
      else
        (case find_classifier_table s0 linked of
           None \<Rightarrow> Inr (eAMP_RET_FAIL, s0)
         | Some ct \<Rightarrow>
             let s1 = s0\<lparr>tft_recvd := (tft_recvd s0)\<lparr>rcv_EpsBearerId := bid\<rparr>\<rparr> in
             rbind (bearer_mod_qos eMsgId data) (\<lambda>(qos, u8Qoslen, p).
             rbind (bearer_mod_tft eMsgId data p) (\<lambda>tft.
             rbind (case tft of
                      None \<Rightarrow> Inr s1
                    | Some p1 \<Rightarrow> bearer_mod_switch km s1 ct data bid linked qos u8Qoslen p1) (\<lambda>s'.
             Inr (eAMP_RET_SUCCESS, s'))))))))"

definition QA_Process_Bearer_Mod ::
  "allocator \<Rightarrow> bool \<Rightarrow> qa_module \<Rightarrow> AMP_HOST_MAC_MSG_S \<Rightarrow> u8 \<Rightarrow> (amp_ret \<times> qa_module) res" where
  "QA_Process_Bearer_Mod km km_msg m msg eMsgId =
     rbind (bearer_mod_body km (agent m) msg eMsgId) (\<lambda>(eRet, s).
       let m1 = m\<lparr>agent := s\<rparr> in
       if eRet = eAMP_RET_FAIL then Inr (eRet, m1)
       else
         rbind (arr_get (u8Data msg) 0) (\<lambda>bearerid.
         rbind (if eMsgId = ESM_BEARER_ALLOC_IND then send_rsp km_msg m1 msg ESM_BEARER_ALLOC_RSP bearerid
                else if eMsgId = ESM_BEARER_MOD_IND then send_rsp km_msg m1 msg ESM_BEARER_MOD_RSP bearerid
                else Inr m1) (\<lambda>m2.
         Inr (eAMP_RET_SUCCESS, m2))))"

section \<open>Release and detach\<close>

text \<open>The search through all networks stops at the first one that deletes the bearer.\<close>

fun bearer_rel_loop :: "qa_state \<Rightarrow> u8 \<Rightarrow> amp_ret \<Rightarrow> nat list \<Rightarrow> (amp_ret \<times> qa_state) res" where
  "bearer_rel_loop s bearer_id eRet [] = Inr (eRet, s)"
| "bearer_rel_loop s bearer_id eRet (ct # cts) =
     (if eRet \<noteq> eAMP_RET_FAIL then Inr (eRet, s)
      else
        rbind (get_pdn s ct) (\<lambda>pd.
        rbind (if u8EpsBearerId (tDefaultBearer pd) \<noteq> 0 then Qa_Bearer_Delete s bearer_id ct else Inr (eRet, s))
          (\<lambda>(eRet', s'). bearer_rel_loop s' bearer_id eRet' cts)))"

definition QA_Process_Bearer_Rel_Cnf ::
  "qa_state \<Rightarrow> AMP_HOST_MAC_MSG_S \<Rightarrow> (amp_ret \<times> qa_state) res" where
  "QA_Process_Bearer_Rel_Cnf s msg =
     rbind (arr_get (u8Data msg) 0) (\<lambda>bearer_id.
     bearer_rel_loop s bearer_id eAMP_RET_FAIL [0..<MAX_PDNS])"

text \<open>The reply carries the local variable \<open>bearerid\<close>, which is never set.\<close>

definition QA_Process_Bearer_Rel ::
  "bool \<Rightarrow> qa_module \<Rightarrow> AMP_HOST_MAC_MSG_S \<Rightarrow> (amp_ret \<times> qa_module) res" where
  "QA_Process_Bearer_Rel km_msg m msg =
     rbind (arr_get (u8Data msg) 0) (\<lambda>bid.
     rbind (arr_get (u8Data msg) 1) (\<lambda>linked.
     case find_classifier_table (agent m) linked of
       None \<Rightarrow> Inr (eAMP_RET_FAIL, m)
     | Some ct \<Rightarrow>
         rbind (Qa_Bearer_Delete (agent m) bid ct) (\<lambda>(eRet, s).
         rbind (send_rsp km_msg (m\<lparr>agent := s\<rparr>) msg ESM_BEARER_REL_RSP 0) (\<lambda>m'.
         Inr (eRet, m')))))"

definition QA_ProcessDetachConf_Lte ::
  "qa_module \<Rightarrow> AMP_HOST_MAC_MSG_S \<Rightarrow> (amp_ret \<times> qa_module) res" where
  "QA_ProcessDetachConf_Lte m msg =
     rbind (arr_get (u8Data msg) 0) (\<lambda>bearer_id.
     case find_classifier_table (agent m) bearer_id of
       None \<Rightarrow> Inr (eAMP_RET_FAIL, m)
     | Some ct \<Rightarrow>
         rbind (Qa_Bearer_Delete (agent m) bearer_id ct) (\<lambda>(eRet, s).
         Inr (eRet, m\<lparr>agent := s, sSfTransactionTable := map of_nat [0..<AMP_WIMAX_MAX_SF_TRANSACTION]\<rparr>)))"

section \<open>Dispatch\<close>

text \<open>
  The handlers of requests and rejections do nothing and return success, and so does an
  unknown message.
\<close>

definition on_agent ::
  "qa_module \<Rightarrow> (amp_ret \<times> qa_state) res \<Rightarrow> (amp_ret \<times> qa_module) res" where
  "on_agent m r = rbind r (\<lambda>(eRet, s). Inr (eRet, m\<lparr>agent := s\<rparr>))"

definition QA_HandleUserMsg ::
  "allocator \<Rightarrow> qa_module \<Rightarrow> AMP_HOST_MAC_MSG_S \<Rightarrow> (amp_ret \<times> qa_module) res" where
  "QA_HandleUserMsg km m msg =
     (let ty = u8MsgSubtype msg in
      if ty = eIPC_LTE_SP_QA_REGISTER_CNF then on_agent m (QA_ProcessRegConf_Lte km (agent m) msg)
      else if ty = eIPC_LTE_SP_QA_DETACH_CNF then QA_ProcessDetachConf_Lte m msg
      else Inr (eAMP_RET_SUCCESS, m))"

definition QA_ProcessMacMsg ::
  "allocator \<Rightarrow> bool \<Rightarrow> qa_module \<Rightarrow> AMP_HOST_MAC_MSG_S \<Rightarrow> (amp_ret \<times> qa_module) res" where
  "QA_ProcessMacMsg km km_msg m msg =
     (let eMacMsg = u8MsgSubtype msg in
      if eMacMsg = ESM_PDN_CONN_CNF then on_agent m (QA_Process_PdnConn_Cnf km (agent m) msg)
      else if eMacMsg = ESM_PDN_CONN_REL_CNF then QA_ProcessDetachConf_Lte m msg
      else if eMacMsg = ESM_BEARER_ALLOC_CNF \<or> eMacMsg = ESM_BEARER_ALLOC_IND \<or>
              eMacMsg = ESM_BEARER_MOD_CNF \<or> eMacMsg = ESM_BEARER_MOD_IND
        then QA_Process_Bearer_Mod km km_msg m msg eMacMsg
      else if eMacMsg = ESM_BEARER_REL_CNF then on_agent m (QA_Process_Bearer_Rel_Cnf (agent m) msg)
      else if eMacMsg = ESM_BEARER_REL_IND then QA_Process_Bearer_Rel km_msg m msg
      else Inr (eAMP_RET_SUCCESS, m))"

end
