(* ===== verification/QaHandlers.thy ===== *)
theory QaHandlers
  imports QaMsg QaAdd QaDelete
begin

text \<open>
  What the message handlers of theory QaMsg do to a well-formed agent: the confirmation of
  a packet data network installs a network whose table is the match-all filter, an
  allocation message creates a dedicated bearer with exactly the filters it carries and
  queues the reply; the release reply and the registration of a used network show where the
  code departs from that.
\<close>

section \<open>Searching the networks\<close>

lemma find_classifier_table_first:
  assumes "ct < length (gsQa_lte s)" "u8EpsBearerId (tDefaultBearer (gsQa_lte s ! ct)) = b"
    "\<And>i. i < ct \<Longrightarrow> u8EpsBearerId (tDefaultBearer (gsQa_lte s ! i)) \<noteq> b"
  shows "find_classifier_table s b = Some ct"
  unfolding find_classifier_table_def find_Some_iff using assms by (intro exI [of _ ct]) auto

lemma find_classifier_table_Some:
  "find_classifier_table s b = Some ct \<Longrightarrow>
     ct < length (gsQa_lte s) \<and> u8EpsBearerId (tDefaultBearer (gsQa_lte s ! ct)) = b"
  unfolding find_classifier_table_def find_Some_iff by auto

lemma find_classifier_table_recvd [simp]:
  "find_classifier_table (s\<lparr>tft_recvd := r\<rparr>) b = find_classifier_table s b"
  by (simp add: find_classifier_table_def)

section \<open>Default bearers\<close>

lemma addrs_of_first: "addrs_of ps = [] \<Longrightarrow> ps \<noteq> [] \<Longrightarrow> addrs_of (ps[0 := Some t]) = [t]"
  by (cases ps; cases "hd ps") auto

lemma install_default_bearer_refines:
  assumes ok: "qa_ok s ass" and ct: "ct < MAX_PDNS"
    and km: "km (qa_heap s) = Some (t, e0)" "fresh_allocator km"
    and pd: "pdn_ok h pd as" "slots_of (bearers pd) = []"
  shows "\<exists>s' pd'. install_default_bearer km s ct b pd = Inr (eAMP_RET_SUCCESS, s') \<and>
     qa_ok s' (ass[ct := [t]]) \<and>
     tables s' (ass[ct := [t]]) = (tables s ass)[ct := [tPacketFilter (match_all_entry b e0)]] \<and>
     gsQa_lte s' = (gsQa_lte s)[ct := pd'] \<and> tft_recvd s' = tft_recvd s \<and>
     u8EpsBearerId (tDefaultBearer pd') = b \<and> u8NumDedicatedBearers pd' = 0 \<and>
     u8PdnType pd' = u8PdnType pd \<and> u8PdnAddress pd' = u8PdnAddress pd"
proof -
  let ?db = "tDefaultBearer pd" and ?h = "(qa_heap s)(t \<mapsto> match_all_entry b e0)"
  let ?db' = "?db\<lparr>u8EpsBearerId := b, u8NumFilters := 1, tPacketFilters := (tPacketFilters ?db)[0 := Some t]\<rparr>"
  let ?pd' = "pd\<lparr>tDefaultBearer := ?db', u8NumDedicatedBearers := 0, u8MatchAll := 1, tClassifierTable := Some t\<rparr>"
  let ?s' = "s\<lparr>qa_heap := ?h, gsQa_lte := (gsQa_lte s)[ct := ?pd']\<rparr>"
  note len = qa_ok_len [OF ok]
  have fr: "qa_heap s t = None" using km by (auto simp: fresh_allocator_def)
  have l0: "length (tPacketFilters ?db) = MAX_FILTERS_PER_TFT"
    using pdn_ok_slots_len [OF pd(1), of 0] by (simp add: bearers_def)
  then have ne: "tPacketFilters ?db \<noteq> []" by (auto simp: max_defs)
  have slots: "slots_of (bearers ?pd') = [t]"
    using pd(2) addrs_of_first [OF _ ne, of t] by (simp add: bearers_def)
  have "pdn_ok ?h ?pd' [t]"
    using pd(1) l0 slots unfolding pdn_ok_def
    by (simp add: bearers_def table_ok_def dlist_def match_all_entry_def sorted_filters_def filters_of_def)
  then have new: "qa_ok ?s' (ass[ct := [t]])"
      "tables ?s' (ass[ct := [t]]) = (tables s ass)[ct := filters_of ?h [t]]"
    by (rule qa_ok_step [OF ok ct]; use fr in auto)+
  have "install_default_bearer km s ct b pd = Inr (eAMP_RET_SUCCESS, ?s')"
    using km(1) l0 len ct by (simp add: install_default_bearer_def max_defs Let_def)
  with new show ?thesis
    by (intro exI [of _ ?s'] exI [of _ ?pd']) (simp add: filters_of_def)
qed

lemma copy_bytes_prefix:
  "length xs \<le> length dst \<Longrightarrow> off = length pre \<Longrightarrow> n = length xs \<Longrightarrow>
     copy_bytes dst (pre @ xs @ post) off n = Inr (xs @ drop (length xs) dst)"
  by (simp add: copy_bytes_def)

text \<open>
  C34. A confirmation of a packet data network: when a network is free (default bearer id 0)
  and records no filters, the first free network becomes the confirmed one. The state stays
  well formed, the table of the network is the match-all filter of the bearer alone, the
  other tables are as before, and bearer id, type and address are those of the message. The
  network is then found under its bearer id unless a network in front has the same id.
\<close>

theorem QA_Process_PdnConn_Cnf_installs:
  assumes "qa_ok s ass" and "find_classifier_table s 0 = Some ct"
    and "slots_of (bearers (gsQa_lte s ! ct)) = []"
    and "km (qa_heap s) = Some (t, e0)" and "fresh_allocator km"
    and "u8Data msg = b # of_nat (length qos) # qos @ of_nat (length address + 1) # ty # address @ rest"
    and "length qos < 256" and "length address \<le> 12"
  shows "\<exists>s'. QA_Process_PdnConn_Cnf km s msg = Inr (eAMP_RET_SUCCESS, s') \<and>
     qa_ok s' (ass[ct := [t]]) \<and>
     tables s' (ass[ct := [t]]) = (tables s ass)[ct := [tPacketFilter (match_all_entry b e0)]] \<and>
     u8PdnType (gsQa_lte s' ! ct) = ty \<and> take (length address) (u8PdnAddress (gsQa_lte s' ! ct)) = address \<and>
     ((\<forall>i < ct. u8EpsBearerId (tDefaultBearer (gsQa_lte s ! i)) \<noteq> b) \<longrightarrow> find_classifier_table s' b = Some ct)"
proof -
  let ?pd = "gsQa_lte s ! ct" and ?d = "u8Data msg" and ?q = "length qos"
  have ct: "ct < length (gsQa_lte s)" "ct < MAX_PDNS"
    using find_classifier_table_Some [OF assms(2)] qa_ok_len [OF assms(1)] by auto
  have pd: "pdn_ok (qa_heap s) ?pd (ass ! ct)" using qa_ok_pdn [OF assms(1) ct(2)] .
  then have la: "length (u8PdnAddress ?pd) = 12" by (simp add: pdn_ok_def)
  let ?ad = "address @ drop (length address) (u8PdnAddress ?pd)"
  let ?pd1 = "?pd\<lparr>tDefaultBearer := (tDefaultBearer ?pd)\<lparr>tHifQos := zero_qos\<rparr>, u8PdnType := ty, u8PdnAddress := ?ad\<rparr>"
  have u: "unat (of_nat ?q :: u8) = ?q" "unat (of_nat (length address + 1) :: u8) = length address + 1"
    using assms(7,8) by (auto intro!: unat_of_nat_u8 simp del: of_nat_add of_nat_Suc Suc_eq_plus1)
  have ad: "copy_bytes (u8PdnAddress ?pd) ?d (?q + 4) (length address) = Inr ?ad"
    using copy_bytes_prefix [of address "u8PdnAddress ?pd" "?q + 4"
        "b # of_nat ?q # qos @ [of_nat (length address + 1), ty]" _ rest] assms(8) la
    by (simp add: assms(6) del: of_nat_add)
  have "pdn_ok (qa_heap s) ?pd1 (ass ! ct)" "slots_of (bearers ?pd1) = []"
    using pd la assms(3,8) by (simp_all add: pdn_ok_def bearers_def)
  from install_default_bearer_refines [OF assms(1) ct(2) assms(4,5) this, of b] obtain s' pd' where
    i: "install_default_bearer km s ct b ?pd1 = Inr (eAMP_RET_SUCCESS, s')" "qa_ok s' (ass[ct := [t]])"
      "tables s' (ass[ct := [t]]) = (tables s ass)[ct := [tPacketFilter (match_all_entry b e0)]]"
      "gsQa_lte s' = (gsQa_lte s)[ct := pd']" "u8EpsBearerId (tDefaultBearer pd') = b"
      "u8PdnType pd' = ty" "u8PdnAddress pd' = ?ad" by auto
  have "QA_Process_PdnConn_Cnf km s msg = install_default_bearer km s ct b ?pd1"
    using assms(2) ct ad u by (simp add: QA_Process_PdnConn_Cnf_def assms(6) nth_append add.commute del: of_nat_add)
  moreover have "find_classifier_table s' b = Some ct"
    if "\<forall>i < ct. u8EpsBearerId (tDefaultBearer (gsQa_lte s ! i)) \<noteq> b"
    using that ct i(4,5) by (intro find_classifier_table_first) auto
  ultimately show ?thesis using i ct by (intro exI [of _ s']) auto
qed

lemma qa_init_free:
  "find_classifier_table qa_init 0 = Some 0" "slots_of (bearers (gsQa_lte qa_init ! 0)) = []"
  by (rule find_classifier_table_first)
     (simp_all add: qa_init_def max_defs zero_pdn_def zero_tft_def bearers_def slots_of_def)

definition mac_msg :: "u8 \<Rightarrow> u8 list \<Rightarrow> AMP_HOST_MAC_MSG_S" where
  "mac_msg ty data = \<lparr>u16HostMsgType = 0, u16Context = 7, u8MacMsgType = LTE_HMM_NAS, u8MsgSubtype = ty,
     u16Length = bswap16 (of_nat (length data)), u8Data = data\<rparr>"

theorem QA_Process_PdnConn_Cnf_installs_witness:
  "\<exists>s'. QA_Process_PdnConn_Cnf next_addr qa_init (mac_msg ESM_PDN_CONN_CNF [5, 1, 9, 5, 1, 10, 0, 0, 1]) =
       Inr (eAMP_RET_SUCCESS, s') \<and> qa_ok s' ((replicate MAX_PDNS [])[0 := [1]]) \<and>
     take 4 (u8PdnAddress (gsQa_lte s' ! 0)) = [10, 0, 0, 1] \<and> find_classifier_table s' 5 = Some 0"
proof -
  let ?e = "\<lparr>tPacketFilter = zero_filter, tNextPF = None, tPrevPF = None\<rparr>"
  have km: "next_addr (qa_heap qa_init) = Some (1, ?e)" by (simp add: next_addr_def qa_init_def)
  have d: "u8Data (mac_msg ESM_PDN_CONN_CNF [5, 1, 9, 5, 1, 10, 0, 0, 1]) =
      5 # of_nat (length [9 :: u8]) # [9] @ of_nat (length [10, 0, 0, 1 :: u8] + 1) # 1 # [10, 0, 0, 1] @ []"
    by (simp add: mac_msg_def)
  have l: "length [10, 0, 0, 1 :: u8] = 4" "length [9 :: u8] = 1" by simp_all
  show ?thesis
    using QA_Process_PdnConn_Cnf_installs [OF qa_init_ok qa_init_free km next_addr_fresh d] unfolding l by auto
qed

section \<open>Creating a dedicated bearer\<close>

text \<open>What adding filters leaves alone: bearer ids, QoS and the number of bearers.\<close>

definition bearer_info :: "tPDN_CLASSIFIER \<Rightarrow> u8 \<times> (u8 \<times> tHIF_QOS) list" where
  "bearer_info pd = (u8NumDedicatedBearers pd, map (\<lambda>b. (u8EpsBearerId b, tHifQos b)) (bearers pd))"

abbreviation infos :: "qa_state \<Rightarrow> (u8 \<times> (u8 \<times> tHIF_QOS) list) list" where
  "infos s \<equiv> map bearer_info (gsQa_lte s)"

lemma put_pdn_info:
  assumes "put_pdn s ct pd = Inr s'" "get_pdn s0 ct = Inr pd0" "bearer_info pd = bearer_info pd0"
    "gsQa_lte s = gsQa_lte s0"
  shows "infos s' = infos s0"
proof -
  have "ct < length (gsQa_lte s0)" "pd0 = gsQa_lte s0 ! ct" "gsQa_lte s' = (gsQa_lte s0)[ct := pd]"
    using assms by (auto simp: put_pdn_def get_pdn_def rbind_eq_Inr_iff arr_put_Inr_iff arr_get_Inr_iff)
  with assms(3) show ?thesis by (simp add: map_update_same)
qed

lemma put_tft_info:
  assumes "put_tft s ct bidx dflt tft = Inr s'" "get_tft s ct bidx dflt = Inr tft0"
    "u8EpsBearerId tft = u8EpsBearerId tft0" "tHifQos tft = tHifQos tft0"
  shows "infos s' = infos s"
proof -
  obtain pd where pd: "get_pdn s ct = Inr pd" using assms(1) by (auto simp: put_tft_def rbind_eq_Inr_iff)
  show ?thesis
  proof (cases "dflt = 1")
    case True
    with assms pd show ?thesis
      by (auto simp: put_tft_def get_tft_def bearer_info_def bearers_def intro!: put_pdn_info)
  next
    case False
    with assms pd obtain ds where ds: "arr_put (tDedicatedBearer pd) bidx tft = Inr ds"
      "put_pdn s ct (pd\<lparr>tDedicatedBearer := ds\<rparr>) = Inr s'" "arr_get (tDedicatedBearer pd) bidx = Inr tft0"
      by (auto simp: put_tft_def get_tft_def rbind_eq_Inr_iff)
    then have "map (\<lambda>b. (u8EpsBearerId b, tHifQos b)) ds = map (\<lambda>b. (u8EpsBearerId b, tHifQos b)) (tDedicatedBearer pd)"
      using assms(3,4) by (auto simp: arr_put_Inr_iff arr_get_Inr_iff intro!: map_update_same)
    then show ?thesis using put_pdn_info [OF ds(2) pd] by (simp add: bearer_info_def bearers_def)
  qed
qed

lemma record_filter_info: "qa_record_filter s ct bidx dflt t = Inr (r, s') \<Longrightarrow> infos s' = infos s"
  by (auto simp: qa_record_filter_def rbind_eq_Inr_iff intro!: put_tft_info split: option.splits)

lemma add_one_info: "qa_add_one km s ct bidx dflt f = Inr (r, s') \<Longrightarrow> infos s' = infos s"
proof -
  assume "qa_add_one km s ct bidx dflt f = Inr (r, s')"
  then obtain pd x where pd: "get_pdn s ct = Inr pd" and
    x: "(case x of None \<Rightarrow> Inr (eAMP_RET_FAIL, s) | Some (h', tab', t) \<Rightarrow>
          rbind (put_pdn (s\<lparr>qa_heap := h'\<rparr>) ct (pd\<lparr>tClassifierTable := tab'\<rparr>)) (\<lambda>s1.
          qa_record_filter s1 ct bidx dflt t)) = Inr (r, s')"
    unfolding qa_add_one_def rbind_eq_Inr_iff by blast
  show ?thesis
  proof (cases x)
    case (Some y)
    with x obtain h' tab' t s1 where s1: "put_pdn (s\<lparr>qa_heap := h'\<rparr>) ct (pd\<lparr>tClassifierTable := tab'\<rparr>) = Inr s1"
      "qa_record_filter s1 ct bidx dflt t = Inr (r, s')"
      by (cases y) (auto simp: rbind_eq_Inr_iff)
    have "infos s1 = infos s" using put_pdn_info [OF s1(1) pd] by (simp add: bearer_info_def bearers_def)
    with record_filter_info [OF s1(2)] show ?thesis by simp
  qed (use x in simp)
qed

lemma add_loop_info: "qa_add_loop km s ct bidx dflt fs = Inr (r, s') \<Longrightarrow> infos s' = infos s"
proof (induction fs arbitrary: s)
  case (Cons f fs)
  then show ?case by (auto simp: rbind_eq_Inr_iff split: if_splits dest!: add_one_info)
qed simp

lemma add_sort_dedicated_info: "Qa_Add_SortTFT km s r bidx ct 0 = Inr (ret, s') \<Longrightarrow> infos s' = infos s"
  by (auto simp: Qa_Add_SortTFT_def rbind_eq_Inr_iff dest!: add_loop_info)

text \<open>Changing members of a network other than its table and its slots.\<close>

lemma qa_ok_update_pdn:
  assumes ok: "qa_ok s ass" and ct: "ct < MAX_PDNS" and pd: "pdn_ok (qa_heap s) pd (ass ! ct)"
    and s': "qa_heap s' = qa_heap s" "gsQa_lte s' = (gsQa_lte s)[ct := pd]"
  shows "qa_ok s' ass" "tables s' ass = tables s ass"
proof -
  have "qa_ok s' (ass[ct := ass ! ct]) \<and>
      tables s' (ass[ct := ass ! ct]) = (tables s ass)[ct := filters_of (qa_heap s) (ass ! ct)]"
    using qa_ok_shrink [OF ok ct pd _ _ _ s'] by simp
  then show "qa_ok s' ass" "tables s' ass = tables s ass" by (simp_all add: tables_def s'(1))
qed

lemma pdn_ok_set_bearer:
  assumes ok: "pdn_ok h pd as" and k: "k < length (bearers pd)"
    and tft: "tPacketFilters tft = tPacketFilters (bearers pd ! k)"
  shows "pdn_ok h ((set_bearer pd k tft)\<lparr>u8NumDedicatedBearers := n\<rparr>) as"
proof -
  have b: "bearers ((set_bearer pd k tft)\<lparr>u8NumDedicatedBearers := n\<rparr>) = (bearers pd)[k := tft]"
    by (simp add: bearers_def set_bearer_def split: nat.splits)
  have "slots_of ((bearers pd)[k := tft]) = slots_of (bearers pd)"
    using k tft by (simp add: slots_of_def map_update_same)
  with ok k tft b show ?thesis by (auto simp: pdn_ok_def list_all_length nth_list_update)
qed

text \<open>The operation byte of a TFT: operation in the upper three bits, count in the lower four.\<close>

lemma create_op_byte:
  assumes "n \<le> 15"
  shows "drop_bit 5 (0x20 OR of_nat n :: u8) = 1" "(0x20 OR of_nat n :: u8) AND 0x0F = of_nat n"
    "drop_bit 4 ((0x20 OR of_nat n :: u8) AND 0x10) = 0"
proof -
  have "n \<in> {0, 1, 2, 3, 4, 5, 6, 7, 8, 9, 10, 11, 12, 13, 14, 15}"
    using assms unfolding insert_iff empty_iff by presburger
  then show "drop_bit 5 (0x20 OR of_nat n :: u8) = 1" "(0x20 OR of_nat n :: u8) AND 0x0F = of_nat n"
      "drop_bit 4 ((0x20 OR of_nat n :: u8) AND 0x10) = 0"
    by auto
qed

text \<open>The filters a message of encoded filters leaves in the cleared \<open>tft_recvd\<close>.\<close>

definition sent_filters :: "u8 \<Rightarrow> tft_filter list \<Rightarrow> tPACKET_FILTER list" where
  "sent_filters b ts = map (\<lambda>t. sem_filter b t zero_filter) ts"

lemma parse_recvd:
  assumes "list_all tft_filter_wf ts" "length ts \<le> 15" "length (enc_filters ts) < 255"
    and r: "rcv_PacketFilters r = replicate MAX_FILTERS_PER_TFT zero_filter" "rcv_NumFilters r = of_nat (length ts)"
  shows "\<exists>r' n. Qa_BearerMod_Process_Filter r (ucast (of_nat (length (enc_filters ts) + 1) :: u8)) (enc_filters ts @ rest) b =
      Inr (eAMP_RET_SUCCESS, r', n) \<and> recvd_filters r' = sent_filters b ts"
proof -
  have z: "ucast (of_nat (length (enc_filters ts) + 1) :: u8) = (of_nat (length (enc_filters ts) + 1) :: u16)"
    using assms(3) by (simp add: word_unat_eq_iff unsigned_ucast_eq unat_of_nat_u8 unat_of_nat_u16
        take_bit_nat_eq_self del: of_nat_add of_nat_Suc Suc_eq_plus1)
  have l: "length ts \<le> length (rcv_PacketFilters r)" using assms(2) r(1) by (simp add: max_defs)
  from process_filter_enc [OF assms(1) l, of rest b] assms(3) obtain fs' where
    p: "Qa_BearerMod_Process_Filter r (of_nat (length (enc_filters ts) + 1)) (enc_filters ts @ rest) b =
        Inr (eAMP_RET_SUCCESS, r\<lparr>rcv_PacketFilters := fs'\<rparr>, of_nat (length ts))"
      "length fs' = MAX_FILTERS_PER_TFT"
      "\<forall>i < length ts. fs' ! i = sem_filter b (ts ! i) (rcv_PacketFilters r ! i)"
    using r(1) by auto
  have "take (length ts) fs' = sent_filters b ts"
    using p(2,3) r(1) assms(2) by (intro nth_equalityI) (auto simp: sent_filters_def max_defs)
  then have "recvd_filters (r\<lparr>rcv_PacketFilters := fs'\<rparr>) = sent_filters b ts"
    using r(2) assms(2) by (simp add: recvd_filters_def unat_of_nat_u8)
  with p(1) show ?thesis unfolding z by blast
qed

lemma process_qos_opt:
  assumes "length qos \<le> 9"
  shows "\<exists>ret tft'. (if 0 < (of_nat (length qos) :: u8)
       then Qa_BearerMod_Process_QOS tft (of_nat (length qos) # qos @ rest) else Inr (eAMP_RET_SUCCESS, tft)) = Inr (ret, tft') \<and>
     qos_bytes (tHifQos tft') = qos @ drop (length qos) (qos_bytes (tHifQos tft)) \<and>
     u8EpsBearerId tft' = u8EpsBearerId tft \<and> tPacketFilters tft' = tPacketFilters tft"
proof (cases "qos = []")
  case False
  then have "0 < (of_nat (length qos) :: u8)"
    using assms unat_of_nat_u8 [of "length qos"] by (simp add: word_less_nat_alt)
  with process_qos [OF assms, of tft rest] show ?thesis by auto
qed simp

text \<open>
  The create operation for a dedicated bearer: the bearer at position \<open>n\<close> gets id and QoS,
  the number of bearers grows, and the parsed filters go into the table.
\<close>

lemma bearer_mod_create_refines:
  assumes ok: "qa_ok s ass" and ct: "ct < MAX_PDNS" and km: "fresh_allocator km" "total_allocator km"
    and new: "b \<noteq> linked" and n: "n = unat (u8NumDedicatedBearers (gsQa_lte s ! ct))" "n < MAX_DEDICATED_BEARER_PER_PDN"
    and qos: "drop q data = of_nat (length qos) # qos @ rest0" "length qos \<le> 9"
    and parse: "Qa_BearerMod_Process_Filter (tft_recvd s) offsetlen (drop p data) b = Inr (eAMP_RET_SUCCESS, r, k)"
    and room: "length (recvd_filters r) \<le> free_slots (tft_at s ct (Suc n))"
  shows "\<exists>s' as'. bearer_mod_create km s ct data b linked q (of_nat (length qos)) offsetlen p = Inr s' \<and>
     qa_ok s' (ass[ct := as']) \<and>
     tables s' (ass[ct := as']) = (tables s ass)[ct := fold ins_filter (recvd_filters r) (tables s ass ! ct)] \<and>
     unat (u8NumDedicatedBearers (gsQa_lte s' ! ct)) = Suc n \<and>
     u8EpsBearerId (tft_at s' ct (Suc n)) = b \<and>
     qos_bytes (tHifQos (tft_at s' ct (Suc n))) = qos @ drop (length qos) (qos_bytes (tHifQos (tft_at s ct (Suc n))))"
proof -
  let ?pd = "gsQa_lte s ! ct" and ?tft = "tft_at s ct (Suc n)"
  have len: "ct < length (gsQa_lte s)" "length ass = MAX_PDNS" "ct < length (tables s ass)"
    using qa_ok_len [OF ok] ct by (simp_all add: tables_def)
  have pd: "pdn_ok (qa_heap s) ?pd (ass ! ct)" using qa_ok_pdn [OF ok ct] .
  have kb: "bsel n 0 = Suc n" "Suc n < length (bearers ?pd)" using pd n(2) by (simp_all add: bsel_def pdn_ok_def)
  obtain ret tft1 where q1: "(if 0 < (of_nat (length qos) :: u8)
       then Qa_BearerMod_Process_QOS (?tft\<lparr>u8EpsBearerId := b\<rparr>) (drop q data)
       else Inr (eAMP_RET_SUCCESS, ?tft\<lparr>u8EpsBearerId := b\<rparr>)) = Inr (ret, tft1)"
     "qos_bytes (tHifQos tft1) = qos @ drop (length qos) (qos_bytes (tHifQos ?tft))"
     "u8EpsBearerId tft1 = b" "tPacketFilters tft1 = tPacketFilters ?tft"
    using process_qos_opt [OF qos(2), of "?tft\<lparr>u8EpsBearerId := b\<rparr>" rest0]
    unfolding qos(1) [symmetric] by (elim exE conjE) (rule that, assumption, simp_all)
  let ?pd1 = "set_bearer ?pd (Suc n) tft1"
  let ?c = "u8NumDedicatedBearers ?pd + 1"
  let ?pd2 = "?pd1\<lparr>u8NumDedicatedBearers := ?c\<rparr>"
  let ?s2 = "s\<lparr>gsQa_lte := (gsQa_lte s)[ct := ?pd2]\<rparr>"
  let ?s3 = "?s2\<lparr>tft_recvd := r\<rparr>"
  have c: "unat ?c = Suc n" using n by (simp add: unat_word_ariths max_defs)
  have "pdn_ok (qa_heap s) ?pd2 (ass ! ct)"
    using pdn_ok_set_bearer [OF pd kb(2)] q1(4) by (simp add: tft_at_def)
  then have ok3: "qa_ok ?s3 ass" "tables ?s3 ass = tables s ass" using qa_ok_update_pdn [OF ok ct] by simp_all
  have b3: "tft_at ?s3 ct (Suc n) = tft1"
    using len kb(2) by (simp add: tft_at_def bearers_def set_bearer_def)
  have room3: "length (recvd_filters r) \<le> free_slots (tft_at ?s3 ct (bsel n 0))"
    unfolding kb(1) b3 using room q1(4) by (simp add: free_slots_def)
  have "bsel n 0 \<le> MAX_DEDICATED_BEARER_PER_PDN" using kb(1) n(2) by simp
  from add_sort_tft [OF ok3(1) ct km(1) this, of r] obtain ret' s' as' m where
    a: "Qa_Add_SortTFT km ?s3 r n ct 0 = Inr (ret', s')" "qa_ok s' (ass[ct := as'])"
      "tables s' (ass[ct := as']) = (tables s ass)[ct := fold ins_filter (take m (recvd_filters r))
          (filters_of (qa_heap s) (ass ! ct))]"
      "m = length (recvd_filters r)"
    using km(2) room3 ok3(2) by (auto simp: add_base_def)
  have "get_tft s ct n 0 = Inr ?tft" using get_tft_bearers [of ct s n 0] len kb by (simp add: tft_at_def)
  moreover have "put_tft s ct n 0 tft1 = Inr (s\<lparr>gsQa_lte := (gsQa_lte s)[ct := ?pd1]\<rparr>)"
    using put_tft_bearers [of ct s n 0] len kb by simp
  moreover have "u8NumDedicatedBearers ?pd1 = u8NumDedicatedBearers ?pd" by (simp add: set_bearer_def)
  ultimately have run: "bearer_mod_create km s ct data b linked q (of_nat (length qos)) offsetlen p = Inr s'"
    using len new q1(1) parse a(1) by (simp add: bearer_mod_create_def Let_def flip: n(1))
  have i: "bearer_info (gsQa_lte s' ! ct) = bearer_info ?pd2"
    using arg_cong [OF add_sort_dedicated_info [OF a(1)], of "\<lambda>l. l ! ct"] len qa_ok_len(1) [OF a(2)] ct by simp
  then have "u8NumDedicatedBearers (gsQa_lte s' ! ct) = ?c" by (simp add: bearer_info_def)
  moreover have "(u8EpsBearerId (tft_at s' ct (Suc n)), tHifQos (tft_at s' ct (Suc n))) = (b, tHifQos tft1)"
    using arg_cong [OF i, of "\<lambda>x. snd x ! Suc n"] q1(3) kb(2) b3 len qa_ok_pdn [OF a(2) ct] n(2)
    by (simp add: bearer_info_def tft_at_def pdn_ok_def)
  ultimately show ?thesis using run a c q1(2) len by (auto simp: tables_def)
qed

lemma bearer_mod_switch_create:
  assumes "arr_get data p = Inr l" "arr_get data (p + 1) = Inr j" "drop_bit 5 j = 1"
  shows "bearer_mod_switch km s ct data b linked q n p =
     bearer_mod_create km (s\<lparr>tft_recvd := (tft_recvd s)\<lparr>rcv_TFTOpCode := 1, rcv_NumFilters := j AND 0x0F,
         rcv_EBit := drop_bit 4 (j AND 0x10)\<rparr>\<rparr>) ct data b linked q n (ucast l) (p + 2)"
  using assms by (simp add: bearer_mod_switch_def tft_op_defs Let_def)

text \<open>The reply a handler queues.\<close>

definition rsp_msg :: "AMP_HOST_MAC_MSG_S \<Rightarrow> u8 \<Rightarrow> u8 \<Rightarrow> AMP_HOST_MAC_MSG_S" where
  "rsp_msg msg subtype b =
     \<lparr>u16HostMsgType = bswap16 eMAC_HDR_HOST_MSG_LTE_NAS_TFT_MSG, u16Context = bswap16 (u16Context msg),
      u8MacMsgType = LTE_HMM_NAS, u8MsgSubtype = subtype, u16Length = bswap16 2, u8Data = [b, 0]\<rparr>"

lemma send_rsp_room:
  assumes "fifo_inv (h_tx_mgmt_fifo (qa_dev m))"
    "length (fifo_list (h_tx_mgmt_fifo (qa_dev m))) < fifo_cap (h_tx_mgmt_fifo (qa_dev m))"
  shows "\<exists>m'. send_rsp True m msg ty b = Inr m' \<and> agent m' = agent m \<and>
     fifo_inv (h_tx_mgmt_fifo (qa_dev m')) \<and>
     fifo_list (h_tx_mgmt_fifo (qa_dev m')) = fifo_list (h_tx_mgmt_fifo (qa_dev m)) @ [MacMsg (rsp_msg msg ty b)] \<and>
     tx_mgmt_packet_write_cnt (qa_dev m') = tx_mgmt_packet_write_cnt (qa_dev m) + 1"
  using ptr_ring.ins_room [OF assms, of "MacMsg (rsp_msg msg ty b)"]
  by (auto simp: send_rsp_def rsp_msg_def Let_def)

definition alloc_data :: "u8 \<Rightarrow> u8 \<Rightarrow> u8 list \<Rightarrow> tft_filter list \<Rightarrow> u8 list \<Rightarrow> u8 list" where
  "alloc_data b linked qos ts rest =
     b # linked # of_nat (length qos) # qos @
     [TAG_TFA, of_nat (length (enc_filters ts) + 1), 0x20 OR of_nat (length ts)] @ enc_filters ts @ rest"

lemma alloc_data_nth:
  fixes qos ts rest b linked
  defines "d \<equiv> alloc_data b linked qos ts rest" and "q \<equiv> length qos"
  shows "q + 6 \<le> length d" "d ! 0 = b" "d ! Suc 0 = linked" "d ! 2 = of_nat q" "d ! (q + 3) = TAG_TFA"
    "d ! (q + 4) = of_nat (length (enc_filters ts) + 1)" "d ! (q + 5) = 0x20 OR of_nat (length ts)"
    "drop (q + 6) d = enc_filters ts @ rest" "\<exists>rest0. drop 2 d = of_nat q # qos @ rest0"
  by (simp_all add: d_def q_def alloc_data_def nth_append drop_Cons')

text \<open>Reading an allocation indication: the message leads to the create operation.\<close>

lemma bearer_mod_body_alloc:
  assumes find: "find_classifier_table s linked = Some ct" and new: "b \<noteq> linked"
    and data: "u8Data msg = alloc_data b linked qos ts rest" and lens: "length ts \<le> 15" "length qos \<le> 9"
    and create: "bearer_mod_create km (s\<lparr>tft_recvd := zero_tft_recvd\<lparr>rcv_EpsBearerId := b, rcv_TFTOpCode := 1,
        rcv_NumFilters := of_nat (length ts), rcv_EBit := 0\<rparr>\<rparr>) ct (u8Data msg) b linked 2 (of_nat (length qos))
        (ucast (of_nat (length (enc_filters ts) + 1) :: u8)) (length qos + 6) = Inr s'"
  shows "bearer_mod_body km s msg ESM_BEARER_ALLOC_IND = Inr (eAMP_RET_SUCCESS, s')"
proof -
  let ?d = "u8Data msg" and ?q = "length qos"
  note d = alloc_data_nth [where qos = qos and b = b and linked = linked and ts = ts and rest = rest, folded data]
  have e: "?q + 4 + 1 = ?q + 5" "?q + 4 + 2 = ?q + 6" by simp_all
  have g: "arr_get ?d 0 = Inr b" "arr_get ?d 1 = Inr linked" "arr_get ?d 2 = Inr (of_nat ?q)"
      "arr_get ?d (?q + 3) = Inr TAG_TFA"
    using d(1-5) by (auto simp: arr_get_def)
  have g': "arr_get ?d (?q + 4) = Inr (of_nat (length (enc_filters ts) + 1))"
      "arr_get ?d (?q + 4 + 1) = Inr (0x20 OR of_nat (length ts))"
    using d(1) unfolding e by (simp_all only: arr_get_def d(6,7)) auto
  note o = create_op_byte [OF lens(1)]
  have "bearer_mod_switch km (s\<lparr>tft_recvd := zero_tft_recvd\<lparr>rcv_EpsBearerId := b\<rparr>\<rparr>) ct ?d b linked 2 (of_nat ?q) (?q + 4) = Inr s'"
    unfolding bearer_mod_switch_create [OF g' o(1)] o(2,3) e using create by simp
  moreover have "bearer_mod_qos ESM_BEARER_ALLOC_IND ?d = Inr (2, of_nat ?q, ?q + 3)"
    using g(3) lens(2) by (simp add: bearer_mod_qos_def esm_defs unat_of_nat_u8)
  moreover have "bearer_mod_tft ESM_BEARER_ALLOC_IND ?d (?q + 3) = Inr (Some (?q + 4))"
    using g(4) by (simp add: bearer_mod_tft_def)
  ultimately show ?thesis using g(1,2) find new by (simp add: bearer_mod_body_def Let_def)
qed

text \<open>
  C13. A bearer allocation indication, end to end: for a bearer of a known network the
  message of an id, up to nine QoS bytes and up to 15 filters is parsed, a dedicated bearer
  with that id and QoS is added to the network, the table of the network becomes the sorted
  insertion of exactly the filters sent (filters without port ranges, whose upper port the
  parser misreads), the other tables stay, and the positive reply with
  the bearer's id is queued. The network must have a bearer position and the bearer free
  slots left, the reply FIFO room for one message.
\<close>

theorem QA_Process_Bearer_Mod_creates_bearer:
  assumes "qa_ok (agent m) ass" and "find_classifier_table (agent m) linked = Some ct"
    and "fresh_allocator km" and "total_allocator km" and "b \<noteq> linked"
    and "n = unat (u8NumDedicatedBearers (gsQa_lte (agent m) ! ct))" and "n < MAX_DEDICATED_BEARER_PER_PDN"
    and "length ts \<le> free_slots (tft_at (agent m) ct (Suc n))"
    and "u8Data msg = alloc_data b linked qos ts rest"
    and "list_all tft_filter_wf ts" and "length ts \<le> 15" and "length (enc_filters ts) < 255"
    and "length qos \<le> 9"
    and "fifo_inv (h_tx_mgmt_fifo (qa_dev m))"
    and "length (fifo_list (h_tx_mgmt_fifo (qa_dev m))) < fifo_cap (h_tx_mgmt_fifo (qa_dev m))"
  shows "\<exists>m' as'. QA_Process_Bearer_Mod km True m msg ESM_BEARER_ALLOC_IND = Inr (eAMP_RET_SUCCESS, m') \<and>
     qa_ok (agent m') (ass[ct := as']) \<and>
     tables (agent m') (ass[ct := as']) =
       (tables (agent m) ass)[ct := fold ins_filter (sent_filters b ts) (tables (agent m) ass ! ct)] \<and>
     unat (u8NumDedicatedBearers (gsQa_lte (agent m') ! ct)) = Suc n \<and>
     u8EpsBearerId (tft_at (agent m') ct (Suc n)) = b \<and>
     take (length qos) (qos_bytes (tHifQos (tft_at (agent m') ct (Suc n)))) = qos \<and>
     fifo_list (h_tx_mgmt_fifo (qa_dev m')) =
       fifo_list (h_tx_mgmt_fifo (qa_dev m)) @ [MacMsg (rsp_msg msg ESM_BEARER_ALLOC_RSP b)]"
proof -
  let ?d = "u8Data msg" and ?q = "length qos"
  note d = alloc_data_nth [where qos = qos and b = b and linked = linked and ts = ts and rest = rest, folded assms(9)]
  have d0: "arr_get ?d 0 = Inr b" using d(1,2) by (auto simp: arr_get_def)
  have ct: "ct < MAX_PDNS" using find_classifier_table_Some [OF assms(2)] qa_ok_len [OF assms(1)] by simp
  let ?r = "zero_tft_recvd\<lparr>rcv_EpsBearerId := b, rcv_TFTOpCode := 1, rcv_NumFilters := of_nat (length ts), rcv_EBit := 0\<rparr>"
  let ?s1 = "(agent m)\<lparr>tft_recvd := ?r\<rparr>"
  have ok1: "qa_ok ?s1 ass" "tables ?s1 ass = tables (agent m) ass" using assms(1) by (simp_all add: qa_ok_def tables_def)
  obtain r k where p: "Qa_BearerMod_Process_Filter (tft_recvd ?s1) (ucast (of_nat (length (enc_filters ts) + 1) :: u8))
      (drop (?q + 6) ?d) b = Inr (eAMP_RET_SUCCESS, r, k)" "recvd_filters r = sent_filters b ts"
    using parse_recvd [OF assms(10,11,12), of ?r rest b] unfolding d(8) by (auto simp: zero_tft_recvd_def)
  obtain rest0 where q: "drop 2 ?d = of_nat ?q # qos @ rest0" using d(9) by blast
  have room: "length (recvd_filters r) \<le> free_slots (tft_at ?s1 ct (Suc n))"
    using assms(8) p(2) by (simp add: sent_filters_def tft_at_def)
  have n1: "n = unat (u8NumDedicatedBearers (gsQa_lte ?s1 ! ct))" using assms(6) by simp
  from bearer_mod_create_refines [OF ok1(1) ct assms(3,4,5) n1 assms(7) q assms(13) p(1) room] obtain s' as' where
    c: "bearer_mod_create km ?s1 ct ?d b linked 2 (of_nat ?q) (ucast (of_nat (length (enc_filters ts) + 1) :: u8)) (?q + 6) = Inr s'"
      "qa_ok s' (ass[ct := as'])"
      "tables s' (ass[ct := as']) = (tables (agent m) ass)[ct := fold ins_filter (sent_filters b ts) (tables (agent m) ass ! ct)]"
      "unat (u8NumDedicatedBearers (gsQa_lte s' ! ct)) = Suc n" "u8EpsBearerId (tft_at s' ct (Suc n)) = b"
      "take ?q (qos_bytes (tHifQos (tft_at s' ct (Suc n)))) = qos"
    unfolding ok1(2) p(2) by (elim exE conjE) (rule that, assumption+, simp)
  have "bearer_mod_body km (agent m) msg ESM_BEARER_ALLOC_IND = Inr (eAMP_RET_SUCCESS, s')"
    by (rule bearer_mod_body_alloc [OF assms(2,5,9,11,13)]) (rule c(1))
  moreover from send_rsp_room [of "m\<lparr>agent := s'\<rparr>" msg ESM_BEARER_ALLOC_RSP b] assms(14,15) obtain m' where
    "send_rsp True (m\<lparr>agent := s'\<rparr>) msg ESM_BEARER_ALLOC_RSP b = Inr m'" "agent m' = s'"
    "fifo_list (h_tx_mgmt_fifo (qa_dev m')) =
       fifo_list (h_tx_mgmt_fifo (qa_dev m)) @ [MacMsg (rsp_msg msg ESM_BEARER_ALLOC_RSP b)]"
    by auto
  ultimately show ?thesis
    using c d0 by (intro exI [of _ m'] exI [of _ as']) (simp add: QA_Process_Bearer_Mod_def)
qed

text \<open>A module with one network, default bearer 5, and empty management FIFOs.\<close>

definition empty_fifo :: "fifo_item PTR_FIFO option" where
  "empty_fifo = Some \<lparr>signature = PTR_FIFO_SIGNATURE, size_stamp = sizeof_PTR_FIFO, fifo_size = 9, fifo_flags = 0,
     pfifo_data = replicate 9 (MgmtPacket []), tail = 0, head = 0, num_elements = 0\<rparr>"

definition one_pdn :: qa_state where
  "one_pdn = qa_init\<lparr>gsQa_lte := (gsQa_lte qa_init)[0 := zero_pdn\<lparr>tDefaultBearer := zero_tft\<lparr>u8EpsBearerId := 5\<rparr>\<rparr>]\<rparr>"

definition one_pdn_module :: qa_module where
  "one_pdn_module = \<lparr>agent = one_pdn,
     qa_dev = \<lparr>h_tx_mgmt_fifo = empty_fifo, h_rx_mgmt_fifo = empty_fifo, tx_mgmt_packet_write_cnt = 0,
       tx_mgmt_packet_read_cnt = 0, rx_mgmt_packet_write_cnt = 0, rx_mgmt_packet_read_cnt = 0\<rparr>,
     sSfTransactionTable = []\<rparr>"

lemma empty_fifo_ok:
  "fifo_inv empty_fifo" "fifo_list empty_fifo = []" "fifo_cap empty_fifo = 8"
  by (simp_all add: empty_fifo_def)

lemma one_pdn_ok: "qa_ok one_pdn (replicate MAX_PDNS [])"
proof -
  have "pdn_ok Map.empty (zero_pdn\<lparr>tDefaultBearer := zero_tft\<lparr>u8EpsBearerId := 5\<rparr>\<rparr>) []"
    using zero_pdn_ok [of Map.empty] by (simp add: pdn_ok_def bearers_def zero_pdn_def zero_tft_def)
  then show ?thesis
    by (intro qa_ok_update_pdn(1) [OF qa_init_ok, of 0]) (simp_all add: one_pdn_def qa_init_def max_defs)
qed

lemma one_pdn_pdn:
  "gsQa_lte one_pdn ! 0 = zero_pdn\<lparr>tDefaultBearer := zero_tft\<lparr>u8EpsBearerId := 5\<rparr>\<rparr>" "length (gsQa_lte one_pdn) = 5"
  by (simp_all add: one_pdn_def qa_init_def max_defs)

lemma one_pdn_find: "find_classifier_table one_pdn 5 = Some 0"
  by (rule find_classifier_table_first) (simp_all add: one_pdn_pdn)

theorem QA_Process_Bearer_Mod_creates_bearer_witness:
  "\<exists>m' as'. QA_Process_Bearer_Mod next_addr True one_pdn_module
       (mac_msg ESM_BEARER_ALLOC_IND (alloc_data 6 5 [1] wire_filters [])) ESM_BEARER_ALLOC_IND = Inr (eAMP_RET_SUCCESS, m') \<and>
     filters_of (qa_heap (agent m')) as' = sent_filters 6 wire_filters \<and>
     u8EpsBearerId (tft_at (agent m') 0 1) = 6 \<and> length (fifo_list (h_tx_mgmt_fifo (qa_dev m'))) = 1"
proof -
  let ?m = one_pdn_module and ?msg = "mac_msg ESM_BEARER_ALLOC_IND (alloc_data 6 5 [1] wire_filters [])"
  have a: "agent ?m = one_pdn" "h_tx_mgmt_fifo (qa_dev ?m) = empty_fifo" by (simp_all add: one_pdn_module_def)
  have wf: "list_all tft_filter_wf wire_filters" "length wire_filters = 2"
    by (simp_all add: wire_filters_def tft_filter_wf_def enc_components_def)
  have ln: "length (enc_filters wire_filters) = 20"
    by (simp add: enc_filters_def wire_filters_def enc_filter_def enc_components_def)
  have n: "0 = unat (u8NumDedicatedBearers (gsQa_lte one_pdn ! 0))" by (simp add: one_pdn_pdn zero_pdn_def)
  have slots: "length wire_filters \<le> free_slots (tft_at one_pdn 0 (Suc 0))"
    by (simp add: wf free_slots_def tft_at_def bearers_def one_pdn_pdn zero_pdn_def zero_tft_def max_defs eval_nat_numeral)
  have d: "u8Data ?msg = alloc_data 6 5 [1] wire_filters []" by (simp add: mac_msg_def)
  have t: "tables one_pdn (replicate MAX_PDNS []) ! 0 = []" by (simp add: tables_def filters_of_def max_defs)
  have srt: "fold ins_filter (sent_filters 6 wire_filters) [] = sent_filters 6 wire_filters"
    by (simp add: sent_filters_def wire_filters_def ins_filter_def sem_filter_def)
  obtain m' as' where r:
    "QA_Process_Bearer_Mod next_addr True ?m ?msg ESM_BEARER_ALLOC_IND = Inr (eAMP_RET_SUCCESS, m')"
    "tables (agent m') ((replicate MAX_PDNS [])[0 := as']) =
       (tables one_pdn (replicate MAX_PDNS []))[0 := fold ins_filter (sent_filters 6 wire_filters) (tables one_pdn (replicate MAX_PDNS []) ! 0)]"
    "u8EpsBearerId (tft_at (agent m') 0 (Suc 0)) = 6" "length (fifo_list (h_tx_mgmt_fifo (qa_dev m'))) = 1"
    using QA_Process_Bearer_Mod_creates_bearer [where m = ?m, unfolded a, OF one_pdn_ok one_pdn_find next_addr_fresh
        next_addr_total _ n _ slots d wf(1)] ln wf(2) by (auto simp: empty_fifo_ok max_defs)
  have "filters_of (qa_heap (agent m')) as' = sent_filters 6 wire_filters"
    using arg_cong [OF r(2), of "\<lambda>l. l ! 0"] unfolding t srt by (simp add: tables_def max_defs)
  with r show ?thesis by auto
qed

section \<open>Release and registration\<close>

text \<open>
  A bearer release indication deletes the bearer and always answers with bearer id 0, not
  with the id of the released bearer: the variable the reply takes it from is never set.
\<close>

theorem QA_Process_Bearer_Rel_reply_without_id:
  assumes "u8Data msg = b # linked # rest" and "find_classifier_table (agent m) linked = Some ct"
    and "Qa_Bearer_Delete (agent m) b ct = Inr (ret, s)"
    and "fifo_inv (h_tx_mgmt_fifo (qa_dev m))"
    and "length (fifo_list (h_tx_mgmt_fifo (qa_dev m))) < fifo_cap (h_tx_mgmt_fifo (qa_dev m))"
  shows "\<exists>m'. QA_Process_Bearer_Rel True m msg = Inr (ret, m') \<and> agent m' = s \<and>
     fifo_list (h_tx_mgmt_fifo (qa_dev m')) =
       fifo_list (h_tx_mgmt_fifo (qa_dev m)) @ [MacMsg (rsp_msg msg ESM_BEARER_REL_RSP 0)]"
  using send_rsp_room [of "m\<lparr>agent := s\<rparr>" msg ESM_BEARER_REL_RSP 0] assms
  by (auto simp: QA_Process_Bearer_Rel_def)

theorem QA_Process_Bearer_Rel_reply_without_id_witness:
  "\<exists>m'. QA_Process_Bearer_Rel True one_pdn_module (mac_msg ESM_BEARER_REL_IND [5, 5, 36]) =
       Inr (eAMP_RET_SUCCESS, m') \<and>
     fifo_list (h_tx_mgmt_fifo (qa_dev m')) = [MacMsg (rsp_msg (mac_msg ESM_BEARER_REL_IND [5, 5, 36]) ESM_BEARER_REL_RSP 0)]"
proof -
  have a: "agent one_pdn_module = one_pdn" "h_tx_mgmt_fifo (qa_dev one_pdn_module) = empty_fifo"
    by (simp_all add: one_pdn_module_def)
  have "\<exists>s. Qa_Bearer_Delete one_pdn 5 0 = Inr (eAMP_RET_SUCCESS, s)"
    by (simp add: Qa_Bearer_Delete_def one_pdn_pdn zero_pdn_def qa_free_list.simps)
  then obtain s where s: "Qa_Bearer_Delete one_pdn 5 0 = Inr (eAMP_RET_SUCCESS, s)" ..
  have d: "u8Data (mac_msg ESM_BEARER_REL_IND [5, 5, 36]) = 5 # 5 # [36]" by (simp add: mac_msg_def)
  show ?thesis
    using QA_Process_Bearer_Rel_reply_without_id [where m = one_pdn_module, unfolded a, OF d one_pdn_find s]
    by (auto simp: empty_fifo_ok)
qed

lemma install_default_bearer_heap:
  assumes "ct < length (gsQa_lte s)" "km (qa_heap s) = Some (t, e0)" "tPacketFilters (tDefaultBearer pd) \<noteq> []"
  shows "\<exists>s'. install_default_bearer km s ct b pd = Inr (eAMP_RET_SUCCESS, s') \<and>
     qa_heap s' = (qa_heap s)(t \<mapsto> match_all_entry b e0) \<and>
     tClassifierTable (gsQa_lte s' ! ct) = Some t \<and> u8EpsBearerId (tDefaultBearer (gsQa_lte s' ! ct)) = b \<and>
     u8PdnType (gsQa_lte s' ! ct) = u8PdnType pd \<and> u8PdnAddress (gsQa_lte s' ! ct) = u8PdnAddress pd"
  using assms by (simp add: install_default_bearer_def Let_def)

lemma regconf_address:
  assumes "arr_get (u8Data msg) 2 = Inr ql" "arr_get (u8Data msg) 0 = Inr b" "2 + unat ql + 1 = p"
    "p < unat (u16Length msg)" "arr_get (u8Data msg) p = Inr TAG_PDN_ADDRESS_TYPE" "get_pdn s 0 = Inr pd"
    "arr_get (u8Data msg) (p + 1) = Inr n" "arr_get (u8Data msg) (p + 2) = Inr ty" "n \<noteq> 0"
    "copy_bytes (u8PdnAddress pd) (u8Data msg) (p + 3) (unat n - 1) = Inr ad"
  shows "QA_ProcessRegConf_Lte km s msg = install_default_bearer km s 0 b (pd\<lparr>u8PdnType := ty, u8PdnAddress := ad\<rparr>)"
proof -
  have "TAG_PDN_ADDRESS_TYPE \<noteq> TAG_TFA" by (simp add: TAG_TFA_def TAG_PDN_ADDRESS_TYPE_def)
  with assms show ?thesis unfolding QA_ProcessRegConf_Lte_def Let_def by simp
qed

text \<open>
  Registration of the default bearer with an address: network 0 gets the bearer, the type
  and the address of the message and a table of the match-all filter alone. The entries of
  its old table are all still allocated: the code drops the only pointer to them.
\<close>

theorem QA_ProcessRegConf_Lte_leaks_old_table:
  assumes "qa_ok s ass" and "km (qa_heap s) = Some (t, e0)" and "fresh_allocator km"
    and "u8Data msg = b # linked # of_nat (length qos) # qos @
           TAG_PDN_ADDRESS_TYPE # of_nat (length address + 1) # ty # address @ rest"
    and "length qos < 256" and "length address \<le> 12" and "length qos + 3 < unat (u16Length msg)"
  shows "\<exists>s'. QA_ProcessRegConf_Lte km s msg = Inr (eAMP_RET_SUCCESS, s') \<and>
     dlist (qa_heap s') (tClassifierTable (gsQa_lte s' ! 0)) [t] \<and>
     filters_of (qa_heap s') [t] = [tPacketFilter (match_all_entry b e0)] \<and>
     u8EpsBearerId (tDefaultBearer (gsQa_lte s' ! 0)) = b \<and> u8PdnType (gsQa_lte s' ! 0) = ty \<and>
     take (length address) (u8PdnAddress (gsQa_lte s' ! 0)) = address \<and>
     (\<forall>a \<in> set (ass ! 0). a \<noteq> t \<and> qa_heap s' a \<noteq> None)"
proof -
  let ?d = "u8Data msg" and ?pd = "gsQa_lte s ! 0" and ?q = "length qos"
  have ct: "0 < MAX_PDNS" "0 < length (gsQa_lte s)" using qa_ok_len [OF assms(1)] by (simp_all add: max_defs)
  have pd: "pdn_ok (qa_heap s) ?pd (ass ! 0)" using qa_ok_pdn [OF assms(1) ct(1)] .
  then have la: "length (u8PdnAddress ?pd) = 12" by (simp add: pdn_ok_def)
  have ne: "tPacketFilters (tDefaultBearer ?pd) \<noteq> []"
    using pdn_ok_slots_len [OF pd, of 0] by (auto simp: bearers_def max_defs)
  let ?ad = "address @ drop (length address) (u8PdnAddress ?pd)"
  let ?pd1 = "?pd\<lparr>u8PdnType := ty, u8PdnAddress := ?ad\<rparr>"
  have u: "unat (of_nat ?q :: u8) = ?q" "unat (of_nat (length address + 1) :: u8) = length address + 1"
    using assms(5,6) by (auto intro!: unat_of_nat_u8 simp del: of_nat_add of_nat_Suc Suc_eq_plus1)
  then have nz: "(of_nat (length address + 1) :: u8) \<noteq> 0" by (metis add_is_0 one_neq_zero unsigned_0)
  have g: "arr_get ?d 0 = Inr b" "arr_get ?d 2 = Inr (of_nat ?q)" "arr_get ?d (?q + 3) = Inr TAG_PDN_ADDRESS_TYPE"
      "arr_get ?d (?q + 4) = Inr (of_nat (length address + 1))" "arr_get ?d (?q + 5) = Inr ty"
    by (simp_all add: assms(4) arr_get_def nth_append del: of_nat_add)
  have ad: "copy_bytes (u8PdnAddress ?pd) ?d (?q + 6) (length address) = Inr ?ad"
    using copy_bytes_prefix [of address "u8PdnAddress ?pd" "?q + 6"
        "b # linked # of_nat ?q # qos @ [TAG_PDN_ADDRESS_TYPE, of_nat (length address + 1), ty]" _ rest] assms(6) la
    by (simp add: assms(4) del: of_nat_add)
  have e: "2 + ?q + 1 = ?q + 3" "?q + 3 + 1 = ?q + 4" "?q + 3 + 2 = ?q + 5" "?q + 3 + 3 = ?q + 6"
    "length address + 1 - 1 = length address" by simp_all
  have "QA_ProcessRegConf_Lte km s msg = install_default_bearer km s 0 b ?pd1"
    by (rule regconf_address [OF g(2,1) _ assms(7) g(3) _ _ _ nz]) (unfold u e, use g(4,5) ad ct(2) in auto)
  with install_default_bearer_heap [of 0 s km t e0 ?pd1 b] ct(2) assms(2) ne obtain s' where
    s': "QA_ProcessRegConf_Lte km s msg = Inr (eAMP_RET_SUCCESS, s')" "qa_heap s' = (qa_heap s)(t \<mapsto> match_all_entry b e0)"
      "tClassifierTable (gsQa_lte s' ! 0) = Some t" "u8EpsBearerId (tDefaultBearer (gsQa_lte s' ! 0)) = b"
      "u8PdnType (gsQa_lte s' ! 0) = ty" "u8PdnAddress (gsQa_lte s' ! 0) = ?ad" by auto
  have "qa_heap s t = None" using assms(2,3) by (auto simp: fresh_allocator_def)
  then have "a \<noteq> t" "qa_heap s a \<noteq> None" if "a \<in> set (ass ! 0)" for a
    using qa_ok_used [OF assms(1) ct(1) that] by auto
  with s' show ?thesis by (intro exI [of _ s']) (simp add: dlist_def match_all_entry_def filters_of_def)
qed

theorem QA_ProcessRegConf_Lte_leaks_old_table_witness:
  "\<exists>s'. QA_ProcessRegConf_Lte next_addr one_ded_state (mac_msg eIPC_LTE_SP_QA_REGISTER_CNF
         [5, 5, 1, 9, TAG_PDN_ADDRESS_TYPE, 5, 1, 10, 0, 0, 1]) = Inr (eAMP_RET_SUCCESS, s') \<and>
     dlist (qa_heap s') (tClassifierTable (gsQa_lte s' ! 0)) [4] \<and> qa_heap s' 2 \<noteq> None \<and> qa_heap s' 3 \<noteq> None"
proof -
  let ?msg = "mac_msg eIPC_LTE_SP_QA_REGISTER_CNF [5, 5, 1, 9, TAG_PDN_ADDRESS_TYPE, 5, 1, 10, 0, 0, 1]"
  let ?e = "\<lparr>tPacketFilter = zero_filter, tNextPF = None, tPrevPF = None\<rparr>"
  have "dom (qa_heap one_ded_state) = {2, 3}" by (auto simp: one_ded_state_def split: if_splits)
  then have km: "next_addr (qa_heap one_ded_state) = Some (4, ?e)" by (simp add: next_addr_def)
  have d: "u8Data ?msg = 5 # 5 # of_nat (length [9 :: u8]) # [9] @
      TAG_PDN_ADDRESS_TYPE # of_nat (length [10, 0, 0, 1 :: u8] + 1) # 1 # [10, 0, 0, 1] @ []"
    by (simp add: mac_msg_def)
  have "length [9 :: u8] + 3 < unat (u16Length ?msg)" by (simp add: mac_msg_def bswap16_def)
  from QA_ProcessRegConf_Lte_leaks_old_table [OF one_ded_ok km next_addr_fresh d _ _ this] show ?thesis by auto
qed

text \<open>
  Registration reads the byte behind the QoS before it checks that the message has one:
  on a message that ends with its QoS the handler reads out of bounds.
\<close>

theorem QA_ProcessRegConf_Lte_reads_past_end:
  assumes "u8Data msg = b # linked # of_nat (length qos) # qos" and "length qos < 256"
  shows "QA_ProcessRegConf_Lte km s msg = Inl OutOfBounds"
proof -
  have "unat (of_nat (length qos) :: u8) = length qos" using assms(2) by (rule unat_of_nat_u8)
  then show ?thesis by (simp add: QA_ProcessRegConf_Lte_def assms(1) arr_get_def Let_def)
qed

theorem QA_ProcessRegConf_Lte_reads_past_end_witness:
  "QA_ProcessRegConf_Lte next_addr one_pdn (mac_msg eIPC_LTE_SP_QA_REGISTER_CNF [5, 5, 1, 9]) = Inl OutOfBounds"
  by (rule QA_ProcessRegConf_Lte_reads_past_end [of _ 5 5 "[9]"]) (simp_all add: mac_msg_def)

end
