(* ===== verification/QaDev.thy ===== *)
theory QaDev
  imports QaHandlers
begin

text \<open>
  The character device of the QoS agent, lte_qos_agent.c: reading queued replies, writing
  messages and dispatching them, flushing the management FIFOs. An operation runs under the
  device's semaphore as one step; \<open>down_interruptible\<close>, \<open>kmalloc\<close> and the copies from and
  to user space are parameters that say whether they succeed. Linux error codes are negative
  integers.
\<close>

section \<open>Bytes of a message\<close>

definition EFAULT :: int where "EFAULT = 14"
definition EAGAIN :: int where "EAGAIN = 11"
definition ERESTARTSYS :: int where "ERESTARTSYS = 512"

definition le16 :: "u16 \<Rightarrow> u8 list" where
  "le16 x = [ucast x, ucast (drop_bit 8 x)]"

definition of_le16 :: "u8 \<Rightarrow> u8 \<Rightarrow> u16" where
  "of_le16 a b = ucast a OR push_bit 8 (ucast b)"

text \<open>The header \<open>AMP_HOST_MAC_MSG_HDR_S\<close> takes 8 bytes, the payload follows.\<close>

definition msg_bytes :: "AMP_HOST_MAC_MSG_S \<Rightarrow> u8 list" where
  "msg_bytes msg = le16 (u16HostMsgType msg) @ le16 (u16Context msg) @ [u8MacMsgType msg, u8MsgSubtype msg] @
     le16 (u16Length msg) @ u8Data msg"

definition bytes_msg :: "u8 list \<Rightarrow> AMP_HOST_MAC_MSG_S res" where
  "bytes_msg bs =
     (if length bs < 8 then Inl OutOfBounds
      else Inr \<lparr>u16HostMsgType = of_le16 (bs ! 0) (bs ! 1), u16Context = of_le16 (bs ! 2) (bs ! 3),
             u8MacMsgType = bs ! 4, u8MsgSubtype = bs ! 5, u16Length = of_le16 (bs ! 6) (bs ! 7),
             u8Data = drop 8 bs\<rparr>)"

section \<open>Management packets\<close>

text \<open>
  \<open>km_obj\<close>: whether the structure is allocated; \<open>km_data n\<close>: the payload block of \<open>n\<close> bytes.
\<close>

definition alloc_mgmt_payload :: "bool \<Rightarrow> (nat \<Rightarrow> u8 list option) \<Rightarrow> nat \<Rightarrow> fifo_item option" where
  "alloc_mgmt_payload km_obj km_data payload_size =
     (if \<not> km_obj then None else map_option MgmtPacket (km_data payload_size))"

text \<open>
  Freeing treats every item as a management packet: its second word, the payload pointer, is
  freed when it is not NULL. In a message that word is the MAC type, the subtype and the
  length.
\<close>

definition free_mgmt_payload :: "fifo_item option \<Rightarrow> unit res" where
  "free_mgmt_payload p =
     (case p of
        None \<Rightarrow> Inr ()
      | Some (MgmtPacket _) \<Rightarrow> Inr ()
      | Some (MacMsg msg) \<Rightarrow>
          if u8MacMsgType msg = 0 \<and> u8MsgSubtype msg = 0 \<and> u16Length msg = 0 then Inr () else Inl WildFree)"

text \<open>The drain loop of both flush functions.\<close>

partial_function (option) flush_fifo :: "fifo_item PTR_FIFO option \<Rightarrow> fifo_item PTR_FIFO option res option" where
  "flush_fifo q =
     (case ptr_fifo_remove q True of
        Inl e \<Rightarrow> Some (Inl e)
      | Inr r \<Rightarrow>
          if fst r \<noteq> PTR_FIFO_ERROR_NONE then Some (Inr (snd (snd r)))
          else (case free_mgmt_payload (fst (snd r)) of
                  Inl e \<Rightarrow> Some (Inl e)
                | Inr _ \<Rightarrow> flush_fifo (snd (snd r))))"


definition lte_qa_flush_rx_mgmt_fifo :: "lte_qa_dev_t \<Rightarrow> (int \<times> lte_qa_dev_t) res" where
  "lte_qa_flush_rx_mgmt_fifo d =
     rbind (returned (flush_fifo (h_rx_mgmt_fifo d))) (\<lambda>f.
     Inr (0, d\<lparr>h_rx_mgmt_fifo := f, rx_mgmt_packet_write_cnt := 0, rx_mgmt_packet_read_cnt := 0\<rparr>))"

section \<open>Reading\<close>

text \<open>
  The result is the return value with the bytes copied to the user, \<open>None\<close> when the reader
  goes to sleep. \<open>pad\<close> is what the block of the message holds behind its payload: the block
  has 12 bytes. A copy of more bytes than the block has reads behind it.
\<close>

definition item_block :: "u8 list \<Rightarrow> fifo_item \<Rightarrow> u8 list" where
  "item_block pad it = (case it of MacMsg msg \<Rightarrow> msg_bytes msg @ pad | MgmtPacket _ \<Rightarrow> pad)"

definition lte_qa_dev_read ::
  "bool \<Rightarrow> bool \<Rightarrow> bool \<Rightarrow> u8 list \<Rightarrow> lte_qa_dev_t \<Rightarrow> nat \<Rightarrow> ((int \<times> u8 list) option \<times> lte_qa_dev_t) res" where
  "lte_qa_dev_read interrupted nonblock copy_ok pad d len =
     (if len \<le> 8 then Inr (Some (- EFAULT, []), d)
      else if interrupted then Inr (Some (- ERESTARTSYS, []), d)
      else if tx_mgmt_packet_write_cnt d = tx_mgmt_packet_read_cnt d then
        Inr (if nonblock then Some (- EAGAIN, []) else None, d)
      else
        rbind (ptr_fifo_remove (h_tx_mgmt_fifo d) True) (\<lambda>(pfval, it, f).
          let d1 = d\<lparr>h_tx_mgmt_fifo := f, tx_mgmt_packet_read_cnt := tx_mgmt_packet_read_cnt d + 1\<rparr> in
          if pfval \<noteq> PTR_FIFO_ERROR_NONE then Inr (Some (int len, []), d1)
          else if \<not> copy_ok then
            rbind (free_mgmt_payload it) (\<lambda>_. Inr (Some (- EFAULT, []), d1))
          else
            (case it of
               None \<Rightarrow> Inl NullDeref
             | Some x \<Rightarrow>
                 if length (item_block pad x) < len then Inl OutOfBounds
                 else Inr (Some (int len, take len (item_block pad x)), d1))))"

section \<open>Writing\<close>

definition qa_dispatch ::
  "allocator \<Rightarrow> bool \<Rightarrow> qa_module \<Rightarrow> AMP_HOST_MAC_MSG_S \<Rightarrow> (amp_ret \<times> qa_module) res" where
  "qa_dispatch km km_msg m msg =
     (if u8MacMsgType msg = LTE_HMM_NAS then QA_ProcessMacMsg km km_msg m msg else QA_HandleUserMsg km m msg)"

text \<open>
  The written bytes go through the receive FIFO and the oldest packet of the FIFO is
  dispatched. A full FIFO drops the new packet (the return value is then an error), but a
  packet is dispatched all the same.
\<close>

definition lte_qa_dev_write ::
  "allocator \<Rightarrow> bool \<Rightarrow> bool \<Rightarrow> (nat \<Rightarrow> u8 list option) \<Rightarrow> bool \<Rightarrow> bool \<Rightarrow> qa_module \<Rightarrow> u8 list \<Rightarrow> (int \<times> qa_module) res" where
  "lte_qa_dev_write km km_msg km_obj km_data interrupted copy_ok m buf =
     (if length buf \<le> 8 then Inr (- EFAULT, m)
      else if interrupted then Inr (- ERESTARTSYS, m)
      else
        (case alloc_mgmt_payload km_obj km_data (8 + (length buf - 8)) of
           None \<Rightarrow> Inr (- EFAULT, m)
         | Some blk \<Rightarrow>
             if \<not> copy_ok then rbind (free_mgmt_payload (Some blk)) (\<lambda>_. Inr (- EFAULT, m))
             else
               rbind (ptr_fifo_insert (h_rx_mgmt_fifo (qa_dev m)) (MgmtPacket buf)) (\<lambda>(pfval, f).
               let d = (qa_dev m)\<lparr>h_rx_mgmt_fifo := f\<rparr>;
                   d1 = (if pfval = PTR_FIFO_ERROR_NONE
                         then d\<lparr>rx_mgmt_packet_write_cnt := rx_mgmt_packet_write_cnt d + 1\<rparr> else d);
                   retval = (if pfval = PTR_FIFO_ERROR_NONE then int (length buf) else - EFAULT) in
               rbind (ptr_fifo_remove f True) (\<lambda>(_, it, f').
               let m2 = m\<lparr>qa_dev := d1\<lparr>h_rx_mgmt_fifo := f', rx_mgmt_packet_read_cnt := rx_mgmt_packet_read_cnt d1 + 1\<rparr>\<rparr> in
               case it of
                 None \<Rightarrow> Inr (retval, m2)
               | Some (MacMsg _) \<Rightarrow> Inl DanglingDeref
               | Some (MgmtPacket bs) \<Rightarrow>
                   rbind (bytes_msg bs) (\<lambda>msg.
                   rbind (qa_dispatch km km_msg m2 msg) (\<lambda>(_, m'). Inr (retval, m')))))))"

section \<open>Messages survive the device\<close>

lemma of_le16_bytes: "of_le16 (ucast x) (ucast (drop_bit 8 x)) = x"
  by (rule bit_word_eqI)
     (auto simp: of_le16_def bit_or_iff bit_push_bit_iff bit_ucast_iff bit_drop_bit_eq dest: bit_imp_le_length)

lemma bytes_msg_bytes: "bytes_msg (msg_bytes msg) = Inr msg"
  by (simp add: bytes_msg_def msg_bytes_def le16_def of_le16_bytes)

text \<open>
  C35. Writing the bytes of a message to the device hands exactly that message to the
  dispatcher when the receive FIFO is empty, leaves the FIFO empty, counts one packet in and
  one out, and returns the number of bytes written.
\<close>

theorem lte_qa_dev_write_dispatches:
  assumes "fifo_inv (h_rx_mgmt_fifo (qa_dev m))" and "fifo_list (h_rx_mgmt_fifo (qa_dev m)) = []"
    and "0 < fifo_cap (h_rx_mgmt_fifo (qa_dev m))"
    and "u8Data msg \<noteq> []" and "km_data (length (msg_bytes msg)) \<noteq> None"
  shows "\<exists>f'. fifo_inv f' \<and> fifo_list f' = [] \<and>
     lte_qa_dev_write km km_msg True km_data False True m (msg_bytes msg) =
       rbind (qa_dispatch km km_msg (m\<lparr>qa_dev := (qa_dev m)\<lparr>
                rx_mgmt_packet_write_cnt := rx_mgmt_packet_write_cnt (qa_dev m) + 1, h_rx_mgmt_fifo := f',
                rx_mgmt_packet_read_cnt := rx_mgmt_packet_read_cnt (qa_dev m) + 1\<rparr>\<rparr>) msg)
         (\<lambda>(_, m'). Inr (int (length (msg_bytes msg)), m'))"
proof -
  let ?q = "h_rx_mgmt_fifo (qa_dev m)" and ?b = "msg_bytes msg"
  have l: "8 < length ?b" using assms(4) by (simp add: msg_bytes_def le16_def)
  then have l': "8 + (length ?b - 8) = length ?b" by simp
  from ptr_ring.ins_room [OF assms(1), of "MgmtPacket ?b"] assms(2,3) obtain f where
    f: "ptr_fifo_insert ?q (MgmtPacket ?b) = Inr (0, f)" "fifo_inv f" "fifo_list f = [MgmtPacket ?b]" by auto
  from ptr_ring.rem_some [OF f(2,3)] obtain f' where
    f': "ptr_fifo_remove f True = Inr (0, Some (MgmtPacket ?b), f')" "fifo_inv f'" "fifo_list f' = []" by auto
  obtain blk where "alloc_mgmt_payload True km_data (length ?b) = Some blk"
    using assms(5) by (auto simp: alloc_mgmt_payload_def)
  then show ?thesis
    using l f f' bytes_msg_bytes [of msg] unfolding lte_qa_dev_write_def l'
    by (intro exI [of _ f']) (simp add: Let_def)
qed

theorem lte_qa_dev_write_dispatches_witness:
  "\<exists>m'. lte_qa_dev_write next_addr True True (\<lambda>n. Some (replicate n 0)) False True one_pdn_module
       (msg_bytes (mac_msg ESM_PDN_CONN_REJ [5])) = Inr (9, m') \<and>
     fifo_list (h_rx_mgmt_fifo (qa_dev m')) = [] \<and> rx_mgmt_packet_read_cnt (qa_dev m') = 1"
proof -
  let ?msg = "mac_msg ESM_PDN_CONN_REJ [5]"
  have q: "h_rx_mgmt_fifo (qa_dev one_pdn_module) = empty_fifo" by (simp add: one_pdn_module_def)
  have "u8Data ?msg \<noteq> []" "length (msg_bytes ?msg) = 9" by (simp_all add: mac_msg_def msg_bytes_def le16_def)
  with lte_qa_dev_write_dispatches [where m = one_pdn_module and msg = ?msg and km = next_addr and km_msg = True
      and km_data = "\<lambda>n. Some (replicate n 0)", unfolded q]
  show ?thesis
    by (auto simp: empty_fifo_ok qa_dispatch_def QA_ProcessMacMsg_def mac_msg_def esm_defs one_pdn_module_def)
qed

text \<open>
  Reading a queued reply copies the number of bytes the caller asks for, not the number
  the message has: up to the size of its block the caller gets the message and what lies
  behind it in the block, and a larger request reads kernel memory behind the block.
\<close>

theorem lte_qa_dev_read_copies_requested_bytes:
  assumes "fifo_inv (h_tx_mgmt_fifo d)" and "fifo_list (h_tx_mgmt_fifo d) = MacMsg msg # rest"
    and "tx_mgmt_packet_write_cnt d \<noteq> tx_mgmt_packet_read_cnt d" and "8 < len"
  shows "if len \<le> length (msg_bytes msg @ pad)
     then \<exists>f'. lte_qa_dev_read False nb True pad d len =
            Inr (Some (int len, take len (msg_bytes msg @ pad)),
                 d\<lparr>h_tx_mgmt_fifo := f', tx_mgmt_packet_read_cnt := tx_mgmt_packet_read_cnt d + 1\<rparr>) \<and>
          fifo_inv f' \<and> fifo_list f' = rest
     else lte_qa_dev_read False nb True pad d len = Inl OutOfBounds"
proof -
  from ptr_ring.rem_some [OF assms(1,2)] obtain f' where
    "ptr_fifo_remove (h_tx_mgmt_fifo d) True = Inr (0, Some (MacMsg msg), f')" "fifo_inv f'" "fifo_list f' = rest"
    by auto
  with assms(3,4) show ?thesis by (auto simp: lte_qa_dev_read_def item_block_def Let_def)
qed

definition one_reply :: lte_qa_dev_t where
  "one_reply = \<lparr>h_tx_mgmt_fifo = Some \<lparr>signature = PTR_FIFO_SIGNATURE, size_stamp = sizeof_PTR_FIFO, fifo_size = 9,
        fifo_flags = 0, pfifo_data = (replicate 9 (MgmtPacket []))[1 := MacMsg (mac_msg ESM_BEARER_REL_RSP [0, 0])],
        tail = 1, head = 0, num_elements = 1\<rparr>,
     h_rx_mgmt_fifo = empty_fifo, tx_mgmt_packet_write_cnt = 1, tx_mgmt_packet_read_cnt = 0,
     rx_mgmt_packet_write_cnt = 0, rx_mgmt_packet_read_cnt = 0\<rparr>"

lemma one_reply_fifo:
  "fifo_inv (h_tx_mgmt_fifo one_reply)"
  "fifo_list (h_tx_mgmt_fifo one_reply) = [MacMsg (mac_msg ESM_BEARER_REL_RSP [0, 0])]"
  by (simp_all add: one_reply_def)

theorem lte_qa_dev_read_copies_requested_bytes_witness:
  "lte_qa_dev_read False True True [0, 0] one_reply 64 = Inl OutOfBounds"
  using lte_qa_dev_read_copies_requested_bytes [OF one_reply_fifo, of 64 "[0, 0]" True]
  by (simp add: one_reply_def mac_msg_def msg_bytes_def le16_def)

section \<open>Flushing\<close>






end
