(* ===== verification/TimeStampLog.thy ===== *)
theory TimeStampLog
  imports LtePrelude
begin

text \<open>
  The time stamp log of src/kernel/drivers/lte/common/time_stamp_log.c, a ring of entries that
  writers reserve and stamp and a reader fetches oldest first, and the elapsed time of
  time_calc.c. A handle is an optional object, \<open>None\<close> being NULL. Results are the C return
  code, the value written through the out pointer (\<open>None\<close> when nothing is written) and the
  new object. The second half relates the log to the history of reservations and shows that
  fetching returns its newest part, in order.
\<close>

section \<open>The object\<close>

definition TSL_SIGNATURE :: u32 where "TSL_SIGNATURE = 0xBEBEBAAF"
definition TSL_MAX_STAMPS :: nat where "TSL_MAX_STAMPS = 5"
definition TSL_MIN_ELEMENTS :: u32 where "TSL_MIN_ELEMENTS = 1"
definition TSL_MAX_ELEMENTS :: u32 where "TSL_MAX_ELEMENTS = 1024 * 16"
definition TSL_NOP_ENTRY_INDEX :: u32 where "TSL_NOP_ENTRY_INDEX = 0x7FFFFFFF"

abbreviation (input) TSL_ERROR_ERROR_NONE :: int where "TSL_ERROR_ERROR_NONE \<equiv> 0"
abbreviation (input) TSL_ERROR_TSL_PRIVATE_INVALID :: int where "TSL_ERROR_TSL_PRIVATE_INVALID \<equiv> - 1"
abbreviation (input) TSL_ERROR_TSL_INVALID_PARAM :: int where "TSL_ERROR_TSL_INVALID_PARAM \<equiv> - 2"
abbreviation (input) TSL_ERROR_TSL_LOCKED :: int where "TSL_ERROR_TSL_LOCKED \<equiv> - 3"
abbreviation (input) TSL_WARNING_TSL_LAST_LOG_ENTRY :: int where "TSL_WARNING_TSL_LAST_LOG_ENTRY \<equiv> 1"

text \<open>A time stamp is a 64-bit \<open>ktime\<close>.\<close>

record tsl_entry_t =
  sequence :: u32
  user :: u32
  puser :: ptr
  stamps :: "u64 list"

text \<open>
  \<open>sizeof(tsl_log_t)\<close>: eleven words and a one-word spinlock. Only its equality with the stamp
  is used.
\<close>

definition sizeof_tsl_log_t :: u32 where "sizeof_tsl_log_t = 48"

record tsl_log_t =
  tsl_signature :: u32
  tsl_size :: u32
  enable :: u32
  locked :: u32
  log_start :: u32
  log_end :: u32
  log_wrapped :: u32
  log_index :: u32
  tsl_entry_num_elements :: u32
  tsl_entry_index :: u32
  ptsl_entry :: "tsl_entry_t list"

definition tsl_private_valid :: "tsl_log_t option \<Rightarrow> int" where
  "tsl_private_valid p =
     (case p of
        None \<Rightarrow> TSL_ERROR_TSL_PRIVATE_INVALID
      | Some t \<Rightarrow> if tsl_signature t \<noteq> TSL_SIGNATURE \<or> tsl_size t \<noteq> sizeof_tsl_log_t
                then TSL_ERROR_TSL_PRIVATE_INVALID else TSL_ERROR_ERROR_NONE)"

section \<open>Operations\<close>

text \<open>The cleared entries with their sequence numbers.\<close>

definition fresh_entries :: "nat \<Rightarrow> tsl_entry_t list" where
  "fresh_entries n =
     map (\<lambda>i. \<lparr>sequence = of_nat i, user = 0, puser = None, stamps = replicate TSL_MAX_STAMPS 0\<rparr>) [0..<n]"

text \<open>The flags say whether the two \<open>kmalloc\<close>s succeed.\<close>

definition tsl_alloc :: "bool \<Rightarrow> bool \<Rightarrow> u32 \<Rightarrow> tsl_log_t option" where
  "tsl_alloc km_log km_entries n =
     (if n < TSL_MIN_ELEMENTS \<or> TSL_MAX_ELEMENTS < n then None
      else if \<not> km_log \<or> \<not> km_entries then None
      else Some \<lparr>tsl_signature = TSL_SIGNATURE, tsl_size = sizeof_tsl_log_t, enable = 1, locked = 0,
             log_start = 0, log_end = 0, log_wrapped = 0, log_index = 0, tsl_entry_num_elements = n,
             tsl_entry_index = 0, ptsl_entry = fresh_entries (unat n)\<rparr>)"

definition tsl_free :: "tsl_log_t option \<Rightarrow> int \<times> tsl_log_t option" where
  "tsl_free p = (let retval = tsl_private_valid p in
     if retval \<noteq> TSL_ERROR_ERROR_NONE then (retval, p) else (TSL_ERROR_ERROR_NONE, None))"

definition tsl_lock :: "tsl_log_t option \<Rightarrow> int \<Rightarrow> int \<times> tsl_log_t option" where
  "tsl_lock p lock = (let retval = tsl_private_valid p in
     if retval \<noteq> TSL_ERROR_ERROR_NONE then (retval, p)
     else if lock \<noteq> 0 then
       (TSL_ERROR_ERROR_NONE, if locked (the p) = 0 then Some ((the p)\<lparr>locked := 1\<rparr>) else p)
     else (TSL_ERROR_ERROR_NONE, if locked (the p) \<noteq> 0 then Some ((the p)\<lparr>locked := 0\<rparr>) else p))"

definition tsl_enable :: "tsl_log_t option \<Rightarrow> u32 \<Rightarrow> int \<times> tsl_log_t option" where
  "tsl_enable p en = (let retval = tsl_private_valid p in
     if retval \<noteq> TSL_ERROR_ERROR_NONE then (retval, p)
     else (TSL_ERROR_ERROR_NONE, Some ((the p)\<lparr>enable := en\<rparr>)))"

text \<open>The reset clears the entries the element count announces.\<close>

definition tsl_reset :: "tsl_log_t option \<Rightarrow> (int \<times> tsl_log_t option) res" where
  "tsl_reset p = (let retval = tsl_private_valid p in
     if retval \<noteq> TSL_ERROR_ERROR_NONE then Inr (retval, p)
     else let t = the p; n = unat (tsl_entry_num_elements t) in
       if locked t \<noteq> 0 then Inr (TSL_ERROR_TSL_LOCKED, p)
       else if length (ptsl_entry t) < n then Inl OutOfBounds
       else Inr (TSL_ERROR_ERROR_NONE,
              Some (t\<lparr>tsl_entry_index := 0, log_start := 0, log_end := 0, log_wrapped := 0, log_index := 0,
                      ptsl_entry := fresh_entries n @ drop n (ptsl_entry t)\<rparr>)))"

definition tsl_get_entry_index_autoinc ::
  "tsl_log_t option \<Rightarrow> u32 \<Rightarrow> ptr \<Rightarrow> bool \<Rightarrow> (int \<times> u32 option \<times> tsl_log_t option) res" where
  "tsl_get_entry_index_autoinc p usr pusr out = (let retval = tsl_private_valid p in
     if retval \<noteq> TSL_ERROR_ERROR_NONE then Inr (retval, None, p)
     else if \<not> out then Inr (TSL_ERROR_TSL_INVALID_PARAM, None, p)
     else let t = the p in
       if enable t = 0 \<or> locked t \<noteq> 0 then Inr (TSL_ERROR_ERROR_NONE, Some TSL_NOP_ENTRY_INDEX, p)
       else
         let entry_index = tsl_entry_index t mod tsl_entry_num_elements t in
         rbind (arr_get (ptsl_entry t) (unat entry_index)) (\<lambda>e.
         rbind (arr_put (ptsl_entry t) (unat entry_index)
                  (e\<lparr>stamps := replicate TSL_MAX_STAMPS 0, user := usr, puser := pusr\<rparr>)) (\<lambda>es.
         let idx = tsl_entry_index t + 1 in
         Inr (TSL_ERROR_ERROR_NONE, Some entry_index,
              Some (t\<lparr>ptsl_entry := es, tsl_entry_index := idx,
                      log_wrapped := if tsl_entry_num_elements t < idx then 1 else log_wrapped t\<rparr>)))))"

text \<open>\<open>now\<close> is what \<open>ktime_get\<close> returns.\<close>

definition tsl_add_time_stamp ::
  "u64 \<Rightarrow> tsl_log_t option \<Rightarrow> u32 \<Rightarrow> u32 \<Rightarrow> (int \<times> tsl_log_t option) res" where
  "tsl_add_time_stamp now p entry_index ts_index = (let retval = tsl_private_valid p in
     if retval \<noteq> TSL_ERROR_ERROR_NONE then Inr (retval, p)
     else let t = the p in
       if enable t = 0 \<or> entry_index = TSL_NOP_ENTRY_INDEX then Inr (TSL_ERROR_ERROR_NONE, p)
       else if tsl_entry_num_elements t \<le> entry_index \<or> TSL_MAX_STAMPS \<le> unat ts_index
       then Inr (TSL_ERROR_TSL_INVALID_PARAM, p)
       else
         rbind (arr_get (ptsl_entry t) (unat entry_index)) (\<lambda>e.
         rbind (arr_put (stamps e) (unat ts_index) now) (\<lambda>st.
         Inr (TSL_ERROR_ERROR_NONE,
              Some (t\<lparr>ptsl_entry := (ptsl_entry t)[unat entry_index := e\<lparr>stamps := st\<rparr>]\<rparr>)))))"

definition tsl_log_prime :: "tsl_log_t option \<Rightarrow> int \<times> tsl_log_t option" where
  "tsl_log_prime p = (let retval = tsl_private_valid p in
     if retval \<noteq> TSL_ERROR_ERROR_NONE then (retval, p)
     else let t = the p;
              st = (if log_wrapped t \<noteq> 0 then tsl_entry_index t mod tsl_entry_num_elements t else 0);
              en = (if log_wrapped t \<noteq> 0
                    then if st = 0 then tsl_entry_num_elements t - 1 else st - 1
                    else tsl_entry_index t - 1) in
       (TSL_ERROR_ERROR_NONE, Some (t\<lparr>log_start := st, log_end := en, log_index := st\<rparr>)))"

definition tsl_log_get_entry ::
  "tsl_log_t option \<Rightarrow> bool \<Rightarrow> (int \<times> tsl_entry_t option \<times> tsl_log_t option) res" where
  "tsl_log_get_entry p out = (let retval = tsl_private_valid p in
     if retval \<noteq> TSL_ERROR_ERROR_NONE then Inr (retval, None, p)
     else if \<not> out then Inr (TSL_ERROR_TSL_INVALID_PARAM, None, p)
     else let t = the p; entry_index = log_index t mod tsl_entry_num_elements t in
       rbind (arr_get (ptsl_entry t) (unat entry_index)) (\<lambda>e.
       Inr (if entry_index = log_end t then TSL_WARNING_TSL_LAST_LOG_ENTRY else retval, Some e,
            Some (t\<lparr>log_index := log_index t + 1\<rparr>))))"

definition tsl_log_get_num_entries :: "tsl_log_t option \<Rightarrow> bool \<Rightarrow> int \<times> u32 option" where
  "tsl_log_get_num_entries p out = (let retval = tsl_private_valid p in
     if retval \<noteq> TSL_ERROR_ERROR_NONE then (retval, None)
     else if \<not> out then (TSL_ERROR_TSL_INVALID_PARAM, None)
     else (retval, Some (if log_wrapped (the p) \<noteq> 0 then tsl_entry_num_elements (the p) else tsl_entry_index (the p))))"

definition tsl_log_get_entry_by_index ::
  "tsl_log_t option \<Rightarrow> u32 \<Rightarrow> bool \<Rightarrow> (int \<times> tsl_entry_t option) res" where
  "tsl_log_get_entry_by_index p index out = (let retval = tsl_private_valid p in
     if retval \<noteq> TSL_ERROR_ERROR_NONE then Inr (retval, None)
     else if \<not> out then Inr (TSL_ERROR_TSL_INVALID_PARAM, None)
     else let t = the p; entry_index = (log_start t + index) mod tsl_entry_num_elements t in
       rbind (arr_get (ptsl_entry t) (unat entry_index)) (\<lambda>e.
       Inr (if entry_index = log_end t then TSL_WARNING_TSL_LAST_LOG_ENTRY else retval, Some e)))"

section \<open>Elapsed time\<close>

text \<open>\<open>jiffies\<close> is the current tick count.\<close>

definition delta_time_jiffies :: "u32 \<Rightarrow> u32 \<Rightarrow> u32" where
  "delta_time_jiffies jiffies start_time =
     (if jiffies < start_time then (0xFFFFFFFF - start_time) + jiffies else jiffies - start_time)"

text \<open>The time elapsed over \<open>d\<close> ticks is \<open>d\<close> unless the tick counter wraps in between; then
  the function reports one tick too few.\<close>

theorem delta_time_jiffies_elapsed:
  "delta_time_jiffies (start + d) start = (if start + d < start then d - 1 else d)"
  by (simp add: delta_time_jiffies_def)

section \<open>The log as a history of reservations\<close>

text \<open>
  What a writer has reserved so far, as a list of the user fields, oldest first. The states of
  a log are the ones reached from its creation by the operations below. The reservation counter
  is a 32-bit word, so the history is followed up to its wrap.
\<close>

type_synonym tsl_hist = "(u32 \<times> ptr) list"

inductive tsl_reach :: "tsl_log_t \<Rightarrow> tsl_hist \<Rightarrow> bool" where
  created: "tsl_alloc True True n = Some t \<Longrightarrow> tsl_reach t []"
| reserved: "tsl_reach t h \<Longrightarrow> enable t \<noteq> 0 \<Longrightarrow> locked t = 0 \<Longrightarrow> Suc (length h) < 2 ^ 32 \<Longrightarrow>
    tsl_get_entry_index_autoinc (Some t) usr pusr True = Inr (rc, i, Some t') \<Longrightarrow>
    tsl_reach t' (h @ [(usr, pusr)])"
| refused: "tsl_reach t h \<Longrightarrow> enable t = 0 \<or> locked t \<noteq> 0 \<Longrightarrow>
    tsl_get_entry_index_autoinc (Some t) usr pusr True = Inr (rc, i, Some t') \<Longrightarrow> tsl_reach t' h"
| stamped: "tsl_reach t h \<Longrightarrow> tsl_add_time_stamp now (Some t) i k = Inr (rc, Some t') \<Longrightarrow> tsl_reach t' h"
| lock: "tsl_reach t h \<Longrightarrow> tsl_lock (Some t) l = (rc, Some t') \<Longrightarrow> tsl_reach t' h"
| able: "tsl_reach t h \<Longrightarrow> tsl_enable (Some t) en = (rc, Some t') \<Longrightarrow> tsl_reach t' h"
| reset: "tsl_reach t h \<Longrightarrow> tsl_reset (Some t) = Inr (TSL_ERROR_ERROR_NONE, Some t') \<Longrightarrow> tsl_reach t' []"
| primed: "tsl_reach t h \<Longrightarrow> tsl_log_prime (Some t) = (rc, Some t') \<Longrightarrow> tsl_reach t' h"
| fetched: "tsl_reach t h \<Longrightarrow> tsl_log_get_entry (Some t) True = Inr (rc, e, Some t') \<Longrightarrow> tsl_reach t' h"

abbreviation tsl_tag :: "tsl_entry_t \<Rightarrow> u32 \<times> ptr" where
  "tsl_tag e \<equiv> (user e, puser e)"

text \<open>The number of slots.\<close>

abbreviation tsl_cap :: "tsl_log_t \<Rightarrow> nat" where
  "tsl_cap t \<equiv> unat (tsl_entry_num_elements t)"

definition tsl_ok :: "tsl_log_t \<Rightarrow> bool" where
  "tsl_ok t \<longleftrightarrow> tsl_signature t = TSL_SIGNATURE \<and> tsl_size t = sizeof_tsl_log_t \<and>
     0 < tsl_cap t \<and> tsl_cap t \<le> 16384 \<and> length (ptsl_entry t) = tsl_cap t \<and>
     (\<forall>e \<in> set (ptsl_entry t). length (stamps e) = TSL_MAX_STAMPS)"

text \<open>The slots hold the newest reservations, each at its position in the ring.\<close>

definition tsl_holds :: "tsl_log_t \<Rightarrow> tsl_hist \<Rightarrow> bool" where
  "tsl_holds t h \<longleftrightarrow> length h < 2 ^ 32 \<and> unat (tsl_entry_index t) = length h \<and>
     (log_wrapped t \<noteq> 0 \<longleftrightarrow> tsl_cap t < length h) \<and>
     (\<forall>k < length h. length h \<le> k + tsl_cap t \<longrightarrow> tsl_tag (ptsl_entry t ! (k mod tsl_cap t)) = h ! k)"

lemma tsl_ok_valid [simp]: "tsl_ok t \<Longrightarrow> tsl_private_valid (Some t) = TSL_ERROR_ERROR_NONE"
  by (simp add: tsl_ok_def tsl_private_valid_def)

lemma tsl_ok_pos: "tsl_ok t \<Longrightarrow> 0 < tsl_cap t"
  by (simp add: tsl_ok_def)

lemma tsl_ok_slot: "tsl_ok t \<Longrightarrow> unat (x mod tsl_entry_num_elements t) < length (ptsl_entry t)"
  by (simp add: tsl_ok_def unat_mod_distrib)

lemma length_fresh_entries [simp]: "length (fresh_entries n) = n"
  by (simp add: fresh_entries_def)

lemma fresh_entries_stamps: "e \<in> set (fresh_entries n) \<Longrightarrow> length (stamps e) = TSL_MAX_STAMPS"
  by (auto simp: fresh_entries_def)

lemma tsl_holds_Nil: "tsl_entry_index t = 0 \<Longrightarrow> log_wrapped t = 0 \<Longrightarrow> tsl_holds t []"
  by (simp add: tsl_holds_def)

text \<open>Operations that leave the counter, the flag and the tags alone.\<close>

lemma tsl_holds_cong:
  assumes "tsl_holds t h" "tsl_ok t" "tsl_entry_index t' = tsl_entry_index t" "log_wrapped t' = log_wrapped t"
    "tsl_entry_num_elements t' = tsl_entry_num_elements t"
    "map tsl_tag (ptsl_entry t') = map tsl_tag (ptsl_entry t)"
  shows "tsl_holds t' h"
proof -
  have len: "length (ptsl_entry t') = tsl_cap t"
    using arg_cong[OF assms(6), of length] assms(2) by (simp add: tsl_ok_def)
  have "tsl_tag (ptsl_entry t' ! i) = tsl_tag (ptsl_entry t ! i)" if "i < tsl_cap t" for i
    using that len assms(2) arg_cong[OF assms(6), of "\<lambda>xs. xs ! i"] by (simp add: tsl_ok_def)
  then show ?thesis
    using assms(1,3-5) tsl_ok_pos[OF assms(2)] by (simp add: tsl_holds_def)
qed

lemma tsl_ok_cong:
  assumes "tsl_ok t" "tsl_signature t' = tsl_signature t" "tsl_size t' = tsl_size t"
    "tsl_entry_num_elements t' = tsl_entry_num_elements t"
    "map (length \<circ> stamps) (ptsl_entry t') = map (length \<circ> stamps) (ptsl_entry t)"
  shows "tsl_ok t'"
proof -
  have len: "length (ptsl_entry t') = length (ptsl_entry t)"
    using arg_cong[OF assms(5), of length] by simp
  have "length (stamps e) = TSL_MAX_STAMPS" if "e \<in> set (ptsl_entry t')" for e
  proof -
    obtain j where j: "j < length (ptsl_entry t')" "e = ptsl_entry t' ! j"
      using \<open>e \<in> set _\<close> by (auto simp: in_set_conv_nth)
    then have "length (stamps e) = length (stamps (ptsl_entry t ! j))"
      using arg_cong[OF assms(5), of "\<lambda>xs. xs ! j"] len by simp
    then show ?thesis using assms(1) j len by (simp add: tsl_ok_def)
  qed
  then show ?thesis
    using assms(1-4) len by (simp add: tsl_ok_def)
qed

lemma tsl_reserve:
  assumes ok: "tsl_ok t" and h: "tsl_holds t h" and en: "enable t \<noteq> 0" "locked t = 0"
    and room: "Suc (length h) < 2 ^ 32"
    and r: "tsl_get_entry_index_autoinc (Some t) usr pusr True = Inr (rc, i, Some t')"
  shows "tsl_ok t' \<and> tsl_holds t' (h @ [(usr, pusr)])"
proof -
  let ?n = "tsl_cap t" and ?i = "length h mod tsl_cap t"
  let ?e = "(ptsl_entry t ! ?i)\<lparr>stamps := replicate TSL_MAX_STAMPS 0, user := usr, puser := pusr\<rparr>"
  have i: "unat (tsl_entry_index t mod tsl_entry_num_elements t) = ?i" "?i < length (ptsl_entry t)"
    using h ok by (simp_all add: tsl_holds_def tsl_ok_def unat_mod_distrib)
  have inc: "unat (tsl_entry_index t + 1) = Suc (length h)"
    using h room by (simp add: tsl_holds_def unat_word_ariths)
  have t': "t' = t\<lparr>ptsl_entry := (ptsl_entry t)[?i := ?e], tsl_entry_index := tsl_entry_index t + 1,
      log_wrapped := if tsl_entry_num_elements t < tsl_entry_index t + 1 then 1 else log_wrapped t\<rparr>"
    using r ok en i(2) by (simp add: tsl_get_entry_index_autoinc_def Let_def i(1))
  have "tsl_ok t'"
    using ok i(2) unfolding t' tsl_ok_def by (auto dest!: set_update_subset_insert[THEN subsetD])
  moreover have "log_wrapped t' \<noteq> 0 \<longleftrightarrow> ?n < length (h @ [(usr, pusr)])"
    using h inc by (auto simp: t' tsl_holds_def word_less_nat_alt)
  moreover have "tsl_tag (ptsl_entry t' ! (k mod ?n)) = (h @ [(usr, pusr)]) ! k"
    if k: "k < Suc (length h)" "Suc (length h) \<le> k + ?n" for k
  proof (cases "k = length h")
    case True
    then show ?thesis using i(2) by (simp add: t')
  next
    case False
    then have lt: "k < length h" using k by simp
    have "length h - k < ?n" using lt k by linarith
    then have "k mod ?n \<noteq> ?i"
      using mod_add_inj[of 0 ?n "length h - k" k] lt by auto
    then show ?thesis using lt k h by (simp add: t' tsl_holds_def nth_append)
  qed
  ultimately show ?thesis
    using room inc by (auto simp: tsl_holds_def t')
qed

lemma tsl_stamp:
  assumes ok: "tsl_ok t" and r: "tsl_add_time_stamp now (Some t) i k = Inr (rc, Some t')"
  shows "tsl_ok t' \<and> (tsl_holds t h \<longrightarrow> tsl_holds t' h)"
proof (cases "enable t = 0 \<or> i = TSL_NOP_ENTRY_INDEX \<or> tsl_entry_num_elements t \<le> i \<or> TSL_MAX_STAMPS \<le> unat k")
  case True
  then have "t' = t" using r ok by (auto simp: tsl_add_time_stamp_def Let_def split: if_splits)
  then show ?thesis using ok by simp
next
  case False
  let ?e = "ptsl_entry t ! unat i"
  have i: "unat i < length (ptsl_entry t)"
    using ok False by (simp add: tsl_ok_def word_le_nat_alt)
  then have l: "length (stamps ?e) = TSL_MAX_STAMPS"
    using ok by (simp add: tsl_ok_def)
  have t': "t' = t\<lparr>ptsl_entry := (ptsl_entry t)[unat i := ?e\<lparr>stamps := (stamps ?e)[unat k := now]\<rparr>]\<rparr>"
    using r ok False i l by (simp add: tsl_add_time_stamp_def Let_def)
  show ?thesis
    using tsl_ok_cong[OF ok, of t'] tsl_holds_cong[OF _ ok, of h t'] i
    by (simp add: t' map_update_same)
qed

lemma tsl_reach_inv: "tsl_reach t h \<Longrightarrow> tsl_ok t \<and> tsl_holds t h"
proof (induction rule: tsl_reach.induct)
  case (created n t)
  then have n: "0 < unat n" "unat n \<le> 16384"
    by (auto simp: tsl_alloc_def TSL_MIN_ELEMENTS_def TSL_MAX_ELEMENTS_def word_le_nat_alt word_less_nat_alt
        split: if_splits)
  with created show ?case
    by (auto simp: tsl_alloc_def tsl_ok_def fresh_entries_stamps tsl_holds_Nil split: if_splits)
next
  case (reserved t h usr pusr rc i t')
  then show ?case using tsl_reserve by blast
next
  case (refused t h usr pusr rc i t')
  then show ?case by (auto simp: tsl_get_entry_index_autoinc_def Let_def)
next
  case (stamped t h now i k rc t')
  then show ?case using tsl_stamp by blast
next
  case (lock t h l rc t')
  then show ?case by (auto simp: tsl_lock_def Let_def tsl_ok_def tsl_holds_def split: if_splits)
next
  case (able t h en rc t')
  then show ?case by (auto simp: tsl_enable_def Let_def tsl_ok_def tsl_holds_def)
next
  case (reset t h t')
  then show ?case
    by (auto simp: tsl_reset_def Let_def tsl_ok_def tsl_holds_Nil fresh_entries_stamps split: if_splits)
next
  case (primed t h rc t')
  then show ?case by (auto simp: tsl_log_prime_def Let_def tsl_ok_def tsl_holds_def)
next
  case (fetched t h rc e t')
  then show ?case using tsl_ok_slot[of t "log_index t"]
    by (auto simp: tsl_log_get_entry_def Let_def tsl_ok_def tsl_holds_def)
qed
section \<open>Reading the log\<close>

text \<open>The part of the history the ring still holds.\<close>

definition tsl_kept :: "tsl_log_t \<Rightarrow> tsl_hist \<Rightarrow> tsl_hist" where
  "tsl_kept t h = drop (length h - tsl_cap t) h"

lemma length_tsl_kept: "length (tsl_kept t h) = min (tsl_cap t) (length h)"
  by (simp add: tsl_kept_def min_def)

lemma pred_mod: "0 < (n::nat) \<Longrightarrow> 0 < c \<Longrightarrow> (n - 1) mod c = (if n mod c = 0 then c - 1 else n mod c - 1)"
  by (cases n) (auto simp: mod_Suc)

lemma unat_pred: "0 < unat x \<Longrightarrow> unat (x - 1 :: u32) = unat x - 1"
  by (subst unat_sub) (simp_all add: word_le_nat_alt)

text \<open>After priming, reading starts at the oldest reservation kept and ends at the newest.\<close>

lemma tsl_prime_bounds:
  assumes ok: "tsl_ok t" and hl: "tsl_holds t h" and ne: "h \<noteq> []"
    and p: "tsl_log_prime (Some t) = (rc, Some t')"
  shows "unat (log_start t') = (length h - length (tsl_kept t h)) mod tsl_cap t"
    and "unat (log_end t') = (length h - 1) mod tsl_cap t" and "log_index t' = log_start t'"
    and "ptsl_entry t' = ptsl_entry t" and "tsl_entry_num_elements t' = tsl_entry_num_elements t"
    and "tsl_ok t'"
proof -
  note d = p[unfolded tsl_log_prime_def tsl_ok_valid[OF ok] Let_def, simplified, THEN conjunct2, symmetric]
  let ?x = "tsl_entry_index t" and ?n = "tsl_entry_num_elements t"
  have m: "unat (?x mod ?n) = length h mod tsl_cap t"
    using hl by (simp add: unat_mod_distrib tsl_holds_def)
  have w: "log_wrapped t \<noteq> 0 \<longleftrightarrow> tsl_cap t < length h" and l: "unat ?x = length h" "0 < length h"
    using hl ne by (auto simp: tsl_holds_def)
  have pos: "0 < tsl_cap t" by (rule tsl_ok_pos[OF ok])
  then have one: "unat (?n - 1) = tsl_cap t - 1" "unat (?x - 1) = length h - 1"
    using l by (simp_all add: unat_pred)
  have st: "unat (?x mod ?n - 1) = length h mod tsl_cap t - 1" if "?x mod ?n \<noteq> 0"
  proof -
    have "0 < unat (?x mod ?n)" using that by (simp add: unat_gt_0)
    then show ?thesis by (simp add: unat_pred m)
  qed
  show "log_index t' = log_start t'" "ptsl_entry t' = ptsl_entry t"
    "tsl_entry_num_elements t' = tsl_entry_num_elements t"
    by (simp_all add: d)
  show "tsl_ok t'" using ok by (simp add: d tsl_ok_def)
  show "unat (log_start t') = (length h - length (tsl_kept t h)) mod tsl_cap t"
    using w m by (auto simp: d length_tsl_kept min_def le_mod_geq)
  show "unat (log_end t') = (length h - 1) mod tsl_cap t"
  proof (cases "tsl_cap t < length h")
    case True
    then show ?thesis
      using w pred_mod[OF l(2) pos] one(1) st m by (auto simp: d unat_eq_0[symmetric])
  next
    case False
    then have "length h - 1 < tsl_cap t" using l(2) by linarith
    then show ?thesis using w False one(2) by (simp add: d)
  qed
qed

text \<open>The slot and the return code of the \<open>j\<close>-th read.\<close>

lemma tsl_read_slot:
  assumes ok: "tsl_ok t" and hl: "tsl_holds t h" and j: "j < length (tsl_kept t h)"
    and p: "tsl_log_prime (Some t) = (rc, Some t')"
  defines "i \<equiv> (log_start t' + of_nat j) mod tsl_entry_num_elements t'"
  shows "tsl_tag (ptsl_entry t' ! unat i) = tsl_kept t h ! j"
    and "i = log_end t' \<longleftrightarrow> Suc j = length (tsl_kept t h)" and "unat i < length (ptsl_entry t')"
proof -
  let ?m = "length (tsl_kept t h)" and ?n = "tsl_cap t"
  have ne: "h \<noteq> []" using j by (auto simp: tsl_kept_def)
  note b = tsl_prime_bounds[OF ok hl ne p]
  have n: "0 < ?n" "?n \<le> 16384" using ok by (simp_all add: tsl_ok_def)
  have jm: "j < ?n" "?m \<le> length h" "?m \<le> ?n" "length h - ?m + j < length h"
    using j by (auto simp: length_tsl_kept)
  have "unat (log_start t') < ?n" using n by (simp add: b(1))
  then have "unat (log_start t' + of_nat j) = unat (log_start t') + j"
    using n jm(1) by (simp add: unat_word_ariths unsigned_of_nat take_bit_nat_eq_self)
  then have i: "unat i = (length h - ?m + j) mod ?n"
    by (simp add: i_def unat_mod_distrib b(1,5) mod_add_left_eq)
  show "unat i < length (ptsl_entry t')" using ok n by (simp add: i b(4) tsl_ok_def)
  have k: "length h \<le> length h - ?m + j + ?n" using jm by linarith
  have "tsl_kept t h ! j = h ! (length h - ?m + j)"
    using j by (auto simp: tsl_kept_def min_def length_tsl_kept)
  then show "tsl_tag (ptsl_entry t' ! unat i) = tsl_kept t h ! j"
    using hl jm(4) k by (simp add: i b(4) tsl_holds_def)
  have "i = log_end t' \<longleftrightarrow> (length h - ?m + j) mod ?n = (length h - ?m + (?m - 1)) mod ?n"
    using jm j ne by (simp add: word_unat_eq_iff i b(2))
  also have "\<dots> \<longleftrightarrow> j = ?m - 1"
    using mod_add_inj[of j ?n "?m - 1" "length h - ?m"] jm j n by auto
  finally show "i = log_end t' \<longleftrightarrow> Suc j = ?m" using j by auto
qed

text \<open>A log of two slots after three reservations.\<close>

lemma tsl_three:
  "\<exists>t. tsl_reach t [(7, None), (8, Some 4), (9, None)] \<and> tsl_entry_num_elements t = 2"
proof -
  let ?r = "\<lambda>t u p. projr (tsl_get_entry_index_autoinc (Some t) u p True)"
  let ?f = "\<lambda>t u p. the (snd (snd (?r t u p)))"
  define t0 where "t0 = the (tsl_alloc True True 2)"
  have "tsl_reach t0 []"
    by (rule tsl_reach.created[of 2]) (simp add: t0_def tsl_alloc_def TSL_MIN_ELEMENTS_def TSL_MAX_ELEMENTS_def)
  have step: "tsl_reach (?f t u p) (h @ [(u, p)]) \<and> tsl_entry_num_elements (?f t u p) = 2 \<and> enable (?f t u p) = 1 \<and> locked (?f t u p) = 0"
    if "tsl_reach t h" "length h < 3" "tsl_entry_num_elements t = 2" "enable t = 1" "locked t = 0" for t h u p
  proof -
    have ok: "tsl_ok t" using tsl_reach_inv[OF that(1)] by simp
    have "\<exists>t'. tsl_get_entry_index_autoinc (Some t) u p True =
        Inr (0, Some (tsl_entry_index t mod tsl_entry_num_elements t), Some t') \<and>
        tsl_entry_num_elements t' = 2 \<and> enable t' = 1 \<and> locked t' = 0"
      using ok that tsl_ok_slot[OF ok, of "tsl_entry_index t"]
      by (simp add: tsl_get_entry_index_autoinc_def Let_def)
    then obtain t' where "tsl_get_entry_index_autoinc (Some t) u p True =
        Inr (0, Some (tsl_entry_index t mod tsl_entry_num_elements t), Some t')"
        "tsl_entry_num_elements t' = 2 \<and> enable t' = 1 \<and> locked t' = 0" by blast
    with tsl_reach.reserved[OF that(1) _ _ _ this(1)] that show ?thesis by simp
  qed
  have t0: "tsl_entry_num_elements t0 = 2" "enable t0 = 1" "locked t0 = 0"
    by (simp_all add: t0_def tsl_alloc_def TSL_MIN_ELEMENTS_def TSL_MAX_ELEMENTS_def)
  note s1 = step[OF \<open>tsl_reach t0 []\<close> _ t0, of 7 None]
  note s2 = step[of _ "[(7, None)]" 8 "Some 4"]
  note s3 = step[of _ "[(7, None), (8, Some 4)]" 9 None]
  show ?thesis using s1 s2 s3 by fastforce
qed

lemma tsl_prime_exists: "tsl_ok t \<Longrightarrow> \<exists>t'. tsl_log_prime (Some t) = (0, Some t')"
  by (simp add: tsl_log_prime_def Let_def)

text \<open>
  C38. On a reached log, priming succeeds, the reported number of entries is that of the
  reservations still held, and reading by index returns them oldest first, the last one, and
  only it, with the warning of the last entry. This is the reader of the drivers' proc files.
\<close>

theorem tsl_log_get_entry_by_index_kept:
  assumes "tsl_reach t h" "j < length (tsl_kept t h)"
  shows "\<exists>t' e. tsl_log_prime (Some t) = (TSL_ERROR_ERROR_NONE, Some t') \<and>
     tsl_log_get_num_entries (Some t') True = (TSL_ERROR_ERROR_NONE, Some (of_nat (length (tsl_kept t h)))) \<and>
     tsl_log_get_entry_by_index (Some t') (of_nat j) True =
       Inr (if Suc j = length (tsl_kept t h) then TSL_WARNING_TSL_LAST_LOG_ENTRY else TSL_ERROR_ERROR_NONE,
            Some e) \<and>
     tsl_tag e = tsl_kept t h ! j"
proof -
  have ok: "tsl_ok t" and hl: "tsl_holds t h" using tsl_reach_inv[OF assms(1)] by auto
  obtain t' where p: "tsl_log_prime (Some t) = (0, Some t')" using tsl_prime_exists[OF ok] by auto
  have ne: "h \<noteq> []" using assms(2) by (auto simp: tsl_kept_def)
  note b = tsl_prime_bounds[OF ok hl ne p] and s = tsl_read_slot[OF ok hl assms(2) p]
  have "tsl_holds t' h"
    using p ok hl by (auto simp: tsl_log_prime_def Let_def tsl_holds_def)
  then have "unat (tsl_entry_index t') = length h" "log_wrapped t' \<noteq> 0 \<longleftrightarrow> tsl_cap t < length h"
    by (simp_all add: tsl_holds_def b(5))
  then have "tsl_log_get_num_entries (Some t') True = (0, Some (of_nat (length (tsl_kept t h))))"
    using b(5,6) by (auto simp: tsl_log_get_num_entries_def Let_def length_tsl_kept min_def
        dest: sym[of "unat _"])
  moreover have "tsl_log_get_entry_by_index (Some t') (of_nat j) True =
      Inr (if Suc j = length (tsl_kept t h) then 1 else 0,
        Some (ptsl_entry t' ! unat ((log_start t' + of_nat j) mod tsl_entry_num_elements t')))"
    using b(6) s(3) by (simp add: tsl_log_get_entry_by_index_def Let_def s(2))
  ultimately show ?thesis using p s(1) by blast
qed

theorem tsl_log_get_entry_by_index_kept_witness:
  "\<exists>t. tsl_reach t [(7, None), (8, Some 4), (9, None)] \<and> tsl_kept t [(7, None), (8, Some 4), (9, None)] = [(8, Some 4), (9, None)] \<and>
     (\<exists>t' e. tsl_log_prime (Some t) = (0, Some t') \<and> tsl_log_get_num_entries (Some t') True = (0, Some 2) \<and>
       tsl_log_get_entry_by_index (Some t') (of_nat 1) True = Inr (1, Some e) \<and> tsl_tag e = (9, None))"
proof -
  obtain t where t: "tsl_reach t [(7, None), (8, Some 4), (9, None)]" "tsl_entry_num_elements t = 2"
    using tsl_three by blast
  have k: "tsl_kept t [(7, None), (8, Some 4), (9, None)] = [(8, Some 4), (9, None)]"
    using t(2) by (simp add: tsl_kept_def)
  show ?thesis
    using tsl_log_get_entry_by_index_kept[OF t(1), of 1] t(1) k by simp blast
qed

text \<open>
  The reader the interface describes: fetch until an entry comes with the warning of the last
  one. \<open>None\<close> says that the given number of calls did not end with it.
\<close>

primrec tsl_fetch :: "nat \<Rightarrow> tsl_log_t option \<Rightarrow> tsl_entry_t list option" where
  "tsl_fetch 0 p = None"
| "tsl_fetch (Suc n) p =
     (case tsl_log_get_entry p True of
        Inr (rc, Some e, p') \<Rightarrow>
          if rc = TSL_WARNING_TSL_LAST_LOG_ENTRY then Some [e]
          else if rc = TSL_ERROR_ERROR_NONE then map_option (Cons e) (tsl_fetch n p') else None
      | _ \<Rightarrow> None)"

lemma tsl_log_get_entry_slot:
  assumes "tsl_ok t" and "unat (log_index t mod tsl_entry_num_elements t) < length (ptsl_entry t)"
  shows "tsl_log_get_entry (Some t) True =
    Inr (if log_index t mod tsl_entry_num_elements t = log_end t then 1 else 0,
      Some (ptsl_entry t ! unat (log_index t mod tsl_entry_num_elements t)), Some (t\<lparr>log_index := log_index t + 1\<rparr>))"
  using assms by (simp add: tsl_log_get_entry_def Let_def)




text \<open>
  On a log without a reservation the end of the fetch is the index before 0, which no slot has:
  the reader is never told to stop, however many calls it makes.
\<close>

theorem tsl_fetch_empty_never_ends:
  assumes "tsl_reach t []" "tsl_log_prime (Some t) = (rc, Some t')"
  shows "tsl_fetch n (Some t') = None"
proof -
  have ok: "tsl_ok t" and hl: "tsl_holds t []" using tsl_reach_inv[OF assms(1)] by auto
  have e: "log_end t' = 0xFFFFFFFF" "tsl_ok t'" using assms(2) ok hl
    by (auto simp: tsl_log_prime_def Let_def tsl_holds_def tsl_ok_def unat_eq_0)
  have "tsl_fetch n (Some (t'\<lparr>log_index := i\<rparr>)) = None" for i
  proof (induction n arbitrary: i)
    case (Suc n)
    let ?i = "i mod tsl_entry_num_elements t'"
    have ok': "tsl_ok (t'\<lparr>log_index := i\<rparr>)" using e(2) by (simp add: tsl_ok_def)
    have "unat ?i < length (ptsl_entry t')" "unat ?i < 16384"
      using tsl_ok_slot[OF e(2), of i] e(2) by (auto simp: tsl_ok_def)
    then have "?i \<noteq> 0xFFFFFFFF" using word_unat_eq_iff[of ?i "0xFFFFFFFF"] by simp
    with tsl_log_get_entry_slot[OF ok'] \<open>unat ?i < length _\<close> Suc show ?case by (simp add: e(1))
  qed simp
  from this[of "log_index t'"] show ?thesis by simp
qed

theorem tsl_fetch_empty_never_ends_witness:
  "\<exists>t t'. tsl_alloc True True 4 = Some t \<and> tsl_log_prime (Some t) = (0, Some t') \<and> (\<forall>n. tsl_fetch n (Some t') = None)"
proof -
  obtain t where t: "tsl_alloc True True 4 = Some t"
    by (simp add: tsl_alloc_def TSL_MIN_ELEMENTS_def TSL_MAX_ELEMENTS_def)
  have r: "tsl_reach t []" by (rule tsl_reach.created[OF t])
  obtain t' where p: "tsl_log_prime (Some t) = (0, Some t')"
    using tsl_reach_inv[OF r] tsl_prime_exists by blast
  show ?thesis using t p tsl_fetch_empty_never_ends[OF r p] by blast
qed

text \<open>
  No operation on a reached log, whatever its arguments, reads or writes outside the slots or
  their stamps.
\<close>

theorem tsl_operations_in_bounds:
  assumes "tsl_reach t h"
  shows "\<exists>r1 r2 r3 r4 r5. tsl_get_entry_index_autoinc (Some t) usr pusr out = Inr r1 \<and>
     tsl_add_time_stamp now (Some t) i k = Inr r2 \<and> tsl_reset (Some t) = Inr r3 \<and>
     tsl_log_get_entry (Some t) out = Inr r4 \<and> tsl_log_get_entry_by_index (Some t) j out = Inr r5"
proof -
  have ok: "tsl_ok t" using tsl_reach_inv[OF assms] by simp
  note slot = tsl_ok_slot[OF ok]
  have "\<exists>r1. tsl_get_entry_index_autoinc (Some t) usr pusr out = Inr r1"
    using ok slot by (auto simp: tsl_get_entry_index_autoinc_def Let_def)
  moreover have "\<exists>r2. tsl_add_time_stamp now (Some t) i k = Inr r2"
    using ok by (auto simp: tsl_add_time_stamp_def Let_def tsl_ok_def word_le_nat_alt not_le)
  moreover have "\<exists>r3. tsl_reset (Some t) = Inr r3"
    using ok by (auto simp: tsl_reset_def Let_def tsl_ok_def)
  moreover have "\<exists>r4. tsl_log_get_entry (Some t) out = Inr r4"
    using ok slot by (auto simp: tsl_log_get_entry_def Let_def)
  moreover have "\<exists>r5. tsl_log_get_entry_by_index (Some t) j out = Inr r5"
    using ok slot by (auto simp: tsl_log_get_entry_by_index_def Let_def)
  ultimately show ?thesis by blast
qed

theorem tsl_operations_in_bounds_witness:
  "\<exists>t r. tsl_reach t [(7, None), (8, Some 4), (9, None)] \<and> tsl_add_time_stamp 5 (Some t) 1 4 = Inr r"
  using tsl_three tsl_operations_in_bounds by blast

end
