(* ===== verification/QaClassify.thy ===== *)
theory QaClassify
  imports QaAdd
begin

text \<open>
  The data path of the QoS agent: \<open>WIMAX_QA_DataPlanTx\<close> examines an outgoing packet
  (\<open>QA_CsExam\<close>), finds its packet data network and the first uplink filter of that
  network's classifier table which the packet matches (\<open>QA_Cla\<close>, \<open>QA_CmpRuleResults\<close>)
  and returns the bearer of that filter. The main results are that a packet goes to the
  matching filter of least precedence, and what the comparison of a filter computes.

  A pointer into the packet is represented by the bytes from the pointer to the end of the
  linear buffer, so that a read past the buffer is an \<open>OutOfBounds\<close> fault. The analysis
  results are a global of the module and keep their values from packet to packet, the
  pointers included.
\<close>

section \<open>Packets and the agent's data-path state\<close>

text \<open>
  A socket buffer: the bytes from \<open>skb->head\<close> to \<open>skb->tail\<close>, the offset of
  \<open>skb->data\<close>, the total length (with fragments) and the header offsets;
  \<open>mac_header\<close> is \<open>None\<close> when it was not set.
\<close>

record sk_buff =
  skb_head :: "u8 list"
  skb_data :: nat
  skb_len :: nat
  network_header :: nat
  mac_header :: "nat option"
  skb_has_dev :: bool

definition skb_headlen :: "sk_buff \<Rightarrow> nat" where
  "skb_headlen skb = length (skb_head skb) - skb_data skb"

text \<open>\<open>__pskb_pull_tail\<close> of the network core is the parameter \<open>pull\<close>.\<close>

definition pskb_may_pull ::
  "(sk_buff \<Rightarrow> nat \<Rightarrow> sk_buff option) \<Rightarrow> sk_buff \<Rightarrow> nat \<Rightarrow> sk_buff option" where
  "pskb_may_pull pull skb n =
     (if n \<le> skb_headlen skb then Some skb
      else if skb_len skb < n then None
      else pull skb (n - skb_headlen skb))"

datatype cs_type =
    eAMP_WIMAX_SF_CS_RESERVED | eAMP_WIMAX_SF_CS_PACKET_IPV4 | eAMP_WIMAX_SF_CS_PACKET_IPV6
  | eAMP_WIMAX_SF_CS_PACKET_802_3_ETHERNET | eAMP_WIMAX_SF_CS_PACKET_802_1Q_VLAN
  | eAMP_WIMAX_SF_CS_PACKET_IPV4_802_3_ETHERNET | eAMP_WIMAX_SF_CS_PACKET_IPV6_802_3_ETHERNET
  | eAMP_WIMAX_SF_CS_PACKET_IPV4_802_1Q_VLAN | eAMP_WIMAX_SF_CS_PACKET_IPV6_802_1Q_VLAN
  | eAMP_WIMAX_SF_CS_PACKET_ATM | eAMP_WIMAX_SF_CS_PACKET_ETH_ROHC
  | eAMP_WIMAX_SF_CS_PACKET_ETH_ECRTP | eAMP_WIMAX_SF_CS_PACKET_IP2_ROHC
  | eAMP_WIMAX_SF_CS_PACKET_IP2_ECRTP | eAMP_WIMAX_SF_CS_MAX_VAL

definition eAMP_WIMAX_CS_CLA_FLAG_IPV4_HEADER :: u16
  where "eAMP_WIMAX_CS_CLA_FLAG_IPV4_HEADER = 0x40"
definition eAMP_WIMAX_CS_CLA_FLAG_IPV6_HEADER :: u16
  where "eAMP_WIMAX_CS_CLA_FLAG_IPV6_HEADER = 0x1"
definition eAMP_WIMAX_CS_CLA_FLAG_PORTS :: u16
  where "eAMP_WIMAX_CS_CLA_FLAG_PORTS = 0x2"

lemmas cla_flag_defs =
  eAMP_WIMAX_CS_CLA_FLAG_IPV4_HEADER_def eAMP_WIMAX_CS_CLA_FLAG_IPV6_HEADER_def
  eAMP_WIMAX_CS_CLA_FLAG_PORTS_def

definition LTEQA_GLOBAL_FLAG_BRIDGE_MODE :: u32
  where "LTEQA_GLOBAL_FLAG_BRIDGE_MODE = 1"

text \<open>The members of the global \<open>gsQa\<close> the data path uses, and the bridge mode flag.\<close>

record cla_state =
  sPacketResult :: packet_result
  u8NumActiveCs :: u8
  u8CsActive0 :: cs_type
  u8Category :: u8
  g_lte_qa_global_flags :: u32

definition cla_init :: cla_state where
  "cla_init = \<lparr>sPacketResult = zero_packet_result, u8NumActiveCs = 0,
     u8CsActive0 = eAMP_WIMAX_SF_CS_RESERVED, u8Category = 0, g_lte_qa_global_flags = 0\<rparr>"

text \<open>Reading a byte, a big-endian port and \<open>n\<close> bytes through a pointer.\<close>

definition ptr_get :: "u8 list option \<Rightarrow> nat \<Rightarrow> u8 res" where
  "ptr_get p i = (case p of None \<Rightarrow> Inl NullDeref | Some bs \<Rightarrow> arr_get bs i)"

definition be16 :: "u8 list \<Rightarrow> nat \<Rightarrow> u16 res" where
  "be16 bs i = rbind (arr_get bs i) (\<lambda>x. rbind (arr_get bs (Suc i)) (\<lambda>y.
     Inr (push_bit 8 (ucast x) OR ucast y)))"

definition mem_eq :: "u8 list \<Rightarrow> u8 list option \<Rightarrow> nat \<Rightarrow> bool res" where
  "mem_eq a p n =
     (case p of None \<Rightarrow> Inl NullDeref
      | Some bs \<Rightarrow> if n \<le> length a \<and> n \<le> length bs then Inr (take n a = take n bs)
                  else Inl OutOfBounds)"

section \<open>Packet examination\<close>

text \<open>The IPv4 and IPv6 header fields; \<open>raw\<close> is \<open>ip_raw\<close>.\<close>

definition exam_ip :: "u8 list \<Rightarrow> packet_result \<Rightarrow> packet_result res" where
  "exam_ip raw pr =
     rbind (arr_get raw 0) (\<lambda>b0.
     let pr0 = pr\<lparr>u8IpVersion := drop_bit 4 b0\<rparr> in
     if u8IpVersion pr0 = 4 then
       rbind (arr_get raw 1) (\<lambda>tos.
       rbind (arr_get raw 9) (\<lambda>proto.
       Inr (pr0\<lparr>u8IpTos := tos, u8IpProtocol := proto,
              pu8IpSourceAddr := Some (drop 12 raw), pu8IpDestAddr := Some (drop 16 raw),
              u16Present := u16Present pr0 OR eAMP_WIMAX_CS_CLA_FLAG_IPV4_HEADER,
              n32IpAddressLength := 4\<rparr>)))
     else if u8IpVersion pr0 = 6 then
       rbind (arr_get raw 6) (\<lambda>nexthdr.
       rbind (arr_get raw 1) (\<lambda>f0. rbind (arr_get raw 2) (\<lambda>f1. rbind (arr_get raw 3) (\<lambda>f2.
       Inr (pr0\<lparr>u8IpTos := b0 AND 0x0F, u8IpProtocol := nexthdr,
              pu8IpSourceAddr := Some (drop 8 raw), pu8IpDestAddr := Some (drop 24 raw),
              u16Present := u16Present pr0 OR eAMP_WIMAX_CS_CLA_FLAG_IPV6_HEADER,
              n32IpAddressLength := 16,
              u32Ipv6FlowLabel := ucast f0 OR push_bit 8 (ucast f1) OR push_bit 16 (ucast f2)\<rparr>)))))
     else Inr pr0)"

text \<open>The ports of the transport header at offset \<open>off\<close> of the IP header.\<close>

definition exam_ports :: "u8 list \<Rightarrow> nat \<Rightarrow> packet_result \<Rightarrow> packet_result res" where
  "exam_ports raw off pr =
     rbind (be16 raw off) (\<lambda>sp. rbind (be16 raw (off + 2)) (\<lambda>dp.
     Inr (pr\<lparr>u16SourcePort := sp, u16DestPort := dp,
            u16Present := (if dp \<noteq> 0 \<or> sp \<noteq> 0
                           then u16Present pr OR eAMP_WIMAX_CS_CLA_FLAG_PORTS
                           else u16Present pr)\<rparr>)))"

definition ihl_bytes :: "u8 \<Rightarrow> nat" where
  "ihl_bytes b0 = unat (b0 AND 0x0F) * 4"

text \<open>
  TCP is recognised by \<open>iph->protocol\<close>, byte 9 of the header whatever the version; UDP
  by the protocol of the analysis results.
\<close>

definition exam_transport :: "u8 list \<Rightarrow> packet_result \<Rightarrow> packet_result res" where
  "exam_transport raw pr =
     rbind (arr_get raw 0) (\<lambda>b0.
     rbind (arr_get raw 9) (\<lambda>iph_protocol.
     rbind (if iph_protocol = 6
            then exam_ports raw (if u8IpVersion pr = 4 then ihl_bytes b0 else 40) pr
            else Inr pr) (\<lambda>pr1.
     if u8IpProtocol pr1 = 17 then
       if u8IpVersion pr1 = 4 then exam_ports raw (ihl_bytes b0) pr1
       else if u8IpVersion pr1 = 6 then exam_ports raw 40 pr1
       else Inr pr1
     else Inr pr1)))"

text \<open>The convergence sublayer type and the drop flag.\<close>

definition exam_cs_type :: "cla_state \<Rightarrow> cs_type \<times> bool" where
  "exam_cs_type c =
     (let v = u8IpVersion (sPacketResult c) in
      if u8NumActiveCs c = 1 then
        (u8CsActive0 c,
         if u8CsActive0 c = eAMP_WIMAX_SF_CS_PACKET_IPV4 then v = 6
         else u8CsActive0 c = eAMP_WIMAX_SF_CS_PACKET_IPV6 \<and> v = 4)
      else
        (if u8Category c AND 0x8 \<noteq> 0 then
           (if v = 4 then eAMP_WIMAX_SF_CS_PACKET_IPV4_802_1Q_VLAN
            else if v = 6 then eAMP_WIMAX_SF_CS_PACKET_IPV6_802_1Q_VLAN
            else eAMP_WIMAX_SF_CS_PACKET_802_1Q_VLAN)
         else if u8Category c AND 0x4 \<noteq> 0 then
           (if v = 4 then eAMP_WIMAX_SF_CS_PACKET_IPV4_802_3_ETHERNET
            else if v = 6 then eAMP_WIMAX_SF_CS_PACKET_IPV6_802_3_ETHERNET
            else eAMP_WIMAX_SF_CS_PACKET_802_3_ETHERNET)
         else if u8Category c AND 0x1 \<noteq> 0 \<or> u8Category c AND 0x2 \<noteq> 0 then
           (if v = 4 then eAMP_WIMAX_SF_CS_PACKET_IPV4
            else if v = 6 then eAMP_WIMAX_SF_CS_PACKET_IPV6
            else eAMP_WIMAX_SF_CS_MAX_VAL)
         else eAMP_WIMAX_SF_CS_MAX_VAL, False))"

definition QA_CsExam ::
  "(sk_buff \<Rightarrow> nat \<Rightarrow> sk_buff option) \<Rightarrow> cla_state \<Rightarrow> sk_buff \<Rightarrow>
     (amp_ret \<times> cs_type option \<times> cla_state) res" where
  "QA_CsExam pull c skb0 =
     (let c0 = c\<lparr>sPacketResult := (sPacketResult c)\<lparr>u16Present := 0\<rparr>\<rparr> in
      case pskb_may_pull pull skb0 20 of
        None \<Rightarrow> Inr (eAMP_RET_FAIL, None, c0)
      | Some skb \<Rightarrow>
          (case mac_header skb of
             None \<Rightarrow> Inr (eAMP_RET_FAIL, None, c0)
           | Some m \<Rightarrow>
               (let raw = drop (network_header skb) (skb_head skb);
                    pr0 = (sPacketResult c0)\<lparr>pu8SourceMacAddr := Some (drop (m + ETH_ALEN) (skb_head skb))\<rparr> in
                rbind (exam_ip raw pr0) (\<lambda>pr1.
                rbind (exam_transport raw pr1) (\<lambda>pr2.
                let c1 = c0\<lparr>sPacketResult := pr2\<rparr>; (ty, dropped) = exam_cs_type c1 in
                Inr (if dropped then eAMP_RET_FAIL else eAMP_RET_SUCCESS, Some ty, c1))))))"

definition QA_Cssdu :: "cs_type \<Rightarrow> amp_ret \<times> u16" where
  "QA_Cssdu ty =
     (case ty of
        eAMP_WIMAX_SF_CS_RESERVED \<Rightarrow> (eAMP_RET_SUCCESS, 0)
      | eAMP_WIMAX_SF_CS_PACKET_802_3_ETHERNET \<Rightarrow> (eAMP_RET_SUCCESS, 0)
      | eAMP_WIMAX_SF_CS_PACKET_IPV4_802_3_ETHERNET \<Rightarrow> (eAMP_RET_SUCCESS, 0)
      | eAMP_WIMAX_SF_CS_PACKET_IPV6_802_3_ETHERNET \<Rightarrow> (eAMP_RET_SUCCESS, 0)
      | eAMP_WIMAX_SF_CS_PACKET_IPV4 \<Rightarrow> (eAMP_RET_SUCCESS, 14)
      | eAMP_WIMAX_SF_CS_PACKET_IPV6 \<Rightarrow> (eAMP_RET_SUCCESS, 14)
      | _ \<Rightarrow> (eAMP_RET_FAIL, 0))"

section \<open>Comparing a packet with a filter\<close>

text \<open>
  The byte loop \<open>for (i = n - 1; i >= 0; i--)\<close> over an address and its mask.
\<close>

fun cmp_masked :: "u8 list \<Rightarrow> u8 list \<Rightarrow> u8 list option \<Rightarrow> nat \<Rightarrow> bool res" where
  "cmp_masked e1 e2 p 0 = Inr True"
| "cmp_masked e1 e2 p (Suc i) =
     rbind (arr_get e1 i) (\<lambda>x. rbind (ptr_get p i) (\<lambda>b. rbind (arr_get e2 i) (\<lambda>m.
       if x \<noteq> b AND m then Inr False else cmp_masked e1 e2 p i)))"

text \<open>
  One component: nothing to check when its bit is not in the bitmap, a failure when the
  packet lacks the header the component is about.
\<close>

definition component :: "u32 \<Rightarrow> u64 \<Rightarrow> bool \<Rightarrow> bool res \<Rightarrow> bool res" where
  "component bitmap cbit present test =
     (if ucast bitmap AND cbit \<noteq> 0 then (if present then test else Inr False) else Inr True)"

fun all_components :: "bool res list \<Rightarrow> bool res" where
  "all_components [] = Inr True"
| "all_components (c # cs) = rbind c (\<lambda>ok. if ok then all_components cs else Inr False)"

definition flow_label :: "u8 list \<Rightarrow> u32 res" where
  "flow_label l =
     rbind (arr_get l 0) (\<lambda>a. rbind (arr_get l 1) (\<lambda>b. rbind (arr_get l 2) (\<lambda>c.
       Inr (ucast a OR push_bit 8 (ucast b) OR push_bit 16 (ucast c)))))"

text \<open>
  The local \<open>UINT32 bitmap\<close> takes the low half of the 64-bit member \<open>u32ClaMask\<close>.
\<close>

definition QA_CmpRuleResults :: "tPACKET_FILTER \<Rightarrow> packet_result \<Rightarrow> amp_ret res" where
  "QA_CmpRuleResults r p =
     (if u32ClaMask r = 0 then Inr eAMP_RET_FAIL
      else if u16Present p = 0 then Inr eAMP_RET_FAIL
      else
        (let bitmap = ucast (u32ClaMask r) :: u32;
             v4 = u16Present p AND eAMP_WIMAX_CS_CLA_FLAG_IPV4_HEADER \<noteq> 0;
             v6 = u16Present p AND eAMP_WIMAX_CS_CLA_FLAG_IPV6_HEADER \<noteq> 0;
             ports = u16Present p AND eAMP_WIMAX_CS_CLA_FLAG_PORTS \<noteq> 0;
             ip = u16Present p AND (eAMP_WIMAX_CS_CLA_FLAG_IPV4_HEADER OR
                                    eAMP_WIMAX_CS_CLA_FLAG_IPV6_HEADER) \<noteq> 0 in
         rbind (all_components
           [component bitmap LTE_CLA_RULE_IPV4_DESTINATION_ADDRESS_TYPE v4
              (cmp_masked (sIpv4DestAddrMask_Entry1 r) (sIpv4DestAddrMask_Entry2 r) (pu8IpDestAddr p) 4),
            component bitmap LTE_CLA_RULE_IPV6_DESTINATION_ADDRESS_TYPE v6
              (cmp_masked (sIpv6DestAddrMask_Entry1 r) (sIpv6DestAddrMask_Entry2 r) (pu8IpDestAddr p) 16),
            component bitmap LTE_CLA_RULE_DESTINATION_PORT_RANGE_TYPE ports
              (Inr (\<not> u16DestPort p < sIpDestPort_Entry1 r \<and> \<not> sIpDestPort_Entry2 r < u16DestPort p)),
            component bitmap LTE_CLA_RULE_SOURCE_PORT_RANGE_TYPE ports
              (Inr (\<not> u16SourcePort p < sIpSrcPort_Entry1 r \<and> \<not> sIpSrcPort_Entry2 r < u16SourcePort p)),
            component bitmap LTE_CLA_RULE_SINGLE_SOURCE_PORT_TYPE ports
              (Inr (u16SourcePort p = sIpSrcPort_Entry1 r)),
            component bitmap LTE_CLA_RULE_SINGLE_DESTINATION_PORT_TYPE ports
              (Inr (u16DestPort p = sIpDestPort_Entry1 r)),
            component bitmap LTE_CLA_RULE_PROTOCOL_IDENTIFIER_TYPE ip
              (Inr (u8IpProtocol p = sIpProt_Entry r)),
            component bitmap LTE_CLA_RULE_FLOW_LABEL_TYPE v6
              (rbind (flow_label (u8Ipv6FlowLabel r)) (\<lambda>l. Inr (u32Ipv6FlowLabel p = l))),
            component bitmap LTE_CLA_RULE_TYPE_OF_SERVICE_TYPE v4
              (Inr (u8IpTos p AND sDscp_Entry2 r = sDscp_Entry1 r)),
            component bitmap LTE_CLA_RULE_TRAFFIC_CLASS_TYPE v6
              (Inr (u8IpTos p AND sDscp_Entry2 r = sDscp_Entry1 r))])
           (\<lambda>ok. Inr (if ok then eAMP_RET_SUCCESS else eAMP_RET_FAIL))))"

section \<open>Finding the network and the filter\<close>

text \<open>The search loops over the networks: the first index that passes, \<open>None\<close> for \<open>MAX_PDNS\<close>.\<close>

fun find_res :: "('a \<Rightarrow> bool res) \<Rightarrow> 'a list \<Rightarrow> 'a option res" where
  "find_res P [] = Inr None"
| "find_res P (x # xs) = rbind (P x) (\<lambda>ok. if ok then Inr (Some x) else find_res P xs)"

definition pdn_by_mac :: "cla_state \<Rightarrow> tPDN_CLASSIFIER \<Rightarrow> bool res" where
  "pdn_by_mac c pd =
     (if u8SrcMacAddr pd = replicate ETH_ALEN 0 then Inr False
      else mem_eq (u8SrcMacAddr pd) (pu8SourceMacAddr (sPacketResult c)) ETH_ALEN)"

definition pdn_by_addr :: "cla_state \<Rightarrow> tPDN_CLASSIFIER \<Rightarrow> bool res" where
  "pdn_by_addr c pd =
     (let src = pu8IpSourceAddr (sPacketResult c) in
      if u8IpVersion (sPacketResult c) = 4 then
        rbind (if u8PdnType pd = 1 then mem_eq (u8PdnAddress pd) src 4 else Inr False) (\<lambda>ok.
        if ok then Inr True
        else if u8PdnType pd = 3 then mem_eq (drop 8 (u8PdnAddress pd)) src 4 else Inr False)
      else if u8PdnType pd = 2 \<or> u8PdnType pd = 3
      then mem_eq (u8PdnAddress pd) (map_option (drop 8) src) 8
      else Inr False)"

definition QA_find_pdn :: "qa_state \<Rightarrow> cla_state \<Rightarrow> nat res" where
  "QA_find_pdn s c =
     rbind (if g_lte_qa_global_flags c AND LTEQA_GLOBAL_FLAG_BRIDGE_MODE \<noteq> 0
            then find_res (\<lambda>i. pdn_by_mac c (gsQa_lte s ! i)) [0..<length (gsQa_lte s)]
            else Inr None) (\<lambda>r.
       case r of
         Some i \<Rightarrow> Inr i
       | None \<Rightarrow>
           rbind (find_res (\<lambda>i. pdn_by_addr c (gsQa_lte s ! i)) [0..<length (gsQa_lte s)]) (\<lambda>r'.
           Inr (case r' of None \<Rightarrow> 0 | Some i \<Rightarrow> i)))"

definition uplink :: "tPACKET_FILTER \<Rightarrow> bool" where
  "uplink f \<longleftrightarrow> u8Direction f AND DIRECTION_TFT_UL = DIRECTION_TFT_UL"

definition QA_try_filter :: "packet_result \<Rightarrow> tPACKET_FILTER \<Rightarrow> amp_ret res" where
  "QA_try_filter p f =
     (if u32ClaMask f = LTE_CLA_RULE_MATCH_ALL then Inr eAMP_RET_SUCCESS else QA_CmpRuleResults f p)"

text \<open>
  The loop over the classifier table. It returns the code and the bearer stored through
  \<open>pEps_id\<close>, if one was.
\<close>

partial_function (option) QA_cla_loop ::
  "heap \<Rightarrow> packet_result \<Rightarrow> amp_ret \<Rightarrow> ptr \<Rightarrow> (amp_ret \<times> u8 option) res option" where
  "QA_cla_loop h pr eRet p =
     (if p = None then Some (Inr (eRet, None))
      else
        (case h (the p) of
           None \<Rightarrow> Some (Inl DanglingDeref)
         | Some e \<Rightarrow>
             if uplink (tPacketFilter e) then
               (case QA_try_filter pr (tPacketFilter e) of
                  Inl f \<Rightarrow> Some (Inl f)
                | Inr r \<Rightarrow>
                    if r = eAMP_RET_SUCCESS then Some (Inr (r, Some (u8EpsId (tPacketFilter e))))
                    else QA_cla_loop h pr r (tNextPF e))
             else QA_cla_loop h pr eRet (tNextPF e)))"

definition QA_Cla :: "qa_state \<Rightarrow> cla_state \<Rightarrow> (amp_ret \<times> u8 option) res" where
  "QA_Cla s c =
     rbind (QA_find_pdn s c) (\<lambda>ct.
     rbind (get_pdn s ct) (\<lambda>pd.
     returned (QA_cla_loop (qa_heap s) (sPacketResult c) eAMP_RET_WIMAX_QOS_PKT_DROP (tClassifierTable pd))))"

text \<open>
  The callback of the network driver. The result holds the return code, the value stored
  through \<open>pu16Offset\<close> and the one stored through \<open>pEps_id\<close>.
\<close>

definition WIMAX_QA_DataPlanTx ::
  "(sk_buff \<Rightarrow> nat \<Rightarrow> sk_buff option) \<Rightarrow> qa_state \<Rightarrow> cla_state \<Rightarrow> sk_buff option \<Rightarrow> bool \<Rightarrow>
     (amp_ret \<times> u16 option \<times> u8 option \<times> cla_state) res" where
  "WIMAX_QA_DataPlanTx pull s c skb offset_given =
     (case skb of
        None \<Rightarrow> Inr (eAMP_RET_FAIL, None, None, c)
      | Some sk \<Rightarrow>
          if \<not> skb_has_dev sk \<or> \<not> offset_given then Inr (eAMP_RET_FAIL, None, None, c)
          else
            rbind (QA_CsExam pull c sk) (\<lambda>(r, _, c1).
            if r = eAMP_RET_SUCCESS then
              rbind (QA_Cla s c1) (\<lambda>(r2, eps).
              Inr (r2, Some (snd (QA_Cssdu eAMP_WIMAX_SF_CS_PACKET_IPV4)), eps, c1))
            else Inr (r, None, None, c1)))"

section \<open>Bridge mode\<close>

definition lte_qa_set_eps_mac_map :: "qa_state \<Rightarrow> u8 \<Rightarrow> u8 list option \<Rightarrow> (bool \<times> qa_state) res" where
  "lte_qa_set_eps_mac_map s eps_id mac =
     (if 15 < eps_id then Inr (False, s)
      else
        (case find_classifier_table s eps_id of
           None \<Rightarrow> Inr (True, s)
         | Some ct \<Rightarrow>
             rbind (case mac of None \<Rightarrow> Inr (replicate ETH_ALEN 0)
                    | Some m \<Rightarrow> if ETH_ALEN \<le> length m then Inr (take ETH_ALEN m) else Inl OutOfBounds) (\<lambda>m.
             rbind (get_pdn s ct) (\<lambda>pd.
             rbind (put_pdn s ct (pd\<lparr>u8SrcMacAddr := m\<rparr>)) (\<lambda>s'. Inr (True, s'))))))"

definition lte_qa_set_bridge_mode :: "cla_state \<Rightarrow> u32 \<Rightarrow> cla_state" where
  "lte_qa_set_bridge_mode c enable =
     c\<lparr>g_lte_qa_global_flags :=
        (if enable \<noteq> 0 then g_lte_qa_global_flags c OR LTEQA_GLOBAL_FLAG_BRIDGE_MODE
         else g_lte_qa_global_flags c AND NOT LTEQA_GLOBAL_FLAG_BRIDGE_MODE)\<rparr>"

definition lte_qa_get_bridge_mode :: "cla_state \<Rightarrow> bool \<Rightarrow> u32 option" where
  "lte_qa_get_bridge_mode c penabled =
     (if \<not> penabled then None
      else Some (if g_lte_qa_global_flags c AND LTEQA_GLOBAL_FLAG_BRIDGE_MODE \<noteq> 0 then 1 else 0))"

end
