(* ===== verification/NetDriver.thy ===== *)
theory NetDriver
  imports QaClassify
begin

text \<open>
  The network driver, src/kernel/drivers/lte/net_driver/net_driver_main.c: the list of devices,
  the transmit path with its flow control, the receive path, the bus interface the data driver
  calls, and the registration of the QoS callbacks.

  Network devices and socket buffers live in heaps, so that a use after free is a fault. A
  device and its private structure are one allocation: the private pointer \<open>ppriv\<close> is the
  address of its device. The bus object and the QoS module are states of their own, reached
  only through the functions of \<open>net_env\<close>. The kernel is the uniprocessor one of the board's
  configuration, whose spinlocks keep interrupts off: a critical section is one step. Return
  codes are the 32-bit words of AMP_lte_error.h.
\<close>

section \<open>Constants\<close>

definition AMP_ERROR_NONE :: u32 where "AMP_ERROR_NONE = 0"
definition AMP_ERROR_NET_DRV_INVALID_PARAM :: u32 where "AMP_ERROR_NET_DRV_INVALID_PARAM = 0x80100000"
definition AMP_ERROR_NET_DRV_RESOURCE_ALLOC :: u32 where "AMP_ERROR_NET_DRV_RESOURCE_ALLOC = 0x80100001"
definition AMP_ERROR_NET_DRV_REGISTRATION :: u32 where "AMP_ERROR_NET_DRV_REGISTRATION = 0x80100002"
definition AMP_ERROR_NET_DRV_MAX_DEVICES :: u32 where "AMP_ERROR_NET_DRV_MAX_DEVICES = 0x80100003"
definition AMP_ERROR_NET_DRV_DEVICE_NOT_FOUND :: u32 where "AMP_ERROR_NET_DRV_DEVICE_NOT_FOUND = 0x80100004"
definition AMP_ERROR_NET_DRV_INTERNAL :: u32 where "AMP_ERROR_NET_DRV_INTERNAL = 0x80100005"
definition AMP_ERROR_NET_DRV_PRIVATE_INVALID :: u32 where "AMP_ERROR_NET_DRV_PRIVATE_INVALID = 0x80100006"
definition AMP_ERROR_NET_DRV_BUF_TO_SMALL :: u32 where "AMP_ERROR_NET_DRV_BUF_TO_SMALL = 0x80100007"
definition AMP_ERROR_NET_DRV_PACKET_DROPPED :: u32 where "AMP_ERROR_NET_DRV_PACKET_DROPPED = 0x80100008"
definition AMP_ERROR_LTEDD_FIFO_INSERT :: u32 where "AMP_ERROR_LTEDD_FIFO_INSERT = 0x80200003"

lemmas net_error_defs =
  AMP_ERROR_NONE_def AMP_ERROR_NET_DRV_INVALID_PARAM_def AMP_ERROR_NET_DRV_RESOURCE_ALLOC_def
  AMP_ERROR_NET_DRV_REGISTRATION_def AMP_ERROR_NET_DRV_MAX_DEVICES_def
  AMP_ERROR_NET_DRV_DEVICE_NOT_FOUND_def AMP_ERROR_NET_DRV_INTERNAL_def
  AMP_ERROR_NET_DRV_PRIVATE_INVALID_def AMP_ERROR_NET_DRV_BUF_TO_SMALL_def
  AMP_ERROR_NET_DRV_PACKET_DROPPED_def AMP_ERROR_LTEDD_FIFO_INSERT_def

definition ETH_HLEN :: nat where "ETH_HLEN = 14"
definition NETDRV_MTU :: int where "NETDRV_MTU = 8188"
definition NETDRV_MAX_DEV_NAME :: nat where "NETDRV_MAX_DEV_NAME = 128"
definition NETDRV_MAX_NUM_DEVICES :: nat where "NETDRV_MAX_NUM_DEVICES = 8"
definition NETDRV_DEFAULT_EPS_ID :: u8 where "NETDRV_DEFAULT_EPS_ID = 5"
definition NETDRV_MAX_EPS_ID :: u8 where "NETDRV_MAX_EPS_ID = 15"
definition NETDRV_MAX_NUM_EPS_ID :: nat where "NETDRV_MAX_NUM_EPS_ID = 16"

definition NETDRV_NET_CONTROL_SUSPEND :: u32 where "NETDRV_NET_CONTROL_SUSPEND = 1"
definition NETDRV_NET_CONTROL_RESUME :: u32 where "NETDRV_NET_CONTROL_RESUME = 2"
definition NETDRV_BUS_CONTROL_FLUSH :: u32 where "NETDRV_BUS_CONTROL_FLUSH = 4"
definition NETDRV_BUS_CONTROL_TX_DRAIN :: u32 where "NETDRV_BUS_CONTROL_TX_DRAIN = 5"
definition NETDRV_BUS_CONTROL_LOG_NETQUEUE_EVENT :: u32 where "NETDRV_BUS_CONTROL_LOG_NETQUEUE_EVENT = 6"

definition NETDRV_SIGNATURE :: u32 where "NETDRV_SIGNATURE = 0xDEADDEED"
definition NETDRV_STATUS_INITIAL :: u32 where "NETDRV_STATUS_INITIAL = 1"
definition NETDRV_STATUS_LINKDOWN :: u32 where "NETDRV_STATUS_LINKDOWN = 2"
definition NETDRV_STATUS_REGISTERED :: u32 where "NETDRV_STATUS_REGISTERED = 4"
definition NETDRV_STATUS_QUEUE_STOPPED :: u32 where "NETDRV_STATUS_QUEUE_STOPPED = 8"
definition NETDRV_STATUS_PERF_TEST :: u32 where "NETDRV_STATUS_PERF_TEST = 16"

lemmas status_defs =
  NETDRV_STATUS_INITIAL_def NETDRV_STATUS_LINKDOWN_def NETDRV_STATUS_REGISTERED_def
  NETDRV_STATUS_QUEUE_STOPPED_def NETDRV_STATUS_PERF_TEST_def

definition NETDRV_GLOBAL_FLAG_BRIDGE_MODE :: u32 where "NETDRV_GLOBAL_FLAG_BRIDGE_MODE = 1"
definition NETDRV_GLOBAL_FLAG_DISABLE_UL :: u32 where "NETDRV_GLOBAL_FLAG_DISABLE_UL = 2"

definition NET_DRV_QOS_MODE_QOS_MODULE :: u32 where "NET_DRV_QOS_MODE_QOS_MODULE = 0"
definition NET_DRV_QOS_MODE_IPTABLES :: u32 where "NET_DRV_QOS_MODE_IPTABLES = 1"

definition NETDEV_TX_OK :: int where "NETDEV_TX_OK = 0"
definition NETDEV_TX_BUSY :: int where "NETDEV_TX_BUSY = 1"
definition EBUSY :: int where "EBUSY = 16"
definition EINVAL :: int where "EINVAL = 22"

definition default_dev_mac_addr :: "u8 list" where
  "default_dev_mac_addr = [0x00, 0x14, 0x9A, 0xA5, 0x0A, 0xFE]"
definition DEFAULT_BAS_MAC_ADDR :: "u8 list" where
  "DEFAULT_BAS_MAC_ADDR = [0x00, 0x14, 0x9A, 0xBB, 0xBB, 0xFE]"

section \<open>Data\<close>

text \<open>A socket buffer with its control block \<open>cb\<close> of 48 bytes.\<close>

record net_skb =
  pkt :: sk_buff
  skb_cb :: "u8 list"

record net_device_stats =
  rx_packets :: u32
  tx_packets :: u32
  rx_bytes :: u32
  tx_bytes :: u32
  rx_errors :: u32
  tx_errors :: u32
  rx_dropped :: u32
  tx_dropped :: u32

definition zero_stats :: net_device_stats where
  "zero_stats = \<lparr>rx_packets = 0, tx_packets = 0, rx_bytes = 0, tx_bytes = 0, rx_errors = 0,
     tx_errors = 0, rx_dropped = 0, tx_dropped = 0\<rparr>"

text \<open>
  Of the function pointers of the bus interface only whether they are set matters: the bus
  sets \<open>tx_start\<close> and \<open>bus_control\<close>, the network driver the other four.
\<close>

record NET_DRV_BUS_INTERFACE =
  tx_start :: bool
  tx_complete :: bool
  rx_start :: bool
  rx_complete :: bool
  net_control :: bool
  bus_control :: bool

text \<open>\<open>nd_size_ok\<close> says that the size stamp is the size of the structure.\<close>

record NET_DRV_PRIVATE =
  nd_signature :: u32
  nd_size_ok :: bool
  pnet_dev :: ptr
  net_stats :: net_device_stats
  dev_name :: string
  pbus :: ptr
  eth_hdrV4 :: "u8 list"
  eth_hdrV6 :: "u8 list"
  driver_status :: u32
  eps_id :: u8
  pnet_drv_bus_interface :: ptr

text \<open>
  The members of \<open>struct net_device\<close> the driver reads or sets, directly or through the
  \<open>netif_\<close> functions.
\<close>

record net_device =
  mtu :: int
  dev_up :: bool
  queue_off :: bool
  carrier_ok :: bool
  present :: bool
  dev_addr :: "u8 list"
  priv :: NET_DRV_PRIVATE

text \<open>A QoS handler is the built-in one of the driver or one that another module registered.\<close>

datatype qos_handler = Builtin | Registered

record NET_DRV_QOS_INTERFACE =
  process_tx_packet_qos :: "qos_handler option"
  process_rx_packet_qos :: "qos_handler option"

record net_drv_mac_addr_entry_t =
  mac_addr :: "u8 list"
  packet_cnt :: u32

record net_drv_perf_thread_data_t =
  busy :: u32
  duration :: u32
  packet_size :: u32
  packet_delay :: u32
  tx_count :: u32
  rx_count :: u32
  perf_tx_bytes :: u32
  perf_rx_bytes :: u32

text \<open>
  The state of the driver with what it shares with its neighbours: the heaps, the packets
  handed to the network stack, the bus object \<open>bus\<close> and the QoS module's state \<open>qos\<close>.
\<close>

record ('b, 'q) lte_sys =
  devs :: "addr \<rightharpoonup> net_device"
  skbs :: "addr \<rightharpoonup> net_skb"
  bus_ifs :: "addr \<rightharpoonup> NET_DRV_BUS_INTERFACE"
  g_net_dev_list :: "ptr list"
  g_net_drv_qos_mode :: u32
  g_net_drv_qos_interface_default :: NET_DRV_QOS_INTERFACE
  g_net_drv_qos_interface_active :: NET_DRV_QOS_INTERFACE
  g_net_drv_qos_interface_registered :: NET_DRV_QOS_INTERFACE
  g_net_ptd :: net_drv_perf_thread_data_t
  g_net_eps_id_to_mac_addr_table :: "net_drv_mac_addr_entry_t list"
  g_net_drv_global_flags :: u32
  default_mac_addr :: "u8 list"
  stack_rx :: "net_skb list"
  bus :: 'b
  qos :: 'q

text \<open>
  What the driver calls: the bus functions, which get the private pointer and the bus handle
  and may change any part of the state; the handlers registered by the QoS module, which
  return the code and what they store through their out parameters; and \<open>netif_rx\<close>, which
  says whether the stack takes the packet and whether the buffer still exists when the call
  returns.
\<close>

type_synonym ('b, 'q) bus_control_fn =
  "addr \<Rightarrow> ptr \<Rightarrow> u32 \<Rightarrow> u32 \<Rightarrow> ('b, 'q) lte_sys \<Rightarrow> (u32 \<times> ('b, 'q) lte_sys) res"

record ('b, 'q) net_env =
  env_tx_start :: "addr \<Rightarrow> ptr \<Rightarrow> addr \<Rightarrow> ('b, 'q) lte_sys \<Rightarrow> (u32 \<times> ('b, 'q) lte_sys) res"
  env_bus_control :: "('b, 'q) bus_control_fn"
  env_tx_qos :: "net_skb \<Rightarrow> 'q \<Rightarrow> (u32 \<times> u16 option \<times> u8 option \<times> net_skb \<times> 'q) res"
  env_rx_qos :: "net_skb \<Rightarrow> u8 list \<Rightarrow> u16 \<Rightarrow> 'q \<Rightarrow> (u32 \<times> u8 list \<times> u16 \<times> 'q) res"
  env_netif_rx :: "net_skb \<Rightarrow> bool \<times> bool"

section \<open>Access to devices and buffers\<close>

definition get_dev :: "('b, 'q) lte_sys \<Rightarrow> addr \<Rightarrow> net_device res" where
  "get_dev w a = (case devs w a of None \<Rightarrow> Inl DanglingDeref | Some d \<Rightarrow> Inr d)"

definition set_dev :: "('b, 'q) lte_sys \<Rightarrow> addr \<Rightarrow> net_device \<Rightarrow> ('b, 'q) lte_sys" where
  "set_dev w a d = w\<lparr>devs := (devs w)(a \<mapsto> d)\<rparr>"

definition upd_priv ::
  "('b, 'q) lte_sys \<Rightarrow> addr \<Rightarrow> (NET_DRV_PRIVATE \<Rightarrow> NET_DRV_PRIVATE) \<Rightarrow> ('b, 'q) lte_sys res" where
  "upd_priv w a f = rbind (get_dev w a) (\<lambda>d. Inr (set_dev w a (d\<lparr>priv := f (priv d)\<rparr>)))"

abbreviation upd_stats ::
  "('b, 'q) lte_sys \<Rightarrow> addr \<Rightarrow> (net_device_stats \<Rightarrow> net_device_stats) \<Rightarrow> ('b, 'q) lte_sys res" where
  "upd_stats w a f \<equiv> upd_priv w a (\<lambda>p. p\<lparr>net_stats := f (net_stats p)\<rparr>)"

definition get_skb :: "('b, 'q) lte_sys \<Rightarrow> addr \<Rightarrow> net_skb res" where
  "get_skb w s = (case skbs w s of None \<Rightarrow> Inl DanglingDeref | Some b \<Rightarrow> Inr b)"

definition set_skb :: "('b, 'q) lte_sys \<Rightarrow> addr \<Rightarrow> net_skb \<Rightarrow> ('b, 'q) lte_sys" where
  "set_skb w s b = w\<lparr>skbs := (skbs w)(s \<mapsto> b)\<rparr>"

text \<open>\<open>dev_kfree_skb_any\<close>: freeing a buffer that does not exist is a fault.\<close>

definition kfree_skb :: "('b, 'q) lte_sys \<Rightarrow> addr \<Rightarrow> ('b, 'q) lte_sys res" where
  "kfree_skb w s = (case skbs w s of None \<Rightarrow> Inl WildFree | Some _ \<Rightarrow> Inr (w\<lparr>skbs := (skbs w)(s := None)\<rparr>))"

text \<open>
  \<open>skb_pull\<close> does nothing when the packet is shorter and stops the kernel when the linear part
  is; \<open>skb_push\<close> stops the kernel when there is no room in front of the data.
\<close>

definition skb_pull :: "sk_buff \<Rightarrow> nat \<Rightarrow> sk_buff res" where
  "skb_pull sk n =
     (if skb_len sk < n then Inr sk
      else if skb_headlen sk < n then Inl OutOfBounds
      else Inr (sk\<lparr>skb_data := skb_data sk + n, skb_len := skb_len sk - n\<rparr>))"

definition skb_push :: "sk_buff \<Rightarrow> nat \<Rightarrow> sk_buff res" where
  "skb_push sk n =
     (if skb_data sk < n then Inl OutOfBounds
      else Inr (sk\<lparr>skb_data := skb_data sk - n, skb_len := skb_len sk + n\<rparr>))"

text \<open>The bytes from \<open>skb->data\<close> on, and storing bytes at an offset from it.\<close>

definition skb_bytes :: "sk_buff \<Rightarrow> u8 list" where
  "skb_bytes sk = drop (skb_data sk) (skb_head sk)"

definition write_bytes :: "u8 list \<Rightarrow> nat \<Rightarrow> u8 list \<Rightarrow> u8 list res" where
  "write_bytes mem off bs =
     (if off + length bs \<le> length mem then Inr (take off mem @ bs @ drop (off + length bs) mem) else Inl OutOfBounds)"

definition skb_write :: "sk_buff \<Rightarrow> nat \<Rightarrow> u8 list \<Rightarrow> sk_buff res" where
  "skb_write sk off bs = rbind (write_bytes (skb_head sk) (skb_data sk + off) bs) (\<lambda>m. Inr (sk\<lparr>skb_head := m\<rparr>))"

section \<open>Built-in QoS handlers\<close>

text \<open>The arguments say which of the three pointers are not NULL.\<close>

definition net_drv_process_tx_packet_qos :: "bool \<Rightarrow> bool \<Rightarrow> bool \<Rightarrow> u32 \<times> u16 option \<times> u8 option" where
  "net_drv_process_tx_packet_qos pskb poffset peps_id =
     (if \<not> pskb \<or> \<not> poffset \<or> \<not> peps_id then (AMP_ERROR_NET_DRV_INVALID_PARAM, None, None)
      else (AMP_ERROR_NONE, Some (of_nat ETH_HLEN), Some NETDRV_DEFAULT_EPS_ID))"

text \<open>
  The receive handler fills in the multicast address of an IPv4 multicast packet. The result
  is the code, the header and the length stored through \<open>plength\<close>.
\<close>

definition net_drv_process_rx_packet_qos ::
  "sk_buff \<Rightarrow> u8 list \<Rightarrow> u16 \<Rightarrow> (u32 \<times> u8 list \<times> u16) res" where
  "net_drv_process_rx_packet_qos sk hdr len =
     (if skb_len sk < 20 \<or> unat len < ETH_HLEN then Inr (AMP_ERROR_NET_DRV_BUF_TO_SMALL, hdr, len)
      else if length (skb_bytes sk) < 20 then Inl OutOfBounds
      else
        let ip = take 20 (skb_bytes sk); octet = ip ! 16 in
        if drop_bit 4 (ip ! 0) = 4 \<and> 224 \<le> octet \<and> octet \<le> 239 then
          rbind (write_bytes hdr 0 [0x01, 0x00, 0x5e, ip ! 17 AND 0xef, ip ! 18, ip ! 19]) (\<lambda>h.
          Inr (AMP_ERROR_NONE, h, of_nat ETH_HLEN))
        else Inr (AMP_ERROR_NONE, hdr, of_nat ETH_HLEN))"

definition net_drv_detect_IP4_IPV6_packet :: "u8 list \<Rightarrow> nat \<Rightarrow> int res" where
  "net_drv_detect_IP4_IPV6_packet buf buf_size =
     (if buf_size < 4 then Inr (- 1)
      else rbind (arr_get buf 0) (\<lambda>b.
        let v = drop_bit 4 b in Inr (if v \<noteq> 4 \<and> v \<noteq> 6 then - 1 else uint v)))"

section \<open>The device list\<close>

definition net_drv_private_valid :: "('b, 'q) lte_sys \<Rightarrow> ptr \<Rightarrow> u32 res" where
  "net_drv_private_valid w p =
     (case p of
        None \<Rightarrow> Inr AMP_ERROR_NET_DRV_PRIVATE_INVALID
      | Some a \<Rightarrow> rbind (get_dev w a) (\<lambda>d.
          Inr (if nd_signature (priv d) \<noteq> NETDRV_SIGNATURE \<or> \<not> nd_size_ok (priv d)
               then AMP_ERROR_NET_DRV_PRIVATE_INVALID else AMP_ERROR_NONE)))"

text \<open>Index of the first slot with a property.\<close>

fun find_slot :: "('a \<Rightarrow> bool) \<Rightarrow> 'a list \<Rightarrow> nat option" where
  "find_slot P [] = None"
| "find_slot P (x # xs) = (if P x then Some 0 else map_option Suc (find_slot P xs))"

definition net_drv_device_list_add :: "('b, 'q) lte_sys \<Rightarrow> addr \<Rightarrow> u32 \<times> ('b, 'q) lte_sys" where
  "net_drv_device_list_add w a =
     (case find_slot (\<lambda>e. e = None) (g_net_dev_list w) of
        None \<Rightarrow> (AMP_ERROR_NET_DRV_MAX_DEVICES, w)
      | Some i \<Rightarrow> (AMP_ERROR_NONE, w\<lparr>g_net_dev_list := (g_net_dev_list w)[i := Some a]\<rparr>))"

definition net_drv_device_list_remove :: "('b, 'q) lte_sys \<Rightarrow> addr \<Rightarrow> u32 \<times> ('b, 'q) lte_sys" where
  "net_drv_device_list_remove w a =
     (case find_slot (\<lambda>e. e = Some a) (g_net_dev_list w) of
        None \<Rightarrow> (AMP_ERROR_NET_DRV_DEVICE_NOT_FOUND, w)
      | Some i \<Rightarrow> (AMP_ERROR_NONE, w\<lparr>g_net_dev_list := (g_net_dev_list w)[i := None]\<rparr>))"

definition net_drv_device_list_get_entry :: "('b, 'q) lte_sys \<Rightarrow> addr \<Rightarrow> int" where
  "net_drv_device_list_get_entry w a =
     (case find_slot (\<lambda>e. e = Some a) (g_net_dev_list w) of None \<Rightarrow> - 1 | Some i \<Rightarrow> int i)"

definition net_drv_device_list_free_avail :: "('b, 'q) lte_sys \<Rightarrow> nat" where
  "net_drv_device_list_free_avail w = length (filter (\<lambda>e. e = None) (g_net_dev_list w))"

definition net_drv_device_list_first_avail :: "('b, 'q) lte_sys \<Rightarrow> int" where
  "net_drv_device_list_first_avail w =
     (case find_slot (\<lambda>e. e = None) (g_net_dev_list w) of None \<Rightarrow> - 1 | Some i \<Rightarrow> int i)"

text \<open>The scan of the list for a name and, if given, a bus handle.\<close>

fun list_find_name :: "('b, 'q) lte_sys \<Rightarrow> string \<Rightarrow> ptr \<Rightarrow> ptr list \<Rightarrow> ptr res" where
  "list_find_name w name pb [] = Inr None"
| "list_find_name w name pb (e # es) =
     (case e of
        None \<Rightarrow> list_find_name w name pb es
      | Some a \<Rightarrow> rbind (get_dev w a) (\<lambda>d.
          if dev_name (priv d) = name \<and> (pb = None \<or> pb = pbus (priv d)) then Inr (Some a)
          else list_find_name w name pb es))"

definition net_drv_device_list_find_name :: "('b, 'q) lte_sys \<Rightarrow> string option \<Rightarrow> ptr \<Rightarrow> ptr res" where
  "net_drv_device_list_find_name w name pb =
     (case name of None \<Rightarrow> Inr None | Some n \<Rightarrow> list_find_name w n pb (g_net_dev_list w))"

section \<open>Transmit queue\<close>

text \<open>The \<open>netif_\<close> functions act on the device \<open>ppriv->pnet_dev\<close>.\<close>

definition upd_net_dev ::
  "('b, 'q) lte_sys \<Rightarrow> ptr \<Rightarrow> (net_device \<Rightarrow> net_device) \<Rightarrow> ('b, 'q) lte_sys res" where
  "upd_net_dev w p f =
     (case p of None \<Rightarrow> Inl NullDeref | Some a \<Rightarrow> rbind (get_dev w a) (\<lambda>d. Inr (set_dev w a (f d))))"

definition perf_test :: "NET_DRV_PRIVATE \<Rightarrow> bool" where
  "perf_test p \<longleftrightarrow> driver_status p AND NETDRV_STATUS_PERF_TEST \<noteq> 0"

definition net_drv_stop_queue :: "('b, 'q) lte_sys \<Rightarrow> addr \<Rightarrow> ('b, 'q) lte_sys res" where
  "net_drv_stop_queue w a =
     rbind (get_dev w a) (\<lambda>d.
     rbind (if perf_test (priv d) then Inr w else upd_net_dev w (pnet_dev (priv d)) (\<lambda>d. d\<lparr>queue_off := True\<rparr>)) (\<lambda>w1.
     upd_priv w1 a (\<lambda>p. p\<lparr>driver_status := driver_status p OR NETDRV_STATUS_QUEUE_STOPPED\<rparr>)))"

definition net_drv_start_queue :: "('b, 'q) lte_sys \<Rightarrow> addr \<Rightarrow> ('b, 'q) lte_sys res" where
  "net_drv_start_queue w a =
     rbind (get_dev w a) (\<lambda>d.
     rbind (if perf_test (priv d) then Inr w else upd_net_dev w (pnet_dev (priv d)) (\<lambda>d. d\<lparr>queue_off := False\<rparr>)) (\<lambda>w1.
     upd_priv w1 a (\<lambda>p. p\<lparr>driver_status := driver_status p AND NOT NETDRV_STATUS_QUEUE_STOPPED\<rparr>)))"

text \<open>Waking also makes the stack send again, which the model leaves to the next transmit.\<close>

definition net_drv_wake_queue :: "('b, 'q) lte_sys \<Rightarrow> addr \<Rightarrow> ('b, 'q) lte_sys res" where
  "net_drv_wake_queue w a =
     rbind (get_dev w a) (\<lambda>d.
     rbind (if perf_test (priv d) then Inr w else upd_net_dev w (pnet_dev (priv d)) (\<lambda>d. d\<lparr>queue_off := False\<rparr>)) (\<lambda>w1.
     upd_priv w1 a (\<lambda>p. p\<lparr>driver_status := driver_status p AND NOT NETDRV_STATUS_QUEUE_STOPPED\<rparr>)))"

definition net_drv_is_queue_stopped :: "NET_DRV_PRIVATE \<Rightarrow> bool" where
  "net_drv_is_queue_stopped p \<longleftrightarrow> driver_status p AND NETDRV_STATUS_QUEUE_STOPPED \<noteq> 0"

definition net_drv_gen_mac_addr :: "('b, 'q) lte_sys \<Rightarrow> (u8 list \<times> ('b, 'q) lte_sys) res" where
  "net_drv_gen_mac_addr w =
     rbind (arr_get (default_mac_addr w) 4) (\<lambda>x.
     let m = (default_mac_addr w)[4 := x + 1] in Inr (take ETH_ALEN m, w\<lparr>default_mac_addr := m\<rparr>))"

section \<open>Device operations\<close>

text \<open>The destination of a built header is an address with its last bit flipped.\<close>

definition flip_dest :: "u8 list \<Rightarrow> u8 list" where
  "flip_dest m = m[ETH_ALEN - 1 := m ! (ETH_ALEN - 1) XOR 1]"

definition net_drv_dev_rebuild_header :: "net_device \<Rightarrow> sk_buff \<Rightarrow> sk_buff res" where
  "net_drv_dev_rebuild_header d sk =
     rbind (skb_write sk ETH_ALEN (dev_addr d)) (\<lambda>sk1. skb_write sk1 0 (flip_dest (dev_addr d)))"

definition net_drv_dev_header ::
  "net_device \<Rightarrow> sk_buff \<Rightarrow> u16 \<Rightarrow> u8 list option \<Rightarrow> u8 list option \<Rightarrow> (nat \<times> sk_buff) res" where
  "net_drv_dev_header d sk ty daddr saddr =
     rbind (skb_push sk ETH_HLEN) (\<lambda>sk0.
     rbind (skb_write sk0 (2 * ETH_ALEN) [ucast (drop_bit 8 ty), ucast ty]) (\<lambda>sk1.
     rbind (skb_write sk1 ETH_ALEN (case saddr of None \<Rightarrow> dev_addr d | Some m \<Rightarrow> m)) (\<lambda>sk2.
     rbind (skb_write sk2 0 (flip_dest (case daddr of None \<Rightarrow> dev_addr d | Some m \<Rightarrow> m))) (\<lambda>sk3.
     Inr (ETH_HLEN, sk3)))))"

definition net_drv_dev_open :: "('b, 'q) lte_sys \<Rightarrow> addr \<Rightarrow> (int \<times> ('b, 'q) lte_sys) res" where
  "net_drv_dev_open w a =
     rbind (get_dev w a) (\<lambda>d.
     rbind (if queue_off d then net_drv_start_queue w a else Inr w) (\<lambda>w1. Inr (0, w1)))"

definition net_drv_dev_release :: "('b, 'q) lte_sys \<Rightarrow> addr \<Rightarrow> (int \<times> ('b, 'q) lte_sys) res" where
  "net_drv_dev_release w a = rbind (net_drv_stop_queue w a) (\<lambda>w1. Inr (0, w1))"

definition net_drv_dev_config :: "net_device \<Rightarrow> int" where
  "net_drv_dev_config d = (if dev_up d then - EBUSY else 0)"

definition net_drv_dev_change_mtu :: "('b, 'q) lte_sys \<Rightarrow> addr \<Rightarrow> int \<Rightarrow> (int \<times> ('b, 'q) lte_sys) res" where
  "net_drv_dev_change_mtu w a new_mtu =
     (if new_mtu < 68 \<or> NETDRV_MTU < new_mtu then Inr (- EINVAL, w)
      else rbind (get_dev w a) (\<lambda>d. Inr (0, set_dev w a (d\<lparr>mtu := new_mtu\<rparr>))))"

section \<open>Transmission\<close>

definition net_drv_set_skb_eps_id :: "net_skb \<Rightarrow> u8 \<Rightarrow> net_skb res" where
  "net_drv_set_skb_eps_id b eps = rbind (arr_put (skb_cb b) 0 eps) (\<lambda>c. Inr (b\<lparr>skb_cb := c\<rparr>))"

definition net_drv_get_skb_eps_id :: "net_skb \<Rightarrow> u8 res" where
  "net_drv_get_skb_eps_id b = arr_get (skb_cb b) 0"

text \<open>
  Calls through the bus interface of a device, whose storage belongs to the bus object. A
  pointer that is not set is a call of NULL.
\<close>

definition bus_if :: "('b, 'q) lte_sys \<Rightarrow> NET_DRV_PRIVATE \<Rightarrow> NET_DRV_BUS_INTERFACE res" where
  "bus_if w p =
     (case pnet_drv_bus_interface p of
        None \<Rightarrow> Inl NullDeref
      | Some i \<Rightarrow> (case bus_ifs w i of None \<Rightarrow> Inl DanglingDeref | Some f \<Rightarrow> Inr f))"

definition call_tx_start ::
  "('b, 'q) net_env \<Rightarrow> ('b, 'q) lte_sys \<Rightarrow> addr \<Rightarrow> addr \<Rightarrow> (u32 \<times> ('b, 'q) lte_sys) res" where
  "call_tx_start env w a s =
     rbind (get_dev w a) (\<lambda>d.
     rbind (bus_if w (priv d)) (\<lambda>f.
     if tx_start f then env_tx_start env a (pbus (priv d)) s w else Inl NullDeref))"

definition call_bus_control ::
  "('b, 'q) bus_control_fn \<Rightarrow> ('b, 'q) lte_sys \<Rightarrow> addr \<Rightarrow> u32 \<Rightarrow> u32 \<Rightarrow> ('b, 'q) lte_sys res" where
  "call_bus_control bc w a cmd cmd_data =
     rbind (get_dev w a) (\<lambda>d.
     rbind (bus_if w (priv d)) (\<lambda>f.
     if bus_control f then rbind (bc a (pbus (priv d)) cmd cmd_data w) (\<lambda>(_, w1). Inr w1)
     else Inl NullDeref))"

text \<open>Dropping a packet counts it and tells the stack that it was taken.\<close>

definition tx_drop :: "('b, 'q) lte_sys \<Rightarrow> addr \<Rightarrow> addr \<Rightarrow> (int \<times> ('b, 'q) lte_sys) res" where
  "tx_drop w a s =
     rbind (upd_stats w a (\<lambda>st. st\<lparr>tx_errors := tx_errors st + 1, tx_dropped := tx_dropped st + 1\<rparr>)) (\<lambda>w1.
     rbind (kfree_skb w1 s) (\<lambda>w2. Inr (NETDEV_TX_OK, w2)))"

text \<open>
  The locals \<open>offset\<close> and \<open>eps_id\<close> start at 0 and keep it when the handler stores nothing. A
  registered handler may rearrange the buffer: the second last component is what it left.
\<close>

definition run_tx_qos ::
  "('b, 'q) net_env \<Rightarrow> ('b, 'q) lte_sys \<Rightarrow> addr \<Rightarrow> net_skb \<Rightarrow> qos_handler \<Rightarrow>
     (u32 \<times> u16 \<times> u8 \<times> net_skb \<times> ('b, 'q) lte_sys) res" where
  "run_tx_qos env w s b h =
     (case h of
        Builtin \<Rightarrow> let (rc, off, eps) = net_drv_process_tx_packet_qos True True True in
          Inr (rc, case off of None \<Rightarrow> 0 | Some x \<Rightarrow> x, case eps of None \<Rightarrow> 0 | Some x \<Rightarrow> x, b, w)
      | Registered \<Rightarrow> rbind (env_tx_qos env b (qos w)) (\<lambda>(rc, off, eps, b', q).
          Inr (rc, case off of None \<Rightarrow> 0 | Some x \<Rightarrow> x, case eps of None \<Rightarrow> 0 | Some x \<Rightarrow> x, b',
               set_skb (w\<lparr>qos := q\<rparr>) s b')))"

text \<open>
  The first half of the transmit method: classify the packet, cut its ethernet header and
  store the bearer in the control block. \<open>None\<close> asks to drop the packet, otherwise the result
  is the offset.
\<close>

definition tx_classify ::
  "('b, 'q) net_env \<Rightarrow> ('b, 'q) lte_sys \<Rightarrow> addr \<Rightarrow> addr \<Rightarrow> (u16 option \<times> ('b, 'q) lte_sys) res" where
  "tx_classify env w a s =
     (case process_tx_packet_qos (g_net_drv_qos_interface_active w) of
        None \<Rightarrow> Inr (Some 0, w)
      | Some h \<Rightarrow>
          rbind (get_skb w s) (\<lambda>b.
          rbind (run_tx_qos env w s b h) (\<lambda>(qosval, offset, eps, b', w1).
          rbind (get_dev w1 a) (\<lambda>d.
          let eps' = (if g_net_drv_qos_mode w1 = NET_DRV_QOS_MODE_IPTABLES then eps_id (priv d) else eps) in
          if qosval = 0 then
            if 10 < offset \<and> offset < 15 then
              rbind (skb_pull (pkt b') (unat offset)) (\<lambda>sk.
              rbind (net_drv_set_skb_eps_id (b'\<lparr>pkt := sk\<rparr>) eps') (\<lambda>b1.
              Inr (Some offset, set_skb w1 s b1)))
            else Inr (Some offset, w1)
          else Inr (None, w1)))))"

text \<open>What happens when the bus refuses the packet.\<close>

definition tx_refused ::
  "('b, 'q) net_env \<Rightarrow> ('b, 'q) lte_sys \<Rightarrow> addr \<Rightarrow> addr \<Rightarrow> u16 \<Rightarrow> u32 \<Rightarrow> (int \<times> ('b, 'q) lte_sys) res" where
  "tx_refused env w a s offset busval =
     (if busval = AMP_ERROR_LTEDD_FIFO_INSERT then
        rbind (net_drv_stop_queue w a) (\<lambda>w1.
        rbind (call_bus_control (env_bus_control env) w1 a NETDRV_BUS_CONTROL_LOG_NETQUEUE_EVENT 1) (\<lambda>w2.
        rbind (call_bus_control (env_bus_control env) w2 a NETDRV_BUS_CONTROL_TX_DRAIN 0) (\<lambda>w3.
        rbind (get_skb w3 s) (\<lambda>b.
        rbind (skb_push (pkt b) (unat offset)) (\<lambda>sk.
        Inr (NETDEV_TX_BUSY, set_skb w3 s (b\<lparr>pkt := sk\<rparr>)))))))
      else tx_drop w a s)"

definition net_drv_dev_tx ::
  "('b, 'q) net_env \<Rightarrow> ('b, 'q) lte_sys \<Rightarrow> addr \<Rightarrow> addr \<Rightarrow> (int \<times> ('b, 'q) lte_sys) res" where
  "net_drv_dev_tx env w s a =
     rbind (tx_classify env w a s) (\<lambda>(r, w1).
     case r of
       None \<Rightarrow> tx_drop w1 a s
     | Some offset \<Rightarrow>
         if g_net_drv_global_flags w1 AND NETDRV_GLOBAL_FLAG_DISABLE_UL \<noteq> 0 then tx_drop w1 a s
         else rbind (get_skb w1 s) (\<lambda>b.
           if skb_len (pkt b) = 0 then tx_drop w1 a s
           else rbind (call_tx_start env w1 a s) (\<lambda>(busval, w2).
             if busval = AMP_ERROR_NONE then Inr (NETDEV_TX_OK, w2)
             else tx_refused env w2 a s offset busval)))"

section \<open>Bus interface functions\<close>

text \<open>C division rounds towards 0.\<close>

definition half :: "int \<Rightarrow> int" where
  "half x = (if 0 \<le> x then x div 2 else - ((- x) div 2))"

text \<open>\<open>bc\<close> is the bus control function, which is only called to log the event.\<close>

definition net_drv_tx_complete ::
  "('b, 'q) bus_control_fn \<Rightarrow> ('b, 'q) lte_sys \<Rightarrow> ptr \<Rightarrow> addr \<Rightarrow> int \<Rightarrow> int \<Rightarrow> (u32 \<times> ('b, 'q) lte_sys) res" where
  "net_drv_tx_complete bc w pnet s fsize fcount =
     rbind (net_drv_private_valid w pnet) (\<lambda>rv.
     if rv \<noteq> AMP_ERROR_NONE then Inr (rv, w)
     else let a = the pnet in
       rbind (get_skb w s) (\<lambda>b.
       rbind (upd_stats w a (\<lambda>st. st\<lparr>tx_bytes := tx_bytes st + of_nat (skb_len (pkt b)),
                                     tx_packets := tx_packets st + 1\<rparr>)) (\<lambda>w1.
       rbind (kfree_skb w1 s) (\<lambda>w2.
       rbind (get_dev w2 a) (\<lambda>d.
       if net_drv_is_queue_stopped (priv d) \<and> fcount \<le> half fsize then
         rbind (call_bus_control bc w2 a NETDRV_BUS_CONTROL_LOG_NETQUEUE_EVENT 0) (\<lambda>w3.
         rbind (net_drv_wake_queue w3 a) (\<lambda>w4. Inr (AMP_ERROR_NONE, w4)))
       else Inr (AMP_ERROR_NONE, w2))))))"

text \<open>
  The buffer for a received packet: \<open>alloc\<close> is the address \<open>alloc_skb\<close> returns. The buffer is
  cleared and has room for the ethernet header in front of the data.
\<close>

definition net_drv_rx_start ::
  "ptr \<Rightarrow> ('b, 'q) lte_sys \<Rightarrow> ptr \<Rightarrow> int \<Rightarrow> (ptr \<times> ('b, 'q) lte_sys) res" where
  "net_drv_rx_start alloc w pnet buf_size =
     rbind (net_drv_private_valid w pnet) (\<lambda>rv.
     if rv \<noteq> AMP_ERROR_NONE then Inr (None, w)
     else let a = the pnet; data_len = buf_size + int ETH_HLEN in
       if NETDRV_MTU + int ETH_HLEN < data_len \<or> alloc = None then
         rbind (upd_stats w a (\<lambda>st. st\<lparr>rx_dropped := rx_dropped st + 1, rx_errors := rx_errors st + 1\<rparr>)) (\<lambda>w1.
         Inr (None, w1))
       else if buf_size < 0 then Inl OutOfBounds
       else Inr (alloc, set_skb w (the alloc)
              \<lparr>pkt = \<lparr>skb_head = replicate (nat data_len) 0, skb_data = ETH_HLEN, skb_len = nat buf_size,
                     network_header = 0, mac_header = None, skb_has_dev = True\<rparr>,
               skb_cb = replicate 48 0\<rparr>))"

definition rx_drop :: "('b, 'q) lte_sys \<Rightarrow> addr \<Rightarrow> addr \<Rightarrow> (u32 \<times> ('b, 'q) lte_sys) res" where
  "rx_drop w a s =
     rbind (upd_stats w a (\<lambda>st. st\<lparr>rx_errors := rx_errors st + 1, rx_dropped := rx_dropped st + 1\<rparr>)) (\<lambda>w1.
     rbind (kfree_skb w1 s) (\<lambda>w2. Inr (AMP_ERROR_NONE, w2)))"

text \<open>\<open>memcpy(skb_push(pskb, len), hdr, len)\<close>.\<close>

definition push_header :: "('b, 'q) lte_sys \<Rightarrow> addr \<Rightarrow> u8 list \<Rightarrow> nat \<Rightarrow> ('b, 'q) lte_sys res" where
  "push_header w s hdr len =
     rbind (get_skb w s) (\<lambda>b.
     rbind (skb_push (pkt b) len) (\<lambda>sk.
     if length hdr < len then Inl OutOfBounds
     else rbind (skb_write sk 0 (take len hdr)) (\<lambda>sk1. Inr (set_skb w s (b\<lparr>pkt := sk1\<rparr>)))))"

text \<open>
  The end of the receive path. \<open>eth_type_trans\<close> marks the ethernet header and steps over it.
  The length is read from the buffer after it was handed on.
\<close>

definition rx_deliver ::
  "('b, 'q) net_env \<Rightarrow> ('b, 'q) lte_sys \<Rightarrow> addr \<Rightarrow> addr \<Rightarrow> (u32 \<times> ('b, 'q) lte_sys) res" where
  "rx_deliver env w a s =
     rbind (get_skb w s) (\<lambda>b.
     rbind (skb_pull ((pkt b)\<lparr>mac_header := Some (skb_data (pkt b))\<rparr>) ETH_HLEN) (\<lambda>sk.
     rbind (get_dev w a) (\<lambda>d.
     let b1 = b\<lparr>pkt := sk\<rparr>; w1 = set_skb w s b1 in
     if perf_test (priv d) then
       let ptd = g_net_ptd w1 in
       rbind (kfree_skb (w1\<lparr>g_net_ptd := ptd\<lparr>rx_count := rx_count ptd + 1,
                perf_rx_bytes := perf_rx_bytes ptd + of_nat (skb_len sk)\<rparr>\<rparr>) s) (\<lambda>w2.
       rbind (get_skb w2 s) (\<lambda>b2.
       rbind (upd_stats w2 a (\<lambda>st. st\<lparr>rx_bytes := rx_bytes st + of_nat (skb_len (pkt b2)),
                                      rx_packets := rx_packets st + 1\<rparr>)) (\<lambda>w3.
       Inr (AMP_ERROR_NONE, w3))))
     else
       let (taken, alive) = env_netif_rx env b1;
           w2 = (if alive then w1 else w1\<lparr>skbs := (skbs w1)(s := None)\<rparr>) in
       if \<not> taken then
         rbind (upd_stats w2 a (\<lambda>st. st\<lparr>rx_errors := rx_errors st + 1, rx_dropped := rx_dropped st + 1\<rparr>)) (\<lambda>w3.
         Inr (AMP_ERROR_NET_DRV_PACKET_DROPPED, w3))
       else
         let w3 = w2\<lparr>stack_rx := stack_rx w2 @ [b1]\<rparr> in
         rbind (get_skb w3 s) (\<lambda>b2.
         rbind (upd_stats w3 a (\<lambda>st. st\<lparr>rx_bytes := rx_bytes st + of_nat (skb_len (pkt b2)),
                                        rx_packets := rx_packets st + 1\<rparr>)) (\<lambda>w4.
         Inr (AMP_ERROR_NONE, w4))))))"

text \<open>In bridge mode the destination is that of the bearer's table entry.\<close>

definition bridge_dest ::
  "('b, 'q) lte_sys \<Rightarrow> u8 list \<Rightarrow> u8 \<Rightarrow> (u8 list \<times> ('b, 'q) lte_sys) res" where
  "bridge_dest w hdr eps =
     (if g_net_drv_global_flags w AND NETDRV_GLOBAL_FLAG_BRIDGE_MODE \<noteq> 0 then
        let i = unat (if NETDRV_MAX_EPS_ID < eps then NETDRV_DEFAULT_EPS_ID else eps) in
        rbind (arr_get (g_net_eps_id_to_mac_addr_table w) i) (\<lambda>e.
        Inr (mac_addr e @ drop ETH_ALEN hdr,
             w\<lparr>g_net_eps_id_to_mac_addr_table :=
                 (g_net_eps_id_to_mac_addr_table w)[i := e\<lparr>packet_cnt := packet_cnt e + 1\<rparr>]\<rparr>))
      else Inr (hdr, w))"

text \<open>\<open>junk\<close> is what the uninitialised second half of the local header array holds.\<close>

definition net_drv_rx_complete ::
  "('b, 'q) net_env \<Rightarrow> u8 list \<Rightarrow> ('b, 'q) lte_sys \<Rightarrow> ptr \<Rightarrow> addr \<Rightarrow> u8 \<Rightarrow> bool \<Rightarrow> (u32 \<times> ('b, 'q) lte_sys) res" where
  "net_drv_rx_complete env junk w pnet s eps mm_packet =
     rbind (net_drv_private_valid w pnet) (\<lambda>rv.
     if rv \<noteq> AMP_ERROR_NONE then Inr (rv, w)
     else let a = the pnet in
       rbind (get_dev w a) (\<lambda>d.
       if mm_packet then
         rbind (push_header w s (take 12 (eth_hdrV4 (priv d)) @ [0xFA, 0xDE]) ETH_HLEN) (\<lambda>w1. rx_deliver env w1 a s)
       else
         rbind (get_skb w s) (\<lambda>b.
         rbind (net_drv_detect_IP4_IPV6_packet (skb_bytes (pkt b)) (skb_len (pkt b))) (\<lambda>v.
         if v \<noteq> 4 \<and> v \<noteq> 6 then rx_drop w a s
         else
           rbind (bridge_dest w (if v = 4 then eth_hdrV4 (priv d) else eth_hdrV6 (priv d)) eps) (\<lambda>(hdr, w1).
           case process_rx_packet_qos (g_net_drv_qos_interface_active w1) of
             None \<Rightarrow> rx_deliver env w1 a s
           | Some h \<Rightarrow>
               rbind (case h of
                        Builtin \<Rightarrow> rbind (net_drv_process_rx_packet_qos (pkt b) (hdr @ junk) (of_nat ETH_HLEN)) (\<lambda>(rc, hdr2, n).
                          Inr (rc, hdr2, n, qos w1))
                      | Registered \<Rightarrow> env_rx_qos env b (hdr @ junk) (of_nat ETH_HLEN) (qos w1)) (\<lambda>(qosval, hdr2, n, q).
               let w2 = w1\<lparr>qos := q\<rparr> in
               if qosval = 0 then rbind (push_header w2 s hdr2 (unat n)) (\<lambda>w3. rx_deliver env w3 a s)
               else rx_drop w2 a s))))))"

definition net_drv_net_control ::
  "('b, 'q) lte_sys \<Rightarrow> ptr \<Rightarrow> u32 \<Rightarrow> (u32 \<times> ('b, 'q) lte_sys) res" where
  "net_drv_net_control w pnet cmd =
     rbind (net_drv_private_valid w pnet) (\<lambda>rv.
     if rv \<noteq> AMP_ERROR_NONE then Inr (rv, w)
     else rbind (if cmd = NETDRV_NET_CONTROL_SUSPEND then net_drv_stop_queue w (the pnet)
                 else if cmd = NETDRV_NET_CONTROL_RESUME then net_drv_wake_queue w (the pnet)
                 else Inr w) (\<lambda>w1. Inr (AMP_ERROR_NONE, w1)))"

section \<open>Creating and deleting devices\<close>

text \<open>
  The device \<open>alloc_netdev\<close> returns with the members the probe function sets before it
  registers the device.
\<close>

definition new_net_device :: "addr \<Rightarrow> string \<Rightarrow> ptr \<Rightarrow> ptr \<Rightarrow> u8 list \<Rightarrow> net_device" where
  "new_net_device a name pb ifc src =
     \<lparr>mtu = NETDRV_MTU, dev_up = False, queue_off = False, carrier_ok = True, present = False,
      dev_addr = default_dev_mac_addr,
      priv = \<lparr>nd_signature = NETDRV_SIGNATURE, nd_size_ok = True, pnet_dev = Some a, net_stats = zero_stats,
        dev_name = take (NETDRV_MAX_DEV_NAME - 1) name, pbus = pb,
        eth_hdrV4 = default_dev_mac_addr @ src @ [0x08, 0x00], eth_hdrV6 = default_dev_mac_addr @ src @ [0x86, 0xDD],
        driver_status = NETDRV_STATUS_INITIAL OR NETDRV_STATUS_LINKDOWN, eps_id = NETDRV_DEFAULT_EPS_ID,
        pnet_drv_bus_interface = ifc\<rparr>\<rparr>"

text \<open>\<open>free_netdev\<close> releases the device together with its private structure.\<close>

definition free_netdev :: "('b, 'q) lte_sys \<Rightarrow> ptr \<Rightarrow> ('b, 'q) lte_sys res" where
  "free_netdev w p =
     (case p of
        None \<Rightarrow> Inl NullDeref
      | Some a \<Rightarrow> rbind (get_dev w a) (\<lambda>_. Inr (w\<lparr>devs := (devs w)(a := None)\<rparr>)))"

text \<open>
  \<open>unregister_netdev\<close> takes an interface that is up down first, through the release method.
\<close>

definition unregister_netdev :: "('b, 'q) lte_sys \<Rightarrow> addr \<Rightarrow> ('b, 'q) lte_sys res" where
  "unregister_netdev w a =
     rbind (get_dev w a) (\<lambda>d.
     if dev_up d then
       rbind (net_drv_dev_release w a) (\<lambda>(_, w1). upd_net_dev w1 (Some a) (\<lambda>d. d\<lparr>dev_up := False\<rparr>))
     else Inr w)"

text \<open>
  The error exit frees the device and then stores NULL into the private structure that was
  part of it.
\<close>

definition probe_error_exit ::
  "('b, 'q) lte_sys \<Rightarrow> addr \<Rightarrow> u32 \<Rightarrow> (u32 \<times> ptr option \<times> ('b, 'q) lte_sys) res" where
  "probe_error_exit w a retval =
     rbind (get_dev w a) (\<lambda>d.
     rbind (if pnet_dev (priv d) \<noteq> None \<and> driver_status (priv d) AND NETDRV_STATUS_REGISTERED \<noteq> 0
            then rbind (unregister_netdev w (the (pnet_dev (priv d)))) (\<lambda>w0.
              upd_priv w0 a (\<lambda>p. p\<lparr>driver_status := driver_status p AND NOT NETDRV_STATUS_REGISTERED\<rparr>))
            else Inr w) (\<lambda>w1.
     if pnet_dev (priv d) \<noteq> None then
       rbind (free_netdev w1 (pnet_dev (priv d))) (\<lambda>w2.
       rbind (upd_priv w2 a (\<lambda>p. p\<lparr>pnet_dev := None\<rparr>)) (\<lambda>w3. Inr (retval, Some None, w3)))
     else Inr (retval, Some None, w1)))"

text \<open>
  \<open>alloc_netdev\<close> of net/core/dev.c stops the kernel when the name with its terminating zero does
  not fit into the 16 bytes of the name of a device; otherwise it returns a new device or nothing.
\<close>

definition IFNAMSIZ :: nat where "IFNAMSIZ = 16"

definition alloc_netdev :: "ptr \<Rightarrow> string \<Rightarrow> ptr res" where
  "alloc_netdev alloc name = (if IFNAMSIZ \<le> length name then Inl Panic else Inr alloc)"

text \<open>
  \<open>alloc\<close> is the address of the new device and \<open>regval\<close> the result of \<open>register_netdev\<close>.
  The second component of the result is what was stored through \<open>ppnet\<close>.
\<close>

definition net_drv_probe ::
  "ptr \<Rightarrow> int \<Rightarrow> ('b, 'q) lte_sys \<Rightarrow> string option \<Rightarrow> ptr \<Rightarrow> ptr \<Rightarrow> bool \<Rightarrow> (u32 \<times> ptr option \<times> ('b, 'q) lte_sys) res" where
  "net_drv_probe alloc regval w name pb ifc ppnet =
     (if name = None \<or> pb = None \<or> ifc = None \<or> \<not> ppnet then Inr (AMP_ERROR_NET_DRV_INVALID_PARAM, None, w)
      else if net_drv_device_list_free_avail w = 0 then Inr (AMP_ERROR_NET_DRV_MAX_DEVICES, Some None, w)
      else
        (case bus_ifs w (the ifc) of
           None \<Rightarrow> Inl DanglingDeref
         | Some f \<Rightarrow>
             if \<not> tx_start f \<or> \<not> bus_control f then Inr (AMP_ERROR_NET_DRV_INVALID_PARAM, Some None, w)
             else
               rbind (alloc_netdev alloc (the name)) (\<lambda>dev.
               case dev of
                  None \<Rightarrow> Inr (AMP_ERROR_NET_DRV_RESOURCE_ALLOC, Some None, w)
                | Some a \<Rightarrow>
                    rbind (net_drv_gen_mac_addr w) (\<lambda>(src, w1).
                    let w2 = set_dev w1 a (new_net_device a (the name) pb ifc src) in
                    if regval \<noteq> 0 then probe_error_exit w2 a AMP_ERROR_NET_DRV_REGISTRATION
                    else
                      rbind (upd_net_dev w2 (Some a) (\<lambda>d. d\<lparr>present := True\<rparr>)) (\<lambda>w3.
                      rbind (upd_priv w3 a (\<lambda>p. p\<lparr>driver_status := driver_status p OR NETDRV_STATUS_REGISTERED\<rparr>)) (\<lambda>w4.
                      let (addval, w5) = net_drv_device_list_add w4 a in
                      if addval \<noteq> AMP_ERROR_NONE then probe_error_exit w5 a AMP_ERROR_NET_DRV_INTERNAL
                      else
                        let w6 = w5\<lparr>bus_ifs := (bus_ifs w5)(the ifc \<mapsto>
                                   f\<lparr>tx_complete := True, rx_start := True, rx_complete := True, net_control := True\<rparr>)\<rparr> in
                        rbind (upd_priv w6 a (\<lambda>p. p\<lparr>driver_status := driver_status p AND NOT NETDRV_STATUS_LINKDOWN\<rparr>)) (\<lambda>w7.
                        rbind (upd_net_dev w7 (Some a) (\<lambda>d. d\<lparr>carrier_ok := True\<rparr>)) (\<lambda>w8.
                        Inr (AMP_ERROR_NONE, Some (Some a), w8)))))))))"

definition net_drv_disconnect :: "('b, 'q) lte_sys \<Rightarrow> ptr \<Rightarrow> (u32 \<times> ('b, 'q) lte_sys) res" where
  "net_drv_disconnect w pnet =
     (case pnet of
        None \<Rightarrow> Inr (AMP_ERROR_NET_DRV_INVALID_PARAM, w)
      | Some a \<Rightarrow>
          rbind (net_drv_private_valid w pnet) (\<lambda>rv.
          if rv \<noteq> AMP_ERROR_NONE then Inr (rv, w)
          else if net_drv_device_list_get_entry w a < 0 then Inr (AMP_ERROR_NET_DRV_DEVICE_NOT_FOUND, w)
          else
            rbind (upd_priv w a (\<lambda>p. p\<lparr>driver_status := driver_status p OR NETDRV_STATUS_LINKDOWN\<rparr>)) (\<lambda>w1.
            rbind (get_dev w1 a) (\<lambda>d.
            rbind (if pnet_dev (priv d) = None then Inr w1
                   else
                     rbind (if driver_status (priv d) AND NETDRV_STATUS_REGISTERED \<noteq> 0 then
                              rbind (upd_net_dev w1 (pnet_dev (priv d)) (\<lambda>d. d\<lparr>present := False\<rparr>)) (\<lambda>w2.
                              rbind (net_drv_stop_queue w2 a) (\<lambda>w3.
                              rbind (upd_net_dev w3 (pnet_dev (priv d)) (\<lambda>d. d\<lparr>carrier_ok := False\<rparr>)) (\<lambda>w4.
                              rbind (unregister_netdev w4 (the (pnet_dev (priv d)))) (\<lambda>w5.
                              upd_priv w5 a (\<lambda>p. p\<lparr>driver_status := driver_status p AND NOT NETDRV_STATUS_REGISTERED\<rparr>)))))
                            else Inr w1) (\<lambda>w6.
                     free_netdev w6 (pnet_dev (priv d)))) (\<lambda>w7.
            let (_, w8) = net_drv_device_list_remove w7 a in Inr (AMP_ERROR_NONE, w8))))))"

section \<open>Configuration\<close>

definition net_drv_set_active_qos_handers :: "('b, 'q) lte_sys \<Rightarrow> u32 \<Rightarrow> u32 \<times> ('b, 'q) lte_sys" where
  "net_drv_set_active_qos_handers w m =
     (if m = NET_DRV_QOS_MODE_QOS_MODULE then
        (AMP_ERROR_NONE, w\<lparr>g_net_drv_qos_interface_active := g_net_drv_qos_interface_registered w\<rparr>)
      else if m = NET_DRV_QOS_MODE_IPTABLES then
        (AMP_ERROR_NONE, w\<lparr>g_net_drv_qos_interface_active := g_net_drv_qos_interface_default w\<rparr>)
      else (AMP_ERROR_NET_DRV_INVALID_PARAM, w))"

text \<open>A handler that is not given is replaced by the built-in one.\<close>

definition net_drv_qos_register :: "('b, 'q) lte_sys \<Rightarrow> NET_DRV_QOS_INTERFACE \<Rightarrow> u32 \<times> ('b, 'q) lte_sys" where
  "net_drv_qos_register w i =
     (AMP_ERROR_NONE, w\<lparr>g_net_drv_qos_interface_registered :=
        \<lparr>process_tx_packet_qos = (case process_tx_packet_qos i of None \<Rightarrow> Some Builtin | Some h \<Rightarrow> Some h),
         process_rx_packet_qos = (case process_rx_packet_qos i of None \<Rightarrow> Some Builtin | Some h \<Rightarrow> Some h)\<rparr>\<rparr>)"

text \<open>Modes outside the enumeration are coerced into it.\<close>

definition net_drv_set_qos_mode :: "('b, 'q) lte_sys \<Rightarrow> u32 \<Rightarrow> u32 \<times> ('b, 'q) lte_sys" where
  "net_drv_set_qos_mode w m =
     (let m' = (if NET_DRV_QOS_MODE_IPTABLES < m then NET_DRV_QOS_MODE_IPTABLES else m);
          (_, w1) = net_drv_set_active_qos_handers w m' in
      (AMP_ERROR_NONE, w1\<lparr>g_net_drv_qos_mode := m'\<rparr>))"

definition net_drv_get_qos_mode_string :: "u32 \<Rightarrow> string" where
  "net_drv_get_qos_mode_string m =
     (if m = NET_DRV_QOS_MODE_QOS_MODULE then ''QOS MODULE''
      else if m = NET_DRV_QOS_MODE_IPTABLES then ''IP TABLES'' else ''UNKNOWN'')"

definition net_drv_set_eps_id :: "('b, 'q) lte_sys \<Rightarrow> ptr \<Rightarrow> u8 \<Rightarrow> (u32 \<times> ('b, 'q) lte_sys) res" where
  "net_drv_set_eps_id w pnet eps =
     rbind (net_drv_private_valid w pnet) (\<lambda>rv.
     if rv \<noteq> AMP_ERROR_NONE then Inr (rv, w)
     else if NETDRV_MAX_EPS_ID < eps then Inr (AMP_ERROR_NET_DRV_INVALID_PARAM, w)
     else rbind (upd_priv w (the pnet) (\<lambda>p. p\<lparr>eps_id := eps\<rparr>)) (\<lambda>w1. Inr (AMP_ERROR_NONE, w1)))"

definition net_drv_set_eps_mac_map :: "('b, 'q) lte_sys \<Rightarrow> u8 \<Rightarrow> u8 list option \<Rightarrow> (u32 \<times> ('b, 'q) lte_sys) res" where
  "net_drv_set_eps_mac_map w eps mac =
     (if NETDRV_MAX_EPS_ID < eps then Inr (AMP_ERROR_NET_DRV_INVALID_PARAM, w)
      else
        rbind (arr_get (g_net_eps_id_to_mac_addr_table w) (unat eps)) (\<lambda>e.
        rbind (case mac of None \<Rightarrow> Inr default_dev_mac_addr
               | Some m \<Rightarrow> if ETH_ALEN \<le> length m then Inr (take ETH_ALEN m) else Inl OutOfBounds) (\<lambda>m.
        Inr (AMP_ERROR_NONE,
             w\<lparr>g_net_eps_id_to_mac_addr_table := (g_net_eps_id_to_mac_addr_table w)[unat eps := e\<lparr>mac_addr := m\<rparr>]\<rparr>))))"

definition set_global_flag :: "('b, 'q) lte_sys \<Rightarrow> u32 \<Rightarrow> u32 \<Rightarrow> ('b, 'q) lte_sys" where
  "set_global_flag w flag en =
     w\<lparr>g_net_drv_global_flags := if en \<noteq> 0 then g_net_drv_global_flags w OR flag else g_net_drv_global_flags w AND NOT flag\<rparr>"

definition net_drv_set_bridge_mode :: "('b, 'q) lte_sys \<Rightarrow> u32 \<Rightarrow> u32 \<times> ('b, 'q) lte_sys" where
  "net_drv_set_bridge_mode w en = (AMP_ERROR_NONE, set_global_flag w NETDRV_GLOBAL_FLAG_BRIDGE_MODE en)"

definition net_drv_get_bridge_mode :: "('b, 'q) lte_sys \<Rightarrow> bool \<Rightarrow> u32 \<times> u32 option" where
  "net_drv_get_bridge_mode w out =
     (if \<not> out then (AMP_ERROR_NET_DRV_INVALID_PARAM, None)
      else (AMP_ERROR_NONE, Some (if g_net_drv_global_flags w AND NETDRV_GLOBAL_FLAG_BRIDGE_MODE \<noteq> 0 then 1 else 0)))"

definition net_drv_set_disable_ul :: "('b, 'q) lte_sys \<Rightarrow> u32 \<Rightarrow> u32 \<times> ('b, 'q) lte_sys" where
  "net_drv_set_disable_ul w en = (AMP_ERROR_NONE, set_global_flag w NETDRV_GLOBAL_FLAG_DISABLE_UL en)"

definition net_drv_get_disable_ul :: "('b, 'q) lte_sys \<Rightarrow> bool \<Rightarrow> u32 \<times> u32 option" where
  "net_drv_get_disable_ul w out =
     (if \<not> out then (AMP_ERROR_NET_DRV_INVALID_PARAM, None)
      else (AMP_ERROR_NONE, Some (if g_net_drv_global_flags w AND NETDRV_GLOBAL_FLAG_DISABLE_UL \<noteq> 0 then 1 else 0)))"

text \<open>Starting the performance test: the thread it creates is not modelled.\<close>

definition net_drv_perf_test :: "('b, 'q) lte_sys \<Rightarrow> u32 \<Rightarrow> u32 \<Rightarrow> u32 \<Rightarrow> u32 \<times> ('b, 'q) lte_sys" where
  "net_drv_perf_test w dur sz delay =
     (AMP_ERROR_NONE,
      if busy (g_net_ptd w) \<noteq> 0 then w
      else w\<lparr>g_net_ptd := \<lparr>busy = 1, duration = dur, packet_size = sz, packet_delay = delay, tx_count = 0,
               rx_count = 0, perf_tx_bytes = 0, perf_rx_bytes = 0\<rparr>\<rparr>)"

definition net_drv_init_module :: "('b, 'q) lte_sys \<Rightarrow> int \<times> ('b, 'q) lte_sys" where
  "net_drv_init_module w =
     (let i = \<lparr>process_tx_packet_qos = Some Builtin, process_rx_packet_qos = Some Builtin\<rparr>;
          w1 = w\<lparr>g_net_drv_qos_interface_default := i, g_net_drv_qos_interface_registered := i\<rparr>;
          (_, w2) = net_drv_set_active_qos_handers w1 (g_net_drv_qos_mode w1) in
      (0, w2\<lparr>g_net_eps_id_to_mac_addr_table :=
               map (\<lambda>_. \<lparr>mac_addr = default_dev_mac_addr, packet_cnt = 0\<rparr>) (g_net_eps_id_to_mac_addr_table w2)\<rparr>))"

end
