(* ===== verification/GhifTypes.thy ===== *)
theory GhifTypes
  imports LtePrelude
begin

text \<open>
  The types of src/kernel/include/linux/ipc_4ghif.h, the interface between the data driver and
  the baseband interface: the status codes, packet and message structures and limits both use.
\<close>

definition IPC_4GHIF_MAX_NB_UL_FRAMES :: nat where "IPC_4GHIF_MAX_NB_UL_FRAMES = 31"
definition IPC_4GHIF_MAX_NB_DL_FRAMES :: nat where "IPC_4GHIF_MAX_NB_DL_FRAMES = 31"
definition DATA_DL_PACKET_MAX_SIZE :: nat where "DATA_DL_PACKET_MAX_SIZE = 8188"
definition DATA_UL_PACKET_MAX_SIZE :: nat where "DATA_UL_PACKET_MAX_SIZE = 8188"

datatype IPC_4GHIF_STATUS =
    IPC_4GHIF_STATUS_OK | IPC_4GHIF_STATUS_INVALID_PARAM | IPC_4GHIF_STATUS_BUSY | IPC_4GHIF_STATUS_CLOSED
  | IPC_4GHIF_STATUS_ALREADY_OPEN | IPC_4GHIF_STATUS_RESOURCES_FULL | IPC_4GHIF_STATUS_NO_FRAME
  | IPC_4GHIF_STATUS_BP_NOT_READY | IPC_4GHIF_STATUS_AP_NOT_READY | IPC_4GHIF_STATUS_NO_TRANS_ON_GOING

definition PKT_TYPE_DL_DATA :: u8 where "PKT_TYPE_DL_DATA = 1"
definition PKT_TYPE_DL_MGMT :: u8 where "PKT_TYPE_DL_MGMT = 2"
definition PKT_TYPE_DL_MON :: u8 where "PKT_TYPE_DL_MON = 3"
definition PKT_TYPE_UL_DATA :: u8 where "PKT_TYPE_UL_DATA = 4"
definition PKT_TYPE_UL_MGMT :: u8 where "PKT_TYPE_UL_MGMT = 5"

datatype IPC_4GHIF_FIFO_STATUS = IPC_4GHIF_FIFO_STATUS_OK | IPC_4GHIF_FIFO_STATUS_EMPTY | IPC_4GHIF_FIFO_STATUS_FULL

definition eIPC_MSG_TYPE_INIT_REQ :: u8 where "eIPC_MSG_TYPE_INIT_REQ = 0"
definition eIPC_MSG_TYPE_INIT_CNF :: u8 where "eIPC_MSG_TYPE_INIT_CNF = 1"
definition eIPC_MSG_TYPE_DL_DATA :: u8 where "eIPC_MSG_TYPE_DL_DATA = 2"
definition eIPC_MSG_TYPE_DL_MGMT :: u8 where "eIPC_MSG_TYPE_DL_MGMT = 3"
definition eIPC_MSG_TYPE_DL_MON :: u8 where "eIPC_MSG_TYPE_DL_MON = 4"
definition eIPC_MSG_TYPE_DL_ACK :: u8 where "eIPC_MSG_TYPE_DL_ACK = 5"
definition eIPC_MSG_TYPE_UL_DATA :: u8 where "eIPC_MSG_TYPE_UL_DATA = 6"
definition eIPC_MSG_TYPE_UL_MGMT :: u8 where "eIPC_MSG_TYPE_UL_MGMT = 7"
definition eIPC_MSG_TYPE_UL_ACK :: u8 where "eIPC_MSG_TYPE_UL_ACK = 8"

lemmas ghif_type_defs =
  PKT_TYPE_DL_DATA_def PKT_TYPE_DL_MGMT_def PKT_TYPE_DL_MON_def PKT_TYPE_UL_DATA_def PKT_TYPE_UL_MGMT_def
  eIPC_MSG_TYPE_INIT_REQ_def eIPC_MSG_TYPE_INIT_CNF_def eIPC_MSG_TYPE_DL_DATA_def eIPC_MSG_TYPE_DL_MGMT_def
  eIPC_MSG_TYPE_DL_MON_def eIPC_MSG_TYPE_DL_ACK_def eIPC_MSG_TYPE_UL_DATA_def eIPC_MSG_TYPE_UL_MGMT_def
  eIPC_MSG_TYPE_UL_ACK_def

text \<open>\<open>pbuf\<close> is the socket buffer whose data the packet points to.\<close>

record sdma_packet =
  packet_type :: u8
  pbuf :: ptr
  buf_size :: u32
  transferred_status :: bool
  bearerID :: u8
  sdma_user :: u32
  puser_xfer :: "nat option"

record packet_info =
  pi_type :: u8
  pi_buf_size :: u32

record fifo_msg =
  msg_type :: u8
  msg_tag :: u8
  msg_length :: u16
  start_address :: u32

text \<open>The counters of the 4G interface; those of the 3GSM interface, which others keep, are left out.\<close>

record ipc_4ghif_stats =
  stat_ul_sdma_start :: u32
  stat_ul_sdma_done :: u32
  stat_ul_packets :: u32
  stat_ul_bytes :: u32
  stat_ul_gbytes :: u32
  stat_ul_submit_full :: u32
  stat_ul_resume_full :: u32
  stat_ul_ack :: u32
  stat_dl_notify :: u32
  stat_dl_sdma_start :: u32
  stat_dl_sdma_done :: u32
  stat_dl_packets :: u32
  stat_dl_bytes :: u32
  stat_dl_gbytes :: u32
  stat_dl_ack :: u32
  stat_irq_nb :: u32

definition zero_ghif_stats :: ipc_4ghif_stats where
  "zero_ghif_stats = \<lparr>stat_ul_sdma_start = 0, stat_ul_sdma_done = 0, stat_ul_packets = 0, stat_ul_bytes = 0,
     stat_ul_gbytes = 0, stat_ul_submit_full = 0, stat_ul_resume_full = 0, stat_ul_ack = 0, stat_dl_notify = 0,
     stat_dl_sdma_start = 0, stat_dl_sdma_done = 0, stat_dl_packets = 0, stat_dl_bytes = 0, stat_dl_gbytes = 0,
     stat_dl_ack = 0, stat_irq_nb = 0\<rparr>"

text \<open>Which callbacks the data driver registers; a pointer is NULL or the function of the data driver.\<close>

record ipc_4ghif_callbacks =
  cb_bp_ready :: bool
  cb_receive_dl :: bool
  cb_dl_complete :: bool
  cb_ul_complete :: bool
  cb_ul_resume :: bool

end
