(* ===== verification/DataDriver.thy ===== *)
theory DataDriver
  imports NetDriver TimeStampLog GhifTypes
begin

text \<open>
  The data driver of src/kernel/drivers/lte/lte_data_driver/lte_data_driver_main_sdma.c: the
  interfaces with their transmit FIFOs, uplink and downlink transfers through the shared memory
  interface of the baseband (IPC_4GHIF), the callbacks of that interface and the watchdog. It is
  the bus object of the network driver.

  The state of the driver is the component \<open>bus\<close> of \<open>lte_sys\<close>. Pointers to the elements of an
  array of the device object are their indices; the bus interface embedded in the \<open>i\<close>-th
  interface is \<open>bus_ifs i\<close>. The build does not define \<open>LTE_DD_TSL_PROFILE\<close>: the time stamp
  logs are created and read but not written. The IPC functions, the clocks and the physical
  addresses of buffers are parameters, collected in \<open>dd_env\<close>. The texts of IPC errors only go
  to the log.
\<close>

section \<open>Data\<close>

definition AMP_ERROR_LTEDD_INVALID_PARAM :: u32 where "AMP_ERROR_LTEDD_INVALID_PARAM = 0x80200000"
definition AMP_ERROR_LTEDD_RESOURCE_ALLOC :: u32 where "AMP_ERROR_LTEDD_RESOURCE_ALLOC = 0x80200001"
definition AMP_ERROR_LTEDD_PRIVATE_INVALID :: u32 where "AMP_ERROR_LTEDD_PRIVATE_INVALID = 0x80200002"
definition AMP_ERROR_LTEDD_FIFO_REMOVE :: u32 where "AMP_ERROR_LTEDD_FIFO_REMOVE = 0x80200004"
definition AMP_ERROR_LTEDD_NET_INFO :: u32 where "AMP_ERROR_LTEDD_NET_INFO = 0x80200006"

lemmas dd_error_defs =
  AMP_ERROR_LTEDD_INVALID_PARAM_def AMP_ERROR_LTEDD_RESOURCE_ALLOC_def AMP_ERROR_LTEDD_PRIVATE_INVALID_def
  AMP_ERROR_LTEDD_FIFO_REMOVE_def AMP_ERROR_LTEDD_NET_INFO_def

definition LTE_DD_TX_DATA_PACKET_FIFO_SIZE :: u32 where "LTE_DD_TX_DATA_PACKET_FIFO_SIZE = 64"

definition LTE_DD_FLAG_TX_BUSY :: u32 where "LTE_DD_FLAG_TX_BUSY = 0x01"
definition LTE_DD_FLAG_TX_THROTTLE :: u32 where "LTE_DD_FLAG_TX_THROTTLE = 0x02"
definition LTE_DD_FLAG_RX_BUSY :: u32 where "LTE_DD_FLAG_RX_BUSY = 0x04"
definition LTE_DD_FLAG_RX_THROTTLE :: u32 where "LTE_DD_FLAG_RX_THROTTLE = 0x08"
definition LTE_DD_FLAG_RX_AVAIL :: u32 where "LTE_DD_FLAG_RX_AVAIL = 0x10"
definition LTE_DD_FLAG_MULTI_PACKET :: u32 where "LTE_DD_FLAG_MULTI_PACKET = 0x20"
definition LTE_DD_FLAG_LPBP :: u32 where "LTE_DD_FLAG_LPBP = 0x40"
definition LTE_NI_FLAG_TX_BUSY :: u32 where "LTE_NI_FLAG_TX_BUSY = 0x01"

lemmas dd_flag_defs =
  LTE_DD_FLAG_TX_BUSY_def LTE_DD_FLAG_TX_THROTTLE_def LTE_DD_FLAG_RX_BUSY_def LTE_DD_FLAG_RX_THROTTLE_def
  LTE_DD_FLAG_RX_AVAIL_def LTE_DD_FLAG_MULTI_PACKET_def LTE_DD_FLAG_LPBP_def LTE_NI_FLAG_TX_BUSY_def

definition HZ :: u32 where "HZ = 128"
definition UL_DL_WATCHDOG_TIMER_INTERVAL :: u32 where "UL_DL_WATCHDOG_TIMER_INTERVAL = HZ * 2"
definition TX_BUSY_TIMEOUT :: u32 where "TX_BUSY_TIMEOUT = HZ * 1"
definition RX_BUSY_TIMEOUT :: u32 where "RX_BUSY_TIMEOUT = HZ * 1"

definition zero_sdma :: sdma_packet where
  "zero_sdma = \<lparr>packet_type = 0, pbuf = None, buf_size = 0, transferred_status = False, bearerID = 0,
     sdma_user = 0, puser_xfer = None\<rparr>"

record lte_dd_sdma_xfer_t =
  xfer_pni :: "nat option"
  xfer_pskb :: ptr
  sdma :: sdma_packet

definition zero_xfer :: lte_dd_sdma_xfer_t where
  "zero_xfer = \<lparr>xfer_pni = None, xfer_pskb = None, sdma = zero_sdma\<rparr>"

record lte_dd_net_info_t =
  ifname :: string
  ni_eps_id :: u8
  priority :: u8
  pnet :: ptr
  h_tx_data_fifo :: "addr PTR_FIFO option"
  tx_data_packet_write_fifo_cnt :: u32
  tx_data_packet_read_fifo_cnt :: u32
  ni_throttle_close_cnt :: u32
  ni_throttle_open_cnt :: u32
  tx_drain_cnt :: u32
  ni_flags :: u32

definition zero_ni :: lte_dd_net_info_t where
  "zero_ni = \<lparr>ifname = [], ni_eps_id = 0, priority = 0, pnet = None, h_tx_data_fifo = None,
     tx_data_packet_write_fifo_cnt = 0, tx_data_packet_read_fifo_cnt = 0, ni_throttle_close_cnt = 0,
     ni_throttle_open_cnt = 0, tx_drain_cnt = 0, ni_flags = 0\<rparr>"

definition zero_bus_if :: NET_DRV_BUS_INTERFACE where
  "zero_bus_if = \<lparr>tx_start = False, tx_complete = False, rx_start = False, rx_complete = False,
     net_control = False, bus_control = False\<rparr>"

text \<open>Kernel times of one direction, in nanoseconds.\<close>

record kt_stats =
  kt_submit :: int
  kt_ack :: int
  kt_delta :: int
  kt_delta_min :: int
  kt_delta_max :: int

text \<open>
  \<open>dd_valid\<close> says that signature and size stamp are those of the module. \<open>running_index\<close> is
  the static variable of the FIFO lookup.
\<close>

record lte_dd_dev_t =
  dd_valid :: bool
  ptsl_ul :: "tsl_log_t option"
  ptsl_dl :: "tsl_log_t option"
  ni_interfaces :: "lte_dd_net_info_t list"
  ni_interfaces_cnt :: u32
  tx_sdma_xfer :: "lte_dd_sdma_xfer_t list"
  tx_sdma_xfer_cnt :: nat
  tx_sdma_packet :: "nat option list"
  tx_sdma_packet_cnt :: nat
  rx_sdma_xfer :: "lte_dd_sdma_xfer_t list"
  rx_sdma_xfer_cnt :: nat
  rx_sdma_packet :: "nat option list"
  rx_sdma_packet_cnt :: nat
  tx_kt :: kt_stats
  rx_kt :: kt_stats
  txrx_kt :: kt_stats
  tx_packet_cnt :: u32
  rx_packet_cnt :: u32
  tx_data_packets_sdma_submit :: u32
  tx_data_packets_sdma_ack :: u32
  tx_data_packets_sdma_bytes :: u32
  rx_data_packets_sdma_notify :: u32
  rx_data_packets_sdma_submit :: u32
  rx_data_packets_sdma_ack :: u32
  rx_data_packets_sdma_bytes :: u32
  tx_data_packets_multi_avail :: u32
  rx_data_packets_multi_avail :: u32
  tx_throttle_close_cnt :: u32
  tx_throttle_open_cnt :: u32
  tx_data_busy_start_time :: u32
  tx_data_throttle_start_time :: u32
  rx_data_busy_start_time :: u32
  rx_net_rx_drop_cnt :: u32
  tx_physaddr_cnt :: "u32 \<times> u32 \<times> u32"
  rx_physaddr_cnt :: "u32 \<times> u32 \<times> u32"
  dd_flags :: u32
  wd_expires :: u32
  running_index :: u32

type_synonym 'q dd_sys = "(lte_dd_dev_t, 'q) lte_sys"

text \<open>
  \<open>submit_ul\<close> and \<open>submit_dl\<close> return the status and the number of packets accepted,
  \<open>alloc_skb\<close> the buffer for the packet of that number in a downlink transfer.
\<close>

record dd_env =
  submit_ul :: "sdma_packet list \<Rightarrow> IPC_4GHIF_STATUS \<times> u8"
  submit_dl :: "sdma_packet list \<Rightarrow> IPC_4GHIF_STATUS \<times> u8"
  get_dl_frames_nb :: "IPC_4GHIF_STATUS \<times> packet_info list"
  jiffies :: u32
  ktime_now :: int
  virt_to_phys :: "addr \<Rightarrow> u32"
  alloc_skb :: "nat \<Rightarrow> ptr"

section \<open>Interfaces\<close>

definition lte_dd_private_valid :: "'q dd_sys \<Rightarrow> ptr \<Rightarrow> u32" where
  "lte_dd_private_valid w pdev =
     (if pdev = None \<or> \<not> dd_valid (bus w) then AMP_ERROR_LTEDD_PRIVATE_INVALID else AMP_ERROR_NONE)"

definition get_ni :: "'q dd_sys \<Rightarrow> nat \<Rightarrow> lte_dd_net_info_t res" where
  "get_ni w i = arr_get (ni_interfaces (bus w)) i"

definition upd_bus :: "'q dd_sys \<Rightarrow> (lte_dd_dev_t \<Rightarrow> lte_dd_dev_t) \<Rightarrow> 'q dd_sys" where
  "upd_bus w f = w\<lparr>bus := f (bus w)\<rparr>"

definition upd_ni :: "'q dd_sys \<Rightarrow> nat \<Rightarrow> (lte_dd_net_info_t \<Rightarrow> lte_dd_net_info_t) \<Rightarrow> 'q dd_sys res" where
  "upd_ni w i f =
     rbind (get_ni w i) (\<lambda>ni. Inr (upd_bus w (\<lambda>d. d\<lparr>ni_interfaces := (ni_interfaces d)[i := f ni]\<rparr>)))"

definition lte_dd_ni_interface_find_pnet :: "'q dd_sys \<Rightarrow> ptr \<Rightarrow> nat option" where
  "lte_dd_ni_interface_find_pnet w p =
     (if p = None then None else find_slot (\<lambda>ni. pnet ni = p) (ni_interfaces (bus w)))"

text \<open>\<open>strcasecmp\<close> compares the names in lower case.\<close>

definition to_lower :: "char \<Rightarrow> char" where
  "to_lower c = (let n = of_char c :: nat in
     if 65 \<le> n \<and> n \<le> 90 \<or> 192 \<le> n \<and> n \<le> 222 \<and> n \<noteq> 215 then char_of (n + 32) else c)"

definition same_name :: "string \<Rightarrow> string \<Rightarrow> bool" where
  "same_name a b \<longleftrightarrow> map to_lower a = map to_lower b"

definition lte_dd_ni_interface_find_ifname :: "'q dd_sys \<Rightarrow> string option \<Rightarrow> nat option" where
  "lte_dd_ni_interface_find_ifname w name =
     (case name of
        None \<Rightarrow> None
      | Some n \<Rightarrow> find_slot (\<lambda>ni. pnet ni \<noteq> None \<and> same_name (ifname ni) n) (ni_interfaces (bus w)))"

definition lte_dd_ni_interface_get_at_index :: "'q dd_sys \<Rightarrow> int \<Rightarrow> nat option" where
  "lte_dd_ni_interface_get_at_index w i =
     (if i < 0 \<or> int (length (ni_interfaces (bus w))) \<le> i then None else Some (nat i))"

definition lte_dd_ni_interface_alloc :: "'q dd_sys \<Rightarrow> nat option" where
  "lte_dd_ni_interface_alloc w = find_slot (\<lambda>ni. pnet ni = None) (ni_interfaces (bus w))"

text \<open>The \<open>memset\<close> of a net info clears its embedded bus interface too.\<close>

definition lte_dd_ni_interface_free :: "'q dd_sys \<Rightarrow> nat \<Rightarrow> 'q dd_sys res" where
  "lte_dd_ni_interface_free w i =
     rbind (upd_ni w i (\<lambda>_. zero_ni)) (\<lambda>w1. Inr (w1\<lparr>bus_ifs := (bus_ifs w1)(i \<mapsto> zero_bus_if)\<rparr>))"

text \<open>The number of elements the lookup reports: one unless in multi packet mode.\<close>

definition fifo_elements :: "lte_dd_dev_t \<Rightarrow> lte_dd_net_info_t \<Rightarrow> u32" where
  "fifo_elements d ni =
     (case snd (ptr_fifo_num_elements (h_tx_data_fifo ni) True) of None \<Rightarrow> 0 | Some n \<Rightarrow> n)"

definition limit_elements :: "lte_dd_dev_t \<Rightarrow> u32 \<Rightarrow> u32" where
  "limit_elements d n = (if dd_flags d AND LTE_DD_FLAG_MULTI_PACKET = 0 then 1 else n)"

text \<open>
  The round robin over the interfaces: \<open>n\<close> slots are left to look at. The counts are signed,
  a negative one counts as none.
\<close>

primrec rr_lookup :: "lte_dd_dev_t \<Rightarrow> u32 \<Rightarrow> nat \<Rightarrow> ((nat \<times> u32) option \<times> u32) res" where
  "rr_lookup d ri 0 = Inr (None, ri)"
| "rr_lookup d ri (Suc n) =
     (let i = unat ri mod length (ni_interfaces d) in
      rbind (arr_get (ni_interfaces d) i) (\<lambda>ni.
      if pnet ni \<noteq> None \<and> 0 <s fifo_elements d ni
      then Inr (Some (i, limit_elements d (fifo_elements d ni)), ri + 1)
      else rr_lookup d (ri + 1) n))"

definition lte_dd_ni_interface_fifo_lookup :: "'q dd_sys \<Rightarrow> ((nat \<times> u32) option \<times> 'q dd_sys) res" where
  "lte_dd_ni_interface_fifo_lookup w =
     (let d = bus w in
      if ni_interfaces_cnt d = 1 then
        rbind (get_ni w 0) (\<lambda>ni.
        Inr (if 0 <s fifo_elements d ni then Some (0, limit_elements d (fifo_elements d ni)) else None, w))
      else
        rbind (rr_lookup d (running_index d) (length (ni_interfaces d))) (\<lambda>(r, ri).
        Inr (r, upd_bus w (\<lambda>d. d\<lparr>running_index := ri\<rparr>))))"

definition lte_dd_zero_tx_arrays :: "'q dd_sys \<Rightarrow> 'q dd_sys" where
  "lte_dd_zero_tx_arrays w = upd_bus w (\<lambda>d. d\<lparr>tx_sdma_xfer_cnt := 0,
     tx_sdma_xfer := replicate IPC_4GHIF_MAX_NB_UL_FRAMES zero_xfer, tx_sdma_packet_cnt := 0,
     tx_sdma_packet := replicate IPC_4GHIF_MAX_NB_UL_FRAMES None\<rparr>)"

definition lte_dd_zero_rx_arrays :: "'q dd_sys \<Rightarrow> 'q dd_sys" where
  "lte_dd_zero_rx_arrays w = upd_bus w (\<lambda>d. d\<lparr>rx_sdma_xfer_cnt := 0,
     rx_sdma_xfer := replicate IPC_4GHIF_MAX_NB_DL_FRAMES zero_xfer, rx_sdma_packet_cnt := 0,
     rx_sdma_packet := replicate IPC_4GHIF_MAX_NB_DL_FRAMES None\<rparr>)"

section \<open>Uplink\<close>

text \<open>Logging of a queue event, the only bus control command \<open>net_drv_tx_complete\<close> sends.\<close>

definition lte_dd_log_netqueue_event :: "'q dd_sys \<Rightarrow> addr \<Rightarrow> u32 \<Rightarrow> 'q dd_sys res" where
  "lte_dd_log_netqueue_event w a cmd_data =
     (case lte_dd_ni_interface_find_pnet w (Some a) of
        None \<Rightarrow> Inr w
      | Some i \<Rightarrow>
          if cmd_data \<noteq> 0 then upd_ni w i (\<lambda>ni. ni\<lparr>ni_throttle_close_cnt := ni_throttle_close_cnt ni + 1\<rparr>)
          else upd_ni w i (\<lambda>ni. ni\<lparr>ni_throttle_open_cnt := ni_throttle_open_cnt ni + 1\<rparr>))"

text \<open>
  The part of \<open>lte_dd_bus_control\<close> that does not transmit. It is the bus control function
  inside the transmit routine, whose completions send no other command.
\<close>

definition bus_control_log :: "(lte_dd_dev_t, 'q) bus_control_fn" where
  "bus_control_log a pdev cmd cmd_data w =
     (let retval = lte_dd_private_valid w pdev in
      if retval \<noteq> AMP_ERROR_NONE then Inr (retval, w)
      else if cmd = NETDRV_BUS_CONTROL_LOG_NETQUEUE_EVENT then
        rbind (lte_dd_log_netqueue_event w a cmd_data) (\<lambda>w1. Inr (AMP_ERROR_NONE, w1))
      else Inr (AMP_ERROR_NONE, w))"

text \<open>
  \<open>pni->net_drv_bus_interface.tx_complete\<close> of interface \<open>i\<close>: a call of NULL when the network
  driver has not set it.
\<close>

definition call_tx_complete :: "'q dd_sys \<Rightarrow> nat \<Rightarrow> addr \<Rightarrow> u32 \<Rightarrow> 'q dd_sys res" where
  "call_tx_complete w i s fifo_count =
     rbind (get_ni w i) (\<lambda>ni.
     (case bus_ifs w i of
        None \<Rightarrow> Inl DanglingDeref
      | Some f \<Rightarrow>
          if tx_complete f then
            rbind (net_drv_tx_complete bus_control_log w (pnet ni) s (uint LTE_DD_TX_DATA_PACKET_FIFO_SIZE)
                     (sint fifo_count)) (\<lambda>(_, w1). Inr w1)
          else Inl NullDeref))"

definition count_align :: "u32 \<Rightarrow> u32 \<times> u32 \<times> u32 \<Rightarrow> u32 \<times> u32 \<times> u32" where
  "count_align phys c =
     (case c of (a8, a16, a32) \<Rightarrow>
        if phys AND 1 \<noteq> 0 then (a8 + 1, a16, a32) else if phys AND 2 \<noteq> 0 then (a8, a16 + 1, a32) else (a8, a16, a32 + 1))"

text \<open>
  Building the transfer list from the FIFO of interface \<open>i\<close>. \<open>pskb\<close> is the local variable,
  which keeps its value when a peek fails. The flag is \<open>False\<close> on the early exit of the first
  packet.
\<close>

fun tx_build :: "dd_env \<Rightarrow> nat \<Rightarrow> nat list \<Rightarrow> ptr \<Rightarrow> 'q dd_sys \<Rightarrow> (bool \<times> 'q dd_sys) res" where
  "tx_build e i [] pskb w = Inr (True, w)"
| "tx_build e i (j # js) pskb w =
     rbind (get_ni w i) (\<lambda>ni.
     rbind (ptr_fifo_peek_offset (h_tx_data_fifo ni) (of_nat j) True) (\<lambda>(pfval, v).
     if pfval \<noteq> PTR_FIFO_ERROR_NONE \<and> j = 0 then Inr (False, w)
     else let pskb' = (if v = None then pskb else v) in
       case pskb' of
         None \<Rightarrow> Inl NullDeref
       | Some s \<Rightarrow>
           rbind (get_skb w s) (\<lambda>b.
           rbind (net_drv_get_skb_eps_id b) (\<lambda>eps.
           let d = bus w; k = tx_sdma_xfer_cnt d in
           rbind (arr_put (tx_sdma_xfer d) k
                    \<lparr>xfer_pni = Some i, xfer_pskb = Some s,
                     sdma = \<lparr>packet_type = PKT_TYPE_UL_DATA, pbuf = Some s, buf_size = of_nat (skb_len (pkt b)),
                       transferred_status = False, bearerID = eps, sdma_user = of_nat k, puser_xfer = Some k\<rparr>\<rparr>) (\<lambda>xs.
           tx_build e i js pskb'
             (upd_bus w (\<lambda>d. d\<lparr>tx_sdma_xfer := xs, tx_sdma_xfer_cnt := k + 1,
                tx_physaddr_cnt := count_align (virt_to_phys e s) (tx_physaddr_cnt d)\<rparr>)))))))"

text \<open>Dropping the packets of a refused transfer, \<open>n\<close> of them.\<close>

primrec tx_drop_loop :: "nat \<Rightarrow> nat \<Rightarrow> 'q dd_sys \<Rightarrow> 'q dd_sys res" where
  "tx_drop_loop i 0 w = Inr w"
| "tx_drop_loop i (Suc n) w =
     rbind (get_ni w i) (\<lambda>ni.
     rbind (ptr_fifo_remove (h_tx_data_fifo ni) True) (\<lambda>(pfval, v, f).
     rbind (upd_ni w i (\<lambda>ni. ni\<lparr>h_tx_data_fifo := f\<rparr>)) (\<lambda>w1.
     if pfval = PTR_FIFO_ERROR_NONE then
       rbind (upd_ni w1 i (\<lambda>ni. ni\<lparr>tx_data_packet_read_fifo_cnt := tx_data_packet_read_fifo_cnt ni + 1\<rparr>)) (\<lambda>w2.
       case v of
         None \<Rightarrow> Inl NullDeref
       | Some s \<Rightarrow>
           rbind (call_tx_complete w2 i s (case snd (ptr_fifo_num_elements f True) of None \<Rightarrow> 0 | Some c \<Rightarrow> c)) (\<lambda>w3.
           tx_drop_loop i n w3))
     else tx_drop_loop i n w1)))"

definition set_tx_busy :: "'q dd_sys \<Rightarrow> nat \<Rightarrow> 'q dd_sys res" where
  "set_tx_busy w i =
     upd_ni (upd_bus w (\<lambda>d. d\<lparr>dd_flags := dd_flags d OR LTE_DD_FLAG_TX_BUSY\<rparr>)) i
       (\<lambda>ni. ni\<lparr>ni_flags := ni_flags ni OR LTE_NI_FLAG_TX_BUSY\<rparr>)"

definition clear_tx_busy :: "'q dd_sys \<Rightarrow> nat \<Rightarrow> 'q dd_sys res" where
  "clear_tx_busy w i =
     upd_ni (upd_bus w (\<lambda>d. d\<lparr>dd_flags := dd_flags d AND NOT LTE_DD_FLAG_TX_BUSY\<rparr>)) i
       (\<lambda>ni. ni\<lparr>ni_flags := ni_flags ni AND NOT LTE_NI_FLAG_TX_BUSY\<rparr>)"

text \<open>What follows the submission of a transfer of interface \<open>i\<close>.\<close>

definition tx_submitted :: "dd_env \<Rightarrow> nat \<Rightarrow> IPC_4GHIF_STATUS \<Rightarrow> u8 \<Rightarrow> 'q dd_sys \<Rightarrow> 'q dd_sys res" where
  "tx_submitted e i st acc w =
     (case st of
        IPC_4GHIF_STATUS_OK \<Rightarrow> Inr (upd_bus w (\<lambda>d. d\<lparr>tx_packet_cnt := tx_packet_cnt d + ucast acc\<rparr>))
      | IPC_4GHIF_STATUS_BUSY \<Rightarrow> Inr w
      | IPC_4GHIF_STATUS_RESOURCES_FULL \<Rightarrow>
          let w1 = (if unat acc < tx_sdma_packet_cnt (bus w)
                    then upd_bus w (\<lambda>d. d\<lparr>tx_sdma_packet_cnt := unat acc, tx_sdma_xfer_cnt := unat acc\<rparr>) else w);
              w2 = upd_bus w1 (\<lambda>d. d\<lparr>tx_packet_cnt := tx_packet_cnt d + ucast acc,
                     dd_flags := dd_flags d OR LTE_DD_FLAG_TX_THROTTLE,
                     tx_throttle_close_cnt := tx_throttle_close_cnt d + 1, tx_data_throttle_start_time := jiffies e\<rparr>) in
          if acc = 0 then clear_tx_busy w2 i else Inr w2
      | _ \<Rightarrow>
          rbind (tx_drop_loop i (tx_sdma_xfer_cnt (bus w)) w) (\<lambda>w1.
          clear_tx_busy (lte_dd_zero_tx_arrays w1) i))"

definition lte_dd_sdma_tx :: "dd_env \<Rightarrow> 'q dd_sys \<Rightarrow> (u32 \<times> 'q dd_sys) res" where
  "lte_dd_sdma_tx e w =
     (if dd_flags (bus w) AND LTE_DD_FLAG_TX_BUSY \<noteq> 0 \<or> dd_flags (bus w) AND LTE_DD_FLAG_TX_THROTTLE \<noteq> 0
      then Inr (AMP_ERROR_NONE, w)
      else
        rbind (lte_dd_ni_interface_fifo_lookup w) (\<lambda>(r, w0).
        case r of
          None \<Rightarrow> Inr (AMP_ERROR_LTEDD_NET_INFO, w0)
        | Some (i, num) \<Rightarrow>
            rbind (set_tx_busy w0 i) (\<lambda>w1.
            let w2 = upd_bus w1 (\<lambda>d. d\<lparr>tx_data_busy_start_time := jiffies e, tx_sdma_xfer_cnt := 0,
                       tx_sdma_xfer := replicate IPC_4GHIF_MAX_NB_UL_FRAMES zero_xfer\<rparr>) in
            rbind (tx_build e i [0..<min (unat num) IPC_4GHIF_MAX_NB_UL_FRAMES] None w2) (\<lambda>(ok, w3).
            if \<not> ok then rbind (clear_tx_busy w3 i) (\<lambda>w4. Inr (AMP_ERROR_LTEDD_FIFO_REMOVE, w4))
            else
              let n = tx_sdma_xfer_cnt (bus w3);
                  w4 = upd_bus w3 (\<lambda>d. d\<lparr>
                    tx_data_packets_multi_avail := (if 1 < n then tx_data_packets_multi_avail d + 1
                                                    else tx_data_packets_multi_avail d),
                    tx_sdma_packet_cnt := n,
                    tx_sdma_packet := map Some [0..<n] @ replicate (IPC_4GHIF_MAX_NB_UL_FRAMES - n) None,
                    tx_kt := (tx_kt d)\<lparr>kt_submit := ktime_now e\<rparr>,
                    tx_data_packets_sdma_submit := tx_data_packets_sdma_submit d + 1\<rparr>);
                  (st, acc) = submit_ul e (map sdma (take n (tx_sdma_xfer (bus w4)))) in
              rbind (tx_submitted e i st acc w4) (\<lambda>w5. Inr (AMP_ERROR_NONE, w5))))))"

text \<open>The transmit entry of the bus interface.\<close>

definition lte_dd_tx_data_start :: "dd_env \<Rightarrow> addr \<Rightarrow> ptr \<Rightarrow> addr \<Rightarrow> 'q dd_sys \<Rightarrow> (u32 \<times> 'q dd_sys) res" where
  "lte_dd_tx_data_start e a pdev s w =
     (let retval = lte_dd_private_valid w pdev in
      if retval \<noteq> AMP_ERROR_NONE then Inr (retval, w)
      else
        (case lte_dd_ni_interface_find_pnet w (Some a) of
           None \<Rightarrow> Inr (AMP_ERROR_LTEDD_NET_INFO, w)
         | Some i \<Rightarrow>
             rbind (get_ni w i) (\<lambda>ni.
             rbind (ptr_fifo_insert (h_tx_data_fifo ni) s) (\<lambda>(pfval, f).
             rbind (upd_ni w i (\<lambda>ni. ni\<lparr>h_tx_data_fifo := f\<rparr>)) (\<lambda>w1.
             if pfval \<noteq> PTR_FIFO_ERROR_NONE then Inr (AMP_ERROR_LTEDD_FIFO_INSERT, w1)
             else
               rbind (upd_ni w1 i (\<lambda>ni. ni\<lparr>tx_data_packet_write_fifo_cnt := tx_data_packet_write_fifo_cnt ni + 1\<rparr>)) (\<lambda>w2.
               rbind (lte_dd_sdma_tx e w2) (\<lambda>(_, w3). Inr (AMP_ERROR_NONE, w3))))))))"

text \<open>Flushing frees the buffers of a FIFO.\<close>

partial_function (option) flush_tx_loop ::
  "addr PTR_FIFO option \<Rightarrow> 'q dd_sys \<Rightarrow> (addr PTR_FIFO option \<times> 'q dd_sys) res option" where
  "flush_tx_loop q w =
     (case ptr_fifo_remove q True of
        Inl x \<Rightarrow> Some (Inl x)
      | Inr r \<Rightarrow>
          if fst r \<noteq> PTR_FIFO_ERROR_NONE then Some (Inr (snd (snd r), w))
          else
            (case (case fst (snd r) of None \<Rightarrow> Inr w | Some s \<Rightarrow> kfree_skb w s) of
               Inl x \<Rightarrow> Some (Inl x)
             | Inr w1 \<Rightarrow> flush_tx_loop (snd (snd r)) w1))"

definition lte_dd_flush_tx_data_fifo ::
  "'q dd_sys \<Rightarrow> lte_dd_net_info_t \<Rightarrow> (lte_dd_net_info_t \<times> 'q dd_sys) res" where
  "lte_dd_flush_tx_data_fifo w ni =
     rbind (returned (flush_tx_loop (h_tx_data_fifo ni) w)) (\<lambda>(q, w1).
     Inr (ni\<lparr>h_tx_data_fifo := q, tx_data_packet_write_fifo_cnt := 0, tx_data_packet_read_fifo_cnt := 0\<rparr>, w1))"

definition lte_dd_bus_control :: "dd_env \<Rightarrow> (lte_dd_dev_t, 'q) bus_control_fn" where
  "lte_dd_bus_control e a pdev cmd cmd_data w =
     (let retval = lte_dd_private_valid w pdev in
      if retval \<noteq> AMP_ERROR_NONE then Inr (retval, w)
      else if cmd = NETDRV_BUS_CONTROL_FLUSH then
        (case lte_dd_ni_interface_find_pnet w (Some a) of
           None \<Rightarrow> Inr (AMP_ERROR_NONE, w)
         | Some i \<Rightarrow>
             rbind (get_ni w i) (\<lambda>ni.
             rbind (lte_dd_flush_tx_data_fifo w ni) (\<lambda>(ni1, w1).
             rbind (upd_ni w1 i (\<lambda>_. ni1)) (\<lambda>w2. Inr (AMP_ERROR_NONE, w2)))))
      else if cmd = NETDRV_BUS_CONTROL_TX_DRAIN then
        (case lte_dd_ni_interface_find_pnet w (Some a) of
           None \<Rightarrow> Inr (AMP_ERROR_NONE, w)
         | Some i \<Rightarrow>
             rbind (upd_ni w i (\<lambda>ni. ni\<lparr>tx_drain_cnt := tx_drain_cnt ni + 1\<rparr>)) (\<lambda>w1.
             rbind (lte_dd_sdma_tx e w1) (\<lambda>(_, w2). Inr (AMP_ERROR_NONE, w2))))
      else if cmd = NETDRV_BUS_CONTROL_LOG_NETQUEUE_EVENT then
        rbind (lte_dd_log_netqueue_event w a cmd_data) (\<lambda>w1. Inr (AMP_ERROR_NONE, w1))
      else Inr (AMP_ERROR_NONE, w))"

text \<open>
  The completion of an uplink transfer. \<open>ul_complete_loop\<close> goes over the packets and returns
  the interface of the last one.
\<close>

fun ul_complete_loop :: "nat list \<Rightarrow> nat option \<Rightarrow> 'q dd_sys \<Rightarrow> (nat option \<times> 'q dd_sys) res" where
  "ul_complete_loop [] pni w = Inr (pni, w)"
| "ul_complete_loop (j # js) pni w =
     rbind (arr_get (tx_sdma_packet (bus w)) j) (\<lambda>p.
     case p of
       None \<Rightarrow> ul_complete_loop js pni w
     | Some k \<Rightarrow>
         rbind (arr_get (tx_sdma_xfer (bus w)) k) (\<lambda>xk.
         let w1 = upd_bus w (\<lambda>d. d\<lparr>tx_data_packets_sdma_bytes := tx_data_packets_sdma_bytes d + buf_size (sdma xk)\<rparr>) in
         case puser_xfer (sdma xk) of
           None \<Rightarrow> Inl NullDeref
         | Some u \<Rightarrow>
             rbind (arr_get (tx_sdma_xfer (bus w1)) u) (\<lambda>x.
             case xfer_pskb x of
               None \<Rightarrow> ul_complete_loop js (xfer_pni x) w1
             | Some s \<Rightarrow>
                 (case xfer_pni x of
                    None \<Rightarrow> Inl NullDeref
                  | Some i \<Rightarrow>
                      rbind (get_ni w1 i) (\<lambda>ni.
                      rbind (ptr_fifo_peek_offset (h_tx_data_fifo ni) 0 True) (\<lambda>(pfval, v).
                      rbind (if pfval = PTR_FIFO_ERROR_NONE \<and> v = Some s then
                               rbind (ptr_fifo_remove (h_tx_data_fifo ni) True) (\<lambda>(_, _, f).
                               upd_ni w1 i (\<lambda>ni. ni\<lparr>h_tx_data_fifo := f,
                                 tx_data_packet_read_fifo_cnt := tx_data_packet_read_fifo_cnt ni + 1\<rparr>))
                             else Inr w1) (\<lambda>w2.
                      rbind (get_ni w2 i) (\<lambda>ni2.
                      rbind (call_tx_complete w2 i s
                               (case snd (ptr_fifo_num_elements (h_tx_data_fifo ni2) True) of None \<Rightarrow> 0 | Some c \<Rightarrow> c)) (\<lambda>w3.
                      ul_complete_loop js (Some i) w3)))))))))"

definition kt_acked :: "int \<Rightarrow> int \<Rightarrow> kt_stats \<Rightarrow> kt_stats" where
  "kt_acked now since k =
     (let dt = now - since in
      k\<lparr>kt_ack := now, kt_delta := dt, kt_delta_min := min dt (kt_delta_min k), kt_delta_max := max dt (kt_delta_max k)\<rparr>)"

text \<open>
  \<open>ours\<close>: the callback gets the array of the device object; an array pointer that is NULL or
  foreign is ignored.
\<close>

definition lte_dd_4ghif_ul_complete_cb :: "dd_env \<Rightarrow> bool \<Rightarrow> bool \<Rightarrow> 'q dd_sys \<Rightarrow> 'q dd_sys res" where
  "lte_dd_4ghif_ul_complete_cb e given ours w =
     (if \<not> given then Inr w
      else
        let w1 = upd_bus w (\<lambda>d. d\<lparr>tx_data_packets_sdma_ack := tx_data_packets_sdma_ack d + 1,
                   tx_kt := kt_acked (ktime_now e) (kt_submit (tx_kt d)) (tx_kt d)\<rparr>) in
        if \<not> ours \<or> dd_flags (bus w1) AND LTE_DD_FLAG_TX_BUSY = 0 then Inr w1
        else
          rbind (ul_complete_loop [0..<tx_sdma_packet_cnt (bus w1)] None w1) (\<lambda>(pni, w2).
          let w3 = upd_bus (lte_dd_zero_tx_arrays w2) (\<lambda>d. d\<lparr>dd_flags := dd_flags d AND NOT LTE_DD_FLAG_TX_BUSY\<rparr>) in
          rbind (case pni of None \<Rightarrow> Inr w3
                 | Some i \<Rightarrow> upd_ni w3 i (\<lambda>ni. ni\<lparr>ni_flags := ni_flags ni AND NOT LTE_NI_FLAG_TX_BUSY\<rparr>)) (\<lambda>w4.
          rbind (lte_dd_sdma_tx e w4) (\<lambda>(_, w5). Inr w5))))"

definition lte_dd_4ghif_ul_resume_cb :: "dd_env \<Rightarrow> 'q dd_sys \<Rightarrow> 'q dd_sys res" where
  "lte_dd_4ghif_ul_resume_cb e w =
     rbind (lte_dd_sdma_tx e (upd_bus w (\<lambda>d. d\<lparr>dd_flags := dd_flags d AND NOT LTE_DD_FLAG_TX_THROTTLE,
              tx_throttle_open_cnt := tx_throttle_open_cnt d + 1\<rparr>))) (\<lambda>(_, w1). Inr w1)"

section \<open>Downlink\<close>

definition call_rx_start :: "'q dd_sys \<Rightarrow> nat \<Rightarrow> ptr \<Rightarrow> u32 \<Rightarrow> (ptr \<times> 'q dd_sys) res" where
  "call_rx_start w i alloc sz =
     rbind (get_ni w i) (\<lambda>ni.
     (case bus_ifs w i of
        None \<Rightarrow> Inl DanglingDeref
      | Some f \<Rightarrow> if rx_start f then net_drv_rx_start alloc w (pnet ni) (sint sz) else Inl NullDeref))"

definition call_rx_complete ::
  "(lte_dd_dev_t, 'q) net_env \<Rightarrow> u8 list \<Rightarrow> 'q dd_sys \<Rightarrow> nat \<Rightarrow> addr \<Rightarrow> u8 \<Rightarrow> bool \<Rightarrow> (u32 \<times> 'q dd_sys) res" where
  "call_rx_complete env junk w i s eps mm =
     rbind (get_ni w i) (\<lambda>ni.
     (case bus_ifs w i of
        None \<Rightarrow> Inl DanglingDeref
      | Some f \<Rightarrow> if rx_complete f then net_drv_rx_complete env junk w (pnet ni) s eps mm else Inl NullDeref))"

text \<open>
  Buffers for the packets announced, from number \<open>j\<close> on. Running out of buffers is an error
  for the first packet only.
\<close>

fun rx_alloc :: "dd_env \<Rightarrow> nat \<Rightarrow> nat \<Rightarrow> packet_info list \<Rightarrow> 'q dd_sys \<Rightarrow> (u32 \<times> 'q dd_sys) res" where
  "rx_alloc e i j [] w = Inr (AMP_ERROR_NONE, w)"
| "rx_alloc e i j (p # ps) w =
     rbind (call_rx_start w i (alloc_skb e j) (pi_buf_size p)) (\<lambda>(r, w1).
     case r of
       None \<Rightarrow> Inr (if rx_sdma_xfer_cnt (bus w1) = 0 then AMP_ERROR_LTEDD_RESOURCE_ALLOC else AMP_ERROR_NONE, w1)
     | Some s \<Rightarrow>
         rbind (arr_put (rx_sdma_xfer (bus w1)) j
                  \<lparr>xfer_pni = Some i, xfer_pskb = Some s,
                   sdma = \<lparr>packet_type = pi_type p, pbuf = Some s, buf_size = pi_buf_size p,
                     transferred_status = False, bearerID = 0, sdma_user = of_nat j, puser_xfer = Some j\<rparr>\<rparr>) (\<lambda>xs.
         rx_alloc e i (Suc j) ps
           (upd_bus w1 (\<lambda>d. d\<lparr>rx_sdma_xfer := xs, rx_sdma_xfer_cnt := rx_sdma_xfer_cnt d + 1,
              rx_physaddr_cnt := count_align (virt_to_phys e s) (rx_physaddr_cnt d)\<rparr>))))"

text \<open>
  The \<open>memset\<close> of the array parameter clears the size of a pointer: the first word of the
  first element, its interface.
\<close>

definition lte_dd_alloc_sdma_xfer_list :: "dd_env \<Rightarrow> nat \<Rightarrow> packet_info list \<Rightarrow> 'q dd_sys \<Rightarrow> (u32 \<times> 'q dd_sys) res" where
  "lte_dd_alloc_sdma_xfer_list e i infos w =
     (if length infos < 1 \<or> IPC_4GHIF_MAX_NB_DL_FRAMES < length infos then Inr (AMP_ERROR_LTEDD_INVALID_PARAM, w)
      else
        rbind (arr_get (rx_sdma_xfer (bus w)) 0) (\<lambda>x.
        rx_alloc e i 0 infos (upd_bus w (\<lambda>d. d\<lparr>rx_sdma_xfer_cnt := 0,
          rx_sdma_xfer := (rx_sdma_xfer d)[0 := x\<lparr>xfer_pni := None\<rparr>]\<rparr>))))"

definition lte_dd_free_sdma_xfer :: "'q dd_sys \<Rightarrow> nat option \<Rightarrow> 'q dd_sys res" where
  "lte_dd_free_sdma_xfer w u =
     (case u of
        None \<Rightarrow> Inr w
      | Some k \<Rightarrow>
          rbind (arr_get (rx_sdma_xfer (bus w)) k) (\<lambda>x.
          rbind (case xfer_pskb x of None \<Rightarrow> Inr w | Some s \<Rightarrow> kfree_skb w s) (\<lambda>w1.
          Inr (upd_bus w1 (\<lambda>d. d\<lparr>rx_sdma_xfer := (rx_sdma_xfer d)[k := zero_xfer]\<rparr>)))))"

text \<open>Freeing the transfers of the listed positions and clearing their packet pointers.\<close>

fun rx_free :: "nat list \<Rightarrow> 'q dd_sys \<Rightarrow> 'q dd_sys res" where
  "rx_free [] w = Inr w"
| "rx_free (k # ks) w =
     rbind (lte_dd_free_sdma_xfer w (Some k)) (\<lambda>w1.
     rbind (arr_put (rx_sdma_packet (bus w1)) k None) (\<lambda>ps.
     rx_free ks (upd_bus w1 (\<lambda>d. d\<lparr>rx_sdma_packet := ps\<rparr>))))"

definition clear_rx_busy :: "'q dd_sys \<Rightarrow> 'q dd_sys" where
  "clear_rx_busy w = upd_bus w (\<lambda>d. d\<lparr>dd_flags := dd_flags d AND NOT LTE_DD_FLAG_RX_BUSY\<rparr>)"

definition rx_submitted :: "IPC_4GHIF_STATUS \<Rightarrow> u8 \<Rightarrow> 'q dd_sys \<Rightarrow> 'q dd_sys res" where
  "rx_submitted st acc w =
     (case st of
        IPC_4GHIF_STATUS_OK \<Rightarrow>
          if unat acc < rx_sdma_packet_cnt (bus w) then
            rbind (rx_free [unat acc..<rx_sdma_xfer_cnt (bus w)] w) (\<lambda>w1.
            let w2 = upd_bus w1 (\<lambda>d. d\<lparr>rx_sdma_packet_cnt := unat acc, rx_sdma_xfer_cnt := unat acc\<rparr>) in
            Inr (if acc = 0 then clear_rx_busy w2 else w2))
          else Inr w
      | _ \<Rightarrow> rbind (rx_free [0..<rx_sdma_xfer_cnt (bus w)] w) (\<lambda>w1. Inr (clear_rx_busy (lte_dd_zero_rx_arrays w1))))"

definition lte_dd_sdma_rx :: "dd_env \<Rightarrow> packet_info list \<Rightarrow> 'q dd_sys \<Rightarrow> (u32 \<times> 'q dd_sys) res" where
  "lte_dd_sdma_rx e infos w =
     (if dd_flags (bus w) AND LTE_DD_FLAG_RX_BUSY \<noteq> 0 \<or> infos = [] then Inr (AMP_ERROR_NONE, w)
      else
        let w1 = upd_bus w (\<lambda>d. d\<lparr>dd_flags := dd_flags d OR LTE_DD_FLAG_RX_BUSY, rx_data_busy_start_time := jiffies e\<rparr>) in
        rbind (lte_dd_alloc_sdma_xfer_list e 0 infos w1) (\<lambda>(retval, w2).
        if retval \<noteq> AMP_ERROR_NONE then
          Inr (AMP_ERROR_LTEDD_RESOURCE_ALLOC,
               upd_bus (clear_rx_busy w2) (\<lambda>d. d\<lparr>dd_flags := dd_flags d OR LTE_DD_FLAG_RX_AVAIL\<rparr>))
        else
          let n = rx_sdma_xfer_cnt (bus w2);
              w3 = upd_bus w2 (\<lambda>d. d\<lparr>rx_sdma_packet_cnt := n,
                     rx_sdma_packet := map Some [0..<n] @ replicate (IPC_4GHIF_MAX_NB_DL_FRAMES - n) None,
                     rx_kt := (rx_kt d)\<lparr>kt_submit := ktime_now e\<rparr>,
                     rx_data_packets_sdma_submit := rx_data_packets_sdma_submit d + 1\<rparr>);
              (st, acc) = submit_dl e (map sdma (take n (rx_sdma_xfer (bus w3)))) in
          rbind (rx_submitted st acc w3) (\<lambda>w4. Inr (AMP_ERROR_NONE, w4))))"

definition lte_dd_4ghif_receive_dl_cb :: "dd_env \<Rightarrow> packet_info list \<Rightarrow> 'q dd_sys \<Rightarrow> 'q dd_sys res" where
  "lte_dd_4ghif_receive_dl_cb e frames w =
     (if frames = [] then Inr w
      else
        let nb = (if dd_flags (bus w) AND LTE_DD_FLAG_MULTI_PACKET = 0 then 1 else length frames);
            w1 = upd_bus w (\<lambda>d. d\<lparr>
              rx_data_packets_multi_avail := (if 1 < nb then rx_data_packets_multi_avail d + 1 else rx_data_packets_multi_avail d),
              rx_data_packets_sdma_notify := rx_data_packets_sdma_notify d + 1\<rparr>) in
        rbind (lte_dd_sdma_rx e (take (min nb IPC_4GHIF_MAX_NB_DL_FRAMES) frames) w1) (\<lambda>(_, w2). Inr w2))"

text \<open>
  The completion of a downlink transfer. \<open>cur\<close> is the local \<open>psdma_xfer\<close>, which keeps its
  value from packet to packet; \<open>lb\<close> is \<open>generate_loopback_reply\<close> on the bytes of the packet.
\<close>

fun dl_complete_loop ::
  "(lte_dd_dev_t, 'q) net_env \<Rightarrow> (u8 list \<Rightarrow> u8 list) \<Rightarrow> u8 list \<Rightarrow> nat list \<Rightarrow> nat option \<Rightarrow> 'q dd_sys \<Rightarrow> 'q dd_sys res" where
  "dl_complete_loop env lb junk [] cur w = Inr w"
| "dl_complete_loop env lb junk (j # js) cur w =
     rbind (arr_get (rx_sdma_packet (bus w)) j) (\<lambda>p.
     case p of
       None \<Rightarrow> dl_complete_loop env lb junk js cur w
     | Some k \<Rightarrow>
         rbind (arr_get (rx_sdma_xfer (bus w)) k) (\<lambda>xk.
         if \<not> transferred_status (sdma xk) then
           rbind (lte_dd_free_sdma_xfer w cur) (\<lambda>w1. dl_complete_loop env lb junk js cur w1)
         else
           let w1 = upd_bus w (\<lambda>d. d\<lparr>rx_data_packets_sdma_bytes := rx_data_packets_sdma_bytes d + buf_size (sdma xk)\<rparr>) in
           case puser_xfer (sdma xk) of
             None \<Rightarrow> Inl NullDeref
           | Some u \<Rightarrow>
               rbind (arr_get (rx_sdma_xfer (bus w1)) u) (\<lambda>x.
               case xfer_pskb x of
                 None \<Rightarrow> dl_complete_loop env lb junk js (Some u) w1
               | Some s \<Rightarrow>
                   rbind (get_skb w1 s) (\<lambda>b.
                   if unat (buf_size (sdma xk)) \<noteq> skb_len (pkt b) then
                     rbind (lte_dd_free_sdma_xfer w1 (Some u)) (\<lambda>w2. dl_complete_loop env lb junk js (Some u) w2)
                   else
                     let ty = packet_type (sdma xk); lpbp = dd_flags (bus w1) AND LTE_DD_FLAG_LPBP \<noteq> 0;
                         w2 = (if ty = PKT_TYPE_DL_DATA \<and> lpbp
                               then set_skb w1 s (b\<lparr>pkt := (pkt b)\<lparr>skb_head :=
                                      take (skb_data (pkt b)) (skb_head (pkt b)) @ lb (skb_bytes (pkt b))\<rparr>\<rparr>)
                               else w1) in
                     rbind (if ty = PKT_TYPE_DL_DATA \<or> ty = PKT_TYPE_DL_MON then
                              (case xfer_pni x of
                                 None \<Rightarrow> Inl NullDeref
                               | Some i \<Rightarrow> call_rx_complete env junk w2 i s (bearerID (sdma xk)) (ty = PKT_TYPE_DL_MON))
                            else rbind (lte_dd_free_sdma_xfer w2 (Some u)) (\<lambda>w3. Inr (0, w3))) (\<lambda>(netval, w3).
                     dl_complete_loop env lb junk js (Some u)
                       (if netval = AMP_ERROR_NET_DRV_PACKET_DROPPED
                        then upd_bus w3 (\<lambda>d. d\<lparr>rx_net_rx_drop_cnt := rx_net_rx_drop_cnt d + 1\<rparr>) else w3))))))"

definition lte_dd_4ghif_dl_complete_cb ::
  "dd_env \<Rightarrow> (lte_dd_dev_t, 'q) net_env \<Rightarrow> (u8 list \<Rightarrow> u8 list) \<Rightarrow> u8 list \<Rightarrow> bool \<Rightarrow> bool \<Rightarrow> 'q dd_sys \<Rightarrow> 'q dd_sys res" where
  "lte_dd_4ghif_dl_complete_cb e env lb junk given ours w =
     (if \<not> given then Inr w
      else
        let w1 = upd_bus w (\<lambda>d. d\<lparr>rx_data_packets_sdma_ack := rx_data_packets_sdma_ack d + 1,
                   rx_kt := kt_acked (ktime_now e) (kt_submit (rx_kt d)) (rx_kt d),
                   txrx_kt := kt_acked (ktime_now e) (kt_submit (tx_kt d)) (txrx_kt d)\<rparr>) in
        if \<not> ours \<or> dd_flags (bus w1) AND LTE_DD_FLAG_RX_BUSY = 0 then Inr w1
        else
          let w2 = upd_bus w1 (\<lambda>d. d\<lparr>rx_packet_cnt := rx_packet_cnt d + of_nat (rx_sdma_packet_cnt d)\<rparr>) in
          rbind (dl_complete_loop env lb junk [0..<rx_sdma_packet_cnt (bus w2)] None w2) (\<lambda>w3.
          Inr (clear_rx_busy (lte_dd_zero_rx_arrays w3))))"

section \<open>Watchdog\<close>

text \<open>
  The timer function. A stalled uplink is cancelled and restarted, a stalled downlink is
  cancelled and its buffers are freed; a downlink that could not start is tried again.
\<close>

fun wd_free :: "nat list \<Rightarrow> 'q dd_sys \<Rightarrow> 'q dd_sys res" where
  "wd_free [] w = Inr w"
| "wd_free (k # ks) w =
     rbind (arr_get (rx_sdma_xfer (bus w)) k) (\<lambda>x.
     rbind (case xfer_pskb x of None \<Rightarrow> Inr w | Some s \<Rightarrow> kfree_skb w s) (\<lambda>w1. wd_free ks w1))"

definition wd_check_tx :: "dd_env \<Rightarrow> 'q dd_sys \<Rightarrow> bool \<times> 'q dd_sys" where
  "wd_check_tx e w =
     (if dd_flags (bus w) AND LTE_DD_FLAG_TX_BUSY \<noteq> 0 \<and>
         TX_BUSY_TIMEOUT \<le> delta_time_jiffies (jiffies e) (tx_data_busy_start_time (bus w))
      then (True, upd_bus w (\<lambda>d. d\<lparr>dd_flags := dd_flags d AND NOT LTE_DD_FLAG_TX_BUSY\<rparr>))
      else (False, w))"

definition wd_check_rx :: "dd_env \<Rightarrow> 'q dd_sys \<Rightarrow> (bool \<times> 'q dd_sys) res" where
  "wd_check_rx e w =
     (if dd_flags (bus w) AND LTE_DD_FLAG_RX_BUSY \<noteq> 0 then
        if RX_BUSY_TIMEOUT \<le> delta_time_jiffies (jiffies e) (rx_data_busy_start_time (bus w)) then
          rbind (wd_free [0..<rx_sdma_xfer_cnt (bus w)] w) (\<lambda>w1. Inr (True, clear_rx_busy (lte_dd_zero_rx_arrays w1)))
        else Inr (False, w)
      else Inr (dd_flags (bus w) AND LTE_DD_FLAG_RX_THROTTLE = 0 \<and> dd_flags (bus w) AND LTE_DD_FLAG_RX_AVAIL \<noteq> 0, w))"

definition wd_restart_rx :: "dd_env \<Rightarrow> 'q dd_sys \<Rightarrow> 'q dd_sys res" where
  "wd_restart_rx e w =
     (case get_dl_frames_nb e of (st, frames) \<Rightarrow>
        if st = IPC_4GHIF_STATUS_OK \<and> frames \<noteq> [] then
          let n = (if dd_flags (bus w) AND LTE_DD_FLAG_MULTI_PACKET = 0 then 1 else length frames);
              w1 = (if 1 < n then upd_bus w (\<lambda>d. d\<lparr>rx_data_packets_multi_avail := rx_data_packets_multi_avail d + 1\<rparr>) else w) in
          rbind (lte_dd_sdma_rx e (take n frames) w1) (\<lambda>(_, w2). Inr w2)
        else Inr w)"

definition ul_dl_watchdog_func :: "dd_env \<Rightarrow> 'q dd_sys \<Rightarrow> 'q dd_sys res" where
  "ul_dl_watchdog_func e w =
     (let (restart_tx, w1) = wd_check_tx e w in
      rbind (wd_check_rx e w1) (\<lambda>(restart_rx, w2).
      rbind (if restart_tx then rbind (lte_dd_sdma_tx e w2) (\<lambda>(_, w3). Inr w3) else Inr w2) (\<lambda>w3.
      rbind (if restart_rx then wd_restart_rx e w3 else Inr w3) (\<lambda>w4.
      Inr (upd_bus w4 (\<lambda>d. d\<lparr>wd_expires := jiffies e + UL_DL_WATCHDOG_TIMER_INTERVAL\<rparr>))))))"

section \<open>Creating and deleting interfaces\<close>

text \<open>
  \<open>km_obj\<close> and \<open>km_data\<close> are the allocations of the FIFO, \<open>alloc\<close> and \<open>regval\<close> those of the
  network device. \<open>pdev\<close> is the address of the device object.
\<close>

definition lte_dd_create_net_iface ::
  "bool \<Rightarrow> (u32 \<Rightarrow> addr list option) \<Rightarrow> ptr \<Rightarrow> int \<Rightarrow> addr \<Rightarrow> 'q dd_sys \<Rightarrow> string \<Rightarrow> u8 \<Rightarrow> u8 \<Rightarrow> nat \<Rightarrow>
     (u32 \<times> 'q dd_sys) res" where
  "lte_dd_create_net_iface km_obj km_data alloc regval pdev w name eps prio i =
     (let (pfval, h) = ptr_fifo_alloc km_obj km_data LTE_DD_TX_DATA_PACKET_FIFO_SIZE 0 (Some None);
          ni = zero_ni\<lparr>ifname := take (NETDRV_MAX_DEV_NAME - 1) name, ni_eps_id := eps, priority := prio,
                 h_tx_data_fifo := the h\<rparr> in
      rbind (upd_ni w i (\<lambda>_. ni)) (\<lambda>w0.
      let w1 = w0\<lparr>bus_ifs := (bus_ifs w0)(i \<mapsto> zero_bus_if)\<rparr>;
          release = (\<lambda>w. if the h \<noteq> None then upd_ni w i (\<lambda>ni. ni\<lparr>h_tx_data_fifo := the (snd (ptr_fifo_free h))\<rparr>) else Inr w) in
      if pfval \<noteq> PTR_FIFO_ERROR_NONE then
        rbind (release w1) (\<lambda>w2. Inr (AMP_ERROR_LTEDD_RESOURCE_ALLOC, w2))
      else
        let w2 = w1\<lparr>bus_ifs := (bus_ifs w1)(i \<mapsto> zero_bus_if\<lparr>tx_start := True, bus_control := True\<rparr>)\<rparr> in
        rbind (net_drv_probe alloc regval w2 (Some (ifname ni)) (Some pdev) (Some i) True) (\<lambda>(_, pn, w3).
        case pn of
          Some (Some a) \<Rightarrow>
            rbind (net_drv_set_eps_id w3 (Some a) eps) (\<lambda>(_, w4).
            rbind (upd_ni w4 i (\<lambda>ni. ni\<lparr>pnet := Some a\<rparr>)) (\<lambda>w5.
            Inr (AMP_ERROR_NONE, upd_bus w5 (\<lambda>d. d\<lparr>ni_interfaces_cnt := ni_interfaces_cnt d + 1\<rparr>))))
        | _ \<Rightarrow> rbind (release w3) (\<lambda>w4. Inr (AMP_ERROR_LTEDD_RESOURCE_ALLOC, w4)))))"

text \<open>
  Deletion works on a net info that the caller copied; \<open>f\<close> is the bus interface in it.
\<close>

definition lte_dd_delete_net_iface ::
  "'q dd_sys \<Rightarrow> lte_dd_net_info_t \<Rightarrow> NET_DRV_BUS_INTERFACE \<Rightarrow> (u32 \<times> 'q dd_sys) res" where
  "lte_dd_delete_net_iface w ni f =
     rbind (if pnet ni \<noteq> None \<and> net_control f
            then rbind (net_drv_net_control w (pnet ni) NETDRV_NET_CONTROL_SUSPEND) (\<lambda>(_, w1). Inr w1) else Inr w) (\<lambda>w1.
     rbind (if h_tx_data_fifo ni \<noteq> None then rbind (lte_dd_flush_tx_data_fifo w1 ni) (\<lambda>(_, w2). Inr w2) else Inr w1) (\<lambda>w2.
     rbind (if pnet ni \<noteq> None then
              rbind (net_drv_disconnect w2 (pnet ni)) (\<lambda>(_, w3).
              Inr (upd_bus w3 (\<lambda>d. d\<lparr>ni_interfaces_cnt := ni_interfaces_cnt d - 1\<rparr>)))
            else Inr w2) (\<lambda>w3.
     Inr (AMP_ERROR_NONE, w3))))"

text \<open>The command that deletes an interface refuses the persistent one and a busy one.\<close>

definition dd_cmd_net_delete :: "'q dd_sys \<Rightarrow> string \<Rightarrow> 'q dd_sys res" where
  "dd_cmd_net_delete w name =
     (if same_name name ''lte0'' then Inr w
      else
        (case lte_dd_ni_interface_find_ifname w (Some name) of
           None \<Rightarrow> Inr w
         | Some i \<Rightarrow>
             rbind (get_ni w i) (\<lambda>ni.
             if ni_flags ni AND LTE_NI_FLAG_TX_BUSY \<noteq> 0 then Inr w
             else
               rbind (upd_ni w i (\<lambda>ni. ni\<lparr>pnet := None\<rparr>)) (\<lambda>w1.
               rbind (case bus_ifs w i of None \<Rightarrow> Inl DanglingDeref | Some f \<Rightarrow> lte_dd_delete_net_iface w1 ni f) (\<lambda>(_, w2).
               lte_dd_ni_interface_free w2 i)))))"

definition dd_cmd_net_new ::
  "bool \<Rightarrow> (u32 \<Rightarrow> addr list option) \<Rightarrow> ptr \<Rightarrow> int \<Rightarrow> addr \<Rightarrow> 'q dd_sys \<Rightarrow> string \<Rightarrow> u8 \<Rightarrow> u8 \<Rightarrow> 'q dd_sys res" where
  "dd_cmd_net_new km_obj km_data alloc regval pdev w name eps prio =
     (if lte_dd_ni_interface_find_ifname w (Some name) \<noteq> None then Inr w
      else
        (case lte_dd_ni_interface_alloc w of
           None \<Rightarrow> Inr w
         | Some i \<Rightarrow>
             rbind (lte_dd_create_net_iface km_obj km_data alloc regval pdev w name eps prio i) (\<lambda>(retval, w1).
             if retval \<noteq> AMP_ERROR_NONE then lte_dd_ni_interface_free w1 i else Inr w1)))"

definition dd_cmd_net_eps :: "'q dd_sys \<Rightarrow> string \<Rightarrow> u8 \<Rightarrow> 'q dd_sys res" where
  "dd_cmd_net_eps w name eps =
     (case lte_dd_ni_interface_find_ifname w (Some name) of
        None \<Rightarrow> Inr w
      | Some i \<Rightarrow>
          rbind (get_ni w i) (\<lambda>ni.
          rbind (upd_ni w i (\<lambda>ni. ni\<lparr>ni_eps_id := eps\<rparr>)) (\<lambda>w1.
          rbind (net_drv_set_eps_id w1 (pnet ni) eps) (\<lambda>(_, w2). Inr w2))))"

end
