(* ===== verification/NetBus.thy ===== *)
theory NetBus
  imports NetDriver
begin

text \<open>
  The contract between the network driver and the bus below it, as a locale, and what the
  transmit method does over any bus that keeps it: a packet the stack hands over is taken
  exactly once, or given back unchanged with the queue stopped.
\<close>

section \<open>Frames\<close>

text \<open>What a bus relies on of a device.\<close>

definition dev_core :: "net_device \<Rightarrow> u32 \<times> bool \<times> ptr \<times> ptr \<times> ptr" where
  "dev_core d = (nd_signature (priv d), nd_size_ok (priv d), pnet_dev (priv d), pbus (priv d),
     pnet_drv_bus_interface (priv d))"

definition same_shape :: "('b, 'q) lte_sys \<Rightarrow> ('b, 'q) lte_sys \<Rightarrow> bool" where
  "same_shape w w' \<longleftrightarrow> bus_ifs w' = bus_ifs w \<and> (\<forall>a. map_option dev_core (devs w' a) = map_option dev_core (devs w a))"

lemma same_shape_refl [simp]: "same_shape w w"
  by (simp add: same_shape_def)

lemma same_shape_trans: "same_shape w w' \<Longrightarrow> same_shape w' w'' \<Longrightarrow> same_shape w w''"
  by (simp add: same_shape_def)

text \<open>An update of a device that keeps its core.\<close>

lemma same_shape_set_dev:
  assumes "devs w a = Some d" "dev_core d' = dev_core d"
  shows "same_shape w (set_dev w a d')"
  using assms by (auto simp: same_shape_def set_dev_def)

lemma upd_priv_Some:
  "devs w a = Some d \<Longrightarrow> upd_priv w a f = Inr (set_dev w a (d\<lparr>priv := f (priv d)\<rparr>))"
  by (simp add: upd_priv_def get_dev_def)

lemma find_slot_Some: "find_slot P xs = Some i \<Longrightarrow> i < length xs \<and> P (xs ! i)"
  by (induction xs arbitrary: i) (auto split: if_splits)

lemma find_slot_None: "find_slot P xs = None \<longleftrightarrow> (\<forall>x \<in> set xs. \<not> P x)"
  by (induction xs) auto

lemma find_slot_first: "find_slot P xs = Some i \<Longrightarrow> j < i \<Longrightarrow> \<not> P (xs ! j)"
proof (induction xs arbitrary: i j)
  case (Cons x xs)
  then show ?case by (cases j) (auto split: if_splits)
qed simp

section \<open>Queue control\<close>

lemma net_drv_wake_queue_frame:
  assumes d: "devs w a = Some d" "pnet_dev (priv d) = Some a"
  shows "\<exists>d'. net_drv_wake_queue w a = Inr (set_dev w a d') \<and> dev_core d' = dev_core d \<and>
    net_stats (priv d') = net_stats (priv d) \<and> \<not> net_drv_is_queue_stopped (priv d') \<and>
    (\<not> perf_test (priv d) \<longrightarrow> \<not> queue_off d')"
proof -
  have m: "(driver_status (priv d) AND NOT NETDRV_STATUS_QUEUE_STOPPED) AND NETDRV_STATUS_QUEUE_STOPPED = 0"
    by (simp add: and.assoc)
  show ?thesis
    using d m by (auto simp: net_drv_wake_queue_def get_dev_def upd_net_dev_def upd_priv_def set_dev_def
        dev_core_def net_drv_is_queue_stopped_def)
qed

lemma net_drv_stop_queue_frame:
  assumes d: "devs w a = Some d" "pnet_dev (priv d) = Some a"
  shows "\<exists>d'. net_drv_stop_queue w a = Inr (set_dev w a d') \<and> dev_core d' = dev_core d \<and>
    net_stats (priv d') = net_stats (priv d) \<and> net_drv_is_queue_stopped (priv d') \<and>
    (\<not> perf_test (priv d) \<longrightarrow> queue_off d')"
proof -
  have m: "(driver_status (priv d) OR NETDRV_STATUS_QUEUE_STOPPED) AND NETDRV_STATUS_QUEUE_STOPPED \<noteq> 0"
    by (simp add: bit.conj_disj_distrib2 NETDRV_STATUS_QUEUE_STOPPED_def)
  show ?thesis
    using d m by (auto simp: net_drv_stop_queue_def get_dev_def upd_net_dev_def upd_priv_def set_dev_def
        dev_core_def net_drv_is_queue_stopped_def)
qed

section \<open>The contract of the bus\<close>

text \<open>What a client of the bus may do between two calls while the bus holds the buffers \<open>H\<close>.\<close>

definition client_frame :: "addr set \<Rightarrow> ('b, 'q) lte_sys \<Rightarrow> ('b, 'q) lte_sys \<Rightarrow> bool" where
  "client_frame H w w' \<longleftrightarrow> same_shape w w' \<and> bus w' = bus w \<and> (\<forall>s \<in> H. skbs w' s = skbs w s)"

lemma client_frame_refl [simp]: "client_frame H w w"
  by (simp add: client_frame_def)

lemma client_frame_trans: "client_frame H w w' \<Longrightarrow> client_frame H w' w'' \<Longrightarrow> client_frame H w w''"
  using same_shape_trans by (auto simp: client_frame_def)

lemma client_frame_dev:
  "devs w a = Some d \<Longrightarrow> dev_core d' = dev_core d \<Longrightarrow> client_frame H w (set_dev w a d')"
  using same_shape_set_dev by (auto simp: client_frame_def set_dev_def)

lemma client_frame_skb: "s \<notin> H \<Longrightarrow> client_frame H w (w\<lparr>skbs := (skbs w)(s := x)\<rparr>)"
  by (auto simp: client_frame_def same_shape_def)

text \<open>Buffers leave the set \<open>H\<close> of those held by being freed.\<close>

definition releases :: "addr set \<Rightarrow> addr set \<Rightarrow> ('b, 'q) lte_sys \<Rightarrow> ('b, 'q) lte_sys \<Rightarrow> bool" where
  "releases H H' w w' \<longleftrightarrow> H' \<subseteq> H \<and> skbs w' = skbs w |` (- (H - H'))"

lemma releases_trans: "releases H H' w w' \<Longrightarrow> releases H' H'' w' w'' \<Longrightarrow> releases H H'' w w''"
  by (auto simp: releases_def restrict_map_def fun_eq_iff)

locale uplink_bus =
  fixes start :: "addr \<Rightarrow> ptr \<Rightarrow> addr \<Rightarrow> ('b, 'q) lte_sys \<Rightarrow> (u32 \<times> ('b, 'q) lte_sys) res"
    and control :: "('b, 'q) bus_control_fn"
    and invar :: "('b, 'q) lte_sys \<Rightarrow> bool"
    and attached :: "('b, 'q) lte_sys \<Rightarrow> addr \<Rightarrow> bool"
    and held :: "('b, 'q) lte_sys \<Rightarrow> addr set"
    and room :: "('b, 'q) lte_sys \<Rightarrow> addr \<Rightarrow> bool"
  assumes attached_dev: "invar w \<Longrightarrow> attached w a \<Longrightarrow> \<exists>d i f. devs w a = Some d \<and> pnet_dev (priv d) = Some a \<and>
      pnet_drv_bus_interface (priv d) = Some i \<and> pbus (priv d) \<noteq> None \<and> bus_ifs w i = Some f \<and> tx_start f \<and> bus_control f"
    and client: "invar w \<Longrightarrow> client_frame (held w) w w' \<Longrightarrow>
      invar w' \<and> held w' = held w \<and> attached w' = attached w \<and> room w' = room w"
    and start_room: "invar w \<Longrightarrow> attached w a \<Longrightarrow> room w a \<Longrightarrow> p \<noteq> None \<Longrightarrow> skbs w s = Some b \<Longrightarrow> skb_cb b \<noteq> [] \<Longrightarrow>
      s \<notin> held w \<Longrightarrow> \<exists>w'. start a p s w = Inr (AMP_ERROR_NONE, w') \<and> invar w' \<and> attached w' = attached w \<and>
        releases (insert s (held w)) (held w') w w'"
    and start_full: "invar w \<Longrightarrow> attached w a \<Longrightarrow> \<not> room w a \<Longrightarrow> p \<noteq> None \<Longrightarrow>
      start a p s w = Inr (AMP_ERROR_LTEDD_FIFO_INSERT, w)"
    and control_step: "invar w \<Longrightarrow> cmd \<noteq> NETDRV_BUS_CONTROL_FLUSH \<Longrightarrow>
      \<exists>rc w'. control a p cmd c w = Inr (rc, w') \<and> invar w' \<and> attached w' = attached w \<and> releases (held w) (held w') w w'"

section \<open>Classification\<close>

lemma skb_pull_push:
  assumes "skb_pull sk n = Inr sk'" "n \<le> skb_len sk"
  shows "skb_push sk' n = Inr sk"
  using assms by (auto simp: skb_pull_def skb_push_def split: if_splits)

lemma set_skb_simps [simp]:
  "devs (set_skb w s b) = devs w" "skbs (set_skb w s b) = (skbs w)(s \<mapsto> b)" "bus (set_skb w s b) = bus w"
  "bus_ifs (set_skb w s b) = bus_ifs w" "g_net_drv_global_flags (set_skb w s b) = g_net_drv_global_flags w"
  by (simp_all add: set_skb_def)

text \<open>The buffer as the registered handler leaves it: the control block keeps its size.\<close>

definition qos_keeps :: "('b, 'q) net_env \<Rightarrow> net_skb \<Rightarrow> bool" where
  "qos_keeps env b \<longleftrightarrow> (\<forall>q rc off eps b' q'. env_tx_qos env b q = Inr (rc, off, eps, b', q') \<longrightarrow>
     length (skb_cb b') = length (skb_cb b) \<and> skb_len (pkt b') = skb_len (pkt b))"

lemma run_tx_qos_frame:
  assumes "run_tx_qos env w s b h = Inr (rc, off, eps, b', w')" "skbs w s = Some b" "qos_keeps env b"
  shows "\<exists>q. w' = set_skb (w\<lparr>qos := q\<rparr>) s b' \<and> length (skb_cb b') = length (skb_cb b) \<and> skb_len (pkt b') = skb_len (pkt b)"
proof (cases h)
  case Builtin
  then show ?thesis
    using assms by (intro exI[of _ "qos w"])
      (auto simp: run_tx_qos_def net_drv_process_tx_packet_qos_def set_skb_def fun_upd_idem)
next
  case Registered
  then obtain o' e' q where r: "env_tx_qos env b (qos w) = Inr (rc, o', e', b', q)" "w' = set_skb (w\<lparr>qos := q\<rparr>) s b'"
    using assms(1) by (auto simp: run_tx_qos_def rbind_eq_Inr_iff)
  then show ?thesis using assms(3) unfolding qos_keeps_def by blast
qed

text \<open>The buffer after classification: the header of \<open>off\<close> bytes is cut off what the handler left.\<close>

definition header_cut :: "net_skb \<Rightarrow> u16 \<Rightarrow> net_skb \<Rightarrow> bool" where
  "header_cut b off b1 \<longleftrightarrow> length (skb_cb b1) = length (skb_cb b) \<and>
     (if 10 < off \<and> off < 15 then skb_pull (pkt b) (unat off) = Inr (pkt b1) else b1 = b)"

lemma tx_classify_frame:
  assumes c: "tx_classify env w a s = Inr (r, w1)" and s: "skbs w s = Some b" and k: "qos_keeps env b"
  shows "\<exists>b0 b1. skbs w1 = (skbs w)(s \<mapsto> b1) \<and> devs w1 = devs w \<and> bus w1 = bus w \<and> bus_ifs w1 = bus_ifs w \<and>
    g_net_drv_global_flags w1 = g_net_drv_global_flags w \<and>
    length (skb_cb b0) = length (skb_cb b) \<and> skb_len (pkt b0) = skb_len (pkt b) \<and>
    (case r of None \<Rightarrow> b1 = b0 | Some off \<Rightarrow> header_cut b0 off b1)"
proof (cases "process_tx_packet_qos (g_net_drv_qos_interface_active w)")
  case None
  then show ?thesis
    using c s by (intro exI[of _ b]) (auto simp: tx_classify_def header_cut_def fun_upd_idem)
next
  case (Some h)
  have sk: "get_skb w s = Inr b" using s by (simp add: get_skb_def)
  obtain qosval off eps b0 w2 d where q: "run_tx_qos env w s b h = Inr (qosval, off, eps, b0, w2)" and d: "get_dev w2 a = Inr d"
    using c Some sk by (auto simp: tx_classify_def rbind_eq_Inr_iff)
  obtain x where w2: "w2 = set_skb (w\<lparr>qos := x\<rparr>) s b0" and b0: "length (skb_cb b0) = length (skb_cb b)" "skb_len (pkt b0) = skb_len (pkt b)"
    using run_tx_qos_frame[OF q s k] by blast
  define eps' where "eps' = (if g_net_drv_qos_mode w2 = NET_DRV_QOS_MODE_IPTABLES then eps_id (priv d) else eps)"
  have eq: "tx_classify env w a s =
    (if qosval = 0 then
       if 10 < off \<and> off < 15 then
         rbind (skb_pull (pkt b0) (unat off)) (\<lambda>sk. rbind (net_drv_set_skb_eps_id (b0\<lparr>pkt := sk\<rparr>) eps') (\<lambda>b1.
         Inr (Some off, set_skb w2 s b1)))
       else Inr (Some off, w2)
     else Inr (None, w2))"
    using Some sk q d by (simp add: tx_classify_def eps'_def Let_def)
  show ?thesis
  proof (cases "qosval = 0 \<and> 10 < off \<and> off < 15")
    case True
    then obtain sk b1 where "skb_pull (pkt b0) (unat off) = Inr sk" "net_drv_set_skb_eps_id (b0\<lparr>pkt := sk\<rparr>) eps' = Inr b1"
      "r = Some off" "w1 = set_skb w2 s b1"
      using c eq by (auto simp: rbind_eq_Inr_iff)
    then show ?thesis
      using True w2 b0 by (intro exI[of _ b0] exI[of _ b1])
        (auto simp: header_cut_def net_drv_set_skb_eps_id_def rbind_eq_Inr_iff arr_put_Inr_iff)
  next
    case False
    then show ?thesis using c eq w2 s b0 by (intro exI[of _ b0]) (auto simp: header_cut_def split: if_splits)
  qed
qed

section \<open>The transmit method over any bus\<close>

text \<open>
  What becomes of the packet \<open>s\<close> with buffer \<open>b\<close>: on \<open>NETDEV_TX_OK\<close> the bus holds it or it is
  freed, on \<open>NETDEV_TX_BUSY\<close> the caller still owns it, with the length it came with.
\<close>

definition tx_outcome :: "addr \<Rightarrow> net_skb \<Rightarrow> addr set \<Rightarrow> int \<Rightarrow> ('b, 'q) lte_sys \<Rightarrow> bool" where
  "tx_outcome s b H rc w' \<longleftrightarrow>
     (rc = NETDEV_TX_OK \<and> (s \<in> H \<or> skbs w' s = None)) \<or>
     (rc = NETDEV_TX_BUSY \<and> s \<notin> H \<and> (\<exists>b'. skbs w' s = Some b' \<and> skb_len (pkt b') = skb_len (pkt b)))"

lemma tx_drop_result:
  assumes "devs w a = Some d" "skbs w s = Some b"
  shows "\<exists>d'. tx_drop w a s = Inr (NETDEV_TX_OK, (set_dev w a d')\<lparr>skbs := (skbs w)(s := None)\<rparr>) \<and> dev_core d' = dev_core d"
  using assms
  by (intro exI[of _ "d\<lparr>priv := (priv d)\<lparr>net_stats := (net_stats (priv d))\<lparr>tx_errors := tx_errors (net_stats (priv d)) + 1,
        tx_dropped := tx_dropped (net_stats (priv d)) + 1\<rparr>\<rparr>\<rparr>"])
    (simp add: tx_drop_def upd_priv_Some kfree_skb_def set_dev_def dev_core_def)

context uplink_bus
begin

lemma control_call:
  assumes inv: "invar w" "attached w a" and cmd: "cmd \<noteq> NETDRV_BUS_CONTROL_FLUSH"
  shows "\<exists>w'. call_bus_control control w a cmd c = Inr w' \<and> invar w' \<and> attached w' = attached w \<and>
    releases (held w) (held w') w w'"
proof -
  obtain d i f where d: "devs w a = Some d" "pnet_drv_bus_interface (priv d) = Some i" "bus_ifs w i = Some f" "bus_control f"
    using attached_dev[OF inv] by blast
  obtain rc w' where "control a (pbus (priv d)) cmd c w = Inr (rc, w')" "invar w'" "attached w' = attached w"
    "releases (held w) (held w') w w'"
    using control_step[OF inv(1) cmd] by blast
  then show ?thesis using d by (simp add: call_bus_control_def get_dev_def bus_if_def)
qed

lemma client_drop:
  assumes inv: "invar w" "attached w a" and s: "skbs w s = Some b" "s \<notin> held w"
  shows "\<exists>w'. tx_drop w a s = Inr (NETDEV_TX_OK, w') \<and> invar w' \<and> attached w' = attached w \<and> held w' = held w \<and>
    skbs w' = (skbs w)(s := None)"
proof -
  obtain d where d: "devs w a = Some d" using attached_dev[OF inv] by blast
  obtain d' where d': "tx_drop w a s = Inr (NETDEV_TX_OK, (set_dev w a d')\<lparr>skbs := (skbs w)(s := None)\<rparr>)"
    "dev_core d' = dev_core d" using tx_drop_result[OF d s(1)] by blast
  let ?w = "(set_dev w a d')\<lparr>skbs := (skbs w)(s := None)\<rparr>"
  have "client_frame (held w) w ?w"
    using client_frame_trans[OF client_frame_dev[OF d d'(2)] client_frame_skb[OF s(2)]] by (simp add: set_dev_def)
  from client[OF inv(1) this] show ?thesis using d'(1) by (intro exI[of _ ?w]) (simp add: set_dev_def)
qed

lemma refused_result:
  assumes inv: "invar w" "attached w a" and s: "skbs w s = Some b" "s \<notin> held w"
    and push: "skb_push (pkt b) (unat off) = Inr sk"
    and env: "env_bus_control env = control"
  shows "\<exists>w'. tx_refused env w a s off AMP_ERROR_LTEDD_FIFO_INSERT = Inr (NETDEV_TX_BUSY, w') \<and> invar w' \<and>
    attached w' = attached w \<and> held w' \<subseteq> held w \<and> skbs w' = (skbs w |` (- (held w - held w')))(s \<mapsto> b\<lparr>pkt := sk\<rparr>)"
proof -
  obtain d where d: "devs w a = Some d" "pnet_dev (priv d) = Some a" using attached_dev[OF inv] by blast
  obtain d' where d': "net_drv_stop_queue w a = Inr (set_dev w a d')" "dev_core d' = dev_core d"
    using net_drv_stop_queue_frame[OF d] by blast
  let ?w1 = "set_dev w a d'"
  have w1: "invar ?w1" "held ?w1 = held w" "attached ?w1 = attached w" "skbs ?w1 = skbs w"
    using client[OF inv(1) client_frame_dev[OF d(1) d'(2)]] by (simp_all add: set_dev_def)
  have a1: "attached ?w1 a" using w1(3) inv(2) by simp
  obtain w2 where w2: "call_bus_control control ?w1 a NETDRV_BUS_CONTROL_LOG_NETQUEUE_EVENT 1 = Inr w2" "invar w2"
    "attached w2 = attached ?w1" "releases (held ?w1) (held w2) ?w1 w2"
    using control_call[OF w1(1) a1, of NETDRV_BUS_CONTROL_LOG_NETQUEUE_EVENT 1]
    by (auto simp: NETDRV_BUS_CONTROL_LOG_NETQUEUE_EVENT_def NETDRV_BUS_CONTROL_FLUSH_def)
  have a2: "attached w2 a" using w2(3) a1 by simp
  obtain w3 where w3: "call_bus_control control w2 a NETDRV_BUS_CONTROL_TX_DRAIN 0 = Inr w3" "invar w3"
    "attached w3 = attached w2" "releases (held w2) (held w3) w2 w3"
    using control_call[OF w2(2) a2, of NETDRV_BUS_CONTROL_TX_DRAIN 0]
    by (auto simp: NETDRV_BUS_CONTROL_TX_DRAIN_def NETDRV_BUS_CONTROL_FLUSH_def)
  have rel: "held w3 \<subseteq> held w" "skbs w3 = skbs w |` (- (held w - held w3))"
    using releases_trans[OF w2(4) w3(4)] w1(2,4) by (simp_all add: releases_def)
  have s3: "skbs w3 s = Some b" "s \<notin> held w3" using rel s by auto
  have cf: "client_frame (held w3) w3 (set_skb w3 s (b\<lparr>pkt := sk\<rparr>))"
    using client_frame_skb[OF s3(2)] by (simp add: set_skb_def)
  have "tx_refused env w a s off AMP_ERROR_LTEDD_FIFO_INSERT = Inr (NETDEV_TX_BUSY, set_skb w3 s (b\<lparr>pkt := sk\<rparr>))"
    using d'(1) w2(1) w3(1) s3(1) push env by (simp add: tx_refused_def get_skb_def)
  then show ?thesis using client[OF w3(2) cf] rel w3(3) w2(3) w1(3) by simp
qed

text \<open>Every outcome, together with what happens to the buffers of the others.\<close>

definition tx_done :: "addr \<Rightarrow> net_skb \<Rightarrow> addr \<Rightarrow> ('b, 'q) lte_sys \<Rightarrow> int \<times> ('b, 'q) lte_sys \<Rightarrow> bool" where
  "tx_done s b a w r \<longleftrightarrow> (case r of (rc, w') \<Rightarrow> invar w' \<and> attached w' = attached w \<and> held w' \<subseteq> insert s (held w) \<and>
     tx_outcome s b (held w') rc w' \<and> (rc = NETDEV_TX_BUSY \<longrightarrow> \<not> room w a) \<and>
     (\<forall>t. t \<noteq> s \<longrightarrow> skbs w' t = (if t \<in> held w - held w' then None else skbs w t)))"

lemma drop_done:
  assumes inv: "invar w1" "attached w1 a" and s: "skbs w1 s = Some b1" "s \<notin> held w1"
    and w: "attached w1 = attached w" "held w1 = held w" "\<forall>t. t \<noteq> s \<longrightarrow> skbs w1 t = skbs w t"
  shows "\<exists>r. tx_drop w1 a s = Inr r \<and> tx_done s b a w r"
  using client_drop[OF inv s] w
  by (auto simp: tx_done_def tx_outcome_def NETDEV_TX_OK_def NETDEV_TX_BUSY_def)

lemma accept_done:
  assumes "invar w'" "attached w' = attached w1" "releases (insert s (held w1)) (held w') w1 w'"
    and w: "attached w1 = attached w" "held w1 = held w" "\<forall>t. t \<noteq> s \<longrightarrow> skbs w1 t = skbs w t"
  shows "tx_done s b a w (NETDEV_TX_OK, w')"
  using assms by (auto simp: tx_done_def tx_outcome_def releases_def restrict_map_def NETDEV_TX_OK_def NETDEV_TX_BUSY_def)

lemma refuse_done:
  assumes "invar w'" "attached w' = attached w1" "held w' \<subseteq> held w1" "s \<notin> held w1" "\<not> room w a"
    and "skbs w' = (skbs w1 |` (- (held w1 - held w')))(s \<mapsto> b')" "skb_len (pkt b') = skb_len (pkt b)"
    and w: "attached w1 = attached w" "held w1 = held w" "\<forall>t. t \<noteq> s \<longrightarrow> skbs w1 t = skbs w t"
  shows "tx_done s b a w (NETDEV_TX_BUSY, w')"
proof -
  have "s \<notin> held w'" using assms(3,4) by auto
  then show ?thesis
    using assms by (simp add: tx_done_def tx_outcome_def restrict_map_def subset_insertI2)
qed

lemma dev_tx_accounts:
  assumes inv: "invar w" "attached w a" and s: "skbs w s = Some b" "s \<notin> held w"
    and b: "skb_cb b \<noteq> []" "ETH_HLEN \<le> skb_len (pkt b)" and k: "qos_keeps env b"
    and env: "env_tx_start env = start" "env_bus_control env = control"
    and c: "tx_classify env w a s = Inr (r, w1)" and off: "\<forall>x. r = Some x \<longrightarrow> x = 0 \<or> 10 < x \<and> x < 15"
  shows "\<exists>res. net_drv_dev_tx env w s a = Inr res \<and> tx_done s b a w res"
proof -
  obtain b0 b1 where w1: "skbs w1 = (skbs w)(s \<mapsto> b1)" "devs w1 = devs w" "bus w1 = bus w" "bus_ifs w1 = bus_ifs w"
    and b0: "length (skb_cb b0) = length (skb_cb b)" "skb_len (pkt b0) = skb_len (pkt b)"
    and cut: "case r of None \<Rightarrow> b1 = b0 | Some x \<Rightarrow> header_cut b0 x b1"
    using tx_classify_frame[OF c s(1) k] by blast
  have "client_frame (held w) w w1" using w1 s(2) by (auto simp: client_frame_def same_shape_def)
  from client[OF inv(1) this] have i1: "invar w1" "held w1 = held w" "attached w1 = attached w" "room w1 = room w" by auto
  have a1: "attached w1 a" "s \<notin> held w1" "skbs w1 s = Some b1" using i1 inv(2) s(2) w1(1) by auto
  have oth: "\<forall>t. t \<noteq> s \<longrightarrow> skbs w1 t = skbs w t" using w1(1) by simp
  have drop: "\<exists>r. tx_drop w1 a s = Inr r \<and> tx_done s b a w r"
    using drop_done[OF i1(1) a1(1,3,2) i1(3,2) oth] .
  show ?thesis
  proof (cases "\<exists>x. r = Some x \<and> g_net_drv_global_flags w1 AND NETDRV_GLOBAL_FLAG_DISABLE_UL = 0 \<and> skb_len (pkt b1) \<noteq> 0")
    case False
    then have "net_drv_dev_tx env w s a = tx_drop w1 a s"
      using c a1(3) by (cases r) (auto simp: net_drv_dev_tx_def get_skb_def)
    then show ?thesis using drop by simp
  next
    case True
    then obtain x where x: "r = Some x" by blast
    have cb: "skb_cb b1 \<noteq> []" using cut x b0(1) b(1) by (auto simp: header_cut_def split: if_splits)
    obtain d i f where d: "devs w1 a = Some d" "pnet_drv_bus_interface (priv d) = Some i" "pbus (priv d) \<noteq> None"
      "bus_ifs w1 i = Some f" "tx_start f"
      using attached_dev[OF i1(1) a1(1)] by blast
    have eq: "net_drv_dev_tx env w s a = rbind (start a (pbus (priv d)) s w1) (\<lambda>(busval, w2).
      if busval = AMP_ERROR_NONE then Inr (NETDEV_TX_OK, w2) else tx_refused env w2 a s x busval)"
      using True c a1(3) x d env(1)
      by (simp add: net_drv_dev_tx_def get_skb_def call_tx_start_def get_dev_def bus_if_def)
    show ?thesis
    proof (cases "room w1 a")
      case True
      then obtain w2 where w2: "start a (pbus (priv d)) s w1 = Inr (AMP_ERROR_NONE, w2)" "invar w2" "attached w2 = attached w1"
        "releases (insert s (held w1)) (held w2) w1 w2"
        using start_room[OF i1(1) a1(1) True d(3) a1(3) cb a1(2)] by blast
      then show ?thesis using eq accept_done[OF w2(2-4) i1(3,2) oth] by simp
    next
      case False
      have full: "start a (pbus (priv d)) s w1 = Inr (AMP_ERROR_LTEDD_FIFO_INSERT, w1)"
        using start_full[OF i1(1) a1(1) False d(3)] .
      have "\<exists>sk. skb_push (pkt b1) (unat x) = Inr sk \<and> skb_len sk = skb_len (pkt b)"
      proof (cases "10 < x \<and> x < 15")
        case True
        then have "unat x \<le> skb_len (pkt b0)" using b(2) b0(2) by (simp add: ETH_HLEN_def word_less_nat_alt)
        then show ?thesis using True cut x skb_pull_push b0(2) by (auto simp: header_cut_def)
      next
        case False
        then have "x = 0" "b1 = b0" using off x cut by (auto simp: header_cut_def)
        then show ?thesis using b0(2) by (simp add: skb_push_def)
      qed
      then obtain sk where sk: "skb_push (pkt b1) (unat x) = Inr sk" "skb_len sk = skb_len (pkt b)" by blast
      obtain w2 where w2: "tx_refused env w1 a s x AMP_ERROR_LTEDD_FIFO_INSERT = Inr (NETDEV_TX_BUSY, w2)" "invar w2"
        "attached w2 = attached w1" "held w2 \<subseteq> held w1" "skbs w2 = (skbs w1 |` (- (held w1 - held w2)))(s \<mapsto> b1\<lparr>pkt := sk\<rparr>)"
        using refused_result[OF i1(1) a1(1,3,2) sk(1) env(2)] by blast
      have "tx_done s b a w (NETDEV_TX_BUSY, w2)"
        using refuse_done[OF w2(2-4) a1(2) _ w2(5) _ i1(3,2) oth] False i1(4) sk(2) by simp
      then show ?thesis using eq full w2(1) by (simp add: net_error_defs)
    qed
  qed
qed

end

end
