(* ===== verification/DataDriverInv.thy ===== *)
theory DataDriverInv
  imports DataDriver NetBus
begin

text \<open>
  The invariant of the uplink of the data driver: every open interface has a well-formed FIFO
  and a network device that points back to it, the buffers queued in the FIFOs are allocated and
  queued once, and a transfer in progress holds the first packets of one FIFO. The loops that
  drop or complete packets keep it, and the lookup chooses a FIFO with packets.
\<close>

section \<open>Frames\<close>

text \<open>What the uplink relies on of an interface.\<close>

definition ni_core :: "lte_dd_net_info_t \<Rightarrow> ptr \<times> addr PTR_FIFO option \<times> u32" where
  "ni_core ni = (pnet ni, h_tx_data_fifo ni, ni_flags ni)"

definition bus_frame :: "lte_dd_dev_t \<Rightarrow> lte_dd_dev_t \<Rightarrow> bool" where
  "bus_frame d d' \<longleftrightarrow> (\<exists>nis. d' = d\<lparr>ni_interfaces := nis\<rparr> \<and> map ni_core nis = map ni_core (ni_interfaces d))"

lemma bus_frame_refl [simp]: "bus_frame d d"
  unfolding bus_frame_def by (rule exI[of _ "ni_interfaces d"]) simp

lemma bus_frame_trans: "bus_frame d d' \<Longrightarrow> bus_frame d' d'' \<Longrightarrow> bus_frame d d''"
  unfolding bus_frame_def by auto

section \<open>Queue control of the network driver\<close>

definition dev_ok :: "'q dd_sys \<Rightarrow> addr \<Rightarrow> nat \<Rightarrow> bool" where
  "dev_ok w a i \<longleftrightarrow> (\<exists>d f. devs w a = Some d \<and> nd_signature (priv d) = NETDRV_SIGNATURE \<and> nd_size_ok (priv d) \<and>
     pnet_dev (priv d) = Some a \<and> pnet_drv_bus_interface (priv d) = Some i \<and> pbus (priv d) \<noteq> None \<and>
     bus_ifs w i = Some f \<and> tx_start f \<and> tx_complete f \<and> bus_control f)"

lemma dev_ok_shape:
  assumes "dev_ok w a i" "same_shape w w'"
  shows "dev_ok w' a i"
proof -
  obtain d where d: "devs w a = Some d" using assms(1) by (auto simp: dev_ok_def)
  then have "map_option dev_core (devs w' a) = Some (dev_core d)"
    using assms(2) by (simp add: same_shape_def)
  then obtain d' where "devs w' a = Some d'" "dev_core d' = dev_core d" by auto
  then show ?thesis using assms d by (auto simp: dev_ok_def same_shape_def dev_core_def)
qed

lemma upd_ni_ok:
  "i < length (ni_interfaces (bus w)) \<Longrightarrow>
     upd_ni w i f = Inr (upd_bus w (\<lambda>d. d\<lparr>ni_interfaces := (ni_interfaces d)[i := f (ni_interfaces (bus w) ! i)]\<rparr>))"
  by (simp add: upd_ni_def get_ni_def)

lemma upd_bus_simps [simp]:
  "devs (upd_bus w f) = devs w" "skbs (upd_bus w f) = skbs w" "bus_ifs (upd_bus w f) = bus_ifs w"
  "bus (upd_bus w f) = f (bus w)" "qos (upd_bus w f) = qos w"
  by (simp_all add: upd_bus_def)

lemma same_shape_upd_bus [simp]: "same_shape w (upd_bus w f)"
  by (simp add: same_shape_def)

lemma log_event_frame:
  "\<exists>w'. lte_dd_log_netqueue_event w a c = Inr w' \<and> same_shape w w' \<and> skbs w' = skbs w \<and> bus_frame (bus w) (bus w')
     \<and> devs w' = devs w"
proof (cases "lte_dd_ni_interface_find_pnet w (Some a)")
  case None
  then show ?thesis by (simp add: lte_dd_log_netqueue_event_def)
next
  case (Some i)
  then have i: "i < length (ni_interfaces (bus w))"
    by (auto simp: lte_dd_ni_interface_find_pnet_def dest: find_slot_Some)
  show ?thesis
    using Some i by (auto simp: lte_dd_log_netqueue_event_def upd_ni_ok bus_frame_def map_update_same ni_core_def)
qed

lemma bus_control_log_frame:
  "\<exists>rc w'. bus_control_log a p NETDRV_BUS_CONTROL_LOG_NETQUEUE_EVENT c w = Inr (rc, w') \<and> same_shape w w' \<and>
     skbs w' = skbs w \<and> bus_frame (bus w) (bus w') \<and> devs w' = devs w"
  using log_event_frame[of w a c] by (auto simp: bus_control_log_def Let_def)

text \<open>
  The completion of one packet: it is freed and counted, and the queue is woken when it was
  stopped and the FIFO is down to half.
\<close>

definition completed :: "net_skb \<Rightarrow> int \<Rightarrow> int \<Rightarrow> net_device \<Rightarrow> net_device \<Rightarrow> bool" where
  "completed b fsize fcount d d' \<longleftrightarrow> dev_core d' = dev_core d \<and>
     net_stats (priv d') = (net_stats (priv d))\<lparr>tx_bytes := tx_bytes (net_stats (priv d)) + of_nat (skb_len (pkt b)),
       tx_packets := tx_packets (net_stats (priv d)) + 1\<rparr> \<and>
     (net_drv_is_queue_stopped (priv d') \<longleftrightarrow> net_drv_is_queue_stopped (priv d) \<and> half fsize < fcount)"

lemma net_drv_tx_complete_frame:
  assumes ok: "dev_ok w a i" and s: "skbs w s = Some b"
  shows "\<exists>w' d d'. net_drv_tx_complete bus_control_log w (Some a) s fsize fcount = Inr (AMP_ERROR_NONE, w') \<and>
    skbs w' = (skbs w)(s := None) \<and> same_shape w w' \<and> bus_frame (bus w) (bus w') \<and>
    devs w a = Some d \<and> devs w' = (devs w)(a \<mapsto> d') \<and> completed b fsize fcount d d'"
proof -
  obtain d f where d: "devs w a = Some d" "nd_signature (priv d) = NETDRV_SIGNATURE" "nd_size_ok (priv d)"
    "pnet_dev (priv d) = Some a" "pnet_drv_bus_interface (priv d) = Some i" "bus_ifs w i = Some f" "bus_control f"
    using ok by (auto simp: dev_ok_def)
  let ?st = "\<lambda>st. st\<lparr>tx_bytes := tx_bytes st + of_nat (skb_len (pkt b)), tx_packets := tx_packets st + 1\<rparr>"
  define d1 where "d1 = d\<lparr>priv := (priv d)\<lparr>net_stats := ?st (net_stats (priv d))\<rparr>\<rparr>"
  define w2 where "w2 = (set_dev w a d1)\<lparr>skbs := (skbs w)(s := None)\<rparr>"
  have c1: "dev_core d1 = dev_core d" by (simp add: d1_def dev_core_def)
  have w2: "devs w2 = (devs w)(a \<mapsto> d1)" "skbs w2 = (skbs w)(s := None)" "bus w2 = bus w" "bus_ifs w2 = bus_ifs w"
    by (simp_all add: w2_def set_dev_def)
  then have sh: "same_shape w w2" using d(1) c1 by (simp add: same_shape_def)
  have st1: "net_drv_is_queue_stopped (priv d1) \<longleftrightarrow> net_drv_is_queue_stopped (priv d)"
    by (simp add: d1_def net_drv_is_queue_stopped_def)
  have v: "net_drv_private_valid w (Some a) = Inr AMP_ERROR_NONE"
    using d by (simp add: net_drv_private_valid_def get_dev_def)
  have k: "kfree_skb (set_dev w a d1) s = Inr w2" using s by (simp add: kfree_skb_def w2_def set_dev_def)
  have eq: "net_drv_tx_complete bus_control_log w (Some a) s fsize fcount =
    (if net_drv_is_queue_stopped (priv d) \<and> fcount \<le> half fsize then
       rbind (call_bus_control bus_control_log w2 a NETDRV_BUS_CONTROL_LOG_NETQUEUE_EVENT 0) (\<lambda>w3.
       rbind (net_drv_wake_queue w3 a) (\<lambda>w4. Inr (AMP_ERROR_NONE, w4)))
     else Inr (AMP_ERROR_NONE, w2))"
    using d(1) s k st1 w2(1)
    by (simp add: net_drv_tx_complete_def v get_skb_def upd_priv_Some[OF d(1)] d1_def[symmetric] get_dev_def)
  show ?thesis
  proof (cases "net_drv_is_queue_stopped (priv d) \<and> fcount \<le> half fsize")
    case False
    then show ?thesis
      using eq w2 sh d(1) c1 st1
      by (intro exI[of _ w2] exI[of _ d] exI[of _ d1]) (auto simp: completed_def d1_def)
  next
    case True
    obtain rc w3 where w3: "bus_control_log a (pbus (priv d1)) NETDRV_BUS_CONTROL_LOG_NETQUEUE_EVENT 0 w2 = Inr (rc, w3)"
      "same_shape w2 w3" "skbs w3 = skbs w2" "bus_frame (bus w2) (bus w3)" "devs w3 = devs w2"
      using bus_control_log_frame[of a "pbus (priv d1)" 0 w2] by auto
    have "pnet_drv_bus_interface (priv d1) = Some i" using d(5) by (simp add: d1_def)
    then have cb: "call_bus_control bus_control_log w2 a NETDRV_BUS_CONTROL_LOG_NETQUEUE_EVENT 0 = Inr w3"
      using d(6,7) w3(1) by (simp add: call_bus_control_def get_dev_def bus_if_def w2)
    have d3: "devs w3 a = Some d1" "pnet_dev (priv d1) = Some a" using w3(5) w2(1) d(4) by (simp_all add: d1_def)
    obtain d' where d': "net_drv_wake_queue w3 a = Inr (set_dev w3 a d')" "dev_core d' = dev_core d1"
      "net_stats (priv d') = net_stats (priv d1)" "\<not> net_drv_is_queue_stopped (priv d')"
      using net_drv_wake_queue_frame[OF d3] by auto
    have "same_shape w (set_dev w3 a d')"
      using sh w3(2) same_shape_set_dev[OF d3(1) d'(2)] same_shape_trans by blast
    moreover have "completed b fsize fcount d d'"
      using d' c1 True by (auto simp: completed_def d1_def)
    ultimately show ?thesis
      using eq True cb d'(1) w3 w2 d(1)
      by (intro exI[of _ "set_dev w3 a d'"] exI[of _ d] exI[of _ d']) (auto simp: set_dev_def)
  qed
qed

section \<open>The invariant\<close>

abbreviation ni_at :: "'q dd_sys \<Rightarrow> nat \<Rightarrow> lte_dd_net_info_t" where
  "ni_at w i \<equiv> ni_interfaces (bus w) ! i"

text \<open>The buffers queued at interface \<open>i\<close>, and at all interfaces.\<close>

definition qlist :: "'q dd_sys \<Rightarrow> nat \<Rightarrow> addr list" where
  "qlist w i = fifo_list (h_tx_data_fifo (ni_at w i))"

definition owned :: "'q dd_sys \<Rightarrow> addr set" where
  "owned w = (\<Union>i < NETDRV_MAX_NUM_DEVICES. set (qlist w i))"

definition iface_ok :: "'q dd_sys \<Rightarrow> nat \<Rightarrow> bool" where
  "iface_ok w i \<longleftrightarrow>
     (case pnet (ni_at w i) of
        None \<Rightarrow> h_tx_data_fifo (ni_at w i) = None
      | Some a \<Rightarrow> fifo_inv (h_tx_data_fifo (ni_at w i)) \<and> fifo_cap (h_tx_data_fifo (ni_at w i)) = 64 \<and> dev_ok w a i)"

definition skb_ok :: "'q dd_sys \<Rightarrow> addr \<Rightarrow> bool" where
  "skb_ok w s \<longleftrightarrow> (\<exists>b. skbs w s = Some b \<and> skb_cb b \<noteq> [])"

definition ul_base :: "'q dd_sys \<Rightarrow> bool" where
  "ul_base w \<longleftrightarrow> dd_valid (bus w) \<and> length (ni_interfaces (bus w)) = NETDRV_MAX_NUM_DEVICES \<and>
     (\<forall>i < NETDRV_MAX_NUM_DEVICES. iface_ok w i \<and> distinct (qlist w i) \<and> (\<forall>s \<in> set (qlist w i). skb_ok w s)) \<and>
     (\<forall>i < NETDRV_MAX_NUM_DEVICES. \<forall>j < NETDRV_MAX_NUM_DEVICES. i \<noteq> j \<longrightarrow> set (qlist w i) \<inter> set (qlist w j) = {})"

text \<open>The first \<open>n\<close> packets of interface \<open>i\<close> are in the transfer arrays.\<close>

definition in_transfer :: "lte_dd_dev_t \<Rightarrow> nat \<Rightarrow> addr list \<Rightarrow> nat \<Rightarrow> bool" where
  "in_transfer d i q n \<longleftrightarrow> n \<le> length q \<and> n \<le> IPC_4GHIF_MAX_NB_UL_FRAMES \<and>
     length (tx_sdma_xfer d) = IPC_4GHIF_MAX_NB_UL_FRAMES \<and> length (tx_sdma_packet d) = IPC_4GHIF_MAX_NB_UL_FRAMES \<and>
     (\<forall>k < n. tx_sdma_packet d ! k = Some k \<and> xfer_pni (tx_sdma_xfer d ! k) = Some i \<and>
        xfer_pskb (tx_sdma_xfer d ! k) = Some (q ! k) \<and> puser_xfer (sdma (tx_sdma_xfer d ! k)) = Some k)"

definition tx_busy :: "lte_dd_dev_t \<Rightarrow> bool" where
  "tx_busy d \<longleftrightarrow> dd_flags d AND LTE_DD_FLAG_TX_BUSY \<noteq> 0"

definition ul_inv :: "'q dd_sys \<Rightarrow> bool" where
  "ul_inv w \<longleftrightarrow> ul_base w \<and>
     (tx_busy (bus w) \<longrightarrow> (\<exists>i < NETDRV_MAX_NUM_DEVICES. pnet (ni_at w i) \<noteq> None \<and>
        ni_flags (ni_at w i) AND LTE_NI_FLAG_TX_BUSY \<noteq> 0 \<and>
        in_transfer (bus w) i (qlist w i) (tx_sdma_packet_cnt (bus w))))"

text \<open>The invariant only looks at the cores.\<close>

lemma map_core_nth:
  assumes "map ni_core nis = map ni_core nis'" "i < length nis'"
  shows "pnet (nis ! i) = pnet (nis' ! i)" "h_tx_data_fifo (nis ! i) = h_tx_data_fifo (nis' ! i)"
    "ni_flags (nis ! i) = ni_flags (nis' ! i)"
proof -
  have "length nis = length nis'" using arg_cong[OF assms(1), of length] by simp
  then have "ni_core (nis ! i) = ni_core (nis' ! i)"
    using arg_cong[OF assms(1), of "\<lambda>xs. xs ! i"] assms(2) by simp
  then show "pnet (nis ! i) = pnet (nis' ! i)" "h_tx_data_fifo (nis ! i) = h_tx_data_fifo (nis' ! i)"
    "ni_flags (nis ! i) = ni_flags (nis' ! i)" by (simp_all add: ni_core_def)
qed

lemma qlist_cong:
  "map ni_core (ni_interfaces (bus w')) = map ni_core (ni_interfaces (bus w)) \<Longrightarrow>
     i < length (ni_interfaces (bus w)) \<Longrightarrow> qlist w' i = qlist w i"
  using map_core_nth(2)[of "ni_interfaces (bus w')" "ni_interfaces (bus w)" i] by (simp add: qlist_def)

lemma iface_ok_cong:
  assumes "iface_ok w i" "same_shape w w'" "pnet (ni_at w' i) = pnet (ni_at w i)"
    "h_tx_data_fifo (ni_at w' i) = h_tx_data_fifo (ni_at w i)"
  shows "iface_ok w' i"
  using assms dev_ok_shape[OF _ assms(2)] by (auto simp: iface_ok_def split: option.splits)

text \<open>
  A step that keeps the shape, the other FIFOs and the queued buffers and replaces the FIFO of
  interface \<open>i\<close> by a well-formed one keeps the base invariant.
\<close>

lemma ul_base_step:
  assumes inv: "ul_base w" and sh: "same_shape w w'" and dv: "dd_valid (bus w') = dd_valid (bus w)"
    and len: "length (ni_interfaces (bus w')) = length (ni_interfaces (bus w))"
    and i: "i < NETDRV_MAX_NUM_DEVICES"
    and other: "\<And>j. j < NETDRV_MAX_NUM_DEVICES \<Longrightarrow> j \<noteq> i \<Longrightarrow>
      pnet (ni_at w' j) = pnet (ni_at w j) \<and> h_tx_data_fifo (ni_at w' j) = h_tx_data_fifo (ni_at w j)"
    and pn: "pnet (ni_at w' i) = pnet (ni_at w i)"
    and q: "h_tx_data_fifo (ni_at w' i) = h_tx_data_fifo (ni_at w i) \<or>
      fifo_inv (h_tx_data_fifo (ni_at w' i)) \<and> fifo_cap (h_tx_data_fifo (ni_at w' i)) = 64 \<and> pnet (ni_at w i) \<noteq> None"
    and dq: "distinct (qlist w' i)"
    and dis: "\<And>j. j < NETDRV_MAX_NUM_DEVICES \<Longrightarrow> j \<noteq> i \<Longrightarrow> set (qlist w' i) \<inter> set (qlist w j) = {}"
    and sk: "\<And>s. s \<in> owned w' \<Longrightarrow> skb_ok w' s"
  shows "ul_base w'"
proof -
  have qj: "qlist w' j = qlist w j" if "j < NETDRV_MAX_NUM_DEVICES" "j \<noteq> i" for j
    using other[OF that] by (simp add: qlist_def)
  have "iface_ok w' j" if j: "j < NETDRV_MAX_NUM_DEVICES" for j
  proof (cases "j = i")
    case False
    then show ?thesis using iface_ok_cong[OF _ sh] other[OF j] inv j by (auto simp: ul_base_def)
  next
    case True
    have ok: "iface_ok w i" using inv i by (simp add: ul_base_def)
    from q show ?thesis
    proof
      assume "h_tx_data_fifo (ni_at w' i) = h_tx_data_fifo (ni_at w i)"
      then show ?thesis using iface_ok_cong[OF ok sh pn] True by simp
    next
      assume "fifo_inv (h_tx_data_fifo (ni_at w' i)) \<and> fifo_cap (h_tx_data_fifo (ni_at w' i)) = 64 \<and> pnet (ni_at w i) \<noteq> None"
      then show ?thesis using ok True pn dev_ok_shape[OF _ sh] by (auto simp: iface_ok_def)
    qed
  qed
  moreover have "distinct (qlist w' j)" if "j < NETDRV_MAX_NUM_DEVICES" for j
    using that inv dq qj[OF that] by (cases "j = i") (auto simp: ul_base_def)
  moreover have "set (qlist w' j) \<inter> set (qlist w' k) = {}"
    if "j < NETDRV_MAX_NUM_DEVICES" "k < NETDRV_MAX_NUM_DEVICES" "j \<noteq> k" for j k
    using that inv qj[of j] qj[of k] dis[of j] dis[of k]
    by (cases "j = i"; cases "k = i") (auto simp: ul_base_def)
  moreover have "skb_ok w' s" if "s \<in> set (qlist w' j)" "j < NETDRV_MAX_NUM_DEVICES" for s j
    using sk that by (auto simp: owned_def)
  ultimately show ?thesis
    using inv dv len by (auto simp: ul_base_def)
qed

section \<open>One packet leaves its FIFO\<close>

definition tx_core ::
  "lte_dd_dev_t \<Rightarrow> bool \<times> u32 \<times> lte_dd_sdma_xfer_t list \<times> nat \<times> nat option list \<times> nat \<times> u32" where
  "tx_core d = (dd_valid d, dd_flags d, tx_sdma_xfer d, tx_sdma_xfer_cnt d, tx_sdma_packet d,
     tx_sdma_packet_cnt d, ni_interfaces_cnt d)"

lemma bus_frame_core: "bus_frame d d' \<Longrightarrow> tx_core d' = tx_core d"
  by (auto simp: bus_frame_def tx_core_def)

definition keeps_nis :: "nat \<Rightarrow> 'q dd_sys \<Rightarrow> 'q dd_sys \<Rightarrow> bool" where
  "keeps_nis i w w' \<longleftrightarrow> length (ni_interfaces (bus w')) = length (ni_interfaces (bus w)) \<and>
     (\<forall>j < length (ni_interfaces (bus w)). pnet (ni_at w' j) = pnet (ni_at w j) \<and> ni_flags (ni_at w' j) = ni_flags (ni_at w j) \<and>
        (j \<noteq> i \<longrightarrow> h_tx_data_fifo (ni_at w' j) = h_tx_data_fifo (ni_at w j)))"

lemma keeps_nis_trans: "keeps_nis i w w' \<Longrightarrow> keeps_nis i w' w'' \<Longrightarrow> keeps_nis i w w''"
  by (auto simp: keeps_nis_def)

lemma keeps_nis_frame:
  assumes "bus_frame (bus w) (bus w')"
  shows "keeps_nis i w w'" and "j < length (ni_interfaces (bus w)) \<Longrightarrow> qlist w' j = qlist w j"
    and "i < length (ni_interfaces (bus w)) \<Longrightarrow> h_tx_data_fifo (ni_at w' i) = h_tx_data_fifo (ni_at w i)"
proof -
  obtain nis where n: "ni_interfaces (bus w') = nis" "map ni_core nis = map ni_core (ni_interfaces (bus w))"
    using assms by (auto simp: bus_frame_def)
  have "length nis = length (ni_interfaces (bus w))" using arg_cong[OF n(2), of length] by simp
  then show "keeps_nis i w w'" using map_core_nth[OF n(2)] n(1) by (auto simp: keeps_nis_def)
  show "j < length (ni_interfaces (bus w)) \<Longrightarrow> qlist w' j = qlist w j" using n qlist_cong by metis
  show "i < length (ni_interfaces (bus w)) \<Longrightarrow> h_tx_data_fifo (ni_at w' i) = h_tx_data_fifo (ni_at w i)"
    using map_core_nth(2)[OF n(2), of i] n(1) by simp
qed

lemma keeps_nis_qlist: "keeps_nis i w w' \<Longrightarrow> j \<noteq> i \<Longrightarrow> j < length (ni_interfaces (bus w)) \<Longrightarrow> qlist w' j = qlist w j"
  by (simp add: keeps_nis_def qlist_def)

text \<open>
  The effect on the device of interface \<open>i\<close> of completing buffer \<open>b\<close> with \<open>n\<close> packets left.
\<close>

definition dev_completed :: "'q dd_sys \<Rightarrow> 'q dd_sys \<Rightarrow> addr \<Rightarrow> net_skb \<Rightarrow> nat \<Rightarrow> bool" where
  "dev_completed w w' a b n \<longleftrightarrow> (\<exists>d d'. devs w a = Some d \<and> devs w' = (devs w)(a \<mapsto> d') \<and> completed b 64 (int n) d d')"

definition consumed :: "nat \<Rightarrow> addr \<Rightarrow> addr list \<Rightarrow> 'q dd_sys \<Rightarrow> 'q dd_sys \<Rightarrow> bool" where
  "consumed i s ss w w' \<longleftrightarrow> ul_base w' \<and> same_shape w w' \<and> skbs w' = (skbs w)(s := None) \<and>
     tx_core (bus w') = tx_core (bus w) \<and> keeps_nis i w w' \<and> qlist w' i = ss"

lemma fifo_count_u32: "fifo_inv q \<Longrightarrow> fifo_cap q = 64 \<Longrightarrow>
   (case snd (ptr_fifo_num_elements q True) of None \<Rightarrow> 0 | Some c \<Rightarrow> c) = of_nat (length (fifo_list q)) \<and>
   length (fifo_list q) \<le> 64"
  using fifo_list_bound[of q] by (cases q) (auto simp: ptr_fifo_num_elements_def Let_def ptr_fifo_object_valid_def)

lemma sint_small: "n \<le> 64 \<Longrightarrow> sint (of_nat n :: u32) = int n"
  by (simp add: signed_of_nat signed_take_bit_int_eq_self)

lemma consume_head:
  assumes inv: "ul_base w" and i: "i < NETDRV_MAX_NUM_DEVICES" and pn: "pnet (ni_at w i) = Some a"
    and q: "qlist w i = s # ss"
    and f: "fifo_inv f" "fifo_cap f = 64" "fifo_list f = ss"
    and w2: "ni_interfaces (bus w2) = (ni_interfaces (bus w))[i := ni2]" "pnet ni2 = pnet (ni_at w i)"
      "h_tx_data_fifo ni2 = f" "ni_flags ni2 = ni_flags (ni_at w i)"
    and rest: "tx_core (bus w2) = tx_core (bus w)" "skbs w2 = skbs w" "devs w2 = devs w" "bus_ifs w2 = bus_ifs w"
    and b: "skbs w s = Some b"
  shows "\<exists>w'. call_tx_complete w2 i s (of_nat (length ss)) = Inr w' \<and> consumed i s ss w w' \<and>
    dev_completed w w' a b (length ss)"
proof -
  have len: "length (ni_interfaces (bus w)) = NETDRV_MAX_NUM_DEVICES" "i < length (ni_interfaces (bus w))"
    using inv i by (simp_all add: ul_base_def)
  have l64: "length ss \<le> 64" using fifo_list_bound[OF f(1)] f by simp
  have sh2: "same_shape w w2" using rest by (simp add: same_shape_def)
  have "iface_ok w i" using inv i by (simp add: ul_base_def)
  then have ok: "dev_ok w2 a i" using pn dev_ok_shape[OF _ sh2] by (simp add: iface_ok_def)
  obtain w' d d' where c: "net_drv_tx_complete bus_control_log w2 (Some a) s 64 (int (length ss)) = Inr (AMP_ERROR_NONE, w')"
    "skbs w' = (skbs w2)(s := None)" "same_shape w2 w'" "bus_frame (bus w2) (bus w')"
    "devs w2 a = Some d" "devs w' = (devs w2)(a \<mapsto> d')" "completed b 64 (int (length ss)) d d'"
    using net_drv_tx_complete_frame[OF ok, of s b 64 "int (length ss)"] b rest(2) by auto
  obtain g where g: "bus_ifs w2 i = Some g" "tx_complete g" using ok by (auto simp: dev_ok_def)
  have "call_tx_complete w2 i s (of_nat (length ss)) = Inr w'"
    using len w2 pn g c(1) sint_small[OF l64]
    by (simp add: call_tx_complete_def get_ni_def LTE_DD_TX_DATA_PACKET_FIFO_SIZE_def)
  moreover have sh: "same_shape w w'" using sh2 c(3) same_shape_trans by blast
  have k2: "keeps_nis i w w2" using len w2 by (auto simp: keeps_nis_def nth_list_update)
  have k: "keeps_nis i w w'" using keeps_nis_trans[OF k2] keeps_nis_frame(1)[OF c(4)] by simp
  have q': "h_tx_data_fifo (ni_at w' i) = f"
    using keeps_nis_frame(3)[OF c(4), of i] w2 len by simp
  then have qi: "qlist w' i = ss" using f(3) by (simp add: qlist_def)
  have qj: "qlist w' j = qlist w j" if "j < NETDRV_MAX_NUM_DEVICES" "j \<noteq> i" for j
    using keeps_nis_qlist[OF k that(2)] that(1) len(1) by simp
  have tc: "tx_core (bus w') = tx_core (bus w)" using bus_frame_core[OF c(4)] rest(1) by simp
  have dist: "distinct (s # ss)" using inv i q by (auto simp: ul_base_def)
  have dis: "set (qlist w i) \<inter> set (qlist w j) = {}" if "j < NETDRV_MAX_NUM_DEVICES" "j \<noteq> i" for j
    using inv i that by (auto simp: ul_base_def)
  have sk: "skb_ok w' t" if "t \<in> owned w'" for t
  proof -
    obtain j where j: "j < NETDRV_MAX_NUM_DEVICES" "t \<in> set (qlist w' j)"
      using \<open>t \<in> owned w'\<close> by (auto simp: owned_def)
    have "t \<noteq> s \<and> t \<in> set (qlist w j)"
      using j qi qj[of j] q dist dis[of j] by (cases "j = i") auto
    then show ?thesis using inv j(1) c(2) rest(2) by (auto simp: ul_base_def skb_ok_def)
  qed
  have "ul_base w'"
  proof (rule ul_base_step[OF inv sh _ _ i, of])
    show "dd_valid (bus w') = dd_valid (bus w)" using tc by (simp add: tx_core_def)
    show "length (ni_interfaces (bus w')) = length (ni_interfaces (bus w))" using k by (simp add: keeps_nis_def)
    show "h_tx_data_fifo (ni_at w' i) = h_tx_data_fifo (ni_at w i) \<or>
      fifo_inv (h_tx_data_fifo (ni_at w' i)) \<and> fifo_cap (h_tx_data_fifo (ni_at w' i)) = 64 \<and> pnet (ni_at w i) \<noteq> None"
      using q' f pn by simp
    show "distinct (qlist w' i)" using qi dist by simp
    show "set (qlist w' i) \<inter> set (qlist w j) = {}" if "j < NETDRV_MAX_NUM_DEVICES" "j \<noteq> i" for j
      using dis[OF that] q qi by auto
  qed (use k len i sk in \<open>auto simp: keeps_nis_def\<close>)
  ultimately show ?thesis
    using sh c rest k qi tc by (auto simp: consumed_def dev_completed_def)
qed

section \<open>Several packets leave their FIFO\<close>

text \<open>The device after \<open>n\<close> of \<open>len\<close> queued packets were completed.\<close>

definition dev_after :: "'q dd_sys \<Rightarrow> 'q dd_sys \<Rightarrow> addr \<Rightarrow> nat \<Rightarrow> nat \<Rightarrow> bool" where
  "dev_after w w' a n len \<longleftrightarrow> (\<exists>d d'. devs w a = Some d \<and> devs w' = (devs w)(a \<mapsto> d') \<and>
     tx_packets (net_stats (priv d')) = tx_packets (net_stats (priv d)) + of_nat n \<and>
     (net_drv_is_queue_stopped (priv d') \<longleftrightarrow> net_drv_is_queue_stopped (priv d) \<and> (n = 0 \<or> 32 < len - n)))"

lemma dev_after_0: "devs w a = Some d \<Longrightarrow> dev_after w w a 0 len"
  by (auto simp: dev_after_def intro!: exI[of _ d])

lemma dev_after_step:
  assumes "dev_completed w w1 a b len" "dev_after w1 w2 a n len"
  shows "dev_after w w2 a (Suc n) (Suc len)"
proof -
  obtain d d1 where 1: "devs w a = Some d" "devs w1 = (devs w)(a \<mapsto> d1)" "completed b 64 (int len) d d1"
    using assms(1) by (auto simp: dev_completed_def)
  obtain d2 where 2: "devs w2 = (devs w1)(a \<mapsto> d2)"
    "tx_packets (net_stats (priv d2)) = tx_packets (net_stats (priv d1)) + of_nat n"
    "net_drv_is_queue_stopped (priv d2) \<longleftrightarrow> net_drv_is_queue_stopped (priv d1) \<and> (n = 0 \<or> 32 < len - n)"
    using assms(2) 1(2) by (auto simp: dev_after_def)
  have "half 64 = 32" by (simp add: half_def)
  then have "net_drv_is_queue_stopped (priv d2) \<longleftrightarrow> net_drv_is_queue_stopped (priv d) \<and> 32 < len - n"
    using 1(3) 2(3) by (auto simp: completed_def)
  then show ?thesis
    using 1 2 by (auto simp: dev_after_def completed_def intro!: exI[of _ d] exI[of _ d2])
qed

definition drained :: "nat \<Rightarrow> addr \<Rightarrow> nat \<Rightarrow> 'q dd_sys \<Rightarrow> 'q dd_sys \<Rightarrow> bool" where
  "drained i a n w w' \<longleftrightarrow> ul_base w' \<and> same_shape w w' \<and> tx_core (bus w') = tx_core (bus w) \<and> keeps_nis i w w' \<and>
     qlist w' i = drop n (qlist w i) \<and> skbs w' = skbs w |` (- set (take n (qlist w i))) \<and>
     dev_after w w' a n (length (qlist w i))"

lemma drained_0: "ul_base w \<Longrightarrow> devs w a = Some d \<Longrightarrow> drained i a 0 w w"
  by (simp add: drained_def keeps_nis_def dev_after_0 restrict_map_def)

lemma drained_Suc:
  assumes "consumed i s ss w w1" "dev_completed w w1 a b (length ss)" "drained i a n w1 w2" "qlist w i = s # ss"
  shows "drained i a (Suc n) w w2"
proof -
  have q1: "qlist w1 i = ss" using assms(1) by (simp add: consumed_def)
  have "skbs w2 = skbs w |` (- set (take (Suc n) (qlist w i)))"
    using assms(1,3,4) q1 by (auto simp: consumed_def drained_def restrict_map_def fun_eq_iff)
  moreover have "dev_after w w2 a (Suc n) (length (qlist w i))"
    using dev_after_step[OF assms(2)] assms(3,4) q1 by (simp add: drained_def)
  ultimately show ?thesis
    using assms same_shape_trans keeps_nis_trans q1 by (auto simp: consumed_def drained_def)
qed

lemma ul_base_fifo:
  assumes "ul_base w" "i < NETDRV_MAX_NUM_DEVICES" "pnet (ni_at w i) = Some a"
  shows "fifo_inv (h_tx_data_fifo (ni_at w i))" "fifo_cap (h_tx_data_fifo (ni_at w i)) = 64" "dev_ok w a i"
    "length (qlist w i) \<le> 64"
proof -
  have "iface_ok w i" using assms by (simp add: ul_base_def)
  then show *: "fifo_inv (h_tx_data_fifo (ni_at w i))" "fifo_cap (h_tx_data_fifo (ni_at w i)) = 64" "dev_ok w a i"
    using assms(3) by (simp_all add: iface_ok_def)
  show "length (qlist w i) \<le> 64" using fifo_list_bound[OF *(1)] *(2) by (simp add: qlist_def)
qed

lemma get_ni_ok: "ul_base w \<Longrightarrow> i < NETDRV_MAX_NUM_DEVICES \<Longrightarrow> get_ni w i = Inr (ni_at w i)"
  by (simp add: get_ni_def ul_base_def)

lemma remove_head:
  assumes "ul_base w" "i < NETDRV_MAX_NUM_DEVICES" "pnet (ni_at w i) = Some a" "qlist w i = s # ss"
  shows "\<exists>f. ptr_fifo_remove (h_tx_data_fifo (ni_at w i)) True = Inr (0, Some s, f) \<and>
    fifo_inv f \<and> fifo_cap f = 64 \<and> fifo_list f = ss"
  using ptr_ring.rem_some[OF ul_base_fifo(1)[OF assms(1-3)]] ul_base_fifo(2)[OF assms(1-3)] assms(4)
  by (auto simp: qlist_def)

lemma queued_skb:
  "ul_base w \<Longrightarrow> i < NETDRV_MAX_NUM_DEVICES \<Longrightarrow> s \<in> set (qlist w i) \<Longrightarrow> \<exists>b. skbs w s = Some b \<and> skb_cb b \<noteq> []"
  by (auto simp: ul_base_def skb_ok_def)

lemma tx_drop_loop_drains:
  assumes "ul_base w" "i < NETDRV_MAX_NUM_DEVICES" "pnet (ni_at w i) = Some a" "n \<le> length (qlist w i)"
  shows "\<exists>w'. tx_drop_loop i n w = Inr w' \<and> drained i a n w w'"
  using assms
proof (induction n arbitrary: w)
  case 0
  then obtain d where "devs w a = Some d" using ul_base_fifo(3)[of w i a] by (auto simp: dev_ok_def)
  then show ?case using 0 drained_0 by auto
next
  case (Suc n)
  then obtain s ss where q: "qlist w i = s # ss" by (cases "qlist w i") auto
  obtain f where f: "ptr_fifo_remove (h_tx_data_fifo (ni_at w i)) True = Inr (0, Some s, f)"
    "fifo_inv f" "fifo_cap f = 64" "fifo_list f = ss"
    using remove_head[OF Suc.prems(1-3) q] by auto
  obtain b where b: "skbs w s = Some b" using queued_skb[OF Suc.prems(1,2), of s] q by auto
  have len: "i < length (ni_interfaces (bus w))" using Suc.prems by (simp add: ul_base_def)
  let ?w1 = "upd_bus w (\<lambda>d. d\<lparr>ni_interfaces := (ni_interfaces d)[i := (ni_at w i)\<lparr>h_tx_data_fifo := f\<rparr>]\<rparr>)"
  let ?ni2 = "(ni_at w i)\<lparr>h_tx_data_fifo := f, tx_data_packet_read_fifo_cnt := tx_data_packet_read_fifo_cnt (ni_at w i) + 1\<rparr>"
  let ?w2 = "upd_bus ?w1 (\<lambda>d. d\<lparr>ni_interfaces := (ni_interfaces d)[i := ?ni2]\<rparr>)"
  have u: "upd_ni ?w1 i (\<lambda>ni. ni\<lparr>tx_data_packet_read_fifo_cnt := tx_data_packet_read_fifo_cnt ni + 1\<rparr>) = Inr ?w2"
    using len by (simp add: upd_ni_ok)
  have cnt: "(case snd (ptr_fifo_num_elements f True) of None \<Rightarrow> 0 | Some c \<Rightarrow> c) = of_nat (length ss)"
    using fifo_count_u32[OF f(2,3)] f(4) by simp
  obtain w3 where w3: "call_tx_complete ?w2 i s (of_nat (length ss)) = Inr w3" "consumed i s ss w w3"
    "dev_completed w w3 a b (length ss)"
    using consume_head[OF Suc.prems(1-3) q f(2-4), of ?w2 ?ni2 b] b by (auto simp: tx_core_def)
  have "ul_base w3" "pnet (ni_at w3 i) = Some a" "n \<le> length (qlist w3 i)"
    using w3(2) Suc.prems q len by (auto simp: consumed_def keeps_nis_def)
  from Suc.IH[OF this(1) Suc.prems(2) this(2,3)] obtain w' where
    w': "tx_drop_loop i n w3 = Inr w'" "drained i a n w3 w'" by auto
  have "tx_drop_loop i (Suc n) w = Inr w'"
    using f(1) u cnt w3(1) w'(1) len by (simp add: get_ni_def upd_ni_ok)
  then show ?case using drained_Suc[OF w3(2,3) w'(2) q] by blast
qed

text \<open>Completing a transfer takes its packets from the FIFO, in order.\<close>

lemma peek_head:
  assumes "ul_base w" "i < NETDRV_MAX_NUM_DEVICES" "pnet (ni_at w i) = Some a" "qlist w i = s # ss"
  shows "ptr_fifo_peek_offset (h_tx_data_fifo (ni_at w i)) 0 True = Inr (0, Some s)"
  using peek_offset_lookup[OF ul_base_fifo(1)[OF assms(1-3)], of 0] assms(4) by (simp add: qlist_def)

lemma ul_complete_step:
  assumes inv: "ul_base w" "i < NETDRV_MAX_NUM_DEVICES" "pnet (ni_at w i) = Some a" and q: "qlist w i = s # ss"
    and p: "k < length (tx_sdma_packet (bus w))" "tx_sdma_packet (bus w) ! k = Some k"
    and x: "k < length (tx_sdma_xfer (bus w))" "xfer_pni (tx_sdma_xfer (bus w) ! k) = Some i"
      "xfer_pskb (tx_sdma_xfer (bus w) ! k) = Some s" "puser_xfer (sdma (tx_sdma_xfer (bus w) ! k)) = Some k"
  shows "\<exists>w' b. ul_complete_loop (k # ks) pni w = ul_complete_loop ks (Some i) w' \<and> consumed i s ss w w' \<and>
    dev_completed w w' a b (length ss)"
proof -
  obtain f where f: "ptr_fifo_remove (h_tx_data_fifo (ni_at w i)) True = Inr (0, Some s, f)"
    "fifo_inv f" "fifo_cap f = 64" "fifo_list f = ss"
    using remove_head[OF inv q] by auto
  obtain b where b: "skbs w s = Some b" using queued_skb[OF inv(1,2), of s] q by auto
  have len: "i < length (ni_interfaces (bus w))" using inv by (simp add: ul_base_def)
  let ?w1 = "upd_bus w (\<lambda>d. d\<lparr>tx_data_packets_sdma_bytes := tx_data_packets_sdma_bytes d + buf_size (sdma (tx_sdma_xfer (bus w) ! k))\<rparr>)"
  let ?ni2 = "(ni_at w i)\<lparr>h_tx_data_fifo := f, tx_data_packet_read_fifo_cnt := tx_data_packet_read_fifo_cnt (ni_at w i) + 1\<rparr>"
  let ?w2 = "upd_bus ?w1 (\<lambda>d. d\<lparr>ni_interfaces := (ni_interfaces d)[i := ?ni2]\<rparr>)"
  have u: "upd_ni ?w1 i (\<lambda>ni. ni\<lparr>h_tx_data_fifo := f, tx_data_packet_read_fifo_cnt := tx_data_packet_read_fifo_cnt ni + 1\<rparr>) = Inr ?w2"
    using len by (simp add: upd_ni_ok)
  have cnt: "(case snd (ptr_fifo_num_elements f True) of None \<Rightarrow> 0 | Some c \<Rightarrow> c) = of_nat (length ss)"
    using fifo_count_u32[OF f(2,3)] f(4) by simp
  obtain w' where w': "call_tx_complete ?w2 i s (of_nat (length ss)) = Inr w'" "consumed i s ss w w'"
    "dev_completed w w' a b (length ss)"
    using consume_head[OF inv q f(2-4), of ?w2 ?ni2 b] b by (auto simp: tx_core_def)
  have "ul_complete_loop (k # ks) pni w = ul_complete_loop ks (Some i) w'"
    using p x len peek_head[OF inv q] f(1) u cnt w'(1) by (simp add: get_ni_def)
  then show ?thesis using w'(2,3) by blast
qed

lemma ul_complete_loop_drains:
  assumes "ul_base w" "i < NETDRV_MAX_NUM_DEVICES" "pnet (ni_at w i) = Some a"
    and "qlist w i = drop k q" "k \<le> n" "in_transfer (bus w) i q n"
  shows "\<exists>w'. ul_complete_loop [k..<n] pni w = Inr (if k < n then Some i else pni, w') \<and> drained i a (n - k) w w'"
  using assms
proof (induction "n - k" arbitrary: k w pni)
  case 0
  then obtain d where "devs w a = Some d" using ul_base_fifo(3)[of w i a] by (auto simp: dev_ok_def)
  then show ?case using 0 drained_0 by auto
next
  case (Suc m)
  then have k: "k < n" by simp
  have t: "n \<le> length q" "n \<le> length (tx_sdma_xfer (bus w))" "n \<le> length (tx_sdma_packet (bus w))"
    using Suc.prems(6) by (auto simp: in_transfer_def)
  have q: "qlist w i = q ! k # drop (Suc k) q" using Suc.prems(4) k t(1) by (simp add: Cons_nth_drop_Suc)
  obtain w1 b where w1: "ul_complete_loop (k # [Suc k..<n]) pni w = ul_complete_loop [Suc k..<n] (Some i) w1"
    "consumed i (q ! k) (drop (Suc k) q) w w1" "dev_completed w w1 a b (length (drop (Suc k) q))"
    using ul_complete_step[OF Suc.prems(1-3) q, of k "[Suc k..<n]" pni] Suc.prems(6) k t
    by (auto simp: in_transfer_def)
  have len: "i < length (ni_interfaces (bus w))" using Suc.prems(1,2) by (simp add: ul_base_def)
  have c: "ul_base w1" "pnet (ni_at w1 i) = Some a" "qlist w1 i = drop (Suc k) q" "in_transfer (bus w1) i q n"
    using w1(2) Suc.prems(3,6) len by (auto simp: consumed_def keeps_nis_def tx_core_def in_transfer_def)
  have m: "m = n - Suc k" using Suc.hyps(2) by simp
  obtain w' where w': "ul_complete_loop [Suc k..<n] (Some i) w1 = Inr (Some i, w')" "drained i a (n - Suc k) w1 w'"
    using Suc.hyps(1)[OF m c(1) Suc.prems(2) c(2,3) _ c(4), of "Some i"] k by auto
  have "n - k = Suc (n - Suc k)" using k by simp
  then show ?case
    using drained_Suc[OF w1(2,3) w'(2) q] w1(1) w'(1) k by (simp add: upt_rec[of k n])
qed

section \<open>Choosing an interface\<close>

lemma fifo_elements_qlist:
  assumes inv: "ul_base w" and i: "i < NETDRV_MAX_NUM_DEVICES"
  shows "fifo_elements (bus w) (ni_at w i) = of_nat (length (qlist w i))"
    and "0 <s fifo_elements (bus w) (ni_at w i) \<longleftrightarrow> qlist w i \<noteq> []"
proof -
  have ok: "iface_ok w i" using inv i by (simp add: ul_base_def)
  have "fifo_elements (bus w) (ni_at w i) = of_nat (length (qlist w i)) \<and> length (qlist w i) \<le> 64"
  proof (cases "pnet (ni_at w i)")
    case None
    then show ?thesis
      using ok by (simp add: iface_ok_def fifo_elements_def qlist_def ptr_fifo_num_elements_def ptr_fifo_object_valid_def)
  next
    case (Some a)
    then show ?thesis
      using fifo_count_u32[OF ul_base_fifo(1,2)[OF inv i Some]] by (simp add: fifo_elements_def qlist_def)
  qed
  then show "fifo_elements (bus w) (ni_at w i) = of_nat (length (qlist w i))"
    and "0 <s fifo_elements (bus w) (ni_at w i) \<longleftrightarrow> qlist w i \<noteq> []"
    by (auto simp: word_sless_alt sint_small)
qed

lemma queued_open:
  assumes "ul_base w" "i < NETDRV_MAX_NUM_DEVICES" "qlist w i \<noteq> []"
  shows "\<exists>a. pnet (ni_at w i) = Some a"
proof (cases "pnet (ni_at w i)")
  case None
  have "iface_ok w i" using assms by (simp add: ul_base_def)
  then show ?thesis using None assms(3) by (simp add: iface_ok_def qlist_def)
qed simp

text \<open>The number of packets a lookup announces: at least one, at most those queued.\<close>

lemma limit_elements_range:
  assumes "0 < n" "n \<le> 64"
  shows "0 < unat (limit_elements d (of_nat n))" "unat (limit_elements d (of_nat n)) \<le> n"
proof -
  have "unat (of_nat n :: u32) = n" using assms by (simp add: unsigned_of_nat take_bit_nat_eq_self)
  then show "0 < unat (limit_elements d (of_nat n))" "unat (limit_elements d (of_nat n)) \<le> n"
    using assms by (auto simp: limit_elements_def)
qed

definition good_choice :: "'q dd_sys \<Rightarrow> nat \<times> u32 \<Rightarrow> bool" where
  "good_choice w r \<longleftrightarrow> fst r < NETDRV_MAX_NUM_DEVICES \<and> pnet (ni_at w (fst r)) \<noteq> None \<and> 0 < unat (snd r) \<and>
     unat (snd r) \<le> length (qlist w (fst r))"

lemma good_choice_limit:
  assumes "ul_base w" "i < NETDRV_MAX_NUM_DEVICES" "qlist w i \<noteq> []"
  shows "good_choice w (i, limit_elements (bus w) (fifo_elements (bus w) (ni_at w i)))"
proof -
  obtain a where a: "pnet (ni_at w i) = Some a" using queued_open[OF assms] by auto
  show ?thesis
    using limit_elements_range[of "length (qlist w i)" "bus w"] ul_base_fifo(4)[OF assms(1,2) a] assms(3) a
    by (simp add: good_choice_def fifo_elements_qlist[OF assms(1,2)] assms(2))
qed

lemma rr_lookup_choice:
  assumes "ul_base w"
  shows "\<exists>r ri'. rr_lookup (bus w) ri n = Inr (r, ri') \<and> (\<forall>c. r = Some c \<longrightarrow> good_choice w c)"
proof (induction n arbitrary: ri)
  case (Suc n)
  have l: "length (ni_interfaces (bus w)) = NETDRV_MAX_NUM_DEVICES" using assms by (simp add: ul_base_def)
  let ?i = "unat ri mod length (ni_interfaces (bus w))"
  have i: "?i < length (ni_interfaces (bus w))" using l by (simp add: NETDRV_MAX_NUM_DEVICES_def)
  show ?case
  proof (cases "pnet (ni_at w ?i) \<noteq> None \<and> 0 <s fifo_elements (bus w) (ni_at w ?i)")
    case True
    then have "qlist w ?i \<noteq> []" using fifo_elements_qlist(2)[OF assms, of ?i] i l by simp
    then have "good_choice w (?i, limit_elements (bus w) (fifo_elements (bus w) (ni_at w ?i)))"
      using good_choice_limit[OF assms, of ?i] i l by simp
    then show ?thesis using True i by (simp add: Let_def)
  next
    case False
    then have "rr_lookup (bus w) ri (Suc n) = rr_lookup (bus w) (ri + 1) n"
      using i False by (auto simp: Let_def)
    then show ?thesis using Suc.IH[of "ri + 1"] by simp
  qed
qed simp

lemma fifo_lookup_choice:
  assumes "ul_base w"
  shows "\<exists>r f. lte_dd_ni_interface_fifo_lookup w = Inr (r, upd_bus w (\<lambda>d. d\<lparr>running_index := f\<rparr>)) \<and>
    (\<forall>c. r = Some c \<longrightarrow> good_choice w c)"
proof (cases "ni_interfaces_cnt (bus w) = 1")
  case False
  obtain r ri where "rr_lookup (bus w) (running_index (bus w)) (length (ni_interfaces (bus w))) = Inr (r, ri)"
    "\<forall>c. r = Some c \<longrightarrow> good_choice w c"
    using rr_lookup_choice[OF assms] by blast
  then show ?thesis using False by (auto simp: lte_dd_ni_interface_fifo_lookup_def Let_def)
next
  case True
  have 0: "0 < NETDRV_MAX_NUM_DEVICES" by (simp add: NETDRV_MAX_NUM_DEVICES_def)
  have same: "w = upd_bus w (\<lambda>d. d\<lparr>running_index := running_index (bus w)\<rparr>)" by (simp add: upd_bus_def)
  show ?thesis
  proof (cases "qlist w 0 = []")
    case False
    then show ?thesis
      using True good_choice_limit[OF assms 0 False] fifo_elements_qlist(2)[OF assms 0] same
      by (simp add: lte_dd_ni_interface_fifo_lookup_def Let_def get_ni_ok[OF assms 0]) metis
  next
    case empty: True
    then show ?thesis
      using True fifo_elements_qlist(2)[OF assms 0] same
      by (simp add: lte_dd_ni_interface_fifo_lookup_def Let_def get_ni_ok[OF assms 0]) metis
  qed
qed

end
