(* ===== verification/DataDriverTx.thy ===== *)
theory DataDriverTx
  imports DataDriverInv
begin

text \<open>
  The transmit routine of the data driver. Every step of the uplink takes packets from the
  front of the FIFOs and frees exactly those; the transmit routine ends without a fault, keeps
  the invariant and submits the first packets of one FIFO with their lengths and bearers.
\<close>

section \<open>Updates that leave the FIFOs alone\<close>

lemma upd_bus_upd_bus [simp]: "upd_bus (upd_bus w f) g = upd_bus w (\<lambda>d. g (f d))"
  by (simp add: upd_bus_def)

text \<open>Same open interfaces and same FIFOs.\<close>

definition same_fifos :: "'q dd_sys \<Rightarrow> 'q dd_sys \<Rightarrow> bool" where
  "same_fifos w w' \<longleftrightarrow> map (\<lambda>ni. (pnet ni, h_tx_data_fifo ni)) (ni_interfaces (bus w')) =
     map (\<lambda>ni. (pnet ni, h_tx_data_fifo ni)) (ni_interfaces (bus w))"

lemma same_fifos_nth:
  assumes "same_fifos w w'"
  shows "length (ni_interfaces (bus w')) = length (ni_interfaces (bus w))"
    and "j < length (ni_interfaces (bus w)) \<Longrightarrow> pnet (ni_at w' j) = pnet (ni_at w j)"
    and "j < length (ni_interfaces (bus w)) \<Longrightarrow> h_tx_data_fifo (ni_at w' j) = h_tx_data_fifo (ni_at w j)"
    and "j < length (ni_interfaces (bus w)) \<Longrightarrow> qlist w' j = qlist w j"
proof -
  note eq = assms[unfolded same_fifos_def]
  show len: "length (ni_interfaces (bus w')) = length (ni_interfaces (bus w))"
    using arg_cong[OF eq, of length] by simp
  show "pnet (ni_at w' j) = pnet (ni_at w j)" if "j < length (ni_interfaces (bus w))"
    using arg_cong[OF eq, of "\<lambda>xs. xs ! j"] that len by simp
  show "h_tx_data_fifo (ni_at w' j) = h_tx_data_fifo (ni_at w j)" if "j < length (ni_interfaces (bus w))"
    using arg_cong[OF eq, of "\<lambda>xs. xs ! j"] that len by simp
  then show "qlist w' j = qlist w j" if "j < length (ni_interfaces (bus w))" using that by (simp add: qlist_def)
qed

lemma ul_base_same_fifos:
  assumes inv: "ul_base w" and f: "same_fifos w w'" and sh: "same_shape w w'" and sk: "skbs w' = skbs w"
    and dv: "dd_valid (bus w') = dd_valid (bus w)"
  shows "ul_base w'"
proof -
  have l: "length (ni_interfaces (bus w)) = NETDRV_MAX_NUM_DEVICES" using inv by (simp add: ul_base_def)
  note same = same_fifos_nth(2-4)[OF f, unfolded l]
  have "iface_ok w' j" if "j < NETDRV_MAX_NUM_DEVICES" for j
    using iface_ok_cong[OF _ sh same(1,2)[OF that]] inv that by (simp add: ul_base_def)
  moreover have "skb_ok w' = skb_ok w" using sk by (simp add: skb_ok_def fun_eq_iff)
  ultimately show ?thesis
    using inv dv same(3) same_fifos_nth(1)[OF f] by (simp add: ul_base_def)
qed

lemma same_fifos_upd_bus:
  "map (\<lambda>ni. (pnet ni, h_tx_data_fifo ni)) (ni_interfaces (f (bus w))) =
     map (\<lambda>ni. (pnet ni, h_tx_data_fifo ni)) (ni_interfaces (bus w)) \<Longrightarrow> same_fifos w (upd_bus w f)"
  by (simp add: same_fifos_def)

lemma ul_base_upd_bus:
  assumes "ul_base w" "ni_interfaces (f (bus w)) = ni_interfaces (bus w)" "dd_valid (f (bus w)) = dd_valid (bus w)"
  shows "ul_base (upd_bus w f)"
  using ul_base_same_fifos[OF assms(1) same_fifos_upd_bus] assms by simp

lemma qlist_upd_bus: "ni_interfaces (f (bus w)) = ni_interfaces (bus w) \<Longrightarrow> qlist (upd_bus w f) i = qlist w i"
  by (simp add: qlist_def)

section \<open>Building a transfer\<close>

text \<open>The transfer entry of the \<open>k\<close>-th packet of interface \<open>i\<close>.\<close>

definition ul_xfer :: "'q dd_sys \<Rightarrow> nat \<Rightarrow> nat \<Rightarrow> lte_dd_sdma_xfer_t" where
  "ul_xfer w i k =
     (let s = qlist w i ! k; b = the (skbs w s) in
      \<lparr>xfer_pni = Some i, xfer_pskb = Some s,
       sdma = \<lparr>packet_type = PKT_TYPE_UL_DATA, pbuf = Some s, buf_size = of_nat (skb_len (pkt b)),
         transferred_status = False, bearerID = hd (skb_cb b), sdma_user = of_nat k, puser_xfer = Some k\<rparr>\<rparr>)"

lemma ul_xfer_upd_bus: "ni_interfaces (f (bus w)) = ni_interfaces (bus w) \<Longrightarrow> ul_xfer (upd_bus w f) i k = ul_xfer w i k"
  by (simp add: ul_xfer_def qlist_upd_bus)

lemma peek_nth:
  assumes "ul_base w" "i < NETDRV_MAX_NUM_DEVICES" "pnet (ni_at w i) = Some a" "j < length (qlist w i)"
  shows "ptr_fifo_peek_offset (h_tx_data_fifo (ni_at w i)) (of_nat j) True = Inr (0, Some (qlist w i ! j))"
proof -
  have j: "j < 64" using ul_base_fifo(4)[OF assms(1-3)] assms(4) by simp
  then have "unat (of_nat j :: u32) = j" by (simp add: unsigned_of_nat take_bit_nat_eq_self)
  then show ?thesis
    using j peek_offset_lookup[OF ul_base_fifo(1)[OF assms(1-3)], of "of_nat j"] assms(4) by (simp add: qlist_def)
qed

lemma tx_build_fills:
  assumes "ul_base w" "i < NETDRV_MAX_NUM_DEVICES" "pnet (ni_at w i) = Some a"
    and "tx_sdma_xfer_cnt (bus w) = j" "j \<le> n" "n \<le> length (qlist w i)" "n \<le> IPC_4GHIF_MAX_NB_UL_FRAMES"
    and "length (tx_sdma_xfer (bus w)) = IPC_4GHIF_MAX_NB_UL_FRAMES"
    and "\<forall>k < j. tx_sdma_xfer (bus w) ! k = ul_xfer w i k"
  shows "\<exists>xs pc. tx_build e i [j..<n] pskb w =
      Inr (True, upd_bus w (\<lambda>d. d\<lparr>tx_sdma_xfer := xs, tx_sdma_xfer_cnt := n, tx_physaddr_cnt := pc\<rparr>)) \<and>
    length xs = IPC_4GHIF_MAX_NB_UL_FRAMES \<and> (\<forall>k < n. xs ! k = ul_xfer w i k)"
  using assms
proof (induction "n - j" arbitrary: j w pskb)
  case 0
  then show ?case
    by (intro exI[of _ "tx_sdma_xfer (bus w)"] exI[of _ "tx_physaddr_cnt (bus w)"]) (simp add: upd_bus_def)
next
  case (Suc m)
  then have j: "j < n" by simp
  let ?s = "qlist w i ! j"
  obtain b where b: "skbs w ?s = Some b" "skb_cb b \<noteq> []"
    using queued_skb[OF Suc.prems(1,2), of ?s] j Suc.prems(6) by auto
  have hd: "net_drv_get_skb_eps_id b = Inr (hd (skb_cb b))"
    using b(2) by (simp add: net_drv_get_skb_eps_id_def hd_conv_nth)
  let ?xs = "(tx_sdma_xfer (bus w))[j := ul_xfer w i j]"
  let ?w1 = "upd_bus w (\<lambda>d. d\<lparr>tx_sdma_xfer := ?xs, tx_sdma_xfer_cnt := Suc j,
     tx_physaddr_cnt := count_align (virt_to_phys e ?s) (tx_physaddr_cnt d)\<rparr>)"
  have put: "arr_put (tx_sdma_xfer (bus w)) j (ul_xfer w i j) = Inr ?xs"
    using Suc.prems(7,8) j by (simp add: arr_put_def)
  have "tx_build e i (j # [Suc j..<n]) pskb w = tx_build e i [Suc j..<n] (Some ?s) ?w1"
    using peek_nth[OF Suc.prems(1-3), of j] j Suc.prems(4,6) b hd put
    by (simp add: get_ni_ok[OF Suc.prems(1,2)] get_skb_def ul_xfer_def Let_def)
  then have step: "tx_build e i [j..<n] pskb w = tx_build e i [Suc j..<n] (Some ?s) ?w1"
    using j by (simp add: upt_rec[of j n])
  have "\<forall>k < Suc j. ?xs ! k = ul_xfer w i k"
    using Suc.prems(7-9) j by (auto simp: nth_list_update less_Suc_eq)
  then have ih: "\<exists>xs pc. tx_build e i [Suc j..<n] (Some ?s) ?w1 =
      Inr (True, upd_bus ?w1 (\<lambda>d. d\<lparr>tx_sdma_xfer := xs, tx_sdma_xfer_cnt := n, tx_physaddr_cnt := pc\<rparr>)) \<and>
    length xs = IPC_4GHIF_MAX_NB_UL_FRAMES \<and> (\<forall>k < n. xs ! k = ul_xfer ?w1 i k)"
    using Suc.prems j Suc.hyps(2)
    by (intro Suc.hyps(1)) (auto simp: ul_base_upd_bus qlist_upd_bus ul_xfer_upd_bus)
  then show ?case by (simp add: step ul_xfer_upd_bus)
qed

section \<open>Steps of the uplink\<close>

text \<open>
  What a step of the uplink does to the queued packets: some leave at the front of their FIFOs,
  and exactly those are freed.
\<close>

definition ul_moves :: "'q dd_sys \<Rightarrow> 'q dd_sys \<Rightarrow> bool" where
  "ul_moves w w' \<longleftrightarrow> same_shape w w' \<and>
     (\<forall>i < NETDRV_MAX_NUM_DEVICES. pnet (ni_at w' i) = pnet (ni_at w i)) \<and>
     (\<forall>i < NETDRV_MAX_NUM_DEVICES. \<exists>n. qlist w' i = drop n (qlist w i)) \<and>
     skbs w' = skbs w |` (- (owned w - owned w'))"

definition ul_step :: "'q dd_sys \<Rightarrow> 'q dd_sys \<Rightarrow> bool" where
  "ul_step w w' \<longleftrightarrow> ul_inv w' \<and> ul_moves w w'"

lemma ul_moves_owned: "ul_moves w w' \<Longrightarrow> owned w' \<subseteq> owned w"
  by (fastforce simp: ul_moves_def owned_def dest: in_set_dropD)

lemma ul_moves_trans:
  assumes "ul_moves w w'" "ul_moves w' w''"
  shows "ul_moves w w''"
proof -
  have "skbs w'' = skbs w |` (- (owned w - owned w''))"
    using assms ul_moves_owned[OF assms(1)] ul_moves_owned[OF assms(2)]
    by (auto simp: ul_moves_def restrict_map_def fun_eq_iff)
  moreover have "\<exists>n. qlist w'' i = drop n (qlist w i)" if i: "i < NETDRV_MAX_NUM_DEVICES" for i
  proof -
    obtain m n where "qlist w'' i = drop m (drop n (qlist w i))"
      using assms i by (fastforce simp: ul_moves_def)
    then show ?thesis by (auto simp: drop_drop)
  qed
  ultimately show ?thesis
    using assms same_shape_trans by (auto simp: ul_moves_def)
qed

lemma ul_step_trans: "ul_moves w w' \<Longrightarrow> ul_step w' w'' \<Longrightarrow> ul_step w w''"
  using ul_moves_trans by (auto simp: ul_step_def)

lemma ul_moves_same:
  assumes "same_shape w w'" "same_fifos w w'" "skbs w' = skbs w"
    "length (ni_interfaces (bus w)) = NETDRV_MAX_NUM_DEVICES"
  shows "ul_moves w w'"
proof -
  have q: "qlist w' i = qlist w i" if "i < NETDRV_MAX_NUM_DEVICES" for i
    using same_fifos_nth(4)[OF assms(2), of i] that assms(4) by simp
  then have "owned w' = owned w" by (simp add: owned_def)
  then show ?thesis
    using assms q same_fifos_nth(2)[OF assms(2)] by (auto simp: ul_moves_def restrict_map_def intro!: exI[of _ 0])
qed

lemma set_drop_distinct: "distinct xs \<Longrightarrow> set xs - set (drop n xs) = set (take n xs)"
  using set_append[of "take n xs" "drop n xs"] distinct_append[of "take n xs" "drop n xs"] by auto

lemma drained_owned:
  assumes inv: "ul_base w" "i < NETDRV_MAX_NUM_DEVICES" and d: "drained i a n w w'"
  shows "owned w - owned w' = set (take n (qlist w i))"
proof -
  have l: "length (ni_interfaces (bus w)) = NETDRV_MAX_NUM_DEVICES" using inv by (simp add: ul_base_def)
  have qj: "qlist w' j = qlist w j" if "j < NETDRV_MAX_NUM_DEVICES" "j \<noteq> i" for j
    using keeps_nis_qlist[of i w w' j] that d l by (simp add: drained_def)
  have qi: "qlist w' i = drop n (qlist w i)" using d by (simp add: drained_def)
  have dist: "set (qlist w i) - set (drop n (qlist w i)) = set (take n (qlist w i))"
    using inv by (intro set_drop_distinct) (simp add: ul_base_def)
  have dis: "set (qlist w i) \<inter> set (qlist w j) = {}" if "j < NETDRV_MAX_NUM_DEVICES" "j \<noteq> i" for j
    using inv that by (auto simp: ul_base_def)
  define R where "R = (\<Union>j \<in> {..<NETDRV_MAX_NUM_DEVICES} - {i}. set (qlist w j))"
  have split: "{..<NETDRV_MAX_NUM_DEVICES} = insert i ({..<NETDRV_MAX_NUM_DEVICES} - {i})" using inv(2) by auto
  have "owned w = set (qlist w i) \<union> R" unfolding owned_def R_def by (subst split) auto
  moreover have "owned w' = set (qlist w' i) \<union> (\<Union>j \<in> {..<NETDRV_MAX_NUM_DEVICES} - {i}. set (qlist w' j))"
    unfolding owned_def by (subst split) auto
  then have "owned w' = set (drop n (qlist w i)) \<union> R" unfolding R_def using qi qj by simp
  moreover have "set (qlist w i) \<inter> R = {}" using dis by (auto simp: R_def)
  ultimately show ?thesis using dist by auto
qed

lemma drained_moves:
  assumes inv: "ul_base w" "i < NETDRV_MAX_NUM_DEVICES" and d: "drained i a n w w'"
  shows "ul_moves w w'"
proof -
  have l: "length (ni_interfaces (bus w)) = NETDRV_MAX_NUM_DEVICES" using inv by (simp add: ul_base_def)
  have "\<exists>m. qlist w' j = drop m (qlist w j)" if "j < NETDRV_MAX_NUM_DEVICES" for j
  proof (cases "j = i")
    case True
    then show ?thesis using d by (auto simp: drained_def)
  next
    case False
    then have "qlist w' j = drop 0 (qlist w j)" using keeps_nis_qlist[of i w w' j] that d l by (simp add: drained_def)
    then show ?thesis by blast
  qed
  moreover have "skbs w' = skbs w |` (- (owned w - owned w'))"
    using d drained_owned[OF inv d] by (simp add: drained_def)
  ultimately show ?thesis
    using d l by (auto simp: ul_moves_def drained_def keeps_nis_def)
qed

section \<open>The busy flags\<close>

lemma busy_masks:
  "(x OR LTE_DD_FLAG_TX_BUSY) AND LTE_DD_FLAG_TX_BUSY \<noteq> 0"
  "(x AND NOT LTE_DD_FLAG_TX_BUSY) AND LTE_DD_FLAG_TX_BUSY = 0"
  "(x OR LTE_NI_FLAG_TX_BUSY) AND LTE_NI_FLAG_TX_BUSY \<noteq> 0"
  "(x AND NOT LTE_NI_FLAG_TX_BUSY) AND LTE_NI_FLAG_TX_BUSY = 0"
  "(x OR LTE_DD_FLAG_TX_THROTTLE) AND LTE_DD_FLAG_TX_BUSY = x AND LTE_DD_FLAG_TX_BUSY"
  "(x AND NOT LTE_DD_FLAG_TX_THROTTLE) AND LTE_DD_FLAG_TX_BUSY = x AND LTE_DD_FLAG_TX_BUSY"
  by (simp_all add: bit.conj_disj_distrib2 and.assoc dd_flag_defs)

lemma busy_nonzero [simp]: "LTE_DD_FLAG_TX_BUSY \<noteq> 0" "LTE_NI_FLAG_TX_BUSY \<noteq> 0"
  by (simp_all add: dd_flag_defs)

lemma upd_flags_ok:
  assumes "i < length (ni_interfaces (bus w))"
  shows "set_tx_busy w i = Inr (upd_bus w (\<lambda>d. d\<lparr>dd_flags := dd_flags d OR LTE_DD_FLAG_TX_BUSY,
      ni_interfaces := (ni_interfaces d)[i := (ni_at w i)\<lparr>ni_flags := ni_flags (ni_at w i) OR LTE_NI_FLAG_TX_BUSY\<rparr>]\<rparr>))"
    "clear_tx_busy w i = Inr (upd_bus w (\<lambda>d. d\<lparr>dd_flags := dd_flags d AND NOT LTE_DD_FLAG_TX_BUSY,
      ni_interfaces := (ni_interfaces d)[i := (ni_at w i)\<lparr>ni_flags := ni_flags (ni_at w i) AND NOT LTE_NI_FLAG_TX_BUSY\<rparr>]\<rparr>))"
  using assms by (simp_all add: set_tx_busy_def clear_tx_busy_def upd_ni_ok)

lemma same_fifos_flags:
  assumes "i < length (ni_interfaces (bus w))" "ni_interfaces (f (bus w)) = (ni_interfaces (bus w))[i := ni]"
    "pnet ni = pnet (ni_at w i)" "h_tx_data_fifo ni = h_tx_data_fifo (ni_at w i)"
  shows "same_fifos w (upd_bus w f)"
  by (rule same_fifos_upd_bus) (simp add: assms map_update list_update_same_conv)

section \<open>Submitting a transfer\<close>

lemma ul_base_length: "ul_base w \<Longrightarrow> length (ni_interfaces (bus w)) = NETDRV_MAX_NUM_DEVICES"
  by (simp add: ul_base_def)

lemma ul_inv_idle: "ul_base w \<Longrightarrow> \<not> tx_busy (bus w) \<Longrightarrow> ul_inv w"
  by (simp add: ul_inv_def)

lemma ul_inv_transfer:
  "ul_base w \<Longrightarrow> i < NETDRV_MAX_NUM_DEVICES \<Longrightarrow> pnet (ni_at w i) \<noteq> None \<Longrightarrow>
     ni_flags (ni_at w i) AND LTE_NI_FLAG_TX_BUSY \<noteq> 0 \<Longrightarrow>
     in_transfer (bus w) i (qlist w i) (tx_sdma_packet_cnt (bus w)) \<Longrightarrow> ul_inv w"
  by (auto simp: ul_inv_def)

lemma ul_moves_upd_bus:
  assumes "ul_base w" "ni_interfaces (f (bus w)) = ni_interfaces (bus w)"
  shows "ul_moves w (upd_bus w f)"
  using assms by (intro ul_moves_same) (simp_all add: same_fifos_upd_bus ul_base_length)

lemma clear_tx_busy_step:
  assumes inv: "ul_base w" "i < NETDRV_MAX_NUM_DEVICES"
  shows "\<exists>w'. clear_tx_busy w i = Inr w' \<and> ul_step w w' \<and> \<not> tx_busy (bus w') \<and>
    ni_flags (ni_at w' i) AND LTE_NI_FLAG_TX_BUSY = 0 \<and> same_fifos w w' \<and> devs w' = devs w \<and>
    dd_flags (bus w') = dd_flags (bus w) AND NOT LTE_DD_FLAG_TX_BUSY"
proof -
  have l: "i < length (ni_interfaces (bus w))" using inv by (simp add: ul_base_length)
  let ?f = "\<lambda>d. d\<lparr>dd_flags := dd_flags d AND NOT LTE_DD_FLAG_TX_BUSY, ni_interfaces :=
    (ni_interfaces d)[i := (ni_at w i)\<lparr>ni_flags := ni_flags (ni_at w i) AND NOT LTE_NI_FLAG_TX_BUSY\<rparr>]\<rparr>"
  have sf: "same_fifos w (upd_bus w ?f)"
    by (rule same_fifos_flags[OF l, where ni = "(ni_at w i)\<lparr>ni_flags := ni_flags (ni_at w i) AND NOT LTE_NI_FLAG_TX_BUSY\<rparr>"])
      simp_all
  have "ul_base (upd_bus w ?f)" using ul_base_same_fifos[OF inv(1) sf] by simp
  moreover have nb: "\<not> tx_busy (bus (upd_bus w ?f))" by (simp add: tx_busy_def busy_masks)
  ultimately have "ul_inv (upd_bus w ?f)" by (rule ul_inv_idle)
  then show ?thesis
    using upd_flags_ok(2)[OF l] ul_moves_same[OF _ sf] nb inv l sf
    by (simp add: ul_step_def ul_base_length busy_masks)
qed

lemma in_transfer_le: "in_transfer d i q n \<Longrightarrow> m \<le> n \<Longrightarrow> in_transfer d i q m"
  by (auto simp: in_transfer_def)

lemma in_transfer_cong:
  "in_transfer d i q n \<Longrightarrow> tx_sdma_xfer d' = tx_sdma_xfer d \<Longrightarrow> tx_sdma_packet d' = tx_sdma_packet d \<Longrightarrow>
     in_transfer d' i q n"
  by (simp add: in_transfer_def)

text \<open>A transfer is under way: packets of interface \<open>i\<close> are in the arrays and the flags are set.\<close>

definition sending :: "'q dd_sys \<Rightarrow> nat \<Rightarrow> addr \<Rightarrow> bool" where
  "sending w i a \<longleftrightarrow> ul_base w \<and> i < NETDRV_MAX_NUM_DEVICES \<and> pnet (ni_at w i) = Some a \<and> tx_busy (bus w) \<and>
     ni_flags (ni_at w i) AND LTE_NI_FLAG_TX_BUSY \<noteq> 0 \<and>
     in_transfer (bus w) i (qlist w i) (tx_sdma_packet_cnt (bus w))"

lemma sending_inv: "sending w i a \<Longrightarrow> ul_inv w"
  by (auto simp: sending_def intro: ul_inv_transfer)

lemma ul_inv_sending: "ul_inv w \<Longrightarrow> tx_busy (bus w) \<Longrightarrow> \<exists>i a. sending w i a"
  by (auto simp: ul_inv_def sending_def)

lemma sending_upd_bus:
  assumes "sending w i a" "ni_interfaces (f (bus w)) = ni_interfaces (bus w)" "dd_valid (f (bus w)) = dd_valid (bus w)"
    "tx_sdma_xfer (f (bus w)) = tx_sdma_xfer (bus w)" "tx_sdma_packet (f (bus w)) = tx_sdma_packet (bus w)"
    "tx_sdma_packet_cnt (f (bus w)) \<le> tx_sdma_packet_cnt (bus w)" "tx_busy (f (bus w))"
  shows "sending (upd_bus w f) i a" "ul_step w (upd_bus w f)"
proof -
  have "in_transfer (bus w) i (qlist w i) (tx_sdma_packet_cnt (bus w))" using assms(1) by (simp add: sending_def)
  from in_transfer_cong[OF in_transfer_le[OF this assms(6)] assms(4,5)]
  have "in_transfer (f (bus w)) i (qlist w i) (tx_sdma_packet_cnt (f (bus w)))" .
  then show s: "sending (upd_bus w f) i a"
    using assms ul_base_upd_bus[of w f] by (simp add: sending_def qlist_upd_bus)
  show "ul_step w (upd_bus w f)"
    using sending_inv[OF s] ul_moves_upd_bus[of w f] assms(1,2) by (simp add: ul_step_def sending_def)
qed

lemma zero_tx_arrays_upd: "lte_dd_zero_tx_arrays w = upd_bus w (\<lambda>d. bus (lte_dd_zero_tx_arrays (w\<lparr>bus := d\<rparr>)))"
  by (simp add: lte_dd_zero_tx_arrays_def upd_bus_def)

lemma zero_tx_arrays_keeps [simp]:
  "ni_interfaces (bus (lte_dd_zero_tx_arrays w)) = ni_interfaces (bus w)"
  "dd_valid (bus (lte_dd_zero_tx_arrays w)) = dd_valid (bus w)"
  "dd_flags (bus (lte_dd_zero_tx_arrays w)) = dd_flags (bus w)"
  "devs (lte_dd_zero_tx_arrays w) = devs w" "skbs (lte_dd_zero_tx_arrays w) = skbs w"
  by (simp_all add: lte_dd_zero_tx_arrays_def)

lemma zero_tx_arrays_base:
  assumes "ul_base w"
  shows "ul_base (lte_dd_zero_tx_arrays w)" "ul_moves w (lte_dd_zero_tx_arrays w)"
  using assms ul_base_upd_bus[OF assms] ul_moves_upd_bus[OF assms]
  by (subst zero_tx_arrays_upd; simp)+

lemma tx_dropped_step:
  assumes s: "sending w i a" and n: "tx_sdma_xfer_cnt (bus w) \<le> length (qlist w i)"
  shows "\<exists>w'. rbind (tx_drop_loop i (tx_sdma_xfer_cnt (bus w)) w) (\<lambda>w1. clear_tx_busy (lte_dd_zero_tx_arrays w1) i) = Inr w' \<and>
    ul_step w w' \<and> \<not> tx_busy (bus w') \<and> dd_flags (bus w') = dd_flags (bus w) AND NOT LTE_DD_FLAG_TX_BUSY \<and>
    qlist w' i = drop (tx_sdma_xfer_cnt (bus w)) (qlist w i) \<and>
    dev_after w w' a (tx_sdma_xfer_cnt (bus w)) (length (qlist w i))"
proof -
  have inv: "ul_base w" "i < NETDRV_MAX_NUM_DEVICES" "pnet (ni_at w i) = Some a" using s by (simp_all add: sending_def)
  obtain w1 where w1: "tx_drop_loop i (tx_sdma_xfer_cnt (bus w)) w = Inr w1" "drained i a (tx_sdma_xfer_cnt (bus w)) w w1"
    using tx_drop_loop_drains[OF inv n] by auto
  have b1: "ul_base w1" using w1(2) by (simp add: drained_def)
  obtain w' where w': "clear_tx_busy (lte_dd_zero_tx_arrays w1) i = Inr w'" "ul_step (lte_dd_zero_tx_arrays w1) w'"
    "\<not> tx_busy (bus w')" "same_fifos (lte_dd_zero_tx_arrays w1) w'" "devs w' = devs w1"
    "dd_flags (bus w') = dd_flags (bus w1) AND NOT LTE_DD_FLAG_TX_BUSY"
    using clear_tx_busy_step[OF zero_tx_arrays_base(1)[OF b1] inv(2)] by auto
  have "qlist w' i = qlist (lte_dd_zero_tx_arrays w1) i"
    using same_fifos_nth(4)[OF w'(4), of i] ul_base_length[OF b1] inv(2) by simp
  then have q: "qlist w' i = drop (tx_sdma_xfer_cnt (bus w)) (qlist w i)"
    using w1(2) by (simp add: drained_def qlist_def)
  have fl: "dd_flags (bus w1) = dd_flags (bus w)" and da: "dev_after w w' a (tx_sdma_xfer_cnt (bus w)) (length (qlist w i))"
    using w1(2) w'(5) by (simp_all add: drained_def tx_core_def dev_after_def)
  have "ul_moves w (lte_dd_zero_tx_arrays w1)"
    using ul_moves_trans[OF drained_moves[OF inv(1,2) w1(2)] zero_tx_arrays_base(2)[OF b1]] .
  then show ?thesis using w1(1) w'(1-3,6) ul_step_trans q fl da by auto
qed

lemma tx_full_step:
  assumes s: "sending w i a"
  shows "\<exists>w'. tx_submitted e i IPC_4GHIF_STATUS_RESOURCES_FULL acc w = Inr w' \<and> ul_step w w'"
proof -
  let ?cut = "unat acc < tx_sdma_packet_cnt (bus w)"
  let ?f = "\<lambda>d. (if ?cut then d\<lparr>tx_sdma_packet_cnt := unat acc, tx_sdma_xfer_cnt := unat acc\<rparr> else d)"
  let ?g = "\<lambda>d. (?f d)\<lparr>tx_packet_cnt := tx_packet_cnt (?f d) + ucast acc,
     dd_flags := dd_flags (?f d) OR LTE_DD_FLAG_TX_THROTTLE,
     tx_throttle_close_cnt := tx_throttle_close_cnt (?f d) + 1, tx_data_throttle_start_time := jiffies e\<rparr>"
  have eq: "tx_submitted e i IPC_4GHIF_STATUS_RESOURCES_FULL acc w =
    (if acc = 0 then clear_tx_busy (upd_bus w ?g) i else Inr (upd_bus w ?g))"
    by (simp add: tx_submitted_def Let_def)
  have "tx_busy (?g (bus w))" using s by (simp add: sending_def tx_busy_def busy_masks)
  then have st: "sending (upd_bus w ?g) i a" "ul_step w (upd_bus w ?g)"
    by (intro sending_upd_bus[OF s]; simp)+
  show ?thesis
  proof (cases "acc = 0")
    case False
    then show ?thesis using eq st(2) by simp
  next
    case True
    have "ul_base (upd_bus w ?g)" "i < NETDRV_MAX_NUM_DEVICES" using st(1) by (simp_all only: sending_def)
    from clear_tx_busy_step[OF this] obtain w' where "clear_tx_busy (upd_bus w ?g) i = Inr w'" "ul_step (upd_bus w ?g) w'"
      by auto
    then show ?thesis using eq True st(2) ul_step_trans by (auto simp: ul_step_def)
  qed
qed

lemma tx_submitted_step:
  assumes s: "sending w i a" and n: "tx_sdma_xfer_cnt (bus w) \<le> length (qlist w i)"
  shows "\<exists>w'. tx_submitted e i st acc w = Inr w' \<and> ul_step w w'"
proof -
  have self: "ul_step w w"
    using sending_inv[OF s] ul_moves_same[of w w] s by (simp add: ul_step_def same_fifos_def sending_def ul_base_length)
  have ok: "ul_step w (upd_bus w (\<lambda>d. d\<lparr>tx_packet_cnt := tx_packet_cnt d + ucast acc\<rparr>))"
    using s by (intro sending_upd_bus(2)[OF s]) (simp_all add: sending_def tx_busy_def)
  show ?thesis
    using self ok tx_full_step[OF s, of e acc] tx_dropped_step[OF s n] by (cases st) (auto simp: tx_submitted_def)
qed

section \<open>The transmit routine\<close>

text \<open>The busy flags are set for interface \<open>i\<close> and the transfer array is cleared.\<close>

definition tx_cleared :: "dd_env \<Rightarrow> nat \<Rightarrow> 'q dd_sys \<Rightarrow> 'q dd_sys" where
  "tx_cleared e i w = upd_bus w (\<lambda>d. d\<lparr>dd_flags := dd_flags d OR LTE_DD_FLAG_TX_BUSY,
     ni_interfaces := (ni_interfaces d)[i := (ni_at w i)\<lparr>ni_flags := ni_flags (ni_at w i) OR LTE_NI_FLAG_TX_BUSY\<rparr>],
     tx_data_busy_start_time := jiffies e, tx_sdma_xfer_cnt := 0,
     tx_sdma_xfer := replicate IPC_4GHIF_MAX_NB_UL_FRAMES zero_xfer\<rparr>)"

lemma tx_cleared_props:
  assumes inv: "ul_base w" "i < NETDRV_MAX_NUM_DEVICES"
  shows "ul_base (tx_cleared e i w)" "ul_moves w (tx_cleared e i w)" "qlist (tx_cleared e i w) j = qlist w j"
    "pnet (ni_at (tx_cleared e i w) i) = pnet (ni_at w i)"
    "ni_flags (ni_at (tx_cleared e i w) i) AND LTE_NI_FLAG_TX_BUSY \<noteq> 0" "tx_busy (bus (tx_cleared e i w))"
    "ul_xfer (tx_cleared e i w) i k = ul_xfer w i k"
proof -
  have l: "i < length (ni_interfaces (bus w))" using inv by (simp add: ul_base_length)
  have sf: "same_fifos w (tx_cleared e i w)" unfolding tx_cleared_def
    by (rule same_fifos_flags[OF l, where ni = "(ni_at w i)\<lparr>ni_flags := ni_flags (ni_at w i) OR LTE_NI_FLAG_TX_BUSY\<rparr>"])
      simp_all
  show "ul_base (tx_cleared e i w)" using ul_base_same_fifos[OF inv(1) sf] by (simp add: tx_cleared_def)
  show "ul_moves w (tx_cleared e i w)"
    using ul_moves_same[OF _ sf] inv(1) by (simp add: tx_cleared_def ul_base_length)
  show q: "qlist (tx_cleared e i w) j = qlist w j" for j
    using l by (cases "j = i") (simp_all add: qlist_def tx_cleared_def)
  show "pnet (ni_at (tx_cleared e i w) i) = pnet (ni_at w i)"
    "ni_flags (ni_at (tx_cleared e i w) i) AND LTE_NI_FLAG_TX_BUSY \<noteq> 0" "tx_busy (bus (tx_cleared e i w))"
    using l by (simp_all add: tx_cleared_def tx_busy_def busy_masks)
  show "ul_xfer (tx_cleared e i w) i k = ul_xfer w i k" by (simp add: ul_xfer_def q) (simp add: tx_cleared_def)
qed

text \<open>The state in which the transfer of \<open>n\<close> packets is submitted.\<close>

definition tx_ready :: "dd_env \<Rightarrow> nat \<Rightarrow> nat \<Rightarrow> lte_dd_sdma_xfer_t list \<Rightarrow> u32 \<times> u32 \<times> u32 \<Rightarrow> 'q dd_sys \<Rightarrow> 'q dd_sys" where
  "tx_ready e i n xs pc w = upd_bus (tx_cleared e i w) (\<lambda>d. d\<lparr>tx_sdma_xfer := xs, tx_sdma_xfer_cnt := n, tx_physaddr_cnt := pc,
     tx_data_packets_multi_avail := (if 1 < n then tx_data_packets_multi_avail d + 1 else tx_data_packets_multi_avail d),
     tx_sdma_packet_cnt := n,
     tx_sdma_packet := map Some [0..<n] @ replicate (IPC_4GHIF_MAX_NB_UL_FRAMES - n) None,
     tx_kt := (tx_kt d)\<lparr>kt_submit := ktime_now e\<rparr>,
     tx_data_packets_sdma_submit := tx_data_packets_sdma_submit d + 1\<rparr>)"

lemma tx_ready_sending:
  assumes inv: "ul_base w" "i < NETDRV_MAX_NUM_DEVICES" "pnet (ni_at w i) = Some a"
    and n: "n \<le> length (qlist w i)" "n \<le> IPC_4GHIF_MAX_NB_UL_FRAMES"
    and xs: "length xs = IPC_4GHIF_MAX_NB_UL_FRAMES" "\<forall>k < n. xs ! k = ul_xfer w i k"
  shows "sending (tx_ready e i n xs pc w) i a" "ul_moves w (tx_ready e i n xs pc w)"
    "tx_sdma_xfer_cnt (bus (tx_ready e i n xs pc w)) = n" "qlist (tx_ready e i n xs pc w) j = qlist w j"
proof -
  note c = tx_cleared_props[OF inv(1,2), of e]
  have b: "ul_base (tx_ready e i n xs pc w)" "ul_moves (tx_cleared e i w) (tx_ready e i n xs pc w)"
    unfolding tx_ready_def using ul_base_upd_bus[OF c(1)] ul_moves_upd_bus[OF c(1)] by simp_all
  show "ul_moves w (tx_ready e i n xs pc w)" by (rule ul_moves_trans[OF c(2) b(2)])
  show q: "qlist (tx_ready e i n xs pc w) j = qlist w j" for j
    using c(3)[of j] by (simp add: tx_ready_def qlist_upd_bus)
  show "tx_sdma_xfer_cnt (bus (tx_ready e i n xs pc w)) = n" by (simp add: tx_ready_def)
  have "in_transfer (bus (tx_ready e i n xs pc w)) i (qlist w i) n"
    using n xs by (auto simp: in_transfer_def tx_ready_def nth_append ul_xfer_def Let_def)
  then show "sending (tx_ready e i n xs pc w) i a"
    using b(1) c(4-6) inv(2,3) q by (simp add: sending_def tx_ready_def tx_busy_def)
qed

lemma sdma_tx_prepares:
  assumes inv: "ul_base w" and idle: "dd_flags (bus w) AND LTE_DD_FLAG_TX_BUSY = 0" "dd_flags (bus w) AND LTE_DD_FLAG_TX_THROTTLE = 0"
    and look: "lte_dd_ni_interface_fifo_lookup w = Inr (Some (i, num), w0)" "w0 = upd_bus w (\<lambda>d. d\<lparr>running_index := ri\<rparr>)"
    and g: "good_choice w (i, num)" and n: "n = min (unat num) IPC_4GHIF_MAX_NB_UL_FRAMES"
  shows "\<exists>xs pc. length xs = IPC_4GHIF_MAX_NB_UL_FRAMES \<and> (\<forall>k < n. xs ! k = ul_xfer w i k) \<and>
    lte_dd_sdma_tx e w = (case submit_ul e (map (sdma \<circ> ul_xfer w i) [0..<n]) of (st, acc) \<Rightarrow>
      rbind (tx_submitted e i st acc (tx_ready e i n xs pc w0)) (\<lambda>w5. Inr (AMP_ERROR_NONE, w5)))"
proof -
  obtain a where i: "i < NETDRV_MAX_NUM_DEVICES" "pnet (ni_at w i) = Some a" and num: "unat num \<le> length (qlist w i)"
    using g by (auto simp: good_choice_def)
  have b0: "ul_base w0" using ul_base_upd_bus[OF inv] look(2) by simp
  have w0: "ni_interfaces (bus w0) = ni_interfaces (bus w)" "qlist w0 j = qlist w j" "ul_xfer w0 i k = ul_xfer w i k" for j k
    by (simp_all add: look(2) qlist_upd_bus ul_xfer_upd_bus)
  note c = tx_cleared_props[OF b0 i(1), of e]
  have l: "i < length (ni_interfaces (bus w0))" using b0 i(1) by (simp add: ul_base_length)
  have len: "length (tx_sdma_xfer (bus (tx_cleared e i w0))) = IPC_4GHIF_MAX_NB_UL_FRAMES"
    and cnt: "tx_sdma_xfer_cnt (bus (tx_cleared e i w0)) = 0" by (simp_all add: tx_cleared_def)
  have pn: "pnet (ni_at (tx_cleared e i w0) i) = Some a" using c(4) i(2) w0(1) by simp
  have nq: "n \<le> length (qlist (tx_cleared e i w0) i)" "n \<le> IPC_4GHIF_MAX_NB_UL_FRAMES" using num n c(3) w0(2) by simp_all
  obtain xs pc where xs: "tx_build e i [0..<n] None (tx_cleared e i w0) =
      Inr (True, upd_bus (tx_cleared e i w0) (\<lambda>d. d\<lparr>tx_sdma_xfer := xs, tx_sdma_xfer_cnt := n, tx_physaddr_cnt := pc\<rparr>))"
    "length xs = IPC_4GHIF_MAX_NB_UL_FRAMES" "\<forall>k < n. xs ! k = ul_xfer w i k"
    using tx_build_fills[OF c(1) i(1) pn cnt _ nq len, of e None] c(7) w0(3) by auto
  have take: "map sdma (take n xs) = map (sdma \<circ> ul_xfer w i) [0..<n]"
    using xs(2,3) nq(2) by (intro nth_equalityI) auto
  have set: "set_tx_busy w0 i = Inr w1 \<Longrightarrow> upd_bus w1 (\<lambda>d. d\<lparr>tx_data_busy_start_time := jiffies e, tx_sdma_xfer_cnt := 0,
      tx_sdma_xfer := replicate IPC_4GHIF_MAX_NB_UL_FRAMES zero_xfer\<rparr>) = tx_cleared e i w0" for w1
    using upd_flags_ok(1)[OF l] by (auto simp: tx_cleared_def)
  obtain w1 where w1: "set_tx_busy w0 i = Inr w1" using upd_flags_ok(1)[OF l] by blast
  have "lte_dd_sdma_tx e w = (case submit_ul e (map (sdma \<circ> ul_xfer w i) [0..<n]) of (st, acc) \<Rightarrow>
      rbind (tx_submitted e i st acc (tx_ready e i n xs pc w0)) (\<lambda>w5. Inr (AMP_ERROR_NONE, w5)))"
    using idle look(1) w1 set[OF w1] xs(1) n[symmetric] take
    by (simp add: lte_dd_sdma_tx_def tx_ready_def Let_def cong: if_cong)
  then show ?thesis using xs(2,3) by blast
qed

text \<open>State \<open>r\<close> is \<open>w\<close> with the first \<open>n\<close> packets of interface \<open>i\<close> ready for submission.\<close>

definition tx_prepared :: "nat \<Rightarrow> addr \<Rightarrow> nat \<Rightarrow> 'q dd_sys \<Rightarrow> 'q dd_sys \<Rightarrow> bool" where
  "tx_prepared i a n w r \<longleftrightarrow> sending r i a \<and> ul_moves w r \<and> tx_sdma_xfer_cnt (bus r) = n \<and> tx_sdma_packet_cnt (bus r) = n \<and>
     (\<forall>j. qlist r j = qlist w j) \<and> 0 < n \<and> n \<le> length (qlist w i) \<and> n \<le> IPC_4GHIF_MAX_NB_UL_FRAMES \<and>
     devs r = devs w \<and> skbs r = skbs w \<and> dd_flags (bus r) = dd_flags (bus w) OR LTE_DD_FLAG_TX_BUSY \<and>
     tx_packet_cnt (bus r) = tx_packet_cnt (bus w) \<and>
     (\<forall>k < n. tx_sdma_xfer (bus r) ! k = ul_xfer w i k)"

lemma sdma_tx_prepared:
  assumes inv: "ul_base w" and idle: "dd_flags (bus w) AND LTE_DD_FLAG_TX_BUSY = 0" "dd_flags (bus w) AND LTE_DD_FLAG_TX_THROTTLE = 0"
    and look: "lte_dd_ni_interface_fifo_lookup w = Inr (Some (i, num), upd_bus w (\<lambda>d. d\<lparr>running_index := ri\<rparr>))"
    and g: "good_choice w (i, num)"
  shows "\<exists>a n r. tx_prepared i a n w r \<and>
    lte_dd_sdma_tx e w = (case submit_ul e (map (sdma \<circ> ul_xfer w i) [0..<n]) of (st, acc) \<Rightarrow>
      rbind (tx_submitted e i st acc r) (\<lambda>w5. Inr (AMP_ERROR_NONE, w5)))"
proof -
  let ?w0 = "upd_bus w (\<lambda>d. d\<lparr>running_index := ri\<rparr>)"
  define n where "n = min (unat num) IPC_4GHIF_MAX_NB_UL_FRAMES"
  obtain a where i: "i < NETDRV_MAX_NUM_DEVICES" "pnet (ni_at ?w0 i) = Some a" and nq: "0 < n" "n \<le> length (qlist ?w0 i)"
    "n \<le> IPC_4GHIF_MAX_NB_UL_FRAMES"
    using g by (auto simp: good_choice_def n_def qlist_upd_bus IPC_4GHIF_MAX_NB_UL_FRAMES_def)
  have b0: "ul_base ?w0" "ul_moves w ?w0" using inv by (simp_all add: ul_base_upd_bus ul_moves_upd_bus)
  obtain xs pc where p: "length xs = IPC_4GHIF_MAX_NB_UL_FRAMES" "\<forall>k < n. xs ! k = ul_xfer w i k"
    "lte_dd_sdma_tx e w = (case submit_ul e (map (sdma \<circ> ul_xfer w i) [0..<n]) of (st, acc) \<Rightarrow>
      rbind (tx_submitted e i st acc (tx_ready e i n xs pc ?w0)) (\<lambda>w5. Inr (AMP_ERROR_NONE, w5)))"
    using sdma_tx_prepares[OF inv idle look refl g n_def, of e] by blast
  have xs: "\<forall>k < n. xs ! k = ul_xfer ?w0 i k" using p(2) by (simp add: ul_xfer_upd_bus)
  note rdy = tx_ready_sending[OF b0(1) i nq(2,3) p(1) xs, of e pc]
  have "qlist (tx_ready e i n xs pc ?w0) j = qlist w j" for j using rdy(4)[of j] by (simp add: qlist_upd_bus)
  then have "tx_prepared i a n w (tx_ready e i n xs pc ?w0)"
    using rdy(1,3) ul_moves_trans[OF b0(2) rdy(2)] nq p(2) unfolding tx_prepared_def
    by (simp add: qlist_upd_bus) (simp add: tx_ready_def tx_cleared_def)
  then show ?thesis using p(3) by blast
qed

lemma tx_prepared_submitted:
  assumes "tx_prepared i a n w r"
  shows "\<exists>w'. tx_submitted e i st acc r = Inr w' \<and> ul_step w w'"
proof -
  have "sending r i a" "tx_sdma_xfer_cnt (bus r) \<le> length (qlist r i)" "ul_moves w r"
    using assms by (simp_all add: tx_prepared_def)
  then show ?thesis using tx_submitted_step[of r i a e st acc] ul_step_trans by blast
qed

lemma sdma_tx_step:
  assumes inv: "ul_inv w"
  shows "\<exists>rc w'. lte_dd_sdma_tx e w = Inr (rc, w') \<and> ul_step w w'"
proof (cases "dd_flags (bus w) AND LTE_DD_FLAG_TX_BUSY \<noteq> 0 \<or> dd_flags (bus w) AND LTE_DD_FLAG_TX_THROTTLE \<noteq> 0")
  case True
  then show ?thesis
    using inv ul_moves_same[of w w] by (simp add: lte_dd_sdma_tx_def ul_step_def same_fifos_def ul_inv_def ul_base_length)
next
  case False
  have base: "ul_base w" using inv by (simp add: ul_inv_def)
  obtain r ri where look: "lte_dd_ni_interface_fifo_lookup w = Inr (r, upd_bus w (\<lambda>d. d\<lparr>running_index := ri\<rparr>))"
    "\<forall>c. r = Some c \<longrightarrow> good_choice w c"
    using fifo_lookup_choice[OF base] by blast
  let ?w0 = "upd_bus w (\<lambda>d. d\<lparr>running_index := ri\<rparr>)"
  show ?thesis
  proof (cases r)
    case None
    have "ul_base ?w0" "ul_moves w ?w0" "\<not> tx_busy (bus ?w0)"
      using base False by (simp_all add: ul_base_upd_bus ul_moves_upd_bus tx_busy_def)
    then show ?thesis using False look(1) None ul_inv_idle[of ?w0] by (simp add: lte_dd_sdma_tx_def ul_step_def)
  next
    case (Some c)
    obtain i num where c: "c = (i, num)" by (cases c)
    obtain a n r' where p: "tx_prepared i a n w r'"
      "lte_dd_sdma_tx e w = (case submit_ul e (map (sdma \<circ> ul_xfer w i) [0..<n]) of (st, acc) \<Rightarrow>
        rbind (tx_submitted e i st acc r') (\<lambda>w5. Inr (AMP_ERROR_NONE, w5)))"
      using sdma_tx_prepared[OF base _ _ _, of i num ri e] False look Some c by auto
    obtain st acc where sub: "submit_ul e (map (sdma \<circ> ul_xfer w i) [0..<n]) = (st, acc)"
      by (cases "submit_ul e (map (sdma \<circ> ul_xfer w i) [0..<n])")
    obtain w' where "tx_submitted e i st acc r' = Inr w'" "ul_step w w'" using tx_prepared_submitted[OF p(1)] by blast
    then show ?thesis using p(2) sub by auto
  qed
qed

end
