(* ===== verification/Uplink.thy ===== *)
theory Uplink
  imports DataDriverTx
begin

text \<open>
  The entries of the uplink: the transmit entry and the control entry of the bus interface, the
  callbacks of the baseband interface and the uplink half of the watchdog. But for flushing an
  interface, which \<open>DdIface\<close> covers, each keeps the invariant and never faults; the callers of the bus interface rely on the laws of the locale
  \<open>uplink_bus\<close>.
\<close>

section \<open>Queueing a packet\<close>

lemma find_pnet_open:
  assumes inv: "ul_base w" "i < NETDRV_MAX_NUM_DEVICES" and pn: "pnet (ni_at w i) = Some a"
  shows "lte_dd_ni_interface_find_pnet w (Some a) = Some i"
proof -
  have l: "length (ni_interfaces (bus w)) = NETDRV_MAX_NUM_DEVICES" using inv(1) by (rule ul_base_length)
  have "find_slot (\<lambda>ni. pnet ni = Some a) (ni_interfaces (bus w)) \<noteq> None"
    using nth_mem[of i "ni_interfaces (bus w)"] inv(2) l pn by (auto simp: find_slot_None)
  then obtain j where j: "find_slot (\<lambda>ni. pnet ni = Some a) (ni_interfaces (bus w)) = Some j" by auto
  then have "j < NETDRV_MAX_NUM_DEVICES" "pnet (ni_at w j) = Some a" using find_slot_Some[OF j] l by simp_all
  then have "dev_ok w a j" "dev_ok w a i" using ul_base_fifo(3) inv pn by blast+
  then have "j = i" by (auto simp: dev_ok_def)
  then show ?thesis using j by (simp add: lte_dd_ni_interface_find_pnet_def)
qed

text \<open>Packet \<open>s\<close> was appended to the FIFO of interface \<open>i\<close> and nothing else was moved.\<close>

definition enqueued :: "nat \<Rightarrow> addr \<Rightarrow> 'q dd_sys \<Rightarrow> 'q dd_sys \<Rightarrow> bool" where
  "enqueued i s w w' \<longleftrightarrow> ul_inv w' \<and> same_shape w w' \<and> skbs w' = skbs w \<and> devs w' = devs w \<and> bus_ifs w' = bus_ifs w \<and>
     (\<forall>j < NETDRV_MAX_NUM_DEVICES. pnet (ni_at w' j) = pnet (ni_at w j)) \<and>
     qlist w' i = qlist w i @ [s] \<and> (\<forall>j < NETDRV_MAX_NUM_DEVICES. j \<noteq> i \<longrightarrow> qlist w' j = qlist w j)"

lemma enqueued_owned:
  assumes "enqueued i s w w'" "i < NETDRV_MAX_NUM_DEVICES"
  shows "owned w' = insert s (owned w)"
proof -
  have "set (qlist w' j) = (if j = i then insert s (set (qlist w j)) else set (qlist w j))"
    if "j < NETDRV_MAX_NUM_DEVICES" for j
    using assms that by (auto simp: enqueued_def)
  then show ?thesis using assms(2) by (auto simp: owned_def split: if_splits)
qed

lemma enqueue_inv:
  assumes inv: "ul_inv w" and i: "i < NETDRV_MAX_NUM_DEVICES" "pnet (ni_at w i) = Some a"
    and s: "skb_ok w s" "s \<notin> owned w"
    and f: "fifo_inv f" "fifo_cap f = 64" "fifo_list f = qlist w i @ [s]"
    and ni: "pnet ni = pnet (ni_at w i)" "h_tx_data_fifo ni = f" "ni_flags ni = ni_flags (ni_at w i)"
  shows "enqueued i s w (upd_bus w (\<lambda>d. d\<lparr>ni_interfaces := (ni_interfaces d)[i := ni]\<rparr>))"
proof -
  let ?w = "upd_bus w (\<lambda>d. d\<lparr>ni_interfaces := (ni_interfaces d)[i := ni]\<rparr>)"
  have base: "ul_base w" using inv by (simp add: ul_inv_def)
  note l = ul_base_length[OF base]
  have at: "ni_at ?w j = (if j = i then ni else ni_at w j)" if "j < NETDRV_MAX_NUM_DEVICES" for j
    using l that by simp
  have q: "qlist ?w j = (if j = i then qlist w i @ [s] else qlist w j)" if "j < NETDRV_MAX_NUM_DEVICES" for j
    using at[OF that] f(3) ni(2) by (simp add: qlist_def)
  have out: "s \<notin> set (qlist w j)" if "j < NETDRV_MAX_NUM_DEVICES" for j
    using s(2) that by (auto simp: owned_def)
  have ok: "skb_ok ?w = skb_ok w" by (simp add: skb_ok_def fun_eq_iff)
  have sk: "skb_ok ?w t" if "t \<in> owned ?w" for t
    using that q s(1) base by (auto simp: owned_def ul_base_def ok split: if_splits)
  have base': "ul_base ?w"
  proof (rule ul_base_step[OF base _ _ _ i(1)])
    show "distinct (qlist ?w i)" using q[OF i(1)] out[OF i(1)] base i(1) by (simp add: ul_base_def)
    show "set (qlist ?w i) \<inter> set (qlist w j) = {}" if "j < NETDRV_MAX_NUM_DEVICES" "j \<noteq> i" for j
      using q[OF i(1)] out[OF that(1)] base i(1) that by (auto simp: ul_base_def)
  qed (use at i l ni f sk in \<open>simp_all\<close>)
  have "ul_inv ?w"
  proof (cases "tx_busy (bus w)")
    case False
    then show ?thesis using ul_inv_idle[OF base'] by (simp add: tx_busy_def)
  next
    case True
    then obtain k b where k: "sending w k b" using ul_inv_sending[OF inv] by blast
    then have k8: "k < NETDRV_MAX_NUM_DEVICES" by (simp add: sending_def)
    have "in_transfer (bus ?w) k (qlist ?w k) (tx_sdma_packet_cnt (bus ?w))"
      using k q[OF k8] by (auto simp: sending_def in_transfer_def nth_append)
    then show ?thesis
      using ul_inv_transfer[OF base' k8] at[OF k8] ni k by (auto simp: sending_def split: if_splits)
  qed
  then show ?thesis using q at ni(1) i(1) by (simp add: enqueued_def)
qed

section \<open>The transmit entry of the bus interface\<close>

lemma private_valid_ok: "ul_base w \<Longrightarrow> pdev \<noteq> None \<Longrightarrow> lte_dd_private_valid w pdev = AMP_ERROR_NONE"
  by (auto simp: lte_dd_private_valid_def ul_base_def)

lemma tx_data_start_queues:
  assumes inv: "ul_inv w" and i: "i < NETDRV_MAX_NUM_DEVICES" "pnet (ni_at w i) = Some a" "pdev \<noteq> None"
    and room: "length (qlist w i) < 64" and s: "skb_ok w s" "s \<notin> owned w"
  shows "\<exists>w1 w'. lte_dd_tx_data_start e a pdev s w = Inr (AMP_ERROR_NONE, w') \<and> enqueued i s w w1 \<and> ul_step w1 w'"
proof -
  have base: "ul_base w" using inv by (simp add: ul_inv_def)
  note l = ul_base_length[OF base] and ff = ul_base_fifo[OF base i(1,2)]
  note valid = private_valid_ok[OF base i(3)]
  obtain f where f: "ptr_fifo_insert (h_tx_data_fifo (ni_at w i)) s = Inr (0, f)" "fifo_inv f" "fifo_cap f = 64"
    "fifo_list f = qlist w i @ [s]"
    using ptr_ring.ins_room[OF ff(1), of s] ff(2) room by (auto simp: qlist_def)
  let ?ni = "(ni_at w i)\<lparr>h_tx_data_fifo := f, tx_data_packet_write_fifo_cnt := tx_data_packet_write_fifo_cnt (ni_at w i) + 1\<rparr>"
  let ?w1 = "upd_bus w (\<lambda>d. d\<lparr>ni_interfaces := (ni_interfaces d)[i := ?ni]\<rparr>)"
  have enq: "enqueued i s w ?w1" by (rule enqueue_inv[OF inv i(1,2) s f(2-4)]) simp_all
  obtain rc w' where w': "lte_dd_sdma_tx e ?w1 = Inr (rc, w')" "ul_step ?w1 w'"
    using sdma_tx_step[of ?w1 e] enq by (auto simp: enqueued_def)
  have "lte_dd_tx_data_start e a pdev s w = Inr (AMP_ERROR_NONE, w')"
    using valid find_pnet_open[OF base i(1,2)] f(1) w'(1) i(1) l
    by (simp add: lte_dd_tx_data_start_def get_ni_def upd_ni_ok)
  then show ?thesis using enq w'(2) by blast
qed

lemma upd_bus_same: "f (bus w) = bus w \<Longrightarrow> upd_bus w f = w"
  by (simp add: upd_bus_def)

lemma tx_data_start_refuses:
  assumes inv: "ul_inv w" and i: "i < NETDRV_MAX_NUM_DEVICES" "pnet (ni_at w i) = Some a" "pdev \<noteq> None"
    and full: "length (qlist w i) = 64"
  shows "lte_dd_tx_data_start e a pdev s w = Inr (AMP_ERROR_LTEDD_FIFO_INSERT, w)"
proof -
  have base: "ul_base w" using inv by (simp add: ul_inv_def)
  note l = ul_base_length[OF base] and ff = ul_base_fifo[OF base i(1,2)]
  have "ptr_fifo_insert (h_tx_data_fifo (ni_at w i)) s = Inr (- 5, h_tx_data_fifo (ni_at w i))"
    using ptr_ring.ins_full[OF ff(1), of s] ff(2) full by (simp add: qlist_def)
  then show ?thesis
    using private_valid_ok[OF base i(3)] find_pnet_open[OF base i(1,2)] i(1) l
    by (simp add: lte_dd_tx_data_start_def get_ni_def upd_ni_ok upd_bus_same)
qed

section \<open>The control entry\<close>

lemma bus_frame_same_fifos:
  assumes "bus_frame (bus w) (bus w')"
  shows "same_fifos w w'"
proof -
  obtain nis where n: "bus w' = (bus w)\<lparr>ni_interfaces := nis\<rparr>" "map ni_core nis = map ni_core (ni_interfaces (bus w))"
    using assms unfolding bus_frame_def by blast
  have "map (\<lambda>ni. (pnet ni, h_tx_data_fifo ni)) nis = map (\<lambda>ni. (pnet ni, h_tx_data_fifo ni)) (ni_interfaces (bus w))"
    using arg_cong[OF n(2), of "map (\<lambda>(p, q, f). (p, q))"] by (simp only: map_map comp_def ni_core_def case_prod_conv)
  moreover have "ni_interfaces (bus w') = nis" using n(1) by simp
  ultimately show ?thesis unfolding same_fifos_def by (simp only:)
qed

lemma bus_frame_inv:
  assumes inv: "ul_inv w" and f: "bus_frame (bus w) (bus w')" and sh: "same_shape w w'" and sk: "skbs w' = skbs w"
  shows "ul_step w w'"
proof -
  have base: "ul_base w" using inv by (simp add: ul_inv_def)
  note l = ul_base_length[OF base] and tc = bus_frame_core[OF f] and sf = bus_frame_same_fifos[OF f]
  have "ul_base w'" using ul_base_same_fifos[OF base sf sh sk] tc by (simp add: tx_core_def)
  moreover have "ni_flags (ni_at w' i) = ni_flags (ni_at w i)" "pnet (ni_at w' i) = pnet (ni_at w i)" "qlist w' i = qlist w i"
    if "i < NETDRV_MAX_NUM_DEVICES" for i
    using keeps_nis_frame(1)[OF f, of i] same_fifos_nth(2,4)[OF sf, of i] that l by (simp_all add: keeps_nis_def)
  ultimately have "ul_inv w'"
    using inv tc by (auto simp: ul_inv_def tx_busy_def tx_core_def in_transfer_def)
  then show ?thesis using ul_moves_same[OF sh sf sk l] by (simp add: ul_step_def)
qed

lemma ul_step_refl: "ul_inv w \<Longrightarrow> ul_step w w"
  by (rule bus_frame_inv) simp_all

lemma ul_step_compose: "ul_step w w' \<Longrightarrow> ul_step w' w'' \<Longrightarrow> ul_step w w''"
  using ul_step_trans by (auto simp: ul_step_def)

lemma bus_control_step:
  assumes inv: "ul_inv w" and cmd: "cmd \<noteq> NETDRV_BUS_CONTROL_FLUSH"
  shows "\<exists>rc w'. lte_dd_bus_control e a pdev cmd c w = Inr (rc, w') \<and> ul_step w w'"
proof -
  have log: "\<exists>w'. lte_dd_log_netqueue_event w a c = Inr w' \<and> ul_step w w'"
    using log_event_frame[of w a c] bus_frame_inv[OF inv] by blast
  have drain: "\<exists>rc w'. rbind (upd_ni w i (\<lambda>ni. ni\<lparr>tx_drain_cnt := tx_drain_cnt ni + 1\<rparr>)) (\<lambda>w1.
      rbind (lte_dd_sdma_tx e w1) (\<lambda>(_, w2). Inr (AMP_ERROR_NONE, w2))) = Inr (rc, w') \<and> ul_step w w'"
    if "lte_dd_ni_interface_find_pnet w (Some a) = Some i" for i
  proof -
    have i: "i < length (ni_interfaces (bus w))"
      using that by (auto simp: lte_dd_ni_interface_find_pnet_def dest: find_slot_Some)
    let ?w1 = "upd_bus w (\<lambda>d. d\<lparr>ni_interfaces := (ni_interfaces d)[i := (ni_at w i)\<lparr>tx_drain_cnt := tx_drain_cnt (ni_at w i) + 1\<rparr>]\<rparr>)"
    have "bus_frame (bus w) (bus ?w1)" using i by (auto simp: bus_frame_def map_update_same ni_core_def)
    then have st: "ul_step w ?w1" by (intro bus_frame_inv[OF inv]) simp_all
    then obtain rc w' where "lte_dd_sdma_tx e ?w1 = Inr (rc, w')" "ul_step ?w1 w'"
      using sdma_tx_step[of ?w1 e] by (auto simp: ul_step_def)
    then show ?thesis using upd_ni_ok[OF i] ul_step_compose[OF st] by auto
  qed
  show ?thesis
    using log drain cmd ul_step_refl[OF inv]
    by (auto simp: lte_dd_bus_control_def Let_def split: option.split)
qed

text \<open>A change of the device object that does not touch the transfer and does not make it busy.\<close>

lemma flags_step:
  assumes inv: "ul_inv w" and f: "ni_interfaces (f (bus w)) = ni_interfaces (bus w)" "dd_valid (f (bus w)) = dd_valid (bus w)"
    "tx_sdma_xfer (f (bus w)) = tx_sdma_xfer (bus w)" "tx_sdma_packet (f (bus w)) = tx_sdma_packet (bus w)"
    "tx_sdma_packet_cnt (f (bus w)) = tx_sdma_packet_cnt (bus w)" "tx_busy (f (bus w)) \<Longrightarrow> tx_busy (bus w)"
  shows "ul_step w (upd_bus w f)"
proof (cases "tx_busy (f (bus w))")
  case True
  then obtain i a where s: "sending w i a" using ul_inv_sending[OF inv f(6)] by blast
  show ?thesis using sending_upd_bus(2)[of w i a f] s f True by simp
next
  case False
  have base: "ul_base w" using inv by (simp add: ul_inv_def)
  show ?thesis
    using False ul_inv_idle[of "upd_bus w f"] ul_base_upd_bus[of w f] ul_moves_upd_bus[of w f] base f(1,2)
    by (simp add: ul_step_def)
qed

section \<open>Completion of a transfer\<close>

text \<open>The \<open>n\<close> packets of the transfer of interface \<open>i\<close> are gone and the driver is idle.\<close>

definition ul_completed :: "nat \<Rightarrow> addr \<Rightarrow> nat \<Rightarrow> 'q dd_sys \<Rightarrow> 'q dd_sys \<Rightarrow> bool" where
  "ul_completed i a n w w' \<longleftrightarrow> ul_step w w' \<and> \<not> tx_busy (bus w') \<and>
     qlist w' i = drop n (qlist w i) \<and> skbs w' = skbs w |` (- set (take n (qlist w i))) \<and>
     dev_after w w' a n (length (qlist w i))"

lemma ul_completed_finish:
  assumes d: "drained i a n w1 w2" and s: "sending w1 i a" and w1: "w1 = upd_bus w f" "ni_interfaces (f (bus w)) = ni_interfaces (bus w)"
    and base: "ul_base w"
    and w3: "w3 = upd_bus (lte_dd_zero_tx_arrays w2) (\<lambda>d. d\<lparr>dd_flags := dd_flags d AND NOT LTE_DD_FLAG_TX_BUSY\<rparr>)"
    and w4: "w4 = w3 \<or> w4 = upd_bus w3 (\<lambda>d. d\<lparr>ni_interfaces := (ni_interfaces d)[i := ni]\<rparr>) \<and>
      pnet ni = pnet (ni_at w3 i) \<and> h_tx_data_fifo ni = h_tx_data_fifo (ni_at w3 i)"
  shows "ul_completed i a n w w4"
proof -
  have inv: "ul_base w1" "i < NETDRV_MAX_NUM_DEVICES" "ul_base w2" using s d by (simp_all add: sending_def drained_def)
  note z = zero_tx_arrays_base[OF inv(3)]
  have b3: "ul_base w3" unfolding w3 by (rule ul_base_upd_bus[OF z(1)]) simp_all
  have "ul_moves (lte_dd_zero_tx_arrays w2) w3" unfolding w3 by (rule ul_moves_upd_bus[OF z(1)]) simp
  then have m3: "ul_moves w2 w3" using z(2) ul_moves_trans by blast
  have i3: "i < length (ni_interfaces (bus w3))" using inv(2) b3 by (simp add: ul_base_length)
  have sf: "same_fifos w3 w4"
    using w4 same_fifos_flags[OF i3, of "\<lambda>d. d\<lparr>ni_interfaces := (ni_interfaces d)[i := ni]\<rparr>" ni]
    by (auto simp: same_fifos_def[of w3 w3])
  have eq: "devs w4 = devs w3" "skbs w4 = skbs w3" "dd_flags (bus w4) = dd_flags (bus w3)" "same_shape w3 w4"
    "dd_valid (bus w4) = dd_valid (bus w3)" using w4 by auto
  have b4: "ul_base w4" using ul_base_same_fifos[OF b3 sf eq(4) eq(2) eq(5)] .
  have nb: "\<not> tx_busy (bus w4)" using eq(3) by (simp add: w3 tx_busy_def busy_masks)
  have "ul_moves w w1" using base ul_moves_upd_bus[of w f] w1 by simp
  then have "ul_moves w w3" using drained_moves[OF inv(1,2) d] m3 ul_moves_trans by blast
  moreover have "ul_moves w3 w4" using ul_moves_same[OF eq(4) sf eq(2)] b3 by (simp add: ul_base_length)
  ultimately have m: "ul_moves w w4" by (rule ul_moves_trans)
  have q1: "qlist w1 i = qlist w i" using w1 by (simp add: qlist_upd_bus)
  have "qlist w4 i = qlist w3 i" using same_fifos_nth(4)[OF sf i3] .
  also have "\<dots> = qlist w2 i" by (simp add: w3 qlist_def)
  finally have q: "qlist w4 i = drop n (qlist w i)" using d q1 by (simp add: drained_def)
  have "skbs w4 = skbs w |` (- set (take n (qlist w i)))"
    using d eq(2) q1 w1(1) by (simp add: w3 drained_def)
  moreover have "dev_after w w4 a n (length (qlist w i))"
    using d eq(1) q1 w1(1) by (simp add: w3 drained_def dev_after_def)
  ultimately show ?thesis
    using m ul_inv_idle[OF b4 nb] nb q by (simp add: ul_completed_def ul_step_def)
qed

lemma ul_complete_result:
  assumes s: "sending w i a"
  shows "\<exists>w4. lte_dd_4ghif_ul_complete_cb e True True w = rbind (lte_dd_sdma_tx e w4) (\<lambda>(_, w5). Inr w5) \<and>
    ul_completed i a (tx_sdma_packet_cnt (bus w)) w w4"
proof -
  let ?n = "tx_sdma_packet_cnt (bus w)"
  let ?f = "\<lambda>d. d\<lparr>tx_data_packets_sdma_ack := tx_data_packets_sdma_ack d + 1, tx_kt := kt_acked (ktime_now e) (kt_submit (tx_kt d)) (tx_kt d)\<rparr>"
  let ?w1 = "upd_bus w ?f"
  have base: "ul_base w" "i < NETDRV_MAX_NUM_DEVICES" "pnet (ni_at w i) = Some a" using s by (simp_all add: sending_def)
  have s1: "sending ?w1 i a" by (rule sending_upd_bus(1)[OF s]) (use s in \<open>simp_all add: sending_def tx_busy_def\<close>)
  have inv: "ul_base ?w1" "pnet (ni_at ?w1 i) = Some a" "in_transfer (bus ?w1) i (qlist ?w1 i) ?n"
    using s1 unfolding sending_def by simp_all
  have "qlist ?w1 i = drop 0 (qlist ?w1 i)" by simp
  from ul_complete_loop_drains[OF inv(1) base(2) inv(2) this _ inv(3), of None]
  obtain w2 where w2: "ul_complete_loop [0..<?n] None ?w1 = Inr (if 0 < ?n then Some i else None, w2)" "drained i a ?n ?w1 w2"
    by auto
  define w3 where "w3 = upd_bus (lte_dd_zero_tx_arrays w2) (\<lambda>d. d\<lparr>dd_flags := dd_flags d AND NOT LTE_DD_FLAG_TX_BUSY\<rparr>)"
  define ni where "ni = (ni_at w3 i)\<lparr>ni_flags := ni_flags (ni_at w3 i) AND NOT LTE_NI_FLAG_TX_BUSY\<rparr>"
  define w4 where "w4 = (if 0 < ?n then upd_bus w3 (\<lambda>d. d\<lparr>ni_interfaces := (ni_interfaces d)[i := ni]\<rparr>) else w3)"
  have "ul_base w2" using w2(2) by (simp add: drained_def)
  then have i3: "i < length (ni_interfaces (bus w3))" using base(2) by (simp add: w3_def ul_base_length)
  have "(case (if 0 < ?n then Some i else None) of None \<Rightarrow> Inr w3
      | Some i \<Rightarrow> upd_ni w3 i (\<lambda>ni. ni\<lparr>ni_flags := ni_flags ni AND NOT LTE_NI_FLAG_TX_BUSY\<rparr>)) = Inr w4"
    using upd_ni_ok[OF i3] by (simp add: w4_def ni_def)
  moreover have "dd_flags (bus w) AND LTE_DD_FLAG_TX_BUSY \<noteq> 0" using s by (simp add: sending_def tx_busy_def)
  ultimately have "lte_dd_4ghif_ul_complete_cb e True True w = rbind (lte_dd_sdma_tx e w4) (\<lambda>(_, w5). Inr w5)"
    using w2(1) by (simp add: lte_dd_4ghif_ul_complete_cb_def w3_def[symmetric])
  moreover have "ul_completed i a ?n w w4"
    by (rule ul_completed_finish[OF w2(2) s1 refl _ base(1) w3_def, where ni = ni]) (auto simp: w4_def ni_def)
  ultimately show ?thesis by blast
qed

text \<open>The callback keeps the invariant, also when it has nothing to do.\<close>

lemma ul_complete_cb_step:
  assumes inv: "ul_inv w"
  shows "\<exists>w'. lte_dd_4ghif_ul_complete_cb e given ours w = Inr w' \<and> ul_step w w'"
proof -
  let ?f = "\<lambda>d. d\<lparr>tx_data_packets_sdma_ack := tx_data_packets_sdma_ack d + 1, tx_kt := kt_acked (ktime_now e) (kt_submit (tx_kt d)) (tx_kt d)\<rparr>"
  have skip: "ul_step w (upd_bus w ?f)" by (rule flags_step[OF inv]) (simp_all add: tx_busy_def)
  show ?thesis
  proof (cases "given \<and> ours \<and> tx_busy (bus w)")
    case False
    then show ?thesis
      using skip ul_step_refl[OF inv] by (auto simp: lte_dd_4ghif_ul_complete_cb_def Let_def tx_busy_def)
  next
    case True
    then obtain i a where s: "sending w i a" using ul_inv_sending[OF inv] by blast
    obtain w4 where w4: "lte_dd_4ghif_ul_complete_cb e True True w = rbind (lte_dd_sdma_tx e w4) (\<lambda>(_, w5). Inr w5)"
      "ul_step w w4" using ul_complete_result[OF s] by (auto simp: ul_completed_def)
    obtain rc w' where "lte_dd_sdma_tx e w4 = Inr (rc, w')" "ul_step w4 w'"
      using sdma_tx_step[of w4 e] w4(2) by (auto simp: ul_step_def)
    then show ?thesis using w4 True ul_step_compose by auto
  qed
qed

section \<open>Resuming and the watchdog\<close>

lemma ul_resume_step:
  assumes inv: "ul_inv w"
  shows "\<exists>w'. lte_dd_4ghif_ul_resume_cb e w = Inr w' \<and> ul_step w w'"
proof -
  let ?f = "\<lambda>d. d\<lparr>dd_flags := dd_flags d AND NOT LTE_DD_FLAG_TX_THROTTLE, tx_throttle_open_cnt := tx_throttle_open_cnt d + 1\<rparr>"
  have st: "ul_step w (upd_bus w ?f)" by (rule flags_step[OF inv]) (simp_all add: tx_busy_def busy_masks)
  then obtain rc w' where "lte_dd_sdma_tx e (upd_bus w ?f) = Inr (rc, w')" "ul_step (upd_bus w ?f) w'"
    using sdma_tx_step[of "upd_bus w ?f" e] by (auto simp: ul_step_def)
  then show ?thesis using ul_step_compose[OF st] by (auto simp: lte_dd_4ghif_ul_resume_cb_def)
qed

lemma wd_check_tx_step:
  assumes inv: "ul_inv w"
  shows "ul_step w (snd (wd_check_tx e w))"
  using ul_step_refl[OF inv] flags_step[OF inv, of "\<lambda>d. d\<lparr>dd_flags := dd_flags d AND NOT LTE_DD_FLAG_TX_BUSY\<rparr>"]
  by (simp add: wd_check_tx_def tx_busy_def busy_masks)

section \<open>The data driver keeps the contract of the bus\<close>

definition dd_attached :: "'q dd_sys \<Rightarrow> addr \<Rightarrow> bool" where
  "dd_attached w a \<longleftrightarrow> (\<exists>i < NETDRV_MAX_NUM_DEVICES. pnet (ni_at w i) = Some a)"

definition dd_room :: "'q dd_sys \<Rightarrow> addr \<Rightarrow> bool" where
  "dd_room w a \<longleftrightarrow> (\<exists>i < NETDRV_MAX_NUM_DEVICES. pnet (ni_at w i) = Some a \<and> length (qlist w i) < 64)"

lemma pnet_unique:
  assumes "ul_base w" "i < NETDRV_MAX_NUM_DEVICES" "pnet (ni_at w i) = Some a"
    "j < NETDRV_MAX_NUM_DEVICES" "pnet (ni_at w j) = Some a"
  shows "j = i"
  using find_pnet_open[OF assms(1-3)] find_pnet_open[OF assms(1,4,5)] by simp

lemma client_frame_inv:
  assumes inv: "ul_inv w" and f: "client_frame (owned w) w w'"
  shows "ul_inv w' \<and> owned w' = owned w \<and> dd_attached w' = dd_attached w \<and> dd_room w' = dd_room w"
proof -
  have bus: "bus w' = bus w" and sh: "same_shape w w'" and sk: "\<forall>s \<in> owned w. skbs w' s = skbs w s"
    using f by (simp_all add: client_frame_def)
  have q: "qlist w' = qlist w" using bus by (simp add: qlist_def fun_eq_iff)
  have "iface_ok w' i" if "iface_ok w i" for i using iface_ok_cong[OF that sh] bus by simp
  moreover have "skb_ok w' s" if "s \<in> set (qlist w i)" "i < NETDRV_MAX_NUM_DEVICES" "skb_ok w s" for s i
    using that sk by (auto simp: skb_ok_def owned_def)
  ultimately have "ul_inv w'" using inv bus q by (auto simp: ul_inv_def ul_base_def)
  then show ?thesis using bus q by (simp add: owned_def dd_attached_def dd_room_def fun_eq_iff)
qed

lemma ul_moves_contract:
  assumes "ul_moves w w'"
  shows "dd_attached w' = dd_attached w" "releases (owned w) (owned w') w w'"
  using assms ul_moves_owned[OF assms] by (auto simp: ul_moves_def dd_attached_def fun_eq_iff releases_def)

interpretation dd_bus: uplink_bus "lte_dd_tx_data_start e" "lte_dd_bus_control e" ul_inv dd_attached owned dd_room
  for e :: dd_env
proof (unfold_locales, goal_cases)
  case (1 w a)
  then obtain i where "i < NETDRV_MAX_NUM_DEVICES" "pnet (ni_at w i) = Some a" by (auto simp: dd_attached_def)
  then have "dev_ok w a i" using 1 ul_base_fifo(3) by (auto simp: ul_inv_def)
  then show ?case by (auto simp: dev_ok_def)
next
  case (2 w w')
  then show ?case by (rule client_frame_inv)
next
  case (3 w a p s b)
  then obtain i where i: "i < NETDRV_MAX_NUM_DEVICES" "pnet (ni_at w i) = Some a" "length (qlist w i) < 64"
    by (auto simp: dd_room_def)
  have "skb_ok w s" using 3 by (simp add: skb_ok_def)
  then obtain w1 w' where w: "lte_dd_tx_data_start e a p s w = Inr (AMP_ERROR_NONE, w')" "enqueued i s w w1" "ul_step w1 w'"
    using tx_data_start_queues[OF 3(1) i(1,2) 3(4) i(3), of s e] 3 by blast
  have m: "ul_moves w1 w'" "ul_inv w'" using w(3) by (simp_all add: ul_step_def)
  have "dd_attached w1 = dd_attached w" "skbs w1 = skbs w"
    using w(2) by (auto simp: enqueued_def dd_attached_def fun_eq_iff)
  then have "dd_attached w' = dd_attached w \<and> releases (insert s (owned w)) (owned w') w w'"
    using ul_moves_contract[OF m(1)] enqueued_owned[OF w(2) i(1)] by (simp add: releases_def)
  then show ?case using w(1) m(2) by blast
next
  case (4 w a p s)
  then obtain i where i: "i < NETDRV_MAX_NUM_DEVICES" "pnet (ni_at w i) = Some a" by (auto simp: dd_attached_def)
  have "ul_base w" using 4 by (simp add: ul_inv_def)
  then have "length (qlist w i) = 64" using ul_base_fifo(4)[of w i a] i 4 by (force simp: dd_room_def)
  then show ?case using tx_data_start_refuses[OF 4(1) i 4(4)] by blast
next
  case (5 w cmd a p c)
  then obtain rc w' where "lte_dd_bus_control e a p cmd c w = Inr (rc, w')" "ul_step w w'"
    using bus_control_step[of w cmd e a p c] by blast
  then show ?case using ul_moves_contract[of w w'] by (auto simp: ul_step_def)
qed

section \<open>An instance\<close>

text \<open>
  One interface, \<open>lte0\<close>, with \<open>n\<close> packets of 20 bytes on bearer 5 in its FIFO, the flags \<open>fl\<close> of
  the data driver and the status \<open>st\<close> of the network device. Buffer 64 is not queued.
\<close>

definition lte0_fifo :: "nat \<Rightarrow> addr PTR_FIFO" where
  "lte0_fifo n = \<lparr>signature = PTR_FIFO_SIGNATURE, size_stamp = sizeof_PTR_FIFO, fifo_size = 65, fifo_flags = 0,
     pfifo_data = [0..<65], tail = of_nat ((64 + n) mod 65), head = 64, num_elements = of_nat n\<rparr>"

definition lte0_skb :: net_skb where
  "lte0_skb = \<lparr>pkt = \<lparr>skb_head = replicate 34 0, skb_data = 0, skb_len = 20, network_header = 14, mac_header = Some 0,
     skb_has_dev = True\<rparr>, skb_cb = replicate 48 5\<rparr>"

definition lte0_kt :: kt_stats where
  "lte0_kt = \<lparr>kt_submit = 0, kt_ack = 0, kt_delta = 0, kt_delta_min = 0, kt_delta_max = 0\<rparr>"

definition lte0_bus :: "nat \<Rightarrow> u32 \<Rightarrow> lte_dd_dev_t" where
  "lte0_bus n fl =
     \<lparr>dd_valid = True, ptsl_ul = None, ptsl_dl = None,
      ni_interfaces = zero_ni\<lparr>ifname := ''lte0'', ni_eps_id := 5, pnet := Some 0, h_tx_data_fifo := Some (lte0_fifo n)\<rparr> #
        replicate 7 zero_ni,
      ni_interfaces_cnt = 1, tx_sdma_xfer = replicate 31 zero_xfer, tx_sdma_xfer_cnt = 0,
      tx_sdma_packet = replicate 31 None, tx_sdma_packet_cnt = 0, rx_sdma_xfer = replicate 31 zero_xfer,
      rx_sdma_xfer_cnt = 0, rx_sdma_packet = replicate 31 None, rx_sdma_packet_cnt = 0,
      tx_kt = lte0_kt, rx_kt = lte0_kt, txrx_kt = lte0_kt, tx_packet_cnt = 0, rx_packet_cnt = 0,
      tx_data_packets_sdma_submit = 0, tx_data_packets_sdma_ack = 0, tx_data_packets_sdma_bytes = 0,
      rx_data_packets_sdma_notify = 0, rx_data_packets_sdma_submit = 0, rx_data_packets_sdma_ack = 0,
      rx_data_packets_sdma_bytes = 0, tx_data_packets_multi_avail = 0, rx_data_packets_multi_avail = 0,
      tx_throttle_close_cnt = 0, tx_throttle_open_cnt = 0, tx_data_busy_start_time = 0,
      tx_data_throttle_start_time = 0, rx_data_busy_start_time = 0, rx_net_rx_drop_cnt = 0,
      tx_physaddr_cnt = (0, 0, 0), rx_physaddr_cnt = (0, 0, 0), dd_flags = fl, wd_expires = 0, running_index = 0\<rparr>"

definition lte0_dev :: "u32 \<Rightarrow> net_device" where
  "lte0_dev st = (let d = new_net_device 0 ''lte0'' (Some 0) (Some 0) DEFAULT_BAS_MAC_ADDR in d\<lparr>priv := (priv d)\<lparr>driver_status := st\<rparr>\<rparr>)"

definition lte0_sys :: "nat \<Rightarrow> u32 \<Rightarrow> u32 \<Rightarrow> 'q \<Rightarrow> 'q dd_sys" where
  "lte0_sys n fl st q =
     (let i = \<lparr>process_tx_packet_qos = Some Builtin, process_rx_packet_qos = Some Builtin\<rparr> in
      \<lparr>devs = [0 \<mapsto> lte0_dev st], skbs = (\<lambda>s. if s \<le> 64 then Some lte0_skb else None),
       bus_ifs = [0 \<mapsto> \<lparr>tx_start = True, tx_complete = True, rx_start = True, rx_complete = True, net_control = True, bus_control = True\<rparr>],
       g_net_dev_list = Some 0 # replicate 7 None, g_net_drv_qos_mode = NET_DRV_QOS_MODE_IPTABLES,
       g_net_drv_qos_interface_default = i, g_net_drv_qos_interface_active = i, g_net_drv_qos_interface_registered = i,
       g_net_ptd = \<lparr>busy = 0, duration = 0, packet_size = 0, packet_delay = 0, tx_count = 0, rx_count = 0, perf_tx_bytes = 0,
         perf_rx_bytes = 0\<rparr>,
       g_net_eps_id_to_mac_addr_table = replicate 16 \<lparr>mac_addr = default_dev_mac_addr, packet_cnt = 0\<rparr>,
       g_net_drv_global_flags = 0, default_mac_addr = DEFAULT_BAS_MAC_ADDR, stack_rx = [], bus = lte0_bus n fl, qos = q\<rparr>)"

lemma lte0_fifo_inv:
  assumes "n \<le> 64"
  shows "fifo_inv (Some (lte0_fifo n))" "fifo_cap (Some (lte0_fifo n)) = 64" "fifo_list (Some (lte0_fifo n)) = [0..<n]"
proof -
  have n: "unat (of_nat n :: u32) = n" "unat (of_nat ((64 + n) mod 65) :: u32) = (64 + n) mod 65"
    using assms mod_less_divisor[of 65 "64 + n"] by (simp_all add: unsigned_of_nat take_bit_nat_eq_self)
  show "fifo_inv (Some (lte0_fifo n))" "fifo_cap (Some (lte0_fifo n)) = 64"
    using assms n by (simp_all add: lte0_fifo_def)
  show "fifo_list (Some (lte0_fifo n)) = [0..<n]"
    using assms n(1) by (intro nth_equalityI) (simp_all add: lte0_fifo_def mod_simps)
qed

lemma lte0_ni:
  "i < NETDRV_MAX_NUM_DEVICES \<Longrightarrow> ni_at (lte0_sys n fl st q) i =
     (if i = 0 then zero_ni\<lparr>ifname := ''lte0'', ni_eps_id := 5, pnet := Some 0, h_tx_data_fifo := Some (lte0_fifo n)\<rparr> else zero_ni)"
  by (cases i) (simp_all add: lte0_sys_def lte0_bus_def NETDRV_MAX_NUM_DEVICES_def Let_def)

lemma lte0_qlist:
  "n \<le> 64 \<Longrightarrow> i < NETDRV_MAX_NUM_DEVICES \<Longrightarrow> qlist (lte0_sys n fl st q) i = (if i = 0 then [0..<n] else [])"
  using lte0_fifo_inv(3)[of n] by (simp add: qlist_def lte0_ni zero_ni_def del: fifo_list.simps(2))

lemma lte0_attached: "dd_attached (lte0_sys n fl st q) 0"
  unfolding dd_attached_def using lte0_ni[of 0 n fl st q] by (intro exI[of _ 0]) (simp add: NETDRV_MAX_NUM_DEVICES_def)

lemma lte0_inv:
  assumes "n \<le> 64" "fl AND LTE_DD_FLAG_TX_BUSY = 0"
  shows "ul_inv (lte0_sys n fl st q)"
proof -
  have "dev_ok (lte0_sys n fl st q) 0 0"
    by (simp add: dev_ok_def lte0_sys_def lte0_dev_def new_net_device_def Let_def)
  then have "iface_ok (lte0_sys n fl st q) i" if "i < NETDRV_MAX_NUM_DEVICES" for i
    using lte0_ni[OF that, of n fl st q] lte0_fifo_inv(1,2)[OF assms(1)]
    by (cases "i = 0") (simp_all add: iface_ok_def zero_ni_def del: fifo_inv.simps fifo_cap.simps)
  moreover have "skb_ok (lte0_sys n fl st q) s" if "s \<le> 64" for s
    using that by (simp add: skb_ok_def lte0_sys_def lte0_skb_def Let_def)
  ultimately have "ul_base (lte0_sys n fl st q)"
    using assms(1) lte0_qlist[OF assms(1), of _ fl st q]
    by (auto simp: ul_base_def) (simp_all add: lte0_sys_def lte0_bus_def NETDRV_MAX_NUM_DEVICES_def Let_def)
  then show ?thesis using assms(2) by (intro ul_inv_idle) (simp_all add: tx_busy_def lte0_sys_def lte0_bus_def Let_def)
qed

lemma lte0_owned: "n \<le> 64 \<Longrightarrow> owned (lte0_sys n fl st q) = {..<n}"
  using lte0_qlist[of n _ fl st q] by (auto simp: owned_def NETDRV_MAX_NUM_DEVICES_def split: if_splits)

section \<open>Properties\<close>

text \<open>
  C3. The transmit method of the network driver over the data driver. A packet the stack hands over
  is taken exactly once: on \<open>NETDEV_TX_OK\<close> it is queued or freed; on \<open>NETDEV_TX_BUSY\<close>, which
  only happens when the FIFO of its interface is full, the stack still owns it and it has its
  header back. Buffers of others are untouched, buffers of the data driver that it no longer
  holds are freed, and the invariant of the uplink is kept.
\<close>

theorem net_drv_dev_tx_accounts:
  assumes "ul_inv w" and "dd_attached w a" and "skbs w s = Some b" and "s \<notin> owned w"
    and "skb_cb b \<noteq> []" and "ETH_HLEN \<le> skb_len (pkt b)" and "qos_keeps env b"
    and "env_tx_start env = lte_dd_tx_data_start e" and "env_bus_control env = lte_dd_bus_control e"
    and "tx_classify env w a s = Inr (r, w1)" and "\<forall>x. r = Some x \<longrightarrow> x = 0 \<or> 10 < x \<and> x < 15"
  shows "\<exists>rc w'. net_drv_dev_tx env w s a = Inr (rc, w') \<and> ul_inv w' \<and> owned w' \<subseteq> insert s (owned w) \<and>
     ((rc = NETDEV_TX_OK \<and> (s \<in> owned w' \<or> skbs w' s = None)) \<or>
      (rc = NETDEV_TX_BUSY \<and> \<not> dd_room w a \<and> s \<notin> owned w' \<and>
         (\<exists>b'. skbs w' s = Some b' \<and> skb_len (pkt b') = skb_len (pkt b)))) \<and>
     (\<forall>t. t \<noteq> s \<longrightarrow> skbs w' t = (if t \<in> owned w - owned w' then None else skbs w t))"
proof -
  obtain rc w' where "net_drv_dev_tx env w s a = Inr (rc, w')" "dd_bus.tx_done s b a w (rc, w')"
    using dd_bus.dev_tx_accounts[OF assms] by auto
  then show ?thesis
    by (intro exI[of _ rc] exI[of _ w'])
      (auto simp: dd_bus.tx_done_def tx_outcome_def NETDEV_TX_OK_def NETDEV_TX_BUSY_def)
qed

definition lte0_env :: "(IPC_4GHIF_STATUS \<times> u8) \<Rightarrow> dd_env" where
  "lte0_env r = \<lparr>submit_ul = (\<lambda>_. r), submit_dl = (\<lambda>_. r), get_dl_frames_nb = (IPC_4GHIF_STATUS_NO_FRAME, []),
     jiffies = 0, ktime_now = 0, virt_to_phys = (\<lambda>_. 0), alloc_skb = (\<lambda>_. None)\<rparr>"

definition lte0_net :: "dd_env \<Rightarrow> (lte_dd_dev_t, 'q) net_env" where
  "lte0_net e = \<lparr>env_tx_start = lte_dd_tx_data_start e, env_bus_control = lte_dd_bus_control e,
     env_tx_qos = (\<lambda>b q. Inl NullDeref), env_rx_qos = (\<lambda>b h l q. Inl NullDeref), env_netif_rx = (\<lambda>_. (True, True))\<rparr>"

text \<open>With 64 packets queued the 65th comes back.\<close>

theorem net_drv_dev_tx_accounts_witness:
  "\<exists>rc w'. net_drv_dev_tx (lte0_net (lte0_env (IPC_4GHIF_STATUS_OK, 1))) (lte0_sys 64 LTE_DD_FLAG_TX_THROTTLE 0 ()) 64 0 =
     Inr (rc, w') \<and> ul_inv w'"
proof -
  let ?e = "lte0_env (IPC_4GHIF_STATUS_OK, 1)" and ?w = "lte0_sys 64 LTE_DD_FLAG_TX_THROTTLE 0 ()"
  have inv: "ul_inv ?w" by (rule lte0_inv) (simp_all add: dd_flag_defs)
  note att = lte0_attached
  have out: "64 \<notin> owned ?w" using lte0_owned[of 64 LTE_DD_FLAG_TX_THROTTLE 0 "()"] by simp
  have s: "skbs ?w 64 = Some lte0_skb" by (simp add: lte0_sys_def Let_def)
  obtain w1 where c: "tx_classify (lte0_net ?e) ?w 0 64 = Inr (Some 14, w1)"
    by (simp add: tx_classify_def lte0_sys_def Let_def get_skb_def run_tx_qos_def net_drv_process_tx_packet_qos_def
        ETH_HLEN_def get_dev_def lte0_skb_def skb_pull_def skb_headlen_def net_drv_set_skb_eps_id_def net_error_defs)
  show ?thesis
    using net_drv_dev_tx_accounts[OF inv att s out _ _ _ _ _ c, of ?e]
    by (auto simp: lte0_skb_def ETH_HLEN_def qos_keeps_def lte0_net_def)
qed

text \<open>
  C19. The completion of a transfer. The packets of the transfer are the first of their FIFO; they
  leave it in order and are freed once, the network device counts them, and its stopped queue is
  woken as soon as at most half of the FIFO is in use. Then the next transfer is started.
\<close>

theorem ul_complete_finishes_transfer:
  assumes "ul_inv w" and "tx_busy (bus w)"
  shows "\<exists>i a w4 rc w'. sending w i a \<and>
     qlist w4 i = drop (tx_sdma_packet_cnt (bus w)) (qlist w i) \<and>
     skbs w4 = skbs w |` (- set (take (tx_sdma_packet_cnt (bus w)) (qlist w i))) \<and>
     dev_after w w4 a (tx_sdma_packet_cnt (bus w)) (length (qlist w i)) \<and> \<not> tx_busy (bus w4) \<and>
     lte_dd_sdma_tx e w4 = Inr (rc, w') \<and> lte_dd_4ghif_ul_complete_cb e True True w = Inr w' \<and> ul_inv w'"
proof -
  obtain i a where s: "sending w i a" using ul_inv_sending[OF assms] by blast
  obtain w4 where w4: "lte_dd_4ghif_ul_complete_cb e True True w = rbind (lte_dd_sdma_tx e w4) (\<lambda>(_, w5). Inr w5)"
    "ul_completed i a (tx_sdma_packet_cnt (bus w)) w w4" using ul_complete_result[OF s] by blast
  then obtain rc w' where "lte_dd_sdma_tx e w4 = Inr (rc, w')" "ul_step w4 w'"
    using sdma_tx_step[of w4 e] by (auto simp: ul_completed_def ul_step_def)
  then show ?thesis
    using s w4 by (intro exI[of _ i] exI[of _ a] exI[of _ w4] exI[of _ rc] exI[of _ w'])
      (auto simp: ul_completed_def ul_step_def)
qed

text \<open>The round robin finds a FIFO with packets when there is one.\<close>

lemma unat_Suc_mod8: "unat (ri + 1 :: u32) mod 8 = Suc (unat ri) mod 8"
proof -
  have "unat (ri + 1) = Suc (unat ri) mod 2 ^ 32" by (simp add: unat_word_ariths)
  moreover have "Suc (unat ri) mod 2 ^ 32 mod 8 = Suc (unat ri) mod 8" by (rule mod_mod_cancel) simp
  ultimately show ?thesis by simp
qed

lemma rr_lookup_finds:
  assumes inv: "ul_base w" and j: "j < NETDRV_MAX_NUM_DEVICES" "qlist w j \<noteq> []"
    and k: "k < n" "(unat ri + k) mod 8 = j"
  shows "\<exists>c ri'. rr_lookup (bus w) ri n = Inr (Some c, ri')"
  using k
proof (induction n arbitrary: ri k)
  case (Suc n)
  have l: "length (ni_interfaces (bus w)) = 8" using ul_base_length[OF inv] by (simp add: NETDRV_MAX_NUM_DEVICES_def)
  let ?i = "unat ri mod 8"
  show ?case
  proof (cases "pnet (ni_at w ?i) \<noteq> None \<and> 0 <s fifo_elements (bus w) (ni_at w ?i)")
    case True
    then show ?thesis using l by (auto simp: Let_def)
  next
    case False
    then have "?i \<noteq> j" using queued_open[OF inv j] fifo_elements_qlist(2)[OF inv j(1)] j(2) by auto
    then obtain k' where k': "k = Suc k'" using Suc.prems by (cases k) auto
    have "(unat (ri + 1) + k') mod 8 = (unat (ri + 1) mod 8 + k') mod 8" by (simp add: mod_simps)
    also have "\<dots> = (unat ri + k) mod 8" unfolding unat_Suc_mod8 by (simp add: mod_simps k')
    finally have "(unat (ri + 1) + k') mod 8 = j" using Suc.prems(2) by simp
    then have "\<exists>c ri'. rr_lookup (bus w) (ri + 1) n = Inr (Some c, ri')"
      using Suc.IH[of k' "ri + 1"] Suc.prems(1) k' by simp
    moreover have "rr_lookup (bus w) ri (Suc n) = rr_lookup (bus w) (ri + 1) n" using False l by (auto simp: Let_def)
    ultimately show ?thesis by (simp only:)
  qed
qed simp

lemma fifo_lookup_finds:
  assumes inv: "ul_base w" and j: "j < NETDRV_MAX_NUM_DEVICES" "qlist w j \<noteq> []" "ni_interfaces_cnt (bus w) = 1 \<Longrightarrow> j = 0"
  shows "\<exists>c ri. lte_dd_ni_interface_fifo_lookup w = Inr (Some c, upd_bus w (\<lambda>d. d\<lparr>running_index := ri\<rparr>)) \<and> good_choice w c"
proof -
  obtain r ri where r: "lte_dd_ni_interface_fifo_lookup w = Inr (r, upd_bus w (\<lambda>d. d\<lparr>running_index := ri\<rparr>))"
    "\<forall>c. r = Some c \<longrightarrow> good_choice w c"
    using fifo_lookup_choice[OF inv] by blast
  have l: "length (ni_interfaces (bus w)) = 8" using ul_base_length[OF inv] by (simp add: NETDRV_MAX_NUM_DEVICES_def)
  have "r \<noteq> None"
  proof (cases "ni_interfaces_cnt (bus w) = 1")
    case True
    then show ?thesis
      using r(1) fifo_elements_qlist(2)[OF inv j(1)] j get_ni_ok[OF inv j(1)]
      by (auto simp: lte_dd_ni_interface_fifo_lookup_def Let_def)
  next
    case False
    let ?u = "unat (running_index (bus w))"
    have "(u + x mod 8) mod 8 = (u mod 8 + x) mod 8" for u x :: nat by (simp add: mod_simps)
    then have "(?u + (j + 8 - ?u mod 8) mod 8) mod 8 = (?u mod 8 + (j + 8 - ?u mod 8)) mod 8" .
    also have "?u mod 8 + (j + 8 - ?u mod 8) = j + 8" using mod_less_divisor[of 8 ?u] by simp
    finally have "(?u + (j + 8 - ?u mod 8) mod 8) mod 8 = j" using j(1) by (simp add: NETDRV_MAX_NUM_DEVICES_def)
    from rr_lookup_finds[OF inv j(1,2) _ this, of 8] obtain c ri' where
      "rr_lookup (bus w) (running_index (bus w)) 8 = Inr (Some c, ri')" by auto
    then show ?thesis using r(1) False l by (auto simp: lte_dd_ni_interface_fifo_lookup_def Let_def)
  qed
  then show ?thesis using r by auto
qed

lemma sdma_tx_front:
  assumes "ul_inv w" and "\<not> tx_busy (bus w)" and "dd_flags (bus w) AND LTE_DD_FLAG_TX_THROTTLE = 0"
    and "j < NETDRV_MAX_NUM_DEVICES" and "qlist w j \<noteq> []" and "ni_interfaces_cnt (bus w) = 1 \<Longrightarrow> j = 0"
    and "\<forall>ps. fst (submit_ul e ps) = IPC_4GHIF_STATUS_OK"
  shows "\<exists>i n w'. lte_dd_sdma_tx e w = Inr (AMP_ERROR_NONE, w') \<and> ul_inv w' \<and> tx_busy (bus w') \<and>
     0 < n \<and> n \<le> length (qlist w i) \<and> n \<le> IPC_4GHIF_MAX_NB_UL_FRAMES \<and> tx_sdma_packet_cnt (bus w') = n \<and>
     (\<forall>k < n. tx_sdma_xfer (bus w') ! k = ul_xfer w i k) \<and>
     (\<forall>i < NETDRV_MAX_NUM_DEVICES. qlist w' i = qlist w i) \<and> skbs w' = skbs w"
proof -
  have base: "ul_base w" using assms(1) by (simp add: ul_inv_def)
  obtain i num ri where look: "lte_dd_ni_interface_fifo_lookup w = Inr (Some (i, num), upd_bus w (\<lambda>d. d\<lparr>running_index := ri\<rparr>))"
    and g: "good_choice w (i, num)" using fifo_lookup_finds[OF base assms(4-6)] by auto
  have idle: "dd_flags (bus w) AND LTE_DD_FLAG_TX_BUSY = 0" using assms(2) by (simp add: tx_busy_def)
  obtain a n r where p: "tx_prepared i a n w r"
    "lte_dd_sdma_tx e w = (case submit_ul e (map (sdma \<circ> ul_xfer w i) [0..<n]) of (st, acc) \<Rightarrow>
      rbind (tx_submitted e i st acc r) (\<lambda>w5. Inr (AMP_ERROR_NONE, w5)))"
    using sdma_tx_prepared[OF base idle assms(3) look g, of e] by blast
  obtain acc where "submit_ul e (map (sdma \<circ> ul_xfer w i) [0..<n]) = (IPC_4GHIF_STATUS_OK, acc)"
    using assms(7)[rule_format, of "map (sdma \<circ> ul_xfer w i) [0..<n]"]
    by (cases "submit_ul e (map (sdma \<circ> ul_xfer w i) [0..<n])") simp
  then have run: "lte_dd_sdma_tx e w = Inr (AMP_ERROR_NONE, upd_bus r (\<lambda>d. d\<lparr>tx_packet_cnt := tx_packet_cnt d + ucast acc\<rparr>))"
    using p(2) by (simp add: tx_submitted_def)
  let ?w' = "upd_bus r (\<lambda>d. d\<lparr>tx_packet_cnt := tx_packet_cnt d + ucast acc\<rparr>)"
  have s: "sending r i a" using p(1) by (simp add: tx_prepared_def)
  have s': "sending ?w' i a" using s by (intro sending_upd_bus(1)[OF s]) (simp_all add: sending_def tx_busy_def)
  then have "tx_busy (bus ?w')" unfolding sending_def by blast
  then show ?thesis
    using run sending_inv[OF s'] p(1) by (intro exI[of _ i] exI[of _ n] exI[of _ ?w']) (simp add: qlist_upd_bus tx_prepared_def)
qed

text \<open>A transfer of which the baseband takes only the first \<open>acc\<close> packets.\<close>

lemma clear_tx_busy_keeps:
  "clear_tx_busy w i = Inr w' \<Longrightarrow> tx_packet_cnt (bus w') = tx_packet_cnt (bus w) \<and>
    tx_sdma_packet_cnt (bus w') = tx_sdma_packet_cnt (bus w) \<and> skbs w' = skbs w"
  by (auto simp: clear_tx_busy_def upd_ni_def rbind_eq_Inr_iff upd_bus_def)

lemma throttle_mask:
  "(x OR LTE_DD_FLAG_TX_THROTTLE) AND LTE_DD_FLAG_TX_THROTTLE \<noteq> 0"
  "((x OR LTE_DD_FLAG_TX_THROTTLE) AND NOT LTE_DD_FLAG_TX_BUSY) AND LTE_DD_FLAG_TX_THROTTLE \<noteq> 0"
  by (simp_all add: bit.conj_disj_distrib2 and.assoc dd_flag_defs)

lemma tx_full_effect:
  assumes s: "sending w i a"
  shows "\<exists>w'. tx_submitted e i IPC_4GHIF_STATUS_RESOURCES_FULL acc w = Inr w' \<and> dd_flags (bus w') AND LTE_DD_FLAG_TX_THROTTLE \<noteq> 0 \<and>
    (tx_busy (bus w') \<longleftrightarrow> acc \<noteq> 0) \<and> tx_sdma_packet_cnt (bus w') = min (tx_sdma_packet_cnt (bus w)) (unat acc) \<and>
    tx_packet_cnt (bus w') = tx_packet_cnt (bus w) + ucast acc \<and> same_fifos w w' \<and> skbs w' = skbs w"
proof -
  let ?cut = "unat acc < tx_sdma_packet_cnt (bus w)"
  let ?f = "\<lambda>d. (if ?cut then d\<lparr>tx_sdma_packet_cnt := unat acc, tx_sdma_xfer_cnt := unat acc\<rparr> else d)"
  let ?g = "\<lambda>d. (?f d)\<lparr>tx_packet_cnt := tx_packet_cnt (?f d) + ucast acc,
     dd_flags := dd_flags (?f d) OR LTE_DD_FLAG_TX_THROTTLE,
     tx_throttle_close_cnt := tx_throttle_close_cnt (?f d) + 1, tx_data_throttle_start_time := jiffies e\<rparr>"
  define v where "v = upd_bus w ?g"
  have eq: "tx_submitted e i IPC_4GHIF_STATUS_RESOURCES_FULL acc w = (if acc = 0 then clear_tx_busy v i else Inr v)"
    by (simp add: v_def tx_submitted_def Let_def)
  have b: "tx_busy (bus v)" using s by (simp add: v_def sending_def tx_busy_def busy_masks)
  then have st: "sending v i a" unfolding v_def by (intro sending_upd_bus(1)[OF s]; simp)
  have f: "dd_flags (bus v) = dd_flags (bus w) OR LTE_DD_FLAG_TX_THROTTLE" "tx_packet_cnt (bus v) = tx_packet_cnt (bus w) + ucast acc"
    "tx_sdma_packet_cnt (bus v) = min (tx_sdma_packet_cnt (bus w)) (unat acc)" "skbs v = skbs w" "same_fifos w v"
    by (simp_all add: v_def upd_bus_def same_fifos_def)
  show ?thesis
  proof (cases "acc = 0")
    case False
    then show ?thesis using eq b f throttle_mask(1) by (intro exI[of _ v]) simp
  next
    case True
    have "ul_base v" "i < NETDRV_MAX_NUM_DEVICES" using st by (simp_all only: sending_def)
    from clear_tx_busy_step[OF this] obtain w' where w': "clear_tx_busy v i = Inr w'" "\<not> tx_busy (bus w')" "same_fifos v w'"
      "dd_flags (bus w') = dd_flags (bus v) AND NOT LTE_DD_FLAG_TX_BUSY" by blast
    have "same_fifos w w'" using f(5) w'(3) by (simp add: same_fifos_def)
    then show ?thesis
      using eq True f w' clear_tx_busy_keeps[OF w'(1)] throttle_mask(2) by (intro exI[of _ w']) simp
  qed
qed

lemma sdma_tx_outcome:
  assumes "ul_inv w" and "\<not> tx_busy (bus w)" and "dd_flags (bus w) AND LTE_DD_FLAG_TX_THROTTLE = 0"
    and "j < NETDRV_MAX_NUM_DEVICES" and "qlist w j \<noteq> []" and "ni_interfaces_cnt (bus w) = 1 \<Longrightarrow> j = 0"
  shows "\<exists>i a n r st acc w'. tx_prepared i a n w r \<and> submit_ul e (map (sdma \<circ> ul_xfer w i) [0..<n]) = (st, acc) \<and>
    tx_submitted e i st acc r = Inr w' \<and> lte_dd_sdma_tx e w = Inr (AMP_ERROR_NONE, w') \<and> ul_step w w'"
proof -
  have base: "ul_base w" using assms(1) by (simp add: ul_inv_def)
  obtain i num ri where look: "lte_dd_ni_interface_fifo_lookup w = Inr (Some (i, num), upd_bus w (\<lambda>d. d\<lparr>running_index := ri\<rparr>))"
    and g: "good_choice w (i, num)" using fifo_lookup_finds[OF base assms(4-6)] by auto
  have idle: "dd_flags (bus w) AND LTE_DD_FLAG_TX_BUSY = 0" using assms(2) by (simp add: tx_busy_def)
  obtain a n r where p: "tx_prepared i a n w r"
    "lte_dd_sdma_tx e w = (case submit_ul e (map (sdma \<circ> ul_xfer w i) [0..<n]) of (st, acc) \<Rightarrow>
      rbind (tx_submitted e i st acc r) (\<lambda>w5. Inr (AMP_ERROR_NONE, w5)))"
    using sdma_tx_prepared[OF base idle assms(3) look g, of e] by blast
  obtain st acc where sub: "submit_ul e (map (sdma \<circ> ul_xfer w i) [0..<n]) = (st, acc)"
    by (cases "submit_ul e (map (sdma \<circ> ul_xfer w i) [0..<n])")
  obtain w' where "tx_submitted e i st acc r = Inr w'" "ul_step w w'" using tx_prepared_submitted[OF p(1)] by blast
  then show ?thesis using p sub by (intro exI[of _ i] exI[of _ a] exI[of _ n] exI[of _ r] exI[of _ st] exI[of _ acc] exI[of _ w']) simp
qed

text \<open>
  C18. Work is not left lying: when a packet is queued and the driver is neither busy nor throttled,
  the transmit routine hands a transfer to the baseband interface, which is the first packets of one
  FIFO, at most 31, each with its buffer, its length and the bearer of its control block. What
  follows depends on the answer to exactly this array. When the transfer is accepted, or another one
  is running, the driver is busy with it and nothing leaves the FIFOs before the completion; when
  only some of the packets are accepted the driver is throttled, busy with those, and again nothing leaves
  the FIFOs; on any other answer exactly the submitted packets are dropped and the driver is idle. The
  accepted packets are counted.
\<close>

theorem lte_dd_sdma_tx_submits_front:
  assumes "ul_inv w" and "\<not> tx_busy (bus w)" and "dd_flags (bus w) AND LTE_DD_FLAG_TX_THROTTLE = 0"
    and "j < NETDRV_MAX_NUM_DEVICES" and "qlist w j \<noteq> []" and "ni_interfaces_cnt (bus w) = 1 \<Longrightarrow> j = 0"
  shows "\<exists>i n w'. lte_dd_sdma_tx e w = Inr (AMP_ERROR_NONE, w') \<and> ul_inv w' \<and> ul_moves w w' \<and>
     i < NETDRV_MAX_NUM_DEVICES \<and> 0 < n \<and> n \<le> length (qlist w i) \<and> n \<le> IPC_4GHIF_MAX_NB_UL_FRAMES \<and>
     (case submit_ul e (map (sdma \<circ> ul_xfer w i) [0..<n]) of (st, acc) \<Rightarrow>
        if st = IPC_4GHIF_STATUS_OK \<or> st = IPC_4GHIF_STATUS_BUSY then
          tx_busy (bus w') \<and> tx_sdma_packet_cnt (bus w') = n \<and> (\<forall>k < n. tx_sdma_xfer (bus w') ! k = ul_xfer w i k) \<and>
          tx_packet_cnt (bus w') = tx_packet_cnt (bus w) + (if st = IPC_4GHIF_STATUS_OK then ucast acc else 0) \<and>
          (\<forall>i < NETDRV_MAX_NUM_DEVICES. qlist w' i = qlist w i) \<and> skbs w' = skbs w
        else if st = IPC_4GHIF_STATUS_RESOURCES_FULL then
          dd_flags (bus w') AND LTE_DD_FLAG_TX_THROTTLE \<noteq> 0 \<and> (tx_busy (bus w') \<longleftrightarrow> acc \<noteq> 0) \<and>
          tx_sdma_packet_cnt (bus w') = min n (unat acc) \<and> tx_packet_cnt (bus w') = tx_packet_cnt (bus w) + ucast acc \<and>
          (\<forall>i < NETDRV_MAX_NUM_DEVICES. qlist w' i = qlist w i) \<and> skbs w' = skbs w
        else \<not> tx_busy (bus w') \<and> qlist w' i = drop n (qlist w i))"
proof -
  obtain i a n r st acc w' where p: "tx_prepared i a n w r" and sub: "submit_ul e (map (sdma \<circ> ul_xfer w i) [0..<n]) = (st, acc)"
    and t: "tx_submitted e i st acc r = Inr w'" and run: "lte_dd_sdma_tx e w = Inr (AMP_ERROR_NONE, w')" "ul_step w w'"
    using sdma_tx_outcome[OF assms, of e] by blast
  have s: "sending r i a" using p by (simp add: tx_prepared_def)
  then have i: "i < NETDRV_MAX_NUM_DEVICES" "tx_busy (bus r)" "length (ni_interfaces (bus r)) = NETDRV_MAX_NUM_DEVICES"
    by (auto simp: sending_def ul_base_length)
  have n: "0 < n" "n \<le> length (qlist w i)" "n \<le> IPC_4GHIF_MAX_NB_UL_FRAMES" "tx_sdma_xfer_cnt (bus r) \<le> length (qlist r i)"
    using p by (simp_all add: tx_prepared_def)
  consider (taken) "st = IPC_4GHIF_STATUS_OK \<or> st = IPC_4GHIF_STATUS_BUSY" | (full) "st = IPC_4GHIF_STATUS_RESOURCES_FULL"
    | (other) "st \<noteq> IPC_4GHIF_STATUS_OK" "st \<noteq> IPC_4GHIF_STATUS_BUSY" "st \<noteq> IPC_4GHIF_STATUS_RESOURCES_FULL" by blast
  then show ?thesis
  proof cases
    case taken
    then have "w' = upd_bus r (\<lambda>d. d\<lparr>tx_packet_cnt := tx_packet_cnt d + (if st = IPC_4GHIF_STATUS_OK then ucast acc else 0)\<rparr>)"
      using t by (auto simp: tx_submitted_def upd_bus_def)
    then show ?thesis using taken run n i(1,2) p sub
      by (intro exI[of _ i] exI[of _ n] exI[of _ w']) (simp add: ul_step_def tx_prepared_def qlist_upd_bus tx_busy_def)
  next
    case full
    have "same_fifos r w'" "dd_flags (bus w') AND LTE_DD_FLAG_TX_THROTTLE \<noteq> 0" "tx_busy (bus w') \<longleftrightarrow> acc \<noteq> 0"
      "tx_sdma_packet_cnt (bus w') = min (tx_sdma_packet_cnt (bus r)) (unat acc)" "tx_packet_cnt (bus w') = tx_packet_cnt (bus r) + ucast acc"
      "skbs w' = skbs r" using tx_full_effect[OF s, of e acc] t full by auto
    moreover have "qlist w' j = qlist r j" if "j < NETDRV_MAX_NUM_DEVICES" for j
      using same_fifos_nth(4)[OF \<open>same_fifos r w'\<close>] that i(3) by simp
    ultimately show ?thesis using full run n i(1) p sub
      by (intro exI[of _ i] exI[of _ n] exI[of _ w']) (simp add: ul_step_def tx_prepared_def)
  next
    case other
    then have "rbind (tx_drop_loop i (tx_sdma_xfer_cnt (bus r)) r) (\<lambda>w1. clear_tx_busy (lte_dd_zero_tx_arrays w1) i) = Inr w'"
      using t by (cases st) (simp_all add: tx_submitted_def)
    then have "\<not> tx_busy (bus w')" "qlist w' i = drop n (qlist w i)"
      using tx_dropped_step[OF s n(4)] p by (auto simp: tx_prepared_def)
    then show ?thesis using other run n i(1) p sub by (intro exI[of _ i] exI[of _ n] exI[of _ w']) (simp add: ul_step_def)
  qed
qed

text \<open>Three packets in the FIFO and a transfer under way.\<close>

theorem lte_dd_sdma_tx_submits_front_witness:
  "\<exists>w'. lte_dd_sdma_tx (lte0_env (IPC_4GHIF_STATUS_OK, 3)) (lte0_sys 3 LTE_DD_FLAG_MULTI_PACKET 0 ()) = Inr (AMP_ERROR_NONE, w') \<and>
     ul_inv w' \<and> tx_busy (bus w') \<and> tx_packet_cnt (bus w') = 3 \<and> qlist w' 0 = [0, 1, 2]"
proof -
  let ?w = "lte0_sys 3 LTE_DD_FLAG_MULTI_PACKET 0 ()"
  have inv: "ul_inv ?w" by (rule lte0_inv) (simp_all add: dd_flag_defs)
  have fl: "\<not> tx_busy (bus ?w)" "dd_flags (bus ?w) AND LTE_DD_FLAG_TX_THROTTLE = 0"
    by (simp_all add: tx_busy_def lte0_sys_def lte0_bus_def Let_def dd_flag_defs)
  have 0: "0 < NETDRV_MAX_NUM_DEVICES" by (simp add: NETDRV_MAX_NUM_DEVICES_def)
  have q: "qlist ?w 0 = [0, 1, 2]" using lte0_qlist[OF _ 0, of 3 LTE_DD_FLAG_MULTI_PACKET 0 "()"] by (simp add: upt_rec)
  have "tx_packet_cnt (bus ?w) = 0" by (simp add: lte0_sys_def lte0_bus_def Let_def)
  then show ?thesis
    using lte_dd_sdma_tx_submits_front[OF inv fl 0, of "lte0_env (IPC_4GHIF_STATUS_OK, 3)"] q 0
    by (auto simp: lte0_env_def)
qed

theorem ul_complete_finishes_transfer_witness:
  "\<exists>w w'. lte_dd_sdma_tx (lte0_env (IPC_4GHIF_STATUS_OK, 3)) (lte0_sys 3 LTE_DD_FLAG_MULTI_PACKET 0 ()) = Inr (AMP_ERROR_NONE, w) \<and>
     tx_busy (bus w) \<and> lte_dd_4ghif_ul_complete_cb (lte0_env (IPC_4GHIF_STATUS_OK, 3)) True True w = Inr w' \<and> ul_inv w'"
proof -
  let ?w = "lte0_sys 3 LTE_DD_FLAG_MULTI_PACKET 0 ()" and ?e = "lte0_env (IPC_4GHIF_STATUS_OK, 3)"
  have inv: "ul_inv ?w" by (rule lte0_inv) (simp_all add: dd_flag_defs)
  have fl: "\<not> tx_busy (bus ?w)" "dd_flags (bus ?w) AND LTE_DD_FLAG_TX_THROTTLE = 0"
    by (simp_all add: tx_busy_def lte0_sys_def lte0_bus_def Let_def dd_flag_defs)
  have 0: "0 < NETDRV_MAX_NUM_DEVICES" by (simp add: NETDRV_MAX_NUM_DEVICES_def)
  have "qlist ?w 0 \<noteq> []" using lte0_qlist[OF _ 0, of 3 LTE_DD_FLAG_MULTI_PACKET 0 "()"] by simp
  then obtain w where w: "lte_dd_sdma_tx ?e ?w = Inr (AMP_ERROR_NONE, w)" "ul_inv w" "tx_busy (bus w)"
    using sdma_tx_front[OF inv fl 0, of ?e] by (auto simp: lte0_env_def)
  then show ?thesis using ul_complete_finishes_transfer[OF w(2,3), of ?e] by blast
qed

end
