(* ===== verification/QaMatch.thy ===== *)
theory QaMatch
  imports QaClassify
begin

text \<open>
  Correctness of the data path of theory QaClassify: the meaning of a filter, the
  comparison that computes it on the low half of the component mask, and the search that
  returns the matching uplink filter of least precedence.
\<close>

section \<open>What a filter means\<close>

text \<open>The array members of a filter have their declared lengths.\<close>

definition rule_wf :: "tPACKET_FILTER \<Rightarrow> bool" where
  "rule_wf r \<longleftrightarrow>
     length (sIpv4DestAddrMask_Entry1 r) = 4 \<and> length (sIpv4DestAddrMask_Entry2 r) = 4 \<and>
     length (sIpv6DestAddrMask_Entry1 r) = 16 \<and> length (sIpv6DestAddrMask_Entry2 r) = 16 \<and>
     length (u8Ipv6FlowLabel r) = 3"

definition has_flag :: "packet_result \<Rightarrow> u16 \<Rightarrow> bool" where
  "has_flag p f \<longleftrightarrow> u16Present p AND f \<noteq> 0"

text \<open>The destination address is in the buffer when its header was found.\<close>

definition dest_ok :: "packet_result \<Rightarrow> bool" where
  "dest_ok p \<longleftrightarrow>
     (case pu8IpDestAddr p of
        None \<Rightarrow> \<not> has_flag p eAMP_WIMAX_CS_CLA_FLAG_IPV4_HEADER \<and>
                \<not> has_flag p eAMP_WIMAX_CS_CLA_FLAG_IPV6_HEADER
      | Some bs \<Rightarrow> (has_flag p eAMP_WIMAX_CS_CLA_FLAG_IPV4_HEADER \<longrightarrow> 4 \<le> length bs) \<and>
                   (has_flag p eAMP_WIMAX_CS_CLA_FLAG_IPV6_HEADER \<longrightarrow> 16 \<le> length bs))"

definition addr_match :: "u8 list \<Rightarrow> u8 list \<Rightarrow> u8 list option \<Rightarrow> nat \<Rightarrow> bool" where
  "addr_match e1 e2 p n \<longleftrightarrow>
     (case p of None \<Rightarrow> False | Some bs \<Rightarrow> list_all (\<lambda>i. e1 ! i = bs ! i AND e2 ! i) [0..<n])"

text \<open>
  A packet matches a set of filter components when each of them holds of it, a component
  about a header the packet lacks never doing so.
\<close>

definition tft_matches :: "u64 \<Rightarrow> tPACKET_FILTER \<Rightarrow> packet_result \<Rightarrow> bool" where
  "tft_matches m r p \<longleftrightarrow>
     (let v4 = has_flag p eAMP_WIMAX_CS_CLA_FLAG_IPV4_HEADER;
          v6 = has_flag p eAMP_WIMAX_CS_CLA_FLAG_IPV6_HEADER;
          ports = has_flag p eAMP_WIMAX_CS_CLA_FLAG_PORTS in
      (m AND LTE_CLA_RULE_IPV4_DESTINATION_ADDRESS_TYPE \<noteq> 0 \<longrightarrow> v4 \<and>
         addr_match (sIpv4DestAddrMask_Entry1 r) (sIpv4DestAddrMask_Entry2 r) (pu8IpDestAddr p) 4) \<and>
      (m AND LTE_CLA_RULE_IPV6_DESTINATION_ADDRESS_TYPE \<noteq> 0 \<longrightarrow> v6 \<and>
         addr_match (sIpv6DestAddrMask_Entry1 r) (sIpv6DestAddrMask_Entry2 r) (pu8IpDestAddr p) 16) \<and>
      (m AND LTE_CLA_RULE_DESTINATION_PORT_RANGE_TYPE \<noteq> 0 \<longrightarrow> ports \<and>
         u16DestPort p \<in> {sIpDestPort_Entry1 r .. sIpDestPort_Entry2 r}) \<and>
      (m AND LTE_CLA_RULE_SOURCE_PORT_RANGE_TYPE \<noteq> 0 \<longrightarrow> ports \<and>
         u16SourcePort p \<in> {sIpSrcPort_Entry1 r .. sIpSrcPort_Entry2 r}) \<and>
      (m AND LTE_CLA_RULE_SINGLE_SOURCE_PORT_TYPE \<noteq> 0 \<longrightarrow> ports \<and>
         u16SourcePort p = sIpSrcPort_Entry1 r) \<and>
      (m AND LTE_CLA_RULE_SINGLE_DESTINATION_PORT_TYPE \<noteq> 0 \<longrightarrow> ports \<and>
         u16DestPort p = sIpDestPort_Entry1 r) \<and>
      (m AND LTE_CLA_RULE_PROTOCOL_IDENTIFIER_TYPE \<noteq> 0 \<longrightarrow> (v4 \<or> v6) \<and>
         u8IpProtocol p = sIpProt_Entry r) \<and>
      (m AND LTE_CLA_RULE_FLOW_LABEL_TYPE \<noteq> 0 \<longrightarrow> v6 \<and>
         flow_label (u8Ipv6FlowLabel r) = Inr (u32Ipv6FlowLabel p)) \<and>
      (m AND LTE_CLA_RULE_TYPE_OF_SERVICE_TYPE \<noteq> 0 \<longrightarrow> v4 \<and>
         u8IpTos p AND sDscp_Entry2 r = sDscp_Entry1 r) \<and>
      (m AND LTE_CLA_RULE_TRAFFIC_CLASS_TYPE \<noteq> 0 \<longrightarrow> v6 \<and>
         u8IpTos p AND sDscp_Entry2 r = sDscp_Entry1 r))"

text \<open>The low half of a component mask.\<close>

abbreviation low32 :: "u64 \<Rightarrow> u64" where
  "low32 m \<equiv> take_bit 32 m"

section \<open>The comparison\<close>

lemma cmp_masked_match:
  assumes "n \<le> length e1" "n \<le> length e2" "n \<le> length bs"
  shows "cmp_masked e1 e2 (Some bs) n = Inr (addr_match e1 e2 (Some bs) n)"
  using assms by (induction n) (auto simp: addr_match_def ptr_get_def)

lemma all_components_Inr:
  "all_components [Inr a, Inr b, Inr c, Inr d, Inr e, Inr f, Inr g, Inr h, Inr i, Inr j] =
     Inr (a \<and> b \<and> c \<and> d \<and> e \<and> f \<and> g \<and> h \<and> i \<and> j)"
  by simp

lemma component_Inr:
  "(present \<Longrightarrow> test = Inr t) \<Longrightarrow>
     component (ucast m) cbit present test = Inr (low32 m AND cbit \<noteq> 0 \<longrightarrow> present \<and> t)"
  by (auto simp: component_def unsigned_ucast_eq)

lemma has_flag_or: "has_flag p (a OR b) \<longleftrightarrow> has_flag p a \<or> has_flag p b"
  by (simp add: has_flag_def bit.conj_disj_distrib or_eq_0_iff)

lemma rule_results:
  assumes wf: "rule_wf r" and d: "dest_ok p" and m: "u32ClaMask r \<noteq> 0" and pr: "u16Present p \<noteq> 0"
  shows "QA_CmpRuleResults r p =
     Inr (if tft_matches (low32 (u32ClaMask r)) r p then eAMP_RET_SUCCESS else eAMP_RET_FAIL)"
proof -
  let ?v4 = "has_flag p eAMP_WIMAX_CS_CLA_FLAG_IPV4_HEADER"
    and ?v6 = "has_flag p eAMP_WIMAX_CS_CLA_FLAG_IPV6_HEADER"
  have a4: "cmp_masked (sIpv4DestAddrMask_Entry1 r) (sIpv4DestAddrMask_Entry2 r) (pu8IpDestAddr p) 4 =
      Inr (addr_match (sIpv4DestAddrMask_Entry1 r) (sIpv4DestAddrMask_Entry2 r) (pu8IpDestAddr p) 4)" if ?v4
    using cmp_masked_match wf d that by (auto simp: rule_wf_def dest_ok_def split: option.splits)
  have a6: "cmp_masked (sIpv6DestAddrMask_Entry1 r) (sIpv6DestAddrMask_Entry2 r) (pu8IpDestAddr p) 16 =
      Inr (addr_match (sIpv6DestAddrMask_Entry1 r) (sIpv6DestAddrMask_Entry2 r) (pu8IpDestAddr p) 16)" if ?v6
    using cmp_masked_match wf d that by (auto simp: rule_wf_def dest_ok_def split: option.splits)
  have fl: "rbind (flow_label (u8Ipv6FlowLabel r)) (\<lambda>l. Inr (u32Ipv6FlowLabel p = l)) =
      Inr (flow_label (u8Ipv6FlowLabel r) = Inr (u32Ipv6FlowLabel p))"
    using wf by (auto simp: flow_label_def rule_wf_def)
  have c4: "component (ucast m) cbit ?v4
        (cmp_masked (sIpv4DestAddrMask_Entry1 r) (sIpv4DestAddrMask_Entry2 r) (pu8IpDestAddr p) 4) =
      Inr (low32 m AND cbit \<noteq> 0 \<longrightarrow> ?v4 \<and>
        addr_match (sIpv4DestAddrMask_Entry1 r) (sIpv4DestAddrMask_Entry2 r) (pu8IpDestAddr p) 4)" for m cbit
    by (rule component_Inr) (rule a4)
  have c6: "component (ucast m) cbit ?v6
        (cmp_masked (sIpv6DestAddrMask_Entry1 r) (sIpv6DestAddrMask_Entry2 r) (pu8IpDestAddr p) 16) =
      Inr (low32 m AND cbit \<noteq> 0 \<longrightarrow> ?v6 \<and>
        addr_match (sIpv6DestAddrMask_Entry1 r) (sIpv6DestAddrMask_Entry2 r) (pu8IpDestAddr p) 16)" for m cbit
    by (rule component_Inr) (rule a6)
  note comps = c4 c6 component_Inr [OF fl] component_Inr [OF refl]
  show ?thesis
    unfolding QA_CmpRuleResults_def Let_def has_flag_def [symmetric] comps all_components_Inr rbind_Inr
    by (simp only: m pr if_False tft_matches_def Let_def has_flag_or not_less atLeastAtMost_iff)
qed

section \<open>The search\<close>

text \<open>What makes the search stop at a filter.\<close>

definition applies :: "packet_result \<Rightarrow> tPACKET_FILTER \<Rightarrow> bool" where
  "applies p f \<longleftrightarrow>
     uplink f \<and>
     (u32ClaMask f = LTE_CLA_RULE_MATCH_ALL \<or>
      u32ClaMask f \<noteq> 0 \<and> u16Present p \<noteq> 0 \<and> tft_matches (low32 (u32ClaMask f)) f p)"

definition filters_wf :: "tPACKET_FILTER list \<Rightarrow> bool" where
  "filters_wf fs \<longleftrightarrow> list_all (\<lambda>f. u32ClaMask f = LTE_CLA_RULE_MATCH_ALL \<or> rule_wf f) fs"

lemma try_filter:
  assumes "u32ClaMask f = LTE_CLA_RULE_MATCH_ALL \<or> rule_wf f" "dest_ok p" "uplink f"
  shows "QA_try_filter p f = Inr (if applies p f then eAMP_RET_SUCCESS else eAMP_RET_FAIL)"
proof (cases "u32ClaMask f = LTE_CLA_RULE_MATCH_ALL \<or> u32ClaMask f = 0 \<or> u16Present p = 0")
  case True
  then show ?thesis using assms(3) by (auto simp: QA_try_filter_def applies_def QA_CmpRuleResults_def)
next
  case False
  with assms rule_results [of f p] show ?thesis by (simp add: QA_try_filter_def applies_def)
qed

lemma cla_loop_dseg:
  assumes "dseg h prv p as None" "filters_wf (filters_of h as)" "dest_ok pr" "eRet \<noteq> eAMP_RET_SUCCESS"
  shows "\<exists>ret. QA_cla_loop h pr eRet p = Some (Inr
     (case List.find (applies pr) (filters_of h as) of
        None \<Rightarrow> (ret, None) | Some f \<Rightarrow> (eAMP_RET_SUCCESS, Some (u8EpsId f)))) \<and> ret \<noteq> eAMP_RET_SUCCESS"
  using assms
proof (induction as arbitrary: prv p eRet)
  case Nil
  then show ?case by (simp add: QA_cla_loop.simps filters_of_def)
next
  case (Cons a as)
  then obtain e where e: "h a = Some e" "p = Some a" "dseg h (Some a) (tNextPF e) as None"
    by (auto split: option.splits)
  let ?f = "tPacketFilter e"
  have fs: "filters_of h (a # as) = ?f # filters_of h as" using e by (simp add: filters_of_def)
  with Cons.prems have wf: "filters_wf (filters_of h as)" "u32ClaMask ?f = LTE_CLA_RULE_MATCH_ALL \<or> rule_wf ?f"
    by (simp_all add: filters_wf_def)
  note IH = Cons.IH [OF e(3) wf(1) Cons.prems(3)]
  show ?case
  proof (cases "uplink ?f")
    case False
    then have "\<not> applies pr ?f" by (simp add: applies_def)
    with False e fs IH [OF Cons.prems(4)] show ?thesis by (simp add: QA_cla_loop.simps [of h pr eRet])
  next
    case True
    with e fs try_filter [OF wf(2) Cons.prems(3)] IH [of eAMP_RET_FAIL] Cons.prems(4) show ?thesis
      by (cases "applies pr ?f") (auto simp: QA_cla_loop.simps [of h pr eRet])
  qed
qed

text \<open>In a sorted table the first filter that applies has the least precedence of those that do.\<close>

lemma find_sorted_min:
  assumes "sorted_filters fs" "List.find P fs = Some f" "g \<in> set fs" "P g"
  shows "u8PacketFilterPrecedence f \<le> u8PacketFilterPrecedence g"
  using assms by (induction fs) (auto simp: sorted_filters_def split: if_splits)

text \<open>The packet pointers the network lookup needs.\<close>

definition lookup_ok :: "cla_state \<Rightarrow> bool" where
  "lookup_ok c \<longleftrightarrow>
     (let p = sPacketResult c in
      (case pu8SourceMacAddr p of None \<Rightarrow> False | Some bs \<Rightarrow> ETH_ALEN \<le> length bs) \<and>
      (case pu8IpSourceAddr p of None \<Rightarrow> False
       | Some bs \<Rightarrow> (if u8IpVersion p = 4 then 4 else 16) \<le> length bs))"

lemma find_res_Inr:
  "(\<And>x. x \<in> set xs \<Longrightarrow> \<exists>b. P x = Inr b) \<Longrightarrow>
     \<exists>r. find_res P xs = Inr r \<and> (case r of None \<Rightarrow> True | Some x \<Rightarrow> x \<in> set xs \<and> P x = Inr True)"
proof (induction xs)
  case (Cons x xs)
  then obtain b where "P x = Inr b" by auto
  moreover obtain r where "find_res P xs = Inr r"
    "case r of None \<Rightarrow> True | Some x \<Rightarrow> x \<in> set xs \<and> P x = Inr True" using Cons by auto
  ultimately show ?case by (cases b) (auto split: option.splits)
qed simp

lemma find_res_None: "(\<And>x. x \<in> set xs \<Longrightarrow> P x = Inr False) \<Longrightarrow> find_res P xs = Inr None"
  by (induction xs) auto

lemma pdn_by_addr_unused: "u8PdnType pd = 0 \<Longrightarrow> pdn_by_addr c pd = Inr False"
  by (simp add: pdn_by_addr_def Let_def)

lemma find_pdn_total:
  assumes ok: "qa_ok s ass" and l: "lookup_ok c"
  shows "\<exists>ct < MAX_PDNS. QA_find_pdn s c = Inr ct"
proof -
  have pd: "length (u8SrcMacAddr (gsQa_lte s ! i)) = ETH_ALEN" "length (u8PdnAddress (gsQa_lte s ! i)) = 12"
    if "i < length (gsQa_lte s)" for i
    using qa_ok_pdn [OF ok] qa_ok_len [OF ok] that by (simp_all add: pdn_ok_def)
  have "\<exists>b. pdn_by_mac c (gsQa_lte s ! i) = Inr b" if "i < length (gsQa_lte s)" for i
    using pd [OF that] l by (auto simp: pdn_by_mac_def mem_eq_def lookup_ok_def Let_def split: option.splits)
  then obtain r where r: "find_res (\<lambda>i. pdn_by_mac c (gsQa_lte s ! i)) [0..<length (gsQa_lte s)] = Inr r"
    "case r of None \<Rightarrow> True | Some i \<Rightarrow> i < length (gsQa_lte s)"
    using find_res_Inr [of "[0..<length (gsQa_lte s)]" "\<lambda>i. pdn_by_mac c (gsQa_lte s ! i)"]
    by (auto split: option.splits)
  have "\<exists>b. pdn_by_addr c (gsQa_lte s ! i) = Inr b" if "i < length (gsQa_lte s)" for i
    using pd [OF that] l
    by (auto simp: pdn_by_addr_def mem_eq_def lookup_ok_def Let_def split: option.splits if_splits)
  then obtain r' where r': "find_res (\<lambda>i. pdn_by_addr c (gsQa_lte s ! i)) [0..<length (gsQa_lte s)] = Inr r'"
    "case r' of None \<Rightarrow> True | Some i \<Rightarrow> i < length (gsQa_lte s)"
    using find_res_Inr [of "[0..<length (gsQa_lte s)]" "\<lambda>i. pdn_by_addr c (gsQa_lte s ! i)"]
    by (auto split: option.splits)
  have "0 < MAX_PDNS" by (simp add: max_defs)
  with r r' qa_ok_len(1) [OF ok] show ?thesis
    by (auto simp: QA_find_pdn_def split: option.splits)
qed

section \<open>Results\<close>

lemma cla_first_match:
  assumes ok: "qa_ok s ass" and wf: "list_all filters_wf (tables s ass)"
    and l: "lookup_ok c" and d: "dest_ok (sPacketResult c)"
  shows "\<exists>ct < MAX_PDNS. QA_find_pdn s c = Inr ct \<and>
     (case List.find (applies (sPacketResult c)) (tables s ass ! ct) of
        None \<Rightarrow> \<exists>ret. ret \<noteq> eAMP_RET_SUCCESS \<and> QA_Cla s c = Inr (ret, None)
      | Some f \<Rightarrow> QA_Cla s c = Inr (eAMP_RET_SUCCESS, Some (u8EpsId f)) \<and>
          (\<forall>g \<in> set (tables s ass ! ct). applies (sPacketResult c) g \<longrightarrow>
             u8PacketFilterPrecedence f \<le> u8PacketFilterPrecedence g))"
proof -
  obtain ct where ct: "ct < MAX_PDNS" "QA_find_pdn s c = Inr ct" using find_pdn_total [OF ok l] by blast
  let ?pd = "gsQa_lte s ! ct" and ?fs = "tables s ass ! ct"
  note len = qa_ok_len [OF ok]
  have t: "table_ok (qa_heap s) (tClassifierTable ?pd) (ass ! ct)" "?fs = filters_of (qa_heap s) (ass ! ct)"
    using qa_ok_pdn [OF ok ct(1)] len ct(1) by (simp_all add: pdn_ok_def tables_def)
  have "filters_wf ?fs" using wf len ct(1) by (simp add: list_all_length tables_def)
  then obtain ret where r: "ret \<noteq> eAMP_RET_SUCCESS"
    "QA_cla_loop (qa_heap s) (sPacketResult c) eAMP_RET_WIMAX_QOS_PKT_DROP (tClassifierTable ?pd) =
      Some (Inr (case List.find (applies (sPacketResult c)) ?fs of
        None \<Rightarrow> (ret, None) | Some f \<Rightarrow> (eAMP_RET_SUCCESS, Some (u8EpsId f))))"
    using cla_loop_dseg [of "qa_heap s" None _ "ass ! ct" "sPacketResult c" eAMP_RET_WIMAX_QOS_PKT_DROP] t d
    by (auto simp: table_ok_def dlist_def)
  have run: "QA_Cla s c = Inr (case List.find (applies (sPacketResult c)) ?fs of
        None \<Rightarrow> (ret, None) | Some f \<Rightarrow> (eAMP_RET_SUCCESS, Some (u8EpsId f)))"
    using ct len r(2) by (simp add: QA_Cla_def)
  have "sorted_filters ?fs" using t by (simp add: table_ok_def)
  then have "\<forall>g \<in> set ?fs. applies (sPacketResult c) g \<longrightarrow>
      u8PacketFilterPrecedence f \<le> u8PacketFilterPrecedence g"
    if "List.find (applies (sPacketResult c)) ?fs = Some f" for f
    using find_sorted_min that by blast
  with run r(1) ct show ?thesis by (auto split: option.splits)
qed

text \<open>
  C12. The packet classifier. On a well-formed agent state, for an analysed packet, the
  search ends; when a filter of the packet's network applies to the packet (an uplink
  filter that is the match-all filter or whose components the packet satisfies), the
  bearer returned is that of a filter that applies and no filter that applies has a
  smaller precedence; when none applies the packet is refused and no bearer is stored.
\<close>

theorem QA_Cla_least_precedence:
  assumes "qa_ok s ass" and "list_all filters_wf (tables s ass)"
    and "lookup_ok c" and "dest_ok (sPacketResult c)"
  shows "\<exists>ct < MAX_PDNS. QA_find_pdn s c = Inr ct \<and>
     (case List.find (applies (sPacketResult c)) (tables s ass ! ct) of
        None \<Rightarrow> \<exists>ret. ret \<noteq> eAMP_RET_SUCCESS \<and> QA_Cla s c = Inr (ret, None)
      | Some f \<Rightarrow> QA_Cla s c = Inr (eAMP_RET_SUCCESS, Some (u8EpsId f)) \<and>
          (\<forall>g \<in> set (tables s ass ! ct). applies (sPacketResult c) g \<longrightarrow>
             u8PacketFilterPrecedence f \<le> u8PacketFilterPrecedence g))"
  by (rule cla_first_match [OF assms])

text \<open>
  A state with two filters for bearers 6 and 5, a port filter in front of a match-all
  filter, and a packet to port 80.
\<close>

definition web_filter :: tPACKET_FILTER where
  "web_filter = zero_filter\<lparr>u8EpsId := 6, u8Direction := DIRECTION_TFT_BI,
     u8PacketFilterPrecedence := 10, u32ClaMask := LTE_CLA_RULE_SINGLE_DESTINATION_PORT_TYPE,
     sIpDestPort_Entry1 := 80\<rparr>"

definition all_filter :: tPACKET_FILTER where
  "all_filter = zero_filter\<lparr>u8EpsId := 5, u8Direction := DIRECTION_TFT_BI,
     u8PacketFilterPrecedence := 255, u32ClaMask := LTE_CLA_RULE_MATCH_ALL\<rparr>"

definition web_state :: qa_state where
  "web_state = qa_init\<lparr>
     qa_heap := [2 \<mapsto> \<lparr>tPacketFilter = web_filter, tNextPF = Some 3, tPrevPF = None\<rparr>,
                 3 \<mapsto> \<lparr>tPacketFilter = all_filter, tNextPF = None, tPrevPF = Some 2\<rparr>],
     gsQa_lte := (gsQa_lte qa_init)[0 := zero_pdn\<lparr>tClassifierTable := Some 2\<rparr>]\<rparr>"

definition web_packet :: cla_state where
  "web_packet = cla_init\<lparr>sPacketResult := zero_packet_result\<lparr>u8IpVersion := 4,
     pu8SourceMacAddr := Some (replicate 6 1), pu8IpSourceAddr := Some [10, 0, 0, 2],
     pu8IpDestAddr := Some [1, 2, 3, 4], u16DestPort := 80, u16Present := 0x42\<rparr>\<rparr>"

lemma web_state_ok: "qa_ok web_state [[2, 3], [], [], [], []]"
proof -
  have g: "gsQa_lte web_state = [zero_pdn\<lparr>tClassifierTable := Some 2\<rparr>, zero_pdn, zero_pdn, zero_pdn, zero_pdn]"
    by (simp add: web_state_def qa_init_def max_defs eval_nat_numeral)
  have "filters_of (qa_heap web_state) [2, 3] = [web_filter, all_filter]"
    by (simp add: filters_of_def web_state_def)
  then have "table_ok (qa_heap web_state) (Some 2) [2, 3]"
    by (simp add: table_ok_def dlist_def sorted_filters_def web_state_def web_filter_def all_filter_def)
  then have "pdn_ok (qa_heap web_state) (zero_pdn\<lparr>tClassifierTable := Some 2\<rparr>) [2, 3]"
    using zero_pdn_ok [of "qa_heap web_state"] by (simp add: pdn_ok_def bearers_def)
  then show ?thesis
    unfolding qa_ok_def g by (simp add: zero_pdn_ok max_defs web_state_def)
qed

theorem QA_Cla_least_precedence_witness:
  "QA_Cla web_state web_packet = Inr (eAMP_RET_SUCCESS, Some 6)"
proof -
  have t: "tables web_state [[2, 3], [], [], [], []] = [[web_filter, all_filter], [], [], [], []]"
    by (simp add: tables_def filters_of_def web_state_def)
  have "filters_wf [web_filter, all_filter]" "filters_wf []"
    by (simp_all add: filters_wf_def rule_wf_def web_filter_def all_filter_def zero_filter_def)
  then have wf: "list_all filters_wf (tables web_state [[2, 3], [], [], [], []])" by (simp add: t)
  have l: "lookup_ok web_packet" "dest_ok (sPacketResult web_packet)"
    by (simp_all add: lookup_ok_def dest_ok_def web_packet_def ETH_ALEN_def has_flag_def cla_flag_defs)
  have "list_all (\<lambda>pd. u8PdnType pd = 0) (gsQa_lte web_state)"
    by (simp add: web_state_def qa_init_def max_defs replicate_5 zero_pdn_def list_all_iff)
  then have "find_res (\<lambda>i. pdn_by_addr web_packet (gsQa_lte web_state ! i)) [0..<length (gsQa_lte web_state)] = Inr None"
    by (intro find_res_None) (simp add: pdn_by_addr_unused list_all_length)
  then have ct: "QA_find_pdn web_state web_packet = Inr 0"
    by (simp add: QA_find_pdn_def web_packet_def cla_init_def)
  have ap: "applies (sPacketResult web_packet) web_filter"
    by (simp add: applies_def uplink_def web_filter_def direction_defs tft_matches_def web_packet_def
        cla_rule_defs has_flag_def cla_flag_defs)
  have "u8EpsId web_filter = 6" by (simp add: web_filter_def)
  with QA_Cla_least_precedence [OF web_state_ok wf l] ct ap show ?thesis by (simp add: t)
qed

text \<open>
  C33. The comparison of a packet with a filter whose component mask fits in 32 bits
  succeeds exactly when every component of the mask holds of the packet.
\<close>

theorem QA_CmpRuleResults_correct:
  assumes "rule_wf r" and "dest_ok p" and "u32ClaMask r \<noteq> 0" and "u16Present p \<noteq> 0"
    and "u32ClaMask r < 2 ^ 32"
  shows "QA_CmpRuleResults r p =
     Inr (if tft_matches (u32ClaMask r) r p then eAMP_RET_SUCCESS else eAMP_RET_FAIL)"
proof -
  have "low32 (u32ClaMask r) = u32ClaMask r"
    using assms(5) by (simp add: less_mask_eq take_bit_eq_mask)
  with rule_results [OF assms(1-4)] show ?thesis by simp
qed

theorem QA_CmpRuleResults_correct_witness:
  "QA_CmpRuleResults web_filter (sPacketResult web_packet) = Inr eAMP_RET_SUCCESS \<and>
   QA_CmpRuleResults web_filter ((sPacketResult web_packet)\<lparr>u16DestPort := 81\<rparr>) = Inr eAMP_RET_FAIL"
proof -
  let ?p = "sPacketResult web_packet"
  have wf: "rule_wf web_filter" "u32ClaMask web_filter \<noteq> 0" "u32ClaMask web_filter < 2 ^ 32"
    by (simp_all add: rule_wf_def web_filter_def zero_filter_def cla_rule_defs)
  have p: "dest_ok ?p" "u16Present ?p \<noteq> 0" "dest_ok (?p\<lparr>u16DestPort := 81\<rparr>)"
    "u16Present (?p\<lparr>u16DestPort := 81\<rparr>) \<noteq> 0"
    by (simp_all add: dest_ok_def web_packet_def has_flag_def cla_flag_defs)
  have "tft_matches (u32ClaMask web_filter) web_filter ?p"
    "\<not> tft_matches (u32ClaMask web_filter) web_filter (?p\<lparr>u16DestPort := 81\<rparr>)"
    by (simp_all add: web_filter_def tft_matches_def web_packet_def cla_rule_defs has_flag_def cla_flag_defs)
  with QA_CmpRuleResults_correct [OF wf(1) p(1) wf(2) p(2) wf(3)]
    QA_CmpRuleResults_correct [OF wf(1) p(3) wf(2) p(4) wf(3)] show ?thesis by simp
qed

text \<open>
  The copy of the 64-bit component mask into a 32-bit local drops the type-of-service,
  traffic-class and flow-label components: a filter made of such components only accepts
  every packet with an IP header, whatever its fields.
\<close>

theorem QA_CmpRuleResults_high_bits_ignored:
  assumes "u32ClaMask r = LTE_CLA_RULE_TYPE_OF_SERVICE_TYPE \<or>
           u32ClaMask r = LTE_CLA_RULE_TRAFFIC_CLASS_TYPE \<or>
           u32ClaMask r = LTE_CLA_RULE_FLOW_LABEL_TYPE"
    and "u16Present p \<noteq> 0"
  shows "QA_CmpRuleResults r p = Inr eAMP_RET_SUCCESS"
proof -
  have z: "(ucast (u32ClaMask r) :: u32) = 0" "u32ClaMask r \<noteq> 0" using assms(1) by (auto simp: cla_rule_defs)
  have "component 0 cbit present test = Inr True" for cbit present test by (simp add: component_def)
  with z assms(2) show ?thesis by (simp add: QA_CmpRuleResults_def)
qed

theorem QA_CmpRuleResults_high_bits_ignored_witness:
  "QA_CmpRuleResults (zero_filter\<lparr>u32ClaMask := LTE_CLA_RULE_TYPE_OF_SERVICE_TYPE, sDscp_Entry1 := 0xB8,
      sDscp_Entry2 := 0xFC\<rparr>) (sPacketResult web_packet) = Inr eAMP_RET_SUCCESS \<and>
   \<not> tft_matches LTE_CLA_RULE_TYPE_OF_SERVICE_TYPE (zero_filter\<lparr>sDscp_Entry1 := 0xB8, sDscp_Entry2 := 0xFC\<rparr>)
      (sPacketResult web_packet)"
  using QA_CmpRuleResults_high_bits_ignored [of "zero_filter\<lparr>u32ClaMask := LTE_CLA_RULE_TYPE_OF_SERVICE_TYPE,
      sDscp_Entry1 := 0xB8, sDscp_Entry2 := 0xFC\<rparr>" "sPacketResult web_packet"]
  by (simp add: web_packet_def tft_matches_def cla_rule_defs zero_packet_result_def zero_filter_def)

end
