(* ===== verification/QaExam.thy ===== *)
theory QaExam
  imports QaMatch
begin

text \<open>
  Correctness of the packet examination \<open>QA_CsExam\<close> on IPv4 frames, the whole transmit
  callback on such frames, and the inputs on which the examination reads what it has not
  checked.
\<close>

section \<open>IPv4 frames\<close>

definition ip_raw :: "sk_buff \<Rightarrow> u8 list" where
  "ip_raw skb = drop (network_header skb) (skb_head skb)"

text \<open>
  An Ethernet frame with an IPv4 header of at least 20 bytes, the first four bytes of what
  follows it included in the linear buffer.
\<close>

definition ipv4_frame :: "sk_buff \<Rightarrow> bool" where
  "ipv4_frame skb \<longleftrightarrow>
     (case mac_header skb of None \<Rightarrow> False | Some m \<Rightarrow> m + 12 \<le> length (skb_head skb)) \<and>
     20 \<le> skb_headlen skb \<and> 20 \<le> length (ip_raw skb) \<and> drop_bit 4 (ip_raw skb ! 0) = 4 \<and>
     20 \<le> ihl_bytes (ip_raw skb ! 0) \<and> ihl_bytes (ip_raw skb ! 0) + 4 \<le> length (ip_raw skb)"

definition port_at :: "u8 list \<Rightarrow> nat \<Rightarrow> u16" where
  "port_at bs i = push_bit 8 (ucast (bs ! i)) OR ucast (bs ! Suc i)"

text \<open>What the analysis results say of an IPv4 packet.\<close>

definition ipv4_results :: "u8 list \<Rightarrow> packet_result \<Rightarrow> bool" where
  "ipv4_results raw p \<longleftrightarrow>
     u8IpVersion p = 4 \<and> u8IpTos p = raw ! 1 \<and> u8IpProtocol p = raw ! 9 \<and>
     pu8IpSourceAddr p = Some (drop 12 raw) \<and> pu8IpDestAddr p = Some (drop 16 raw) \<and>
     has_flag p eAMP_WIMAX_CS_CLA_FLAG_IPV4_HEADER \<and>
     \<not> has_flag p eAMP_WIMAX_CS_CLA_FLAG_IPV6_HEADER \<and>
     (let l4 = ihl_bytes (raw ! 0); tp = raw ! 9 = 6 \<or> raw ! 9 = 17 in
      (tp \<longrightarrow> u16SourcePort p = port_at raw l4 \<and> u16DestPort p = port_at raw (l4 + 2)) \<and>
      (has_flag p eAMP_WIMAX_CS_CLA_FLAG_PORTS \<longleftrightarrow>
         tp \<and> (port_at raw (l4 + 2) \<noteq> 0 \<or> port_at raw l4 \<noteq> 0)))"

lemma be16_port: "Suc i < length bs \<Longrightarrow> be16 bs i = Inr (port_at bs i)"
  by (simp add: be16_def port_at_def)

lemma exam_ports_ok:
  "off + 4 \<le> length raw \<Longrightarrow> exam_ports raw off pr =
     Inr (pr\<lparr>u16SourcePort := port_at raw off, u16DestPort := port_at raw (off + 2),
            u16Present := (if port_at raw (off + 2) \<noteq> 0 \<or> port_at raw off \<noteq> 0
                           then u16Present pr OR eAMP_WIMAX_CS_CLA_FLAG_PORTS
                           else u16Present pr)\<rparr>)"
  by (simp add: exam_ports_def be16_port)

lemma cs_exam_ipv4:
  assumes fr: "ipv4_frame skb" and cs: "u8NumActiveCs c \<noteq> 1"
  shows "\<exists>ty c'. QA_CsExam pull c skb = Inr (eAMP_RET_SUCCESS, ty, c') \<and>
     ipv4_results (ip_raw skb) (sPacketResult c') \<and> lookup_ok c' \<and> dest_ok (sPacketResult c')"
proof -
  let ?raw = "ip_raw skb" and ?p0 = "(sPacketResult c)\<lparr>u16Present := 0\<rparr>"
  obtain m where m: "mac_header skb = Some m" "m + 12 \<le> length (skb_head skb)"
    using fr by (auto simp: ipv4_frame_def split: option.splits)
  have l: "20 \<le> length ?raw" "ihl_bytes (?raw ! 0) + 4 \<le> length ?raw" "drop_bit 4 (?raw ! 0) = 4"
    "20 \<le> skb_headlen skb"
    using fr by (auto simp: ipv4_frame_def)
  have g: "arr_get ?raw i = Inr (?raw ! i)" if "i < 20" for i using l(1) that by simp
  let ?p1 = "?p0\<lparr>pu8SourceMacAddr := Some (drop (m + ETH_ALEN) (skb_head skb))\<rparr>"
  let ?p2 = "?p1\<lparr>u8IpVersion := 4, u8IpTos := ?raw ! 1, u8IpProtocol := ?raw ! 9,
       pu8IpSourceAddr := Some (drop 12 ?raw), pu8IpDestAddr := Some (drop 16 ?raw),
       u16Present := eAMP_WIMAX_CS_CLA_FLAG_IPV4_HEADER, n32IpAddressLength := 4\<rparr>"
  have ip: "exam_ip ?raw ?p1 = Inr ?p2" using l by (simp add: exam_ip_def Let_def g)
  obtain p3 where tr: "exam_transport ?raw ?p2 = Inr p3" "ipv4_results ?raw p3"
    "pu8SourceMacAddr p3 = pu8SourceMacAddr ?p1"
  proof (cases "?raw ! 9 = 6 \<or> ?raw ! 9 = 17")
    case True
    with l show ?thesis
      by (intro that [of "?p2\<lparr>u16SourcePort := port_at ?raw (ihl_bytes (?raw ! 0)),
            u16DestPort := port_at ?raw (ihl_bytes (?raw ! 0) + 2),
            u16Present := (if port_at ?raw (ihl_bytes (?raw ! 0) + 2) \<noteq> 0 \<or> port_at ?raw (ihl_bytes (?raw ! 0)) \<noteq> 0
                           then eAMP_WIMAX_CS_CLA_FLAG_IPV4_HEADER OR eAMP_WIMAX_CS_CLA_FLAG_PORTS
                           else eAMP_WIMAX_CS_CLA_FLAG_IPV4_HEADER)\<rparr>"])
         (auto simp: exam_transport_def g exam_ports_ok ipv4_results_def Let_def has_flag_def cla_flag_defs)
  next
    case False
    with l show ?thesis
      by (intro that [of ?p2])
         (auto simp: exam_transport_def g ipv4_results_def Let_def has_flag_def cla_flag_defs)
  qed
  let ?c' = "c\<lparr>sPacketResult := p3\<rparr>"
  have "\<exists>ty. QA_CsExam pull c skb = Inr (eAMP_RET_SUCCESS, ty, ?c')"
    using m l ip tr(1) cs
    by (simp add: QA_CsExam_def pskb_may_pull_def Let_def ip_raw_def [symmetric] exam_cs_type_def)
  moreover have "lookup_ok ?c'" "dest_ok (sPacketResult ?c')" "ipv4_results ?raw (sPacketResult ?c')"
    using tr m l by (auto simp: lookup_ok_def dest_ok_def ipv4_results_def Let_def ETH_ALEN_def)
  ultimately show ?thesis by blast
qed

lemma data_plan_tx_ipv4:
  assumes "qa_ok s ass" and "list_all filters_wf (tables s ass)"
    and "ipv4_frame skb" and "skb_has_dev skb" and "u8NumActiveCs c \<noteq> 1"
  shows "\<exists>c' ct. ct < MAX_PDNS \<and> ipv4_results (ip_raw skb) (sPacketResult c') \<and>
     QA_find_pdn s c' = Inr ct \<and>
     (case List.find (applies (sPacketResult c')) (tables s ass ! ct) of
        None \<Rightarrow> \<exists>ret. ret \<noteq> eAMP_RET_SUCCESS \<and>
          WIMAX_QA_DataPlanTx pull s c (Some skb) True = Inr (ret, Some 14, None, c')
      | Some f \<Rightarrow>
          WIMAX_QA_DataPlanTx pull s c (Some skb) True = Inr (eAMP_RET_SUCCESS, Some 14, Some (u8EpsId f), c'))"
proof -
  obtain ty c' where e: "QA_CsExam pull c skb = Inr (eAMP_RET_SUCCESS, ty, c')"
    "ipv4_results (ip_raw skb) (sPacketResult c')" "lookup_ok c'" "dest_ok (sPacketResult c')"
    using cs_exam_ipv4 [OF assms(3,5)] by blast
  from cla_first_match [OF assms(1,2) e(3,4)] obtain ct where "ct < MAX_PDNS" "QA_find_pdn s c' = Inr ct"
    "case List.find (applies (sPacketResult c')) (tables s ass ! ct) of
        None \<Rightarrow> \<exists>ret. ret \<noteq> eAMP_RET_SUCCESS \<and> QA_Cla s c' = Inr (ret, None)
      | Some f \<Rightarrow> QA_Cla s c' = Inr (eAMP_RET_SUCCESS, Some (u8EpsId f))"
    by (auto split: option.splits)
  with e assms(4) show ?thesis
    by (intro exI [of _ c'] exI [of _ ct])
       (auto simp: WIMAX_QA_DataPlanTx_def QA_Cssdu_def split: option.splits)
qed

text \<open>
  C23. The transmit callback on an IPv4 frame of at least the lengths the code reads: the
  header fields and ports end up in the analysis results, and the packet is sent on the
  bearer of the first filter of its network that applies to them, with the Ethernet
  header length as offset, or refused when no filter applies.
\<close>

theorem WIMAX_QA_DataPlanTx_ipv4:
  assumes "qa_ok s ass" and "list_all filters_wf (tables s ass)"
    and "ipv4_frame skb" and "skb_has_dev skb" and "u8NumActiveCs c \<noteq> 1"
  shows "\<exists>c' ct. ct < MAX_PDNS \<and> ipv4_results (ip_raw skb) (sPacketResult c') \<and>
     QA_find_pdn s c' = Inr ct \<and>
     (case List.find (applies (sPacketResult c')) (tables s ass ! ct) of
        None \<Rightarrow> \<exists>ret. ret \<noteq> eAMP_RET_SUCCESS \<and>
          WIMAX_QA_DataPlanTx pull s c (Some skb) True = Inr (ret, Some 14, None, c')
      | Some f \<Rightarrow>
          WIMAX_QA_DataPlanTx pull s c (Some skb) True = Inr (eAMP_RET_SUCCESS, Some 14, Some (u8EpsId f), c'))"
  using data_plan_tx_ipv4[OF assms] .

text \<open>A TCP segment from 10.0.0.2 port 1024 to 1.2.3.4 port 80.\<close>

definition web_skb :: sk_buff where
  "web_skb = \<lparr>skb_head = replicate 12 1 @ [8, 0] @
      [0x45, 0, 0, 40, 0, 0, 0, 0, 64, 6, 0, 0, 10, 0, 0, 2, 1, 2, 3, 4] @ [4, 0, 0, 80],
     skb_data = 0, skb_len = 38, network_header = 14, mac_header = Some 0, skb_has_dev = True\<rparr>"

lemma web_skb_raw:
  "ip_raw web_skb = [0x45, 0, 0, 40, 0, 0, 0, 0, 64, 6, 0, 0, 10, 0, 0, 2, 1, 2, 3, 4, 4, 0, 0, 80]"
  by (simp add: ip_raw_def web_skb_def)

lemma web_tables: "tables web_state [[2, 3], [], [], [], []] = [[web_filter, all_filter], [], [], [], []]"
  by (simp add: tables_def filters_of_def web_state_def)

lemma web_filters_wf: "list_all filters_wf (tables web_state [[2, 3], [], [], [], []])"
  by (simp add: web_tables filters_wf_def rule_wf_def web_filter_def all_filter_def zero_filter_def)

lemma web_frame: "ipv4_frame web_skb" "skb_has_dev web_skb" "u8NumActiveCs cla_init \<noteq> 1"
  unfolding ipv4_frame_def web_skb_raw
  by (simp_all add: web_skb_def cla_init_def ihl_bytes_def skb_headlen_def)

lemma web_find:
  assumes r: "ipv4_results (ip_raw web_skb) (sPacketResult c')" "QA_find_pdn web_state c' = Inr ct"
  shows "List.find (applies (sPacketResult c')) (tables web_state [[2, 3], [], [], [], []] ! ct) = Some web_filter"
proof -
  have "list_all (\<lambda>pd. u8PdnType pd = 0 \<and> u8SrcMacAddr pd = replicate ETH_ALEN 0) (gsQa_lte web_state)"
    by (simp add: web_state_def qa_init_def max_defs replicate_5 zero_pdn_def list_all_iff ETH_ALEN_def)
  then have "find_res (\<lambda>i. pdn_by_addr c' (gsQa_lte web_state ! i)) [0..<length (gsQa_lte web_state)] = Inr None"
    "find_res (\<lambda>i. pdn_by_mac c' (gsQa_lte web_state ! i)) [0..<length (gsQa_lte web_state)] = Inr None"
    by (auto intro!: find_res_None simp: pdn_by_addr_unused pdn_by_mac_def list_all_length)
  with r(2) have "ct = 0" by (simp add: QA_find_pdn_def split: if_splits)
  moreover have "applies (sPacketResult c') web_filter"
    using r(1) unfolding web_skb_raw
    by (simp add: applies_def uplink_def web_filter_def direction_defs tft_matches_def ipv4_results_def
        cla_rule_defs Let_def port_at_def ihl_bytes_def has_flag_def cla_flag_defs) auto
  ultimately show ?thesis by (simp add: web_tables)
qed

theorem WIMAX_QA_DataPlanTx_ipv4_witness:
  "\<exists>c'. WIMAX_QA_DataPlanTx (\<lambda>_ _. None) web_state cla_init (Some web_skb) True =
     Inr (eAMP_RET_SUCCESS, Some 14, Some 6, c')"
  using WIMAX_QA_DataPlanTx_ipv4 [OF web_state_ok web_filters_wf web_frame, of "\<lambda>_ _. None"] web_find
  by (auto simp: web_filter_def)

section \<open>Reads the examination does not check\<close>

text \<open>
  The only length test asks for 20 linear bytes from \<open>skb->data\<close>. With \<open>data\<close> at
  the Ethernet header that leaves 6 bytes of the IP header, and on a frame whose linear
  part ends before the protocol byte the examination reads past the buffer.
\<close>

theorem QA_CsExam_overreads_short_linear_header:
  assumes "mac_header skb = Some m" and "20 \<le> skb_headlen skb"
    and "drop_bit 4 (ip_raw skb ! 0) = 4" and "ip_raw skb \<noteq> []" and "length (ip_raw skb) < 10"
  shows "QA_CsExam pull c skb = Inl OutOfBounds"
proof -
  have "arr_get (ip_raw skb) 0 = Inr (ip_raw skb ! 0)" using assms(4) by simp
  moreover have "arr_get (ip_raw skb) 9 = Inl OutOfBounds" using assms(5) by (simp add: arr_get_def)
  moreover have "arr_get (ip_raw skb) 1 = Inl OutOfBounds \<or> (\<exists>x. arr_get (ip_raw skb) 1 = Inr x)"
    by (auto simp: arr_get_def)
  ultimately show ?thesis
    using assms(1,2,3)
    by (auto simp: QA_CsExam_def pskb_may_pull_def exam_ip_def Let_def ip_raw_def [symmetric])
qed

theorem QA_CsExam_overreads_short_linear_header_witness:
  "QA_CsExam (\<lambda>_ _. None) cla_init
     \<lparr>skb_head = replicate 12 1 @ [8, 0] @ [0x45, 0, 0, 40, 0, 0], skb_data = 0, skb_len = 54,
      network_header = 14, mac_header = Some 0, skb_has_dev = True\<rparr> = Inl OutOfBounds"
  by (rule QA_CsExam_overreads_short_linear_header [where m = 0]) (simp_all add: ip_raw_def skb_headlen_def)

text \<open>
  Over IPv6 a TCP packet is recognised by byte 9 of the header, which is a byte of the
  source address, instead of the next header field: unless that byte happens to be 6 its
  ports are not extracted and the ports flag stays clear.
\<close>

theorem exam_ipv6_tcp_ports_missed:
  assumes "40 \<le> length raw" and "drop_bit 4 (raw ! 0) = 6" and "raw ! 6 = 6" and "raw ! 9 \<noteq> 6"
    and "u16Present pr = 0"
  shows "\<exists>pr'. rbind (exam_ip raw pr) (exam_transport raw) = Inr pr' \<and>
     u8IpProtocol pr' = 6 \<and> \<not> has_flag pr' eAMP_WIMAX_CS_CLA_FLAG_PORTS \<and>
     u16DestPort pr' = u16DestPort pr \<and> u16SourcePort pr' = u16SourcePort pr"
proof -
  have g: "arr_get raw i = Inr (raw ! i)" if "i < 40" for i using assms(1) that by simp
  show ?thesis
    using assms by (simp add: exam_ip_def exam_transport_def Let_def g has_flag_def cla_flag_defs)
qed

theorem exam_ipv6_tcp_ports_missed_witness:
  "\<exists>pr'. rbind (exam_ip ([0x60, 0, 0, 0, 0, 20, 6, 64] @ replicate 36 1) zero_packet_result)
       (exam_transport ([0x60, 0, 0, 0, 0, 20, 6, 64] @ replicate 36 1)) = Inr pr' \<and>
     u8IpProtocol pr' = 6 \<and> \<not> has_flag pr' eAMP_WIMAX_CS_CLA_FLAG_PORTS"
  using exam_ipv6_tcp_ports_missed [of "[0x60, 0, 0, 0, 0, 20, 6, 64] @ replicate 36 1" zero_packet_result]
  by (auto simp: zero_packet_result_def nth_append)

section \<open>Bridge mode\<close>

lemma find_Some_less: "List.find P [0..<n] = Some i \<Longrightarrow> i < n"
  by (auto simp: find_Some_iff)

lemma find_res_first:
  assumes "i < n" "P i = Inr True" "\<And>j. j < i \<Longrightarrow> P j = Inr False"
  shows "find_res P [0..<n] = Inr (Some i)"
proof -
  have skip: "find_res P (xs @ ys) = find_res P ys" if "\<And>x. x \<in> set xs \<Longrightarrow> P x = Inr False" for xs ys
    using that by (induction xs) auto
  have "[0..<n] = [0..<i] @ i # [Suc i..<n]"
    using assms(1) by (metis add_0 less_imp_add_positive upt_add_eq_append upt_conv_Cons zero_le)
  with skip [of "[0..<i]" "i # [Suc i..<n]"] assms(2,3) show ?thesis by simp
qed

text \<open>
  Setting the MAC address of a default bearer keeps the agent state well formed and
  changes no table; in bridge mode a packet from that address is then classified with that
  bearer's network, unless an earlier network has the same address.
\<close>

theorem lte_qa_set_eps_mac_map_lookup:
  assumes "qa_ok s ass" and "eps \<le> 15" and "find_classifier_table s eps = Some ct"
    and "length mac = ETH_ALEN" and "mac \<noteq> replicate ETH_ALEN 0"
    and "g_lte_qa_global_flags c AND LTEQA_GLOBAL_FLAG_BRIDGE_MODE \<noteq> 0"
    and "pu8SourceMacAddr (sPacketResult c) = Some (mac @ rest)"
    and "\<forall>i < ct. u8SrcMacAddr (gsQa_lte s ! i) \<noteq> mac"
  shows "\<exists>s'. lte_qa_set_eps_mac_map s eps (Some mac) = Inr (True, s') \<and>
     qa_ok s' ass \<and> tables s' ass = tables s ass \<and> QA_find_pdn s' c = Inr ct"
proof -
  let ?pd = "gsQa_lte s ! ct"
  let ?pd' = "?pd\<lparr>u8SrcMacAddr := mac\<rparr>"
  let ?s' = "s\<lparr>gsQa_lte := (gsQa_lte s)[ct := ?pd']\<rparr>"
  note len = qa_ok_len [OF assms(1)]
  have ct: "ct < MAX_PDNS" using assms(3) find_Some_less len by (fastforce simp: find_classifier_table_def)
  have "pdn_ok (qa_heap s) ?pd' (ass ! ct)"
    using qa_ok_pdn [OF assms(1) ct] assms(4) by (simp add: pdn_ok_def bearers_def)
  then have ok: "qa_ok ?s' ass" "tables ?s' ass = tables s ass"
    using qa_ok_step [OF assms(1) ct, of "qa_heap s" ?pd' "ass ! ct" ?s'] by (auto simp: tables_def)
  have run: "lte_qa_set_eps_mac_map s eps (Some mac) = Inr (True, ?s')"
    using assms(2,3,4) ct len by (simp add: lte_qa_set_eps_mac_map_def)
  have "pdn_by_mac c (gsQa_lte ?s' ! j) = Inr False" if "j < ct" for j
    using that assms(7,8) qa_ok_pdn [OF assms(1), of j] ct assms(4)
    by (auto simp: pdn_by_mac_def mem_eq_def pdn_ok_def)
  moreover have "pdn_by_mac c (gsQa_lte ?s' ! ct) = Inr True"
    using assms(4,5,7) ct len by (simp add: pdn_by_mac_def mem_eq_def)
  ultimately have "find_res (\<lambda>i. pdn_by_mac c (gsQa_lte ?s' ! i)) [0..<length (gsQa_lte ?s')] = Inr (Some ct)"
    using ct len by (intro find_res_first) auto
  with assms(6) have "QA_find_pdn ?s' c = Inr ct" by (simp add: QA_find_pdn_def)
  with run ok show ?thesis by blast
qed

theorem lte_qa_set_eps_mac_map_lookup_witness:
  "\<exists>s'. lte_qa_set_eps_mac_map qa_init 0 (Some [2, 0, 0, 0, 0, 1]) = Inr (True, s') \<and>
     QA_find_pdn s' (web_packet\<lparr>g_lte_qa_global_flags := 1, sPacketResult :=
        (sPacketResult web_packet)\<lparr>pu8SourceMacAddr := Some ([2, 0, 0, 0, 0, 1] @ [8, 0])\<rparr>\<rparr>) = Inr 0"
proof -
  have "find_classifier_table qa_init 0 = Some 0"
    by (simp add: find_classifier_table_def qa_init_def max_defs replicate_5 zero_pdn_def zero_tft_def upt_rec)
  moreover have "[2, 0, 0, 0, 0, 1] \<noteq> replicate ETH_ALEN (0 :: u8)" "length [2, 0, 0, 0, 0, 1 :: u8] = ETH_ALEN"
    by (simp_all add: ETH_ALEN_def eval_nat_numeral)
  ultimately show ?thesis
    using lte_qa_set_eps_mac_map_lookup [OF qa_init_ok, of 0 0 "[2, 0, 0, 0, 0, 1]"
      "web_packet\<lparr>g_lte_qa_global_flags := 1, sPacketResult :=
        (sPacketResult web_packet)\<lparr>pu8SourceMacAddr := Some ([2, 0, 0, 0, 0, 1] @ [8, 0])\<rparr>\<rparr>" "[8, 0]"]
    by (auto simp: LTEQA_GLOBAL_FLAG_BRIDGE_MODE_def)
qed

end
