(* ===== verification/UplinkQos.thy ===== *)
theory UplinkQos
  imports Uplink QaExam
begin

text \<open>
  The three drivers together: the transmit callback of the QoS agent, registered with the network
  driver, decides the bearer of a packet that the data driver queues.
\<close>

section \<open>The agent as a handler of the network driver\<close>

text \<open>The values of the return codes, which the network driver compares with 0.\<close>

definition ret_code :: "amp_ret \<Rightarrow> u32" where
  "ret_code r = (case r of eAMP_RET_SUCCESS \<Rightarrow> 0 | eAMP_RET_FAIL \<Rightarrow> - 1 | eAMP_RET_WIMAX_QOS_PKT_DROP \<Rightarrow> 39)"

text \<open>
  The state of the agent is its tables and its analysis state. The examination may make more of
  the packet linear.
\<close>

definition qa_tx_qos ::
  "(sk_buff \<Rightarrow> nat \<Rightarrow> sk_buff option) \<Rightarrow> net_skb \<Rightarrow> qa_state \<times> cla_state \<Rightarrow>
     (u32 \<times> u16 option \<times> u8 option \<times> net_skb \<times> (qa_state \<times> cla_state)) res" where
  "qa_tx_qos pull b sc =
     (case sc of (s, c) \<Rightarrow>
        rbind (WIMAX_QA_DataPlanTx pull s c (Some (pkt b)) True) (\<lambda>(r, off, eps, c1).
        Inr (ret_code r, off, eps,
             b\<lparr>pkt := (case pskb_may_pull pull (pkt b) 20 of None \<Rightarrow> pkt b | Some sk \<Rightarrow> sk)\<rparr>, (s, c1))))"

text \<open>What the initialisation of the agent does to the network driver.\<close>

definition qa_register_handlers :: "('b, 'q) lte_sys \<Rightarrow> ('b, 'q) lte_sys" where
  "qa_register_handlers w =
     (let (_, w1) = net_drv_qos_register w \<lparr>process_tx_packet_qos = Some Registered, process_rx_packet_qos = None\<rparr>;
          (_, w2) = net_drv_set_qos_mode w1 NET_DRV_QOS_MODE_QOS_MODULE in
      w2)"

lemma qa_register_handlers_active:
  "process_tx_packet_qos (g_net_drv_qos_interface_active (qa_register_handlers w)) = Some Registered"
  "process_rx_packet_qos (g_net_drv_qos_interface_active (qa_register_handlers w)) = Some Builtin"
  "g_net_drv_qos_mode (qa_register_handlers w) = NET_DRV_QOS_MODE_QOS_MODULE"
  by (simp_all add: qa_register_handlers_def net_drv_qos_register_def net_drv_set_qos_mode_def
      net_drv_set_active_qos_handers_def NET_DRV_QOS_MODE_QOS_MODULE_def NET_DRV_QOS_MODE_IPTABLES_def Let_def)

section \<open>A packet on its way\<close>

text \<open>The buffer with its header of \<open>n\<close> bytes cut and its bearer stored.\<close>

definition on_bearer :: "u8 \<Rightarrow> nat \<Rightarrow> net_skb \<Rightarrow> net_skb" where
  "on_bearer eps n b = b\<lparr>pkt := (pkt b)\<lparr>skb_data := skb_data (pkt b) + n, skb_len := skb_len (pkt b) - n\<rparr>, skb_cb := (skb_cb b)[0 := eps]\<rparr>"

lemma classify_registered:
  assumes "process_tx_packet_qos (g_net_drv_qos_interface_active w) = Some Registered" "g_net_drv_qos_mode w = NET_DRV_QOS_MODE_QOS_MODULE"
    and "skbs w s = Some b" "devs w a = Some d" "skb_cb b \<noteq> []" "14 \<le> skb_headlen (pkt b)" "14 \<le> skb_len (pkt b)"
    and "env_tx_qos env b (qos w) = Inr (rc, Some 14, eps, b, q)"
  shows "tx_classify env w a s =
    Inr (if rc = 0 then (Some 14, set_skb (w\<lparr>qos := q\<rparr>) s (on_bearer (case eps of None \<Rightarrow> 0 | Some x \<Rightarrow> x) 14 b))
         else (None, set_skb (w\<lparr>qos := q\<rparr>) s b))"
  using assms
  by (simp add: tx_classify_def get_skb_def run_tx_qos_def get_dev_def set_skb_def NET_DRV_QOS_MODE_QOS_MODULE_def
      NET_DRV_QOS_MODE_IPTABLES_def skb_pull_def net_drv_set_skb_eps_id_def on_bearer_def)

text \<open>Updates of the packet and of the agent's state do not concern the data driver.\<close>

lemma client_qos_inv:
  assumes "ul_inv w" "s \<notin> owned w"
  shows "ul_inv (set_skb (w\<lparr>qos := q\<rparr>) s b)" "owned (set_skb (w\<lparr>qos := q\<rparr>) s b) = owned w"
    "dd_attached (set_skb (w\<lparr>qos := q\<rparr>) s b) = dd_attached w"
proof -
  have "client_frame (owned w) w (set_skb (w\<lparr>qos := q\<rparr>) s b)"
    using assms(2) by (auto simp: client_frame_def same_shape_def set_skb_def)
  then show "ul_inv (set_skb (w\<lparr>qos := q\<rparr>) s b)" "owned (set_skb (w\<lparr>qos := q\<rparr>) s b) = owned w"
    "dd_attached (set_skb (w\<lparr>qos := q\<rparr>) s b) = dd_attached w"
    using client_frame_inv[OF assms(1)] by blast+
qed

lemma dev_tx_registered:
  assumes inv: "ul_inv w" and i: "i < NETDRV_MAX_NUM_DEVICES" "pnet (ni_at w i) = Some a" and room: "length (qlist w i) < 64"
    and s: "skbs w s = Some b" "s \<notin> owned w" "skb_cb b \<noteq> []" "14 \<le> skb_headlen (pkt b)" "14 < skb_len (pkt b)"
    and net: "process_tx_packet_qos (g_net_drv_qos_interface_active w) = Some Registered"
      "g_net_drv_qos_mode w = NET_DRV_QOS_MODE_QOS_MODULE" "g_net_drv_global_flags w AND NETDRV_GLOBAL_FLAG_DISABLE_UL = 0"
    and env: "env_tx_start env = lte_dd_tx_data_start e"
    and q: "env_tx_qos env b (qos w) = Inr (0, Some 14, Some eps, b, q')"
  shows "\<exists>w1 w'. net_drv_dev_tx env w s a = Inr (NETDEV_TX_OK, w') \<and>
    skbs w1 = (skbs w)(s \<mapsto> on_bearer eps 14 b) \<and> qlist w1 i = qlist w i @ [s] \<and> ul_inv w1 \<and> ul_step w1 w'"
proof -
  have base: "ul_base w" using inv by (simp add: ul_inv_def)
  obtain d f where d: "devs w a = Some d" "pnet_drv_bus_interface (priv d) = Some i" "pbus (priv d) \<noteq> None" "bus_ifs w i = Some f" "tx_start f"
    using ul_base_fifo(3)[OF base i] by (auto simp: dev_ok_def)
  let ?b = "on_bearer eps 14 b" let ?w = "set_skb (w\<lparr>qos := q'\<rparr>) s ?b"
  have c: "tx_classify env w a s = Inr (Some 14, ?w)" using classify_registered[OF net(1,2) s(1) d(1) s(3,4) _ q] s(5) by simp
  note cl = client_qos_inv[OF inv s(2), of q' ?b]
  have ok: "skb_ok ?w s" using s(3) by (simp add: skb_ok_def on_bearer_def)
  obtain w1 w' where w1: "lte_dd_tx_data_start e a (pbus (priv d)) s ?w = Inr (AMP_ERROR_NONE, w')" "enqueued i s ?w w1" "ul_step w1 w'"
    using tx_data_start_queues[OF cl(1) i(1) _ d(3) _ ok, of a e] i(2) room cl(2) s(2)
    by (auto simp: qlist_def set_skb_def)
  have "net_drv_dev_tx env w s a = Inr (NETDEV_TX_OK, w')"
    using c net(3) s(5) d env w1(1)
    by (simp add: net_drv_dev_tx_def get_skb_def call_tx_start_def get_dev_def bus_if_def on_bearer_def)
  moreover have "qlist w1 i = qlist w i @ [s]" "skbs w1 = (skbs w)(s \<mapsto> ?b)" "ul_inv w1"
    using w1(2) by (simp_all add: enqueued_def qlist_def set_skb_def)
  ultimately show ?thesis using w1(3) by blast
qed

lemma qa_tx_qos_linear:
  assumes "WIMAX_QA_DataPlanTx pull s c (Some (pkt b)) True = Inr (r, off, eps, c1)" "20 \<le> skb_headlen (pkt b)"
  shows "qa_tx_qos pull b (s, c) = Inr (ret_code r, off, eps, b, (s, c1))"
  using assms by (simp add: qa_tx_qos_def pskb_may_pull_def)

lemma dev_tx_unclassified:
  assumes inv: "ul_inv w" and att: "dd_attached w a" and s: "skbs w s = Some b" "s \<notin> owned w" "skb_cb b \<noteq> []"
      "14 \<le> skb_headlen (pkt b)" "14 < skb_len (pkt b)"
    and net: "process_tx_packet_qos (g_net_drv_qos_interface_active w) = Some Registered"
      "g_net_drv_qos_mode w = NET_DRV_QOS_MODE_QOS_MODULE"
    and q: "env_tx_qos env b (qos w) = Inr (rc, Some 14, eps, b, q')" "rc \<noteq> 0"
  shows "\<exists>w'. net_drv_dev_tx env w s a = Inr (NETDEV_TX_OK, w') \<and> ul_inv w' \<and> owned w' = owned w \<and> skbs w' = (skbs w)(s := None)"
proof -
  obtain d where d: "devs w a = Some d" using dd_bus.attached_dev[OF inv att] by blast
  let ?w = "set_skb (w\<lparr>qos := q'\<rparr>) s b"
  have c: "tx_classify env w a s = Inr (None, ?w)" using classify_registered[OF net s(1) d s(3,4) _ q(1)] s(5) q(2) by simp
  note cl = client_qos_inv[OF inv s(2), of q' b]
  have "\<exists>w'. tx_drop ?w a s = Inr (NETDEV_TX_OK, w') \<and> ul_inv w' \<and> dd_attached w' = dd_attached ?w \<and> owned w' = owned ?w \<and>
      skbs w' = (skbs ?w)(s := None)"
    using cl s(2) att by (intro dd_bus.client_drop[where b = b]) (simp_all del: cl)
  then show ?thesis using c cl(2) by (auto simp: net_drv_dev_tx_def)
qed

text \<open>
  C1. The whole way of an IPv4 packet. With the agent registered, a frame the stack transmits on an
  interface with room in its FIFO is compared with the filters of its network. If one applies, the
  packet joins the FIFO without its ethernet header and with the bearer of the first such filter
  in its control block, from where the transfer takes it; if none does, the packet is freed
  and nothing is queued.
\<close>

theorem uplink_ipv4_packet_classified:
  assumes "ul_inv w" and "i < NETDRV_MAX_NUM_DEVICES" and "pnet (ni_at w i) = Some a" and "length (qlist w i) < 64"
    and "skbs w s = Some b" and "s \<notin> owned w" and "skb_cb b \<noteq> []" and "14 < skb_len (pkt b)"
    and "process_tx_packet_qos (g_net_drv_qos_interface_active w) = Some Registered"
    and "g_net_drv_qos_mode w = NET_DRV_QOS_MODE_QOS_MODULE"
    and "g_net_drv_global_flags w AND NETDRV_GLOBAL_FLAG_DISABLE_UL = 0"
    and "env_tx_start env = lte_dd_tx_data_start e" and "env_tx_qos env = qa_tx_qos pull" and "qos w = (qs, c)"
    and "qa_ok qs ass" and "list_all filters_wf (tables qs ass)"
    and "ipv4_frame (pkt b)" and "skb_has_dev (pkt b)" and "u8NumActiveCs c \<noteq> 1"
  shows "\<exists>c' ct. ct < MAX_PDNS \<and> ipv4_results (ip_raw (pkt b)) (sPacketResult c') \<and> QA_find_pdn qs c' = Inr ct \<and>
     (case List.find (applies (sPacketResult c')) (tables qs ass ! ct) of
        None \<Rightarrow> \<exists>w'. net_drv_dev_tx env w s a = Inr (NETDEV_TX_OK, w') \<and> ul_inv w' \<and> owned w' = owned w \<and>
          skbs w' = (skbs w)(s := None)
      | Some f \<Rightarrow> \<exists>w1 w'. net_drv_dev_tx env w s a = Inr (NETDEV_TX_OK, w') \<and>
          skbs w1 = (skbs w)(s \<mapsto> on_bearer (u8EpsId f) 14 b) \<and> qlist w1 i = qlist w i @ [s] \<and> ul_inv w1 \<and> ul_step w1 w')"
proof -
  have hl: "20 \<le> skb_headlen (pkt b)" "14 \<le> skb_headlen (pkt b)" using assms(17) by (auto simp: ipv4_frame_def)
  have att: "dd_attached w a" using assms(2,3) by (auto simp: dd_attached_def)
  obtain c' ct where r: "ct < MAX_PDNS" "ipv4_results (ip_raw (pkt b)) (sPacketResult c')" "QA_find_pdn qs c' = Inr ct"
    "case List.find (applies (sPacketResult c')) (tables qs ass ! ct) of
        None \<Rightarrow> \<exists>ret. ret \<noteq> eAMP_RET_SUCCESS \<and> WIMAX_QA_DataPlanTx pull qs c (Some (pkt b)) True = Inr (ret, Some 14, None, c')
      | Some f \<Rightarrow> WIMAX_QA_DataPlanTx pull qs c (Some (pkt b)) True = Inr (eAMP_RET_SUCCESS, Some 14, Some (u8EpsId f), c')"
    using data_plan_tx_ipv4[OF assms(15-19), of pull] by blast
  show ?thesis
  proof (cases "List.find (applies (sPacketResult c')) (tables qs ass ! ct)")
    case None
    then obtain ret where ret: "ret \<noteq> eAMP_RET_SUCCESS" "WIMAX_QA_DataPlanTx pull qs c (Some (pkt b)) True = Inr (ret, Some 14, None, c')"
      using r(4) by auto
    have "env_tx_qos env b (qos w) = Inr (ret_code ret, Some 14, None, b, (qs, c'))"
      using qa_tx_qos_linear[OF ret(2) hl(1)] assms(13,14) by simp
    from dev_tx_unclassified[OF assms(1) att assms(5-7) hl(2) assms(8-10) this] ret(1)
    have "\<exists>w'. net_drv_dev_tx env w s a = Inr (NETDEV_TX_OK, w') \<and> ul_inv w' \<and> owned w' = owned w \<and> skbs w' = (skbs w)(s := None)"
      by (cases ret) (auto simp: ret_code_def)
    then show ?thesis using r(1-3) None by (intro exI[of _ c'] exI[of _ ct]) simp
  next
    case (Some f)
    then have "WIMAX_QA_DataPlanTx pull qs c (Some (pkt b)) True = Inr (eAMP_RET_SUCCESS, Some 14, Some (u8EpsId f), c')" using r(4) by simp
    from qa_tx_qos_linear[OF this hl(1)] have "env_tx_qos env b (qos w) = Inr (0, Some 14, Some (u8EpsId f), b, (qs, c'))"
      using assms(13,14) by (simp add: ret_code_def)
    from dev_tx_registered[OF assms(1-7) hl(2) assms(8-12) this] show ?thesis
      using r(1-3) Some by (intro exI[of _ c'] exI[of _ ct]) simp
  qed
qed

text \<open>The web packet of the agent's example, on an empty \<open>lte0\<close>, is queued for bearer 6.\<close>

definition web_sys :: "(qa_state \<times> cla_state) dd_sys" where
  "web_sys = qa_register_handlers (set_skb (lte0_sys 0 0 0 (web_state, cla_init)) 64 \<lparr>pkt = web_skb, skb_cb = replicate 48 0\<rparr>)"

definition web_env :: "(lte_dd_dev_t, qa_state \<times> cla_state) net_env" where
  "web_env = (lte0_net (lte0_env (IPC_4GHIF_STATUS_OK, 1)))\<lparr>env_tx_qos := qa_tx_qos (\<lambda>_ _. None)\<rparr>"

lemma web_sys_inv:
  "ul_inv web_sys" "owned web_sys = {}" "pnet (ni_at web_sys 0) = Some 0" "qlist web_sys 0 = []"
proof -
  let ?w = "lte0_sys 0 0 0 (web_state, cla_init)"
  have inv: "ul_inv ?w" and o: "owned ?w = {}" using lte0_inv[of 0 0 0 "(web_state, cla_init)"] lte0_owned[of 0 0 0 "(web_state, cla_init)"] by simp_all
  have 0: "0 < NETDRV_MAX_NUM_DEVICES" by (simp add: NETDRV_MAX_NUM_DEVICES_def)
  have fr: "client_frame (owned ?w) ?w web_sys" and bus: "bus web_sys = bus ?w"
    using o by (simp_all add: client_frame_def same_shape_def web_sys_def qa_register_handlers_def net_drv_qos_register_def
        net_drv_set_qos_mode_def net_drv_set_active_qos_handers_def Let_def set_skb_def)
  show "ul_inv web_sys" "owned web_sys = {}" using client_frame_inv[OF inv fr] o by simp_all
  show "pnet (ni_at web_sys 0) = Some 0" "qlist web_sys 0 = []"
    using lte0_ni[OF 0, of 0 0 0 "(web_state, cla_init)"] lte0_qlist[OF _ 0, of 0 0 0 "(web_state, cla_init)"] bus
    by (simp_all add: qlist_def)
qed

lemma web_sys_config:
  "skbs web_sys 64 = Some \<lparr>pkt = web_skb, skb_cb = replicate 48 0\<rparr>" "qos web_sys = (web_state, cla_init)"
  "g_net_drv_global_flags web_sys = 0"
  by (simp_all add: web_sys_def qa_register_handlers_def net_drv_qos_register_def net_drv_set_qos_mode_def
      net_drv_set_active_qos_handers_def Let_def set_skb_def) (simp_all add: lte0_sys_def Let_def)

theorem uplink_ipv4_packet_classified_witness:
  "\<exists>w1 w'. net_drv_dev_tx web_env web_sys 64 0 = Inr (NETDEV_TX_OK, w') \<and> qlist w1 0 = [64] \<and>
     skbs w1 64 = Some (on_bearer 6 14 \<lparr>pkt = web_skb, skb_cb = replicate 48 0\<rparr>) \<and> ul_step w1 w'"
proof -
  let ?b = "\<lparr>pkt = web_skb, skb_cb = replicate 48 0\<rparr>"
  have n: "0 < NETDRV_MAX_NUM_DEVICES" "length (qlist web_sys 0) < 64" "64 \<notin> owned web_sys" "skb_cb ?b \<noteq> []" "14 < skb_len (pkt ?b)"
    using web_sys_inv by (simp_all add: NETDRV_MAX_NUM_DEVICES_def web_skb_def)
  have h: "process_tx_packet_qos (g_net_drv_qos_interface_active web_sys) = Some Registered"
    "g_net_drv_qos_mode web_sys = NET_DRV_QOS_MODE_QOS_MODULE"
    using qa_register_handlers_active by (simp_all add: web_sys_def)
  have fl: "g_net_drv_global_flags web_sys AND NETDRV_GLOBAL_FLAG_DISABLE_UL = 0" by (simp add: web_sys_config)
  have e: "env_tx_start web_env = lte_dd_tx_data_start (lte0_env (IPC_4GHIF_STATUS_OK, 1))" "env_tx_qos web_env = qa_tx_qos (\<lambda>_ _. None)"
    by (simp_all add: web_env_def lte0_net_def)
  have f: "ipv4_frame (pkt ?b)" "skb_has_dev (pkt ?b)" using web_frame by simp_all
  obtain c' ct where r: "ipv4_results (ip_raw web_skb) (sPacketResult c')" "QA_find_pdn web_state c' = Inr ct"
    "case List.find (applies (sPacketResult c')) (tables web_state [[2, 3], [], [], [], []] ! ct) of
        None \<Rightarrow> \<exists>w'. net_drv_dev_tx web_env web_sys 64 0 = Inr (NETDEV_TX_OK, w') \<and> ul_inv w' \<and> owned w' = owned web_sys \<and>
          skbs w' = (skbs web_sys)(64 := None)
      | Some f \<Rightarrow> \<exists>w1 w'. net_drv_dev_tx web_env web_sys 64 0 = Inr (NETDEV_TX_OK, w') \<and>
          skbs w1 = (skbs web_sys)(64 \<mapsto> on_bearer (u8EpsId f) 14 ?b) \<and> qlist w1 0 = qlist web_sys 0 @ [64] \<and> ul_inv w1 \<and> ul_step w1 w'"
    using uplink_ipv4_packet_classified[OF web_sys_inv(1) n(1) web_sys_inv(3) n(2) web_sys_config(1) n(3-5) h fl e
        web_sys_config(2) web_state_ok web_filters_wf f web_frame(3)] by auto
  have "u8EpsId web_filter = 6" by (simp add: web_filter_def)
  then obtain w1 w' where "net_drv_dev_tx web_env web_sys 64 0 = Inr (NETDEV_TX_OK, w')" "qlist w1 0 = [64]" "ul_step w1 w'"
    "skbs w1 = (skbs web_sys)(64 \<mapsto> on_bearer 6 14 ?b)"
    using r(3) web_find[OF r(1,2)] web_sys_inv(4) by auto
  then show ?thesis by (intro exI[of _ w1] exI[of _ w']) simp
qed

end
