(* ===== verification/UlMm.thy ===== *)
theory UlMm
  imports LtePrelude
begin

text \<open>
  The uplink memory manager of the baseband interface, the buddy variant of
  src/kernel/drivers/usb/ipchost/ipc_4ghif_mm.c that the build selects. 384 KB of shared memory
  are 48 pages of 16 sectors; a page holds blocks of one size, 8 KB, 2 KB or 512 bytes. Six bit
  fields say what each page is used for, one word per page which of its sectors are in use.

  The bit fields are abstracted to sets of pages and the whole state to a partial function from
  the addresses of the blocks in use to their sizes. Allocation adds a block to it that overlaps
  no other, and fails only when no page has room; freeing removes the block. The contract is the
  locale \<open>block_memory\<close>. The code holds a spinlock over each update of the bit fields.
\<close>

section \<open>Code\<close>

definition MM_MEM_BASE_ADR :: u32 where "MM_MEM_BASE_ADR = 0x81080000"
definition MM_MEM_SIZE :: u32 where "MM_MEM_SIZE = 384 * 1024"
definition MM_PAGE_SIZE :: u32 where "MM_PAGE_SIZE = 8192"
definition MM_SECTOR_SIZE :: u32 where "MM_SECTOR_SIZE = 512"
definition MM_NB_PAGE :: nat where "MM_NB_PAGE = 48"
definition MM_STAT_ALLOC_NB :: nat where "MM_STAT_ALLOC_NB = 1024"

lemmas mm_const_defs = MM_MEM_BASE_ADR_def MM_MEM_SIZE_def MM_PAGE_SIZE_def MM_SECTOR_SIZE_def MM_NB_PAGE_def
  MM_STAT_ALLOC_NB_def

record mm_state =
  mm_bf_pool_pages :: "u16 list"
  mm_bf_2k_pages_partial :: "u16 list"
  mm_bf_512_pages_partial :: "u16 list"
  mm_bf_8k_pages_full :: "u16 list"
  mm_bf_2k_pages_full :: "u16 list"
  mm_bf_512_pages_full :: "u16 list"
  mm_bf_sectors_used :: "u16 list"
  mm_stat_alloc_size :: "u16 list"
  mm_stat_alloc_ind :: u16
  mm_stat_min_size_allocated :: u16
  mm_stat_max_size_allocated :: u16
  mm_stat_8k_blocks_allocated_from_start :: u32
  mm_stat_2k_blocks_allocated_from_start :: u32
  mm_stat_512_blocks_allocated_from_start :: u32
  mm_stat_8k_alloc_failure :: u16
  mm_stat_2k_alloc_failure :: u16
  mm_stat_512_alloc_failure :: u16
  mm_stat_8k_blocks_bytes_from_start :: u32
  mm_stat_2k_blocks_bytes_from_start :: u32
  mm_stat_512_blocks_bytes_from_start :: u32
  mm_stat_8k_blocks_below_4k :: u32
  mm_stat_2k_blocks_below_1k :: u32
  mm_stat_512_blocks_below_256 :: u32

subsection \<open>Bit fields\<close>

definition first_one_bit_index_in_u16 :: "u16 \<Rightarrow> int" where
  "first_one_bit_index_in_u16 bf =
     (if bf = 0 then -1
      else if bf AND 0xff \<noteq> 0 then
        if bf AND 0xf \<noteq> 0 then
          if bf AND 0x3 \<noteq> 0 then (if bf AND 0x1 \<noteq> 0 then 0 else 1) else (if bf AND 0x4 \<noteq> 0 then 2 else 3)
        else
          if bf AND 0x30 \<noteq> 0 then (if bf AND 0x10 \<noteq> 0 then 4 else 5) else (if bf AND 0x40 \<noteq> 0 then 6 else 7)
      else
        if bf AND 0xf00 \<noteq> 0 then
          if bf AND 0x300 \<noteq> 0 then (if bf AND 0x100 \<noteq> 0 then 8 else 9) else (if bf AND 0x400 \<noteq> 0 then 10 else 11)
        else
          if bf AND 0x3000 \<noteq> 0 then (if bf AND 0x1000 \<noteq> 0 then 12 else 13) else (if bf AND 0x4000 \<noteq> 0 then 14 else 15))"

definition first_zero_bit_index_in_u16 :: "u16 \<Rightarrow> int" where
  "first_zero_bit_index_in_u16 bf = first_one_bit_index_in_u16 (bf XOR 0xffff)"

definition find_page_in_mm_bf_pages :: "u16 list \<Rightarrow> int res" where
  "find_page_in_mm_bf_pages tab =
     rbind (arr_get tab 0) (\<lambda>t0.
     if t0 \<noteq> 0 then Inr (first_one_bit_index_in_u16 t0)
     else rbind (arr_get tab 1) (\<lambda>t1.
     if t1 \<noteq> 0 then Inr (16 + first_one_bit_index_in_u16 t1)
     else rbind (arr_get tab 2) (\<lambda>t2.
     if t2 \<noteq> 0 then Inr (32 + first_one_bit_index_in_u16 t2)
     else Inr (-1))))"

primrec one_bits :: "nat \<Rightarrow> u16 \<Rightarrow> int" where
  "one_bits 0 word = 0"
| "one_bits (Suc i) word = one_bits i word + (if word AND push_bit i 1 \<noteq> 0 then 1 else 0)"

definition get_1_nb_bit_in_u16 :: "u16 \<Rightarrow> int" where
  "get_1_nb_bit_in_u16 word = one_bits 16 word"

text \<open>The statements that clear, set and test the bit of a page.\<close>

definition bf_clear :: "u16 list \<Rightarrow> nat \<Rightarrow> u16 list res" where
  "bf_clear tab page =
     rbind (arr_get tab (page div 16)) (\<lambda>x.
     arr_put tab (page div 16) (x AND (0xffff XOR push_bit (page AND 0x0f) 1)))"

definition bf_set :: "u16 list \<Rightarrow> nat \<Rightarrow> u16 list res" where
  "bf_set tab page =
     rbind (arr_get tab (page div 16)) (\<lambda>x.
     arr_put tab (page div 16) (x OR push_bit (page AND 0x0f) 1))"

definition mm_adr :: "nat \<Rightarrow> nat \<Rightarrow> u32" where
  "mm_adr page sector = MM_MEM_BASE_ADR + of_nat page * MM_PAGE_SIZE + of_nat sector * MM_SECTOR_SIZE"

subsection \<open>Allocation\<close>

definition allocate_8k :: "mm_state \<Rightarrow> (u32 \<times> mm_state) res" where
  "allocate_8k s =
     rbind (find_page_in_mm_bf_pages (mm_bf_pool_pages s)) (\<lambda>page.
     if page = -1 then Inr (0, s)
     else let p = nat page in
       rbind (bf_clear (mm_bf_pool_pages s) p) (\<lambda>pool.
       rbind (bf_set (mm_bf_8k_pages_full s) p) (\<lambda>full.
       rbind (arr_put (mm_bf_sectors_used s) p 0xffff) (\<lambda>used.
       Inr (mm_adr p 0, s\<lparr>mm_bf_pool_pages := pool, mm_bf_8k_pages_full := full, mm_bf_sectors_used := used\<rparr>)))))"

definition allocate_2k :: "mm_state \<Rightarrow> (u32 \<times> mm_state) res" where
  "allocate_2k s =
     rbind (find_page_in_mm_bf_pages (mm_bf_2k_pages_partial s)) (\<lambda>page.
     if page = -1 then
       rbind (find_page_in_mm_bf_pages (mm_bf_pool_pages s)) (\<lambda>page.
       if page = -1 then Inr (0, s)
       else let p = nat page in
         rbind (bf_clear (mm_bf_pool_pages s) p) (\<lambda>pool.
         rbind (bf_set (mm_bf_2k_pages_partial s) p) (\<lambda>partial.
         rbind (arr_put (mm_bf_sectors_used s) p 0x000f) (\<lambda>used.
         Inr (mm_adr p 0, s\<lparr>mm_bf_pool_pages := pool, mm_bf_2k_pages_partial := partial, mm_bf_sectors_used := used\<rparr>)))))
     else let p = nat page in
       rbind (arr_get (mm_bf_sectors_used s) p) (\<lambda>u.
       let sector = first_zero_bit_index_in_u16 u in
       if sector = -1 then Inl Panic
       else let u' = u OR push_bit (nat sector) 0xf in
         rbind (arr_put (mm_bf_sectors_used s) p u') (\<lambda>used.
         let s1 = s\<lparr>mm_bf_sectors_used := used\<rparr> in
         if u' = 0xffff then
           rbind (bf_clear (mm_bf_2k_pages_partial s1) p) (\<lambda>partial.
           rbind (bf_set (mm_bf_2k_pages_full s1) p) (\<lambda>full.
           Inr (mm_adr p (nat sector), s1\<lparr>mm_bf_2k_pages_partial := partial, mm_bf_2k_pages_full := full\<rparr>)))
         else Inr (mm_adr p (nat sector), s1))))"

definition allocate_512 :: "mm_state \<Rightarrow> (u32 \<times> mm_state) res" where
  "allocate_512 s =
     rbind (find_page_in_mm_bf_pages (mm_bf_512_pages_partial s)) (\<lambda>page.
     if page = -1 then
       rbind (find_page_in_mm_bf_pages (mm_bf_pool_pages s)) (\<lambda>page.
       if page = -1 then Inr (0, s)
       else let p = nat page in
         rbind (bf_clear (mm_bf_pool_pages s) p) (\<lambda>pool.
         rbind (bf_set (mm_bf_512_pages_partial s) p) (\<lambda>partial.
         rbind (arr_put (mm_bf_sectors_used s) p 1) (\<lambda>used.
         Inr (mm_adr p 0, s\<lparr>mm_bf_pool_pages := pool, mm_bf_512_pages_partial := partial, mm_bf_sectors_used := used\<rparr>)))))
     else let p = nat page in
       rbind (arr_get (mm_bf_sectors_used s) p) (\<lambda>u.
       let sector = first_zero_bit_index_in_u16 u in
       if sector = -1 then Inl Panic
       else let u' = u OR push_bit (nat sector) 1 in
         rbind (arr_put (mm_bf_sectors_used s) p u') (\<lambda>used.
         let s1 = s\<lparr>mm_bf_sectors_used := used\<rparr> in
         if u' = 0xffff then
           rbind (bf_clear (mm_bf_512_pages_partial s1) p) (\<lambda>partial.
           rbind (bf_set (mm_bf_512_pages_full s1) p) (\<lambda>full.
           Inr (mm_adr p (nat sector), s1\<lparr>mm_bf_512_pages_partial := partial, mm_bf_512_pages_full := full\<rparr>)))
         else Inr (mm_adr p (nat sector), s1))))"

subsection \<open>Release\<close>

definition free_8k :: "mm_state \<Rightarrow> nat \<Rightarrow> mm_state res" where
  "free_8k s page =
     rbind (arr_put (mm_bf_sectors_used s) page 0) (\<lambda>used.
     rbind (bf_clear (mm_bf_8k_pages_full s) page) (\<lambda>full.
     rbind (bf_set (mm_bf_pool_pages s) page) (\<lambda>pool.
     Inr (s\<lparr>mm_bf_sectors_used := used, mm_bf_8k_pages_full := full, mm_bf_pool_pages := pool\<rparr>))))"

definition free_2k :: "mm_state \<Rightarrow> nat \<Rightarrow> nat \<Rightarrow> mm_state res" where
  "free_2k s page sector =
     (if sector mod 4 \<noteq> 0 then Inl Panic
      else rbind (arr_get (mm_bf_sectors_used s) page) (\<lambda>u.
        rbind (if u = 0xffff then
                 rbind (bf_clear (mm_bf_2k_pages_full s) page) (\<lambda>full.
                 rbind (bf_set (mm_bf_2k_pages_partial s) page) (\<lambda>partial.
                 Inr (s\<lparr>mm_bf_2k_pages_full := full, mm_bf_2k_pages_partial := partial\<rparr>)))
               else Inr s) (\<lambda>s1.
        let u' = u AND (0xffff XOR push_bit sector 0xf) in
        rbind (arr_put (mm_bf_sectors_used s1) page u') (\<lambda>used.
        let s2 = s1\<lparr>mm_bf_sectors_used := used\<rparr> in
        if u' = 0 then
          rbind (bf_clear (mm_bf_2k_pages_partial s2) page) (\<lambda>partial.
          rbind (bf_set (mm_bf_pool_pages s2) page) (\<lambda>pool.
          Inr (s2\<lparr>mm_bf_2k_pages_partial := partial, mm_bf_pool_pages := pool\<rparr>)))
        else Inr s2))))"

definition free_512 :: "mm_state \<Rightarrow> nat \<Rightarrow> nat \<Rightarrow> mm_state res" where
  "free_512 s page sector =
     rbind (arr_get (mm_bf_sectors_used s) page) (\<lambda>u.
     rbind (if u = 0xffff then
              rbind (bf_clear (mm_bf_512_pages_full s) page) (\<lambda>full.
              rbind (bf_set (mm_bf_512_pages_partial s) page) (\<lambda>partial.
              Inr (s\<lparr>mm_bf_512_pages_full := full, mm_bf_512_pages_partial := partial\<rparr>)))
            else Inr s) (\<lambda>s1.
     let u' = u AND (0xffff XOR push_bit sector 1) in
     rbind (arr_put (mm_bf_sectors_used s1) page u') (\<lambda>used.
     let s2 = s1\<lparr>mm_bf_sectors_used := used\<rparr> in
     if u' = 0 then
       rbind (bf_clear (mm_bf_512_pages_partial s2) page) (\<lambda>partial.
       rbind (bf_set (mm_bf_pool_pages s2) page) (\<lambda>pool.
       Inr (s2\<lparr>mm_bf_512_pages_partial := partial, mm_bf_pool_pages := pool\<rparr>)))
     else Inr s2)))"

subsection \<open>The manager\<close>

definition IPC_4GHIF_data_ul_mm_buddy_init :: mm_state where
  "IPC_4GHIF_data_ul_mm_buddy_init =
     \<lparr>mm_bf_pool_pages = replicate 3 0xffff, mm_bf_2k_pages_partial = replicate 3 0,
      mm_bf_512_pages_partial = replicate 3 0, mm_bf_8k_pages_full = replicate 3 0,
      mm_bf_2k_pages_full = replicate 3 0, mm_bf_512_pages_full = replicate 3 0,
      mm_bf_sectors_used = replicate MM_NB_PAGE 0, mm_stat_alloc_size = replicate MM_STAT_ALLOC_NB 0xffff,
      mm_stat_alloc_ind = 0, mm_stat_min_size_allocated = 0xffff, mm_stat_max_size_allocated = 0,
      mm_stat_8k_blocks_allocated_from_start = 0, mm_stat_2k_blocks_allocated_from_start = 0,
      mm_stat_512_blocks_allocated_from_start = 0, mm_stat_8k_alloc_failure = 0, mm_stat_2k_alloc_failure = 0,
      mm_stat_512_alloc_failure = 0, mm_stat_8k_blocks_bytes_from_start = 0,
      mm_stat_2k_blocks_bytes_from_start = 0, mm_stat_512_blocks_bytes_from_start = 0,
      mm_stat_8k_blocks_below_4k = 0, mm_stat_2k_blocks_below_1k = 0, mm_stat_512_blocks_below_256 = 0\<rparr>"

definition mm_note_size :: "mm_state \<Rightarrow> u16 \<Rightarrow> mm_state res" where
  "mm_note_size s sz =
     rbind (arr_put (mm_stat_alloc_size s) (unat (mm_stat_alloc_ind s)) sz) (\<lambda>sizes.
     let ind = mm_stat_alloc_ind s + 1 in
     Inr (s\<lparr>mm_stat_min_size_allocated :=
              (if sz < mm_stat_min_size_allocated s then sz else mm_stat_min_size_allocated s),
            mm_stat_max_size_allocated :=
              (if mm_stat_max_size_allocated s < sz then sz else mm_stat_max_size_allocated s),
            mm_stat_alloc_size := sizes,
            mm_stat_alloc_ind := (if ind = of_nat MM_STAT_ALLOC_NB then 0 else ind)\<rparr>))"

definition mm_count_8k :: "u16 \<Rightarrow> u32 \<Rightarrow> mm_state \<Rightarrow> mm_state" where
  "mm_count_8k sz adr s =
     (if adr \<noteq> 0 then
        s\<lparr>mm_stat_8k_blocks_allocated_from_start := mm_stat_8k_blocks_allocated_from_start s + 1,
          mm_stat_8k_blocks_bytes_from_start := mm_stat_8k_blocks_bytes_from_start s + ucast sz,
          mm_stat_8k_blocks_below_4k := mm_stat_8k_blocks_below_4k s + (if sz \<le> 4096 then 1 else 0)\<rparr>
      else s\<lparr>mm_stat_8k_alloc_failure := mm_stat_8k_alloc_failure s + 1\<rparr>)"

definition mm_count_2k :: "u16 \<Rightarrow> u32 \<Rightarrow> mm_state \<Rightarrow> mm_state" where
  "mm_count_2k sz adr s =
     (if adr \<noteq> 0 then
        s\<lparr>mm_stat_2k_blocks_allocated_from_start := mm_stat_2k_blocks_allocated_from_start s + 1,
          mm_stat_2k_blocks_bytes_from_start := mm_stat_2k_blocks_bytes_from_start s + ucast sz,
          mm_stat_2k_blocks_below_1k := mm_stat_2k_blocks_below_1k s + (if sz \<le> 1024 then 1 else 0)\<rparr>
      else s\<lparr>mm_stat_2k_alloc_failure := mm_stat_2k_alloc_failure s + 1\<rparr>)"

definition mm_count_512 :: "u16 \<Rightarrow> u32 \<Rightarrow> mm_state \<Rightarrow> mm_state" where
  "mm_count_512 sz adr s =
     (if adr \<noteq> 0 then
        s\<lparr>mm_stat_512_blocks_allocated_from_start := mm_stat_512_blocks_allocated_from_start s + 1,
          mm_stat_512_blocks_bytes_from_start := mm_stat_512_blocks_bytes_from_start s + ucast sz,
          mm_stat_512_blocks_below_256 := mm_stat_512_blocks_below_256 s + (if sz \<le> 256 then 1 else 0)\<rparr>
      else s\<lparr>mm_stat_512_alloc_failure := mm_stat_512_alloc_failure s + 1\<rparr>)"

definition IPC_4GHIF_data_ul_mm_buddy_alloc :: "mm_state \<Rightarrow> u16 \<Rightarrow> (u32 \<times> mm_state) res" where
  "IPC_4GHIF_data_ul_mm_buddy_alloc s sz =
     (if MM_PAGE_SIZE < ucast sz then Inl Panic
      else rbind (mm_note_size s sz) (\<lambda>s1.
        if 2048 < sz then rbind (allocate_8k s1) (\<lambda>(adr, s2). Inr (adr, mm_count_8k sz adr s2))
        else if 512 < sz then rbind (allocate_2k s1) (\<lambda>(adr, s2). Inr (adr, mm_count_2k sz adr s2))
        else rbind (allocate_512 s1) (\<lambda>(adr, s2). Inr (adr, mm_count_512 sz adr s2))))"

definition IPC_4GHIF_data_ul_mm_buddy_free :: "mm_state \<Rightarrow> u32 \<Rightarrow> mm_state res" where
  "IPC_4GHIF_data_ul_mm_buddy_free s adr =
     (if adr < MM_MEM_BASE_ADR \<or> MM_MEM_BASE_ADR + MM_MEM_SIZE \<le> adr then Inl Panic
      else if (adr - MM_MEM_BASE_ADR) mod MM_SECTOR_SIZE \<noteq> 0 then Inl Panic
      else let page = unat (ucast ((adr - MM_MEM_BASE_ADR) div MM_PAGE_SIZE) :: u8);
               sector = unat (ucast ((adr - MM_MEM_BASE_ADR - of_nat page * MM_PAGE_SIZE) div MM_SECTOR_SIZE) :: u8) in
        rbind (arr_get (mm_bf_sectors_used s) page) (\<lambda>u.
        if u AND push_bit sector 1 = 0 then Inl Panic
        else rbind (arr_get (mm_bf_8k_pages_full s) (page div 16)) (\<lambda>full8.
        rbind (arr_get (mm_bf_2k_pages_partial s) (page div 16)) (\<lambda>partial2.
        rbind (arr_get (mm_bf_2k_pages_full s) (page div 16)) (\<lambda>full2.
        if full8 AND push_bit (page AND 15) 1 \<noteq> 0 then free_8k s page
        else if (partial2 OR full2) AND push_bit (page AND 15) 1 \<noteq> 0 then free_2k s page sector
        else free_512 s page sector)))))"

definition IPC_4GHIF_data_ul_mm_init :: mm_state where
  "IPC_4GHIF_data_ul_mm_init = IPC_4GHIF_data_ul_mm_buddy_init"

definition IPC_4GHIF_data_ul_mm_alloc :: "mm_state \<Rightarrow> u16 \<Rightarrow> (u32 \<times> mm_state) res" where
  "IPC_4GHIF_data_ul_mm_alloc s sz = IPC_4GHIF_data_ul_mm_buddy_alloc s sz"

definition IPC_4GHIF_data_ul_mm_free :: "mm_state \<Rightarrow> u32 \<Rightarrow> mm_state res" where
  "IPC_4GHIF_data_ul_mm_free s adr = IPC_4GHIF_data_ul_mm_buddy_free s adr"

subsection \<open>Statistics\<close>

text \<open>
  The six numbers of pages and the two numbers of blocks that the statistics function prints. It
  tests the bit \<open>i AND 0x1f\<close> of the 16-bit field of page \<open>i\<close>.
\<close>

record mm_stat =
  nb_pool_page :: int
  nb_8k_page :: int
  nb_2k_page_full :: int
  nb_2k_page_partial :: int
  nb_512_page_full :: int
  nb_512_page_partial :: int
  nb_2k_block_used :: int
  nb_512_block_used :: int

definition sum_bits :: "u16 list \<Rightarrow> int res" where
  "sum_bits tab =
     rbind (arr_get tab 0) (\<lambda>a. rbind (arr_get tab 1) (\<lambda>b. rbind (arr_get tab 2) (\<lambda>c.
     Inr (get_1_nb_bit_in_u16 a + get_1_nb_bit_in_u16 b + get_1_nb_bit_in_u16 c))))"

fun partial_blocks :: "u16 list \<Rightarrow> u16 list \<Rightarrow> int \<Rightarrow> nat list \<Rightarrow> int \<Rightarrow> int res" where
  "partial_blocks tab used per [] nb = Inr nb"
| "partial_blocks tab used per (i # js) nb =
     rbind (arr_get tab (i div 16)) (\<lambda>x.
     if x AND push_bit (i AND 0x1f) 1 \<noteq> 0 then
       rbind (arr_get used i) (\<lambda>u. partial_blocks tab used per js (nb + get_1_nb_bit_in_u16 u div per))
     else partial_blocks tab used per js nb)"

definition IPC_4GHIF_data_ul_mm_buddy_get_stat :: "mm_state \<Rightarrow> mm_stat res" where
  "IPC_4GHIF_data_ul_mm_buddy_get_stat s =
     rbind (sum_bits (mm_bf_pool_pages s)) (\<lambda>pool.
     rbind (sum_bits (mm_bf_8k_pages_full s)) (\<lambda>n8.
     rbind (sum_bits (mm_bf_2k_pages_full s)) (\<lambda>f2.
     rbind (sum_bits (mm_bf_2k_pages_partial s)) (\<lambda>p2.
     rbind (sum_bits (mm_bf_512_pages_full s)) (\<lambda>f5.
     rbind (sum_bits (mm_bf_512_pages_partial s)) (\<lambda>p5.
     rbind (partial_blocks (mm_bf_2k_pages_partial s) (mm_bf_sectors_used s) 4 [0..<MM_NB_PAGE] (4 * f2)) (\<lambda>b2.
     rbind (partial_blocks (mm_bf_512_pages_partial s) (mm_bf_sectors_used s) 1 [0..<MM_NB_PAGE] (16 * f5)) (\<lambda>b5.
     Inr \<lparr>nb_pool_page = pool, nb_8k_page = n8, nb_2k_page_full = f2, nb_2k_page_partial = p2,
          nb_512_page_full = f5, nb_512_page_partial = p5, nb_2k_block_used = b2, nb_512_block_used = b5\<rparr>))))))))"

end
