(* ===== verification/UlMmBits.thy ===== *)
theory UlMmBits
  imports UlMm
begin

text \<open>
  The state of the memory manager seen abstractly: bit fields as sets of page numbers, the search
  for the first bit, the invariant that every page is used for one size of block, and the blocks
  in use with their addresses, which do not overlap. An operation changes one page; \<open>page_step\<close>
  says what is left to show for it.
\<close>

section \<open>Bit fields as sets of pages\<close>

lemma and_zero_iff_u16: "x AND m = 0 \<longleftrightarrow> (\<forall>i<16. \<not> (bit x i \<and> bit (m :: u16) i))"
  by (auto simp: bit_eq_iff bit_and_iff)

lemma and_push_one: "i < 16 \<Longrightarrow> (x AND push_bit i (1 :: u16) \<noteq> 0) = bit x i"
  by (auto simp: and_zero_iff_u16 bit_push_bit_iff bit_1_iff simp del: push_bit_of_1)

lemma and_push_zero: "i < 16 \<Longrightarrow> (x AND push_bit i (1 :: u16) = 0) = (\<not> bit x i)"
  using and_push_one by blast

lemma u16_nonzero: "x \<noteq> (0 :: u16) \<longleftrightarrow> (\<exists>i<16. bit x i)"
  by (auto simp: bit_eq_iff)

text \<open>The index of the first bit, found by trying the bits in order.\<close>

definition lowest_bit :: "u16 \<Rightarrow> int" where
  "lowest_bit x = (case find (bit x) [0..<16] of None \<Rightarrow> -1 | Some i \<Rightarrow> int i)"

lemma upt_16: "[0..<16] = [0,1,2,3,4,5,6,7,8,9,10,11,12,13,14,15::nat]"
  by (simp add: upt_rec)

lemma all_less_16: "(\<forall>i<16. P i) \<longleftrightarrow> P 0 \<and> P 1 \<and> P 2 \<and> P 3 \<and> P 4 \<and> P 5 \<and> P 6 \<and> P 7 \<and>
    P 8 \<and> P 9 \<and> P 10 \<and> P 11 \<and> P 12 \<and> P 13 \<and> P 14 \<and> P (15 :: nat)"
proof -
  have "(\<forall>i<16. P i) \<longleftrightarrow> (\<forall>i\<in>set [0..<16]. P i)" by auto
  then show ?thesis by (simp only: upt_16) simp
qed

lemma masks_u16:
  "(x :: u16) AND 0xff = 0 \<longleftrightarrow> x AND 0xf = 0 \<and> x AND 0xf0 = 0"
  "x AND 0xf = 0 \<longleftrightarrow> x AND 0x3 = 0 \<and> x AND 0xc = 0"
  "x AND 0xf0 = 0 \<longleftrightarrow> x AND 0x30 = 0 \<and> x AND 0xc0 = 0"
  "x AND 0xf00 = 0 \<longleftrightarrow> x AND 0x300 = 0 \<and> x AND 0xc00 = 0"
  "x AND 0x3 = 0 \<longleftrightarrow> \<not> bit x 0 \<and> \<not> bit x 1"
  "x AND 0xc = 0 \<longleftrightarrow> \<not> bit x 2 \<and> \<not> bit x 3"
  "x AND 0x30 = 0 \<longleftrightarrow> \<not> bit x 4 \<and> \<not> bit x 5"
  "x AND 0xc0 = 0 \<longleftrightarrow> \<not> bit x 6 \<and> \<not> bit x 7"
  "x AND 0x300 = 0 \<longleftrightarrow> \<not> bit x 8 \<and> \<not> bit x 9"
  "x AND 0xc00 = 0 \<longleftrightarrow> \<not> bit x 10 \<and> \<not> bit x 11"
  "x AND 0x3000 = 0 \<longleftrightarrow> \<not> bit x 12 \<and> \<not> bit x 13"
  "x AND 0x1 = 0 \<longleftrightarrow> \<not> bit x 0" "x AND 0x4 = 0 \<longleftrightarrow> \<not> bit x 2"
  "x AND 0x10 = 0 \<longleftrightarrow> \<not> bit x 4" "x AND 0x40 = 0 \<longleftrightarrow> \<not> bit x 6"
  "x AND 0x100 = 0 \<longleftrightarrow> \<not> bit x 8" "x AND 0x400 = 0 \<longleftrightarrow> \<not> bit x 10"
  "x AND 0x1000 = 0 \<longleftrightarrow> \<not> bit x 12" "x AND 0x4000 = 0 \<longleftrightarrow> \<not> bit x 14"
  by (simp_all add: and_zero_iff_u16 all_less_16 bit_1_iff del: conj_assoc) blast+

lemma first_one_at:
  assumes "k < 16" "bit x k" "\<forall>j<k. \<not> bit x j"
  shows "first_one_bit_index_in_u16 x = int k"
proof -
  have nz: "x \<noteq> 0" using assms(2) by auto
  have "\<forall>i<16. i \<in> {0,1,2,3,4,5,6,7,8,9,10,11,12,13,14,15::nat}" by (simp add: all_less_16)
  then have "k \<in> {0,1,2,3,4,5,6,7,8,9,10,11,12,13,14,15}" using assms(1) by blast
  moreover have "\<And>j. j < k \<Longrightarrow> \<not> bit x j" using assms(3) by blast
  ultimately show ?thesis using assms(2) nz
    by (elim insertE emptyE) (simp_all add: first_one_bit_index_in_u16_def masks_u16)
qed

lemma find_bit_cases:
  obtains "\<forall>i<n. \<not> P i" "find P [0..<n] = None"
  | k where "k < n" "P k" "\<forall>j<k. \<not> P j" "find P [0..<n] = Some k"
proof (cases "find P [0..<n]")
  case None
  then show ?thesis using that(1) by (auto simp: find_None_iff)
next
  case (Some k)
  then have "k < n" "P k" "\<forall>j<k. \<not> P j" by (auto simp: find_Some_iff)
  then show ?thesis using Some that(2) by blast
qed

text \<open>
  C30. The search in four tests is the search for the first bit in order.
\<close>

theorem first_one_bit_index_in_u16_equiv: "first_one_bit_index_in_u16 x = lowest_bit x"
proof (cases rule: find_bit_cases[of 16 "bit x"])
  case 1
  then have "x = 0" by (meson u16_nonzero)
  then show ?thesis using 1 by (simp add: first_one_bit_index_in_u16_def lowest_bit_def)
next
  case (2 k)
  then show ?thesis by (simp add: first_one_at lowest_bit_def)
qed

lemma first_one_cases:
  assumes "x \<noteq> 0"
  obtains k where "k < 16" "bit x k" "\<forall>j<k. \<not> bit x j" "first_one_bit_index_in_u16 x = int k"
  using assms find_bit_cases[of 16 "bit x"] first_one_at by (metis u16_nonzero)

lemma and_mask_nat [simp]: "n AND 15 = n mod (16 :: nat)" "n AND 31 = n mod (32 :: nat)"
  using take_bit_eq_mask[of 4 n] take_bit_eq_mask[of 5 n] by (simp_all add: mask_eq_exp_minus_1 take_bit_eq_mod)

definition pages :: "u16 list \<Rightarrow> nat set" where
  "pages tab = {p. p < 48 \<and> bit (tab ! (p div 16)) (p mod 16)}"

lemma pages_subset: "p \<in> pages tab \<Longrightarrow> p < 48"
  by (simp add: pages_def)

lemma bit_ffff_int [simp]: "bit (0xffff :: int) i \<longleftrightarrow> i < 16"
proof -
  have "(0xffff :: int) = mask 16" by (simp add: mask_eq_exp_minus_1)
  then show ?thesis by (simp only: bit_mask_iff) simp
qed

lemma pages_update:
  assumes "length tab = 3" "p < 48"
    and "\<And>i. i < 16 \<Longrightarrow> bit y i = (if i = p mod 16 then b else bit (tab ! (p div 16)) i)"
  shows "pages (tab[p div 16 := y]) = (if b then insert p (pages tab) else pages tab - {p})"
proof -
  have *: "q \<in> pages (tab[p div 16 := y]) \<longleftrightarrow> (if q = p then b else q \<in> pages tab)" if "q < 48" for q
  proof (cases "q div 16 = p div 16")
    case True
    then have "q = p \<longleftrightarrow> q mod 16 = p mod 16" by (metis div_mult_mod_eq)
    with True that assms show ?thesis by (auto simp: pages_def)
  next
    case False
    then show ?thesis using that by (auto simp: pages_def)
  qed
  have "q \<in> pages (tab[p div 16 := y]) \<longleftrightarrow> (if b then q = p \<or> q \<in> pages tab else q \<in> pages tab \<and> q \<noteq> p)" for q
  proof (cases "q < 48")
    case True
    then show ?thesis by (simp add: *)
  next
    case False
    then have "q \<notin> pages t" for t by (auto dest: pages_subset)
    then show ?thesis using False assms(2) by auto
  qed
  then show ?thesis by (cases b) (simp_all add: set_eq_iff)
qed

lemma bit_one_at: "bit (push_bit k (1 :: u16)) i \<longleftrightarrow> i < 16 \<and> i = k"
  by (auto simp: bit_push_bit_iff bit_1_iff simp del: push_bit_of_1)

lemma bf_clear_ok:
  assumes "length tab = 3" "p < 48"
  obtains t where "bf_clear tab p = Inr t" "length t = 3" "pages t = pages tab - {p}"
proof -
  let ?y = "tab ! (p div 16) AND (0xffff XOR push_bit (p mod 16) 1)"
  have "pages (tab[p div 16 := ?y]) = pages tab - {p}"
    using pages_update[OF assms, of ?y False]
    by (simp add: bit_and_iff bit_xor_iff bit_one_at del: push_bit_of_1)
  then show ?thesis using assms that by (simp add: bf_clear_def)
qed

lemma bf_set_ok:
  assumes "length tab = 3" "p < 48"
  obtains t where "bf_set tab p = Inr t" "length t = 3" "pages t = insert p (pages tab)"
proof -
  let ?y = "tab ! (p div 16) OR push_bit (p mod 16) 1"
  have "pages (tab[p div 16 := ?y]) = insert p (pages tab)"
    using pages_update[OF assms, of ?y True]
    by (simp add: bit_or_iff bit_one_at del: push_bit_of_1)
  then show ?thesis using assms that by (simp add: bf_set_def)
qed

lemma find_page_cases:
  assumes "length tab = 3"
  obtains "find_page_in_mm_bf_pages tab = Inr (-1)" "pages tab = {}"
  | p where "find_page_in_mm_bf_pages tab = Inr (int p)" "p \<in> pages tab" "p < 48" "\<forall>q\<in>pages tab. p \<le> q"
proof -
  obtain a b c where t: "tab = [a, b, c]" using assms by (auto simp: length_Suc_conv numeral_3_eq_3)
  have word: "bit (tab ! (p div 16)) (p mod 16) = bit (if p < 16 then a else if p < 32 then b else c) (p mod 16)"
    if "p < 48" for p
  proof -
    have "p div 16 = 0 \<or> p div 16 = 1 \<or> p div 16 = 2" using that by auto
    with t show ?thesis by auto
  qed
  show ?thesis
  proof (cases "a = 0 \<and> b = 0 \<and> c = 0")
    case True
    then have "pages tab = {}" using word by (auto simp: pages_def)
    with True t that(1) show ?thesis by (simp add: find_page_in_mm_bf_pages_def)
  next
    case False
    define base where "base = (if a \<noteq> 0 then 0 else if b \<noteq> 0 then 16 else 32 :: nat)"
    define x where "x = (if a \<noteq> 0 then a else if b \<noteq> 0 then b else c)"
    have "x \<noteq> 0" using False by (auto simp: x_def)
    then obtain k where k: "k < 16" "bit x k" "\<forall>j<k. \<not> bit x j" "first_one_bit_index_in_u16 x = int k"
      by (rule first_one_cases)
    have r: "find_page_in_mm_bf_pages tab = Inr (int (base + k))"
      using k(4) False t by (auto simp: find_page_in_mm_bf_pages_def x_def base_def)
    have mem: "q \<in> pages tab \<longleftrightarrow> q < 48 \<and> bit (if q < 16 then a else if q < 32 then b else c) (q mod 16)" for q
      using word by (simp add: pages_def cong: conj_cong)
    have "base + k \<in> pages tab"
      using k(1,2) mod_add_self1[of 16 "16 + k"] by (auto simp: mem x_def base_def)
    moreover have "base + k \<le> q" if "q \<in> pages tab" for q
    proof (rule ccontr)
      assume lt: "\<not> base + k \<le> q"
      with that have ge: "base \<le> q" by (auto simp: mem base_def split: if_splits)
      then have "q - base < k" using lt by simp
      moreover have "bit x (q - base)"
        using that lt ge k(1) by (auto simp: mem base_def x_def split: if_splits simp: mod_if)
      ultimately show False using k(3) by blast
    qed
    ultimately show ?thesis using that(2)[OF r] pages_subset by blast
  qed
qed

section \<open>Invariant and blocks in use\<close>

text \<open>The words of a page of 2 KB blocks: four sectors are in use together or not at all.\<close>

definition quads :: "u16 \<Rightarrow> bool" where
  "quads u \<longleftrightarrow> (\<forall>i<16. bit u i = bit u (i - i mod 4))"

datatype page_use = Pool | Page8 | Page2 | Page512

definition page_ok :: "mm_state \<Rightarrow> nat \<Rightarrow> page_use \<Rightarrow> bool" where
  "page_ok s p k \<longleftrightarrow>
     (let u = mm_bf_sectors_used s ! p; full = (u = 0xffff) in
     (p \<in> pages (mm_bf_pool_pages s) \<longleftrightarrow> k = Pool) \<and>
     (p \<in> pages (mm_bf_8k_pages_full s) \<longleftrightarrow> k = Page8) \<and>
     (p \<in> pages (mm_bf_2k_pages_partial s) \<longleftrightarrow> k = Page2 \<and> \<not> full) \<and>
     (p \<in> pages (mm_bf_2k_pages_full s) \<longleftrightarrow> k = Page2 \<and> full) \<and>
     (p \<in> pages (mm_bf_512_pages_partial s) \<longleftrightarrow> k = Page512 \<and> \<not> full) \<and>
     (p \<in> pages (mm_bf_512_pages_full s) \<longleftrightarrow> k = Page512 \<and> full) \<and>
     (u = 0 \<longleftrightarrow> k = Pool) \<and> (k = Page8 \<longrightarrow> full) \<and> (k = Page2 \<longrightarrow> quads u))"

definition mm_inv :: "mm_state \<Rightarrow> bool" where
  "mm_inv s \<longleftrightarrow>
     length (mm_bf_pool_pages s) = 3 \<and> length (mm_bf_2k_pages_partial s) = 3 \<and>
     length (mm_bf_512_pages_partial s) = 3 \<and> length (mm_bf_8k_pages_full s) = 3 \<and>
     length (mm_bf_2k_pages_full s) = 3 \<and> length (mm_bf_512_pages_full s) = 3 \<and>
     length (mm_bf_sectors_used s) = 48 \<and> length (mm_stat_alloc_size s) = 1024 \<and>
     unat (mm_stat_alloc_ind s) < 1024 \<and> (\<forall>p<48. \<exists>k. page_ok s p k)"

text \<open>The block that starts at sector \<open>i\<close> of page \<open>p\<close>, if there is one, and the blocks by address.\<close>

definition page_block :: "mm_state \<Rightarrow> nat \<Rightarrow> nat \<Rightarrow> nat option" where
  "page_block s p i =
     (if \<not> bit (mm_bf_sectors_used s ! p) i then None
      else if p \<in> pages (mm_bf_8k_pages_full s) then (if i = 0 then Some 8192 else None)
      else if p \<in> pages (mm_bf_2k_pages_partial s) \<union> pages (mm_bf_2k_pages_full s)
        then (if i mod 4 = 0 then Some 2048 else None)
      else Some 512)"

definition live :: "mm_state \<Rightarrow> u32 \<rightharpoonup> nat" where
  "live s a =
     (let d = unat (a - MM_MEM_BASE_ADR) in
      if d < 48 * 8192 \<and> d mod 512 = 0 then page_block s (d div 8192) (d mod 8192 div 512) else None)"

lemma mm_adr_offset: "p < 48 \<Longrightarrow> i < 16 \<Longrightarrow> unat (mm_adr p i - MM_MEM_BASE_ADR) = p * 8192 + i * 512"
proof -
  assume a: "p < 48" "i < 16"
  have "mm_adr p i - MM_MEM_BASE_ADR = of_nat (p * 8192 + i * 512)"
    by (simp add: mm_adr_def mm_const_defs)
  moreover have "p * 8192 + i * 512 < 2 ^ 32" using a by simp
  ultimately show ?thesis by (simp only: unsigned_of_nat) (simp add: take_bit_nat_eq_self)
qed

lemma live_mm_adr: "p < 48 \<Longrightarrow> i < 16 \<Longrightarrow> live s (mm_adr p i) = page_block s p i"
proof -
  assume a: "p < 48" "i < 16"
  then have "(p * 8192 + i * 512) div 8192 = p" "(p * 8192 + i * 512) mod 8192 = i * 512"
    by (simp_all add: div_mult_self3)
  with a show ?thesis by (simp add: live_def mm_adr_offset)
qed

lemma adr_eq_iff: "(a :: u32) = b \<longleftrightarrow> unat (a - c) = unat (b - c)"
  by (metis add.commute diff_add_cancel word_unat_eq_iff)

lemma mm_adr_inj: "p < 48 \<Longrightarrow> i < 16 \<Longrightarrow> q < 48 \<Longrightarrow> j < 16 \<Longrightarrow> mm_adr p i = mm_adr q j \<longleftrightarrow> p = q \<and> i = j"
proof -
  have d: "(p * 8192 + i * 512) div 8192 = p" if "i < 16" for p i :: nat using that by simp
  assume "p < 48" "i < 16" "q < 48" "j < 16"
  then have "mm_adr p i = mm_adr q j \<longleftrightarrow> p * 8192 + i * 512 = q * 8192 + j * 512"
    unfolding adr_eq_iff[of _ _ MM_MEM_BASE_ADR] by (simp only: mm_adr_offset)
  moreover have "p = q" if "p * 8192 + i * 512 = q * 8192 + j * 512"
    using that d \<open>i < 16\<close> \<open>j < 16\<close> by metis
  ultimately show ?thesis by auto
qed

lemma adr_split:
  assumes "unat (a - MM_MEM_BASE_ADR) < 48 * 8192" "unat (a - MM_MEM_BASE_ADR) mod 512 = 0"
  obtains p i where "p < 48" "i < 16" "a = mm_adr p i"
proof -
  let ?o = "unat (a - MM_MEM_BASE_ADR)"
  have p: "?o div 8192 < 48" "?o mod 8192 div 512 < 16" using assms(1) by (auto simp: div_less_iff_less_mult)
  have "?o mod 8192 mod 512 = 0" using assms(2) by (simp add: mod_mod_cancel)
  then have "?o = ?o div 8192 * 8192 + ?o mod 8192 div 512 * 512"
    by (metis add.right_neutral div_mult_mod_eq)
  then have "a = mm_adr (?o div 8192) (?o mod 8192 div 512)"
    using mm_adr_offset[OF p] by (simp add: adr_eq_iff[of a _ MM_MEM_BASE_ADR])
  with p show ?thesis using that by blast
qed

lemma live_cases:
  assumes "live s a = Some n"
  obtains p i where "p < 48" "i < 16" "a = mm_adr p i" "page_block s p i = Some n"
proof -
  from assms have "unat (a - MM_MEM_BASE_ADR) < 48 * 8192" "unat (a - MM_MEM_BASE_ADR) mod 512 = 0"
    by (auto simp: live_def Let_def split: if_splits)
  then show ?thesis by (rule adr_split) (use assms that live_mm_adr in auto)
qed

lemma live_update:
  assumes "p < 48" "k < 16"
    and "\<And>q i. q < 48 \<Longrightarrow> i < 16 \<Longrightarrow> page_block s' q i = (if q = p \<and> i = k then v else page_block s q i)"
  shows "live s' = (live s)(mm_adr p k := v)"
proof
  fix a
  show "live s' a = ((live s)(mm_adr p k := v)) a"
  proof (cases "unat (a - MM_MEM_BASE_ADR) < 48 * 8192 \<and> unat (a - MM_MEM_BASE_ADR) mod 512 = 0")
    case True
    then obtain q i where "q < 48" "i < 16" "a = mm_adr q i"
      by (meson adr_split)
    with assms show ?thesis by (simp add: live_mm_adr mm_adr_inj)
  next
    case False
    then have "a \<noteq> mm_adr p k" using mm_adr_offset[OF assms(1,2)] assms(1,2) by auto
    with False show ?thesis by (auto simp: live_def Let_def)
  qed
qed

lemma mult_of_4: "(i :: nat) mod 4 = 0 \<Longrightarrow> \<exists>a. i = 4 * a"
  by (intro exI[of _ "i div 4"]) auto

lemma page_block_disjoint:
  assumes "page_ok s p k" "i < 16" "j < 16" "i \<noteq> j" "page_block s p i = Some n" "page_block s p j = Some m"
  shows "i * 512 + n \<le> j * 512 \<or> j * 512 + m \<le> i * 512"
proof -
  have "n \<in> {8192, 2048, 512} \<and> (n = 8192 \<longrightarrow> i = 0 \<and> j = 0) \<and> n = m \<and> (n = 2048 \<longrightarrow> i mod 4 = 0 \<and> j mod 4 = 0)"
    using assms(5,6) by (auto simp: page_block_def split: if_splits)
  moreover have "i + 4 \<le> j \<or> j + 4 \<le> i" if m: "i mod 4 = 0" "j mod 4 = 0"
  proof -
    obtain a b where "i = 4 * a" "j = 4 * b" using m mult_of_4 by blast
    with assms(4) show ?thesis by (cases a b rule: linorder_cases) auto
  qed
  ultimately show ?thesis using assms(4) by auto
qed

lemma page_block_fits:
  assumes "page_ok s p k" "i < 16" "page_block s p i = Some n"
  shows "0 < n \<and> i * 512 + n \<le> 8192"
proof -
  have "n = 8192 \<and> i = 0 \<or> n = 2048 \<and> i mod 4 = 0 \<or> n = 512"
    using assms(3) by (auto simp: page_block_def split: if_splits)
  moreover have "i \<le> 12" if m: "i mod 4 = 0"
  proof -
    obtain a where "i = 4 * a" using m mult_of_4 by blast
    with assms(2) show ?thesis by auto
  qed
  ultimately show ?thesis using assms(2) by auto
qed

lemma mm_inv_page: "mm_inv s \<Longrightarrow> p < 48 \<Longrightarrow> \<exists>k. page_ok s p k"
  by (simp add: mm_inv_def)

definition mm_off :: "u32 \<Rightarrow> nat" where
  "mm_off a = unat (a - MM_MEM_BASE_ADR)"

lemma live_block_fits:
  assumes "mm_inv s" "live s a = Some n"
  shows "0 < n \<and> mm_off a + n \<le> 48 * 8192"
proof -
  obtain p i where a: "p < 48" "i < 16" "a = mm_adr p i" "page_block s p i = Some n" using assms(2) by (rule live_cases)
  obtain k where "page_ok s p k" using mm_inv_page[OF assms(1) a(1)] by blast
  then have "0 < n \<and> i * 512 + n \<le> 8192" using page_block_fits a(2,4) by blast
  with a(1-3) show ?thesis by (simp add: mm_off_def mm_adr_offset)
qed

lemma live_blocks_disjoint:
  assumes "mm_inv s" "live s a = Some n" "live s b = Some m" "a \<noteq> b"
  shows "mm_off a + n \<le> mm_off b \<or> mm_off b + m \<le> mm_off a"
proof -
  obtain p i where a: "p < 48" "i < 16" "a = mm_adr p i" "page_block s p i = Some n" using assms(2) by (rule live_cases)
  obtain q j where b: "q < 48" "j < 16" "b = mm_adr q j" "page_block s q j = Some m" using assms(3) by (rule live_cases)
  obtain k l where ok: "page_ok s p k" "page_ok s q l"
    using mm_inv_page[OF assms(1) a(1)] mm_inv_page[OF assms(1) b(1)] by blast
  note fits = page_block_fits[OF ok(1) a(2,4)] page_block_fits[OF ok(2) b(2,4)]
  show ?thesis
  proof (cases "p = q")
    case True
    then have "i \<noteq> j" using a(3) b(3) assms(4) by auto
    then show ?thesis using page_block_disjoint[OF ok(1) a(2) b(2) _ a(4)] True a b
      by (simp add: mm_off_def mm_adr_offset)
  next
    case False
    then consider "p + 1 \<le> q" | "q + 1 \<le> p" by linarith
    then show ?thesis using fits a b by cases (auto simp: mm_off_def mm_adr_offset)
  qed
qed

section \<open>Changing one page\<close>

definition mm_shape :: "mm_state \<Rightarrow> bool" where
  "mm_shape s \<longleftrightarrow>
     length (mm_bf_pool_pages s) = 3 \<and> length (mm_bf_2k_pages_partial s) = 3 \<and>
     length (mm_bf_512_pages_partial s) = 3 \<and> length (mm_bf_8k_pages_full s) = 3 \<and>
     length (mm_bf_2k_pages_full s) = 3 \<and> length (mm_bf_512_pages_full s) = 3 \<and>
     length (mm_bf_sectors_used s) = 48 \<and> length (mm_stat_alloc_size s) = 1024 \<and>
     unat (mm_stat_alloc_ind s) < 1024"

lemma mm_inv_shape: "mm_inv s \<longleftrightarrow> mm_shape s \<and> (\<forall>p<48. \<exists>k. page_ok s p k)"
  by (auto simp: mm_inv_def mm_shape_def)

definition same_page :: "mm_state \<Rightarrow> mm_state \<Rightarrow> nat \<Rightarrow> bool" where
  "same_page s s' q \<longleftrightarrow>
     (q \<in> pages (mm_bf_pool_pages s') \<longleftrightarrow> q \<in> pages (mm_bf_pool_pages s)) \<and>
     (q \<in> pages (mm_bf_8k_pages_full s') \<longleftrightarrow> q \<in> pages (mm_bf_8k_pages_full s)) \<and>
     (q \<in> pages (mm_bf_2k_pages_partial s') \<longleftrightarrow> q \<in> pages (mm_bf_2k_pages_partial s)) \<and>
     (q \<in> pages (mm_bf_2k_pages_full s') \<longleftrightarrow> q \<in> pages (mm_bf_2k_pages_full s)) \<and>
     (q \<in> pages (mm_bf_512_pages_partial s') \<longleftrightarrow> q \<in> pages (mm_bf_512_pages_partial s)) \<and>
     (q \<in> pages (mm_bf_512_pages_full s') \<longleftrightarrow> q \<in> pages (mm_bf_512_pages_full s)) \<and>
     mm_bf_sectors_used s' ! q = mm_bf_sectors_used s ! q"

lemma same_page_ok: "same_page s s' q \<Longrightarrow> page_ok s' q k = page_ok s q k"
  by (simp add: same_page_def page_ok_def)

lemma same_page_block: "same_page s s' q \<Longrightarrow> page_block s' q i = page_block s q i"
  by (simp add: same_page_def page_block_def)

lemma page_step:
  assumes "mm_inv s" "mm_shape s'" "p < 48" "j < 16" "\<And>q. q < 48 \<Longrightarrow> q \<noteq> p \<Longrightarrow> same_page s s' q"
    and "page_ok s' p k" "\<And>i. i < 16 \<Longrightarrow> page_block s' p i = (if i = j then v else page_block s p i)"
  shows "mm_inv s' \<and> live s' = (live s)(mm_adr p j := v)"
proof
  show "mm_inv s'"
    unfolding mm_inv_shape using assms(1,2,5,6) same_page_ok by (metis mm_inv_shape)
  show "live s' = (live s)(mm_adr p j := v)"
  proof (rule live_update[OF assms(3,4)])
    fix q i :: nat
    assume "q < 48" "i < 16"
    then show "page_block s' q i = (if q = p \<and> i = j then v else page_block s q i)"
      using assms(7)[of i] same_page_block[OF assms(5)[of q]] by (cases "q = p") auto
  qed
qed

lemma bit_quad: "bit (push_bit k (0xf :: u16)) i \<longleftrightarrow> i < 16 \<and> k \<le> i \<and> i < k + 4"
proof -
  have "(0xf :: u16) = mask 4" by (simp add: mask_eq_exp_minus_1)
  then show ?thesis by (simp only: bit_push_bit_iff bit_mask_iff) auto
qed

lemma quad_of:
  assumes "k mod 4 = 0"
  shows "k \<le> i \<and> i < k + 4 \<longleftrightarrow> i - i mod 4 = (k :: nat)"
proof -
  obtain a where "k = 4 * a" using assms mult_of_4 by blast
  moreover obtain b r where "i = 4 * b + r" "r < 4" "r = i mod 4"
    by (metis mult.commute div_mult_mod_eq mod_less_divisor zero_less_numeral)
  ultimately show ?thesis by (cases a b rule: linorder_cases) auto
qed

end
