(* ===== verification/UlMmOps.thy ===== *)
theory UlMmOps
  imports UlMmBits
begin

text \<open>
  Correctness of the memory manager: allocation of the three sizes, release, the whole manager,
  and the contract \<open>block_memory\<close> with its interpretation on the manager.
\<close>


lemma quads_0f: "quads 0xf"
  by (simp add: quads_def all_less_16)

lemma pages_const: "pages (replicate 3 0) = {}" "pages (replicate 3 0xffff) = {..<48}"
proof -
  have "p div 16 < 3" if "p < 48" for p :: nat using that by simp
  then show "pages (replicate 3 0) = {}" "pages (replicate 3 0xffff) = {..<48}"
    by (auto simp: pages_def)
qed

lemma mm_init_inv: "mm_inv IPC_4GHIF_data_ul_mm_buddy_init" "live IPC_4GHIF_data_ul_mm_buddy_init = Map.empty"
proof -
  let ?s = IPC_4GHIF_data_ul_mm_buddy_init
  have "page_ok ?s p Pool" if "p < 48" for p
    using that by (simp add: page_ok_def IPC_4GHIF_data_ul_mm_buddy_init_def pages_const mm_const_defs)
  then show "mm_inv ?s"
    by (auto simp: mm_inv_def) (simp_all add: IPC_4GHIF_data_ul_mm_buddy_init_def mm_const_defs)
  have "page_block ?s p i = None" if "p < 48" for p i
    using that by (simp add: page_block_def IPC_4GHIF_data_ul_mm_buddy_init_def mm_const_defs)
  then show "live ?s = Map.empty" by (metis live_cases option.distinct(1) option.exhaust ext)
qed

lemma first_zero_cases:
  assumes "u \<noteq> 0xffff"
  obtains k where "k < 16" "\<not> bit u k" "\<forall>j<k. bit u j" "first_zero_bit_index_in_u16 u = int k"
proof -
  have "u XOR 0xffff \<noteq> 0" using assms by (simp add: bit_eq_iff bit_xor_iff)
  then obtain k where "k < 16" "bit (u XOR 0xffff) k" "\<forall>j<k. \<not> bit (u XOR 0xffff) j"
    "first_one_bit_index_in_u16 (u XOR 0xffff) = int k" by (rule first_one_cases)
  then show ?thesis using that by (auto simp: first_zero_bit_index_in_u16_def bit_xor_iff)
qed

text \<open>Allocation of a block of \<open>n\<close> bytes with \<open>R\<close> the pages that have room for it.\<close>

definition alloc_step :: "mm_state \<Rightarrow> u32 \<Rightarrow> mm_state \<Rightarrow> nat \<Rightarrow> nat set \<Rightarrow> bool" where
  "alloc_step s a s' n R \<longleftrightarrow>
     mm_inv s' \<and>
     (if R = {} then a = 0 \<and> s' = s else a \<noteq> 0 \<and> live s a = None \<and> live s' = (live s)(a \<mapsto> n))"

lemma mm_adr_nonzero: "p < 48 \<Longrightarrow> i < 16 \<Longrightarrow> mm_adr p i \<noteq> 0"
  using mm_adr_offset[of p i] by (auto simp: mm_const_defs)

lemma u16_full: "u = (0xffff :: u16) \<longleftrightarrow> (\<forall>i<16. bit u i)"
  by (auto simp: bit_eq_iff)

lemma u16_zero: "u = (0 :: u16) \<longleftrightarrow> (\<forall>i<16. \<not> bit u i)"
  by (auto simp: bit_eq_iff)

lemma pool_page_empty:
  assumes "mm_inv s" "p \<in> pages (mm_bf_pool_pages s)"
  shows "page_ok s p Pool" "page_block s p i = None"
proof -
  obtain k where k: "page_ok s p k" using mm_inv_page[OF assms(1)] assms(2) pages_subset by blast
  with assms(2) have "k = Pool" by (simp add: page_ok_def Let_def)
  with k show "page_ok s p Pool" by simp
  then show "page_block s p i = None" by (simp add: page_block_def page_ok_def Let_def)
qed

lemma mm_lengths:
  assumes "mm_inv s"
  shows "length (mm_bf_pool_pages s) = 3" "length (mm_bf_2k_pages_partial s) = 3"
    "length (mm_bf_512_pages_partial s) = 3" "length (mm_bf_8k_pages_full s) = 3"
    "length (mm_bf_2k_pages_full s) = 3" "length (mm_bf_512_pages_full s) = 3" "length (mm_bf_sectors_used s) = 48"
  using assms by (simp_all add: mm_inv_def)

lemma alloc_page:
  assumes "mm_inv s" "mm_shape s'" "p < 48" "j < 16" "\<And>q. q < 48 \<Longrightarrow> q \<noteq> p \<Longrightarrow> same_page s s' q"
    and "page_ok s' p k" "page_block s p j = None"
    and "\<And>i. i < 16 \<Longrightarrow> page_block s' p i = (if i = j then Some n else page_block s p i)"
    and "p \<in> R"
  shows "alloc_step s (mm_adr p j) s' n R"
  using page_step[OF assms(1-6,8)] assms(3,4,7,9) by (auto simp: alloc_step_def mm_adr_nonzero live_mm_adr)

lemma allocate_8k_ok:
  assumes "mm_inv s"
  shows "\<exists>a s'. allocate_8k s = Inr (a, s') \<and> alloc_step s a s' 8192 (pages (mm_bf_pool_pages s))"
proof (cases rule: find_page_cases[OF mm_lengths(1)[OF assms]])
  case 1
  then show ?thesis using assms by (simp add: allocate_8k_def alloc_step_def pages_const)
next
  case (2 p)
  note l = mm_lengths[OF assms] and pool = pool_page_empty[OF assms 2(2)]
  obtain t1 where t1: "bf_clear (mm_bf_pool_pages s) p = Inr t1" "length t1 = 3"
    "pages t1 = pages (mm_bf_pool_pages s) - {p}" using bf_clear_ok[OF l(1) 2(3)] .
  obtain t2 where t2: "bf_set (mm_bf_8k_pages_full s) p = Inr t2" "length t2 = 3"
    "pages t2 = insert p (pages (mm_bf_8k_pages_full s))" using bf_set_ok[OF l(4) 2(3)] .
  let ?s = "s\<lparr>mm_bf_pool_pages := t1, mm_bf_8k_pages_full := t2, mm_bf_sectors_used := (mm_bf_sectors_used s)[p := 0xffff]\<rparr>"
  have "alloc_step s (mm_adr p 0) ?s 8192 (pages (mm_bf_pool_pages s))"
  proof (rule alloc_page[where k = Page8])
    show "mm_shape ?s" using assms t1 t2 by (simp add: mm_inv_shape mm_shape_def)
    show "same_page s ?s q" if "q \<noteq> p" for q using that t1 t2 by (simp add: same_page_def)
    show "page_ok ?s p Page8" using pool(1) t1 t2 l 2(3) by (auto simp: page_ok_def Let_def)
    show "page_block ?s p i = (if i = 0 then Some 8192 else page_block s p i)" if "i < 16" for i
      using pool(2)[of i] t2 l 2(3) that by (simp add: page_block_def)
  qed (simp_all add: assms 2 pool(2))
  with 2 l t1 t2 show ?thesis by (simp add: allocate_8k_def)
qed

lemma partial_2k:
  assumes "mm_inv s" "p \<in> pages (mm_bf_2k_pages_partial s)"
  shows "page_ok s p Page2" "quads (mm_bf_sectors_used s ! p)" "mm_bf_sectors_used s ! p \<noteq> 0xffff" "mm_bf_sectors_used s ! p \<noteq> 0"
proof -
  obtain k where k: "page_ok s p k" using mm_inv_page[OF assms(1)] assms(2) pages_subset by blast
  with assms(2) have "k = Page2" by (simp add: page_ok_def Let_def)
  with k assms(2) show "page_ok s p Page2" "quads (mm_bf_sectors_used s ! p)" "mm_bf_sectors_used s ! p \<noteq> 0xffff" "mm_bf_sectors_used s ! p \<noteq> 0"
    by (auto simp: page_ok_def Let_def)
qed

lemma quads_at: "quads u \<Longrightarrow> i < 16 \<Longrightarrow> bit u i = bit u (i - i mod 4)"
  unfolding quads_def by blast

lemma quad_start: "(i - i mod 4) mod 4 = (0 :: nat)"
  by (metis minus_mod_eq_mult_div mod_mult_self1_is_0)

lemma quads_first_zero:
  assumes "quads u" "k < 16" "\<not> bit u k" "\<forall>j<k. bit u j"
  shows "k mod 4 = 0" "\<And>i. i - i mod 4 = k \<Longrightarrow> i < 16 \<Longrightarrow> \<not> bit u i"
proof -
  have "\<not> bit u (k - k mod 4)" using quads_at[OF assms(1,2)] assms(3) by blast
  then have "\<not> k - k mod 4 < k" using assms(4) by blast
  then show "k mod 4 = 0" using assms(2) by (cases "k = 0") auto
  show "\<And>i. i - i mod 4 = k \<Longrightarrow> i < 16 \<Longrightarrow> \<not> bit u i" using quads_at[OF assms(1)] assms(3) by blast
qed

lemma quads_or: "quads u \<Longrightarrow> k mod 4 = 0 \<Longrightarrow> quads (u OR push_bit k 0xf)"
  unfolding quads_def[of "_ OR _"]
proof (intro allI impI)
  fix i :: nat
  assume "quads u" "k mod 4 = 0" "i < 16"
  then show "bit (u OR push_bit k 0xf) i = bit (u OR push_bit k 0xf) (i - i mod 4)"
    using quads_at[of u i] quad_start[of i] less_imp_diff_less[of i 16 "i mod 4"] by (simp add: bit_or_iff bit_quad quad_of)
qed

lemma allocate_2k_ok:
  assumes "mm_inv s"
  shows "\<exists>a s'. allocate_2k s = Inr (a, s') \<and> alloc_step s a s' 2048 (pages (mm_bf_pool_pages s) \<union> pages (mm_bf_2k_pages_partial s))"
proof (cases rule: find_page_cases[OF mm_lengths(2)[OF assms]])
  case 1
  note l = mm_lengths[OF assms] and none = 1
  show ?thesis
  proof (cases rule: find_page_cases[OF l(1)])
    case 1
    with none assms show ?thesis by (simp add: allocate_2k_def alloc_step_def)
  next
    case (2 p)
    note pool = pool_page_empty[OF assms 2(2)]
    obtain t1 where t1: "bf_clear (mm_bf_pool_pages s) p = Inr t1" "length t1 = 3"
      "pages t1 = pages (mm_bf_pool_pages s) - {p}" using bf_clear_ok[OF l(1) 2(3)] .
    obtain t2 where t2: "bf_set (mm_bf_2k_pages_partial s) p = Inr t2" "length t2 = 3"
      "pages t2 = insert p (pages (mm_bf_2k_pages_partial s))" using bf_set_ok[OF l(2) 2(3)] .
    let ?s = "s\<lparr>mm_bf_pool_pages := t1, mm_bf_2k_pages_partial := t2, mm_bf_sectors_used := (mm_bf_sectors_used s)[p := 0xf]\<rparr>"
    have "alloc_step s (mm_adr p 0) ?s 2048 (pages (mm_bf_pool_pages s) \<union> pages (mm_bf_2k_pages_partial s))"
    proof (rule alloc_page[where k = Page2])
      show "mm_shape ?s" using assms t1 t2 by (simp add: mm_inv_shape mm_shape_def)
      show "same_page s ?s q" if "q \<noteq> p" for q using that t1 t2 by (simp add: same_page_def)
      show "page_ok ?s p Page2" using pool(1) t1 t2 l 2(3) by (auto simp: page_ok_def Let_def quads_0f)
      show "page_block ?s p i = (if i = 0 then Some 2048 else page_block s p i)" if "i < 16" for i
        using pool t2 l 2(3) that bit_quad[of 0 i] by (auto simp: page_block_def page_ok_def Let_def)
    qed (simp_all add: assms 2 pool(2))
    with none 2 l t1 t2 show ?thesis by (simp add: allocate_2k_def)
  qed
next
  case (2 p)
  note l = mm_lengths[OF assms] and pt = partial_2k[OF assms 2(2)]
  let ?u = "mm_bf_sectors_used s ! p"
  obtain k where k: "k < 16" "\<not> bit ?u k" "\<forall>j<k. bit ?u j" "first_zero_bit_index_in_u16 ?u = int k"
    using first_zero_cases[OF pt(3)] .
  note q = quads_first_zero[OF pt(2) k(1-3)]
  let ?u' = "?u OR push_bit k 0xf"
  have qs: "quads ?u'" using pt(2) q(1) by (rule quads_or)
  have bits: "bit ?u' i \<longleftrightarrow> bit ?u i \<or> i - i mod 4 = k" if "i < 16" for i
    using that q(1) by (simp add: bit_or_iff bit_quad quad_of)
  have nz: "?u' \<noteq> 0" using bits[OF k(1)] q(1) by auto
  show ?thesis
  proof (cases "?u' = 0xffff")
    case full: True
    obtain t1 where t1: "bf_clear (mm_bf_2k_pages_partial s) p = Inr t1" "length t1 = 3"
      "pages t1 = pages (mm_bf_2k_pages_partial s) - {p}" using bf_clear_ok[OF l(2) 2(3)] .
    obtain t2 where t2: "bf_set (mm_bf_2k_pages_full s) p = Inr t2" "length t2 = 3"
      "pages t2 = insert p (pages (mm_bf_2k_pages_full s))" using bf_set_ok[OF l(5) 2(3)] .
    let ?s = "s\<lparr>mm_bf_sectors_used := (mm_bf_sectors_used s)[p := ?u'], mm_bf_2k_pages_partial := t1, mm_bf_2k_pages_full := t2\<rparr>"
    have "alloc_step s (mm_adr p k) ?s 2048 (pages (mm_bf_pool_pages s) \<union> pages (mm_bf_2k_pages_partial s))"
    proof (rule alloc_page[where k = Page2])
      show "mm_shape ?s" using assms t1 t2 by (simp add: mm_inv_shape mm_shape_def)
      show "same_page s ?s q" if "q \<noteq> p" for q using that t1 t2 by (simp add: same_page_def)
      show "page_ok ?s p Page2" using pt(1) t1 t2 l 2(3) qs full by (auto simp: page_ok_def Let_def)
      show "page_block ?s p i = (if i = k then Some 2048 else page_block s p i)" if "i < 16" for i
        using pt(1) t2 l 2(2,3) that bits[OF that] q by (auto simp: page_block_def page_ok_def Let_def)
    qed (use assms 2 k in \<open>simp_all add: page_block_def\<close>)
    with 2 l t1 t2 k(4) full show ?thesis by (simp add: allocate_2k_def Let_def)
  next
    case part: False
    let ?s = "s\<lparr>mm_bf_sectors_used := (mm_bf_sectors_used s)[p := ?u']\<rparr>"
    have "alloc_step s (mm_adr p k) ?s 2048 (pages (mm_bf_pool_pages s) \<union> pages (mm_bf_2k_pages_partial s))"
    proof (rule alloc_page[where k = Page2])
      show "mm_shape ?s" using assms by (simp add: mm_inv_shape mm_shape_def)
      show "same_page s ?s q" if "q \<noteq> p" for q using that by (simp add: same_page_def)
      show "page_ok ?s p Page2" using pt(1,3) l 2(3) qs part nz by (auto simp: page_ok_def Let_def)
      show "page_block ?s p i = (if i = k then Some 2048 else page_block s p i)" if "i < 16" for i
        using pt(1) l 2(2,3) that bits[OF that] q by (auto simp: page_block_def page_ok_def Let_def)
    qed (use assms 2 k in \<open>simp_all add: page_block_def\<close>)
    with 2 l k(4) part show ?thesis by (simp add: allocate_2k_def Let_def)
  qed
qed

lemma partial_512:
  assumes "mm_inv s" "p \<in> pages (mm_bf_512_pages_partial s)"
  shows "page_ok s p Page512" "mm_bf_sectors_used s ! p \<noteq> 0xffff" "mm_bf_sectors_used s ! p \<noteq> 0"
proof -
  obtain k where k: "page_ok s p k" using mm_inv_page[OF assms(1)] assms(2) pages_subset by blast
  with assms(2) have "k = Page512" by (simp add: page_ok_def Let_def)
  with k assms(2) show "page_ok s p Page512" "mm_bf_sectors_used s ! p \<noteq> 0xffff" "mm_bf_sectors_used s ! p \<noteq> 0"
    by (auto simp: page_ok_def Let_def)
qed

lemma allocate_512_ok:
  assumes "mm_inv s"
  shows "\<exists>a s'. allocate_512 s = Inr (a, s') \<and> alloc_step s a s' 512 (pages (mm_bf_pool_pages s) \<union> pages (mm_bf_512_pages_partial s))"
proof (cases rule: find_page_cases[OF mm_lengths(3)[OF assms]])
  case 1
  note l = mm_lengths[OF assms] and none = 1
  show ?thesis
  proof (cases rule: find_page_cases[OF l(1)])
    case 1
    with none assms show ?thesis by (simp add: allocate_512_def alloc_step_def)
  next
    case (2 p)
    note pool = pool_page_empty[OF assms 2(2)]
    obtain t1 where t1: "bf_clear (mm_bf_pool_pages s) p = Inr t1" "length t1 = 3"
      "pages t1 = pages (mm_bf_pool_pages s) - {p}" using bf_clear_ok[OF l(1) 2(3)] .
    obtain t2 where t2: "bf_set (mm_bf_512_pages_partial s) p = Inr t2" "length t2 = 3"
      "pages t2 = insert p (pages (mm_bf_512_pages_partial s))" using bf_set_ok[OF l(3) 2(3)] .
    let ?s = "s\<lparr>mm_bf_pool_pages := t1, mm_bf_512_pages_partial := t2, mm_bf_sectors_used := (mm_bf_sectors_used s)[p := 1]\<rparr>"
    have "alloc_step s (mm_adr p 0) ?s 512 (pages (mm_bf_pool_pages s) \<union> pages (mm_bf_512_pages_partial s))"
    proof (rule alloc_page[where k = Page512])
      show "mm_shape ?s" using assms t1 t2 by (simp add: mm_inv_shape mm_shape_def)
      show "same_page s ?s q" if "q \<noteq> p" for q using that t1 t2 by (simp add: same_page_def)
      show "page_ok ?s p Page512" using pool(1) t1 t2 l 2(3) by (auto simp: page_ok_def Let_def)
      show "page_block ?s p i = (if i = 0 then Some 512 else page_block s p i)" if "i < 16" for i
        using pool t2 l 2(3) that bit_one_at[of 0 i] by (auto simp: bit_1_iff page_block_def page_ok_def Let_def)
    qed (simp_all add: assms 2 pool(2))
    with none 2 l t1 t2 show ?thesis by (simp add: allocate_512_def)
  qed
next
  case (2 p)
  note l = mm_lengths[OF assms] and pt = partial_512[OF assms 2(2)]
  let ?u = "mm_bf_sectors_used s ! p"
  obtain k where k: "k < 16" "\<not> bit ?u k" "\<forall>j<k. bit ?u j" "first_zero_bit_index_in_u16 ?u = int k"
    using first_zero_cases[OF pt(2)] .
  let ?u' = "?u OR push_bit k 1"
  have bits: "bit ?u' i \<longleftrightarrow> bit ?u i \<or> i = k" if "i < 16" for i
    using that by (simp add: bit_or_iff bit_one_at del: push_bit_of_1)
  have nz: "?u' \<noteq> 0" using bits[OF k(1)] by auto
  show ?thesis
  proof (cases "?u' = 0xffff")
    case full: True
    obtain t1 where t1: "bf_clear (mm_bf_512_pages_partial s) p = Inr t1" "length t1 = 3"
      "pages t1 = pages (mm_bf_512_pages_partial s) - {p}" using bf_clear_ok[OF l(3) 2(3)] .
    obtain t2 where t2: "bf_set (mm_bf_512_pages_full s) p = Inr t2" "length t2 = 3"
      "pages t2 = insert p (pages (mm_bf_512_pages_full s))" using bf_set_ok[OF l(6) 2(3)] .
    let ?s = "s\<lparr>mm_bf_sectors_used := (mm_bf_sectors_used s)[p := ?u'], mm_bf_512_pages_partial := t1, mm_bf_512_pages_full := t2\<rparr>"
    have "alloc_step s (mm_adr p k) ?s 512 (pages (mm_bf_pool_pages s) \<union> pages (mm_bf_512_pages_partial s))"
    proof (rule alloc_page[where k = Page512])
      show "mm_shape ?s" using assms t1 t2 by (simp add: mm_inv_shape mm_shape_def)
      show "same_page s ?s q" if "q \<noteq> p" for q using that t1 t2 by (simp add: same_page_def)
      show "page_ok ?s p Page512" using pt(1) t1 t2 l 2(3) full by (auto simp: page_ok_def Let_def)
      show "page_block ?s p i = (if i = k then Some 512 else page_block s p i)" if "i < 16" for i
        using pt(1) t2 l 2(2,3) that bits[OF that] k(2) by (auto simp: page_block_def page_ok_def Let_def)
    qed (use assms 2 k in \<open>simp_all add: page_block_def\<close>)
    with 2 l t1 t2 k(4) full show ?thesis by (simp add: allocate_512_def Let_def)
  next
    case part: False
    let ?s = "s\<lparr>mm_bf_sectors_used := (mm_bf_sectors_used s)[p := ?u']\<rparr>"
    have "alloc_step s (mm_adr p k) ?s 512 (pages (mm_bf_pool_pages s) \<union> pages (mm_bf_512_pages_partial s))"
    proof (rule alloc_page[where k = Page512])
      show "mm_shape ?s" using assms by (simp add: mm_inv_shape mm_shape_def)
      show "same_page s ?s q" if "q \<noteq> p" for q using that by (simp add: same_page_def)
      show "page_ok ?s p Page512" using pt(1,2) l 2(3) part nz by (auto simp: page_ok_def Let_def)
      show "page_block ?s p i = (if i = k then Some 512 else page_block s p i)" if "i < 16" for i
        using pt(1) l 2(2,3) that bits[OF that] k(2) by (auto simp: page_block_def page_ok_def Let_def)
    qed (use assms 2 k in \<open>simp_all add: page_block_def\<close>)
    with 2 l k(4) part show ?thesis by (simp add: allocate_512_def Let_def)
  qed
qed


section \<open>Release\<close>

lemma free_8k_ok:
  assumes "mm_inv s" "p < 48" "p \<in> pages (mm_bf_8k_pages_full s)"
  shows "\<exists>s'. free_8k s p = Inr s' \<and> mm_inv s' \<and> live s' = (live s)(mm_adr p 0 := None)"
proof -
  note l = mm_lengths[OF assms(1)]
  obtain k where k: "page_ok s p k" using mm_inv_page[OF assms(1,2)] by blast
  with assms(3) have k8: "k = Page8" by (simp add: page_ok_def Let_def)
  obtain t1 where t1: "bf_clear (mm_bf_8k_pages_full s) p = Inr t1" "length t1 = 3"
    "pages t1 = pages (mm_bf_8k_pages_full s) - {p}" using bf_clear_ok[OF l(4) assms(2)] .
  obtain t2 where t2: "bf_set (mm_bf_pool_pages s) p = Inr t2" "length t2 = 3"
    "pages t2 = insert p (pages (mm_bf_pool_pages s))" using bf_set_ok[OF l(1) assms(2)] .
  let ?s = "s\<lparr>mm_bf_sectors_used := (mm_bf_sectors_used s)[p := 0], mm_bf_8k_pages_full := t1, mm_bf_pool_pages := t2\<rparr>"
  have "mm_inv ?s \<and> live ?s = (live s)(mm_adr p 0 := None)"
  proof (rule page_step[where k = Pool])
    show "mm_shape ?s" using assms(1) t1 t2 by (simp add: mm_inv_shape mm_shape_def)
    show "same_page s ?s q" if "q \<noteq> p" for q using that t1 t2 by (simp add: same_page_def)
    show "page_ok ?s p Pool" using k k8 t1 t2 l assms(2) by (auto simp: page_ok_def Let_def)
    show "page_block ?s p i = (if i = 0 then None else page_block s p i)" for i
      using assms(2,3) l by (simp add: page_block_def)
  qed (simp_all add: assms)
  with l t1 t2 assms(2) show ?thesis by (simp add: free_8k_def)
qed

text \<open>The first half of releasing a small block: the page becomes a partial one.\<close>

lemma make_partial:
  assumes "length full = 3" "length part = 3" "p < 48" "p \<in> pages full \<longleftrightarrow> b" "p \<in> pages part \<longleftrightarrow> \<not> b"
  obtains f t where "length f = 3" "length t = 3" "pages f = pages full - {p}" "pages t = insert p (pages part)"
    "b \<longrightarrow> bf_clear full p = Inr f \<and> bf_set part p = Inr t" "\<not> b \<longrightarrow> f = full \<and> t = part"
proof (cases b)
  case True
  then show ?thesis using bf_clear_ok[OF assms(1,3)] bf_set_ok[OF assms(2,3)] that by metis
next
  case False
  with assms have "pages full = pages full - {p}" "pages part = insert p (pages part)" by auto
  with False assms(1,2) show ?thesis using that by metis
qed

lemma free_2k_ok:
  assumes "mm_inv s" "page_ok s p Page2" "p < 48" "j < 16" "j mod 4 = 0" "bit (mm_bf_sectors_used s ! p) j"
  shows "\<exists>s'. free_2k s p j = Inr s' \<and> mm_inv s' \<and> live s' = (live s)(mm_adr p j := None)"
proof -
  note l = mm_lengths[OF assms(1)] and ok = assms(2)[unfolded page_ok_def Let_def]
  let ?u = "mm_bf_sectors_used s ! p"
  let ?u' = "?u AND (0xffff XOR push_bit j 0xf)"
  obtain f t where ft: "length f = 3" "length t = 3" "pages f = pages (mm_bf_2k_pages_full s) - {p}"
    "pages t = insert p (pages (mm_bf_2k_pages_partial s))"
    "?u = 0xffff \<longrightarrow> bf_clear (mm_bf_2k_pages_full s) p = Inr f \<and> bf_set (mm_bf_2k_pages_partial s) p = Inr t"
    "?u \<noteq> 0xffff \<longrightarrow> f = mm_bf_2k_pages_full s \<and> t = mm_bf_2k_pages_partial s"
    using make_partial[OF l(5,2) assms(3), of "?u = 0xffff"] ok by metis
  have bits: "bit ?u' i \<longleftrightarrow> bit ?u i \<and> i - i mod 4 \<noteq> j" if "i < 16" for i
    using that assms(5) quad_of[of j i] by (auto simp: bit_and_iff bit_xor_iff bit_quad)
  have nf: "?u' \<noteq> 0xffff" using bits[OF assms(4)] assms(4,5) by auto
  have qs: "quads ?u'"
    unfolding quads_def
  proof (intro allI impI)
    fix i :: nat
    assume i: "i < 16"
    then show "bit ?u' i = bit ?u' (i - i mod 4)"
      using bits[OF i] bits[of "i - i mod 4"] quads_at[of ?u i] quad_start[of i] ok by auto
  qed
  let ?s1 = "s\<lparr>mm_bf_2k_pages_full := f, mm_bf_2k_pages_partial := t\<rparr>"
  let ?s2 = "?s1\<lparr>mm_bf_sectors_used := (mm_bf_sectors_used s)[p := ?u']\<rparr>"
  have run: "free_2k s p j = (if ?u' = 0 then
          rbind (bf_clear t p) (\<lambda>partial. rbind (bf_set (mm_bf_pool_pages s) p) (\<lambda>pool.
          Inr (?s2\<lparr>mm_bf_2k_pages_partial := partial, mm_bf_pool_pages := pool\<rparr>)))
        else Inr ?s2)"
    using ft(5,6) l assms(3,5) by (cases "?u = 0xffff") (simp_all add: free_2k_def Let_def)
  have block: "page_block s' p i = (if i = j then None else page_block s p i)"
    if "i < 16" "mm_bf_sectors_used s' ! p = ?u'" "p \<notin> pages (mm_bf_8k_pages_full s')"
      "?u' = 0 \<or> p \<in> pages (mm_bf_2k_pages_partial s')" for s' i
  proof -
    have "page_block s p i = (if bit ?u i \<and> i mod 4 = 0 then Some 2048 else None)"
      using ok by (auto simp: page_block_def)
    moreover have "page_block s' p i = (if bit ?u' i \<and> i mod 4 = 0 then Some 2048 else None)"
      using that by (auto simp: page_block_def)
    ultimately show ?thesis using bits[OF that(1)] assms(5) by auto
  qed
  show ?thesis
  proof (cases "?u' = 0")
    case True
    obtain t1 where t1: "bf_clear t p = Inr t1" "length t1 = 3" "pages t1 = pages t - {p}"
      using bf_clear_ok[OF ft(2) assms(3)] .
    obtain t2 where t2: "bf_set (mm_bf_pool_pages s) p = Inr t2" "length t2 = 3"
      "pages t2 = insert p (pages (mm_bf_pool_pages s))" using bf_set_ok[OF l(1) assms(3)] .
    let ?s = "?s2\<lparr>mm_bf_2k_pages_partial := t1, mm_bf_pool_pages := t2\<rparr>"
    have "mm_inv ?s \<and> live ?s = (live s)(mm_adr p j := None)"
    proof (rule page_step[where k = Pool])
      show "mm_shape ?s" using assms(1) ft t1 t2 by (simp add: mm_inv_shape mm_shape_def)
      show "same_page s ?s q" if "q \<noteq> p" for q using that ft t1 t2 by (simp add: same_page_def)
      show "page_ok ?s p Pool" using ok ft t1 t2 l assms(3) True by (simp add: page_ok_def Let_def)
      show "page_block ?s p i = (if i = j then None else page_block s p i)" if "i < 16" for i
        using that l assms(3) ok True by (intro block) auto
    qed (simp_all add: assms)
    with run True t1 t2 show ?thesis by simp
  next
    case False
    have "mm_inv ?s2 \<and> live ?s2 = (live s)(mm_adr p j := None)"
    proof (rule page_step[where k = Page2])
      show "mm_shape ?s2" using assms(1) ft by (simp add: mm_inv_shape mm_shape_def)
      show "same_page s ?s2 q" if "q \<noteq> p" for q using that ft by (simp add: same_page_def)
      show "page_ok ?s2 p Page2" using ok ft l assms(3) False nf qs by (simp add: page_ok_def Let_def)
      show "page_block ?s2 p i = (if i = j then None else page_block s p i)" if "i < 16" for i
        using that l assms(3) ok ft by (intro block) auto
    qed (simp_all add: assms)
    with run False show ?thesis by simp
  qed
qed

lemma free_512_ok:
  assumes "mm_inv s" "page_ok s p Page512" "p < 48" "j < 16" "bit (mm_bf_sectors_used s ! p) j"
  shows "\<exists>s'. free_512 s p j = Inr s' \<and> mm_inv s' \<and> live s' = (live s)(mm_adr p j := None)"
proof -
  note l = mm_lengths[OF assms(1)] and ok = assms(2)[unfolded page_ok_def Let_def]
  let ?u = "mm_bf_sectors_used s ! p"
  let ?u' = "?u AND (0xffff XOR push_bit j 1)"
  obtain f t where ft: "length f = 3" "length t = 3" "pages f = pages (mm_bf_512_pages_full s) - {p}"
    "pages t = insert p (pages (mm_bf_512_pages_partial s))"
    "?u = 0xffff \<longrightarrow> bf_clear (mm_bf_512_pages_full s) p = Inr f \<and> bf_set (mm_bf_512_pages_partial s) p = Inr t"
    "?u \<noteq> 0xffff \<longrightarrow> f = mm_bf_512_pages_full s \<and> t = mm_bf_512_pages_partial s"
    using make_partial[OF l(6,3) assms(3), of "?u = 0xffff"] ok by metis
  have bits: "bit ?u' i \<longleftrightarrow> bit ?u i \<and> i \<noteq> j" if "i < 16" for i
    using that by (auto simp: bit_and_iff bit_xor_iff bit_one_at simp del: push_bit_of_1)
  have nf: "?u' \<noteq> 0xffff" using bits[OF assms(4)] assms(4) by auto
  let ?s1 = "s\<lparr>mm_bf_512_pages_full := f, mm_bf_512_pages_partial := t\<rparr>"
  let ?s2 = "?s1\<lparr>mm_bf_sectors_used := (mm_bf_sectors_used s)[p := ?u']\<rparr>"
  have run: "free_512 s p j = (if ?u' = 0 then
          rbind (bf_clear t p) (\<lambda>partial. rbind (bf_set (mm_bf_pool_pages s) p) (\<lambda>pool.
          Inr (?s2\<lparr>mm_bf_512_pages_partial := partial, mm_bf_pool_pages := pool\<rparr>)))
        else Inr ?s2)"
    using ft(5,6) l assms(3) by (cases "?u = 0xffff") (simp_all add: free_512_def Let_def)
  have block: "page_block s' p i = (if i = j then None else page_block s p i)"
    if "i < 16" "mm_bf_sectors_used s' ! p = ?u'" "p \<notin> pages (mm_bf_8k_pages_full s')"
      "p \<notin> pages (mm_bf_2k_pages_partial s') \<union> pages (mm_bf_2k_pages_full s')" for s' i
  proof -
    have "page_block s p i = (if bit ?u i then Some 512 else None)"
      using ok by (auto simp: page_block_def)
    moreover have "page_block s' p i = (if bit ?u' i then Some 512 else None)"
      using that(2-4) by (simp add: page_block_def)
    ultimately show ?thesis using bits[OF that(1)] by auto
  qed
  show ?thesis
  proof (cases "?u' = 0")
    case True
    obtain t1 where t1: "bf_clear t p = Inr t1" "length t1 = 3" "pages t1 = pages t - {p}"
      using bf_clear_ok[OF ft(2) assms(3)] .
    obtain t2 where t2: "bf_set (mm_bf_pool_pages s) p = Inr t2" "length t2 = 3"
      "pages t2 = insert p (pages (mm_bf_pool_pages s))" using bf_set_ok[OF l(1) assms(3)] .
    let ?s = "?s2\<lparr>mm_bf_512_pages_partial := t1, mm_bf_pool_pages := t2\<rparr>"
    have "mm_inv ?s \<and> live ?s = (live s)(mm_adr p j := None)"
    proof (rule page_step[where k = Pool])
      show "mm_shape ?s" using assms(1) ft t1 t2 by (simp add: mm_inv_shape mm_shape_def)
      show "same_page s ?s q" if "q \<noteq> p" for q using that ft t1 t2 by (simp add: same_page_def)
      show "page_ok ?s p Pool" using ok ft t1 t2 l assms(3) True by (simp add: page_ok_def Let_def)
      show "page_block ?s p i = (if i = j then None else page_block s p i)" if "i < 16" for i
        using that l assms(3) ok by (intro block) auto
    qed (simp_all add: assms)
    with run True t1 t2 show ?thesis by simp
  next
    case False
    have "mm_inv ?s2 \<and> live ?s2 = (live s)(mm_adr p j := None)"
    proof (rule page_step[where k = Page512])
      show "mm_shape ?s2" using assms(1) ft by (simp add: mm_inv_shape mm_shape_def)
      show "same_page s ?s2 q" if "q \<noteq> p" for q using that ft by (simp add: same_page_def)
      show "page_ok ?s2 p Page512" using ok ft l assms(3) False nf by (simp add: page_ok_def Let_def)
      show "page_block ?s2 p i = (if i = j then None else page_block s p i)" if "i < 16" for i
        using that l assms(3) ok by (intro block) auto
    qed (simp_all add: assms)
    with run False show ?thesis by simp
  qed
qed

section \<open>The manager\<close>

definition block_size :: "u16 \<Rightarrow> nat" where
  "block_size sz = (if 2048 < sz then 8192 else if 512 < sz then 2048 else 512)"

text \<open>The pages in which a block for \<open>sz\<close> bytes could be placed.\<close>

definition pages_with_room :: "mm_state \<Rightarrow> u16 \<Rightarrow> nat set" where
  "pages_with_room s sz = pages (mm_bf_pool_pages s) \<union>
     (if 2048 < sz then {} else if 512 < sz then pages (mm_bf_2k_pages_partial s) else pages (mm_bf_512_pages_partial s))"

definition mm_bits_eq :: "mm_state \<Rightarrow> mm_state \<Rightarrow> bool" where
  "mm_bits_eq s s' \<longleftrightarrow>
     mm_bf_pool_pages s' = mm_bf_pool_pages s \<and> mm_bf_2k_pages_partial s' = mm_bf_2k_pages_partial s \<and>
     mm_bf_512_pages_partial s' = mm_bf_512_pages_partial s \<and> mm_bf_8k_pages_full s' = mm_bf_8k_pages_full s \<and>
     mm_bf_2k_pages_full s' = mm_bf_2k_pages_full s \<and> mm_bf_512_pages_full s' = mm_bf_512_pages_full s \<and>
     mm_bf_sectors_used s' = mm_bf_sectors_used s"

lemma mm_bits_eq_inv:
  assumes "mm_bits_eq s s'" "length (mm_stat_alloc_size s') = 1024" "unat (mm_stat_alloc_ind s') < 1024"
  shows "mm_inv s \<Longrightarrow> mm_inv s'" "live s' = live s" "pages_with_room s' = pages_with_room s"
proof -
  have "page_ok s' p k = page_ok s p k" "page_block s' p i = page_block s p i" for p k i
    using assms(1) by (simp_all add: mm_bits_eq_def page_ok_def page_block_def)
  then show "mm_inv s \<Longrightarrow> mm_inv s'" "live s' = live s"
    using assms by (auto simp: mm_bits_eq_def mm_inv_def live_def fun_eq_iff Let_def)
  show "pages_with_room s' = pages_with_room s"
    using assms(1) by (simp add: mm_bits_eq_def pages_with_room_def fun_eq_iff)
qed

lemma mm_note_size_ok:
  assumes "mm_inv s"
  obtains s1 where "mm_note_size s sz = Inr s1" "mm_inv s1" "live s1 = live s" "pages_with_room s1 = pages_with_room s"
proof -
  have i: "unat (mm_stat_alloc_ind s) < 1024" "length (mm_stat_alloc_size s) = 1024" using assms by (simp_all add: mm_inv_def)
  let ?i = "mm_stat_alloc_ind s + 1"
  have n: "unat ?i = unat (mm_stat_alloc_ind s) + 1" using i(1) by (simp add: unat_word_ariths)
  have "?i \<noteq> 1024 \<Longrightarrow> unat ?i < 1024" using n i(1) by (auto simp: word_unat_eq_iff)
  then have "unat (if ?i = of_nat MM_STAT_ALLOC_NB then 0 else ?i) < 1024" by (simp add: MM_STAT_ALLOC_NB_def)
  then obtain s1 where s1: "mm_note_size s sz = Inr s1" "mm_bits_eq s s1" "length (mm_stat_alloc_size s1) = 1024"
    "unat (mm_stat_alloc_ind s1) < 1024"
    using i by (simp add: mm_note_size_def Let_def mm_bits_eq_def)
  show ?thesis
    by (rule that[OF s1(1)]) (use mm_bits_eq_inv[OF s1(2-4)] assms in auto)
qed

lemma mm_count_same:
  "mm_bits_eq s (mm_count_8k sz a s)" "mm_bits_eq s (mm_count_2k sz a s)" "mm_bits_eq s (mm_count_512 sz a s)"
  by (simp_all add: mm_bits_eq_def mm_count_8k_def mm_count_2k_def mm_count_512_def)

lemma mm_count_stat:
  "mm_stat_alloc_size (mm_count_8k sz a s) = mm_stat_alloc_size s" "mm_stat_alloc_ind (mm_count_8k sz a s) = mm_stat_alloc_ind s"
  "mm_stat_alloc_size (mm_count_2k sz a s) = mm_stat_alloc_size s" "mm_stat_alloc_ind (mm_count_2k sz a s) = mm_stat_alloc_ind s"
  "mm_stat_alloc_size (mm_count_512 sz a s) = mm_stat_alloc_size s" "mm_stat_alloc_ind (mm_count_512 sz a s) = mm_stat_alloc_ind s"
  by (simp_all add: mm_count_8k_def mm_count_2k_def mm_count_512_def)

lemma mm_alloc_ok:
  assumes inv: "mm_inv s" and size: "sz \<le> 8192"
  shows "\<exists>a s'. IPC_4GHIF_data_ul_mm_alloc s sz = Inr (a, s') \<and> mm_inv s' \<and>
    (if pages_with_room s sz = {} then a = 0 \<and> live s' = live s \<and> pages_with_room s' = pages_with_room s
     else a \<noteq> 0 \<and> live s a = None \<and> live s' = (live s)(a \<mapsto> block_size sz))"
proof -
  obtain s1 where s1: "mm_note_size s sz = Inr s1" "mm_inv s1" "live s1 = live s" "pages_with_room s1 = pages_with_room s"
    using mm_note_size_ok[OF inv] .
  have "unat sz < 2 ^ 16" using unsigned_less[of sz] by simp
  then have "unat (ucast sz :: u32) = unat sz" by (simp add: unsigned_ucast_eq take_bit_nat_eq_self)
  then have le: "\<not> MM_PAGE_SIZE < ucast sz"
    using size by (simp add: mm_const_defs word_less_nat_alt word_le_nat_alt)
  have fin: ?thesis
    if "IPC_4GHIF_data_ul_mm_alloc s sz = Inr (a, c)" "alloc_step s1 a s2 (block_size sz) (pages_with_room s1 sz)"
      and same: "mm_bits_eq s2 c" "mm_stat_alloc_size c = mm_stat_alloc_size s2" "mm_stat_alloc_ind c = mm_stat_alloc_ind s2"
    for a c s2
  proof -
    have "mm_inv s2" using that(2) by (simp add: alloc_step_def)
    then have len: "length (mm_stat_alloc_size c) = 1024" "unat (mm_stat_alloc_ind c) < 1024"
      using same by (simp_all add: mm_inv_def)
    show ?thesis
      using that(1,2) s1(3,4) mm_bits_eq_inv[OF same(1) len] by (auto simp: alloc_step_def split: if_splits)
  qed
  note alloc = IPC_4GHIF_data_ul_mm_alloc_def IPC_4GHIF_data_ul_mm_buddy_alloc_def pages_with_room_def block_size_def
  consider "2048 < sz" | "\<not> 2048 < sz" "512 < sz" | "\<not> 2048 < sz" "\<not> 512 < sz" by blast
  then show ?thesis
  proof cases
    case 1
    obtain a s2 where "allocate_8k s1 = Inr (a, s2)" "alloc_step s1 a s2 8192 (pages (mm_bf_pool_pages s1))"
      using allocate_8k_ok[OF s1(2)] by blast
    with 1 le s1(1) show ?thesis
      by (intro fin[of a "mm_count_8k sz a s2" s2]) (simp_all add: alloc mm_count_same mm_count_stat)
  next
    case 2
    obtain a s2 where "allocate_2k s1 = Inr (a, s2)"
      "alloc_step s1 a s2 2048 (pages (mm_bf_pool_pages s1) \<union> pages (mm_bf_2k_pages_partial s1))"
      using allocate_2k_ok[OF s1(2)] by blast
    with 2 le s1(1) show ?thesis
      by (intro fin[of a "mm_count_2k sz a s2" s2]) (simp_all add: alloc mm_count_same mm_count_stat)
  next
    case 3
    obtain a s2 where "allocate_512 s1 = Inr (a, s2)"
      "alloc_step s1 a s2 512 (pages (mm_bf_pool_pages s1) \<union> pages (mm_bf_512_pages_partial s1))"
      using allocate_512_ok[OF s1(2)] by blast
    with 3 le s1(1) show ?thesis
      by (intro fin[of a "mm_count_512 sz a s2" s2]) (simp_all add: alloc mm_count_same mm_count_stat)
  qed
qed

text \<open>The page and the sector that the release computes from an address.\<close>

lemma unat_ucast_u8: "unat (x :: u32) < 256 \<Longrightarrow> unat (ucast x :: u8) = unat x"
  by (simp add: unsigned_ucast_eq take_bit_nat_eq_self)

lemma mm_adr_page:
  assumes "p < 48" "j < 16"
  shows "unat (ucast ((mm_adr p j - MM_MEM_BASE_ADR) div MM_PAGE_SIZE) :: u8) = p"
    and "unat (ucast ((mm_adr p j - MM_MEM_BASE_ADR - of_nat p * MM_PAGE_SIZE) div MM_SECTOR_SIZE) :: u8) = j"
    and "(mm_adr p j - MM_MEM_BASE_ADR) mod MM_SECTOR_SIZE = 0"
    and "\<not> mm_adr p j < MM_MEM_BASE_ADR" "\<not> MM_MEM_BASE_ADR + MM_MEM_SIZE \<le> mm_adr p j"
proof -
  note o = mm_adr_offset[OF assms]
  have d: "(p * 8192 + j * 512) div 8192 = p" using assms by simp
  have "unat ((mm_adr p j - MM_MEM_BASE_ADR) div MM_PAGE_SIZE) = p"
    using o d by (simp add: unat_div mm_const_defs(3))
  then show "unat (ucast ((mm_adr p j - MM_MEM_BASE_ADR) div MM_PAGE_SIZE) :: u8) = p"
    using assms by (subst unat_ucast_u8) simp_all
  have e: "mm_adr p j - MM_MEM_BASE_ADR - of_nat p * MM_PAGE_SIZE = of_nat (j * 512)"
    by (simp add: mm_adr_def mm_const_defs)
  have "unat (of_nat (j * 512) :: u32) = j * 512"
    unfolding unsigned_of_nat using assms by (simp add: take_bit_nat_eq_self)
  then have "unat ((mm_adr p j - MM_MEM_BASE_ADR - of_nat p * MM_PAGE_SIZE) div MM_SECTOR_SIZE) = j"
    unfolding e by (simp add: unat_div mm_const_defs(4) del: of_nat_mult)
  then show "unat (ucast ((mm_adr p j - MM_MEM_BASE_ADR - of_nat p * MM_PAGE_SIZE) div MM_SECTOR_SIZE) :: u8) = j"
    using assms by (subst unat_ucast_u8) simp_all
  have "p * 8192 + j * 512 = (p * 16 + j) * 512" by simp
  then have m: "(p * 8192 + j * 512) mod 512 = 0" by (metis mod_mult_self2_is_0)
  show "(mm_adr p j - MM_MEM_BASE_ADR) mod MM_SECTOR_SIZE = 0"
    using o m by (simp add: word_unat_eq_iff unat_mod mm_const_defs(4))
  have "mm_adr p j = of_nat (0x81080000 + p * 8192 + j * 512)" by (simp add: mm_adr_def mm_const_defs)
  moreover have "unat (of_nat (0x81080000 + p * 8192 + j * 512) :: u32) = 0x81080000 + p * 8192 + j * 512"
    unfolding unsigned_of_nat using assms by (simp add: take_bit_nat_eq_self)
  ultimately have "unat (mm_adr p j) = 0x81080000 + p * 8192 + j * 512" by simp
  with assms show "\<not> mm_adr p j < MM_MEM_BASE_ADR" "\<not> MM_MEM_BASE_ADR + MM_MEM_SIZE \<le> mm_adr p j"
    by (simp_all add: word_less_nat_alt word_le_nat_alt mm_const_defs)
qed

lemma mm_free_at:
  assumes "mm_inv s" "p < 48" "j < 16"
  shows "IPC_4GHIF_data_ul_mm_free s (mm_adr p j) =
    (if \<not> bit (mm_bf_sectors_used s ! p) j then Inl Panic
     else if p \<in> pages (mm_bf_8k_pages_full s) then free_8k s p
     else if p \<in> pages (mm_bf_2k_pages_partial s) \<union> pages (mm_bf_2k_pages_full s) then free_2k s p j
     else free_512 s p j)"
proof -
  note l = mm_lengths[OF assms(1)] and a = mm_adr_page[OF assms(2,3)]
  have "p div 16 < 3" "p mod 16 < 16" using assms(2) by auto
  then show ?thesis
    using l assms(2,3)
    unfolding IPC_4GHIF_data_ul_mm_free_def IPC_4GHIF_data_ul_mm_buddy_free_def Let_def a if_not_P[OF a(4)]
    by (simp add: a pages_def bit_or_iff and_push_zero del: push_bit_of_1)
qed

lemma mm_free_ok:
  assumes inv: "mm_inv s" and a: "live s a = Some n"
  shows "\<exists>s'. IPC_4GHIF_data_ul_mm_free s a = Inr s' \<and> mm_inv s' \<and> live s' = (live s)(a := None)"
proof -
  obtain p j where p: "p < 48" "j < 16" "a = mm_adr p j" "page_block s p j = Some n" using a by (rule live_cases)
  obtain k where k: "page_ok s p k" using mm_inv_page[OF inv p(1)] by blast
  have used: "bit (mm_bf_sectors_used s ! p) j" using p(4) by (auto simp: page_block_def split: if_splits)
  consider "p \<in> pages (mm_bf_8k_pages_full s)" "j = 0"
    | "p \<notin> pages (mm_bf_8k_pages_full s)" "p \<in> pages (mm_bf_2k_pages_partial s) \<union> pages (mm_bf_2k_pages_full s)" "j mod 4 = 0"
    | "p \<notin> pages (mm_bf_8k_pages_full s)" "p \<notin> pages (mm_bf_2k_pages_partial s) \<union> pages (mm_bf_2k_pages_full s)"
    using p(4) by (auto simp: page_block_def split: if_splits)
  then show ?thesis
  proof cases
    case 1
    then show ?thesis using used p(1-3) mm_free_at[OF inv p(1,2)] free_8k_ok[OF inv p(1)] by simp
  next
    case 2
    then have "k = Page2" using k by (auto simp: page_ok_def Let_def)
    with 2 show ?thesis
      using used p(1-3) mm_free_at[OF inv p(1,2)] free_2k_ok[OF inv _ p(1,2) _ used] k by simp
  next
    case 3
    then have "k = Page512" using k used by (cases k) (auto simp: page_ok_def Let_def)
    with 3 show ?thesis
      using used p(1-3) mm_free_at[OF inv p(1,2)] free_512_ok[OF inv _ p(1,2) used] k by simp
  qed
qed



text \<open>Addresses outside the memory and addresses that are not the start of a block.\<close>

lemma in_range_iff:
  "adr < MM_MEM_BASE_ADR \<or> MM_MEM_BASE_ADR + MM_MEM_SIZE \<le> adr \<longleftrightarrow> 48 * 8192 \<le> mm_off adr"
proof (cases "MM_MEM_BASE_ADR \<le> adr")
  case True
  then have "mm_off adr = unat adr - unat MM_MEM_BASE_ADR" by (simp add: mm_off_def unat_sub)
  with True show ?thesis by (simp add: mm_const_defs word_less_nat_alt word_le_nat_alt) linarith
next
  case False
  then have "adr < MM_MEM_BASE_ADR" by simp
  moreover have "unat MM_MEM_BASE_ADR < 2 ^ 32" by (simp add: mm_const_defs)
  ultimately have "mm_off adr = unat adr + (2 ^ 32 - unat MM_MEM_BASE_ADR)"
    by (simp add: mm_off_def unat_sub_if_size word_size word_less_nat_alt)
  with \<open>adr < MM_MEM_BASE_ADR\<close> show ?thesis by (simp add: mm_const_defs)
qed

lemma mm_free_outside:
  "48 * 8192 \<le> mm_off a \<or> mm_off a mod 512 \<noteq> 0 \<Longrightarrow> IPC_4GHIF_data_ul_mm_free s a = Inl Panic"
proof -
  assume a: "48 * 8192 \<le> mm_off a \<or> mm_off a mod 512 \<noteq> 0"
  have "(a - MM_MEM_BASE_ADR) mod MM_SECTOR_SIZE \<noteq> 0 \<longleftrightarrow> mm_off a mod 512 \<noteq> 0"
    by (simp add: word_unat_eq_iff unat_mod mm_off_def mm_const_defs(4))
  with a show ?thesis
    unfolding IPC_4GHIF_data_ul_mm_free_def IPC_4GHIF_data_ul_mm_buddy_free_def in_range_iff
    by (cases "48 * 8192 \<le> mm_off a") simp_all
qed

lemma all_free_pool:
  assumes "mm_inv s" "live s = Map.empty"
  shows "pages (mm_bf_pool_pages s) = {..<48}"
proof -
  have "p \<in> pages (mm_bf_pool_pages s)" if p: "p < 48" for p
  proof -
    obtain k where k: "page_ok s p k" using mm_inv_page[OF assms(1) p] by blast
    have none: "page_block s p i = None" if "i < 16" for i
      using live_mm_adr[OF p that, of s] assms(2) by simp
    have "\<not> bit (mm_bf_sectors_used s ! p) i" if i: "i < 16" for i
    proof
      assume b: "bit (mm_bf_sectors_used s ! p) i"
      then have "k \<noteq> Pool" using k by (auto simp: page_ok_def Let_def)
      then consider "k = Page8" | "k = Page2" | "k = Page512" by (cases k) auto
      then show False
      proof cases
        case 1
        then show False using k none[of 0] by (auto simp: page_ok_def page_block_def Let_def)
      next
        case 2
        then have "bit (mm_bf_sectors_used s ! p) (i - i mod 4)"
          using k b quads_at[OF _ i] by (auto simp: page_ok_def Let_def)
        then show False using 2 k none[of "i - i mod 4"] less_imp_diff_less[OF i, of "i mod 4"] quad_start[of i]
          by (auto simp: page_ok_def page_block_def Let_def split: if_splits)
      next
        case 3
        then show False using k b none[OF i] by (auto simp: page_ok_def page_block_def Let_def split: if_splits)
      qed
    qed
    then have "mm_bf_sectors_used s ! p = 0" using u16_nonzero by blast
    with k show ?thesis by (simp add: page_ok_def Let_def)
  qed
  then show ?thesis by (auto dest: pages_subset)
qed

section \<open>The contract\<close>

text \<open>
  A memory of blocks: what the baseband interface relies on. \<open>blocks\<close> is the partial function
  from addresses to sizes; an allocation that fails returns 0.
\<close>

locale block_memory =
  fixes inv :: "'s \<Rightarrow> bool" and blocks :: "'s \<Rightarrow> u32 \<rightharpoonup> nat" and start :: 's
    and alloc :: "'s \<Rightarrow> u16 \<Rightarrow> (u32 \<times> 's) res" and release :: "'s \<Rightarrow> u32 \<Rightarrow> 's res"
    and limit :: u16 and block :: "u16 \<Rightarrow> nat"
  assumes start: "inv start" "blocks start = Map.empty"
    and block_enough: "sz \<le> limit \<Longrightarrow> unat sz \<le> block sz"
    and alloc_ok: "inv s \<Longrightarrow> sz \<le> limit \<Longrightarrow> \<exists>a s'. alloc s sz = Inr (a, s') \<and> inv s' \<and>
      (if a = 0 then blocks s' = blocks s else blocks s a = None \<and> blocks s' = (blocks s)(a \<mapsto> block sz))"
    and release_ok: "inv s \<Longrightarrow> a \<in> dom (blocks s) \<Longrightarrow>
      \<exists>s'. release s a = Inr s' \<and> inv s' \<and> blocks s' = (blocks s)(a := None)"
    and no_null: "inv s \<Longrightarrow> blocks s 0 = None"
    and empty_has_room: "inv s \<Longrightarrow> blocks s = Map.empty \<Longrightarrow> sz \<le> limit \<Longrightarrow> alloc s sz = Inr (a, s') \<Longrightarrow> a \<noteq> 0"
    and stays_full: "inv s \<Longrightarrow> sz \<le> limit \<Longrightarrow> alloc s sz = Inr (0, s') \<Longrightarrow> \<exists>s''. alloc s' sz = Inr (0, s'')"
begin

text \<open>Several operations after each other: the ways the memory is used by its client.\<close>

primrec release_all :: "u32 list \<Rightarrow> 's \<Rightarrow> 's res" where
  "release_all [] s = Inr s"
| "release_all (a # as) s = rbind (release s a) (release_all as)"

lemma release_all_ok:
  assumes "inv s" "distinct as" "set as \<subseteq> dom (blocks s)"
  shows "\<exists>s'. release_all as s = Inr s' \<and> inv s' \<and> blocks s' = blocks s |` (- set as)"
  using assms
proof (induction as arbitrary: s)
  case Nil
  then show ?case by simp
next
  case (Cons a as)
  then obtain s1 where s1: "release s a = Inr s1" "inv s1" "blocks s1 = (blocks s)(a := None)"
    using release_ok[of s a] by auto
  have "set as \<subseteq> dom (blocks s1)" using Cons.prems s1(3) by auto
  then obtain s2 where "release_all as s1 = Inr s2" "inv s2" "blocks s2 = blocks s1 |` (- set as)"
    using Cons.IH[OF s1(2)] Cons.prems(2) by auto
  moreover have "blocks s1 |` (- set as) = blocks s |` (- set (a # as))"
    using s1(3) by (auto simp: restrict_map_def fun_eq_iff)
  ultimately show ?case using s1(1) by auto
qed

primrec alloc_some :: "u16 list \<Rightarrow> 's \<Rightarrow> (u32 list \<times> 's) res" where
  "alloc_some [] s = Inr ([], s)"
| "alloc_some (sz # szs) s =
     rbind (alloc s sz) (\<lambda>(a, s1).
     if a = 0 then Inr ([], s1) else rbind (alloc_some szs s1) (\<lambda>(as, s2). Inr (a # as, s2)))"

lemma alloc_some_ok:
  assumes "inv s" "\<forall>sz\<in>set szs. sz \<le> limit"
  shows "\<exists>as s'. alloc_some szs s = Inr (as, s') \<and> inv s' \<and> length as \<le> length szs \<and> distinct as \<and>
    set as \<inter> dom (blocks s) = {} \<and> blocks s' = (blocks s)(as [\<mapsto>] map block (take (length as) szs)) \<and>
    (szs \<noteq> [] \<longrightarrow> as = [] \<longrightarrow> blocks s \<noteq> Map.empty) \<and>
    (length as < length szs \<longrightarrow> (\<exists>s''. alloc s' (szs ! length as) = Inr (0, s'')))"
  using assms
proof (induction szs arbitrary: s)
  case Nil
  then show ?case by simp
next
  case (Cons sz szs)
  then obtain a s1 where a: "alloc s sz = Inr (a, s1)" "inv s1"
    "if a = 0 then blocks s1 = blocks s else blocks s a = None \<and> blocks s1 = (blocks s)(a \<mapsto> block sz)"
    using alloc_ok[of s sz] by auto
  show ?case
  proof (cases "a = 0")
    case True
    then show ?thesis using a empty_has_room[of s sz a s1] stays_full[of s sz s1] Cons.prems by auto
  next
    case False
    then have b: "blocks s a = None" "blocks s1 = (blocks s)(a \<mapsto> block sz)" using a(3) by auto
    obtain as s2 where r: "alloc_some szs s1 = Inr (as, s2)" "inv s2" "length as \<le> length szs" "distinct as"
      "set as \<inter> dom (blocks s1) = {}" "blocks s2 = (blocks s1)(as [\<mapsto>] map block (take (length as) szs))"
      "length as < length szs \<longrightarrow> (\<exists>s''. alloc s2 (szs ! length as) = Inr (0, s''))"
      using Cons.IH[OF a(2)] Cons.prems(2) by auto
    have "a \<notin> set as" "a \<notin> dom (blocks s)" "set as \<inter> dom (blocks s) = {}" using r(5) b by auto
    then show ?thesis using False a(1) r b(2) by simp
  qed
qed

end

lemma block_size_enough: "sz \<le> 8192 \<Longrightarrow> unat sz \<le> block_size sz"
  by (auto simp: block_size_def word_le_nat_alt word_less_nat_alt)

lemma live_null: "live s 0 = None"
proof (cases "live s 0")
  case (Some n)
  then show ?thesis by (metis live_cases mm_adr_nonzero)
qed

interpretation ul_mm: block_memory mm_inv live IPC_4GHIF_data_ul_mm_init IPC_4GHIF_data_ul_mm_alloc
  IPC_4GHIF_data_ul_mm_free 8192 block_size
proof
  show "mm_inv IPC_4GHIF_data_ul_mm_init" "live IPC_4GHIF_data_ul_mm_init = Map.empty"
    using mm_init_inv by (simp_all add: IPC_4GHIF_data_ul_mm_init_def)
  show "\<exists>a s'. IPC_4GHIF_data_ul_mm_alloc s sz = Inr (a, s') \<and> mm_inv s' \<and>
      (if a = 0 then live s' = live s else live s a = None \<and> live s' = (live s)(a \<mapsto> block_size sz))"
    if "mm_inv s" "sz \<le> 8192" for s sz
    using mm_alloc_ok[OF that] by (auto split: if_splits)
  show "a \<noteq> 0" if "mm_inv s" "live s = Map.empty" "sz \<le> 8192" "IPC_4GHIF_data_ul_mm_alloc s sz = Inr (a, s')" for s sz a s'
    using mm_alloc_ok[OF that(1,3)] that(4) all_free_pool[OF that(1,2)] lessThan_empty_iff[of 48]
    by (auto simp: pages_with_room_def split: if_splits)
  show "\<exists>s''. IPC_4GHIF_data_ul_mm_alloc s' sz = Inr (0, s'')"
    if "mm_inv s" "sz \<le> 8192" "IPC_4GHIF_data_ul_mm_alloc s sz = Inr (0, s')" for s sz s'
  proof -
    have "mm_inv s'" "pages_with_room s' sz = {}" using mm_alloc_ok[OF that(1,2)] that(3) by (auto split: if_splits)
    then show ?thesis using mm_alloc_ok[OF _ that(2), of s'] by auto
  qed
qed (auto simp: block_size_enough live_null dest: mm_free_ok)

section \<open>Properties\<close>

text \<open>
  C11. Allocation of at most 8 KB never panics and keeps the invariant. It fails exactly when no
  page is free and none with room holds blocks of that size, and changes no block then. Otherwise
  it adds one block, of at least the requested size, inside the memory, that overlaps no block in
  use.
\<close>

theorem IPC_4GHIF_data_ul_mm_alloc_refines:
  assumes "mm_inv s" "sz \<le> 8192"
  shows "\<exists>a s'. IPC_4GHIF_data_ul_mm_alloc s sz = Inr (a, s') \<and> mm_inv s' \<and>
    (if pages_with_room s sz = {} then a = 0 \<and> live s' = live s
     else live s' = (live s)(a \<mapsto> block_size sz) \<and> unat sz \<le> block_size sz \<and>
       mm_off a + block_size sz \<le> unat MM_MEM_SIZE \<and>
       (\<forall>b m. live s b = Some m \<longrightarrow> mm_off a + block_size sz \<le> mm_off b \<or> mm_off b + m \<le> mm_off a))"
proof -
  obtain a s' where r: "IPC_4GHIF_data_ul_mm_alloc s sz = Inr (a, s')" "mm_inv s'"
    "if pages_with_room s sz = {} then a = 0 \<and> live s' = live s
     else a \<noteq> 0 \<and> live s a = None \<and> live s' = (live s)(a \<mapsto> block_size sz)"
    using mm_alloc_ok[OF assms] by (cases "pages_with_room s sz = {}") auto
  show ?thesis
  proof (cases "pages_with_room s sz = {}")
    case True
    with r show ?thesis by simp
  next
    case False
    then have new: "live s a = None" "live s' = (live s)(a \<mapsto> block_size sz)" using r(3) by auto
    have fit: "mm_off a + block_size sz \<le> unat MM_MEM_SIZE"
      using live_block_fits[OF r(2), of a] new(2) by (simp add: mm_const_defs)
    have "mm_off a + block_size sz \<le> mm_off b \<or> mm_off b + m \<le> mm_off a" if b: "live s b = Some m" for b m
    proof -
      have "a \<noteq> b" using b new(1) by auto
      then show ?thesis using live_blocks_disjoint[OF r(2), of a _ b m] new(2) b by auto
    qed
    with r(1,2) new fit False block_size_enough[OF assms(2)] show ?thesis by (intro exI[of _ a] exI[of _ s']) auto
  qed
qed

text \<open>
  C25. Releasing the address of a block in use removes exactly that block. Any other address
  panics, with one exception: a sector inside an 8 KB block releases the whole block.
\<close>

theorem IPC_4GHIF_data_ul_mm_free_refines:
  assumes inv: "mm_inv s"
  shows "case live s a of
      Some n \<Rightarrow> \<exists>s'. IPC_4GHIF_data_ul_mm_free s a = Inr s' \<and> mm_inv s' \<and> live s' = (live s)(a := None)
    | None \<Rightarrow>
        IPC_4GHIF_data_ul_mm_free s a = Inl Panic \<or>
        mm_off a mod 512 = 0 \<and>
        (\<exists>b s'. live s b = Some 8192 \<and> mm_off b < mm_off a \<and> mm_off a < mm_off b + 8192 \<and>
           IPC_4GHIF_data_ul_mm_free s a = Inr s' \<and> mm_inv s' \<and> live s' = (live s)(b := None))"
proof (cases "live s a")
  case (Some n)
  then show ?thesis using mm_free_ok[OF inv] by simp
next
  case none: None
  show ?thesis
  proof (cases "48 * 8192 \<le> mm_off a \<or> mm_off a mod 512 \<noteq> 0")
    case True
    then show ?thesis using none mm_free_outside by simp
  next
    case False
    then have "unat (a - MM_MEM_BASE_ADR) < 48 * 8192" "unat (a - MM_MEM_BASE_ADR) mod 512 = 0"
      by (auto simp: mm_off_def)
    then obtain p j where p: "p < 48" "j < 16" "a = mm_adr p j" by (rule adr_split)
    note fr = mm_free_at[OF inv p(1,2), folded p(3)]
    have blk: "page_block s p j = None" using none live_mm_adr[OF p(1,2), of s] p(3) by simp
    show ?thesis
    proof (cases "bit (mm_bf_sectors_used s ! p) j \<and> p \<in> pages (mm_bf_8k_pages_full s)")
      case True
      then have j: "j \<noteq> 0" using blk by (auto simp: page_block_def split: if_splits)
      obtain k where "page_ok s p k" using mm_inv_page[OF inv p(1)] by blast
      then have "live s (mm_adr p 0) = Some 8192"
        using True p(1) by (auto simp: live_mm_adr page_block_def page_ok_def Let_def)
      moreover obtain s' where "free_8k s p = Inr s'" "mm_inv s'" "live s' = (live s)(mm_adr p 0 := None)"
        using free_8k_ok[OF inv p(1)] True by blast
      moreover have "mm_off (mm_adr p 0) < mm_off a" "mm_off a < mm_off (mm_adr p 0) + 8192"
        using p j by (auto simp: mm_off_def mm_adr_offset)
      ultimately show ?thesis using none fr True False by auto
    next
      case other: False
      have "IPC_4GHIF_data_ul_mm_free s a = Inl Panic"
        using fr blk other by (auto simp: page_block_def free_2k_def split: if_splits)
      with none show ?thesis by simp
    qed
  qed
qed

text \<open>
  When every block has been released, all pages are back in the pool: no use of the manager
  fragments the memory for good, and the next block of any size is placed in page 0.
\<close>

theorem mm_all_released_recovers:
  assumes "mm_inv s" "live s = Map.empty"
  shows "pages (mm_bf_pool_pages s) = {..<48} \<and> (\<exists>s'. allocate_8k s = Inr (mm_adr 0 0, s'))"
proof -
  note pool = all_free_pool[OF assms] and l = mm_lengths[OF assms(1)]
  have "find_page_in_mm_bf_pages (mm_bf_pool_pages s) = Inr 0"
  proof (cases rule: find_page_cases[OF l(1)])
    case 1
    then show ?thesis using pool lessThan_empty_iff[of 48] by simp
  next
    case (2 p)
    then have "p = 0" using pool by auto
    with 2 show ?thesis by simp
  qed
  moreover obtain t1 where "bf_clear (mm_bf_pool_pages s) 0 = Inr t1" using bf_clear_ok[OF l(1), of 0] by auto
  moreover obtain t2 where "bf_set (mm_bf_8k_pages_full s) 0 = Inr t2" using bf_set_ok[OF l(4), of 0] by auto
  ultimately show ?thesis using pool l by (simp add: allocate_8k_def)
qed

lemma partial_blocks_sum:
  assumes "length tab = 3" "length used = 48" "\<forall>i\<in>set js. i < 48"
  shows "partial_blocks tab used per js nb =
    Inr (nb + (\<Sum>i\<leftarrow>filter (\<lambda>i. i \<in> pages tab \<and> i mod 32 < 16) js. get_1_nb_bit_in_u16 (used ! i) div per))"
  using assms(3)
proof (induction js arbitrary: nb)
  case Nil
  then show ?case by simp
next
  case (Cons i js)
  have i: "i < 48" "i div 16 < 3" using Cons.prems by auto
  have "tab ! (i div 16) AND push_bit (i mod 32) 1 \<noteq> 0 \<longleftrightarrow> i \<in> pages tab \<and> i mod 32 < 16"
  proof (cases "i mod 32 < 16")
    case True
    then have "i mod 32 = i mod 16" using mod_mod_cancel[of 16 32 i] by simp
    with True i show ?thesis by (simp add: and_push_one pages_def del: push_bit_of_1)
  next
    case False
    then have "push_bit (i mod 32) (1 :: u16) = 0" by (simp add: bit_eq_iff bit_push_bit_iff del: push_bit_of_1)
    with False show ?thesis by (simp del: push_bit_of_1)
  qed
  then show ?case using Cons i assms(1,2) by (simp add: algebra_simps del: push_bit_of_1)
qed

text \<open>
  The statistics count the blocks of a partially used page only when the page number is below
  16 or at least 32: the bit is taken from \<open>i AND 0x1f\<close> of a 16-bit field.
\<close>

theorem mm_stat_omits_pages:
  assumes "mm_inv s"
  shows "\<exists>st. IPC_4GHIF_data_ul_mm_buddy_get_stat s = Inr st \<and>
    nb_512_block_used st = 16 * nb_512_page_full st +
      (\<Sum>i\<leftarrow>filter (\<lambda>i. i \<in> pages (mm_bf_512_pages_partial s) \<and> i mod 32 < 16) [0..<48].
         get_1_nb_bit_in_u16 (mm_bf_sectors_used s ! i))"
proof -
  note l = mm_lengths[OF assms]
  have "sum_bits tab = Inr (get_1_nb_bit_in_u16 (tab ! 0) + get_1_nb_bit_in_u16 (tab ! 1) + get_1_nb_bit_in_u16 (tab ! 2))"
    if "length tab = 3" for tab using that by (simp add: sum_bits_def)
  then show ?thesis using l partial_blocks_sum[OF l(2,7)] partial_blocks_sum[OF l(3,7)]
    by (simp add: IPC_4GHIF_data_ul_mm_buddy_get_stat_def MM_NB_PAGE_def)
qed

section \<open>Examples\<close>

theorem IPC_4GHIF_data_ul_mm_alloc_refines_witness:
  "\<exists>a s'. IPC_4GHIF_data_ul_mm_alloc IPC_4GHIF_data_ul_mm_init 1500 = Inr (a, s') \<and> mm_inv s' \<and>
     live s' = [a \<mapsto> 2048] \<and> mm_off a + 2048 \<le> unat MM_MEM_SIZE"
proof -
  have "pages_with_room IPC_4GHIF_data_ul_mm_init 1500 \<noteq> {}"
    using all_free_pool[OF ul_mm.start] by (auto simp: pages_with_room_def lessThan_empty_iff)
  then show ?thesis
    using IPC_4GHIF_data_ul_mm_alloc_refines[OF ul_mm.start(1), of 1500] ul_mm.start(2) by (auto simp: block_size_def)
qed

theorem IPC_4GHIF_data_ul_mm_free_refines_witness:
  "\<exists>a s s'. IPC_4GHIF_data_ul_mm_alloc IPC_4GHIF_data_ul_mm_init 1500 = Inr (a, s) \<and> live s = [a \<mapsto> 2048] \<and>
     IPC_4GHIF_data_ul_mm_free s a = Inr s' \<and> live s' = Map.empty"
proof -
  have "pages_with_room IPC_4GHIF_data_ul_mm_init 1500 \<noteq> {}"
    using all_free_pool[OF ul_mm.start] by (auto simp: pages_with_room_def lessThan_empty_iff)
  then obtain a s where s: "IPC_4GHIF_data_ul_mm_alloc IPC_4GHIF_data_ul_mm_init 1500 = Inr (a, s)" "mm_inv s" "live s = [a \<mapsto> 2048]"
    using mm_alloc_ok[OF ul_mm.start(1), of 1500] ul_mm.start(2) by (auto simp: block_size_def)
  then show ?thesis using IPC_4GHIF_data_ul_mm_free_refines[OF s(2), of a] by auto
qed

theorem mm_all_released_recovers_witness:
  "pages (mm_bf_pool_pages IPC_4GHIF_data_ul_mm_init) = {..<48} \<and>
   (\<exists>s'. allocate_8k IPC_4GHIF_data_ul_mm_init = Inr (mm_adr 0 0, s'))"
  using mm_all_released_recovers[OF ul_mm.start] .

text \<open>A manager in which page 20 holds one block of 512 bytes, which the statistics do not count.\<close>

definition one_block :: mm_state where
  "one_block = IPC_4GHIF_data_ul_mm_buddy_init
     \<lparr>mm_bf_pool_pages := [0xffff, 0xffef, 0xffff], mm_bf_512_pages_partial := [0, 0x10, 0],
      mm_bf_sectors_used := (replicate 48 0)[20 := 1]\<rparr>"

lemma one_block_pages:
  "pages [0xffff, 0xffef, 0xffff] = {..<48} - {20}" "pages [0, 0x10, 0] = {20}"
proof -
  have "replicate 3 x = [x, x, x]" for x :: u16 by (simp add: numeral_3_eq_3)
  then have "bf_clear (replicate 3 0xffff) 20 = Inr [0xffff, 0xffef, 0xffff]" "bf_set (replicate 3 0) 20 = Inr [0, 0x10, 0]"
    by (simp_all add: bf_clear_def bf_set_def)
  then show "pages [0xffff, 0xffef, 0xffff] = {..<48} - {20}" "pages [0, 0x10, 0] = {20}"
    using bf_clear_ok[of "replicate 3 0xffff" 20] bf_set_ok[of "replicate 3 0" 20] pages_const by auto
qed

lemma one_block_inv: "mm_inv one_block"
proof -
  have "page_ok one_block p (if p = 20 then Page512 else Pool)" if "p < 48" for p
    using that by (simp add: page_ok_def one_block_def IPC_4GHIF_data_ul_mm_buddy_init_def one_block_pages pages_const)
  then show ?thesis
    unfolding mm_inv_def by (auto simp: one_block_def IPC_4GHIF_data_ul_mm_buddy_init_def mm_const_defs)
qed

theorem mm_stat_omits_pages_witness:
  "mm_inv one_block \<and> live one_block (mm_adr 20 0) = Some 512 \<and>
   (\<exists>st. IPC_4GHIF_data_ul_mm_buddy_get_stat one_block = Inr st \<and> nb_512_block_used st = 16 * nb_512_page_full st)"
proof -
  have "live one_block (mm_adr 20 0) = Some 512"
    by (simp add: live_mm_adr page_block_def one_block_def IPC_4GHIF_data_ul_mm_buddy_init_def pages_const)
  moreover have "pages (mm_bf_512_pages_partial one_block) = {20}"
    by (simp add: one_block_def one_block_pages)
  then have "filter (\<lambda>i. i \<in> pages (mm_bf_512_pages_partial one_block) \<and> i mod 32 < 16) [0..<48] = []"
    by (auto simp: filter_empty_conv)
  ultimately show ?thesis using mm_stat_omits_pages[OF one_block_inv] one_block_inv by simp
qed

end
