(* ===== verification/GhifFifo.thy ===== *)
theory GhifFifo
  imports GhifTypes UlMmOps
begin

text \<open>
  State and shared memory FIFOs of the baseband interface,
  src/kernel/drivers/usb/ipchost/ipc_4ghif.c. The memory shared with the baseband is a function
  from offsets in the region of 512 KB to bytes. Four rings of 256 messages lie in it, each with
  two one-byte indices; the application processor writes the uplink rings and reads the downlink
  rings, the baseband the other way round. Messages are little-endian.

  The state also holds what the hardware and the kernel keep for the driver: the messages in the
  mailboxes, running DMA transfers and scheduled tasklets.
\<close>

section \<open>Shared memory\<close>

type_synonym shm = "nat \<Rightarrow> u8"

definition FIFO_UL_BASE :: nat where "FIFO_UL_BASE = 0x7e000"
definition FIFO_DL_BASE :: nat where "FIFO_DL_BASE = 0x7e800"
definition FIFO_ACK_UL_BASE :: nat where "FIFO_ACK_UL_BASE = 0x7f000"
definition FIFO_ACK_DL_BASE :: nat where "FIFO_ACK_DL_BASE = 0x7f400"
definition FIFO_UL_READ_IND :: nat where "FIFO_UL_READ_IND = 0x7f800"
definition FIFO_UL_WRITE_IND :: nat where "FIFO_UL_WRITE_IND = 0x7f804"
definition FIFO_DL_READ_IND :: nat where "FIFO_DL_READ_IND = 0x7f808"
definition FIFO_DL_WRITE_IND :: nat where "FIFO_DL_WRITE_IND = 0x7f80c"
definition FIFO_ACK_UL_READ_IND :: nat where "FIFO_ACK_UL_READ_IND = 0x7f810"
definition FIFO_ACK_UL_WRITE_IND :: nat where "FIFO_ACK_UL_WRITE_IND = 0x7f814"
definition FIFO_ACK_DL_READ_IND :: nat where "FIFO_ACK_DL_READ_IND = 0x7f818"
definition FIFO_ACK_DL_WRITE_IND :: nat where "FIFO_ACK_DL_WRITE_IND = 0x7f81c"
definition DMA_DESCR_DL_ARRAY :: nat where "DMA_DESCR_DL_ARRAY = 0x7fa00"
definition DMA_DESCR_UL_ARRAY :: nat where "DMA_DESCR_UL_ARRAY = 0x7fc00"
definition IPC_SHARED_PHYS_ADDR :: u32 where "IPC_SHARED_PHYS_ADDR = 0x81080000"
definition IPC_SHARED_VIRT_ADDR :: u32 where "IPC_SHARED_VIRT_ADDR = 0xD8480000"
definition FIFO_MSG_NB :: u32 where "FIFO_MSG_NB = 256"

lemmas shm_layout =
  FIFO_UL_BASE_def FIFO_DL_BASE_def FIFO_ACK_UL_BASE_def FIFO_ACK_DL_BASE_def FIFO_UL_READ_IND_def
  FIFO_UL_WRITE_IND_def FIFO_DL_READ_IND_def FIFO_DL_WRITE_IND_def FIFO_ACK_UL_READ_IND_def
  FIFO_ACK_UL_WRITE_IND_def FIFO_ACK_DL_READ_IND_def FIFO_ACK_DL_WRITE_IND_def DMA_DESCR_DL_ARRAY_def
  DMA_DESCR_UL_ARRAY_def

text \<open>Four bytes, least significant first.\<close>

definition put32 :: "shm \<Rightarrow> nat \<Rightarrow> u32 \<Rightarrow> shm" where
  "put32 m d x = m(d := ucast x, d + 1 := ucast (drop_bit 8 x), d + 2 := ucast (drop_bit 16 x),
     d + 3 := ucast (drop_bit 24 x))"

definition get32 :: "shm \<Rightarrow> nat \<Rightarrow> u32" where
  "get32 m d = push_bit 24 (ucast (m (d + 3))) + push_bit 16 (ucast (m (d + 2))) + push_bit 8 (ucast (m (d + 1))) +
     ucast (m d)"

section \<open>State\<close>

record ghif =
  shared :: shm
  mm :: mm_state
  b_ipc_4ghif_open :: bool
  b_bp_ready :: bool
  b_ap_ready :: bool
  b_sdma_ul_transfer_on_going :: bool
  b_sdma_dl_transfer_on_going :: bool
  b_ul_pause :: bool
  b_process_dl_msg_on_going :: bool
  frames_info :: "packet_info list"
  frames_info_for_receive_cb :: "packet_info list"
  sdma_ul_packet_nb :: nat
  sdma_dl_packet_nb :: nat
  incoming_dl_packet_nb :: nat
  incoming_dl_packet_nb_for_receive_cb :: nat
  p_bp_ready :: bool
  p_receive_dl :: bool
  p_dl_complete :: bool
  p_ul_complete :: bool
  p_ul_resume :: bool
  p_sdma_packet_ul :: "sdma_packet list option"
  p_sdma_packet_dl :: "sdma_packet list option"
  fifo_dl_read_ind :: u32
  fifo_ul_write_ind :: u32
  fifo_dl_write_ind :: u32
  fifo_ul_read_ind :: u32
  fifo_data_dl_msg_table :: "fifo_msg list"
  fifo_data_ul_msg_table :: "fifo_msg list"
  fifo_ack_dl_read_ind :: u32
  fifo_ack_ul_write_ind :: u32
  fifo_ack_dl_write_ind :: u32
  fifo_ack_ul_read_ind :: u32
  the_ipc_4ghif_stats :: ipc_4ghif_stats
  stub_mode :: nat
  ack_nb :: nat
  ack_array :: "u32 list"
  mbox2 :: nat
  mbox3 :: "u32 list"
  mbox2_enabled :: bool
  dma_ul :: bool
  dma_dl :: bool
  dl_complete_tasklet :: bool
  ul_complete_tasklet :: bool
  bp_ready_tasklet :: bool
  receive_dl_tasklet :: bool
  ul_resume_tasklet :: bool

text \<open>
  What the hardware answers: whether a DMA channel, the interrupt and a slot of mailbox 3 are
  available, whether the messages in mailbox 2 can be counted, and the physical address of a buffer.
\<close>

record ghif_env =
  dma_available :: bool
  irq_available :: bool
  mbox_available :: bool
  mbox_countable :: bool
  virt_to_phys_g :: "addr \<Rightarrow> u32"

section \<open>Indices\<close>

definition fifo_4ghif_init_ul_write_ul_read_ind_to_shared :: "'a ghif_scheme \<Rightarrow> 'a ghif_scheme" where
  "fifo_4ghif_init_ul_write_ul_read_ind_to_shared s =
     s\<lparr>shared := put32 (put32 (shared s) FIFO_UL_WRITE_IND 0) FIFO_UL_READ_IND 0\<rparr>"

definition fifo_4ghif_update_ul_read_ind_from_shared :: "'a ghif_scheme \<Rightarrow> 'a ghif_scheme" where
  "fifo_4ghif_update_ul_read_ind_from_shared s = s\<lparr>fifo_ul_read_ind := ucast (shared s FIFO_UL_READ_IND)\<rparr>"

definition fifo_4ghif_update_ul_write_ind_to_shared :: "'a ghif_scheme \<Rightarrow> 'a ghif_scheme" where
  "fifo_4ghif_update_ul_write_ind_to_shared s =
     s\<lparr>shared := (shared s)(FIFO_UL_WRITE_IND := ucast (fifo_ul_write_ind s))\<rparr>"

definition fifo_4ghif_update_dl_read_ind_to_shared :: "'a ghif_scheme \<Rightarrow> 'a ghif_scheme" where
  "fifo_4ghif_update_dl_read_ind_to_shared s =
     s\<lparr>shared := (shared s)(FIFO_DL_READ_IND := ucast (fifo_dl_read_ind s))\<rparr>"

definition fifo_4ghif_update_dl_write_ind_from_shared :: "'a ghif_scheme \<Rightarrow> 'a ghif_scheme" where
  "fifo_4ghif_update_dl_write_ind_from_shared s = s\<lparr>fifo_dl_write_ind := ucast (shared s FIFO_DL_WRITE_IND)\<rparr>"

definition fifo_ack_4ghif_init_ul_write_ul_read_ind_to_shared :: "'a ghif_scheme \<Rightarrow> 'a ghif_scheme" where
  "fifo_ack_4ghif_init_ul_write_ul_read_ind_to_shared s =
     s\<lparr>shared := put32 (put32 (shared s) FIFO_ACK_UL_WRITE_IND 0) FIFO_ACK_UL_READ_IND 0\<rparr>"

definition fifo_ack_4ghif_update_ul_read_ind_from_shared :: "'a ghif_scheme \<Rightarrow> 'a ghif_scheme" where
  "fifo_ack_4ghif_update_ul_read_ind_from_shared s =
     s\<lparr>fifo_ack_ul_read_ind := ucast (shared s FIFO_ACK_UL_READ_IND)\<rparr>"

definition fifo_ack_4ghif_update_ul_write_ind_to_shared :: "'a ghif_scheme \<Rightarrow> 'a ghif_scheme" where
  "fifo_ack_4ghif_update_ul_write_ind_to_shared s =
     s\<lparr>shared := (shared s)(FIFO_ACK_UL_WRITE_IND := ucast (fifo_ack_ul_write_ind s))\<rparr>"

definition fifo_ack_4ghif_update_dl_read_ind_to_shared :: "'a ghif_scheme \<Rightarrow> 'a ghif_scheme" where
  "fifo_ack_4ghif_update_dl_read_ind_to_shared s =
     s\<lparr>shared := (shared s)(FIFO_ACK_DL_READ_IND := ucast (fifo_ack_dl_read_ind s))\<rparr>"

definition fifo_ack_4ghif_update_dl_write_ind_from_shared :: "'a ghif_scheme \<Rightarrow> 'a ghif_scheme" where
  "fifo_ack_4ghif_update_dl_write_ind_from_shared s =
     s\<lparr>fifo_ack_dl_write_ind := ucast (shared s FIFO_ACK_DL_WRITE_IND)\<rparr>"

lemmas ind_defs =
  fifo_4ghif_init_ul_write_ul_read_ind_to_shared_def fifo_4ghif_update_ul_read_ind_from_shared_def
  fifo_4ghif_update_ul_write_ind_to_shared_def fifo_4ghif_update_dl_read_ind_to_shared_def
  fifo_4ghif_update_dl_write_ind_from_shared_def fifo_ack_4ghif_init_ul_write_ul_read_ind_to_shared_def
  fifo_ack_4ghif_update_ul_read_ind_from_shared_def fifo_ack_4ghif_update_ul_write_ind_to_shared_def
  fifo_ack_4ghif_update_dl_read_ind_to_shared_def fifo_ack_4ghif_update_dl_write_ind_from_shared_def

text \<open>Moving an index by one and by a number of slots, with the wrap at the end of the ring.\<close>

definition next_ind :: "u32 \<Rightarrow> u32" where
  "next_ind i = (if FIFO_MSG_NB \<le> i + 1 then 0 else i + 1)"

definition skip_ind :: "u32 \<Rightarrow> u8 \<Rightarrow> u32" where
  "skip_ind i offset = (if FIFO_MSG_NB \<le> i + ucast offset then i + ucast offset - FIFO_MSG_NB else i + ucast offset)"

section \<open>Messages\<close>

definition fifo_4ghif_ul_space_left :: "'a ghif_scheme \<Rightarrow> int \<times> 'a ghif_scheme" where
  "fifo_4ghif_ul_space_left s =
     (let s1 = fifo_4ghif_update_ul_read_ind_from_shared s;
          used = uint ((fifo_ul_write_ind s1 - fifo_ul_read_ind s1) mod FIFO_MSG_NB);
          space = uint FIFO_MSG_NB - 1 - used in
      (if space < 0 then 0 else space, s1))"

definition fifo_ack_4ghif_ul_space_left :: "'a ghif_scheme \<Rightarrow> int \<times> 'a ghif_scheme" where
  "fifo_ack_4ghif_ul_space_left s =
     (let s1 = fifo_ack_4ghif_update_ul_read_ind_from_shared s;
          used = uint ((fifo_ack_ul_write_ind s1 - fifo_ack_ul_read_ind s1) mod FIFO_MSG_NB);
          space = uint FIFO_MSG_NB - 1 - used in
      (if space < 0 then 0 else space, s1))"

definition fifo_4ghif_init :: "'a ghif_scheme \<Rightarrow> 'a ghif_scheme" where
  "fifo_4ghif_init s =
     fifo_4ghif_init_ul_write_ul_read_ind_to_shared (s\<lparr>fifo_dl_read_ind := 0, fifo_ul_write_ind := 0\<rparr>)"

definition fifo_ack_4ghif_init :: "'a ghif_scheme \<Rightarrow> 'a ghif_scheme" where
  "fifo_ack_4ghif_init s =
     fifo_ack_4ghif_init_ul_write_ul_read_ind_to_shared (s\<lparr>fifo_ack_dl_read_ind := 0, fifo_ack_ul_write_ind := 0\<rparr>)"

text \<open>Reading a message: \<open>None\<close> is the status \<open>IPC_4GHIF_FIFO_STATUS_EMPTY\<close>.\<close>

definition read_msg :: "shm \<Rightarrow> nat \<Rightarrow> fifo_msg" where
  "read_msg m d = \<lparr>msg_type = m d, msg_tag = m (d + 1), msg_length = push_bit 8 (ucast (m (d + 3))) + ucast (m (d + 2)),
     start_address = get32 m (d + 4)\<rparr>"

definition fifo_4ghif_get_msg :: "'a ghif_scheme \<Rightarrow> u8 \<Rightarrow> fifo_msg option \<times> 'a ghif_scheme" where
  "fifo_4ghif_get_msg s offset =
     (let s1 = fifo_4ghif_update_dl_write_ind_from_shared s;
          j = skip_ind (fifo_dl_read_ind s1) offset in
      if fifo_dl_write_ind s1 = j then (None, s1)
      else (Some (read_msg (shared s1) (FIFO_DL_BASE + unat j * 8)), s1))"

definition fifo_ack_4ghif_get_msg :: "'a ghif_scheme \<Rightarrow> fifo_msg option \<times> 'a ghif_scheme" where
  "fifo_ack_4ghif_get_msg s =
     (let s1 = fifo_ack_4ghif_update_dl_write_ind_from_shared s in
      if fifo_ack_dl_write_ind s1 = fifo_ack_dl_read_ind s1 then (None, s1)
      else (Some \<lparr>msg_type = eIPC_MSG_TYPE_UL_ACK, msg_tag = 0, msg_length = 0,
             start_address = get32 (shared s1) (FIFO_ACK_DL_BASE + 4 * unat (fifo_ack_dl_read_ind s1))\<rparr>, s1))"

definition fifo_4ghif_increment_read_ind_after_get_msg :: "'a ghif_scheme \<Rightarrow> u8 \<Rightarrow> 'a ghif_scheme" where
  "fifo_4ghif_increment_read_ind_after_get_msg s offset =
     fifo_4ghif_update_dl_read_ind_to_shared (s\<lparr>fifo_dl_read_ind := skip_ind (fifo_dl_read_ind s) offset\<rparr>)"

definition fifo_ack_4ghif_increment_read_ind_after_get_msg :: "'a ghif_scheme \<Rightarrow> 'a ghif_scheme" where
  "fifo_ack_4ghif_increment_read_ind_after_get_msg s =
     fifo_ack_4ghif_update_dl_read_ind_to_shared (s\<lparr>fifo_ack_dl_read_ind := next_ind (fifo_ack_dl_read_ind s)\<rparr>)"

definition write_msg :: "shm \<Rightarrow> nat \<Rightarrow> fifo_msg \<Rightarrow> shm" where
  "write_msg m d msg =
     put32 (m(d := msg_type msg, d + 1 := msg_tag msg, d + 2 := ucast (msg_length msg),
       d + 3 := ucast (drop_bit 8 (msg_length msg)))) (d + 4) (start_address msg)"

definition fifo_4ghif_add_msg :: "'a ghif_scheme \<Rightarrow> fifo_msg \<Rightarrow> IPC_4GHIF_FIFO_STATUS \<times> 'a ghif_scheme" where
  "fifo_4ghif_add_msg s msg =
     (let (space, s1) = fifo_4ghif_ul_space_left s in
      if space = 0 then (IPC_4GHIF_FIFO_STATUS_FULL, s1)
      else
        (IPC_4GHIF_FIFO_STATUS_OK,
         fifo_4ghif_update_ul_write_ind_to_shared
           (s1\<lparr>shared := write_msg (shared s1) (FIFO_UL_BASE + unat (fifo_ul_write_ind s1) * 8) msg,
               fifo_ul_write_ind := next_ind (fifo_ul_write_ind s1)\<rparr>)))"

definition fifo_ack_4ghif_add_msg :: "'a ghif_scheme \<Rightarrow> fifo_msg \<Rightarrow> IPC_4GHIF_FIFO_STATUS \<times> 'a ghif_scheme" where
  "fifo_ack_4ghif_add_msg s msg =
     (let (space, s1) = fifo_ack_4ghif_ul_space_left s in
      if space = 0 then (IPC_4GHIF_FIFO_STATUS_FULL, s1)
      else
        (IPC_4GHIF_FIFO_STATUS_OK,
         fifo_ack_4ghif_update_ul_write_ind_to_shared
           (s1\<lparr>shared := put32 (shared s1) (FIFO_ACK_UL_BASE + 4 * unat (fifo_ack_ul_write_ind s1)) (start_address msg),
               fifo_ack_ul_write_ind := next_ind (fifo_ack_ul_write_ind s1)\<rparr>)))"

text \<open>\<open>mailbox_4ghif_send_msg\<close>: the message is lost when the mailbox cannot take it.\<close>

definition mailbox_4ghif_send_msg :: "ghif_env \<Rightarrow> 'a ghif_scheme \<Rightarrow> u32 \<Rightarrow> bool \<times> 'a ghif_scheme" where
  "mailbox_4ghif_send_msg e s msg = (mbox_available e, if mbox_available e then s\<lparr>mbox3 := mbox3 s @ [msg]\<rparr> else s)"

end
