(* ===== verification/Ghif.thy ===== *)
theory Ghif
  imports GhifFifo
begin

text \<open>
  The baseband interface, src/kernel/drivers/usb/ipchost/ipc_4ghif.c, and the stub that plays the
  baseband, ipc_4ghif_stub_bp_loopback.c: the calls of the data driver, the interrupt and DMA
  handlers, and the tasklets that run the callbacks of the data driver. A callback is a parameter:
  a function on the state, which may be extended by the state of the data driver. Each function is
  one step. For the handlers the spinlocks and the single processor make it so; the calls of the
  data driver run with interrupts enabled, and an interrupt in the middle of one is not modelled.
  A call of
  \<open>panic\<close> is the fault \<open>Panic\<close>. The arrays of packets are lists of \<open>packet_nb\<close> elements. The time
  stamps of the test report and the strings of errors and statistics are left out.
\<close>

section \<open>Constants\<close>

definition MAILBOX_READY_MSG :: u32 where "MAILBOX_READY_MSG = 1"
definition MAILBOX_DATA_MSG :: u32 where "MAILBOX_DATA_MSG = 2"
definition MAILBOX_ACK_MSG :: u32 where "MAILBOX_ACK_MSG = 3"
definition NEXT_DESCR_TYPE3SD :: u32 where "NEXT_DESCR_TYPE3SD = 0x65000000"
definition NEXT_DESCR_LAST :: u32 where "NEXT_DESCR_LAST = 0x10000000"
definition END_OF_DMA_TYPE3_LINKLIST :: u32 where "END_OF_DMA_TYPE3_LINKLIST = 0xFFFFFFFF"
definition ONE_GIGABYTE :: u32 where "ONE_GIGABYTE = push_bit 30 1"
definition IPC_4GHIF_BP_LOOPBACK_STUB_DISABLED :: nat where "IPC_4GHIF_BP_LOOPBACK_STUB_DISABLED = 0"
definition IPC_4GHIF_BP_LOOPBACK_STUB_ENABLED :: nat where "IPC_4GHIF_BP_LOOPBACK_STUB_ENABLED = 1"
definition IPC_4GHIF_BP_LOOPBACK_STUB_ENABLED_ONLY_FOR_UL :: nat where
  "IPC_4GHIF_BP_LOOPBACK_STUB_ENABLED_ONLY_FOR_UL = 2"

lemmas stub_mode_defs = IPC_4GHIF_BP_LOOPBACK_STUB_DISABLED_def IPC_4GHIF_BP_LOOPBACK_STUB_ENABLED_def
  IPC_4GHIF_BP_LOOPBACK_STUB_ENABLED_ONLY_FOR_UL_def

definition upd_ghif_stats :: "(ipc_4ghif_stats \<Rightarrow> ipc_4ghif_stats) \<Rightarrow> 'a ghif_scheme \<Rightarrow> 'a ghif_scheme" where
  "upd_ghif_stats f s = s\<lparr>the_ipc_4ghif_stats := f (the_ipc_4ghif_stats s)\<rparr>"

section \<open>Messages from the baseband\<close>

datatype FIFO_4GHIF_STATUS =
    FIFO_4GHIF_STATUS_OK | FIFO_4GHIF_STATUS_INVALID_MSG_TYPE | FIFO_4GHIF_STATUS_INVALID_MSG_LENGTH
  | FIFO_4GHIF_STATUS_ERROR

definition dl_info :: "fifo_msg \<Rightarrow> packet_info" where
  "dl_info msg = \<lparr>pi_type = (if msg_type msg = eIPC_MSG_TYPE_DL_MON then PKT_TYPE_DL_MON
      else if msg_type msg = eIPC_MSG_TYPE_DL_MGMT then PKT_TYPE_DL_MGMT else PKT_TYPE_DL_DATA),
     pi_buf_size = ucast (msg_length msg)\<rparr>"

definition dl_type_ok :: "fifo_msg \<Rightarrow> bool" where
  "dl_type_ok msg \<longleftrightarrow> msg_type msg = eIPC_MSG_TYPE_DL_DATA \<or> msg_type msg = eIPC_MSG_TYPE_DL_MGMT \<or>
     msg_type msg = eIPC_MSG_TYPE_DL_MON"

definition dl_length_ok :: "fifo_msg \<Rightarrow> bool" where
  "dl_length_ok msg \<longleftrightarrow> msg_length msg \<noteq> 0 \<and> unat (msg_length msg) \<le> DATA_DL_PACKET_MAX_SIZE"

text \<open>
  The loop over the messages in the ring; \<open>n\<close> is the number of table entries left from \<open>index\<close>
  on, so that the test \<open>index < IPC_4GHIF_MAX_NB_DL_FRAMES\<close> is \<open>n \<noteq> 0\<close>.
\<close>

fun frame_info_loop ::
  "nat \<Rightarrow> nat \<Rightarrow> int \<Rightarrow> 'a ghif_scheme \<Rightarrow> (FIFO_4GHIF_STATUS \<times> nat \<times> 'a ghif_scheme) res" where
  "frame_info_loop 0 index room s =
     Inr (FIFO_4GHIF_STATUS_OK, index, snd (fifo_4ghif_get_msg s (of_nat index)))"
| "frame_info_loop (Suc n) index room s =
     (case fifo_4ghif_get_msg s (of_nat index) of
        (None, s1) \<Rightarrow> Inr (FIFO_4GHIF_STATUS_OK, index, s1)
      | (Some msg, s1) \<Rightarrow>
          if \<not> dl_type_ok msg then Inr (FIFO_4GHIF_STATUS_INVALID_MSG_TYPE, 0, s1)
          else if \<not> dl_length_ok msg then Inr (FIFO_4GHIF_STATUS_INVALID_MSG_LENGTH, 0, s1)
          else if room \<le> int index then Inr (FIFO_4GHIF_STATUS_OK, index, s1)
          else rbind (arr_put (fifo_data_dl_msg_table s1) index msg) (\<lambda>tab.
            rbind (arr_put (frames_info s1) index (dl_info msg)) (\<lambda>infos.
            frame_info_loop n (index + 1) room (s1\<lparr>fifo_data_dl_msg_table := tab, frames_info := infos\<rparr>))))"

definition fifo_4ghif_get_frame_info :: "'a ghif_scheme \<Rightarrow> (FIFO_4GHIF_STATUS \<times> nat \<times> 'a ghif_scheme) res" where
  "fifo_4ghif_get_frame_info s =
     (let (room, s1) = fifo_ack_4ghif_ul_space_left s in
      frame_info_loop IPC_4GHIF_MAX_NB_DL_FRAMES 0 room s1)"

definition fifo_4ghif_process_dl_msg :: "'a ghif_scheme \<Rightarrow> 'a ghif_scheme res" where
  "fifo_4ghif_process_dl_msg s =
     (if b_process_dl_msg_on_going s then Inr s
      else if \<not> b_bp_ready s then
        (case fifo_4ghif_get_msg s 0 of
           (None, s1) \<Rightarrow> Inr s1
         | (Some msg, s1) \<Rightarrow>
             if msg_type msg \<noteq> eIPC_MSG_TYPE_INIT_REQ then Inl Panic
             else Inr ((fifo_4ghif_increment_read_ind_after_get_msg (s1\<lparr>b_bp_ready := True\<rparr>) 1)
                         \<lparr>b_process_dl_msg_on_going := True, bp_ready_tasklet := True\<rparr>))
      else rbind (fifo_4ghif_get_frame_info s) (\<lambda>(status, nb, s1).
        let s2 = s1\<lparr>incoming_dl_packet_nb := nb\<rparr> in
        if status \<noteq> FIFO_4GHIF_STATUS_OK then Inl Panic
        else if 0 < nb then
          Inr (s2\<lparr>b_process_dl_msg_on_going := True, incoming_dl_packet_nb_for_receive_cb := nb,
                 frames_info_for_receive_cb :=
                   take nb (frames_info s2) @ drop nb (frames_info_for_receive_cb s2),
                 receive_dl_tasklet := True\<rparr>)
        else Inr s2))"

text \<open>One acknowledged uplink frame: its memory is released and a paused uplink may go on.\<close>

definition ack_one :: "'a ghif_scheme \<Rightarrow> fifo_msg \<Rightarrow> 'a ghif_scheme res" where
  "ack_one s msg =
     (let s1 = upd_ghif_stats (\<lambda>t. t\<lparr>stat_ul_ack := stat_ul_ack t + 1\<rparr>) s in
      rbind (IPC_4GHIF_data_ul_mm_free (mm s1) (start_address msg)) (\<lambda>m.
      let s2 = s1\<lparr>mm := m\<rparr>;
          s3 = (if b_ul_pause s2 then
                  let (space, s4) = fifo_4ghif_ul_space_left s2 in
                  if 0 < space then s4\<lparr>b_ul_pause := False, ul_resume_tasklet := True\<rparr> else s4
                else s2) in
      Inr (fifo_ack_4ghif_increment_read_ind_after_get_msg s3)))"

partial_function (option) ack_loop :: "'a ghif_scheme \<Rightarrow> 'a ghif_scheme res option" where
  "ack_loop s =
     (case fifo_ack_4ghif_get_msg s of
        (None, s1) \<Rightarrow> Some (Inr s1)
      | (Some msg, s1) \<Rightarrow> (case ack_one s1 msg of Inl f \<Rightarrow> Some (Inl f) | Inr s2 \<Rightarrow> ack_loop s2))"

definition fifo_ack_4ghif_process_dl_msg :: "'a ghif_scheme \<Rightarrow> 'a ghif_scheme res" where
  "fifo_ack_4ghif_process_dl_msg s = returned (ack_loop s)"

definition process_msgs :: "'a ghif_scheme \<Rightarrow> 'a ghif_scheme res" where
  "process_msgs s = rbind (fifo_ack_4ghif_process_dl_msg s) fifo_4ghif_process_dl_msg"

definition mailbox_ISR_4GHIF :: "ghif_env \<Rightarrow> 'a ghif_scheme \<Rightarrow> 'a ghif_scheme res" where
  "mailbox_ISR_4GHIF e s =
     (if \<not> mbox_countable e then Inl Panic
      else process_msgs ((upd_ghif_stats (\<lambda>t. t\<lparr>stat_irq_nb := stat_irq_nb t + 1\<rparr>) s)\<lparr>mbox2 := 0\<rparr>))"

section \<open>The stub of the baseband\<close>

partial_function (option) loopback_frames :: "'a ghif_scheme \<Rightarrow> 'a ghif_scheme res option" where
  "loopback_frames s =
     (let m = shared s; ul_read = m FIFO_UL_READ_IND; ul_write = m FIFO_UL_WRITE_IND;
          dl_write = m FIFO_DL_WRITE_IND; dl_read = m FIFO_DL_READ_IND in
      if ul_read = ul_write then Some (Inr s)
      else if dl_write + 1 = dl_read then Some (Inl Panic)
      else let r = FIFO_UL_BASE + 8 * unat ul_read; w = FIFO_DL_BASE + 8 * unat dl_write;
               m1 = (if m r = eIPC_MSG_TYPE_UL_DATA \<or> m r = eIPC_MSG_TYPE_UL_MGMT then
                       (m(w := (if m r = eIPC_MSG_TYPE_UL_DATA then eIPC_MSG_TYPE_DL_DATA else eIPC_MSG_TYPE_DL_MGMT),
                          w + 1 := m (r + 1), w + 2 := m (r + 2), w + 3 := m (r + 3), w + 4 := m (r + 4),
                          w + 5 := m (r + 5), w + 6 := m (r + 6), w + 7 := m (r + 7)))
                         (FIFO_DL_WRITE_IND := dl_write + 1)
                     else m) in
        loopback_frames (s\<lparr>shared := m1(FIFO_UL_READ_IND := ul_read + 1)\<rparr>))"

definition simulate_loopback_bp_frames :: "'a ghif_scheme \<Rightarrow> 'a ghif_scheme res" where
  "simulate_loopback_bp_frames s = rbind (returned (loopback_frames s)) (\<lambda>s1. Inr (s1\<lparr>mbox2 := mbox2 s1 + 1\<rparr>))"

partial_function (option) loopback_acks :: "'a ghif_scheme \<Rightarrow> 'a ghif_scheme res option" where
  "loopback_acks s =
     (let m = shared s; ap_write = m FIFO_ACK_UL_WRITE_IND; bp_read = m FIFO_ACK_UL_READ_IND;
          ap_read = m FIFO_ACK_DL_READ_IND; bp_write = m FIFO_ACK_DL_WRITE_IND in
      if ap_write = bp_read then Some (Inr s)
      else let m1 = put32 m (FIFO_ACK_DL_BASE + 4 * unat bp_write) (get32 m (FIFO_ACK_UL_BASE + 4 * unat bp_read));
               m2 = m1(FIFO_ACK_UL_READ_IND := bp_read + 1);
               n = ack_nb s + 1 in
        if ap_read = bp_write + 1 then Some (Inl Panic)
        else loopback_acks
          (s\<lparr>shared := m2(FIFO_ACK_DL_WRITE_IND := bp_write + 1), ack_nb := (if n = 16 then 0 else n),
             mbox2 := (if n = 16 then mbox2 s + 1 else mbox2 s)\<rparr>))"

definition simulate_loopback_bp_acks :: "'a ghif_scheme \<Rightarrow> 'a ghif_scheme res" where
  "simulate_loopback_bp_acks s = returned (loopback_acks s)"

definition simulate_loopback_bp :: "'a ghif_scheme \<Rightarrow> 'a ghif_scheme res" where
  "simulate_loopback_bp s = rbind (simulate_loopback_bp_frames s) simulate_loopback_bp_acks"

text \<open>Sixteen collected addresses are written into the ring of acknowledgements.\<close>

fun stub_send_acks :: "u32 list \<Rightarrow> shm \<Rightarrow> shm res" where
  "stub_send_acks [] m = Inr m"
| "stub_send_acks (a # as) m =
     (let ap_read = m FIFO_ACK_DL_READ_IND; bp_write = m FIFO_ACK_DL_WRITE_IND;
          m1 = put32 m (FIFO_ACK_DL_BASE + 4 * unat bp_write) a in
      if ap_read = bp_write + 1 then Inl Panic
      else stub_send_acks as (m1(FIFO_ACK_DL_WRITE_IND := bp_write + 1)))"

definition stub_take_frame :: "'a ghif_scheme \<Rightarrow> 'a ghif_scheme res" where
  "stub_take_frame s =
     (let m = shared s; r = FIFO_UL_BASE + 8 * unat (m FIFO_UL_READ_IND) in
      rbind (if m r = eIPC_MSG_TYPE_UL_DATA \<or> m r = eIPC_MSG_TYPE_UL_MGMT then
               rbind (arr_put (ack_array s) (ack_nb s) (get32 m (r + 4))) (\<lambda>arr.
               if ack_nb s + 1 = 16 then
                 rbind (stub_send_acks (take 16 arr) m) (\<lambda>m1.
                 Inr (s\<lparr>shared := m1, ack_array := arr, ack_nb := 0, mbox2 := mbox2 s + 1\<rparr>))
               else Inr (s\<lparr>ack_array := arr, ack_nb := ack_nb s + 1\<rparr>))
             else Inr s) (\<lambda>s1.
      Inr (s1\<lparr>shared := (shared s1)(FIFO_UL_READ_IND := m FIFO_UL_READ_IND + 1)\<rparr>)))"

partial_function (option) stub_ul_loop :: "'a ghif_scheme \<Rightarrow> 'a ghif_scheme res option" where
  "stub_ul_loop s =
     (if shared s FIFO_UL_READ_IND = shared s FIFO_UL_WRITE_IND then Some (Inr s)
      else case stub_take_frame s of Inl f \<Rightarrow> Some (Inl f) | Inr s1 \<Rightarrow> stub_ul_loop s1)"

definition simulate_ul_bp :: "'a ghif_scheme \<Rightarrow> 'a ghif_scheme res" where
  "simulate_ul_bp s = returned (stub_ul_loop s)"

definition simulate_bp_init :: "'a ghif_scheme \<Rightarrow> 'a ghif_scheme" where
  "simulate_bp_init s =
     (let m = (shared s)(FIFO_ACK_UL_READ_IND := shared s FIFO_ACK_UL_WRITE_IND) in
      s\<lparr>shared := m(FIFO_UL_READ_IND := m FIFO_UL_WRITE_IND)\<rparr>)"

section \<open>End of DMA transfers\<close>

text \<open>Adding a list of messages to a ring; a full ring panics.\<close>

fun add_ul_msgs :: "fifo_msg list \<Rightarrow> 'a ghif_scheme \<Rightarrow> 'a ghif_scheme res" where
  "add_ul_msgs [] s = Inr s"
| "add_ul_msgs (msg # msgs) s =
     (case fifo_4ghif_add_msg s msg of
        (st, s1) \<Rightarrow> if st = IPC_4GHIF_FIFO_STATUS_FULL then Inl Panic else add_ul_msgs msgs s1)"

fun add_dl_acks :: "fifo_msg list \<Rightarrow> 'a ghif_scheme \<Rightarrow> 'a ghif_scheme res" where
  "add_dl_acks [] s = Inr s"
| "add_dl_acks (msg # msgs) s =
     (case fifo_ack_4ghif_add_msg s (msg\<lparr>msg_type := eIPC_MSG_TYPE_DL_ACK\<rparr>) of
        (st, s1) \<Rightarrow> if st = IPC_4GHIF_FIFO_STATUS_FULL then Inl Panic else add_dl_acks msgs s1)"

definition first_msgs :: "fifo_msg list \<Rightarrow> nat \<Rightarrow> fifo_msg list res" where
  "first_msgs tab n = (if n \<le> length tab then Inr (take n tab) else Inl OutOfBounds)"

definition sdma_4ghif_ul_callback :: "ghif_env \<Rightarrow> 'a ghif_scheme \<Rightarrow> 'a ghif_scheme res" where
  "sdma_4ghif_ul_callback e s =
     (let s1 = (upd_ghif_stats (\<lambda>t. t\<lparr>stat_ul_sdma_done := stat_ul_sdma_done t + 1\<rparr>) s)\<lparr>dma_ul := False\<rparr> in
      rbind (first_msgs (fifo_data_ul_msg_table s1) (sdma_ul_packet_nb s1)) (\<lambda>msgs.
      rbind (add_ul_msgs msgs s1) (\<lambda>s2.
      rbind (if stub_mode s2 = IPC_4GHIF_BP_LOOPBACK_STUB_DISABLED then
               (case mailbox_4ghif_send_msg e s2 MAILBOX_DATA_MSG of (ok, s3) \<Rightarrow> if ok then Inr s3 else Inl Panic)
             else if stub_mode s2 = IPC_4GHIF_BP_LOOPBACK_STUB_ENABLED then simulate_loopback_bp_frames s2
             else if stub_mode s2 = IPC_4GHIF_BP_LOOPBACK_STUB_ENABLED_ONLY_FOR_UL then simulate_ul_bp s2
             else Inr s2) (\<lambda>s3.
      Inr (s3\<lparr>ul_complete_tasklet := True\<rparr>)))))"

definition sdma_4ghif_dl_callback :: "ghif_env \<Rightarrow> 'a ghif_scheme \<Rightarrow> 'a ghif_scheme res" where
  "sdma_4ghif_dl_callback e s =
     (let s1 = (upd_ghif_stats (\<lambda>t. t\<lparr>stat_dl_sdma_done := stat_dl_sdma_done t + 1\<rparr>) s)\<lparr>dma_dl := False\<rparr> in
      rbind (first_msgs (fifo_data_dl_msg_table s1) (sdma_dl_packet_nb s1)) (\<lambda>msgs.
      rbind (add_dl_acks msgs s1) (\<lambda>s2.
      rbind (if stub_mode s2 = IPC_4GHIF_BP_LOOPBACK_STUB_DISABLED \<or>
                stub_mode s2 = IPC_4GHIF_BP_LOOPBACK_STUB_ENABLED_ONLY_FOR_UL then
               (case mailbox_4ghif_send_msg e s2 MAILBOX_ACK_MSG of (ok, s3) \<Rightarrow> if ok then Inr s3 else Inl Panic)
             else if stub_mode s2 = IPC_4GHIF_BP_LOOPBACK_STUB_ENABLED then simulate_loopback_bp_acks s2
             else Inr s2) (\<lambda>s3.
      Inr ((upd_ghif_stats (\<lambda>t. t\<lparr>stat_dl_ack := stat_dl_ack t + of_nat (sdma_dl_packet_nb s3)\<rparr>) s3)
             \<lparr>dl_complete_tasklet := True\<rparr>)))))"

section \<open>Tasklets\<close>

text \<open>The kernel clears the mark of a scheduled tasklet before it calls the function.\<close>

definition dl_complete_tasklet_function ::
  "(sdma_packet list option \<Rightarrow> 'a ghif_scheme \<Rightarrow> 'a ghif_scheme res) \<Rightarrow> 'a ghif_scheme \<Rightarrow> 'a ghif_scheme res" where
  "dl_complete_tasklet_function cb s =
     (let s1 = s\<lparr>dl_complete_tasklet := False, b_sdma_dl_transfer_on_going := False\<rparr> in
      rbind (if p_dl_complete s1 then cb (p_sdma_packet_dl s1) s1 else Inr s1) (\<lambda>s2.
      process_msgs (s2\<lparr>b_process_dl_msg_on_going := False\<rparr>)))"

definition ul_complete_tasklet_function ::
  "(sdma_packet list option \<Rightarrow> 'a ghif_scheme \<Rightarrow> 'a ghif_scheme res) \<Rightarrow> 'a ghif_scheme \<Rightarrow> 'a ghif_scheme res" where
  "ul_complete_tasklet_function cb s =
     (let s1 = s\<lparr>ul_complete_tasklet := False, b_sdma_ul_transfer_on_going := False\<rparr> in
      if p_ul_complete s1 then cb (p_sdma_packet_ul s1) s1 else Inr s1)"

definition bp_ready_tasklet_function ::
  "('a ghif_scheme \<Rightarrow> 'a ghif_scheme res) \<Rightarrow> 'a ghif_scheme \<Rightarrow> 'a ghif_scheme res" where
  "bp_ready_tasklet_function cb s =
     (let s1 = s\<lparr>bp_ready_tasklet := False\<rparr> in
      rbind (if p_bp_ready s1 then cb s1 else Inr s1) (\<lambda>s2.
      process_msgs (s2\<lparr>b_process_dl_msg_on_going := False\<rparr>)))"

definition receive_dl_tasklet_function ::
  "(nat \<Rightarrow> packet_info list \<Rightarrow> 'a ghif_scheme \<Rightarrow> 'a ghif_scheme res) \<Rightarrow> 'a ghif_scheme \<Rightarrow> 'a ghif_scheme res" where
  "receive_dl_tasklet_function cb s =
     (let s1 = upd_ghif_stats (\<lambda>t. t\<lparr>stat_dl_notify := stat_dl_notify t + 1\<rparr>) (s\<lparr>receive_dl_tasklet := False\<rparr>) in
      if p_receive_dl s1 then cb (incoming_dl_packet_nb_for_receive_cb s1) (frames_info_for_receive_cb s1) s1
      else Inr s1)"

definition ul_resume_tasklet_function ::
  "('a ghif_scheme \<Rightarrow> 'a ghif_scheme res) \<Rightarrow> 'a ghif_scheme \<Rightarrow> 'a ghif_scheme res" where
  "ul_resume_tasklet_function cb s =
     (let s1 = upd_ghif_stats (\<lambda>t. t\<lparr>stat_ul_resume_full := stat_ul_resume_full t + 1\<rparr>) (s\<lparr>ul_resume_tasklet := False\<rparr>) in
      if p_ul_resume s1 then cb s1 else Inr s1)"

section \<open>Calls of the data driver\<close>

definition IPC_4GHIF_open ::
  "ghif_env \<Rightarrow> ipc_4ghif_callbacks \<Rightarrow> 'a ghif_scheme \<Rightarrow> (IPC_4GHIF_STATUS \<times> 'a ghif_scheme) res" where
  "IPC_4GHIF_open e c s =
     (if b_ipc_4ghif_open s then Inr (IPC_4GHIF_STATUS_ALREADY_OPEN, s)
      else let s1 = s\<lparr>p_bp_ready := cb_bp_ready c, p_receive_dl := cb_receive_dl c, p_dl_complete := cb_dl_complete c,
                  p_ul_complete := cb_ul_complete c, p_ul_resume := cb_ul_resume c\<rparr>;
               s2 = (if \<not> b_bp_ready s1 then (fifo_ack_4ghif_init (fifo_4ghif_init s1))\<lparr>mm := IPC_4GHIF_data_ul_mm_init\<rparr>
                     else s1) in
        if \<not> irq_available e then Inl Panic
        else Inr (IPC_4GHIF_STATUS_OK,
          s2\<lparr>b_ipc_4ghif_open := True, mbox2_enabled := True, the_ipc_4ghif_stats := zero_ghif_stats,
             bp_ready_tasklet := bp_ready_tasklet s2 \<or> b_bp_ready s2\<rparr>))"

definition IPC_4GHIF_close :: "'a ghif_scheme \<Rightarrow> IPC_4GHIF_STATUS \<times> 'a ghif_scheme" where
  "IPC_4GHIF_close s =
     (if \<not> b_ipc_4ghif_open s then (IPC_4GHIF_STATUS_CLOSED, s)
      else (IPC_4GHIF_STATUS_OK,
        s\<lparr>b_ipc_4ghif_open := False, mbox2_enabled := False, p_bp_ready := False, p_receive_dl := False,
          p_dl_complete := False, p_ul_complete := False, p_ul_resume := False\<rparr>))"

definition IPC_4GHIF_ready :: "ghif_env \<Rightarrow> 'a ghif_scheme \<Rightarrow> (IPC_4GHIF_STATUS \<times> 'a ghif_scheme) res" where
  "IPC_4GHIF_ready e s =
     (if \<not> b_ipc_4ghif_open s then Inr (IPC_4GHIF_STATUS_CLOSED, s)
      else if \<not> b_bp_ready s then Inr (IPC_4GHIF_STATUS_BP_NOT_READY, s)
      else rbind (if \<not> b_ap_ready s then
                    (case fifo_4ghif_add_msg s \<lparr>msg_type = eIPC_MSG_TYPE_INIT_CNF, msg_tag = 0, msg_length = 0,
                            start_address = 0\<rparr> of
                       (st, s1) \<Rightarrow> if st = IPC_4GHIF_FIFO_STATUS_FULL then Inl Panic
                         else Inr (snd (mailbox_4ghif_send_msg e s1 MAILBOX_READY_MSG)))
                  else Inr s) (\<lambda>s2.
        Inr (IPC_4GHIF_STATUS_OK, s2\<lparr>b_ap_ready := True\<rparr>)))"

definition IPC_4GHIF_get_dl_frames_nb ::
  "'a ghif_scheme \<Rightarrow> (IPC_4GHIF_STATUS \<times> packet_info list option \<times> 'a ghif_scheme) res" where
  "IPC_4GHIF_get_dl_frames_nb s =
     (if b_sdma_dl_transfer_on_going s then Inr (IPC_4GHIF_STATUS_BUSY, None, s)
      else rbind (fifo_4ghif_get_frame_info s) (\<lambda>(status, nb, s1).
        let s2 = s1\<lparr>incoming_dl_packet_nb := nb\<rparr> in
        if status \<noteq> FIFO_4GHIF_STATUS_OK then Inl Panic
        else if 0 < nb then
          Inr (IPC_4GHIF_STATUS_OK, Some (take nb (frames_info s2)), s2\<lparr>b_process_dl_msg_on_going := True\<rparr>)
        else Inr (IPC_4GHIF_STATUS_OK, None, s2)))"

text \<open>A descriptor of a DMA transfer at offset \<open>d\<close>; its physical address gives the next one.\<close>

definition SHARED_MEM_VIRT_TO_PHYS :: "u32 \<Rightarrow> u32" where
  "SHARED_MEM_VIRT_TO_PHYS a = (a AND 0x000FFFFF) OR (IPC_SHARED_PHYS_ADDR AND 0xFFF00000)"

definition fill_one_type3sd_descr :: "shm \<Rightarrow> nat \<Rightarrow> u32 \<Rightarrow> u32 \<Rightarrow> u32 \<Rightarrow> bool \<Rightarrow> shm" where
  "fill_one_type3sd_descr m d src dst len is_last =
     (let phys = SHARED_MEM_VIRT_TO_PHYS (IPC_SHARED_VIRT_ADDR + of_nat d);
          l = NEXT_DESCR_TYPE3SD OR (len AND 0x00FFFFFF) in
      put32 (put32 (put32 (put32 m (d + 8) src) (d + 12) dst)
        (d + 4) (if is_last then l OR NEXT_DESCR_LAST else l)) d (phys + 16))"

text \<open>Descriptors for transfers \<open>(source, destination, length)\<close> in the array at \<open>base\<close>.\<close>

fun fill_descrs :: "nat \<Rightarrow> nat \<Rightarrow> (u32 \<times> u32 \<times> u32) list \<Rightarrow> shm \<Rightarrow> shm" where
  "fill_descrs base index [] m = put32 m (base + 16 * index) END_OF_DMA_TYPE3_LINKLIST"
| "fill_descrs base index ((src, dst, len) # ts) m =
     fill_descrs base (index + 1) ts (fill_one_type3sd_descr m (base + 16 * index) src dst len (ts = []))"

definition count_bytes :: "u32 \<Rightarrow> u32 \<Rightarrow> u32 \<Rightarrow> u32 \<times> u32" where
  "count_bytes bytes gbytes n =
     (let b = bytes + n in if ONE_GIGABYTE \<le> b then (b - ONE_GIGABYTE, gbytes + 1) else (b, gbytes))"

definition count_dl :: "u32 \<Rightarrow> ipc_4ghif_stats \<Rightarrow> ipc_4ghif_stats" where
  "count_dl n t =
     (case count_bytes (stat_dl_bytes t) (stat_dl_gbytes t) n of
        (b, g) \<Rightarrow> t\<lparr>stat_dl_packets := stat_dl_packets t + 1, stat_dl_bytes := b, stat_dl_gbytes := g\<rparr>)"

definition count_ul :: "u32 \<Rightarrow> ipc_4ghif_stats \<Rightarrow> ipc_4ghif_stats" where
  "count_ul n t =
     (case count_bytes (stat_ul_bytes t) (stat_ul_gbytes t) n of
        (b, g) \<Rightarrow> t\<lparr>stat_ul_packets := stat_ul_packets t + 1, stat_ul_bytes := b, stat_ul_gbytes := g\<rparr>)"

definition dl_buffer_ok :: "sdma_packet \<Rightarrow> fifo_msg \<Rightarrow> bool" where
  "dl_buffer_ok p msg \<longleftrightarrow> buf_size p \<noteq> 0 \<and> ucast (msg_length msg) \<le> buf_size p \<and> pbuf p \<noteq> None"

definition dl_fill :: "sdma_packet \<Rightarrow> fifo_msg \<Rightarrow> packet_info \<Rightarrow> sdma_packet" where
  "dl_fill p msg info = p\<lparr>buf_size := ucast (msg_length msg), packet_type := pi_type info,
     transferred_status := True, bearerID := msg_tag msg\<rparr>"

definition phys_buf :: "ghif_env \<Rightarrow> sdma_packet \<Rightarrow> u32" where
  "phys_buf e p = (case pbuf p of None \<Rightarrow> 0 | Some b \<Rightarrow> virt_to_phys_g e b)"

definition IPC_4GHIF_submit_dl ::
  "ghif_env \<Rightarrow> sdma_packet list option \<Rightarrow> 'a ghif_scheme \<Rightarrow>
     (IPC_4GHIF_STATUS \<times> u8 \<times> sdma_packet list option \<times> 'a ghif_scheme) res" where
  "IPC_4GHIF_submit_dl e packet s =
     (if \<not> b_ipc_4ghif_open s then Inr (IPC_4GHIF_STATUS_CLOSED, 0, packet, s)
      else if \<not> b_bp_ready s then Inr (IPC_4GHIF_STATUS_BP_NOT_READY, 0, packet, s)
      else if \<not> b_ap_ready s then Inr (IPC_4GHIF_STATUS_AP_NOT_READY, 0, packet, s)
      else if b_sdma_dl_transfer_on_going s then Inr (IPC_4GHIF_STATUS_BUSY, 0, packet, s)
      else if \<not> b_process_dl_msg_on_going s then Inr (IPC_4GHIF_STATUS_NO_FRAME, 0, packet, s)
      else case packet of
        None \<Rightarrow> Inr (IPC_4GHIF_STATUS_INVALID_PARAM, 0, packet, s)
      | Some ps \<Rightarrow>
          if ps = [] \<or> IPC_4GHIF_MAX_NB_DL_FRAMES < length ps then Inr (IPC_4GHIF_STATUS_INVALID_PARAM, 0, packet, s)
          else let n = (if length ps < incoming_dl_packet_nb s then length ps else incoming_dl_packet_nb s);
                   s1 = s\<lparr>sdma_dl_packet_nb := n\<rparr> in
            rbind (first_msgs (fifo_data_dl_msg_table s1) n) (\<lambda>msgs.
            if \<not> list_all2 dl_buffer_ok (take n ps) msgs then Inr (IPC_4GHIF_STATUS_INVALID_PARAM, 0, packet, s1)
            else let ps' = map2 (\<lambda>p (msg, info). dl_fill p msg info) (take n ps) (zip msgs (frames_info s1)) @ drop n ps;
                     s2 = s1\<lparr>b_sdma_dl_transfer_on_going := True, p_sdma_packet_dl := Some ps'\<rparr>;
                     s3 = fifo_4ghif_increment_read_ind_after_get_msg s2 (of_nat n) in
              if \<not> dma_available e then Inl Panic
              else let ts = map2 (\<lambda>p msg. (start_address msg, phys_buf e p, buf_size p)) (take n ps') msgs;
                       s4 = s3\<lparr>shared := fill_descrs DMA_DESCR_DL_ARRAY 0 ts (shared s3), dma_dl := True,
                               the_ipc_4ghif_stats := fold (\<lambda>p. count_dl (buf_size p)) (take n ps') (the_ipc_4ghif_stats s3)\<rparr> in
                Inr (IPC_4GHIF_STATUS_OK, of_nat n, Some ps',
                  upd_ghif_stats (\<lambda>t. t\<lparr>stat_dl_sdma_start := stat_dl_sdma_start t + 1\<rparr>) s4)))"

definition ul_packet_ok :: "sdma_packet \<Rightarrow> bool" where
  "ul_packet_ok p \<longleftrightarrow> pbuf p \<noteq> None \<and> buf_size p \<noteq> 0 \<and> unat (buf_size p) \<le> DATA_UL_PACKET_MAX_SIZE \<and>
     (packet_type p = PKT_TYPE_UL_DATA \<or> packet_type p = PKT_TYPE_UL_MGMT)"

definition ul_paused :: "'a ghif_scheme \<Rightarrow> 'a ghif_scheme" where
  "ul_paused s = upd_ghif_stats (\<lambda>t. t\<lparr>stat_ul_submit_full := stat_ul_submit_full t + 1\<rparr>) (s\<lparr>b_ul_pause := True\<rparr>)"

text \<open>
  The reservation of a slot in the ring and of memory for each packet. It returns whether it
  stopped for lack of one of them, the addresses of the packets that have both, and the packets
  with their transfer status.
\<close>

fun reserve_ul ::
  "nat \<Rightarrow> sdma_packet list \<Rightarrow> 'a ghif_scheme \<Rightarrow> (bool \<times> u32 list \<times> sdma_packet list \<times> 'a ghif_scheme) res" where
  "reserve_ul index [] s = Inr (False, [], [], s)"
| "reserve_ul index (p # ps) s =
     (let p0 = p\<lparr>transferred_status := False\<rparr>; (space, s1) = fifo_4ghif_ul_space_left s in
      if space \<le> int index then Inr (True, [], p0 # ps, ul_paused s1)
      else rbind (IPC_4GHIF_data_ul_mm_alloc (mm s1) (ucast (buf_size p))) (\<lambda>(a, m).
        let s2 = s1\<lparr>mm := m\<rparr> in
        if a = 0 then Inr (True, [], p0 # ps, ul_paused s2)
        else rbind (reserve_ul (index + 1) ps s2) (\<lambda>(full, as, qs, s3).
          Inr (full, a # as, p\<lparr>transferred_status := True\<rparr> # qs, s3))))"

definition ul_msg :: "sdma_packet \<Rightarrow> u32 \<Rightarrow> fifo_msg" where
  "ul_msg p a = \<lparr>msg_type = (if packet_type p = PKT_TYPE_UL_MGMT then eIPC_MSG_TYPE_UL_MGMT else eIPC_MSG_TYPE_UL_DATA),
     msg_tag = (if packet_type p = PKT_TYPE_UL_MGMT then 0 else bearerID p), msg_length = ucast (buf_size p),
     start_address = a\<rparr>"

definition IPC_4GHIF_submit_ul ::
  "ghif_env \<Rightarrow> sdma_packet list option \<Rightarrow> 'a ghif_scheme \<Rightarrow>
     (IPC_4GHIF_STATUS \<times> u8 \<times> sdma_packet list option \<times> 'a ghif_scheme) res" where
  "IPC_4GHIF_submit_ul e packet s =
     (if \<not> b_ipc_4ghif_open s then Inr (IPC_4GHIF_STATUS_CLOSED, 0, packet, s)
      else if \<not> b_bp_ready s then Inr (IPC_4GHIF_STATUS_BP_NOT_READY, 0, packet, s)
      else if \<not> b_ap_ready s then Inr (IPC_4GHIF_STATUS_AP_NOT_READY, 0, packet, s)
      else if b_sdma_ul_transfer_on_going s then Inr (IPC_4GHIF_STATUS_BUSY, 0, packet, s)
      else case packet of
        None \<Rightarrow> Inr (IPC_4GHIF_STATUS_INVALID_PARAM, 0, packet, s)
      | Some ps \<Rightarrow>
          if ps = [] \<or> IPC_4GHIF_MAX_NB_UL_FRAMES < length ps then Inr (IPC_4GHIF_STATUS_INVALID_PARAM, 0, packet, s)
          else if \<not> list_all ul_packet_ok ps then Inr (IPC_4GHIF_STATUS_INVALID_PARAM, 0, packet, s)
          else rbind (reserve_ul 0 ps s) (\<lambda>(full, as, ps', s1).
            let n = length as; ret = (if full then IPC_4GHIF_STATUS_RESOURCES_FULL else IPC_4GHIF_STATUS_OK) in
            if n = 0 then Inr (IPC_4GHIF_STATUS_RESOURCES_FULL, 0, Some ps', s1)
            else if length (fifo_data_ul_msg_table s1) < n then Inl OutOfBounds
            else let s2 = s1\<lparr>p_sdma_packet_ul := Some ps', sdma_ul_packet_nb := n,
                       fifo_data_ul_msg_table := map2 ul_msg (take n ps') as @ drop n (fifo_data_ul_msg_table s1)\<rparr> in
              if \<not> dma_available e then Inl Panic
              else let ts = map2 (\<lambda>p a. (phys_buf e p, a, buf_size p)) (take n ps') as;
                       s3 = s2\<lparr>b_sdma_ul_transfer_on_going := True, dma_ul := True,
                               shared := fill_descrs DMA_DESCR_UL_ARRAY 0 ts (shared s2),
                               the_ipc_4ghif_stats := fold (\<lambda>p. count_ul (buf_size p)) (take n ps') (the_ipc_4ghif_stats s2)\<rparr> in
                Inr (ret, of_nat n, Some ps', upd_ghif_stats (\<lambda>t. t\<lparr>stat_ul_sdma_start := stat_ul_sdma_start t + 1\<rparr>) s3)))"

definition IPC_4GHIF_cancel_ul :: "'a ghif_scheme \<Rightarrow> IPC_4GHIF_STATUS res" where
  "IPC_4GHIF_cancel_ul s =
     (if \<not> b_sdma_ul_transfer_on_going s then Inr IPC_4GHIF_STATUS_NO_TRANS_ON_GOING else Inl Panic)"

definition IPC_4GHIF_cancel_dl :: "'a ghif_scheme \<Rightarrow> IPC_4GHIF_STATUS res" where
  "IPC_4GHIF_cancel_dl s =
     (if \<not> b_sdma_dl_transfer_on_going s then Inr IPC_4GHIF_STATUS_NO_TRANS_ON_GOING else Inl Panic)"

text \<open>The orders that change the state; the others only print.\<close>

definition IPC_4GHIF_debug_order :: "nat \<Rightarrow> 'a ghif_scheme \<Rightarrow> IPC_4GHIF_STATUS \<times> 'a ghif_scheme" where
  "IPC_4GHIF_debug_order order s =
     (IPC_4GHIF_STATUS_OK,
      if order = 3 then s\<lparr>stub_mode := IPC_4GHIF_BP_LOOPBACK_STUB_DISABLED\<rparr>
      else if order = 4 then (simulate_bp_init s)\<lparr>stub_mode := IPC_4GHIF_BP_LOOPBACK_STUB_ENABLED\<rparr>
      else if order = 5 then (simulate_bp_init s)\<lparr>stub_mode := IPC_4GHIF_BP_LOOPBACK_STUB_ENABLED_ONLY_FOR_UL\<rparr>
      else if order = 7 then s\<lparr>the_ipc_4ghif_stats := zero_ghif_stats\<rparr>
      else s)"

text \<open>The text of an error, cut off at the size of the buffer; \<open>dest\<close> says that there is one.\<close>

primrec ghif_error_text :: "IPC_4GHIF_STATUS \<Rightarrow> string" where
  "ghif_error_text IPC_4GHIF_STATUS_OK = ''Ok''"
| "ghif_error_text IPC_4GHIF_STATUS_INVALID_PARAM = ''Invalid parameter''"
| "ghif_error_text IPC_4GHIF_STATUS_BUSY = ''Busy''"
| "ghif_error_text IPC_4GHIF_STATUS_CLOSED = ''Closed''"
| "ghif_error_text IPC_4GHIF_STATUS_ALREADY_OPEN = ''Already open''"
| "ghif_error_text IPC_4GHIF_STATUS_RESOURCES_FULL = ''Resuorces full''"
| "ghif_error_text IPC_4GHIF_STATUS_NO_FRAME = ''No frame''"
| "ghif_error_text IPC_4GHIF_STATUS_BP_NOT_READY = ''BP not ready''"
| "ghif_error_text IPC_4GHIF_STATUS_AP_NOT_READY = ''AP not ready''"
| "ghif_error_text IPC_4GHIF_STATUS_NO_TRANS_ON_GOING = ''No trans on-going''"

definition IPC_4GHIF_get_error_string :: "IPC_4GHIF_STATUS \<Rightarrow> bool \<Rightarrow> nat \<Rightarrow> IPC_4GHIF_STATUS \<times> string" where
  "IPC_4GHIF_get_error_string code dest n =
     (if \<not> dest then (IPC_4GHIF_STATUS_INVALID_PARAM, [])
      else (IPC_4GHIF_STATUS_OK, take n (ghif_error_text code)))"

end
