(* ===== verification/GhifRing.thy ===== *)
theory GhifRing
  imports Ghif
begin

text \<open>
  The rings in shared memory as queues. A ring has 256 slots and one-byte indices, so positions
  are 8-bit words and wrap by themselves. Writing a message appends it to its queue and leaves
  the other queues alone, which rests on the layout of the shared memory; reading and advancing
  an index take messages from the front.
\<close>

section \<open>Rings\<close>

lemma unat_u8_less: "unat (x :: u8) < 256"
  using unsigned_less[of x] by simp

definition ring :: "(u8 \<Rightarrow> 'm) \<Rightarrow> u8 \<Rightarrow> u8 \<Rightarrow> 'm list" where
  "ring f r w = map (\<lambda>i. f (r + of_nat i)) [0..<unat (w - r)]"

lemma length_ring [simp]: "length (ring f r w) = unat (w - r)"
  by (simp add: ring_def)

lemma ring_nth: "i < unat (w - r) \<Longrightarrow> ring f r w ! i = f (r + of_nat i)"
  by (simp add: ring_def)

lemma ring_length_bound: "length (ring f r w) < 256"
  by (simp add: unat_u8_less)

lemma ring_slot: "i < unat (w - r) \<Longrightarrow> r + of_nat i \<noteq> (w :: u8)"
proof
  assume i: "i < unat (w - r)" and "r + of_nat i = w"
  then have "of_nat i = w - r" by (simp add: algebra_simps)
  moreover have "i < 256" using i unat_u8_less[of "w - r"] by simp
  ultimately show False using i unat_of_nat_u8[of i] by simp
qed

lemma ring_cong: "(\<And>i. i \<noteq> w \<Longrightarrow> f' i = f i) \<Longrightarrow> ring f' r w = ring f r w"
  using ring_slot by (auto simp: ring_def intro!: map_cong)

lemma unat_Suc_u8: "unat (x :: u8) < 255 \<Longrightarrow> unat (x + 1) = Suc (unat x)"
  by (simp add: unat_word_ariths)

lemma ring_snoc:
  assumes "unat (w - r) < 255"
  shows "ring f r (w + 1) = ring f r w @ [f w]"
proof -
  have "w + 1 - r = (w - r) + 1" by simp
  then have "unat (w + 1 - r) = Suc (unat (w - r))" using unat_Suc_u8[OF assms] by (simp only:)
  then show ?thesis by (simp add: ring_def)
qed

lemma ring_drop:
  assumes "n \<le> unat (w - r)"
  shows "ring f (r + of_nat n) w = drop n (ring f r w)"
proof (rule nth_equalityI)
  have n: "n < 256" using assms unat_u8_less[of "w - r"] by simp
  have "unat (w - r - of_nat n) = unat (w - r) - n"
    using assms n unat_sub[of "of_nat n" "w - r"] by (simp add: unat_of_nat_u8 word_le_nat_alt)
  then have len: "unat (w - (r + of_nat n)) = unat (w - r) - n" by (simp only: diff_diff_eq)
  then show "length (ring f (r + of_nat n) w) = length (drop n (ring f r w))" by simp
  fix i
  assume "i < length (ring f (r + of_nat n) w)"
  then show "ring f (r + of_nat n) w ! i = drop n (ring f r w) ! i"
    using len by (simp add: ring_nth algebra_simps)
qed

lemma ring_empty: "ring f r w = [] \<longleftrightarrow> r = w"
  by (auto simp: ring_def unat_eq_0)

lemma ring_pop: "r \<noteq> w \<Longrightarrow> ring f r w = f r # ring f (r + 1) w"
proof -
  assume "r \<noteq> w"
  then have "w - r \<noteq> 0" by simp
  then have "0 < unat (w - r)" by (simp add: unat_gt_0)
  then show ?thesis
    using ring_drop[of 1 w r f] ring_nth[of 0 w r f] length_ring[of f r w] by (cases "ring f r w") auto
qed

section \<open>Messages as bytes\<close>

lemma put32_other: "x \<notin> {d..<d + 4} \<Longrightarrow> put32 m d v x = m x"
  by (auto simp: put32_def)

lemma get32_cong: "(\<And>x. x \<in> {d..<d + 4} \<Longrightarrow> m' x = m x) \<Longrightarrow> get32 m' d = get32 m d"
  by (simp add: get32_def)

lemma bytes_u32: "push_bit 24 (ucast (ucast (drop_bit 24 x) :: u8)) + push_bit 16 (ucast (ucast (drop_bit 16 x) :: u8)) +
    push_bit 8 (ucast (ucast (drop_bit 8 x) :: u8)) + ucast (ucast x :: u8) = (x :: u32)"
proof -
  have "push_bit 24 (ucast (ucast (drop_bit 24 x) :: u8)) OR push_bit 16 (ucast (ucast (drop_bit 16 x) :: u8)) OR
    push_bit 8 (ucast (ucast (drop_bit 8 x) :: u8)) OR ucast (ucast x :: u8) = (x :: u32)" (is "?l = x")
  proof (rule bit_word_eqI)
    fix n
    assume "n < LENGTH(32)"
    then consider "n < 8" | "8 \<le> n" "n < 16" | "16 \<le> n" "n < 24" | "24 \<le> n" "n < 32" by fastforce
    then show "bit ?l n = bit x n" by cases (auto simp: bit_simps)
  qed
  moreover have "push_bit 24 (ucast (ucast (drop_bit 24 x) :: u8)) + push_bit 16 (ucast (ucast (drop_bit 16 x) :: u8)) +
    push_bit 8 (ucast (ucast (drop_bit 8 x) :: u8)) + ucast (ucast x :: u8) =
    push_bit 24 (ucast (ucast (drop_bit 24 x) :: u8)) OR push_bit 16 (ucast (ucast (drop_bit 16 x) :: u8)) OR
    push_bit 8 (ucast (ucast (drop_bit 8 x) :: u8)) OR (ucast (ucast x :: u8) :: u32)"
    by (subst disjunctive_add; (auto simp: bit_simps)?)+ (simp add: or.assoc)
  ultimately show ?thesis by simp
qed

lemma bytes_u16: "push_bit 8 (ucast (ucast (drop_bit 8 x) :: u8)) + ucast (ucast x :: u8) = (x :: u16)"
proof -
  have "push_bit 8 (ucast (ucast (drop_bit 8 x) :: u8)) OR ucast (ucast x :: u8) = (x :: u16)"
    by (rule bit_word_eqI) (auto simp: bit_simps)
  then show ?thesis by (subst disjunctive_add) (auto simp: bit_simps)
qed

lemma get32_put32: "get32 (put32 m d v) d = v"
  by (simp add: get32_def put32_def bytes_u32)

lemma write_msg_other: "x \<notin> {d..<d + 8} \<Longrightarrow> write_msg m d msg x = m x"
  by (auto simp: write_msg_def put32_def)

lemma read_msg_cong: "(\<And>x. x \<in> {d..<d + 8} \<Longrightarrow> m' x = m x) \<Longrightarrow> read_msg m' d = read_msg m d"
  by (simp add: read_msg_def get32_def)

text \<open>
  A message written into a slot is read back unchanged.
\<close>

theorem fifo_msg_roundtrip: "read_msg (write_msg m d msg) d = msg"
  by (simp add: read_msg_def write_msg_def get32_put32 put32_other bytes_u16)

section \<open>The four queues\<close>

definition ul_queue :: "shm \<Rightarrow> fifo_msg list" where
  "ul_queue m = ring (\<lambda>i. read_msg m (FIFO_UL_BASE + unat i * 8)) (m FIFO_UL_READ_IND) (m FIFO_UL_WRITE_IND)"

definition dl_queue :: "shm \<Rightarrow> fifo_msg list" where
  "dl_queue m = ring (\<lambda>i. read_msg m (FIFO_DL_BASE + unat i * 8)) (m FIFO_DL_READ_IND) (m FIFO_DL_WRITE_IND)"

definition ul_acks :: "shm \<Rightarrow> u32 list" where
  "ul_acks m = ring (\<lambda>i. get32 m (FIFO_ACK_DL_BASE + 4 * unat i)) (m FIFO_ACK_DL_READ_IND) (m FIFO_ACK_DL_WRITE_IND)"

definition dl_acks :: "shm \<Rightarrow> u32 list" where
  "dl_acks m = ring (\<lambda>i. get32 m (FIFO_ACK_UL_BASE + 4 * unat i)) (m FIFO_ACK_UL_READ_IND) (m FIFO_ACK_UL_WRITE_IND)"

lemmas queue_defs = ul_queue_def dl_queue_def ul_acks_def dl_acks_def

text \<open>The four queues depend on the rings and their indices only.\<close>

definition queues :: "shm \<Rightarrow> fifo_msg list \<times> fifo_msg list \<times> u32 list \<times> u32 list" where
  "queues m = (ul_queue m, dl_queue m, ul_acks m, dl_acks m)"

lemma queues_cong:
  assumes "\<And>x. 0x7e000 \<le> x \<Longrightarrow> x < 0x7f820 \<Longrightarrow> m' x = m x"
  shows "queues m' = queues m"
proof -
  have r: "read_msg m' d = read_msg m d" if "0x7e000 \<le> d" "d + 8 \<le> 0x7f820" for d
    using that assms by (intro read_msg_cong) auto
  have g: "get32 m' d = get32 m d" if "0x7e000 \<le> d" "d + 4 \<le> 0x7f820" for d
    using that assms by (intro get32_cong) auto
  have u: "unat i \<le> 255" for i :: u8 using unat_u8_less[of i] by simp
  have "read_msg m' (FIFO_UL_BASE + unat i * 8) = read_msg m (FIFO_UL_BASE + unat i * 8)"
    "read_msg m' (FIFO_DL_BASE + unat i * 8) = read_msg m (FIFO_DL_BASE + unat i * 8)"
    "get32 m' (FIFO_ACK_DL_BASE + 4 * unat i) = get32 m (FIFO_ACK_DL_BASE + 4 * unat i)"
    "get32 m' (FIFO_ACK_UL_BASE + 4 * unat i) = get32 m (FIFO_ACK_UL_BASE + 4 * unat i)" for i :: u8
    using u[of i] by (auto simp: shm_layout intro!: r g)
  then show ?thesis using assms by (simp add: queues_def queue_defs shm_layout)
qed

lemma ind_frames:
  assumes "d \<in> {FIFO_UL_READ_IND, FIFO_UL_WRITE_IND, FIFO_DL_READ_IND, FIFO_DL_WRITE_IND, FIFO_ACK_UL_READ_IND,
      FIFO_ACK_UL_WRITE_IND, FIFO_ACK_DL_READ_IND, FIFO_ACK_DL_WRITE_IND}"
  shows "read_msg (m(d := v)) (FIFO_UL_BASE + unat (i :: u8) * 8) = read_msg m (FIFO_UL_BASE + unat i * 8)"
    "read_msg (m(d := v)) (FIFO_DL_BASE + unat i * 8) = read_msg m (FIFO_DL_BASE + unat i * 8)"
    "get32 (m(d := v)) (FIFO_ACK_DL_BASE + 4 * unat i) = get32 m (FIFO_ACK_DL_BASE + 4 * unat i)"
    "get32 (m(d := v)) (FIFO_ACK_UL_BASE + 4 * unat i) = get32 m (FIFO_ACK_UL_BASE + 4 * unat i)"
proof -
  have "unat i \<le> 255" "0x7f800 \<le> d" using unat_u8_less[of i] assms by (auto simp: shm_layout)
  then show "read_msg (m(d := v)) (FIFO_UL_BASE + unat i * 8) = read_msg m (FIFO_UL_BASE + unat i * 8)"
    "read_msg (m(d := v)) (FIFO_DL_BASE + unat i * 8) = read_msg m (FIFO_DL_BASE + unat i * 8)"
    "get32 (m(d := v)) (FIFO_ACK_DL_BASE + 4 * unat i) = get32 m (FIFO_ACK_DL_BASE + 4 * unat i)"
    "get32 (m(d := v)) (FIFO_ACK_UL_BASE + 4 * unat i) = get32 m (FIFO_ACK_UL_BASE + 4 * unat i)"
    by (auto simp: shm_layout intro!: read_msg_cong get32_cong)
qed

text \<open>Advancing a read index.\<close>

lemma advance_read:
  "n \<le> length (ul_queue m) \<Longrightarrow> queues (m(FIFO_UL_READ_IND := m FIFO_UL_READ_IND + of_nat n)) =
     (drop n (ul_queue m), dl_queue m, ul_acks m, dl_acks m)"
  "n \<le> length (dl_queue m) \<Longrightarrow> queues (m(FIFO_DL_READ_IND := m FIFO_DL_READ_IND + of_nat n)) =
     (ul_queue m, drop n (dl_queue m), ul_acks m, dl_acks m)"
  "n \<le> length (ul_acks m) \<Longrightarrow> queues (m(FIFO_ACK_DL_READ_IND := m FIFO_ACK_DL_READ_IND + of_nat n)) =
     (ul_queue m, dl_queue m, drop n (ul_acks m), dl_acks m)"
  "n \<le> length (dl_acks m) \<Longrightarrow> queues (m(FIFO_ACK_UL_READ_IND := m FIFO_ACK_UL_READ_IND + of_nat n)) =
     (ul_queue m, dl_queue m, ul_acks m, drop n (dl_acks m))"
  by (simp_all add: queues_def queue_defs ind_frames ring_drop) (simp_all add: shm_layout)

text \<open>Writing into a slot of one ring: the slots of the other rings and the indices keep their contents.\<close>

lemma slot_neq: "i \<noteq> w \<Longrightarrow> unat i + 1 \<le> unat w \<or> unat w + 1 \<le> unat (i :: u8)"
  by (metis Suc_eq_plus1 Suc_leI linorder_neqE_nat word_unat_eq_iff)

lemma write_ul_slot:
  defines "m' m w msg \<equiv> write_msg m (FIFO_UL_BASE + unat (w :: u8) * 8) msg"
  shows "\<And>x. 0x7f800 \<le> x \<Longrightarrow> m' m w msg x = m x"
    "read_msg (m' m w msg) (FIFO_UL_BASE + unat i * 8) = (if i = w then msg else read_msg m (FIFO_UL_BASE + unat i * 8))"
    "read_msg (m' m w msg) (FIFO_DL_BASE + unat (i :: u8) * 8) = read_msg m (FIFO_DL_BASE + unat i * 8)"
    "get32 (m' m w msg) (FIFO_ACK_DL_BASE + 4 * unat i) = get32 m (FIFO_ACK_DL_BASE + 4 * unat i)"
    "get32 (m' m w msg) (FIFO_ACK_UL_BASE + 4 * unat i) = get32 m (FIFO_ACK_UL_BASE + 4 * unat i)"
proof -
  have u: "unat i \<le> 255" "unat w \<le> 255" using unat_u8_less[of i] unat_u8_less[of w] by simp_all
  show "\<And>x. 0x7f800 \<le> x \<Longrightarrow> m' m w msg x = m x"
    using u by (auto simp: m'_def shm_layout intro!: write_msg_other)
  show "read_msg (m' m w msg) (FIFO_UL_BASE + unat i * 8) = (if i = w then msg else read_msg m (FIFO_UL_BASE + unat i * 8))"
    using slot_neq[of i w] by (auto simp: m'_def fifo_msg_roundtrip intro!: read_msg_cong write_msg_other)
  show "read_msg (m' m w msg) (FIFO_DL_BASE + unat i * 8) = read_msg m (FIFO_DL_BASE + unat i * 8)"
    "get32 (m' m w msg) (FIFO_ACK_DL_BASE + 4 * unat i) = get32 m (FIFO_ACK_DL_BASE + 4 * unat i)"
    "get32 (m' m w msg) (FIFO_ACK_UL_BASE + 4 * unat i) = get32 m (FIFO_ACK_UL_BASE + 4 * unat i)"
    using u by (auto simp: m'_def shm_layout intro!: read_msg_cong get32_cong write_msg_other)
qed

lemma write_dl_slot:
  defines "m' m w msg \<equiv> write_msg m (FIFO_DL_BASE + unat (w :: u8) * 8) msg"
  shows "\<And>x. 0x7f800 \<le> x \<Longrightarrow> m' m w msg x = m x"
    "read_msg (m' m w msg) (FIFO_DL_BASE + unat i * 8) = (if i = w then msg else read_msg m (FIFO_DL_BASE + unat i * 8))"
    "read_msg (m' m w msg) (FIFO_UL_BASE + unat (i :: u8) * 8) = read_msg m (FIFO_UL_BASE + unat i * 8)"
    "get32 (m' m w msg) (FIFO_ACK_DL_BASE + 4 * unat i) = get32 m (FIFO_ACK_DL_BASE + 4 * unat i)"
    "get32 (m' m w msg) (FIFO_ACK_UL_BASE + 4 * unat i) = get32 m (FIFO_ACK_UL_BASE + 4 * unat i)"
proof -
  have u: "unat i \<le> 255" "unat w \<le> 255" using unat_u8_less[of i] unat_u8_less[of w] by simp_all
  show "\<And>x. 0x7f800 \<le> x \<Longrightarrow> m' m w msg x = m x"
    using u by (auto simp: m'_def shm_layout intro!: write_msg_other)
  show "read_msg (m' m w msg) (FIFO_DL_BASE + unat i * 8) = (if i = w then msg else read_msg m (FIFO_DL_BASE + unat i * 8))"
    using slot_neq[of i w] by (auto simp: m'_def fifo_msg_roundtrip intro!: read_msg_cong write_msg_other)
  show "read_msg (m' m w msg) (FIFO_UL_BASE + unat i * 8) = read_msg m (FIFO_UL_BASE + unat i * 8)"
    "get32 (m' m w msg) (FIFO_ACK_DL_BASE + 4 * unat i) = get32 m (FIFO_ACK_DL_BASE + 4 * unat i)"
    "get32 (m' m w msg) (FIFO_ACK_UL_BASE + 4 * unat i) = get32 m (FIFO_ACK_UL_BASE + 4 * unat i)"
    using u by (auto simp: m'_def shm_layout intro!: read_msg_cong get32_cong write_msg_other)
qed

lemma write_ack_slot:
  assumes "base = FIFO_ACK_UL_BASE \<and> other = FIFO_ACK_DL_BASE \<or> base = FIFO_ACK_DL_BASE \<and> other = FIFO_ACK_UL_BASE"
  defines "m' m w a \<equiv> put32 m (base + 4 * unat (w :: u8)) a"
  shows "\<And>x. 0x7f800 \<le> x \<Longrightarrow> m' m w a x = m x"
    "get32 (m' m w a) (base + 4 * unat i) = (if i = w then a else get32 m (base + 4 * unat i))"
    "get32 (m' m w a) (other + 4 * unat (i :: u8)) = get32 m (other + 4 * unat i)"
    "read_msg (m' m w a) (FIFO_UL_BASE + unat i * 8) = read_msg m (FIFO_UL_BASE + unat i * 8)"
    "read_msg (m' m w a) (FIFO_DL_BASE + unat i * 8) = read_msg m (FIFO_DL_BASE + unat i * 8)"
proof -
  have u: "unat i \<le> 255" "unat w \<le> 255" using unat_u8_less[of i] unat_u8_less[of w] by simp_all
  show "\<And>x. 0x7f800 \<le> x \<Longrightarrow> m' m w a x = m x"
    using u assms(1) by (auto simp: m'_def shm_layout intro!: put32_other)
  show "get32 (m' m w a) (base + 4 * unat i) = (if i = w then a else get32 m (base + 4 * unat i))"
    using slot_neq[of i w] by (auto simp: m'_def get32_put32 intro!: get32_cong put32_other)
  show "get32 (m' m w a) (other + 4 * unat i) = get32 m (other + 4 * unat i)"
    "read_msg (m' m w a) (FIFO_UL_BASE + unat i * 8) = read_msg m (FIFO_UL_BASE + unat i * 8)"
    "read_msg (m' m w a) (FIFO_DL_BASE + unat i * 8) = read_msg m (FIFO_DL_BASE + unat i * 8)"
    using u assms(1) by (auto simp: m'_def shm_layout intro!: read_msg_cong get32_cong put32_other)
qed

lemma ind_ge:
  "0x7f800 \<le> FIFO_UL_READ_IND" "0x7f800 \<le> FIFO_UL_WRITE_IND" "0x7f800 \<le> FIFO_DL_READ_IND" "0x7f800 \<le> FIFO_DL_WRITE_IND"
  "0x7f800 \<le> FIFO_ACK_UL_READ_IND" "0x7f800 \<le> FIFO_ACK_UL_WRITE_IND" "0x7f800 \<le> FIFO_ACK_DL_READ_IND"
  "0x7f800 \<le> FIFO_ACK_DL_WRITE_IND"
  by (simp_all add: shm_layout)

lemma ring_append:
  assumes "unat (w - r) < 255"
  shows "ring (\<lambda>i. if i = w then v else f i) r (w + 1) = ring f r w @ [v]"
  using assms by (simp add: ring_snoc) (rule ring_cong, simp)

lemma append_ul:
  assumes "length (ul_queue m) < 255"
  shows "queues ((write_msg m (FIFO_UL_BASE + unat (m FIFO_UL_WRITE_IND) * 8) msg)(FIFO_UL_WRITE_IND := m FIFO_UL_WRITE_IND + 1)) =
    (ul_queue m @ [msg], dl_queue m, ul_acks m, dl_acks m)"
  using assms
  by (simp add: queues_def queue_defs ind_frames write_ul_slot ind_ge ring_append) (simp add: shm_layout ring_append)

lemma append_dl:
  assumes "length (dl_queue m) < 255"
  shows "queues ((write_msg m (FIFO_DL_BASE + unat (m FIFO_DL_WRITE_IND) * 8) msg)(FIFO_DL_WRITE_IND := m FIFO_DL_WRITE_IND + 1)) =
    (ul_queue m, dl_queue m @ [msg], ul_acks m, dl_acks m)"
  using assms
  by (simp add: queues_def queue_defs ind_frames write_dl_slot ind_ge ring_append) (simp add: shm_layout ring_append)

lemma append_ul_ack:
  assumes "length (ul_acks m) < 255"
  shows "queues ((put32 m (FIFO_ACK_DL_BASE + 4 * unat (m FIFO_ACK_DL_WRITE_IND)) a)(FIFO_ACK_DL_WRITE_IND := m FIFO_ACK_DL_WRITE_IND + 1)) =
    (ul_queue m, dl_queue m, ul_acks m @ [a], dl_acks m)"
  using assms write_ack_slot[of FIFO_ACK_DL_BASE FIFO_ACK_UL_BASE]
  by (simp add: queues_def queue_defs ind_frames ind_ge ring_append) (simp add: shm_layout ring_append)

lemma append_dl_ack:
  assumes "length (dl_acks m) < 255"
  shows "queues ((put32 m (FIFO_ACK_UL_BASE + 4 * unat (m FIFO_ACK_UL_WRITE_IND)) a)(FIFO_ACK_UL_WRITE_IND := m FIFO_ACK_UL_WRITE_IND + 1)) =
    (ul_queue m, dl_queue m, ul_acks m, dl_acks m @ [a])"
  using assms write_ack_slot[of FIFO_ACK_UL_BASE FIFO_ACK_DL_BASE]
  by (simp add: queues_def queue_defs ind_frames ind_ge ring_append) (simp add: shm_layout ring_append)

end
