(* ===== verification/GhifOps.thy ===== *)
theory GhifOps
  imports GhifRing
begin

text \<open>
  The FIFO operations of the driver on the queues, and the loops over messages: adding the
  messages of a finished transfer, releasing the memory of acknowledged frames, and collecting
  the frames the baseband announces.
\<close>

section \<open>Single messages\<close>

text \<open>The indices the driver owns agree with their copies in shared memory.\<close>

definition inds_ok :: "'a ghif_scheme \<Rightarrow> bool" where
  "inds_ok s \<longleftrightarrow>
     fifo_ul_write_ind s = ucast (shared s FIFO_UL_WRITE_IND) \<and> fifo_dl_read_ind s = ucast (shared s FIFO_DL_READ_IND) \<and>
     fifo_ack_ul_write_ind s = ucast (shared s FIFO_ACK_UL_WRITE_IND) \<and>
     fifo_ack_dl_read_ind s = ucast (shared s FIFO_ACK_DL_READ_IND)"

lemma uint_u8_less: "uint (x :: u8) < 256" "0 \<le> uint x"
  using uint_lt2p[of x] by simp_all

lemma uint_ucast_u8: "uint (ucast (x :: u8) :: u32) = int (unat x)"
  using uint_u8_less[of x] by (simp add: unsigned_ucast_eq take_bit_int_eq_self)

lemma used_slots: "uint ((ucast (w :: u8) - ucast r :: u32) mod 256) = int (unat (w - r))"
proof -
  have "uint (w - r) = (uint w - uint r) mod 256" by (simp add: uint_word_ariths)
  moreover have "uint ((ucast w - ucast r :: u32) mod 256) = (uint w - uint r) mod 2 ^ 32 mod 256"
    by (simp add: uint_mod uint_word_ariths uint_ucast_u8)
  moreover have "(uint w - uint r) mod 2 ^ 32 mod 256 = (uint w - uint r) mod 256"
    by (rule mod_mod_cancel) simp
  ultimately show ?thesis by simp
qed

lemma ul_space_left:
  assumes "inds_ok s"
  shows "fifo_4ghif_ul_space_left s =
    (255 - int (length (ul_queue (shared s))), s\<lparr>fifo_ul_read_ind := ucast (shared s FIFO_UL_READ_IND)\<rparr>)"
proof -
  have "uint (shared s FIFO_UL_WRITE_IND - shared s FIFO_UL_READ_IND) < 256" by (rule uint_u8_less)
  then show ?thesis
    using assms used_slots[of "shared s FIFO_UL_WRITE_IND" "shared s FIFO_UL_READ_IND"]
    by (simp add: fifo_4ghif_ul_space_left_def ind_defs inds_ok_def FIFO_MSG_NB_def ul_queue_def Let_def)
qed

lemma ack_space_left:
  assumes "inds_ok s"
  shows "fifo_ack_4ghif_ul_space_left s =
    (255 - int (length (dl_acks (shared s))), s\<lparr>fifo_ack_ul_read_ind := ucast (shared s FIFO_ACK_UL_READ_IND)\<rparr>)"
proof -
  have "uint (shared s FIFO_ACK_UL_WRITE_IND - shared s FIFO_ACK_UL_READ_IND) < 256" by (rule uint_u8_less)
  then show ?thesis
    using assms used_slots[of "shared s FIFO_ACK_UL_WRITE_IND" "shared s FIFO_ACK_UL_READ_IND"]
    by (simp add: fifo_ack_4ghif_ul_space_left_def ind_defs inds_ok_def FIFO_MSG_NB_def dl_acks_def Let_def)
qed

text \<open>Index arithmetic of the driver in 32 bits is that of 8-bit words.\<close>

lemma skip_ind_u8: "skip_ind (ucast (x :: u8)) k = ucast (x + k)"
proof -
  note x = uint_u8_less[of x] uint_u8_less[of k]
  have s: "uint (ucast x + ucast k :: u32) = uint x + uint k"
    using x by (simp add: uint_word_ariths uint_ucast_u8)
  show ?thesis
  proof (cases "256 \<le> uint x + uint k")
    case True
    have "(uint x + uint k) mod 256 = (uint x + uint k - 256) mod 256" by (simp add: mod_diff_right_eq minus_mod_self2)
    also have "\<dots> = uint x + uint k - 256" using True x by (intro mod_pos_pos_trivial) auto
    finally have "uint (x + k) = uint x + uint k - 256" by (simp add: uint_word_ariths)
    moreover have "256 \<le> (ucast x + ucast k :: u32)" using True s by (simp add: word_le_def)
    ultimately show ?thesis
      using s True by (simp add: skip_ind_def FIFO_MSG_NB_def word_uint_eq_iff uint_sub_if' uint_ucast_u8)
  next
    case False
    then have "uint (x + k) = uint x + uint k" using x by (simp add: uint_word_ariths)
    moreover have "\<not> 256 \<le> (ucast x + ucast k :: u32)" using False s by (simp add: word_le_def)
    ultimately show ?thesis using s by (simp add: skip_ind_def FIFO_MSG_NB_def word_uint_eq_iff uint_ucast_u8)
  qed
qed

lemma next_ind_u8: "next_ind (ucast (x :: u8)) = ucast (x + 1)"
proof -
  have u: "uint (ucast x + 1 :: u32) = uint x + 1" using uint_u8_less[of x] by (simp add: uint_word_ariths uint_ucast_u8)
  show ?thesis
  proof (cases "uint x = 255")
    case True
    then have "x = 255" by (simp add: word_uint_eq_iff)
    then show ?thesis by (simp add: next_ind_def FIFO_MSG_NB_def)
  next
    case False
    then have "uint (x + 1) = uint x + 1" using uint_u8_less[of x] by (simp add: uint_word_ariths)
    moreover have "\<not> 256 \<le> (ucast x + 1 :: u32)" using False u uint_u8_less[of x] by (simp add: word_le_def)
    ultimately show ?thesis using u by (simp add: next_ind_def FIFO_MSG_NB_def word_uint_eq_iff uint_ucast_u8)
  qed
qed

lemma unat_ucast_up: "unat (ucast (x :: u8) :: u32) = unat x"
  using unat_u8_less[of x] by (simp add: unsigned_ucast_eq take_bit_nat_eq_self)

lemma ucast_back: "ucast (ucast (x :: u8) :: u32) = x"
  by (rule bit_word_eqI) (simp add: bit_simps)

text \<open>
  What is left of the state without shared memory and indices. An operation on the rings changes
  the queues and keeps this part.
\<close>

definition strip :: "'a ghif_scheme \<Rightarrow> 'a ghif_scheme" where
  "strip s = s\<lparr>shared := \<lambda>_. 0, fifo_dl_read_ind := 0, fifo_ul_write_ind := 0, fifo_dl_write_ind := 0, fifo_ul_read_ind := 0,
     fifo_ack_dl_read_ind := 0, fifo_ack_ul_write_ind := 0, fifo_ack_dl_write_ind := 0, fifo_ack_ul_read_ind := 0\<rparr>"

definition ring_step ::
  "'a ghif_scheme \<Rightarrow> fifo_msg list \<times> fifo_msg list \<times> u32 list \<times> u32 list \<Rightarrow> 'a ghif_scheme \<Rightarrow> bool" where
  "ring_step s q s' \<longleftrightarrow> inds_ok s' \<and> queues (shared s') = q \<and> strip s' = strip s"

lemma ring_step_trans: "ring_step s q s1 \<Longrightarrow> ring_step s1 q' s2 \<Longrightarrow> ring_step s q' s2"
  by (simp add: ring_step_def)

lemma ring_step_refl: "inds_ok s \<Longrightarrow> ring_step s (queues (shared s)) s"
  by (simp add: ring_step_def)

lemma queues_split:
  "queues m = (q1, q2, q3, q4) \<longleftrightarrow> ul_queue m = q1 \<and> dl_queue m = q2 \<and> ul_acks m = q3 \<and> dl_acks m = q4"
  by (simp add: queues_def)

lemma strip_field: "strip s' = strip s \<Longrightarrow> (\<And>t. f (strip t) = f t) \<Longrightarrow> f s' = f s"
  by metis

lemma strip_fields:
  assumes "strip s' = strip s"
  shows "mm s' = mm s" "b_ipc_4ghif_open s' = b_ipc_4ghif_open s" "b_bp_ready s' = b_bp_ready s" "b_ap_ready s' = b_ap_ready s"
    "b_sdma_ul_transfer_on_going s' = b_sdma_ul_transfer_on_going s"
    "b_sdma_dl_transfer_on_going s' = b_sdma_dl_transfer_on_going s" "b_ul_pause s' = b_ul_pause s"
    "b_process_dl_msg_on_going s' = b_process_dl_msg_on_going s" "frames_info s' = frames_info s"
    "frames_info_for_receive_cb s' = frames_info_for_receive_cb s" "sdma_ul_packet_nb s' = sdma_ul_packet_nb s"
    "sdma_dl_packet_nb s' = sdma_dl_packet_nb s" "incoming_dl_packet_nb s' = incoming_dl_packet_nb s"
    "fifo_data_dl_msg_table s' = fifo_data_dl_msg_table s" "fifo_data_ul_msg_table s' = fifo_data_ul_msg_table s"
    "stub_mode s' = stub_mode s" "dma_ul s' = dma_ul s" "dma_dl s' = dma_dl s"
    "dl_complete_tasklet s' = dl_complete_tasklet s" "ul_complete_tasklet s' = ul_complete_tasklet s"
    "bp_ready_tasklet s' = bp_ready_tasklet s" "receive_dl_tasklet s' = receive_dl_tasklet s"
    "ul_resume_tasklet s' = ul_resume_tasklet s" "the_ipc_4ghif_stats s' = the_ipc_4ghif_stats s"
    "mbox3 s' = mbox3 s"
  by (rule strip_field[OF assms], simp add: strip_def)+

lemma add_msg_ok:
  assumes "inds_ok s" "length (ul_queue (shared s)) < 255"
  shows "\<exists>s'. fifo_4ghif_add_msg s msg = (IPC_4GHIF_FIFO_STATUS_OK, s') \<and>
    ring_step s (ul_queue (shared s) @ [msg], dl_queue (shared s), ul_acks (shared s), dl_acks (shared s)) s'"
proof -
  let ?w = "shared s FIFO_UL_WRITE_IND"
  let ?m = "(write_msg (shared s) (FIFO_UL_BASE + unat ?w * 8) msg)(FIFO_UL_WRITE_IND := ?w + 1)"
  have "fifo_4ghif_add_msg s msg = (IPC_4GHIF_FIFO_STATUS_OK, s\<lparr>fifo_ul_read_ind := ucast (shared s FIFO_UL_READ_IND), shared := ?m,
         fifo_ul_write_ind := ucast (?w + 1)\<rparr>)"
    using assms
    by (simp add: fifo_4ghif_add_msg_def ul_space_left ind_defs inds_ok_def next_ind_u8 unat_ucast_up ucast_back Let_def)
  moreover have "?m x = shared s x" if "x \<in> {FIFO_DL_READ_IND, FIFO_ACK_UL_WRITE_IND, FIFO_ACK_DL_READ_IND}" for x
    using that write_ul_slot(1)[of x "shared s" ?w msg] by (auto simp: shm_layout)
  moreover have "?m FIFO_UL_WRITE_IND = ?w + 1" by simp
  ultimately show ?thesis
    using append_ul[OF assms(2)] assms(1) by (simp add: ring_step_def inds_ok_def strip_def)
qed

lemma add_ack_ok:
  assumes "inds_ok s" "length (dl_acks (shared s)) < 255"
  shows "\<exists>s'. fifo_ack_4ghif_add_msg s msg = (IPC_4GHIF_FIFO_STATUS_OK, s') \<and>
    ring_step s (ul_queue (shared s), dl_queue (shared s), ul_acks (shared s), dl_acks (shared s) @ [start_address msg]) s'"
proof -
  let ?w = "shared s FIFO_ACK_UL_WRITE_IND"
  let ?m = "(put32 (shared s) (FIFO_ACK_UL_BASE + 4 * unat ?w) (start_address msg))(FIFO_ACK_UL_WRITE_IND := ?w + 1)"
  have "fifo_ack_4ghif_add_msg s msg = (IPC_4GHIF_FIFO_STATUS_OK, s\<lparr>fifo_ack_ul_read_ind := ucast (shared s FIFO_ACK_UL_READ_IND),
         shared := ?m, fifo_ack_ul_write_ind := ucast (?w + 1)\<rparr>)"
    using assms
    by (simp add: fifo_ack_4ghif_add_msg_def ack_space_left ind_defs inds_ok_def next_ind_u8 unat_ucast_up ucast_back Let_def)
  moreover have "?m x = shared s x" if "x \<in> {FIFO_DL_READ_IND, FIFO_UL_WRITE_IND, FIFO_ACK_DL_READ_IND}" for x
    using that write_ack_slot(1)[of FIFO_ACK_UL_BASE FIFO_ACK_DL_BASE x "shared s" ?w "start_address msg"] by (auto simp: shm_layout)
  moreover have "?m FIFO_ACK_UL_WRITE_IND = ?w + 1" by simp
  ultimately show ?thesis
    using append_dl_ack[OF assms(2)] assms(1) by (simp add: ring_step_def inds_ok_def strip_def)
qed

text \<open>Reading at an offset, and advancing past what was read.\<close>

lemma get_msg_at:
  assumes "inds_ok s" "unat k \<le> length (dl_queue (shared s))"
  shows "\<exists>s'. fifo_4ghif_get_msg s k =
    (if unat k < length (dl_queue (shared s)) then Some (dl_queue (shared s) ! unat k) else None, s') \<and>
    ring_step s (queues (shared s)) s'"
proof -
  let ?r = "shared s FIFO_DL_READ_IND" and ?w = "shared s FIFO_DL_WRITE_IND"
  have "(?w = ?r + k) = (?w - ?r = k)" by (auto simp: algebra_simps)
  also have "\<dots> = (unat (?w - ?r) = unat k)" by (simp add: word_unat_eq_iff)
  finally have e: "(?w = ?r + k) = (unat (?w - ?r) = unat k)" .
  have u: "(ucast a = (ucast b :: u32)) = (a = b)" for a b :: u8 by (metis ucast_back)
  show ?thesis
    using assms e
    by (auto simp: fifo_4ghif_get_msg_def ind_defs inds_ok_def skip_ind_u8 u unat_ucast_up Let_def dl_queue_def ring_nth
        ring_step_def strip_def)
qed

lemma get_ack:
  assumes "inds_ok s"
  shows "\<exists>s'. fifo_ack_4ghif_get_msg s =
    (case ul_acks (shared s) of [] \<Rightarrow> None
     | a # _ \<Rightarrow> Some \<lparr>msg_type = eIPC_MSG_TYPE_UL_ACK, msg_tag = 0, msg_length = 0, start_address = a\<rparr>, s') \<and>
    ring_step s (queues (shared s)) s'"
proof -
  let ?r = "shared s FIFO_ACK_DL_READ_IND" and ?w = "shared s FIFO_ACK_DL_WRITE_IND"
  have u: "(ucast a = (ucast b :: u32)) = (a = b)" for a b :: u8 by (metis ucast_back)
  show ?thesis
  proof (cases "?r = ?w")
    case True
    then have "ul_acks (shared s) = []" by (simp add: ul_acks_def ring_empty)
    then show ?thesis
      using assms True by (simp add: fifo_ack_4ghif_get_msg_def ind_defs inds_ok_def u Let_def ring_step_def strip_def)
  next
    case False
    then have "ul_acks (shared s) = get32 (shared s) (FIFO_ACK_DL_BASE + 4 * unat ?r) #
        ring (\<lambda>i. get32 (shared s) (FIFO_ACK_DL_BASE + 4 * unat i)) (?r + 1) ?w"
      unfolding ul_acks_def by (rule ring_pop)
    then show ?thesis
      using assms False
      by (auto simp: fifo_ack_4ghif_get_msg_def ind_defs inds_ok_def u unat_ucast_up Let_def ring_step_def strip_def)
  qed
qed

lemma increment_read:
  assumes "inds_ok s" "unat k \<le> length (dl_queue (shared s))"
  shows "ring_step s (ul_queue (shared s), drop (unat k) (dl_queue (shared s)), ul_acks (shared s), dl_acks (shared s))
    (fifo_4ghif_increment_read_ind_after_get_msg s k)"
  using assms advance_read(2)[OF assms(2)]
  by (simp add: fifo_4ghif_increment_read_ind_after_get_msg_def ind_defs inds_ok_def skip_ind_u8 ucast_back ring_step_def strip_def)
    (simp add: shm_layout)

lemma increment_ack_read:
  assumes "inds_ok s" "ul_acks (shared s) \<noteq> []"
  shows "ring_step s (ul_queue (shared s), dl_queue (shared s), tl (ul_acks (shared s)), dl_acks (shared s))
    (fifo_ack_4ghif_increment_read_ind_after_get_msg s)"
proof -
  have "1 \<le> length (ul_acks (shared s))" using assms(2) by (cases "ul_acks (shared s)") auto
  then show ?thesis
    using assms advance_read(3)[of 1 "shared s"]
    by (simp add: fifo_ack_4ghif_increment_read_ind_after_get_msg_def ind_defs inds_ok_def next_ind_u8 ucast_back ring_step_def
        strip_def drop_Suc) (simp add: shm_layout)
qed

section \<open>Loops\<close>

text \<open>Assignments to the rest of the state.\<close>

lemma inds_ok_upd [simp]:
  "inds_ok (s\<lparr>mm := x1\<rparr>) = inds_ok s" "inds_ok (s\<lparr>b_ipc_4ghif_open := x2\<rparr>) = inds_ok s"
  "inds_ok (s\<lparr>b_bp_ready := x3\<rparr>) = inds_ok s" "inds_ok (s\<lparr>b_ap_ready := x4\<rparr>) = inds_ok s"
  "inds_ok (s\<lparr>b_sdma_ul_transfer_on_going := x5\<rparr>) = inds_ok s"
  "inds_ok (s\<lparr>b_sdma_dl_transfer_on_going := x6\<rparr>) = inds_ok s"
  "inds_ok (s\<lparr>b_ul_pause := x7\<rparr>) = inds_ok s"
  "inds_ok (s\<lparr>b_process_dl_msg_on_going := x8\<rparr>) = inds_ok s"
  "inds_ok (s\<lparr>frames_info := x9\<rparr>) = inds_ok s"
  "inds_ok (s\<lparr>frames_info_for_receive_cb := x10\<rparr>) = inds_ok s"
  "inds_ok (s\<lparr>sdma_ul_packet_nb := x11\<rparr>) = inds_ok s"
  "inds_ok (s\<lparr>sdma_dl_packet_nb := x12\<rparr>) = inds_ok s"
  "inds_ok (s\<lparr>incoming_dl_packet_nb := x13\<rparr>) = inds_ok s"
  "inds_ok (s\<lparr>incoming_dl_packet_nb_for_receive_cb := x14\<rparr>) = inds_ok s"
  "inds_ok (s\<lparr>p_sdma_packet_ul := x15\<rparr>) = inds_ok s"
  "inds_ok (s\<lparr>p_sdma_packet_dl := x16\<rparr>) = inds_ok s"
  "inds_ok (s\<lparr>fifo_data_dl_msg_table := x17\<rparr>) = inds_ok s"
  "inds_ok (s\<lparr>fifo_data_ul_msg_table := x18\<rparr>) = inds_ok s"
  "inds_ok (s\<lparr>the_ipc_4ghif_stats := x19\<rparr>) = inds_ok s" "inds_ok (s\<lparr>mbox2 := x20\<rparr>) = inds_ok s"
  "inds_ok (s\<lparr>mbox3 := x21\<rparr>) = inds_ok s" "inds_ok (s\<lparr>dma_ul := x22\<rparr>) = inds_ok s"
  "inds_ok (s\<lparr>dma_dl := x23\<rparr>) = inds_ok s" "inds_ok (s\<lparr>dl_complete_tasklet := x24\<rparr>) = inds_ok s"
  "inds_ok (s\<lparr>ul_complete_tasklet := x25\<rparr>) = inds_ok s"
  "inds_ok (s\<lparr>bp_ready_tasklet := x26\<rparr>) = inds_ok s"
  "inds_ok (s\<lparr>receive_dl_tasklet := x27\<rparr>) = inds_ok s"
  "inds_ok (s\<lparr>ul_resume_tasklet := x28\<rparr>) = inds_ok s"
  "inds_ok (s\<lparr>fifo_ul_read_ind := y\<rparr>) = inds_ok s"
  "inds_ok (s\<lparr>fifo_ack_ul_read_ind := y\<rparr>) = inds_ok s" "inds_ok (upd_ghif_stats h s) = inds_ok s"
  by (simp_all add: inds_ok_def upd_ghif_stats_def)

lemma strip_upd:
  "strip (s\<lparr>mm := x1\<rparr>) = (strip s)\<lparr>mm := x1\<rparr>"
  "strip (s\<lparr>b_ipc_4ghif_open := x2\<rparr>) = (strip s)\<lparr>b_ipc_4ghif_open := x2\<rparr>"
  "strip (s\<lparr>b_bp_ready := x3\<rparr>) = (strip s)\<lparr>b_bp_ready := x3\<rparr>"
  "strip (s\<lparr>b_ap_ready := x4\<rparr>) = (strip s)\<lparr>b_ap_ready := x4\<rparr>"
  "strip (s\<lparr>b_sdma_ul_transfer_on_going := x5\<rparr>) = (strip s)\<lparr>b_sdma_ul_transfer_on_going := x5\<rparr>"
  "strip (s\<lparr>b_sdma_dl_transfer_on_going := x6\<rparr>) = (strip s)\<lparr>b_sdma_dl_transfer_on_going := x6\<rparr>"
  "strip (s\<lparr>b_ul_pause := x7\<rparr>) = (strip s)\<lparr>b_ul_pause := x7\<rparr>"
  "strip (s\<lparr>b_process_dl_msg_on_going := x8\<rparr>) = (strip s)\<lparr>b_process_dl_msg_on_going := x8\<rparr>"
  "strip (s\<lparr>frames_info := x9\<rparr>) = (strip s)\<lparr>frames_info := x9\<rparr>"
  "strip (s\<lparr>frames_info_for_receive_cb := x10\<rparr>) = (strip s)\<lparr>frames_info_for_receive_cb := x10\<rparr>"
  "strip (s\<lparr>sdma_ul_packet_nb := x11\<rparr>) = (strip s)\<lparr>sdma_ul_packet_nb := x11\<rparr>"
  "strip (s\<lparr>sdma_dl_packet_nb := x12\<rparr>) = (strip s)\<lparr>sdma_dl_packet_nb := x12\<rparr>"
  "strip (s\<lparr>incoming_dl_packet_nb := x13\<rparr>) = (strip s)\<lparr>incoming_dl_packet_nb := x13\<rparr>"
  "strip (s\<lparr>incoming_dl_packet_nb_for_receive_cb := x14\<rparr>) = (strip s)\<lparr>incoming_dl_packet_nb_for_receive_cb := x14\<rparr>"
  "strip (s\<lparr>p_sdma_packet_ul := x15\<rparr>) = (strip s)\<lparr>p_sdma_packet_ul := x15\<rparr>"
  "strip (s\<lparr>p_sdma_packet_dl := x16\<rparr>) = (strip s)\<lparr>p_sdma_packet_dl := x16\<rparr>"
  "strip (s\<lparr>fifo_data_dl_msg_table := x17\<rparr>) = (strip s)\<lparr>fifo_data_dl_msg_table := x17\<rparr>"
  "strip (s\<lparr>fifo_data_ul_msg_table := x18\<rparr>) = (strip s)\<lparr>fifo_data_ul_msg_table := x18\<rparr>"
  "strip (s\<lparr>the_ipc_4ghif_stats := x19\<rparr>) = (strip s)\<lparr>the_ipc_4ghif_stats := x19\<rparr>"
  "strip (s\<lparr>mbox2 := x20\<rparr>) = (strip s)\<lparr>mbox2 := x20\<rparr>"
  "strip (s\<lparr>mbox3 := x21\<rparr>) = (strip s)\<lparr>mbox3 := x21\<rparr>"
  "strip (s\<lparr>dma_ul := x22\<rparr>) = (strip s)\<lparr>dma_ul := x22\<rparr>"
  "strip (s\<lparr>dma_dl := x23\<rparr>) = (strip s)\<lparr>dma_dl := x23\<rparr>"
  "strip (s\<lparr>dl_complete_tasklet := x24\<rparr>) = (strip s)\<lparr>dl_complete_tasklet := x24\<rparr>"
  "strip (s\<lparr>ul_complete_tasklet := x25\<rparr>) = (strip s)\<lparr>ul_complete_tasklet := x25\<rparr>"
  "strip (s\<lparr>bp_ready_tasklet := x26\<rparr>) = (strip s)\<lparr>bp_ready_tasklet := x26\<rparr>"
  "strip (s\<lparr>receive_dl_tasklet := x27\<rparr>) = (strip s)\<lparr>receive_dl_tasklet := x27\<rparr>"
  "strip (s\<lparr>ul_resume_tasklet := x28\<rparr>) = (strip s)\<lparr>ul_resume_tasklet := x28\<rparr>"
  "strip (upd_ghif_stats h s) = upd_ghif_stats h (strip s)"
  by (simp_all add: strip_def upd_ghif_stats_def)

lemma ring_stepD:
  assumes "ring_step s (q1, q2, q3, q4) s'"
  shows "inds_ok s'" "ul_queue (shared s') = q1" "dl_queue (shared s') = q2" "ul_acks (shared s') = q3"
    "dl_acks (shared s') = q4" "strip s' = strip s"
  using assms by (simp_all add: ring_step_def queues_split)

lemma add_ul_msgs_ok:
  assumes "inds_ok s" "length (ul_queue (shared s)) + length msgs \<le> 255"
  shows "\<exists>s'. add_ul_msgs msgs s = Inr s' \<and>
    ring_step s (ul_queue (shared s) @ msgs, dl_queue (shared s), ul_acks (shared s), dl_acks (shared s)) s'"
  using assms
proof (induction msgs arbitrary: s)
  case Nil
  then show ?case using ring_step_refl[of s] by (simp add: queues_def)
next
  case (Cons msg msgs)
  from Cons.prems obtain s1 where a: "fifo_4ghif_add_msg s msg = (IPC_4GHIF_FIFO_STATUS_OK, s1)"
    "ring_step s (ul_queue (shared s) @ [msg], dl_queue (shared s), ul_acks (shared s), dl_acks (shared s)) s1"
    using add_msg_ok[of s msg] by auto
  note d = ring_stepD[OF a(2)]
  have "length (ul_queue (shared s1)) + length msgs \<le> 255" using d Cons.prems by simp
  from Cons.IH[OF d(1) this] a d show ?case by (auto intro: ring_step_trans)
qed

lemma add_dl_acks_ok:
  assumes "inds_ok s" "length (dl_acks (shared s)) + length msgs \<le> 255"
  shows "\<exists>s'. add_dl_acks msgs s = Inr s' \<and>
    ring_step s (ul_queue (shared s), dl_queue (shared s), ul_acks (shared s), dl_acks (shared s) @ map start_address msgs) s'"
  using assms
proof (induction msgs arbitrary: s)
  case Nil
  then show ?case using ring_step_refl[of s] by (simp add: queues_def)
next
  case (Cons msg msgs)
  from Cons.prems obtain s1 where
    a: "fifo_ack_4ghif_add_msg s (msg\<lparr>msg_type := eIPC_MSG_TYPE_DL_ACK\<rparr>) = (IPC_4GHIF_FIFO_STATUS_OK, s1)"
    "ring_step s (ul_queue (shared s), dl_queue (shared s), ul_acks (shared s), dl_acks (shared s) @ [start_address msg]) s1"
    using add_ack_ok[of s "msg\<lparr>msg_type := eIPC_MSG_TYPE_DL_ACK\<rparr>"] by auto
  note d = ring_stepD[OF a(2)]
  have "length (dl_acks (shared s1)) + length msgs \<le> 255" using d Cons.prems by simp
  from Cons.IH[OF d(1) this] a d show ?case by (auto intro: ring_step_trans)
qed

text \<open>
  The loop over the acknowledgements of the uplink returns after the last one. It has released the
  acknowledged blocks, and resumed the uplink when it was paused, some block came back and the
  ring has room.
\<close>

definition resumes :: "'a ghif_scheme \<Rightarrow> bool" where
  "resumes s \<longleftrightarrow> b_ul_pause s \<and> ul_acks (shared s) \<noteq> [] \<and> length (ul_queue (shared s)) < 255"

definition acked :: "'a ghif_scheme \<Rightarrow> mm_state \<Rightarrow> 'a ghif_scheme" where
  "acked s m = s\<lparr>mm := m, b_ul_pause := b_ul_pause s \<and> \<not> resumes s, ul_resume_tasklet := ul_resume_tasklet s \<or> resumes s,
     the_ipc_4ghif_stats := (the_ipc_4ghif_stats s)
       \<lparr>stat_ul_ack := stat_ul_ack (the_ipc_4ghif_stats s) + of_nat (length (ul_acks (shared s)))\<rparr>\<rparr>"

lemma strip_acked:
  "strip (acked s m) = (strip s)\<lparr>mm := m, b_ul_pause := b_ul_pause s \<and> \<not> resumes s,
     ul_resume_tasklet := ul_resume_tasklet s \<or> resumes s, the_ipc_4ghif_stats := (the_ipc_4ghif_stats s)
       \<lparr>stat_ul_ack := stat_ul_ack (the_ipc_4ghif_stats s) + of_nat (length (ul_acks (shared s)))\<rparr>\<rparr>"
  by (simp add: acked_def strip_upd)

lemma ack_one_ok:
  assumes "inds_ok s" "ul_acks (shared s) = start_address msg # as"
    "IPC_4GHIF_data_ul_mm_free (mm s) (start_address msg) = Inr m"
  shows "\<exists>s'. ack_one s msg = Inr s' \<and>
    ring_step (s\<lparr>mm := m, b_ul_pause := b_ul_pause s \<and> \<not> resumes s, ul_resume_tasklet := ul_resume_tasklet s \<or> resumes s,
      the_ipc_4ghif_stats := (the_ipc_4ghif_stats s)\<lparr>stat_ul_ack := stat_ul_ack (the_ipc_4ghif_stats s) + 1\<rparr>\<rparr>)
      (ul_queue (shared s), dl_queue (shared s), as, dl_acks (shared s)) s'"
proof -
  define s2 where "s2 = (upd_ghif_stats (\<lambda>t. t\<lparr>stat_ul_ack := stat_ul_ack t + 1\<rparr>) s)\<lparr>mm := m\<rparr>"
  define s3 where "s3 = (if b_ul_pause s2 then
      if resumes s then s2\<lparr>fifo_ul_read_ind := ucast (shared s FIFO_UL_READ_IND), b_ul_pause := False, ul_resume_tasklet := True\<rparr>
      else s2\<lparr>fifo_ul_read_ind := ucast (shared s FIFO_UL_READ_IND)\<rparr> else s2)"
  have i: "inds_ok s2" "inds_ok s3" "shared s2 = shared s" "shared s3 = shared s"
    using assms(1) by (auto simp: s2_def s3_def upd_ghif_stats_def)
  have "ack_one s msg = Inr (fifo_ack_4ghif_increment_read_ind_after_get_msg s3)"
    using assms(2,3) ul_space_left[OF i(1)] i(3)
    by (auto simp: ack_one_def s3_def s2_def upd_ghif_stats_def resumes_def Let_def)
  moreover have "ring_step s3 (ul_queue (shared s), dl_queue (shared s), as, dl_acks (shared s))
      (fifo_ack_4ghif_increment_read_ind_after_get_msg s3)"
    using increment_ack_read[OF i(2)] assms(2) by (simp add: i)
  ultimately show ?thesis
    by (auto simp: ring_step_def s3_def s2_def upd_ghif_stats_def strip_def resumes_def)
qed

lemma ack_loop_ok:
  assumes "inds_ok s" "ul_mm.release_all (ul_acks (shared s)) (mm s) = Inr m"
  shows "\<exists>s'. ack_loop s = Some (Inr s') \<and>
    ring_step (acked s m) (ul_queue (shared s), dl_queue (shared s), [], dl_acks (shared s)) s'"
  using assms
proof (induction "ul_acks (shared s)" arbitrary: s)
  case Nil
  then obtain s1 where "fifo_ack_4ghif_get_msg s = (None, s1)" "ring_step s (queues (shared s)) s1"
    using get_ack[of s] by auto
  then show ?case
    using Nil by (subst ack_loop.simps) (simp add: ring_step_def acked_def resumes_def queues_def strip_def)
next
  case (Cons a as)
  let ?msg = "\<lparr>msg_type = eIPC_MSG_TYPE_UL_ACK, msg_tag = 0, msg_length = 0, start_address = a\<rparr>"
  obtain s1 where g: "fifo_ack_4ghif_get_msg s = (Some ?msg, s1)" "ring_step s (queues (shared s)) s1"
    using get_ack[of s] Cons.hyps(2)[symmetric] Cons.prems(1) by auto
  note d = ring_stepD[OF g(2)[unfolded queues_def]]
  obtain m1 where m1: "IPC_4GHIF_data_ul_mm_free (mm s) a = Inr m1" "ul_mm.release_all as m1 = Inr m"
    using Cons.prems(2) Cons.hyps(2)[symmetric] by (auto simp: rbind_eq_Inr_iff)
  have "\<exists>s2. ack_one s1 ?msg = Inr s2 \<and>
    ring_step (s1\<lparr>mm := m1, b_ul_pause := b_ul_pause s1 \<and> \<not> resumes s1, ul_resume_tasklet := ul_resume_tasklet s1 \<or> resumes s1,
      the_ipc_4ghif_stats := (the_ipc_4ghif_stats s1)\<lparr>stat_ul_ack := stat_ul_ack (the_ipc_4ghif_stats s1) + 1\<rparr>\<rparr>)
      (ul_queue (shared s1), dl_queue (shared s1), as, dl_acks (shared s1)) s2"
    using Cons.hyps(2) d m1(1) by (intro ack_one_ok) (simp_all add: strip_fields[OF d(6)])
  then obtain s2 where s2: "ack_one s1 ?msg = Inr s2"
    "ring_step (s1\<lparr>mm := m1, b_ul_pause := b_ul_pause s1 \<and> \<not> resumes s1, ul_resume_tasklet := ul_resume_tasklet s1 \<or> resumes s1,
      the_ipc_4ghif_stats := (the_ipc_4ghif_stats s1)\<lparr>stat_ul_ack := stat_ul_ack (the_ipc_4ghif_stats s1) + 1\<rparr>\<rparr>)
      (ul_queue (shared s), dl_queue (shared s), as, dl_acks (shared s)) s2"
    using d by auto
  note e = ring_stepD[OF s2(2)]
  have f: "mm s2 = m1" using strip_fields(1)[OF e(6)] by simp
  obtain s3 where s3: "ack_loop s2 = Some (Inr s3)"
    "ring_step (acked s2 m) (ul_queue (shared s), dl_queue (shared s), [], dl_acks (shared s)) s3"
    using Cons.hyps(1)[of s2] e f m1(2) by auto
  have "ack_loop s = Some (Inr s3)" using g(1) s2(1) s3(1) by (subst ack_loop.simps) simp
  moreover have "strip (acked s2 m) = strip (acked s m)"
  proof -
    note f2 = strip_fields[OF e(6)] and f1 = strip_fields[OF d(6)]
    have r: "resumes s1 = resumes s" "\<not> resumes s2" using f1 f2 d e Cons.hyps(2)[symmetric] by (auto simp: resumes_def)
    have "strip (acked s2 m) = (strip s)\<lparr>mm := m, b_ul_pause := b_ul_pause s \<and> \<not> resumes s,
        ul_resume_tasklet := ul_resume_tasklet s \<or> resumes s, the_ipc_4ghif_stats := (the_ipc_4ghif_stats s)
        \<lparr>stat_ul_ack := stat_ul_ack (the_ipc_4ghif_stats s) + of_nat (length (ul_acks (shared s)))\<rparr>\<rparr>"
      using f1 f2 r e Cons.hyps(2)[symmetric] by (simp add: strip_acked strip_upd d(6) algebra_simps)
    then show ?thesis by (simp add: strip_acked)
  qed
  ultimately show ?case using s3(2) by (auto simp: ring_step_def)
qed

text \<open>
  The frames that are collected: the messages at the front of the queue, as many as the table
  holds and as acknowledgements find room for.
\<close>

definition dl_msg_ok :: "fifo_msg \<Rightarrow> bool" where
  "dl_msg_ok msg \<longleftrightarrow> dl_type_ok msg \<and> dl_length_ok msg"

definition collectable :: "shm \<Rightarrow> nat" where
  "collectable m = min IPC_4GHIF_MAX_NB_DL_FRAMES (min (255 - length (dl_acks m)) (length (dl_queue m)))"

definition collected :: "nat \<Rightarrow> 'a ghif_scheme \<Rightarrow> 'a ghif_scheme" where
  "collected k s = s\<lparr>fifo_data_dl_msg_table := take k (dl_queue (shared s)) @ drop k (fifo_data_dl_msg_table s),
     frames_info := map dl_info (take k (dl_queue (shared s))) @ drop k (frames_info s)\<rparr>"

lemma collected_self:
  assumes "take k (fifo_data_dl_msg_table s) = take k (dl_queue (shared s))"
    "take k (frames_info s) = map dl_info (take k (dl_queue (shared s)))"
  shows "collected k s = s"
proof -
  have "take k (dl_queue (shared s)) @ drop k (fifo_data_dl_msg_table s) = fifo_data_dl_msg_table s"
    "map dl_info (take k (dl_queue (shared s))) @ drop k (frames_info s) = frames_info s"
    using append_take_drop_id[of k "fifo_data_dl_msg_table s"] append_take_drop_id[of k "frames_info s"] assms by simp_all
  then show ?thesis by (simp add: collected_def)
qed

lemma take_Suc_update:
  "i < length xs \<Longrightarrow> i < length q \<Longrightarrow> take i xs = map f (take i q) \<Longrightarrow> take (Suc i) (xs[i := f (q ! i)]) = map f (take (Suc i) q)"
  by (simp add: take_Suc_conv_app_nth)

lemma frame_info_loop_ok:
  assumes "inds_ok s" "index + n = IPC_4GHIF_MAX_NB_DL_FRAMES" "0 \<le> room" "\<forall>msg\<in>set (dl_queue (shared s)). dl_msg_ok msg"
    "length (fifo_data_dl_msg_table s) = IPC_4GHIF_MAX_NB_DL_FRAMES" "length (frames_info s) = IPC_4GHIF_MAX_NB_DL_FRAMES"
    "take index (fifo_data_dl_msg_table s) = take index (dl_queue (shared s))"
    "take index (frames_info s) = map dl_info (take index (dl_queue (shared s)))"
    "k = min IPC_4GHIF_MAX_NB_DL_FRAMES (min (nat room) (length (dl_queue (shared s))))" "index \<le> k"
  shows "\<exists>s'. frame_info_loop n index room s = Inr (FIFO_4GHIF_STATUS_OK, k, s') \<and>
    ring_step (collected k s) (queues (shared s)) s'"
  using assms
proof (induction n arbitrary: index s)
  have i: "unat (of_nat index :: u8) = index" if "index \<le> IPC_4GHIF_MAX_NB_DL_FRAMES" for index
    using that by (simp add: unat_of_nat_u8 IPC_4GHIF_MAX_NB_DL_FRAMES_def)
  {
    case 0
    then have k: "index = k" "index \<le> length (dl_queue (shared s))" by auto
    then have "ring_step s (queues (shared s)) (snd (fifo_4ghif_get_msg s (of_nat index)))"
      using 0 get_msg_at[of s "of_nat index"] i[of index] by auto
    then show ?case using 0 k(1) by (simp add: collected_self)
  next
    case (Suc n)
    let ?q = "dl_queue (shared s)"
    have ind: "index < IPC_4GHIF_MAX_NB_DL_FRAMES" "index \<le> length ?q" using Suc.prems by auto
    obtain s1 where g: "fifo_4ghif_get_msg s (of_nat index) = (if index < length ?q then Some (?q ! index) else None, s1)"
      "ring_step s (queues (shared s)) s1"
      using get_msg_at[OF Suc.prems(1), of "of_nat index"] i[of index] ind by auto
    note d = ring_stepD[OF g(2)[unfolded queues_def]]
    note f = strip_fields[OF d(6)]
    show ?case
    proof (cases "index < length ?q \<and> int index < room")
      case False
      then have "index = k" using Suc.prems(9,10) by auto
      moreover have "frame_info_loop (Suc n) index room s = Inr (FIFO_4GHIF_STATUS_OK, index, s1)"
        using g(1) False Suc.prems(4) by (auto simp: dl_msg_ok_def)
      ultimately show ?thesis using g(2) Suc.prems by (auto simp: collected_self)
    next
      case True
      let ?s2 = "s1\<lparr>fifo_data_dl_msg_table := (fifo_data_dl_msg_table s)[index := ?q ! index],
        frames_info := (frames_info s)[index := dl_info (?q ! index)]\<rparr>"
      have ik: "index < k" using True Suc.prems(9) ind(1) by (simp add: zless_nat_eq_int_zless)
      have "dl_msg_ok (?q ! index)" using True Suc.prems(4) by simp
      then have "frame_info_loop (Suc n) index room s = frame_info_loop n (index + 1) room ?s2"
        using g(1) True Suc.prems(5,6) ind(1) f by (simp add: dl_msg_ok_def)
      moreover have "\<exists>s'. frame_info_loop n (index + 1) room ?s2 = Inr (FIFO_4GHIF_STATUS_OK, k, s') \<and>
          ring_step (collected k ?s2) (queues (shared ?s2)) s'"
      proof (rule Suc.IH)
        show "take (index + 1) (fifo_data_dl_msg_table ?s2) = take (index + 1) (dl_queue (shared ?s2))"
          using take_Suc_update[of index "fifo_data_dl_msg_table s" ?q "\<lambda>x. x"] Suc.prems(5,7) ind(1) True d(3) by simp
        show "take (index + 1) (frames_info ?s2) = map dl_info (take (index + 1) (dl_queue (shared ?s2)))"
          using take_Suc_update[of index "frames_info s" ?q dl_info] Suc.prems(6,8) ind(1) True d(3) by simp
        show "index + 1 \<le> k" using ik by simp
      qed (use Suc.prems(2-6,9) d in simp_all)
      moreover have "strip (collected k ?s2) = strip (collected k s)" "queues (shared ?s2) = queues (shared s)"
        using ik by (simp_all add: collected_def strip_upd queues_def d)
      ultimately show ?thesis by (auto simp: ring_step_def)
    qed
  }
qed

lemma get_frame_info_ok:
  assumes "inds_ok s" "\<forall>msg\<in>set (dl_queue (shared s)). dl_msg_ok msg"
    "length (fifo_data_dl_msg_table s) = IPC_4GHIF_MAX_NB_DL_FRAMES" "length (frames_info s) = IPC_4GHIF_MAX_NB_DL_FRAMES"
  shows "\<exists>s'. fifo_4ghif_get_frame_info s = Inr (FIFO_4GHIF_STATUS_OK, collectable (shared s), s') \<and>
    ring_step (collected (collectable (shared s)) s) (queues (shared s)) s'"
proof -
  have "length (dl_acks (shared s)) < 256" by (simp add: dl_acks_def unat_u8_less)
  then show ?thesis
    using frame_info_loop_ok[of "s\<lparr>fifo_ack_ul_read_ind := ucast (shared s FIFO_ACK_UL_READ_IND)\<rparr>" 0
      IPC_4GHIF_MAX_NB_DL_FRAMES "255 - int (length (dl_acks (shared s)))" "collectable (shared s)"] assms
    by (auto simp: fifo_4ghif_get_frame_info_def ack_space_left collectable_def nat_diff_distrib collected_def ring_step_def strip_def
        split: prod.splits)
qed

end
