(* ===== verification/GhifUl.thy ===== *)
theory GhifUl
  imports GhifOps
begin

text \<open>
  Submission of uplink frames. Every frame gets a slot in the ring and a block of memory; the
  frames that have both are handed to the DMA engine as a chain of descriptors in shared memory.
\<close>

section \<open>Reservation\<close>

definition marked :: "nat \<Rightarrow> sdma_packet list \<Rightarrow> sdma_packet list" where
  "marked n ps = map (\<lambda>p. p\<lparr>transferred_status := True\<rparr>) (take n ps) @
     (case drop n ps of [] \<Rightarrow> [] | p # qs \<Rightarrow> p\<lparr>transferred_status := False\<rparr> # qs)"

lemma marked_simps [simp]:
  "marked n [] = []" "marked 0 (p # ps) = p\<lparr>transferred_status := False\<rparr> # ps"
  "marked (Suc n) (p # ps) = p\<lparr>transferred_status := True\<rparr> # marked n ps"
  by (simp_all add: marked_def)

lemma length_marked [simp]: "length (marked n ps) = length ps"
proof (induction ps arbitrary: n)
  case (Cons p ps)
  then show ?case by (cases n) simp_all
qed simp

lemma take_marked: "n \<le> length ps \<Longrightarrow> take n (marked n ps) = map (\<lambda>p. p\<lparr>transferred_status := True\<rparr>) (take n ps)"
  by (simp add: marked_def)

definition reserved :: "mm_state \<Rightarrow> bool \<Rightarrow> 'a ghif_scheme \<Rightarrow> 'a ghif_scheme" where
  "reserved m full s = (if full then ul_paused (s\<lparr>mm := m\<rparr>) else s\<lparr>mm := m\<rparr>)"

lemma strip_ul_paused: "strip (ul_paused s) = ul_paused (strip s)"
  by (simp add: ul_paused_def upd_ghif_stats_def strip_def)

lemma strip_reserved: "strip (reserved m full s) = reserved m full (strip s)"
  by (simp add: reserved_def strip_ul_paused strip_upd)

lemma inds_ok_paused [simp]: "inds_ok (ul_paused s) = inds_ok s" "shared (ul_paused s) = shared s"
  by (simp_all add: ul_paused_def upd_ghif_stats_def)

text \<open>The frames for which the ring has a slot are the candidates for memory.\<close>

definition ul_sizes :: "'a ghif_scheme \<Rightarrow> nat \<Rightarrow> sdma_packet list \<Rightarrow> u16 list" where
  "ul_sizes s index ps = map (\<lambda>p. ucast (buf_size p)) (take (255 - length (ul_queue (shared s)) - index) ps)"

lemma reserve_ul_ok:
  assumes "inds_ok s" "ul_mm.alloc_some (ul_sizes s index ps) (mm s) = Inr (as, m)"
  shows "\<exists>s'. reserve_ul index ps s = Inr (length as < length ps, as, marked (length as) ps, s') \<and>
    ring_step (reserved m (length as < length ps) s) (queues (shared s)) s'"
  using assms
proof (induction ps arbitrary: index s as)
  case Nil
  then show ?case using ring_step_refl[of s] by (auto simp: ul_sizes_def reserved_def)
next
  case (Cons p ps)
  let ?s1 = "s\<lparr>fifo_ul_read_ind := ucast (shared s FIFO_UL_READ_IND)\<rparr>" and ?l = "length (ul_queue (shared s))"
  have l: "?l < 256" by (simp add: ul_queue_def unat_u8_less)
  note sp = ul_space_left[OF Cons.prems(1)]
  show ?case
  proof (cases "255 - ?l - index")
    case 0
    then have "as = []" "m = mm s" "255 - int ?l \<le> int index" using Cons.prems(2) l by (auto simp: ul_sizes_def)
    then show ?thesis
      using sp Cons.prems(1) by (auto simp: reserved_def ring_step_def strip_ul_paused) (simp add: strip_def)
  next
    case (Suc k)
    then have room: "\<not> 255 - int ?l \<le> int index" and k: "255 - ?l - (index + 1) = k" by auto
    have sz: "ul_sizes s index (p # ps) = ucast (buf_size p) # map (\<lambda>p. ucast (buf_size p)) (take k ps)"
      using Suc by (simp add: ul_sizes_def)
    obtain a m1 where a: "IPC_4GHIF_data_ul_mm_alloc (mm s) (ucast (buf_size p)) = Inr (a, m1)"
      "(if a = 0 then Inr ([], m1) else rbind (ul_mm.alloc_some (map (\<lambda>p. ucast (buf_size p)) (take k ps)) m1)
         (\<lambda>(as, s2). Inr (a # as, s2))) = Inr (as, m)"
      using Cons.prems(2) unfolding sz by (auto simp: rbind_eq_Inr_iff)
    show ?thesis
    proof (cases "a = 0")
      case True
      then have "as = []" "m = m1" using a(2) by auto
      then show ?thesis
        using sp room a(1) True Cons.prems(1) by (auto simp: reserved_def ring_step_def strip_ul_paused) (simp add: strip_def)
    next
      case False
      then obtain bs where bs: "ul_mm.alloc_some (map (\<lambda>p. ucast (buf_size p)) (take k ps)) m1 = Inr (bs, m)" "as = a # bs"
        using a(2) by (auto simp: rbind_eq_Inr_iff)
      have "ul_sizes (?s1\<lparr>mm := m1\<rparr>) (index + 1) ps = map (\<lambda>p. ucast (buf_size p)) (take k ps)"
        using k by (simp add: ul_sizes_def)
      then obtain s' where "reserve_ul (index + 1) ps (?s1\<lparr>mm := m1\<rparr>) = Inr (length bs < length ps, bs, marked (length bs) ps, s')"
        "ring_step (reserved m (length bs < length ps) (?s1\<lparr>mm := m1\<rparr>)) (queues (shared s)) s'"
        using Cons.IH[of "?s1\<lparr>mm := m1\<rparr>" "index + 1" bs] Cons.prems(1) bs(1) by auto
      then show ?thesis
        using sp room a(1) False bs(2) by (auto simp: ring_step_def strip_reserved) (simp add: reserved_def strip_def)
    qed
  qed
qed

section \<open>Descriptors\<close>

text \<open>A descriptor as the DMA engine reads it: next descriptor, flags and length, source, destination.\<close>

definition descr_at :: "shm \<Rightarrow> nat \<Rightarrow> u32 \<times> u32 \<times> u32 \<times> u32" where
  "descr_at m d = (get32 m d, get32 m (d + 4), get32 m (d + 8), get32 m (d + 12))"

definition descr_of :: "nat \<Rightarrow> u32 \<times> u32 \<times> u32 \<Rightarrow> bool \<Rightarrow> u32 \<times> u32 \<times> u32 \<times> u32" where
  "descr_of d t is_last =
     (case t of (src, dst, len) \<Rightarrow>
       (SHARED_MEM_VIRT_TO_PHYS (IPC_SHARED_VIRT_ADDR + of_nat d) + 16,
        NEXT_DESCR_TYPE3SD OR (len AND 0x00FFFFFF) OR (if is_last then NEXT_DESCR_LAST else 0), src, dst))"

lemma fill_one_other: "x \<notin> {d..<d + 16} \<Longrightarrow> fill_one_type3sd_descr m d src dst len l x = m x"
  by (cases "x < d") (auto simp: fill_one_type3sd_descr_def put32_other Let_def)

lemma get32_put32_other: "d + 4 \<le> e \<or> e + 4 \<le> d \<Longrightarrow> get32 (put32 m d v) e = get32 m e"
  by (intro get32_cong put32_other) auto

lemma descr_at_fill: "descr_at (fill_one_type3sd_descr m d src dst len l) d = descr_of d (src, dst, len) l"
  by (simp add: descr_at_def descr_of_def fill_one_type3sd_descr_def get32_put32 get32_put32_other Let_def or.assoc)

lemma fill_descrs_other:
  "x \<notin> {base + 16 * index..<base + 16 * (index + length ts) + 4} \<Longrightarrow> fill_descrs base index ts m x = m x"
proof (induction base index ts m rule: fill_descrs.induct)
  case (1 base index m)
  then show ?case by (simp add: put32_other)
next
  case (2 base index src dst len ts m)
  then show ?case by (auto simp: fill_one_other)
qed

lemma descr_at_cong: "(\<And>x. x \<in> {d..<d + 16} \<Longrightarrow> m' x = m x) \<Longrightarrow> descr_at m' d = descr_at m d"
  by (simp add: descr_at_def get32_def)

lemma fill_descrs_at:
  "i < length ts \<Longrightarrow> descr_at (fill_descrs base index ts m) (base + 16 * (index + i)) =
     descr_of (base + 16 * (index + i)) (ts ! i) (i + 1 = length ts)"
proof (induction ts arbitrary: i index m)
  case Nil
  then show ?case by simp
next
  case (Cons t ts)
  obtain src dst len where t: "t = (src, dst, len)" by (cases t)
  show ?case
  proof (cases i)
    case 0
    have "descr_at (fill_descrs base (index + 1) ts (fill_one_type3sd_descr m (base + 16 * index) src dst len (ts = [])))
        (base + 16 * index) = descr_at (fill_one_type3sd_descr m (base + 16 * index) src dst len (ts = [])) (base + 16 * index)"
      by (intro descr_at_cong fill_descrs_other) auto
    then show ?thesis using 0 t by (auto simp: descr_at_fill)
  next
    case (Suc j)
    then show ?thesis using Cons.IH[of j "index + 1"] Cons.prems t by (simp add: algebra_simps)
  qed
qed

lemma fill_descrs_end: "get32 (fill_descrs base index ts m) (base + 16 * (index + length ts)) = END_OF_DMA_TYPE3_LINKLIST"
  by (induction base index ts m rule: fill_descrs.induct) (simp_all add: get32_put32 algebra_simps)

lemma descrs_keep:
  assumes "length ts \<le> 31" "base = DMA_DESCR_UL_ARRAY \<or> base = DMA_DESCR_DL_ARRAY"
  shows "queues (fill_descrs base 0 ts m) = queues m"
    "x \<le> 0x7f820 \<Longrightarrow> fill_descrs base 0 ts m x = m x"
proof -
  show *: "fill_descrs base 0 ts m x = m x" if "x \<le> 0x7f820" for x
    using that assms by (intro fill_descrs_other) (auto simp: shm_layout)
  show "queues (fill_descrs base 0 ts m) = queues m" by (rule queues_cong) (simp add: *)
qed

section \<open>Submission\<close>

definition ul_msgs :: "sdma_packet list \<Rightarrow> u32 list \<Rightarrow> fifo_msg list" where
  "ul_msgs ps as = map2 ul_msg ps as"

lemma length_ul_msgs [simp]: "length (ul_msgs ps as) = min (length ps) (length as)"
  by (simp add: ul_msgs_def)

lemma ul_msgs_addresses: "length as \<le> length ps \<Longrightarrow> map start_address (ul_msgs ps as) = as"
  by (simp add: ul_msgs_def ul_msg_def list_eq_iff_nth_eq)

lemma ul_msgs_data: "msg \<in> set (ul_msgs ps as) \<Longrightarrow> msg_type msg \<noteq> eIPC_MSG_TYPE_INIT_CNF"
  by (auto simp: ul_msgs_def ul_msg_def ghif_type_defs split: if_splits)

lemma ul_msgs_marked:
  "length as \<le> length ps \<Longrightarrow> map2 ul_msg (take (length as) (marked (length as) ps)) as = ul_msgs ps as"
  by (simp add: ul_msgs_def take_marked list_eq_iff_nth_eq ul_msg_def)

definition submitted :: "sdma_packet list \<Rightarrow> u32 list \<Rightarrow> ipc_4ghif_stats \<Rightarrow> 'a ghif_scheme \<Rightarrow> 'a ghif_scheme" where
  "submitted ps as t s = s\<lparr>p_sdma_packet_ul := Some (marked (length as) ps), sdma_ul_packet_nb := length as,
     fifo_data_ul_msg_table := ul_msgs ps as @ drop (length as) (fifo_data_ul_msg_table s),
     b_sdma_ul_transfer_on_going := True, dma_ul := True, the_ipc_4ghif_stats := t\<rparr>"

lemma strip_submitted:
  "strip (submitted ps as t s) = submitted ps as t (strip s)" "strip (s\<lparr>shared := m\<rparr>) = strip s"
  by (simp_all add: submitted_def strip_def)

definition ul_transfers :: "ghif_env \<Rightarrow> sdma_packet list \<Rightarrow> u32 list \<Rightarrow> (u32 \<times> u32 \<times> u32) list" where
  "ul_transfers e ps as = map2 (\<lambda>p a. (phys_buf e p, a, buf_size p)) ps as"

lemma ul_transfers_marked:
  "length as \<le> length ps \<Longrightarrow>
     map2 (\<lambda>p a. (phys_buf e p, a, buf_size p)) (take (length as) (marked (length as) ps)) as = ul_transfers e ps as"
  by (simp add: ul_transfers_def take_marked list_eq_iff_nth_eq phys_buf_def)

lemma buf_size_u16: "ul_packet_ok p \<Longrightarrow> (ucast (buf_size p) :: u16) \<le> 8192 \<and> unat (ucast (buf_size p) :: u16) = unat (buf_size p)"
  by (simp add: ul_packet_ok_def DATA_UL_PACKET_MAX_SIZE_def word_le_nat_alt unsigned_ucast_eq take_bit_nat_eq_self)

definition ul_ready :: "'a ghif_scheme \<Rightarrow> bool" where
  "ul_ready s \<longleftrightarrow> b_ipc_4ghif_open s \<and> b_bp_ready s \<and> b_ap_ready s \<and> \<not> b_sdma_ul_transfer_on_going s"

definition ul_packets_ok :: "sdma_packet list \<Rightarrow> bool" where
  "ul_packets_ok ps \<longleftrightarrow> ps \<noteq> [] \<and> length ps \<le> IPC_4GHIF_MAX_NB_UL_FRAMES \<and> list_all ul_packet_ok ps"

lemma ul_alloc_some:
  assumes "mm_inv (mm s)" "list_all ul_packet_ok ps"
  obtains as m where "ul_mm.alloc_some (ul_sizes s 0 ps) (mm s) = Inr (as, m)" "mm_inv m" "length as \<le> length ps"
    "length as + length (ul_queue (shared s)) \<le> 255" "distinct as" "set as \<inter> dom (live (mm s)) = {}"
    "live m = (live (mm s))(as [\<mapsto>] map block_size (take (length as) (ul_sizes s 0 ps)))" 
    "as = [] \<longrightarrow> ps \<noteq> [] \<longrightarrow> length (ul_queue (shared s)) < 255 \<longrightarrow> live (mm s) \<noteq> Map.empty"
    "length as < length ps \<longrightarrow> length as + length (ul_queue (shared s)) = 255 \<or>
       (\<exists>m'. IPC_4GHIF_data_ul_mm_alloc m (ucast (buf_size (ps ! length as))) = Inr (0, m'))"
proof -
  have "\<forall>sz\<in>set (ul_sizes s 0 ps). sz \<le> 8192"
    using assms(2) buf_size_u16 by (auto simp: ul_sizes_def list_all_iff dest!: in_set_takeD)
  from ul_mm.alloc_some_ok[OF assms(1) this]
  obtain as m where r: "ul_mm.alloc_some (ul_sizes s 0 ps) (mm s) = Inr (as, m)" "mm_inv m" "length as \<le> length (ul_sizes s 0 ps)"
    "distinct as" "set as \<inter> dom (live (mm s)) = {}"
    "live m = (live (mm s))(as [\<mapsto>] map block_size (take (length as) (ul_sizes s 0 ps)))"
    "ul_sizes s 0 ps \<noteq> [] \<longrightarrow> as = [] \<longrightarrow> live (mm s) \<noteq> Map.empty"
    "length as < length (ul_sizes s 0 ps) \<longrightarrow> (\<exists>m'. IPC_4GHIF_data_ul_mm_alloc m (ul_sizes s 0 ps ! length as) = Inr (0, m'))"
    by blast
  have "length (ul_queue (shared s)) < 256" by (simp add: ul_queue_def unat_u8_less)
  then have "length as + length (ul_queue (shared s)) \<le> 255" "length as \<le> length ps" using r(3) by (auto simp: ul_sizes_def)
  moreover have "ps \<noteq> [] \<Longrightarrow> length (ul_queue (shared s)) < 255 \<Longrightarrow> ul_sizes s 0 ps \<noteq> []" by (simp add: ul_sizes_def)
  moreover have "length as + length (ul_queue (shared s)) = 255 \<or>
      (\<exists>m'. IPC_4GHIF_data_ul_mm_alloc m (ucast (buf_size (ps ! length as))) = Inr (0, m'))" if "length as < length ps"
    using r(8) that calculation(1) by (auto simp: ul_sizes_def)
  ultimately show ?thesis using r by (intro that[of as m]) simp_all
qed

lemma submit_ul_ok:
  assumes "ul_ready s" "ul_packets_ok ps" "dma_available e" "inds_ok s" "length (fifo_data_ul_msg_table s) = IPC_4GHIF_MAX_NB_UL_FRAMES"
    "ul_mm.alloc_some (ul_sizes s 0 ps) (mm s) = Inr (as, m)" "length as \<le> length ps"
  shows "\<exists>s' t. IPC_4GHIF_submit_ul e (Some ps) s =
      Inr (if length as < length ps then IPC_4GHIF_STATUS_RESOURCES_FULL else IPC_4GHIF_STATUS_OK, of_nat (length as),
        Some (marked (length as) ps), s') \<and>
    ring_step (if as = [] then reserved m True s else submitted ps as t (reserved m (length as < length ps) s))
      (queues (shared s)) s' \<and>
    (as \<noteq> [] \<longrightarrow> (\<exists>m. shared s' = fill_descrs DMA_DESCR_UL_ARRAY 0 (ul_transfers e ps as) m))"
proof -
  let ?n = "length as" and ?f = "length as < length ps"
  obtain s1 where r: "reserve_ul 0 ps s = Inr (?f, as, marked ?n ps, s1)"
    "ring_step (reserved m ?f s) (queues (shared s)) s1"
    using reserve_ul_ok[OF assms(4,6)] by blast
  have st: "strip s1 = strip (reserved m ?f s)" "inds_ok s1" "queues (shared s1) = queues (shared s)"
    using r(2) by (auto simp: ring_step_def)
  have guards: "b_ipc_4ghif_open s" "b_bp_ready s" "b_ap_ready s" "\<not> b_sdma_ul_transfer_on_going s"
    "ps \<noteq> []" "\<not> IPC_4GHIF_MAX_NB_UL_FRAMES < length ps" "list_all ul_packet_ok ps"
    using assms(1,2) by (auto simp: ul_ready_def ul_packets_ok_def)
  have tab: "fifo_data_ul_msg_table s1 = fifo_data_ul_msg_table s"
    using strip_fields[OF st(1)] by (simp add: reserved_def ul_paused_def upd_ghif_stats_def)
  show ?thesis
  proof (cases "as = []")
    case True
    then show ?thesis using guards r by (auto simp: IPC_4GHIF_submit_ul_def)
  next
    case False
    let ?m = "fill_descrs DMA_DESCR_UL_ARRAY 0 (ul_transfers e ps as) (shared s1)"
    define t where "t = (\<lambda>t. t\<lparr>stat_ul_sdma_start := stat_ul_sdma_start t + 1\<rparr>)
      (fold (\<lambda>p. count_ul (buf_size p)) (take ?n (marked ?n ps)) (the_ipc_4ghif_stats s1))"
    have "\<not> length (fifo_data_ul_msg_table s1) < ?n" using assms(5,7) guards(6) tab by simp
    then have "IPC_4GHIF_submit_ul e (Some ps) s =
      Inr (if ?f then IPC_4GHIF_STATUS_RESOURCES_FULL else IPC_4GHIF_STATUS_OK, of_nat ?n, Some (marked ?n ps),
        (submitted ps as t s1)\<lparr>shared := ?m\<rparr>)"
      using guards r(1) False assms(3,7)
      by (simp add: IPC_4GHIF_submit_ul_def Let_def ul_msgs_marked ul_transfers_marked submitted_def t_def upd_ghif_stats_def)
    moreover have "length (ul_transfers e ps as) \<le> 31"
      using assms(7) guards(6) by (simp add: ul_transfers_def IPC_4GHIF_MAX_NB_UL_FRAMES_def)
    note k = descrs_keep[OF this, where base = DMA_DESCR_UL_ARRAY and m = "shared s1", simplified]
    have "inds_ok ((submitted ps as t s1)\<lparr>shared := ?m\<rparr>)"
      using st(2) k(2) by (simp add: inds_ok_def submitted_def shm_layout)
    moreover have "strip ((submitted ps as t s1)\<lparr>shared := ?m\<rparr>) = strip (submitted ps as t (reserved m ?f s))"
      using st(1) by (simp add: strip_submitted)
    ultimately show ?thesis using False st(3) k(1) by (auto simp: ring_step_def)
  qed
qed

end
