(* ===== verification/GhifDl.thy ===== *)
theory GhifDl
  imports GhifUl
begin

text \<open>
  Announcement and transfer of downlink frames, the ends of DMA transfers, and the processing of
  the baseband's messages, as changes of the queues and of the rest of the state.
\<close>

section \<open>Announcement\<close>

definition dl_announced :: "nat \<Rightarrow> 'a ghif_scheme \<Rightarrow> 'a ghif_scheme" where
  "dl_announced k s =
     (if k = 0 then s\<lparr>incoming_dl_packet_nb := 0\<rparr>
      else (collected k s)\<lparr>incoming_dl_packet_nb := k, b_process_dl_msg_on_going := True,
        incoming_dl_packet_nb_for_receive_cb := k,
        frames_info_for_receive_cb := map dl_info (take k (dl_queue (shared s))) @ drop k (frames_info_for_receive_cb s),
        receive_dl_tasklet := True\<rparr>)"

definition dl_tables_ok :: "'a ghif_scheme \<Rightarrow> bool" where
  "dl_tables_ok s \<longleftrightarrow> length (fifo_data_dl_msg_table s) = IPC_4GHIF_MAX_NB_DL_FRAMES \<and>
     length (frames_info s) = IPC_4GHIF_MAX_NB_DL_FRAMES"

lemma collectable_le:
  "collectable m \<le> length (dl_queue m)" "collectable m \<le> IPC_4GHIF_MAX_NB_DL_FRAMES" "collectable m + length (dl_acks m) \<le> 255"
proof -
  have "length (dl_acks m) < 256" by (simp add: dl_acks_def unat_u8_less)
  then show "collectable m \<le> length (dl_queue m)" "collectable m \<le> IPC_4GHIF_MAX_NB_DL_FRAMES"
    "collectable m + length (dl_acks m) \<le> 255"
    by (auto simp: collectable_def)
qed

lemma collected_0 [simp]: "collected 0 s = s"
  by (simp add: collected_def)

lemma process_dl_init:
  assumes "inds_ok s" "\<not> b_process_dl_msg_on_going s" "\<not> b_bp_ready s"
    "\<forall>msg ms. dl_queue (shared s) = msg # ms \<longrightarrow> msg_type msg = eIPC_MSG_TYPE_INIT_REQ"
  shows "\<exists>s'. fifo_4ghif_process_dl_msg s = Inr s' \<and>
    (if dl_queue (shared s) = [] then ring_step s (queues (shared s)) s'
     else ring_step (s\<lparr>b_bp_ready := True, b_process_dl_msg_on_going := True, bp_ready_tasklet := True\<rparr>)
       (ul_queue (shared s), tl (dl_queue (shared s)), ul_acks (shared s), dl_acks (shared s)) s')"
proof -
  obtain s1 where g: "fifo_4ghif_get_msg s 0 = (if 0 < length (dl_queue (shared s)) then Some (dl_queue (shared s) ! 0) else None, s1)"
    "ring_step s (queues (shared s)) s1"
    using get_msg_at[OF assms(1), of 0] by auto
  show ?thesis
  proof (cases "dl_queue (shared s)")
    case Nil
    then show ?thesis using g assms(2,3) by (auto simp: fifo_4ghif_process_dl_msg_def)
  next
    case (Cons msg ms)
    note d = ring_stepD[OF g(2)[unfolded queues_def]]
    let ?s2 = "s1\<lparr>b_bp_ready := True\<rparr>"
    have i: "inds_ok ?s2" using d(1) by (simp add: inds_ok_def)
    have "ring_step ?s2 (ul_queue (shared s), ms, ul_acks (shared s), dl_acks (shared s))
        (fifo_4ghif_increment_read_ind_after_get_msg ?s2 1)"
      using increment_read[OF i, of 1] d Cons by (simp add: drop_Suc)
    then have "ring_step (s\<lparr>b_bp_ready := True, b_process_dl_msg_on_going := True, bp_ready_tasklet := True\<rparr>)
        (ul_queue (shared s), ms, ul_acks (shared s), dl_acks (shared s))
        ((fifo_4ghif_increment_read_ind_after_get_msg ?s2 1)\<lparr>b_process_dl_msg_on_going := True, bp_ready_tasklet := True\<rparr>)"
      using d(6) by (simp add: ring_step_def strip_upd)
    then show ?thesis using g Cons assms(2-4) by (auto simp: fifo_4ghif_process_dl_msg_def)
  qed
qed

lemma process_dl_data:
  assumes "inds_ok s" "\<not> b_process_dl_msg_on_going s" "b_bp_ready s" "\<forall>msg\<in>set (dl_queue (shared s)). dl_msg_ok msg" "dl_tables_ok s"
  shows "\<exists>s'. fifo_4ghif_process_dl_msg s = Inr s' \<and> ring_step (dl_announced (collectable (shared s)) s) (queues (shared s)) s'"
proof -
  let ?k = "collectable (shared s)"
  obtain s1 where g: "fifo_4ghif_get_frame_info s = Inr (FIFO_4GHIF_STATUS_OK, ?k, s1)"
    "ring_step (collected ?k s) (queues (shared s)) s1"
    using get_frame_info_ok[OF assms(1,4)] assms(5) by (auto simp: dl_tables_ok_def)
  have st: "strip s1 = strip (collected ?k s)" "inds_ok s1" "queues (shared s1) = queues (shared s)"
    using g(2) by (auto simp: ring_step_def)
  note f = strip_fields[OF st(1)]
  show ?thesis
  proof (cases "?k = 0")
    case True
    then have "fifo_4ghif_process_dl_msg s = Inr (s1\<lparr>incoming_dl_packet_nb := 0\<rparr>)"
      using assms(2,3) g(1) by (simp add: fifo_4ghif_process_dl_msg_def Let_def)
    then show ?thesis using True st by (auto simp: ring_step_def dl_announced_def strip_upd)
  next
    case False
    let ?s2 = "s1\<lparr>incoming_dl_packet_nb := ?k, b_process_dl_msg_on_going := True, incoming_dl_packet_nb_for_receive_cb := ?k,
        frames_info_for_receive_cb := map dl_info (take ?k (dl_queue (shared s))) @ drop ?k (frames_info_for_receive_cb s),
        receive_dl_tasklet := True\<rparr>"
    have "take ?k (frames_info s1) = map dl_info (take ?k (dl_queue (shared s)))"
      using f(9) collectable_le(1)[of "shared s"] by (simp add: collected_def)
    then have "fifo_4ghif_process_dl_msg s = Inr ?s2"
      using assms(2,3) g(1) False f(10) by (simp add: fifo_4ghif_process_dl_msg_def Let_def collected_def)
    moreover have "strip ?s2 = strip (dl_announced ?k s)"
      using False st(1) by (simp add: dl_announced_def strip_upd)
    ultimately show ?thesis using st by (auto simp: ring_step_def)
  qed
qed

lemma get_dl_frames_ok:
  assumes "inds_ok s" "\<not> b_sdma_dl_transfer_on_going s" "\<forall>msg\<in>set (dl_queue (shared s)). dl_msg_ok msg" "dl_tables_ok s"
  shows "\<exists>s'. IPC_4GHIF_get_dl_frames_nb s =
      Inr (IPC_4GHIF_STATUS_OK, if collectable (shared s) = 0 then None
        else Some (map dl_info (take (collectable (shared s)) (dl_queue (shared s)))), s') \<and>
    ring_step ((collected (collectable (shared s)) s)\<lparr>incoming_dl_packet_nb := collectable (shared s),
      b_process_dl_msg_on_going := b_process_dl_msg_on_going s \<or> collectable (shared s) \<noteq> 0\<rparr>) (queues (shared s)) s'"
proof -
  let ?k = "collectable (shared s)"
  obtain s1 where g: "fifo_4ghif_get_frame_info s = Inr (FIFO_4GHIF_STATUS_OK, ?k, s1)"
    "ring_step (collected ?k s) (queues (shared s)) s1"
    using get_frame_info_ok[OF assms(1,3)] assms(4) by (auto simp: dl_tables_ok_def)
  have st: "strip s1 = strip (collected ?k s)" "inds_ok s1" "queues (shared s1) = queues (shared s)"
    using g(2) by (auto simp: ring_step_def)
  note f = strip_fields[OF st(1)]
  let ?b = "b_process_dl_msg_on_going s \<or> ?k \<noteq> 0"
  have "take ?k (frames_info s1) = map dl_info (take ?k (dl_queue (shared s)))"
    using f(9) collectable_le(1)[of "shared s"] by (simp add: collected_def)
  moreover have "s1\<lparr>incoming_dl_packet_nb := 0\<rparr> =
      s1\<lparr>incoming_dl_packet_nb := 0, b_process_dl_msg_on_going := b_process_dl_msg_on_going s\<rparr>"
    using f(8) by (simp add: collected_def)
  ultimately have "IPC_4GHIF_get_dl_frames_nb s = Inr (IPC_4GHIF_STATUS_OK, if ?k = 0 then None
        else Some (map dl_info (take ?k (dl_queue (shared s)))), s1\<lparr>incoming_dl_packet_nb := ?k, b_process_dl_msg_on_going := ?b\<rparr>)"
    using assms(2) g(1) by (simp add: IPC_4GHIF_get_dl_frames_nb_def Let_def)
  moreover have "strip (s1\<lparr>incoming_dl_packet_nb := ?k, b_process_dl_msg_on_going := ?b\<rparr>) =
      strip ((collected ?k s)\<lparr>incoming_dl_packet_nb := ?k, b_process_dl_msg_on_going := ?b\<rparr>)"
    using st(1) by (simp add: strip_upd)
  ultimately show ?thesis using st by (auto simp: ring_step_def)
qed

section \<open>Submission\<close>

definition dl_ready :: "'a ghif_scheme \<Rightarrow> bool" where
  "dl_ready s \<longleftrightarrow> b_ipc_4ghif_open s \<and> b_bp_ready s \<and> b_ap_ready s \<and> \<not> b_sdma_dl_transfer_on_going s \<and> b_process_dl_msg_on_going s"

definition dl_count :: "sdma_packet list \<Rightarrow> 'a ghif_scheme \<Rightarrow> nat" where
  "dl_count ps s = min (length ps) (incoming_dl_packet_nb s)"

definition dl_packets_ok :: "sdma_packet list \<Rightarrow> 'a ghif_scheme \<Rightarrow> bool" where
  "dl_packets_ok ps s \<longleftrightarrow> ps \<noteq> [] \<and> length ps \<le> IPC_4GHIF_MAX_NB_DL_FRAMES \<and>
     list_all2 dl_buffer_ok (take (dl_count ps s) ps) (take (dl_count ps s) (fifo_data_dl_msg_table s))"

definition dl_filled :: "sdma_packet list \<Rightarrow> 'a ghif_scheme \<Rightarrow> sdma_packet list" where
  "dl_filled ps s = map2 (\<lambda>p (msg, info). dl_fill p msg info) (take (dl_count ps s) ps)
     (zip (take (dl_count ps s) (fifo_data_dl_msg_table s)) (frames_info s)) @ drop (dl_count ps s) ps"

definition dl_submitted :: "sdma_packet list \<Rightarrow> ipc_4ghif_stats \<Rightarrow> 'a ghif_scheme \<Rightarrow> 'a ghif_scheme" where
  "dl_submitted ps t s = s\<lparr>sdma_dl_packet_nb := dl_count ps s, b_sdma_dl_transfer_on_going := True,
     p_sdma_packet_dl := Some (dl_filled ps s), dma_dl := True, the_ipc_4ghif_stats := t\<rparr>"

definition dl_transfers :: "ghif_env \<Rightarrow> sdma_packet list \<Rightarrow> 'a ghif_scheme \<Rightarrow> (u32 \<times> u32 \<times> u32) list" where
  "dl_transfers e ps s = map2 (\<lambda>p msg. (start_address msg, phys_buf e p, buf_size p))
     (take (dl_count ps s) (dl_filled ps s)) (take (dl_count ps s) (fifo_data_dl_msg_table s))"

lemma dl_count_if: "(if length ps < incoming_dl_packet_nb s then length ps else incoming_dl_packet_nb s) = dl_count ps s"
  by (simp add: dl_count_def)

lemma submit_dl_ok:
  assumes "dl_ready s" "dl_packets_ok ps s" "dma_available e" "inds_ok s" "dl_tables_ok s"
    "incoming_dl_packet_nb s \<le> length (dl_queue (shared s))"
  shows "\<exists>s' t. IPC_4GHIF_submit_dl e (Some ps) s =
      Inr (IPC_4GHIF_STATUS_OK, of_nat (dl_count ps s), Some (dl_filled ps s), s') \<and>
    ring_step (dl_submitted ps t s)
      (ul_queue (shared s), drop (dl_count ps s) (dl_queue (shared s)), ul_acks (shared s), dl_acks (shared s)) s' \<and>
    (\<exists>m. shared s' = fill_descrs DMA_DESCR_DL_ARRAY 0 (dl_transfers e ps s) m)"
proof -
  let ?n = "dl_count ps s" and ?ps = "dl_filled ps s"
  have guards: "b_ipc_4ghif_open s" "b_bp_ready s" "b_ap_ready s" "\<not> b_sdma_dl_transfer_on_going s" "b_process_dl_msg_on_going s"
    "ps \<noteq> []" "\<not> IPC_4GHIF_MAX_NB_DL_FRAMES < length ps"
    "list_all2 dl_buffer_ok (take ?n ps) (take ?n (fifo_data_dl_msg_table s))"
    using assms(1,2) by (auto simp: dl_ready_def dl_packets_ok_def)
  have n: "?n \<le> IPC_4GHIF_MAX_NB_DL_FRAMES" "?n \<le> length (fifo_data_dl_msg_table s)" "?n \<le> length (dl_queue (shared s))"
    using guards(7) assms(5,6) by (auto simp: dl_count_def dl_tables_ok_def)
  then have u: "unat (of_nat ?n :: u8) = ?n" by (simp add: unat_of_nat_u8 IPC_4GHIF_MAX_NB_DL_FRAMES_def)
  let ?s2 = "s\<lparr>sdma_dl_packet_nb := ?n, b_sdma_dl_transfer_on_going := True, p_sdma_packet_dl := Some ?ps\<rparr>"
  define s3 where "s3 = fifo_4ghif_increment_read_ind_after_get_msg ?s2 (of_nat ?n)"
  have r: "ring_step ?s2 (ul_queue (shared s), drop ?n (dl_queue (shared s)), ul_acks (shared s), dl_acks (shared s)) s3"
    using increment_read[of ?s2 "of_nat ?n"] assms(4) n(3) u by (simp add: s3_def)
  note d = ring_stepD[OF r]
  let ?m = "fill_descrs DMA_DESCR_DL_ARRAY 0 (dl_transfers e ps s) (shared s3)"
  define t where "t = (\<lambda>t. t\<lparr>stat_dl_sdma_start := stat_dl_sdma_start t + 1\<rparr>)
    (fold (\<lambda>p. count_dl (buf_size p)) (take ?n ?ps) (the_ipc_4ghif_stats s3))"
  have "IPC_4GHIF_submit_dl e (Some ps) s = Inr (IPC_4GHIF_STATUS_OK, of_nat ?n, Some ?ps,
      s3\<lparr>shared := ?m, dma_dl := True, the_ipc_4ghif_stats := t\<rparr>)"
    using guards n(2) assms(3)
    unfolding IPC_4GHIF_submit_dl_def dl_count_if
    by (simp add: Let_def first_msgs_def dl_filled_def[symmetric] dl_transfers_def[symmetric] s3_def t_def upd_ghif_stats_def)
  moreover have "length (dl_transfers e ps s) \<le> 31" using n(1) by (simp add: dl_transfers_def IPC_4GHIF_MAX_NB_DL_FRAMES_def)
  note k = descrs_keep[OF this, where base = DMA_DESCR_DL_ARRAY and m = "shared s3", simplified]
  have "inds_ok (s3\<lparr>shared := ?m, dma_dl := True, the_ipc_4ghif_stats := t\<rparr>)"
    using d(1) k(2) by (simp add: inds_ok_def shm_layout)
  moreover have "strip (s3\<lparr>shared := ?m, dma_dl := True, the_ipc_4ghif_stats := t\<rparr>) = strip (dl_submitted ps t s)"
    using d(6) by (simp add: dl_submitted_def strip_upd strip_submitted(2))
  ultimately show ?thesis using k(1) r by (auto simp: ring_step_def)
qed

text \<open>Every other call returns an error and changes at most the number of packets of the next transfer.\<close>

lemma submit_dl_refused:
  assumes "\<not> (dl_ready s \<and> (\<exists>ps. packet = Some ps \<and> dl_packets_ok ps s))" "dl_tables_ok s"
  shows "\<exists>st k. IPC_4GHIF_submit_dl e packet s = Inr (st, 0, packet, s\<lparr>sdma_dl_packet_nb := k\<rparr>) \<and> st \<noteq> IPC_4GHIF_STATUS_OK \<and>
    (b_sdma_dl_transfer_on_going s \<longrightarrow> k = sdma_dl_packet_nb s)"
proof (cases "dl_ready s \<and> packet \<noteq> None \<and> the packet \<noteq> [] \<and> length (the packet) \<le> IPC_4GHIF_MAX_NB_DL_FRAMES")
  case True
  then obtain ps where ps: "packet = Some ps" "ps \<noteq> []" "length ps \<le> IPC_4GHIF_MAX_NB_DL_FRAMES" by auto
  then have "dl_count ps s \<le> length (fifo_data_dl_msg_table s)"
    "\<not> list_all2 dl_buffer_ok (take (dl_count ps s) ps) (take (dl_count ps s) (fifo_data_dl_msg_table s))"
    using assms True by (auto simp: dl_tables_ok_def dl_count_def dl_packets_ok_def)
  then have "IPC_4GHIF_submit_dl e packet s =
      Inr (IPC_4GHIF_STATUS_INVALID_PARAM, 0, packet, s\<lparr>sdma_dl_packet_nb := dl_count ps s\<rparr>)"
    using True ps
    unfolding IPC_4GHIF_submit_dl_def dl_count_if by (simp add: dl_ready_def Let_def first_msgs_def)
  then show ?thesis using True by (auto simp: dl_ready_def)
next
  case False
  then have "\<exists>st. IPC_4GHIF_submit_dl e packet s = Inr (st, 0, packet, s) \<and> st \<noteq> IPC_4GHIF_STATUS_OK"
    by (auto simp: IPC_4GHIF_submit_dl_def dl_ready_def split: option.splits)
  then obtain st where "IPC_4GHIF_submit_dl e packet s = Inr (st, 0, packet, s)" "st \<noteq> IPC_4GHIF_STATUS_OK" by blast
  then show ?thesis by (intro exI[of _ st] exI[of _ "sdma_dl_packet_nb s"]) simp
qed

lemma submit_ul_refused:
  assumes "\<not> (ul_ready s \<and> (\<exists>ps. packet = Some ps \<and> ul_packets_ok ps))"
  shows "\<exists>st. IPC_4GHIF_submit_ul e packet s = Inr (st, 0, packet, s) \<and> st \<noteq> IPC_4GHIF_STATUS_OK"
  using assms by (auto simp: IPC_4GHIF_submit_ul_def ul_ready_def ul_packets_ok_def split: option.splits)

section \<open>End of transfers\<close>

definition ul_done :: "'a ghif_scheme \<Rightarrow> 'a ghif_scheme" where
  "ul_done s = (upd_ghif_stats (\<lambda>t. t\<lparr>stat_ul_sdma_done := stat_ul_sdma_done t + 1\<rparr>) s)
     \<lparr>dma_ul := False, mbox3 := mbox3 s @ [MAILBOX_DATA_MSG], ul_complete_tasklet := True\<rparr>"

definition dl_done :: "'a ghif_scheme \<Rightarrow> 'a ghif_scheme" where
  "dl_done s = (upd_ghif_stats (\<lambda>t. t\<lparr>stat_dl_ack := stat_dl_ack t + of_nat (sdma_dl_packet_nb s)\<rparr>)
     ((upd_ghif_stats (\<lambda>t. t\<lparr>stat_dl_sdma_done := stat_dl_sdma_done t + 1\<rparr>) s)
       \<lparr>dma_dl := False, mbox3 := mbox3 s @ [MAILBOX_ACK_MSG]\<rparr>))\<lparr>dl_complete_tasklet := True\<rparr>"

lemma ul_callback_ok:
  assumes "inds_ok s" "mbox_available e" "stub_mode s = IPC_4GHIF_BP_LOOPBACK_STUB_DISABLED"
    "sdma_ul_packet_nb s \<le> length (fifo_data_ul_msg_table s)" "length (ul_queue (shared s)) + sdma_ul_packet_nb s \<le> 255"
  shows "\<exists>s'. sdma_4ghif_ul_callback e s = Inr s' \<and>
    ring_step (ul_done s) (ul_queue (shared s) @ take (sdma_ul_packet_nb s) (fifo_data_ul_msg_table s), dl_queue (shared s),
      ul_acks (shared s), dl_acks (shared s)) s'"
proof -
  let ?s1 = "(upd_ghif_stats (\<lambda>t. t\<lparr>stat_ul_sdma_done := stat_ul_sdma_done t + 1\<rparr>) s)\<lparr>dma_ul := False\<rparr>"
  let ?msgs = "take (sdma_ul_packet_nb s) (fifo_data_ul_msg_table s)"
  have e: "shared ?s1 = shared s" "sdma_ul_packet_nb ?s1 = sdma_ul_packet_nb s"
    "fifo_data_ul_msg_table ?s1 = fifo_data_ul_msg_table s" "stub_mode ?s1 = stub_mode s" "mbox3 ?s1 = mbox3 s"
    by (simp_all add: upd_ghif_stats_def)
  obtain s2 where a: "add_ul_msgs ?msgs ?s1 = Inr s2"
    "ring_step ?s1 (ul_queue (shared s) @ ?msgs, dl_queue (shared s), ul_acks (shared s), dl_acks (shared s)) s2"
    using add_ul_msgs_ok[of ?s1 ?msgs] assms(1,4,5) e by auto
  note d = ring_stepD[OF a(2)]
  have "stub_mode s2 = IPC_4GHIF_BP_LOOPBACK_STUB_DISABLED" "mbox3 s2 = mbox3 s"
    using strip_fields(16,25)[OF d(6)] assms(3) e by simp_all
  then have "sdma_4ghif_ul_callback e s = Inr (s2\<lparr>mbox3 := mbox3 s @ [MAILBOX_DATA_MSG], ul_complete_tasklet := True\<rparr>)"
    using a(1) assms(2,4) by (simp add: sdma_4ghif_ul_callback_def first_msgs_def e mailbox_4ghif_send_msg_def Let_def)
  then show ?thesis using a(2) by (auto simp: ring_step_def ul_done_def strip_upd)
qed

lemma dl_callback_ok:
  assumes "inds_ok s" "mbox_available e" "stub_mode s = IPC_4GHIF_BP_LOOPBACK_STUB_DISABLED"
    "sdma_dl_packet_nb s \<le> length (fifo_data_dl_msg_table s)" "length (dl_acks (shared s)) + sdma_dl_packet_nb s \<le> 255"
  shows "\<exists>s'. sdma_4ghif_dl_callback e s = Inr s' \<and>
    ring_step (dl_done s) (ul_queue (shared s), dl_queue (shared s), ul_acks (shared s),
      dl_acks (shared s) @ map start_address (take (sdma_dl_packet_nb s) (fifo_data_dl_msg_table s))) s'"
proof -
  let ?s1 = "(upd_ghif_stats (\<lambda>t. t\<lparr>stat_dl_sdma_done := stat_dl_sdma_done t + 1\<rparr>) s)\<lparr>dma_dl := False\<rparr>"
  let ?msgs = "take (sdma_dl_packet_nb s) (fifo_data_dl_msg_table s)"
  have e: "shared ?s1 = shared s" "sdma_dl_packet_nb ?s1 = sdma_dl_packet_nb s"
    "fifo_data_dl_msg_table ?s1 = fifo_data_dl_msg_table s" "stub_mode ?s1 = stub_mode s" "mbox3 ?s1 = mbox3 s"
    by (simp_all add: upd_ghif_stats_def)
  obtain s2 where a: "add_dl_acks ?msgs ?s1 = Inr s2"
    "ring_step ?s1 (ul_queue (shared s), dl_queue (shared s), ul_acks (shared s), dl_acks (shared s) @ map start_address ?msgs) s2"
    using add_dl_acks_ok[of ?s1 ?msgs] assms(1,4,5) e by auto
  note d = ring_stepD[OF a(2)]
  have f: "stub_mode s2 = IPC_4GHIF_BP_LOOPBACK_STUB_DISABLED" "mbox3 s2 = mbox3 s" "sdma_dl_packet_nb s2 = sdma_dl_packet_nb s"
    using strip_fields(16,25,12)[OF d(6)] assms(3) e by simp_all
  then have "sdma_4ghif_dl_callback e s = Inr ((upd_ghif_stats (\<lambda>t. t\<lparr>stat_dl_ack := stat_dl_ack t + of_nat (sdma_dl_packet_nb s)\<rparr>)
      (s2\<lparr>mbox3 := mbox3 s @ [MAILBOX_ACK_MSG]\<rparr>))\<lparr>dl_complete_tasklet := True\<rparr>)"
    using a(1) assms(2,4) by (simp add: sdma_4ghif_dl_callback_def first_msgs_def e mailbox_4ghif_send_msg_def upd_ghif_stats_def Let_def)
  moreover have "shared (upd_ghif_stats h t) = shared t" for h and t :: "'a ghif_scheme" by (simp add: upd_ghif_stats_def)
  ultimately show ?thesis using a(2) by (auto simp: ring_step_def dl_done_def strip_upd)
qed

end
