(* ===== verification/GhifProto.thy ===== *)
theory GhifProto
  imports GhifDl
begin

text \<open>
  The driver and the baseband together. The events of the driver are the calls of the data driver,
  the interrupt, the ends of DMA transfers and the tasklets, in any order the kernel allows: a
  transfer ends only when one is running, a tasklet runs only when it is scheduled. Two calls are
  outside: opening the interface again after it was closed, and the debug orders 4 and 5, which
  put a loopback in the place of the baseband. The events of
  the baseband are those of a conforming one: it says hello once, sends well-formed frames as far
  as its ring has room, and acknowledges uplink frames it has taken, each once.

  The invariant says where every frame is: uplink frames in the DMA table, in the ring, at the
  baseband or among the acknowledgements, each with a block of memory of its own; downlink frames
  in the ring, in the DMA table or acknowledged. From it follows which calls panic, and when.
\<close>

section \<open>The system\<close>

text \<open>
  \<open>ul_out\<close> and \<open>dl_out\<close> record what was sent in each direction, \<open>ul_in\<close> and \<open>dl_got\<close> what the
  baseband has received; \<open>held\<close> are the addresses of uplink frames it has not acknowledged yet.
\<close>

record system =
  ap :: ghif
  hello :: bool
  ul_in :: "fifo_msg list"
  held :: "u32 list"
  dl_out :: "u32 list"
  dl_got :: "u32 list"
  ul_out :: "fifo_msg list"

datatype ghif_event =
    Submit_ul "sdma_packet list option" | Submit_dl "sdma_packet list option" | Get_dl_frames | Mailbox_irq
  | Ul_dma_done | Dl_dma_done | Bp_ready | Receive_dl | Dl_complete | Ul_complete | Ul_resume
  | Cancel_ul | Cancel_dl | Open ipc_4ghif_callbacks | Close | Debug_order nat

definition enabled :: "ghif_event \<Rightarrow> ghif \<Rightarrow> bool" where
  "enabled ev s = (case ev of
       Submit_ul packet \<Rightarrow> True | Submit_dl packet \<Rightarrow> True | Get_dl_frames \<Rightarrow> True | Mailbox_irq \<Rightarrow> True
     | Ul_dma_done \<Rightarrow> dma_ul s | Dl_dma_done \<Rightarrow> dma_dl s | Bp_ready \<Rightarrow> bp_ready_tasklet s | Receive_dl \<Rightarrow> receive_dl_tasklet s
     | Dl_complete \<Rightarrow> dl_complete_tasklet s | Ul_complete \<Rightarrow> ul_complete_tasklet s | Ul_resume \<Rightarrow> ul_resume_tasklet s
     | Cancel_ul \<Rightarrow> True | Cancel_dl \<Rightarrow> True | Open c \<Rightarrow> b_ipc_4ghif_open s | Close \<Rightarrow> True | Debug_order n \<Rightarrow> n \<notin> {4, 5})"

text \<open>
  The callback of the data driver for a ready baseband answers with \<open>IPC_4GHIF_ready\<close>; its
  callback for a finished downlink transfer makes no call. The other callbacks are the last thing
  their tasklets do, so what they call are events that follow.
\<close>

definition ap_run :: "ghif_env \<Rightarrow> ghif_event \<Rightarrow> ghif \<Rightarrow> ghif res" where
  "ap_run e ev s = (case ev of
       Submit_ul packet \<Rightarrow> rbind (IPC_4GHIF_submit_ul e packet s) (\<lambda>(st, n, ps, s1). Inr s1)
     | Submit_dl packet \<Rightarrow> rbind (IPC_4GHIF_submit_dl e packet s) (\<lambda>(st, n, ps, s1). Inr s1)
     | Get_dl_frames \<Rightarrow> rbind (IPC_4GHIF_get_dl_frames_nb s) (\<lambda>(st, infos, s1). Inr s1)
     | Mailbox_irq \<Rightarrow> mailbox_ISR_4GHIF e s
     | Ul_dma_done \<Rightarrow> sdma_4ghif_ul_callback e s
     | Dl_dma_done \<Rightarrow> sdma_4ghif_dl_callback e s
     | Bp_ready \<Rightarrow> bp_ready_tasklet_function (\<lambda>s. rbind (IPC_4GHIF_ready e s) (\<lambda>(st, s1). Inr s1)) s
     | Receive_dl \<Rightarrow> receive_dl_tasklet_function (\<lambda>nb infos. Inr) s
     | Dl_complete \<Rightarrow> dl_complete_tasklet_function (\<lambda>ps. Inr) s
     | Ul_complete \<Rightarrow> ul_complete_tasklet_function (\<lambda>ps. Inr) s
     | Ul_resume \<Rightarrow> ul_resume_tasklet_function Inr s
     | Cancel_ul \<Rightarrow> rbind (IPC_4GHIF_cancel_ul s) (\<lambda>st. Inr s)
     | Cancel_dl \<Rightarrow> rbind (IPC_4GHIF_cancel_dl s) (\<lambda>st. Inr s)
     | Open c \<Rightarrow> rbind (IPC_4GHIF_open e c s) (\<lambda>(st, s1). Inr s1)
     | Close \<Rightarrow> Inr (snd (IPC_4GHIF_close s))
     | Debug_order n \<Rightarrow> Inr (snd (IPC_4GHIF_debug_order n s)))"

text \<open>
  The calls that panic: asking for the frames in the ring as long as its first message is the
  greeting of the baseband, and cancelling a transfer that is going on.
\<close>

definition panics :: "ghif_event \<Rightarrow> ghif \<Rightarrow> bool" where
  "panics ev s = (case ev of
       Get_dl_frames \<Rightarrow> \<not> b_bp_ready s \<and> dl_queue (shared s) \<noteq> []
     | Cancel_ul \<Rightarrow> b_sdma_ul_transfer_on_going s | Cancel_dl \<Rightarrow> b_sdma_dl_transfer_on_going s | _ \<Rightarrow> False)"

definition ul_data :: "fifo_msg list \<Rightarrow> fifo_msg list" where
  "ul_data q = filter (\<lambda>msg. msg_type msg \<noteq> eIPC_MSG_TYPE_INIT_CNF) q"

definition dl_data :: "fifo_msg list \<Rightarrow> fifo_msg list" where
  "dl_data q = filter (\<lambda>msg. msg_type msg \<noteq> eIPC_MSG_TYPE_INIT_REQ) q"

text \<open>The frames in the DMA tables.\<close>

definition ul_moving :: "'a ghif_scheme \<Rightarrow> fifo_msg list" where
  "ul_moving s = (if dma_ul s then take (sdma_ul_packet_nb s) (fifo_data_ul_msg_table s) else [])"

definition dl_moving :: "'a ghif_scheme \<Rightarrow> fifo_msg list" where
  "dl_moving s = (if dma_dl s then take (sdma_dl_packet_nb s) (fifo_data_dl_msg_table s) else [])"

definition on_ap :: "(shm \<Rightarrow> shm) \<Rightarrow> system \<Rightarrow> system" where
  "on_ap f y = y\<lparr>ap := (ap y)\<lparr>shared := f (shared (ap y))\<rparr>\<rparr>"

text \<open>
  A step: an event of the driver, whose accepted uplink frames are recorded when the transfer
  starts, or an action of the baseband on the shared memory.
\<close>

inductive ghif_step :: "ghif_env \<Rightarrow> system \<Rightarrow> system \<Rightarrow> bool" for e where
  ap_event: "enabled ev (ap y) \<Longrightarrow> ap_run e ev (ap y) = Inr s' \<Longrightarrow>
    ghif_step e y (y\<lparr>ap := s', ul_out := ul_out y @ (if \<not> dma_ul (ap y) \<and> dma_ul s' then ul_moving s' else [])\<rparr>)"
| bp_hello: "\<not> hello y \<Longrightarrow> length (dl_queue (shared (ap y))) < 255 \<Longrightarrow> msg_type msg = eIPC_MSG_TYPE_INIT_REQ \<Longrightarrow>
    ghif_step e y (on_ap (\<lambda>m. (write_msg m (FIFO_DL_BASE + unat (m FIFO_DL_WRITE_IND) * 8) msg)
      (FIFO_DL_WRITE_IND := m FIFO_DL_WRITE_IND + 1)) (y\<lparr>hello := True\<rparr>))"
| bp_send: "hello y \<Longrightarrow> length (dl_queue (shared (ap y))) < 255 \<Longrightarrow> dl_msg_ok msg \<Longrightarrow>
    ghif_step e y (on_ap (\<lambda>m. (write_msg m (FIFO_DL_BASE + unat (m FIFO_DL_WRITE_IND) * 8) msg)
      (FIFO_DL_WRITE_IND := m FIFO_DL_WRITE_IND + 1)) (y\<lparr>dl_out := dl_out y @ [start_address msg]\<rparr>))"
| bp_take: "ul_queue (shared (ap y)) = msg # q \<Longrightarrow>
    ghif_step e y (on_ap (\<lambda>m. m(FIFO_UL_READ_IND := m FIFO_UL_READ_IND + 1))
      (y\<lparr>ul_in := ul_in y @ [msg], held := held y @ map start_address (ul_data [msg])\<rparr>))"
| bp_ack: "a \<in> set (held y) \<Longrightarrow> length (ul_acks (shared (ap y))) < 255 \<Longrightarrow>
    ghif_step e y (on_ap (\<lambda>m. (put32 m (FIFO_ACK_DL_BASE + 4 * unat (m FIFO_ACK_DL_WRITE_IND)) a)
      (FIFO_ACK_DL_WRITE_IND := m FIFO_ACK_DL_WRITE_IND + 1)) (y\<lparr>held := remove1 a (held y)\<rparr>))"
| bp_take_ack: "dl_acks (shared (ap y)) = a # q \<Longrightarrow>
    ghif_step e y (on_ap (\<lambda>m. m(FIFO_ACK_UL_READ_IND := m FIFO_ACK_UL_READ_IND + 1)) (y\<lparr>dl_got := dl_got y @ [a]\<rparr>))"

inductive_cases ghif_stepE: "ghif_step e y y'"

text \<open>The state after boot, and the start: the interface has been opened by the data driver.\<close>

definition ghif_boot :: "shm \<Rightarrow> ghif" where
  "ghif_boot m = \<lparr>shared = m, mm = IPC_4GHIF_data_ul_mm_init, b_ipc_4ghif_open = False, b_bp_ready = False, b_ap_ready = False,
     b_sdma_ul_transfer_on_going = False, b_sdma_dl_transfer_on_going = False, b_ul_pause = False,
     b_process_dl_msg_on_going = False, frames_info = replicate IPC_4GHIF_MAX_NB_DL_FRAMES \<lparr>pi_type = 0, pi_buf_size = 0\<rparr>,
     frames_info_for_receive_cb = replicate IPC_4GHIF_MAX_NB_DL_FRAMES \<lparr>pi_type = 0, pi_buf_size = 0\<rparr>,
     sdma_ul_packet_nb = 0, sdma_dl_packet_nb = 0, incoming_dl_packet_nb = 0, incoming_dl_packet_nb_for_receive_cb = 0,
     p_bp_ready = False, p_receive_dl = False, p_dl_complete = False, p_ul_complete = False, p_ul_resume = False,
     p_sdma_packet_ul = None, p_sdma_packet_dl = None, fifo_dl_read_ind = 0, fifo_ul_write_ind = 0, fifo_dl_write_ind = 0,
     fifo_ul_read_ind = 0,
     fifo_data_dl_msg_table = replicate IPC_4GHIF_MAX_NB_DL_FRAMES \<lparr>msg_type = 0, msg_tag = 0, msg_length = 0, start_address = 0\<rparr>,
     fifo_data_ul_msg_table = replicate IPC_4GHIF_MAX_NB_UL_FRAMES \<lparr>msg_type = 0, msg_tag = 0, msg_length = 0, start_address = 0\<rparr>,
     fifo_ack_dl_read_ind = 0, fifo_ack_ul_write_ind = 0, fifo_ack_dl_write_ind = 0, fifo_ack_ul_read_ind = 0,
     the_ipc_4ghif_stats = zero_ghif_stats, stub_mode = IPC_4GHIF_BP_LOOPBACK_STUB_DISABLED, ack_nb = 0, ack_array = replicate 16 0,
     mbox2 = 0, mbox3 = [], mbox2_enabled = False, dma_ul = False, dma_dl = False, dl_complete_tasklet = False,
     ul_complete_tasklet = False, bp_ready_tasklet = False, receive_dl_tasklet = False, ul_resume_tasklet = False\<rparr>"

definition bp_inds_zero :: "shm \<Rightarrow> bool" where
  "bp_inds_zero m \<longleftrightarrow> m FIFO_DL_READ_IND = 0 \<and> m FIFO_DL_WRITE_IND = 0 \<and> m FIFO_ACK_DL_READ_IND = 0 \<and> m FIFO_ACK_DL_WRITE_IND = 0"

definition env_ok :: "ghif_env \<Rightarrow> bool" where
  "env_ok e \<longleftrightarrow> dma_available e \<and> mbox_available e \<and> mbox_countable e"

inductive ghif_reach :: "ghif_env \<Rightarrow> system \<Rightarrow> bool" for e where
  start: "bp_inds_zero m \<Longrightarrow> IPC_4GHIF_open e c (ghif_boot m) = Inr (IPC_4GHIF_STATUS_OK, s) \<Longrightarrow>
    ghif_reach e \<lparr>ap = s, hello = False, ul_in = [], held = [], dl_out = [], dl_got = [], ul_out = []\<rparr>"
| step: "ghif_reach e y \<Longrightarrow> ghif_step e y y' \<Longrightarrow> ghif_reach e y'"

section \<open>The invariant\<close>

definition ctl_inv :: "ghif \<Rightarrow> bool" where
  "ctl_inv s \<longleftrightarrow> inds_ok s \<and> stub_mode s = IPC_4GHIF_BP_LOOPBACK_STUB_DISABLED \<and> (b_ap_ready s \<longrightarrow> b_bp_ready s) \<and>
     (b_sdma_ul_transfer_on_going s \<longrightarrow> b_ap_ready s) \<and> (dma_ul s \<longrightarrow> b_sdma_ul_transfer_on_going s) \<and>
     (ul_complete_tasklet s \<longrightarrow> \<not> dma_ul s) \<and> (ul_complete_tasklet s \<longrightarrow> b_sdma_ul_transfer_on_going s) \<and>
     (b_sdma_dl_transfer_on_going s \<longrightarrow> b_ap_ready s) \<and> (b_sdma_dl_transfer_on_going s \<longrightarrow> b_process_dl_msg_on_going s) \<and>
     (dma_dl s \<longrightarrow> b_sdma_dl_transfer_on_going s) \<and>
     (dl_complete_tasklet s \<longrightarrow> \<not> dma_dl s) \<and> (dl_complete_tasklet s \<longrightarrow> b_sdma_dl_transfer_on_going s) \<and>
     (bp_ready_tasklet s \<longrightarrow> b_bp_ready s) \<and> (bp_ready_tasklet s \<longrightarrow> \<not> b_ap_ready s)"

definition ul_flight :: "system \<Rightarrow> u32 list" where
  "ul_flight y = map start_address (ul_moving (ap y)) @ map start_address (ul_data (ul_queue (shared (ap y)))) @ held y @
     ul_acks (shared (ap y))"

definition uplink_inv :: "system \<Rightarrow> bool" where
  "uplink_inv y \<longleftrightarrow> (let s = ap y; q = ul_queue (shared s) in
     mm_inv (mm s) \<and> length (fifo_data_ul_msg_table s) = IPC_4GHIF_MAX_NB_UL_FRAMES \<and>
     (dma_ul s \<longrightarrow> sdma_ul_packet_nb s \<le> IPC_4GHIF_MAX_NB_UL_FRAMES) \<and> ul_data (ul_moving s) = ul_moving s \<and>
     length q + length (ul_moving s) \<le> 255 \<and> length q \<le> length (ul_data q) + 1 \<and> (\<not> b_ap_ready s \<longrightarrow> q = []) \<and>
     distinct (ul_flight y) \<and> set (ul_flight y) = dom (live (mm s)) \<and> (b_ul_pause s \<longrightarrow> ul_flight y \<noteq> []) \<and>
     ul_out y = ul_data (ul_in y) @ ul_data q @ ul_moving s)"

definition dl_hello_ok :: "bool \<Rightarrow> bool \<Rightarrow> fifo_msg list \<Rightarrow> bool" where
  "dl_hello_ok h ready q \<longleftrightarrow>
     (if ready then h \<and> (\<forall>msg\<in>set q. dl_msg_ok msg)
      else if h then q \<noteq> [] \<and> msg_type (hd q) = eIPC_MSG_TYPE_INIT_REQ \<and> (\<forall>msg\<in>set (tl q). dl_msg_ok msg)
      else q = [])"

definition dl_base :: "system \<Rightarrow> bool" where
  "dl_base y \<longleftrightarrow> (let s = ap y; q = dl_queue (shared s) in
     dl_tables_ok s \<and> dl_hello_ok (hello y) (b_bp_ready s) q \<and> (\<not> b_bp_ready s \<longrightarrow> incoming_dl_packet_nb s = 0) \<and>
     (dma_dl s \<longrightarrow> sdma_dl_packet_nb s \<le> IPC_4GHIF_MAX_NB_DL_FRAMES) \<and>
     length (dl_acks (shared s)) + length (dl_moving s) \<le> 255 \<and>
     dl_out y = dl_got y @ dl_acks (shared s) @ map start_address (dl_moving s) @ map start_address (dl_data q))"

text \<open>The frames announced to the data driver, as long as it has not started their transfer.\<close>

definition dl_incoming :: "ghif \<Rightarrow> bool" where
  "dl_incoming s \<longleftrightarrow> (let n = incoming_dl_packet_nb s; q = dl_queue (shared s) in
     n \<le> IPC_4GHIF_MAX_NB_DL_FRAMES \<and> n \<le> length q \<and> n + length (dl_acks (shared s)) \<le> 255 \<and>
     take n (fifo_data_dl_msg_table s) = take n q \<and> take n (frames_info s) = map dl_info (take n q))"

definition ghif_inv :: "system \<Rightarrow> bool" where
  "ghif_inv y \<longleftrightarrow> ctl_inv (ap y) \<and> uplink_inv y \<and> dl_base y \<and> (\<not> b_sdma_dl_transfer_on_going (ap y) \<longrightarrow> dl_incoming (ap y))"

definition ul_view :: "ghif \<Rightarrow> _" where
  "ul_view s = (mm s, fifo_data_ul_msg_table s, dma_ul s, sdma_ul_packet_nb s, b_ap_ready s, b_ul_pause s,
     ul_queue (shared s), ul_acks (shared s))"

definition dl_view :: "ghif \<Rightarrow> _" where
  "dl_view s = (fifo_data_dl_msg_table s, frames_info s, b_bp_ready s, incoming_dl_packet_nb s, dma_dl s,
     sdma_dl_packet_nb s, dl_queue (shared s), dl_acks (shared s))"

lemma uplink_inv_cong: "ul_view s' = ul_view (ap y) \<Longrightarrow> uplink_inv (y\<lparr>ap := s'\<rparr>) = uplink_inv y"
  by (simp add: ul_view_def uplink_inv_def ul_flight_def ul_moving_def Let_def)

lemma dl_base_cong: "dl_view s' = dl_view (ap y) \<Longrightarrow> dl_base (y\<lparr>ap := s'\<rparr>) = dl_base y"
  by (simp add: dl_view_def dl_base_def dl_moving_def dl_tables_ok_def Let_def)

lemma dl_incoming_cong: "dl_view s' = dl_view s \<Longrightarrow> dl_incoming s' = dl_incoming s"
  by (simp add: dl_view_def dl_incoming_def Let_def)

lemma uplink_invD:
  assumes "uplink_inv y"
  shows "mm_inv (mm (ap y))" "length (fifo_data_ul_msg_table (ap y)) = IPC_4GHIF_MAX_NB_UL_FRAMES"
    "dma_ul (ap y) \<Longrightarrow> sdma_ul_packet_nb (ap y) \<le> IPC_4GHIF_MAX_NB_UL_FRAMES" "ul_data (ul_moving (ap y)) = ul_moving (ap y)"
    "length (ul_queue (shared (ap y))) + length (ul_moving (ap y)) \<le> 255"
    "length (ul_queue (shared (ap y))) \<le> length (ul_data (ul_queue (shared (ap y)))) + 1"
    "\<not> b_ap_ready (ap y) \<Longrightarrow> ul_queue (shared (ap y)) = []" "distinct (ul_flight y)" "set (ul_flight y) = dom (live (mm (ap y)))"
    "b_ul_pause (ap y) \<Longrightarrow> ul_flight y \<noteq> []"
    "ul_out y = ul_data (ul_in y) @ ul_data (ul_queue (shared (ap y))) @ ul_moving (ap y)"
  using assms by (simp_all add: uplink_inv_def Let_def)

lemma dl_baseD:
  assumes "dl_base y"
  shows "dl_tables_ok (ap y)" "dl_hello_ok (hello y) (b_bp_ready (ap y)) (dl_queue (shared (ap y)))"
    "\<not> b_bp_ready (ap y) \<Longrightarrow> incoming_dl_packet_nb (ap y) = 0"
    "dma_dl (ap y) \<Longrightarrow> sdma_dl_packet_nb (ap y) \<le> IPC_4GHIF_MAX_NB_DL_FRAMES"
    "length (dl_acks (shared (ap y))) + length (dl_moving (ap y)) \<le> 255"
    "dl_out y = dl_got y @ dl_acks (shared (ap y)) @ map start_address (dl_moving (ap y)) @
       map start_address (dl_data (dl_queue (shared (ap y))))"
  using assms by (simp_all add: dl_base_def Let_def)

section \<open>Messages from the baseband\<close>

lemma acks_ok:
  assumes "ctl_inv (ap y)" "uplink_inv y"
  shows "\<exists>s'. fifo_ack_4ghif_process_dl_msg (ap y) = Inr s' \<and> ctl_inv s' \<and> uplink_inv (y\<lparr>ap := s'\<rparr>) \<and> dl_view s' = dl_view (ap y) \<and>
    b_process_dl_msg_on_going s' = b_process_dl_msg_on_going (ap y) \<and>
    b_sdma_dl_transfer_on_going s' = b_sdma_dl_transfer_on_going (ap y) \<and>
    dma_ul s' = dma_ul (ap y) \<and> ul_acks (shared s') = [] \<and> ul_queue (shared s') = ul_queue (shared (ap y)) \<and>
    (resumes (ap y) \<longrightarrow> \<not> b_ul_pause s' \<and> ul_resume_tasklet s')"
proof -
  let ?s = "ap y"
  let ?as = "ul_acks (shared ?s)"
  have i: "inds_ok ?s" using assms(1) by (simp add: ctl_inv_def)
  have "mm_inv (mm ?s)" "distinct ?as" "set ?as \<subseteq> dom (live (mm ?s))"
    using assms(2) by (auto simp: uplink_inv_def ul_flight_def Let_def)
  then obtain m where m: "ul_mm.release_all ?as (mm ?s) = Inr m" "mm_inv m" "live m = live (mm ?s) |` (- set ?as)"
    using ul_mm.release_all_ok by blast
  obtain s' where s': "ack_loop ?s = Some (Inr s')"
    "ring_step (acked ?s m) (ul_queue (shared ?s), dl_queue (shared ?s), [], dl_acks (shared ?s)) s'"
    using ack_loop_ok[OF i m(1)] by blast
  note d = ring_stepD[OF s'(2)]
  note f = strip_fields[OF d(6), unfolded acked_def, simplified]
  have r: "fifo_ack_4ghif_process_dl_msg ?s = Inr s'" using s'(1) by (simp add: fifo_ack_4ghif_process_dl_msg_def)
  have c: "ctl_inv s'" using assms(1) d(1) f by (simp add: ctl_inv_def)
  let ?g = "map start_address (ul_moving ?s) @ map start_address (ul_data (ul_queue (shared ?s))) @ held y"
  note u = uplink_invD[OF assms(2)]
  have mv: "ul_moving s' = ul_moving ?s" using f by (simp add: ul_moving_def)
  have fl: "ul_flight (y\<lparr>ap := s'\<rparr>) = ?g" "ul_flight y = ?g @ ?as" using d mv by (simp_all add: ul_flight_def)
  have g: "distinct ?g" "set ?g = dom (live m)" using u(8,9) m(3) unfolding fl(2) by (auto simp: dom_def restrict_map_def)
  have "?g \<noteq> []" if "b_ul_pause s'"
  proof (cases "?as = []")
    case True
    then show ?thesis using u(10) fl(2) that f(7) by simp
  next
    case False
    then have "255 \<le> length (ul_queue (shared ?s))" using that f(7) by (auto simp: resumes_def)
    then show ?thesis using u(6) by auto
  qed
  then have u': "uplink_inv (y\<lparr>ap := s'\<rparr>)" using u g m(2) d f mv fl(1) by (simp add: uplink_inv_def Let_def)
  show ?thesis using r c u' d f by (simp add: dl_view_def)
qed

lemma process_init_inv:
  assumes "ctl_inv (ap y)" "uplink_inv y" "dl_base y" "\<not> b_process_dl_msg_on_going (ap y)" "\<not> b_bp_ready (ap y)"
  shows "\<exists>s'. fifo_4ghif_process_dl_msg (ap y) = Inr s' \<and> ghif_inv (y\<lparr>ap := s'\<rparr>) \<and> ul_view s' = ul_view (ap y) \<and>
    ul_resume_tasklet s' = ul_resume_tasklet (ap y)"
proof -
  let ?s = "ap y"
  let ?q = "dl_queue (shared ?s)"
  note b = dl_baseD[OF assms(3)] and u = uplink_invD[OF assms(2)]
  have i: "inds_ok ?s" and og: "\<not> b_sdma_dl_transfer_on_going ?s" using assms(1,4) by (auto simp: ctl_inv_def)
  have h: "?q \<noteq> [] \<Longrightarrow> hello y \<and> msg_type (hd ?q) = eIPC_MSG_TYPE_INIT_REQ \<and> (\<forall>msg\<in>set (tl ?q). dl_msg_ok msg)"
    using b(2) assms(5) by (auto simp: dl_hello_ok_def split: if_splits)
  then have hd: "\<forall>msg ms. ?q = msg # ms \<longrightarrow> msg_type msg = eIPC_MSG_TYPE_INIT_REQ" by auto
  obtain s' where s': "fifo_4ghif_process_dl_msg ?s = Inr s'"
    "if ?q = [] then ring_step ?s (queues (shared ?s)) s'
     else ring_step (?s\<lparr>b_bp_ready := True, b_process_dl_msg_on_going := True, bp_ready_tasklet := True\<rparr>)
       (ul_queue (shared ?s), tl ?q, ul_acks (shared ?s), dl_acks (shared ?s)) s'"
    using process_dl_init[OF i assms(4,5) hd] by blast
  show ?thesis
  proof (cases "?q = []")
    case True
    then have "ring_step ?s (ul_queue (shared ?s), ?q, ul_acks (shared ?s), dl_acks (shared ?s)) s'"
      using s'(2) by (simp add: queues_def)
    note d = ring_stepD[OF this]
    note f = strip_fields[OF d(6)]
    have v: "ul_view s' = ul_view ?s" "dl_view s' = dl_view ?s" using d f by (simp_all add: ul_view_def dl_view_def)
    have "dl_incoming s'" using b(3)[OF assms(5)] b(5) f d by (simp add: dl_incoming_def)
    moreover have "ctl_inv s'" using assms(1) d(1) f by (simp add: ctl_inv_def)
    ultimately show ?thesis
      using s'(1) v assms(2,3) f(23) by (simp add: ghif_inv_def uplink_inv_cong dl_base_cong)
  next
    case False
    then have "ring_step (?s\<lparr>b_bp_ready := True, b_process_dl_msg_on_going := True, bp_ready_tasklet := True\<rparr>)
       (ul_queue (shared ?s), tl ?q, ul_acks (shared ?s), dl_acks (shared ?s)) s'" using s'(2) by simp
    note d = ring_stepD[OF this]
    note f = strip_fields[OF d(6), simplified]
    have v: "ul_view s' = ul_view ?s" using d f by (simp add: ul_view_def)
    have inc: "dl_incoming s'" using b(3)[OF assms(5)] b(5) f d by (simp add: dl_incoming_def)
    have c: "ctl_inv s'" using assms(1,5) d(1) f by (auto simp: ctl_inv_def)
    have "dl_data ?q = dl_data (tl ?q)" using h[OF False] False by (cases ?q) (auto simp: dl_data_def)
    moreover have "dl_moving s' = dl_moving ?s" "dl_tables_ok s'" using f b(1) by (simp_all add: dl_moving_def dl_tables_ok_def)
    moreover have "dl_hello_ok (hello y) (b_bp_ready s') (tl ?q)" using h[OF False] f(3) by (simp add: dl_hello_ok_def)
    ultimately have "dl_base (y\<lparr>ap := s'\<rparr>)"
      using b(4-6) d(3,5) f(3,12,18) by (simp add: dl_base_def Let_def)
    then show ?thesis using s'(1) v assms(2) c inc f(23) by (simp add: ghif_inv_def uplink_inv_cong)
  qed
qed

lemma process_data_inv:
  assumes "ctl_inv (ap y)" "uplink_inv y" "dl_base y" "\<not> b_process_dl_msg_on_going (ap y)" "b_bp_ready (ap y)"
  shows "\<exists>s'. fifo_4ghif_process_dl_msg (ap y) = Inr s' \<and> ghif_inv (y\<lparr>ap := s'\<rparr>) \<and> ul_view s' = ul_view (ap y) \<and>
    ul_resume_tasklet s' = ul_resume_tasklet (ap y)"
proof -
  let ?s = "ap y"
  let ?q = "dl_queue (shared ?s)" and ?k = "collectable (shared ?s)"
  note b = dl_baseD[OF assms(3)] and k = collectable_le[of "shared ?s"]
  have i: "inds_ok ?s" and og: "\<not> b_sdma_dl_transfer_on_going ?s" "\<not> dma_dl ?s" using assms(1,4) by (auto simp: ctl_inv_def)
  have h: "hello y" "\<forall>msg\<in>set ?q. dl_msg_ok msg" using b(2) assms(5) by (auto simp: dl_hello_ok_def split: if_splits)
  obtain s' where s': "fifo_4ghif_process_dl_msg ?s = Inr s'"
    "ring_step (dl_announced ?k ?s) (ul_queue (shared ?s), ?q, ul_acks (shared ?s), dl_acks (shared ?s)) s'"
    using process_dl_data[OF i assms(4,5) h(2) b(1)] by (auto simp: queues_def)
  note d = ring_stepD[OF s'(2)]
  note f = strip_fields[OF d(6)]
  have v: "ul_view s' = ul_view ?s" using d f by (simp add: ul_view_def dl_announced_def collected_def)
  have "dl_incoming s'"
    using k f(9,13,14) d(3,5) by (cases "?k = 0") (simp_all add: dl_incoming_def dl_announced_def collected_def Let_def)
  moreover have "ctl_inv s'" using assms(1) d(1) f by (simp add: ctl_inv_def dl_announced_def collected_def)
  moreover have "dl_tables_ok s'" using b(1) k f(9,14) by (simp add: dl_tables_ok_def dl_announced_def collected_def)
  moreover have "dma_dl s' = dma_dl ?s" "b_bp_ready s' = b_bp_ready ?s" using f by (simp_all add: dl_announced_def collected_def)
  moreover have "ul_resume_tasklet s' = ul_resume_tasklet ?s" using f(23) by (simp add: dl_announced_def collected_def)
  ultimately show ?thesis
    using s'(1) v assms(2,5) b h d og by (simp add: ghif_inv_def uplink_inv_cong dl_base_def dl_hello_ok_def dl_moving_def Let_def)
qed

lemma process_inv:
  assumes "ctl_inv (ap y)" "uplink_inv y" "dl_base y"
    "b_process_dl_msg_on_going (ap y) \<Longrightarrow> \<not> b_sdma_dl_transfer_on_going (ap y) \<Longrightarrow> dl_incoming (ap y)"
  shows "\<exists>s'. fifo_4ghif_process_dl_msg (ap y) = Inr s' \<and> ghif_inv (y\<lparr>ap := s'\<rparr>) \<and> ul_view s' = ul_view (ap y) \<and>
    ul_resume_tasklet s' = ul_resume_tasklet (ap y)"
proof (cases "b_process_dl_msg_on_going (ap y)")
  case True
  then have "fifo_4ghif_process_dl_msg (ap y) = Inr (ap y)" by (simp add: fifo_4ghif_process_dl_msg_def)
  then show ?thesis using True assms by (simp add: ghif_inv_def)
next
  case False
  then show ?thesis using process_init_inv process_data_inv assms(1-3) by blast
qed

lemma process_msgs_inv:
  assumes "ctl_inv s" "uplink_inv (y\<lparr>ap := s\<rparr>)" "dl_base (y\<lparr>ap := s\<rparr>)"
    "b_process_dl_msg_on_going s \<Longrightarrow> \<not> b_sdma_dl_transfer_on_going s \<Longrightarrow> dl_incoming s"
  shows "\<exists>s'. process_msgs s = Inr s' \<and> ghif_inv (y\<lparr>ap := s'\<rparr>) \<and> dma_ul s' = dma_ul s \<and>
    (resumes s \<longrightarrow> \<not> b_ul_pause s' \<and> ul_resume_tasklet s')"
proof -
  obtain s1 where s1: "fifo_ack_4ghif_process_dl_msg s = Inr s1" "ctl_inv s1" "uplink_inv (y\<lparr>ap := s1\<rparr>)" "dl_view s1 = dl_view s"
    "b_process_dl_msg_on_going s1 = b_process_dl_msg_on_going s"
    "b_sdma_dl_transfer_on_going s1 = b_sdma_dl_transfer_on_going s" "dma_ul s1 = dma_ul s" "resumes s \<longrightarrow> \<not> b_ul_pause s1 \<and> ul_resume_tasklet s1"
    using acks_ok[of "y\<lparr>ap := s\<rparr>"] assms(1,2) by auto
  have "dl_base (y\<lparr>ap := s1\<rparr>)" using dl_base_cong[of s1 "y\<lparr>ap := s\<rparr>"] s1(4) assms(3) by simp
  moreover have "dl_incoming s1 = dl_incoming s" by (rule dl_incoming_cong[OF s1(4)])
  ultimately obtain s2 where "fifo_4ghif_process_dl_msg s1 = Inr s2" "ghif_inv (y\<lparr>ap := s2\<rparr>)" "ul_view s2 = ul_view s1"
    "ul_resume_tasklet s2 = ul_resume_tasklet s1"
    using process_inv[of "y\<lparr>ap := s1\<rparr>"] s1 assms(4) by auto
  then show ?thesis using s1 by (auto simp: process_msgs_def ul_view_def)
qed

end
