(* ===== verification/GhifSafe.thy ===== *)
theory GhifSafe
  imports GhifProto
begin

text \<open>
  Every event of the driver returns in a state that satisfies the invariant, but for the calls of
  \<open>panics\<close>, and keeps it; so do the actions of the baseband.
\<close>

section \<open>Events of the driver\<close>

definition after :: "system \<Rightarrow> ghif \<Rightarrow> system" where
  "after y s' = y\<lparr>ap := s', ul_out := ul_out y @ (if \<not> dma_ul (ap y) \<and> dma_ul s' then ul_moving s' else [])\<rparr>"

lemma after_idle: "(dma_ul s' \<longrightarrow> dma_ul (ap y)) \<Longrightarrow> after y s' = y\<lparr>ap := s'\<rparr>"
  by (auto simp: after_def)

text \<open>What no transfer changes.\<close>

definition ul_status :: "ghif \<Rightarrow> bool \<times> bool \<times> bool" where
  "ul_status s = (b_ipc_4ghif_open s, b_bp_ready s, b_ap_ready s)"

lemma submit_ul_inv:
  assumes "ghif_inv y" "dma_available e" "ul_ready (ap y)" "ul_packets_ok ps"
  shows "\<exists>st n qs s'. IPC_4GHIF_submit_ul e (Some ps) (ap y) = Inr (st, n, qs, s') \<and> ghif_inv (after y s')"
proof -
  let ?s = "ap y"
  let ?q = "ul_queue (shared ?s)"
  have c: "ctl_inv ?s" and ui: "uplink_inv y" using assms(1) by (auto simp: ghif_inv_def)
  note u = uplink_invD[OF ui]
  have i: "inds_ok ?s" and idle: "\<not> dma_ul ?s" "ul_moving ?s = []" and no: "\<not> b_sdma_ul_transfer_on_going ?s" "b_ap_ready ?s"
    "\<not> ul_complete_tasklet ?s"
    using c assms(3) by (auto simp: ctl_inv_def ul_ready_def ul_moving_def)
  have l: "list_all ul_packet_ok ps" "ps \<noteq> []" using assms(4) by (auto simp: ul_packets_ok_def)
  obtain as m where a: "ul_mm.alloc_some (ul_sizes ?s 0 ps) (mm ?s) = Inr (as, m)" "mm_inv m" "length as \<le> length ps"
    "length as + length ?q \<le> 255" "distinct as" "set as \<inter> dom (live (mm ?s)) = {}"
    "live m = (live (mm ?s))(as [\<mapsto>] map block_size (take (length as) (ul_sizes ?s 0 ps)))"
    "as = [] \<longrightarrow> ps \<noteq> [] \<longrightarrow> length ?q < 255 \<longrightarrow> live (mm ?s) \<noteq> Map.empty"
    using ul_alloc_some[OF u(1) l(1)] by metis
  obtain s' t where r: "IPC_4GHIF_submit_ul e (Some ps) ?s =
      Inr (if length as < length ps then IPC_4GHIF_STATUS_RESOURCES_FULL else IPC_4GHIF_STATUS_OK, of_nat (length as),
        Some (marked (length as) ps), s')"
    "ring_step (if as = [] then reserved m True ?s else submitted ps as t (reserved m (length as < length ps) ?s))
      (?q, dl_queue (shared ?s), ul_acks (shared ?s), dl_acks (shared ?s)) s'"
    using submit_ul_ok[OF assms(3,4,2) i u(2) a(1,3)] unfolding queues_def by blast
  note d = ring_stepD[OF r(2)]
  have "ghif_inv (after y s')"
  proof (cases "as = []")
    case True
    have d6: "strip s' = strip (reserved m True ?s)" using d(6) True by simp
    note f = strip_fields[OF d6, unfolded reserved_def ul_paused_def upd_ghif_stats_def, simplified]
    have idle': "\<not> dma_ul s'" "after y s' = y\<lparr>ap := s'\<rparr>" using f(17) idle by (auto simp: after_idle)
    have fl: "ul_flight (y\<lparr>ap := s'\<rparr>) = ul_flight y" using d f(17) idle by (simp add: ul_flight_def ul_moving_def)
    have "ul_flight y \<noteq> []"
    proof (cases "length ?q < 255")
      case True
      then have "live (mm ?s) \<noteq> Map.empty" using a(8) \<open>as = []\<close> l(2) by blast
      then show ?thesis using u(9) by (metis dom_eq_empty_conv set_empty)
    next
      case False
      then show ?thesis using u(6) by (auto simp: ul_flight_def)
    qed
    then have "uplink_inv (y\<lparr>ap := s'\<rparr>)"
      using u a(2,7) True d(2,4) f(1,4,7,15,17) idle fl idle' by (simp add: uplink_inv_def ul_moving_def Let_def)
    moreover have v: "dl_view s' = dl_view ?s" using d f by (simp add: dl_view_def)
    moreover have "ctl_inv s'" using c d(1) f(3-6,8,16-21) by (auto simp: ctl_inv_def)
    ultimately show ?thesis
      using assms(1) idle'(2) f(6) dl_base_cong[OF v] dl_incoming_cong[OF v] by (simp add: ghif_inv_def)
  next
    case False
    have d6: "strip s' = strip (submitted ps as t (reserved m (length as < length ps) ?s))" using d(6) False by simp
    note f = strip_fields[OF d6, unfolded submitted_def reserved_def ul_paused_def upd_ghif_stats_def, simplified]
    have n: "length as \<le> IPC_4GHIF_MAX_NB_UL_FRAMES" using a(3) assms(4) by (simp add: ul_packets_ok_def)
    have mv: "ul_moving s' = ul_msgs ps as" using f a(3) u(2) by (simp add: ul_moving_def)
    have mmv: "mm s' = m" using f(1) by simp
    let ?y = "y\<lparr>ap := s', ul_out := ul_out y @ ul_msgs ps as\<rparr>"
    have af: "after y s' = ?y" using f(17) idle mv by (simp add: after_def)
    have fl: "ul_flight ?y = as @ ul_flight y"
      using d mv idle a(3) by (simp add: ul_flight_def ul_msgs_addresses)
    have "set (ul_flight ?y) = dom (live m)" "distinct (ul_flight ?y)"
      using fl u(8,9) a by (auto simp: ul_sizes_def)
    moreover have "ul_data (ul_msgs ps as) = ul_msgs ps as"
      using ul_msgs_data by (simp add: ul_data_def filter_id_conv)
    moreover have "length (fifo_data_ul_msg_table s') = IPC_4GHIF_MAX_NB_UL_FRAMES" using f(15) u(2) a(3) n by simp
    moreover have "ul_flight ?y \<noteq> []" using fl False by simp
    ultimately have "uplink_inv ?y"
      using u a(2,3,4) d(2,4) f(4,11) n mv mmv idle no by (simp add: uplink_inv_def Let_def)
    moreover have v: "dl_view s' = dl_view ?s" using d f by (simp add: dl_view_def)
    moreover have "dl_base ?y" using dl_base_cong[OF v] assms(1) by (simp add: ghif_inv_def dl_base_def)
    moreover have "ctl_inv s'" using c d(1) f(3-6,8,16-21) no by (auto simp: ctl_inv_def)
    ultimately show ?thesis
      using assms(1) af f(6) dl_incoming_cong[OF v] by (simp add: ghif_inv_def)
  qed
  with r(1) show ?thesis by blast
qed

lemma ul_done_inv:
  assumes "ghif_inv y" "mbox_available e" "dma_ul (ap y)"
  shows "\<exists>s'. sdma_4ghif_ul_callback e (ap y) = Inr s' \<and> ghif_inv (after y s') \<and> after y s' = y\<lparr>ap := s'\<rparr> \<and>
    ul_queue (shared s') = ul_queue (shared (ap y)) @ ul_moving (ap y) \<and> b_ul_pause s' = b_ul_pause (ap y) \<and>
    ul_status s' = ul_status (ap y) \<and> ul_complete_tasklet s'"
proof -
  let ?s = "ap y"
  let ?q = "ul_queue (shared ?s)"
  have c: "ctl_inv ?s" and ui: "uplink_inv y" using assms(1) by (auto simp: ghif_inv_def)
  note u = uplink_invD[OF ui]
  have i: "inds_ok ?s" "stub_mode ?s = IPC_4GHIF_BP_LOOPBACK_STUB_DISABLED" using c by (auto simp: ctl_inv_def)
  have mv: "ul_moving ?s = take (sdma_ul_packet_nb ?s) (fifo_data_ul_msg_table ?s)" using assms(3) by (simp add: ul_moving_def)
  have n: "sdma_ul_packet_nb ?s \<le> length (fifo_data_ul_msg_table ?s)" "length ?q + sdma_ul_packet_nb ?s \<le> 255"
    using u(2,3,5) assms(3) mv by simp_all
  obtain s' where r: "sdma_4ghif_ul_callback e ?s = Inr s'"
    "ring_step (ul_done ?s) (?q @ ul_moving ?s, dl_queue (shared ?s), ul_acks (shared ?s), dl_acks (shared ?s)) s'"
    using ul_callback_ok[OF i(1) assms(2) i(2) n] mv by auto
  note d = ring_stepD[OF r(2)]
  note f = strip_fields[OF d(6), unfolded ul_done_def upd_ghif_stats_def, simplified]
  have mv': "ul_moving s' = []" using f(17) by (simp add: ul_moving_def)
  have af: "after y s' = y\<lparr>ap := s'\<rparr>" using f(17) by (simp add: after_idle)
  have dat: "ul_data (?q @ ul_moving ?s) = ul_data ?q @ ul_moving ?s" using u(4) by (simp add: ul_data_def)
  have "set (ul_flight (y\<lparr>ap := s'\<rparr>)) = set (ul_flight y)" "distinct (ul_flight (y\<lparr>ap := s'\<rparr>)) = distinct (ul_flight y)"
    "(ul_flight (y\<lparr>ap := s'\<rparr>) = []) = (ul_flight y = [])"
    using d mv' dat by (auto simp: ul_flight_def)
  moreover have "b_ap_ready s'" using c assms(3) f(4) by (auto simp: ctl_inv_def)
  moreover have "ul_data [] = []" by (simp add: ul_data_def)
  ultimately have "uplink_inv (y\<lparr>ap := s'\<rparr>)"
    using u(1,2,5,6,8-11) d(2) f(1,7,15,17) mv' dat by (simp add: uplink_inv_def Let_def)
  moreover have v: "dl_view s' = dl_view ?s" using d f by (simp add: dl_view_def)
  moreover have "ctl_inv s'" using c d(1) f(3-6,8,16-21) assms(3) by (auto simp: ctl_inv_def)
  ultimately show ?thesis
    using r(1) assms(1) af f(2-4,6,7,20) d(2) dl_base_cong[OF v] dl_incoming_cong[OF v] by (simp add: ghif_inv_def ul_status_def)
qed

lemma dl_done_inv:
  assumes "ghif_inv y" "mbox_available e" "dma_dl (ap y)"
  shows "\<exists>s'. sdma_4ghif_dl_callback e (ap y) = Inr s' \<and> ghif_inv (after y s')"
proof -
  let ?s = "ap y"
  have c: "ctl_inv ?s" and ui: "uplink_inv y" and db: "dl_base y" using assms(1) by (auto simp: ghif_inv_def)
  note b = dl_baseD[OF db]
  have i: "inds_ok ?s" "stub_mode ?s = IPC_4GHIF_BP_LOOPBACK_STUB_DISABLED" and og: "b_sdma_dl_transfer_on_going ?s"
    using c assms(3) by (auto simp: ctl_inv_def)
  have mv: "dl_moving ?s = take (sdma_dl_packet_nb ?s) (fifo_data_dl_msg_table ?s)" using assms(3) by (simp add: dl_moving_def)
  have n: "sdma_dl_packet_nb ?s \<le> length (fifo_data_dl_msg_table ?s)" "length (dl_acks (shared ?s)) + sdma_dl_packet_nb ?s \<le> 255"
    using b(1,4,5) assms(3) mv by (simp_all add: dl_tables_ok_def)
  obtain s' where r: "sdma_4ghif_dl_callback e ?s = Inr s'"
    "ring_step (dl_done ?s) (ul_queue (shared ?s), dl_queue (shared ?s), ul_acks (shared ?s),
      dl_acks (shared ?s) @ map start_address (dl_moving ?s)) s'"
    using dl_callback_ok[OF i(1) assms(2) i(2) n] mv by auto
  note d = ring_stepD[OF r(2)]
  note f = strip_fields[OF d(6), unfolded dl_done_def upd_ghif_stats_def, simplified]
  have mv': "dl_moving s' = []" using f(18) by (simp add: dl_moving_def)
  have af: "after y s' = y\<lparr>ap := s'\<rparr>" using f(17) by (simp add: after_idle)
  have v: "ul_view s' = ul_view ?s" using d f by (simp add: ul_view_def)
  have "dl_base (y\<lparr>ap := s'\<rparr>)"
    using b d(3,5) f(3,9,13,14,18) mv mv' by (simp add: dl_base_def dl_tables_ok_def Let_def)
  moreover have "ctl_inv s'" using c d(1) f(3-6,8,16-21) assms(3) by (auto simp: ctl_inv_def)
  ultimately show ?thesis
    using r(1) assms(1) af f(6) og uplink_inv_cong[OF v] ui by (simp add: ghif_inv_def)
qed

lemma submit_dl_inv:
  assumes "ghif_inv y" "dma_available e" "dl_ready (ap y)" "dl_packets_ok ps (ap y)"
  shows "\<exists>st n qs s'. IPC_4GHIF_submit_dl e (Some ps) (ap y) = Inr (st, n, qs, s') \<and> ghif_inv (after y s')"
proof -
  let ?s = "ap y"
  let ?q = "dl_queue (shared ?s)" and ?n = "dl_count ps (ap y)"
  have c: "ctl_inv ?s" and ui: "uplink_inv y" and db: "dl_base y" using assms(1) by (auto simp: ghif_inv_def)
  note b = dl_baseD[OF db]
  have og: "\<not> b_sdma_dl_transfer_on_going ?s" "b_ap_ready ?s" "b_bp_ready ?s" "b_process_dl_msg_on_going ?s"
    using assms(3) by (auto simp: dl_ready_def)
  have idle: "\<not> dma_dl ?s" "\<not> dl_complete_tasklet ?s" "dl_moving ?s = []" "inds_ok ?s"
    using c og(1) by (auto simp: ctl_inv_def dl_moving_def)
  have inc: "incoming_dl_packet_nb ?s \<le> IPC_4GHIF_MAX_NB_DL_FRAMES" "incoming_dl_packet_nb ?s \<le> length ?q"
    "incoming_dl_packet_nb ?s + length (dl_acks (shared ?s)) \<le> 255"
    "take (incoming_dl_packet_nb ?s) (fifo_data_dl_msg_table ?s) = take (incoming_dl_packet_nb ?s) ?q"
    using assms(1) og(1) by (auto simp: ghif_inv_def dl_incoming_def Let_def)
  have n: "?n \<le> incoming_dl_packet_nb ?s" by (simp add: dl_count_def)
  obtain s' t where r: "IPC_4GHIF_submit_dl e (Some ps) ?s = Inr (IPC_4GHIF_STATUS_OK, of_nat ?n, Some (dl_filled ps ?s), s')"
    "ring_step (dl_submitted ps t ?s) (ul_queue (shared ?s), drop ?n ?q, ul_acks (shared ?s), dl_acks (shared ?s)) s'"
    using submit_dl_ok[OF assms(3,4,2) idle(4) b(1) inc(2)] by blast
  note d = ring_stepD[OF r(2)]
  note f = strip_fields[OF d(6), unfolded dl_submitted_def, simplified]
  have tk: "take ?n (fifo_data_dl_msg_table ?s) = take ?n ?q" using arg_cong[OF inc(4), of "take ?n"] n by (simp add: min_absorb1)
  have mv: "dl_moving s' = take ?n ?q" using f(12,14,18) tk by (simp add: dl_moving_def)
  have ok: "\<forall>msg\<in>set ?q. dl_msg_ok msg" "hello y" using b(2) og(3) by (auto simp: dl_hello_ok_def)
  have "msg_type msg \<noteq> eIPC_MSG_TYPE_INIT_REQ" if "msg \<in> set ?q" for msg
    using ok(1) that by (auto simp: dl_msg_ok_def dl_type_ok_def ghif_type_defs)
  then have "dl_data ?q = ?q" "dl_data (drop ?n ?q) = drop ?n ?q"
    by (auto simp: dl_data_def filter_id_conv dest: in_set_dropD)
  then have "dl_out y = dl_got y @ dl_acks (shared ?s) @ map start_address (dl_moving s') @ map start_address (dl_data (drop ?n ?q))"
    using b(6) mv idle(3) append_take_drop_id[of ?n ?q] by (simp add: map_append[symmetric] del: map_append)
  moreover have "dl_tables_ok s'" using b(1) f(9,14) by (simp add: dl_tables_ok_def)
  moreover have "dl_hello_ok (hello y) (b_bp_ready s') (drop ?n ?q)"
    using ok f(3) og(3) by (auto simp: dl_hello_ok_def dest: in_set_dropD)
  moreover have "length (dl_acks (shared ?s)) + length (dl_moving s') \<le> 255" using inc(2,3) n mv by simp
  moreover have "sdma_dl_packet_nb s' \<le> IPC_4GHIF_MAX_NB_DL_FRAMES" using f(12) n inc(1) by simp
  ultimately have "dl_base (y\<lparr>ap := s'\<rparr>)" using d(3,5) f(3,13) og(3) by (simp add: dl_base_def Let_def)
  moreover have v: "ul_view s' = ul_view ?s" using d f by (simp add: ul_view_def)
  moreover have "ctl_inv s'" using c d(1) f(3-6,8,16-21) og idle by (auto simp: ctl_inv_def)
  moreover have "after y s' = y\<lparr>ap := s'\<rparr>" using f(17) by (simp add: after_idle)
  ultimately show ?thesis using r(1) f(6) uplink_inv_cong[OF v] ui by (simp add: ghif_inv_def)
qed

lemma get_dl_inv:
  assumes "ghif_inv y" "b_bp_ready (ap y) \<or> dl_queue (shared (ap y)) = []"
  shows "\<exists>st infos s'. IPC_4GHIF_get_dl_frames_nb (ap y) = Inr (st, infos, s') \<and> ghif_inv (after y s')"
proof (cases "b_sdma_dl_transfer_on_going (ap y)")
  case True
  then show ?thesis using assms(1) by (simp add: IPC_4GHIF_get_dl_frames_nb_def after_idle)
next
  case og: False
  let ?s = "ap y"
  let ?q = "dl_queue (shared ?s)" and ?k = "collectable (shared ?s)"
  have c: "ctl_inv ?s" and ui: "uplink_inv y" and db: "dl_base y" using assms(1) by (auto simp: ghif_inv_def)
  note b = dl_baseD[OF db] and k = collectable_le[of "shared ?s"]
  have i: "inds_ok ?s" "\<not> dma_dl ?s" "\<not> bp_ready_tasklet ?s \<or> \<not> b_ap_ready ?s" using c og by (auto simp: ctl_inv_def)
  have h: "\<forall>msg\<in>set ?q. dl_msg_ok msg" using b(2) assms(2) by (auto simp: dl_hello_ok_def split: if_splits)
  obtain infos s' where r: "IPC_4GHIF_get_dl_frames_nb ?s = Inr (IPC_4GHIF_STATUS_OK, infos, s')"
    "ring_step ((collected ?k ?s)\<lparr>incoming_dl_packet_nb := ?k, b_process_dl_msg_on_going := b_process_dl_msg_on_going ?s \<or> ?k \<noteq> 0\<rparr>)
      (ul_queue (shared ?s), ?q, ul_acks (shared ?s), dl_acks (shared ?s)) s'"
    using get_dl_frames_ok[OF i(1) og h b(1)] unfolding queues_def by blast
  note d = ring_stepD[OF r(2)]
  note f = strip_fields[OF d(6), unfolded collected_def, simplified]
  have v: "ul_view s' = ul_view ?s" using d f by (simp add: ul_view_def)
  have k0: "?k = 0" if "?q = []" using that by (simp add: collectable_def)
  have "dl_incoming s'" using k f(9,13,14) d(3,5) by (simp add: dl_incoming_def Let_def)
  moreover have "dl_tables_ok s'" using b(1) k f(9,14) by (simp add: dl_tables_ok_def)
  then have "dl_base (y\<lparr>ap := s'\<rparr>)"
    using b assms(2) k0 d f(3,13,18) i(2) by (auto simp: dl_base_def dl_moving_def Let_def)
  moreover have "ctl_inv s'" using c d(1) f(3-6,8,16-21) by (auto simp: ctl_inv_def)
  moreover have "after y s' = y\<lparr>ap := s'\<rparr>" using f(17) by (simp add: after_idle)
  ultimately show ?thesis using r(1) uplink_inv_cong[OF v] ui by (auto simp: ghif_inv_def)
qed

text \<open>Before the greeting has been processed it is the first message of the ring, and not one the call accepts.\<close>

lemma get_dl_panics:
  assumes "ghif_inv y" "\<not> b_bp_ready (ap y)" "dl_queue (shared (ap y)) \<noteq> []"
  shows "IPC_4GHIF_get_dl_frames_nb (ap y) = Inl Panic"
proof -
  let ?s = "ap y"
  let ?q = "dl_queue (shared ?s)"
  have og: "inds_ok ?s" "\<not> b_sdma_dl_transfer_on_going ?s" using assms(1,2) by (auto simp: ghif_inv_def ctl_inv_def)
  have "dl_base y" using assms(1) by (simp add: ghif_inv_def)
  then have "msg_type (hd ?q) = eIPC_MSG_TYPE_INIT_REQ" using dl_baseD(2)[of y] assms(2,3) by (auto simp: dl_hello_ok_def split: if_splits)
  then have h: "\<not> dl_type_ok (?q ! 0)" using assms(3) by (simp add: hd_conv_nth dl_type_ok_def ghif_type_defs)
  obtain room where r: "fifo_ack_4ghif_ul_space_left ?s = (room, ?s\<lparr>fifo_ack_ul_read_ind := ucast (shared ?s FIFO_ACK_UL_READ_IND)\<rparr>)"
    using ack_space_left[OF og(1)] by blast
  have "inds_ok (?s\<lparr>fifo_ack_ul_read_ind := ucast (shared ?s FIFO_ACK_UL_READ_IND)\<rparr>)" using og(1) by (simp add: inds_ok_def)
  from get_msg_at[OF this, of 0] obtain s1 where
    "fifo_4ghif_get_msg (?s\<lparr>fifo_ack_ul_read_ind := ucast (shared ?s FIFO_ACK_UL_READ_IND)\<rparr>) 0 = (Some (?q ! 0), s1)"
    using assms(3) by auto
  then have "fifo_4ghif_get_frame_info ?s = Inr (FIFO_4GHIF_STATUS_INVALID_MSG_TYPE, 0, s1)"
    using r h by (simp add: fifo_4ghif_get_frame_info_def IPC_4GHIF_MAX_NB_DL_FRAMES_def numeral_eq_Suc)
  then show ?thesis using og(2) by (simp add: IPC_4GHIF_get_dl_frames_nb_def)
qed

text \<open>Changes of fields that the invariant does not read.\<close>

lemma inv_unread:
  assumes "ghif_inv y" "ctl_inv s'" "ul_view s' = ul_view (ap y)" "dl_view s' = dl_view (ap y)"
    "b_sdma_dl_transfer_on_going s' = b_sdma_dl_transfer_on_going (ap y)"
  shows "ghif_inv (after y s')"
proof -
  have "after y s' = y\<lparr>ap := s'\<rparr>" using assms(3) by (simp add: after_idle ul_view_def)
  then show ?thesis
    using assms uplink_inv_cong[OF assms(3)] dl_base_cong[OF assms(4)] dl_incoming_cong[OF assms(4)] by (simp add: ghif_inv_def)
qed

lemma irq_inv:
  assumes "ghif_inv y" "mbox_countable e"
  shows "\<exists>s'. mailbox_ISR_4GHIF e (ap y) = Inr s' \<and> ghif_inv (after y s') \<and> (resumes (ap y) \<longrightarrow> \<not> b_ul_pause s' \<and> ul_resume_tasklet s')"
proof -
  let ?s1 = "(upd_ghif_stats (\<lambda>t. t\<lparr>stat_irq_nb := stat_irq_nb t + 1\<rparr>) (ap y))\<lparr>mbox2 := 0\<rparr>"
  have v: "ul_view ?s1 = ul_view (ap y)" "dl_view ?s1 = dl_view (ap y)" "resumes ?s1 = resumes (ap y)"
    by (simp_all add: ul_view_def dl_view_def upd_ghif_stats_def resumes_def)
  have "ctl_inv ?s1" using assms(1) by (auto simp: ghif_inv_def ctl_inv_def upd_ghif_stats_def)
  moreover have "uplink_inv (y\<lparr>ap := ?s1\<rparr>)" "dl_base (y\<lparr>ap := ?s1\<rparr>)"
    using assms(1) uplink_inv_cong[OF v(1)] dl_base_cong[OF v(2)] by (simp_all add: ghif_inv_def)
  moreover have "\<not> b_sdma_dl_transfer_on_going ?s1 \<Longrightarrow> dl_incoming ?s1"
    using assms(1) dl_incoming_cong[OF v(2)] by (simp add: ghif_inv_def upd_ghif_stats_def)
  ultimately obtain s' where "process_msgs ?s1 = Inr s'" "ghif_inv (y\<lparr>ap := s'\<rparr>)" "dma_ul s' = dma_ul ?s1"
    "resumes ?s1 \<longrightarrow> \<not> b_ul_pause s' \<and> ul_resume_tasklet s'"
    using process_msgs_inv by blast
  then show ?thesis using v(3) assms(2) by (auto simp: mailbox_ISR_4GHIF_def after_idle upd_ghif_stats_def)
qed

lemma dl_complete_inv:
  assumes "ghif_inv y" "dl_complete_tasklet (ap y)"
  shows "\<exists>s'. dl_complete_tasklet_function (\<lambda>ps. Inr) (ap y) = Inr s' \<and> ghif_inv (after y s')"
proof -
  let ?s1 = "(ap y)\<lparr>dl_complete_tasklet := False, b_sdma_dl_transfer_on_going := False, b_process_dl_msg_on_going := False\<rparr>"
  have v: "ul_view ?s1 = ul_view (ap y)" "dl_view ?s1 = dl_view (ap y)" by (simp_all add: ul_view_def dl_view_def)
  have "ctl_inv ?s1" using assms by (auto simp: ghif_inv_def ctl_inv_def)
  moreover have "uplink_inv (y\<lparr>ap := ?s1\<rparr>)" "dl_base (y\<lparr>ap := ?s1\<rparr>)"
    using assms uplink_inv_cong[OF v(1)] dl_base_cong[OF v(2)] by (simp_all add: ghif_inv_def)
  ultimately obtain s' where "process_msgs ?s1 = Inr s'" "ghif_inv (y\<lparr>ap := s'\<rparr>)" "dma_ul s' = dma_ul ?s1"
    using process_msgs_inv[of ?s1 y] by auto
  then show ?thesis by (auto simp: dl_complete_tasklet_function_def after_idle)
qed

definition init_cnf :: fifo_msg where
  "init_cnf = \<lparr>msg_type = eIPC_MSG_TYPE_INIT_CNF, msg_tag = 0, msg_length = 0, start_address = 0\<rparr>"

lemma ready_inv:
  assumes "ctl_inv s" "uplink_inv (y\<lparr>ap := s\<rparr>)" "dl_base (y\<lparr>ap := s\<rparr>)" "b_bp_ready s" "\<not> b_ap_ready s" "\<not> bp_ready_tasklet s"
  shows "\<exists>st s'. IPC_4GHIF_ready e s = Inr (st, s') \<and> ctl_inv s' \<and> uplink_inv (y\<lparr>ap := s'\<rparr>) \<and> dl_base (y\<lparr>ap := s'\<rparr>) \<and>
    \<not> b_sdma_dl_transfer_on_going s' \<and> dma_ul s' = dma_ul s \<and> \<not> dl_complete_tasklet s'"
proof (cases "b_ipc_4ghif_open s")
  case False
  then show ?thesis using assms by (auto simp: IPC_4GHIF_ready_def ctl_inv_def)
next
  case True
  note u = uplink_invD[OF assms(2), simplified]
  have i: "inds_ok s" "ul_queue (shared s) = []" "\<not> dma_ul s" using assms(1,5) u(7) by (auto simp: ctl_inv_def)
  obtain s1 where a: "fifo_4ghif_add_msg s init_cnf = (IPC_4GHIF_FIFO_STATUS_OK, s1)"
    "ring_step s ([init_cnf], dl_queue (shared s), ul_acks (shared s), dl_acks (shared s)) s1"
    using add_msg_ok[OF i(1), of init_cnf] i(2) by auto
  note d = ring_stepD[OF a(2)]
  note f = strip_fields[OF d(6)]
  let ?s' = "(snd (mailbox_4ghif_send_msg e s1 MAILBOX_READY_MSG))\<lparr>b_ap_ready := True\<rparr>"
  have r: "IPC_4GHIF_ready e s = Inr (IPC_4GHIF_STATUS_OK, ?s')"
    using a(1) True assms(4,5) by (simp add: IPC_4GHIF_ready_def init_cnf_def)
  have c: "ctl_inv ?s'" using assms(1,4-6) d(1) f(3-6,8,16-21) by (auto simp: ctl_inv_def mailbox_4ghif_send_msg_def)
  have e: "ul_data [init_cnf] = []" "ul_data [] = []" by (simp_all add: ul_data_def init_cnf_def)
  have "ul_moving ?s' = []" "ul_moving s = []" using f(17) i(3) by (simp_all add: ul_moving_def mailbox_4ghif_send_msg_def)
  then have "uplink_inv (y\<lparr>ap := ?s'\<rparr>)"
    using u d(2,4) f(1,7,15,17) i(2,3) e by (simp add: uplink_inv_def ul_flight_def mailbox_4ghif_send_msg_def Let_def)
  moreover have v: "dl_view ?s' = dl_view (ap (y\<lparr>ap := s\<rparr>))" using d f by (simp add: dl_view_def mailbox_4ghif_send_msg_def)
  moreover have "\<not> b_sdma_dl_transfer_on_going ?s'" "\<not> dl_complete_tasklet ?s'" "dma_ul ?s' = dma_ul s"
    using assms(1,5) f(6,17,19) by (auto simp: ctl_inv_def mailbox_4ghif_send_msg_def)
  ultimately show ?thesis using r c dl_base_cong[OF v] assms(3) by auto
qed

lemma bp_ready_inv:
  assumes "ghif_inv y" "bp_ready_tasklet (ap y)"
  shows "\<exists>s'. bp_ready_tasklet_function (\<lambda>s. rbind (IPC_4GHIF_ready e s) (\<lambda>(st, s1). Inr s1)) (ap y) = Inr s' \<and>
    ghif_inv (after y s')"
proof -
  let ?s1 = "(ap y)\<lparr>bp_ready_tasklet := False\<rparr>"
  have v: "ul_view ?s1 = ul_view (ap y)" "dl_view ?s1 = dl_view (ap y)" by (simp_all add: ul_view_def dl_view_def)
  have b: "b_bp_ready ?s1" "\<not> b_ap_ready ?s1" "\<not> bp_ready_tasklet ?s1" using assms by (auto simp: ghif_inv_def ctl_inv_def)
  have i: "ctl_inv ?s1" "uplink_inv (y\<lparr>ap := ?s1\<rparr>)" "dl_base (y\<lparr>ap := ?s1\<rparr>)"
    using assms uplink_inv_cong[OF v(1)] dl_base_cong[OF v(2)] by (auto simp: ghif_inv_def ctl_inv_def)
  have "\<exists>s2. (if p_bp_ready ?s1 then rbind (IPC_4GHIF_ready e ?s1) (\<lambda>(st, s1). Inr s1) else Inr ?s1) = Inr s2 \<and>
    ctl_inv s2 \<and> uplink_inv (y\<lparr>ap := s2\<rparr>) \<and> dl_base (y\<lparr>ap := s2\<rparr>) \<and> \<not> b_sdma_dl_transfer_on_going s2 \<and> dma_ul s2 = dma_ul ?s1"
  proof (cases "p_bp_ready ?s1")
    case True
    then show ?thesis using ready_inv[OF i b, of e] by (auto simp del: ghif.simps)
  next
    case False
    moreover have "\<not> b_sdma_dl_transfer_on_going ?s1" using i(1) b(2) by (auto simp: ctl_inv_def)
    ultimately show ?thesis using i by (intro exI[of _ ?s1]) (simp del: ghif.simps)
  qed
  then obtain s2 where s2: "(if p_bp_ready ?s1 then rbind (IPC_4GHIF_ready e ?s1) (\<lambda>(st, s1). Inr s1) else Inr ?s1) = Inr s2"
    "ctl_inv s2" "uplink_inv (y\<lparr>ap := s2\<rparr>)" "dl_base (y\<lparr>ap := s2\<rparr>)" "\<not> b_sdma_dl_transfer_on_going s2" "dma_ul s2 = dma_ul ?s1" by blast
  let ?s3 = "s2\<lparr>b_process_dl_msg_on_going := False\<rparr>"
  have w: "ul_view ?s3 = ul_view (ap (y\<lparr>ap := s2\<rparr>))" "dl_view ?s3 = dl_view (ap (y\<lparr>ap := s2\<rparr>))" by (simp_all add: ul_view_def dl_view_def)
  have "ctl_inv ?s3" using s2(2,5) by (auto simp: ctl_inv_def)
  moreover have "uplink_inv (y\<lparr>ap := ?s3\<rparr>)" "dl_base (y\<lparr>ap := ?s3\<rparr>)"
    using s2(3,4) uplink_inv_cong[OF w(1)] dl_base_cong[OF w(2)] by simp_all
  ultimately obtain s' where s': "process_msgs ?s3 = Inr s'" "ghif_inv (y\<lparr>ap := s'\<rparr>)" "dma_ul s' = dma_ul ?s3"
    using process_msgs_inv[of ?s3 y] by auto
  have "after y s' = y\<lparr>ap := s'\<rparr>" using s'(3) s2(6) by (simp add: after_idle)
  then show ?thesis unfolding bp_ready_tasklet_function_def Let_def s2(1) using s'(1,2) by simp
qed

end
