(* ===== verification/GhifReach.thy ===== *)
theory GhifReach
  imports GhifSafe
begin

text \<open>
  The invariant in every reachable state, and what it gives: exactly which calls panic, no loss, duplication or
  reordering of frames in either direction, and that an acknowledgement resumes a paused uplink.
\<close>

section \<open>Steps\<close>

lemma ap_event_inv:
  assumes "ghif_inv y" "env_ok e" "enabled ev (ap y)"
  shows "if panics ev (ap y) then ap_run e ev (ap y) = Inl Panic else \<exists>s'. ap_run e ev (ap y) = Inr s' \<and> ghif_inv (after y s')"
proof -
  have c: "ctl_inv (ap y)" using assms(1) by (simp add: ghif_inv_def)
  have e: "dma_available e" "mbox_available e" "mbox_countable e" using assms(2) by (simp_all add: env_ok_def)
  show ?thesis
  proof (cases ev)
    case (Submit_ul packet)
    show ?thesis
    proof (cases "ul_ready (ap y) \<and> (\<exists>ps. packet = Some ps \<and> ul_packets_ok ps)")
      case True
      then show ?thesis using submit_ul_inv[OF assms(1) e(1)] Submit_ul by (fastforce simp: ap_run_def panics_def)
    next
      case False
      from submit_ul_refused[OF False, of e] show ?thesis
        using Submit_ul assms(1) by (auto simp: ap_run_def panics_def after_idle)
    qed
  next
    case (Submit_dl packet)
    show ?thesis
    proof (cases "dl_ready (ap y) \<and> (\<exists>ps. packet = Some ps \<and> dl_packets_ok ps (ap y))")
      case True
      then show ?thesis using submit_dl_inv[OF assms(1) e(1)] Submit_dl by (fastforce simp: ap_run_def panics_def)
    next
      case False
      have "dl_tables_ok (ap y)" using assms(1) by (auto simp: ghif_inv_def dest: dl_baseD)
      from submit_dl_refused[OF False this, of e] obtain st k where
        r: "IPC_4GHIF_submit_dl e packet (ap y) = Inr (st, 0, packet, (ap y)\<lparr>sdma_dl_packet_nb := k\<rparr>)"
        "b_sdma_dl_transfer_on_going (ap y) \<longrightarrow> k = sdma_dl_packet_nb (ap y)" by blast
      let ?s' = "(ap y)\<lparr>sdma_dl_packet_nb := k\<rparr>"
      have "dma_dl (ap y) \<longrightarrow> k = sdma_dl_packet_nb (ap y)" using c r(2) by (auto simp: ctl_inv_def)
      then have "dl_base (y\<lparr>ap := ?s'\<rparr>)"
        using assms(1) by (auto simp: ghif_inv_def dl_base_def dl_moving_def dl_tables_ok_def Let_def)
      moreover have "ul_view ?s' = ul_view (ap y)" by (simp add: ul_view_def)
      then have "uplink_inv (y\<lparr>ap := ?s'\<rparr>)" using assms(1) uplink_inv_cong by (simp add: ghif_inv_def)
      moreover have "ctl_inv ?s'" using c by (simp add: ctl_inv_def)
      ultimately have "ghif_inv (y\<lparr>ap := ?s'\<rparr>)" using assms(1) by (simp add: ghif_inv_def dl_incoming_def)
      then show ?thesis using Submit_dl r(1) by (simp add: ap_run_def panics_def after_idle)
    qed
  next
    case Get_dl_frames
    then show ?thesis
      using get_dl_inv[OF assms(1)] get_dl_panics[OF assms(1)]
      by (cases "b_bp_ready (ap y) \<or> dl_queue (shared (ap y)) = []") (fastforce simp: ap_run_def panics_def)+
  next
    case Mailbox_irq
    then show ?thesis using irq_inv[OF assms(1) e(3)] by (auto simp: ap_run_def panics_def)
  next
    case Ul_dma_done
    then show ?thesis using ul_done_inv[OF assms(1) e(2)] assms(3) by (auto simp: ap_run_def panics_def enabled_def)
  next
    case Dl_dma_done
    then show ?thesis using dl_done_inv[OF assms(1) e(2)] assms(3) by (simp add: ap_run_def panics_def enabled_def)
  next
    case Bp_ready
    then show ?thesis using bp_ready_inv[OF assms(1)] assms(3) by (simp add: ap_run_def panics_def enabled_def)
  next
    case Dl_complete
    then show ?thesis using dl_complete_inv[OF assms(1)] assms(3) by (simp add: ap_run_def panics_def enabled_def)
  next
    case Receive_dl
    let ?s' = "upd_ghif_stats (\<lambda>t. t\<lparr>stat_dl_notify := stat_dl_notify t + 1\<rparr>) ((ap y)\<lparr>receive_dl_tasklet := False\<rparr>)"
    have "ghif_inv (after y ?s')"
      using c by (intro inv_unread[OF assms(1)]) (simp_all add: ctl_inv_def ul_view_def dl_view_def upd_ghif_stats_def)
    then show ?thesis using Receive_dl by (simp add: ap_run_def panics_def receive_dl_tasklet_function_def)
  next
    case Ul_complete
    let ?s' = "(ap y)\<lparr>ul_complete_tasklet := False, b_sdma_ul_transfer_on_going := False\<rparr>"
    have "ctl_inv ?s'" using c Ul_complete assms(3) by (auto simp: ctl_inv_def enabled_def)
    then have "ghif_inv (after y ?s')" by (intro inv_unread[OF assms(1)]) (simp_all add: ul_view_def dl_view_def)
    then show ?thesis using Ul_complete by (simp add: ap_run_def panics_def ul_complete_tasklet_function_def)
  next
    case Ul_resume
    let ?s' = "upd_ghif_stats (\<lambda>t. t\<lparr>stat_ul_resume_full := stat_ul_resume_full t + 1\<rparr>) ((ap y)\<lparr>ul_resume_tasklet := False\<rparr>)"
    have "ghif_inv (after y ?s')"
      using c by (intro inv_unread[OF assms(1)]) (simp_all add: ctl_inv_def ul_view_def dl_view_def upd_ghif_stats_def)
    then show ?thesis using Ul_resume by (simp add: ap_run_def panics_def ul_resume_tasklet_function_def)
  next
    case Cancel_ul
    then show ?thesis using assms(1) by (simp add: ap_run_def panics_def IPC_4GHIF_cancel_ul_def after_idle)
  next
    case Cancel_dl
    then show ?thesis using assms(1) by (simp add: ap_run_def panics_def IPC_4GHIF_cancel_dl_def after_idle)
  next
    case (Open c)
    then show ?thesis using assms(1,3) by (simp add: ap_run_def panics_def enabled_def IPC_4GHIF_open_def after_idle)
  next
    case Close
    have "ghif_inv (after y (snd (IPC_4GHIF_close (ap y))))"
      using c by (intro inv_unread[OF assms(1)]) (simp_all add: IPC_4GHIF_close_def ctl_inv_def inds_ok_def ul_view_def dl_view_def)
    then show ?thesis using Close by (simp add: ap_run_def panics_def)
  next
    case (Debug_order n)
    have "ghif_inv (after y (snd (IPC_4GHIF_debug_order n (ap y))))"
      using c assms(3) Debug_order
      by (intro inv_unread[OF assms(1)]) (simp_all add: enabled_def IPC_4GHIF_debug_order_def ctl_inv_def inds_ok_def ul_view_def dl_view_def)
    then show ?thesis using Debug_order by (simp add: ap_run_def panics_def)
  qed
qed

text \<open>The baseband leaves the indices of the driver alone.\<close>

lemma ctl_inv_shared:
  assumes "ctl_inv s" "\<And>x. x \<in> {FIFO_UL_WRITE_IND, FIFO_DL_READ_IND, FIFO_ACK_UL_WRITE_IND, FIFO_ACK_DL_READ_IND} \<Longrightarrow> m x = shared s x"
  shows "ctl_inv (s\<lparr>shared := m\<rparr>)"
  using assms by (simp add: ctl_inv_def inds_ok_def)

lemma bp_frames:
  "dl_base (y\<lparr>ul_in := a\<rparr>) = dl_base y" "dl_base (y\<lparr>held := b\<rparr>) = dl_base y"
  "uplink_inv (y\<lparr>hello := h\<rparr>) = uplink_inv y" "uplink_inv (y\<lparr>dl_out := c\<rparr>) = uplink_inv y" "uplink_inv (y\<lparr>dl_got := d\<rparr>) = uplink_inv y"
  by (simp_all add: dl_base_def uplink_inv_def ul_flight_def)

lemma bp_take_inv:
  assumes "ghif_inv y" "ul_queue (shared (ap y)) = msg # q"
  shows "ghif_inv (on_ap (\<lambda>m. m(FIFO_UL_READ_IND := m FIFO_UL_READ_IND + 1))
      (y\<lparr>ul_in := ul_in y @ [msg], held := held y @ map start_address (ul_data [msg])\<rparr>))"
proof -
  let ?m = "(shared (ap y))(FIFO_UL_READ_IND := shared (ap y) FIFO_UL_READ_IND + 1)"
  let ?s = "(ap y)\<lparr>shared := ?m\<rparr>"
  let ?z = "y\<lparr>ul_in := ul_in y @ [msg], held := held y @ map start_address (ul_data [msg])\<rparr>"
  let ?y = "?z\<lparr>ap := ?s\<rparr>"
  have q: "ul_queue ?m = q" "dl_queue ?m = dl_queue (shared (ap y))" "ul_acks ?m = ul_acks (shared (ap y))"
    "dl_acks ?m = dl_acks (shared (ap y))"
    using advance_read(1)[of 1 "shared (ap y)"] assms(2) by (simp_all add: queues_split)
  have "uplink_inv y" using assms(1) by (simp add: ghif_inv_def)
  note u = uplink_invD[OF this]
  have dat: "ul_data (msg # q) = ul_data [msg] @ ul_data q" "length (ul_data [msg]) \<le> 1" by (simp_all add: ul_data_def)
  have mv: "ul_moving ?s = ul_moving (ap y)" by (simp add: ul_moving_def)
  have fl: "set (ul_flight ?y) = set (ul_flight y)" "distinct (ul_flight ?y) = distinct (ul_flight y)"
    "(ul_flight ?y = []) = (ul_flight y = [])"
    using q assms(2) dat(1) mv by (auto simp: ul_flight_def)
  have "ul_data (ul_in y @ [msg]) = ul_data (ul_in y) @ ul_data [msg]" by (simp add: ul_data_def)
  moreover have "b_ap_ready (ap y)" using u(7) assms(2) by auto
  moreover have "length q \<le> length (ul_data q) + 1" using u(6) assms(2) dat by simp
  ultimately have "uplink_inv ?y" using u(1-5,8-11) fl mv q assms(2) dat by (simp add: uplink_inv_def Let_def)
  moreover have v: "dl_view ?s = dl_view (ap y)" using q by (simp add: dl_view_def)
  have "dl_base ?y = dl_base ?z" by (rule dl_base_cong) (use v in simp)
  then have "dl_base ?y" using assms(1) by (simp add: bp_frames ghif_inv_def)
  moreover have "dl_incoming ?s = dl_incoming (ap y)" by (rule dl_incoming_cong[OF v])
  moreover have "ctl_inv ?s" using assms(1) by (intro ctl_inv_shared) (auto simp: ghif_inv_def shm_layout)
  ultimately show ?thesis
    using assms(1) by (simp add: ghif_inv_def on_ap_def)
qed

lemma bp_ack_inv:
  assumes "ghif_inv y" "a \<in> set (held y)" "length (ul_acks (shared (ap y))) < 255"
  shows "ghif_inv (on_ap (\<lambda>m. (put32 m (FIFO_ACK_DL_BASE + 4 * unat (m FIFO_ACK_DL_WRITE_IND)) a)
      (FIFO_ACK_DL_WRITE_IND := m FIFO_ACK_DL_WRITE_IND + 1)) (y\<lparr>held := remove1 a (held y)\<rparr>))"
proof -
  let ?w = "shared (ap y) FIFO_ACK_DL_WRITE_IND"
  let ?m = "(put32 (shared (ap y)) (FIFO_ACK_DL_BASE + 4 * unat ?w) a)(FIFO_ACK_DL_WRITE_IND := ?w + 1)"
  let ?s = "(ap y)\<lparr>shared := ?m\<rparr>"
  let ?z = "y\<lparr>held := remove1 a (held y)\<rparr>"
  let ?y = "?z\<lparr>ap := ?s\<rparr>"
  have q: "ul_queue ?m = ul_queue (shared (ap y))" "dl_queue ?m = dl_queue (shared (ap y))"
    "ul_acks ?m = ul_acks (shared (ap y)) @ [a]" "dl_acks ?m = dl_acks (shared (ap y))"
    using append_ul_ack[OF assms(3), of a] by (simp_all add: queues_split)
  have "uplink_inv y" using assms(1) by (simp add: ghif_inv_def)
  note u = uplink_invD[OF this]
  have mv: "ul_moving ?s = ul_moving (ap y)" by (simp add: ul_moving_def)
  have "distinct (held y)" using u(8) by (simp add: ul_flight_def)
  then have fl: "set (ul_flight ?y) = set (ul_flight y)" "distinct (ul_flight ?y)" "ul_flight ?y \<noteq> []"
    using q assms(2) mv u(8) by (auto simp: ul_flight_def)
  then have "uplink_inv ?y" using u mv q by (simp add: uplink_inv_def Let_def)
  moreover have v: "dl_view ?s = dl_view (ap y)" using q by (simp add: dl_view_def)
  have "dl_base ?y = dl_base ?z" by (rule dl_base_cong) (use v in simp)
  then have "dl_base ?y" using assms(1) by (simp add: bp_frames ghif_inv_def)
  moreover have "dl_incoming ?s = dl_incoming (ap y)" by (rule dl_incoming_cong[OF v])
  moreover have "?m x = shared (ap y) x" if "x \<in> {FIFO_UL_WRITE_IND, FIFO_DL_READ_IND, FIFO_ACK_UL_WRITE_IND, FIFO_ACK_DL_READ_IND}" for x
    using that write_ack_slot(1)[of FIFO_ACK_DL_BASE FIFO_ACK_UL_BASE x "shared (ap y)" ?w a] by (auto simp: shm_layout)
  then have "ctl_inv ?s" using assms(1) by (intro ctl_inv_shared) (simp_all add: ghif_inv_def)
  ultimately show ?thesis
    using assms(1) by (simp add: ghif_inv_def on_ap_def)
qed

lemma bp_take_ack_inv:
  assumes "ghif_inv y" "dl_acks (shared (ap y)) = a # q"
  shows "ghif_inv (on_ap (\<lambda>m. m(FIFO_ACK_UL_READ_IND := m FIFO_ACK_UL_READ_IND + 1)) (y\<lparr>dl_got := dl_got y @ [a]\<rparr>))"
proof -
  let ?m = "(shared (ap y))(FIFO_ACK_UL_READ_IND := shared (ap y) FIFO_ACK_UL_READ_IND + 1)"
  let ?s = "(ap y)\<lparr>shared := ?m\<rparr>"
  have q: "ul_queue ?m = ul_queue (shared (ap y))" "dl_queue ?m = dl_queue (shared (ap y))"
    "ul_acks ?m = ul_acks (shared (ap y))" "dl_acks ?m = q"
    using advance_read(4)[of 1 "shared (ap y)"] assms(2) by (simp_all add: queues_split)
  have "uplink_inv (y\<lparr>dl_got := dl_got y @ [a], ap := ?s\<rparr>) = uplink_inv (y\<lparr>dl_got := dl_got y @ [a]\<rparr>)"
    by (rule uplink_inv_cong) (use q in \<open>simp add: ul_view_def\<close>)
  then have "uplink_inv (y\<lparr>dl_got := dl_got y @ [a], ap := ?s\<rparr>)" using assms(1) by (simp add: ghif_inv_def bp_frames)
  moreover have "dl_moving ?s = dl_moving (ap y)" "dl_tables_ok ?s = dl_tables_ok (ap y)"
    by (simp_all add: dl_moving_def dl_tables_ok_def)
  then have "dl_base (y\<lparr>dl_got := dl_got y @ [a], ap := ?s\<rparr>)"
    using assms q by (simp add: ghif_inv_def dl_base_def Let_def)
  moreover have "dl_incoming (ap y) \<longrightarrow> dl_incoming ?s" using q assms(2) by (simp add: dl_incoming_def Let_def)
  moreover have "ctl_inv ?s" using assms(1) by (intro ctl_inv_shared) (auto simp: ghif_inv_def shm_layout)
  ultimately show ?thesis using assms(1) by (simp add: ghif_inv_def on_ap_def)
qed

text \<open>Both messages of the baseband are appended to the downlink ring.\<close>

lemma bp_dl_inv:
  assumes "ghif_inv y" "length (dl_queue (shared (ap y))) < 255"
    "dl_hello_ok h (b_bp_ready (ap y)) (dl_queue (shared (ap y)) @ [msg])" "out = map start_address (dl_data [msg])"
  shows "ghif_inv (on_ap (\<lambda>m. (write_msg m (FIFO_DL_BASE + unat (m FIFO_DL_WRITE_IND) * 8) msg)
      (FIFO_DL_WRITE_IND := m FIFO_DL_WRITE_IND + 1)) (y\<lparr>hello := h, dl_out := dl_out y @ out\<rparr>))"
proof -
  let ?w = "shared (ap y) FIFO_DL_WRITE_IND" and ?q = "dl_queue (shared (ap y))"
  let ?m = "(write_msg (shared (ap y)) (FIFO_DL_BASE + unat ?w * 8) msg)(FIFO_DL_WRITE_IND := ?w + 1)"
  let ?s = "(ap y)\<lparr>shared := ?m\<rparr>"
  let ?z = "y\<lparr>hello := h, dl_out := dl_out y @ out\<rparr>"
  let ?y = "?z\<lparr>ap := ?s\<rparr>"
  have q: "ul_queue ?m = ul_queue (shared (ap y))" "dl_queue ?m = ?q @ [msg]" "ul_acks ?m = ul_acks (shared (ap y))"
    "dl_acks ?m = dl_acks (shared (ap y))"
    using append_dl[OF assms(2), of msg] by (simp_all add: queues_split)
  have "uplink_inv ?y = uplink_inv ?z" by (rule uplink_inv_cong) (use q in \<open>simp add: ul_view_def\<close>)
  then have "uplink_inv ?y" using assms(1) by (simp add: ghif_inv_def bp_frames)
  moreover have "dl_moving ?s = dl_moving (ap y)" "dl_tables_ok ?s = dl_tables_ok (ap y)"
    by (simp_all add: dl_moving_def dl_tables_ok_def)
  moreover have "dl_data (?q @ [msg]) = dl_data ?q @ dl_data [msg]" by (simp add: dl_data_def)
  ultimately have "uplink_inv ?y" "dl_base ?y"
    using assms q by (simp_all add: ghif_inv_def dl_base_def Let_def)
  moreover have "dl_incoming (ap y) \<longrightarrow> dl_incoming ?s" using q by (simp add: dl_incoming_def Let_def)
  moreover have "?m x = shared (ap y) x" if "x \<in> {FIFO_UL_WRITE_IND, FIFO_DL_READ_IND, FIFO_ACK_UL_WRITE_IND, FIFO_ACK_DL_READ_IND}" for x
    using that write_dl_slot(1)[of x "shared (ap y)" ?w msg] by (auto simp: shm_layout)
  then have "ctl_inv ?s" using assms(1) by (intro ctl_inv_shared) (simp_all add: ghif_inv_def)
  ultimately show ?thesis using assms(1) by (simp add: ghif_inv_def on_ap_def)
qed

lemma dl_hello_send: "dl_hello_ok True r q \<Longrightarrow> dl_msg_ok msg \<Longrightarrow> dl_hello_ok True r (q @ [msg])"
  by (auto simp: dl_hello_ok_def hd_append tl_append split: list.splits)

lemma step_inv:
  assumes "ghif_inv y" "env_ok e" "ghif_step e y y'"
  shows "ghif_inv y'"
  using assms(3)
proof cases
  case (ap_event ev s')
  then have "y' = after y s'" by (simp add: after_def)
  then show ?thesis using ap_event_inv[OF assms(1,2) ap_event(2)] ap_event(3) by (auto split: if_splits)
next
  case (bp_hello msg)
  have "dl_base y" "ctl_inv (ap y)" using assms(1) by (auto simp: ghif_inv_def)
  then have "\<not> b_bp_ready (ap y)" "dl_queue (shared (ap y)) = []"
    using bp_hello(2) dl_baseD(2)[of y] by (auto simp: dl_hello_ok_def split: if_splits)
  then have "dl_hello_ok True (b_bp_ready (ap y)) (dl_queue (shared (ap y)) @ [msg])" using bp_hello(4) by (simp add: dl_hello_ok_def)
  from bp_dl_inv[OF assms(1) bp_hello(3) this refl] show ?thesis
    using bp_hello(1,4) by (simp add: dl_data_def)
next
  case (bp_send msg)
  have "msg_type msg \<noteq> eIPC_MSG_TYPE_INIT_REQ" using bp_send(4) by (auto simp: dl_msg_ok_def dl_type_ok_def ghif_type_defs)
  moreover have "dl_base y" using assms(1) by (simp add: ghif_inv_def)
  then have "dl_hello_ok True (b_bp_ready (ap y)) (dl_queue (shared (ap y)) @ [msg])"
    using bp_send(2,4) dl_baseD(2)[of y] by (simp add: dl_hello_send)
  moreover have "y\<lparr>hello := True, dl_out := x\<rparr> = y\<lparr>dl_out := x\<rparr>" for x using bp_send(2) by simp
  ultimately show ?thesis using bp_dl_inv[OF assms(1) bp_send(3), of True msg] bp_send(1) by (simp add: dl_data_def)
next
  case (bp_take msg q)
  then show ?thesis using bp_take_inv[OF assms(1)] by simp
next
  case (bp_ack a)
  then show ?thesis using bp_ack_inv[OF assms(1)] by simp
next
  case (bp_take_ack a q)
  then show ?thesis using bp_take_ack_inv[OF assms(1)] by simp
qed

lemma open_boot:
  assumes "bp_inds_zero m" "IPC_4GHIF_open e c (ghif_boot m) = Inr (IPC_4GHIF_STATUS_OK, s)"
  shows "ghif_inv \<lparr>ap = s, hello = False, ul_in = [], held = [], dl_out = [], dl_got = [], ul_out = []\<rparr>"
proof -
  let ?m = "put32 (put32 (put32 (put32 m FIFO_UL_WRITE_IND 0) FIFO_UL_READ_IND 0) FIFO_ACK_UL_WRITE_IND 0) FIFO_ACK_UL_READ_IND 0"
  have inds: "?m FIFO_UL_WRITE_IND = 0" "?m FIFO_UL_READ_IND = 0" "?m FIFO_ACK_UL_WRITE_IND = 0" "?m FIFO_ACK_UL_READ_IND = 0"
    "?m FIFO_DL_READ_IND = 0" "?m FIFO_DL_WRITE_IND = 0" "?m FIFO_ACK_DL_READ_IND = 0" "?m FIFO_ACK_DL_WRITE_IND = 0"
    using assms(1) by (simp_all add: put32_def shm_layout bp_inds_zero_def)
  then have q: "ul_queue ?m = []" "dl_queue ?m = []" "ul_acks ?m = []" "dl_acks ?m = []"
    by (simp_all only: queue_defs ring_empty)
  have s: "s = (ghif_boot m)\<lparr>shared := ?m, p_bp_ready := cb_bp_ready c, p_receive_dl := cb_receive_dl c,
      p_dl_complete := cb_dl_complete c, p_ul_complete := cb_ul_complete c, p_ul_resume := cb_ul_resume c,
      b_ipc_4ghif_open := True, mbox2_enabled := True\<rparr>"
    using assms(2)
    by (simp add: IPC_4GHIF_open_def ghif_boot_def fifo_4ghif_init_def fifo_ack_4ghif_init_def ind_defs Let_def split: if_splits)
  have ready: "shared s = ?m" "ul_moving s = []" "dl_moving s = []" "dl_tables_ok s" "\<not> b_bp_ready s" "\<not> b_ap_ready s"
    "incoming_dl_packet_nb s = 0" "\<not> dma_ul s" "\<not> dma_dl s" "\<not> b_ul_pause s" "mm s = IPC_4GHIF_data_ul_mm_init"
    "length (fifo_data_ul_msg_table s) = IPC_4GHIF_MAX_NB_UL_FRAMES"
    by (simp_all add: s ghif_boot_def ul_moving_def dl_moving_def dl_tables_ok_def)
  have "ctl_inv s" using inds by (simp add: s ghif_boot_def ctl_inv_def inds_ok_def)
  then show ?thesis
    using ready q ul_mm.start
    by (simp add: ghif_inv_def uplink_inv_def ul_flight_def dl_base_def dl_incoming_def dl_hello_ok_def ul_data_def dl_data_def Let_def)
qed

lemma reach_inv: "ghif_reach e y \<Longrightarrow> env_ok e \<Longrightarrow> ghif_inv y"
proof (induction rule: ghif_reach.induct)
  case (start m c s)
  then show ?case using open_boot by blast
next
  case (step y y')
  then show ?case using step_inv by blast
qed

end
