(* ===== verification/GhifProps.thy ===== *)
theory GhifProps
  imports GhifReach
begin

text \<open>
  Properties of the baseband interface: which calls panic and what else holds in every
  reachable state of driver and baseband, what submitting frames does, and how a pause of the
  uplink ends.
\<close>

section \<open>A paused uplink\<close>

lemma reach_steps: "(ghif_step e)\<^sup>*\<^sup>* y y' \<Longrightarrow> ghif_inv y \<Longrightarrow> env_ok e \<Longrightarrow> ghif_inv y'"
  by (induction rule: rtranclp_induct) (auto intro: step_inv)

lemma ap_on_ap [simp]: "ap (on_ap f y) = (ap y)\<lparr>shared := f (shared (ap y))\<rparr>" "held (on_ap f y) = held y"
  by (simp_all add: on_ap_def)

text \<open>The baseband takes messages until it holds a frame.\<close>

lemma bp_takes:
  assumes "ul_data (ul_queue (shared (ap y))) \<noteq> []"
  shows "\<exists>y'. (ghif_step e)\<^sup>*\<^sup>* y y' \<and> held y' \<noteq> [] \<and> b_ul_pause (ap y') = b_ul_pause (ap y) \<and>
    ul_acks (shared (ap y')) = ul_acks (shared (ap y))"
  using assms
proof (induction "ul_queue (shared (ap y))" arbitrary: y)
  case Nil
  then show ?case by (simp add: ul_data_def)
next
  case (Cons msg q)
  let ?y = "on_ap (\<lambda>m. m(FIFO_UL_READ_IND := m FIFO_UL_READ_IND + 1))
      (y\<lparr>ul_in := ul_in y @ [msg], held := held y @ map start_address (ul_data [msg])\<rparr>)"
  let ?m = "(shared (ap y))(FIFO_UL_READ_IND := shared (ap y) FIFO_UL_READ_IND + 1)"
  have st: "ghif_step e y ?y" using Cons.hyps(2)[symmetric] by (rule bp_take)
  have q: "ul_queue ?m = q" "ul_acks ?m = ul_acks (shared (ap y))"
    using advance_read(1)[of 1 "shared (ap y)"] Cons.hyps(2)[symmetric] by (simp_all add: queues_split)
  show ?case
  proof (cases "ul_data [msg] = []")
    case True
    then have "ul_data q \<noteq> []" using Cons.prems Cons.hyps(2)[symmetric] by (auto simp: ul_data_def split: if_splits)
    then obtain y' where "(ghif_step e)\<^sup>*\<^sup>* ?y y'" "held y' \<noteq> []" "b_ul_pause (ap y') = b_ul_pause (ap y)"
      "ul_acks (shared (ap y')) = ul_acks (shared (ap y))"
      using Cons.hyps(1)[of ?y] q by auto
    then show ?thesis using converse_rtranclp_into_rtranclp[of "ghif_step e", OF st] by blast
  next
    case False
    then show ?thesis using st q by (intro exI[of _ ?y]) auto
  qed
qed

lemma bp_acks:
  assumes "held y \<noteq> []" "ul_acks (shared (ap y)) = []"
  shows "\<exists>y'. ghif_step e y y' \<and> ul_acks (shared (ap y')) \<noteq> [] \<and> b_ul_pause (ap y') = b_ul_pause (ap y)"
proof -
  have "hd (held y) \<in> set (held y)" "length (ul_acks (shared (ap y))) < 255" using assms by simp_all
  note st = bp_ack[OF this, of e] and q = append_ul_ack[OF this(2), of "hd (held y)"]
  show ?thesis by (rule exI, rule conjI, rule st) (use q in \<open>simp add: queues_split\<close>)
qed

lemma leads_to_ack:
  assumes "ghif_inv y" "env_ok e" "ul_flight y \<noteq> []"
  shows "\<exists>y'. (ghif_step e)\<^sup>*\<^sup>* y y' \<and> ul_acks (shared (ap y')) \<noteq> [] \<and> b_ul_pause (ap y') = b_ul_pause (ap y)"
proof -
  have from_held: ?thesis if h: "(ghif_step e)\<^sup>*\<^sup>* y y1" "held y1 \<noteq> []" "b_ul_pause (ap y1) = b_ul_pause (ap y)" for y1
  proof (cases "ul_acks (shared (ap y1)) = []")
    case True
    then obtain y2 where "ghif_step e y1 y2" "ul_acks (shared (ap y2)) \<noteq> []" "b_ul_pause (ap y2) = b_ul_pause (ap y1)"
      using bp_acks[OF h(2)] by blast
    then show ?thesis using h(3) rtranclp.rtrancl_into_rtrancl[OF h(1)] by metis
  qed (use h in blast)
  have from_queue: ?thesis if "(ghif_step e)\<^sup>*\<^sup>* y y1" "ul_data (ul_queue (shared (ap y1))) \<noteq> []" "b_ul_pause (ap y1) = b_ul_pause (ap y)" for y1
    using bp_takes[OF that(2), of e] from_held that(1,3) by (metis rtranclp_trans)
  consider "ul_acks (shared (ap y)) \<noteq> []" | "held y \<noteq> []" | "ul_data (ul_queue (shared (ap y))) \<noteq> []" | "ul_moving (ap y) \<noteq> []"
    using assms(3) by (auto simp: ul_flight_def)
  then show ?thesis
  proof cases
    case 1
    then show ?thesis by blast
  next
    case 2
    then show ?thesis using from_held by blast
  next
    case 3
    then show ?thesis using from_queue by blast
  next
    case 4
    then have d: "dma_ul (ap y)" by (auto simp: ul_moving_def split: if_splits)
    obtain s' where s': "sdma_4ghif_ul_callback e (ap y) = Inr s'" "after y s' = y\<lparr>ap := s'\<rparr>"
      "ul_queue (shared s') = ul_queue (shared (ap y)) @ ul_moving (ap y)" "b_ul_pause s' = b_ul_pause (ap y)"
      using ul_done_inv[OF assms(1) _ d] assms(2) by (auto simp: env_ok_def)
    have "ghif_step e y (after y s')"
      using ap_event[of Ul_dma_done y e s'] s'(1) d by (simp add: enabled_def ap_run_def after_def)
    moreover have "ul_data (ul_moving (ap y)) = ul_moving (ap y)" using assms(1) by (simp add: ghif_inv_def uplink_invD)
    then have "ul_data (ul_queue (shared s')) \<noteq> []" using s'(3) 4 by (simp add: ul_data_def)
    ultimately show ?thesis using from_queue[of "after y s'"] s'(2,4) by (simp add: r_into_rtranclp)
  qed
qed

lemma leads_to_resume:
  assumes "ghif_inv y" "env_ok e" "b_ul_pause (ap y)"
  shows "\<exists>y'. (ghif_step e)\<^sup>*\<^sup>* y y' \<and> \<not> b_ul_pause (ap y') \<and> ul_resume_tasklet (ap y')"
proof -
  note inv = assms(1) and True = assms(3)
  have c: "mbox_countable e" using assms(2) by (simp add: env_ok_def)
  have "ul_flight y \<noteq> []" using True inv by (simp add: ghif_inv_def uplink_invD)
  then obtain y1 where y1: "(ghif_step e)\<^sup>*\<^sup>* y y1" "ul_acks (shared (ap y1)) \<noteq> []" "b_ul_pause (ap y1)"
    using leads_to_ack[OF inv assms(2)] True by blast
  have "\<exists>y2. (ghif_step e)\<^sup>*\<^sup>* y y2 \<and> resumes (ap y2)"
  proof (cases "length (ul_queue (shared (ap y1))) < 255")
    case True
    then show ?thesis using y1 by (auto simp: resumes_def)
  next
    case False
    then obtain msg q where mq: "ul_queue (shared (ap y1)) = msg # q" by (cases "ul_queue (shared (ap y1))") auto
    moreover have "length (ul_queue (shared (ap y1))) < 256" by (simp add: ul_queue_def unat_u8_less)
    moreover note bp_take[OF mq, of e]
    moreover have "ul_queue ((shared (ap y1))(FIFO_UL_READ_IND := shared (ap y1) FIFO_UL_READ_IND + 1)) = q"
      "ul_acks ((shared (ap y1))(FIFO_UL_READ_IND := shared (ap y1) FIFO_UL_READ_IND + 1)) = ul_acks (shared (ap y1))"
      using advance_read(1)[of 1 "shared (ap y1)"] mq by (simp_all add: queues_split)
    ultimately show ?thesis
      using y1 by (intro exI[of _ "on_ap (\<lambda>m. m(FIFO_UL_READ_IND := m FIFO_UL_READ_IND + 1))
        (y1\<lparr>ul_in := ul_in y1 @ [msg], held := held y1 @ map start_address (ul_data [msg])\<rparr>)"])
        (auto simp: resumes_def intro: rtranclp.rtrancl_into_rtrancl)
  qed
  then obtain y2 where y2: "(ghif_step e)\<^sup>*\<^sup>* y y2" "resumes (ap y2)" by blast
  obtain s' where s': "mailbox_ISR_4GHIF e (ap y2) = Inr s'" "\<not> b_ul_pause s'" "ul_resume_tasklet s'"
    using irq_inv[OF reach_steps[OF y2(1) inv assms(2)] c] y2(2) by auto
  have "ghif_step e y2 (after y2 s')"
    using ap_event[of Mailbox_irq y2 e s'] s'(1) by (simp add: enabled_def ap_run_def after_def)
  moreover have "ap (after y2 s') = s'" by (simp add: after_def)
  ultimately show ?thesis using y2(1) s'(2,3) by (metis rtranclp.rtrancl_into_rtrancl)
qed

text \<open>
  C26. A paused uplink is not stuck. Whenever the uplink is paused, a frame is outstanding that the
  baseband will acknowledge, so that there is something to wait for; the interrupt that finds an
  acknowledgement while the ring has room ends the pause and schedules the tasklet that tells the
  data driver; and from every such state the baseband has a way to go on that leads there. This is
  a possibility, and calls are single steps: an interrupt between a failed allocation and the mark
  of the pause, which would be missed, is not considered.
\<close>

theorem ghif_pause_ends:
  assumes "ghif_reach e y" "env_ok e" "b_ul_pause (ap y)"
  shows "ul_flight y \<noteq> [] \<and>
    (ul_acks (shared (ap y)) \<noteq> [] \<and> length (ul_queue (shared (ap y))) < 255 \<longrightarrow>
       (\<exists>s'. mailbox_ISR_4GHIF e (ap y) = Inr s' \<and> \<not> b_ul_pause s' \<and> ul_resume_tasklet s')) \<and>
    (\<exists>y'. (ghif_step e)\<^sup>*\<^sup>* y y' \<and> \<not> b_ul_pause (ap y') \<and> ul_resume_tasklet (ap y'))"
proof -
  note inv = reach_inv[OF assms(1,2)]
  have "mbox_countable e" using assms(2) by (simp add: env_ok_def)
  then show ?thesis
    using irq_inv[OF inv, of e] leads_to_resume[OF inv assms(2,3)] inv assms(3) by (auto simp: resumes_def ghif_inv_def uplink_invD)
qed

section \<open>Reachable states\<close>

text \<open>
  C2. Which calls panic while the baseband conforms, whatever the order of events: asking for the
  downlink frames while the greeting of the baseband is still in the ring, and cancelling a
  transfer that is going on. Every other call while the interface is open or after it was closed,
  every interrupt, end of a DMA transfer and tasklet returns, so that none runs on forever. The
  hardware answers (a DMA channel, the mailboxes); opening the interface again after a close and the
  debug orders 4 and 5, which replace the baseband by a loopback, are not among the events.
\<close>

theorem ghif_panics_exactly:
  assumes "ghif_reach e y" "env_ok e" "enabled ev (ap y)"
  shows "if (case ev of Get_dl_frames \<Rightarrow> \<not> b_bp_ready (ap y) \<and> dl_queue (shared (ap y)) \<noteq> []
             | Cancel_ul \<Rightarrow> b_sdma_ul_transfer_on_going (ap y) | Cancel_dl \<Rightarrow> b_sdma_dl_transfer_on_going (ap y) | _ \<Rightarrow> False)
     then ap_run e ev (ap y) = Inl Panic else \<exists>s'. ap_run e ev (ap y) = Inr s'"
  using ap_event_inv[OF reach_inv[OF assms(1,2)] assms(2,3)] unfolding panics_def by (auto split: if_splits)

text \<open>
  C4. The baseband receives the accepted uplink frames in the order of their acceptance, none lost
  and none twice: those not received yet are in the ring, then in the DMA table.
\<close>

theorem ghif_uplink_in_order:
  assumes "ghif_reach e y" "env_ok e"
  shows "ul_out y = ul_data (ul_in y) @ ul_data (ul_queue (shared (ap y))) @ ul_moving (ap y)"
  using reach_inv[OF assms] by (simp add: ghif_inv_def uplink_invD)

text \<open>
  C6. The blocks of memory in use are exactly those of the uplink frames on their way, to the
  baseband or back as acknowledgements, and no two frames share one: memory neither leaks nor is
  reused too early.
\<close>

theorem ghif_uplink_memory:
  assumes "ghif_reach e y" "env_ok e"
  shows "distinct (ul_flight y) \<and> set (ul_flight y) = dom (live (mm (ap y))) \<and>
    (\<forall>a n b k. live (mm (ap y)) a = Some n \<longrightarrow> live (mm (ap y)) b = Some k \<longrightarrow> a \<noteq> b \<longrightarrow>
       mm_off a + n \<le> mm_off b \<or> mm_off b + k \<le> mm_off a)"
proof -
  have u: "uplink_inv y" using reach_inv[OF assms] by (simp add: ghif_inv_def)
  then show ?thesis using live_blocks_disjoint[OF uplink_invD(1)[OF u]] uplink_invD(8,9)[OF u] by blast
qed

text \<open>
  C7. Every downlink frame is acknowledged once and in order: what the baseband sent is what it got
  acknowledged, then the acknowledgements in the ring, the frames in the DMA table, and those in
  the ring.
\<close>

theorem ghif_downlink_in_order:
  assumes "ghif_reach e y" "env_ok e"
  shows "dl_out y = dl_got y @ dl_acks (shared (ap y)) @ map start_address (dl_moving (ap y)) @
    map start_address (dl_data (dl_queue (shared (ap y))))"
  using reach_inv[OF assms] by (simp add: ghif_inv_def dl_baseD)

section \<open>Submission\<close>

lemma map_upds_nth:
  "distinct as \<Longrightarrow> length as \<le> length bs \<Longrightarrow> i < length as \<Longrightarrow> (m(as [\<mapsto>] bs)) (as ! i) = Some (bs ! i)"
proof (induction as arbitrary: m bs i)
  case (Cons a as)
  then obtain b bs' where "bs = b # bs'" by (cases bs) auto
  then show ?case using Cons by (cases i) auto
qed simp

text \<open>The chain of descriptors the DMA engine finds: one for each transfer, the last one marked, then the end.\<close>

definition descr_chain :: "shm \<Rightarrow> nat \<Rightarrow> (u32 \<times> u32 \<times> u32) list \<Rightarrow> bool" where
  "descr_chain m base ts \<longleftrightarrow>
     (\<forall>i<length ts. descr_at m (base + 16 * i) = descr_of (base + 16 * i) (ts ! i) (i + 1 = length ts)) \<and>
     get32 m (base + 16 * length ts) = END_OF_DMA_TYPE3_LINKLIST"

lemma fill_descrs_chain: "descr_chain (fill_descrs base 0 ts m) base ts"
  using fill_descrs_at[of _ ts base 0 m] fill_descrs_end[of base 0 ts m] by (simp add: descr_chain_def)

lemma submit_ul_facts:
  assumes "ghif_reach e y" "env_ok e" "ul_ready (ap y)" "ul_packets_ok ps"
  shows "\<exists>as s'. length as \<le> length ps \<and> distinct as \<and> set as \<inter> dom (live (mm (ap y))) = {} \<and>
    IPC_4GHIF_submit_ul e (Some ps) (ap y) =
      Inr (if length as < length ps then IPC_4GHIF_STATUS_RESOURCES_FULL else IPC_4GHIF_STATUS_OK, of_nat (length as),
        Some (marked (length as) ps), s') \<and>
    (length as < length ps \<longrightarrow> b_ul_pause s' \<and>
       (length as + length (ul_queue (shared (ap y))) = 255 \<or>
        (\<exists>m'. IPC_4GHIF_data_ul_mm_alloc (mm s') (ucast (buf_size (ps ! length as))) = Inr (0, m')))) \<and>
    queues (shared s') = queues (shared (ap y)) \<and> ul_moving s' = ul_msgs ps as \<and>
    (\<forall>i<length as. live (mm s') (as ! i) = Some (block_size (ucast (buf_size (ps ! i)))) \<and>
       unat (buf_size (ps ! i)) \<le> block_size (ucast (buf_size (ps ! i)))) \<and>
    (as \<noteq> [] \<longrightarrow> descr_chain (shared s') DMA_DESCR_UL_ARRAY (map2 (\<lambda>p a. (phys_buf e p, a, buf_size p)) ps as)) \<and>
    (as = [] \<longrightarrow> length (ul_queue (shared (ap y))) < 255 \<longrightarrow> live (mm (ap y)) \<noteq> Map.empty) \<and> ul_status s' = ul_status (ap y)"
proof -
  let ?s = "ap y"
  have inv: "ctl_inv ?s" "uplink_inv y" using reach_inv[OF assms(1,2)] by (simp_all add: ghif_inv_def)
  note u = uplink_invD[OF inv(2)]
  have i: "inds_ok ?s" "\<not> dma_ul ?s" and e: "dma_available e" and l: "list_all ul_packet_ok ps"
    using inv(1) assms(2-4) by (auto simp: ctl_inv_def ul_ready_def env_ok_def ul_packets_ok_def)
  obtain as m where a: "ul_mm.alloc_some (ul_sizes ?s 0 ps) (mm ?s) = Inr (as, m)" "length as \<le> length ps"
    "length as + length (ul_queue (shared ?s)) \<le> 255" "distinct as" "set as \<inter> dom (live (mm ?s)) = {}"
    "live m = (live (mm ?s))(as [\<mapsto>] map block_size (take (length as) (ul_sizes ?s 0 ps)))"
    "as = [] \<longrightarrow> length (ul_queue (shared ?s)) < 255 \<longrightarrow> live (mm ?s) \<noteq> Map.empty"
    "length as < length ps \<longrightarrow> length as + length (ul_queue (shared ?s)) = 255 \<or>
       (\<exists>m'. IPC_4GHIF_data_ul_mm_alloc m (ucast (buf_size (ps ! length as))) = Inr (0, m'))"
    using ul_alloc_some[OF u(1) l] assms(4) by (metis ul_packets_ok_def)
  obtain s' t where r: "IPC_4GHIF_submit_ul e (Some ps) ?s =
      Inr (if length as < length ps then IPC_4GHIF_STATUS_RESOURCES_FULL else IPC_4GHIF_STATUS_OK, of_nat (length as),
        Some (marked (length as) ps), s')"
    "ring_step (if as = [] then reserved m True ?s else submitted ps as t (reserved m (length as < length ps) ?s)) (queues (shared ?s)) s'"
    "as \<noteq> [] \<longrightarrow> (\<exists>m. shared s' = fill_descrs DMA_DESCR_UL_ARRAY 0 (ul_transfers e ps as) m)"
    using submit_ul_ok[OF assms(3,4) e i(1) u(2) a(1,2)] by blast
  have q: "queues (shared s') = queues (shared ?s)" using r(2) by (simp add: ring_step_def)
  have st: "strip s' = strip (if as = [] then reserved m True ?s else submitted ps as t (reserved m (length as < length ps) ?s))"
    using r(2) by (simp add: ring_step_def)
  note f = strip_fields(1,7,11,15,17)[OF st]
  have "ul_status s' = ul_status ?s"
    using strip_fields(2-4)[OF st] by (simp add: ul_status_def submitted_def reserved_def ul_paused_def upd_ghif_stats_def)
  moreover  have "mm s' = m" "length as < length ps \<longrightarrow> b_ul_pause s'" "ul_moving s' = ul_msgs ps as"
    using f i(2) a(2) u(2) assms(4)
    by (auto simp: submitted_def reserved_def ul_paused_def upd_ghif_stats_def ul_moving_def ul_packets_ok_def ul_msgs_def split: if_splits)
  moreover have "live m (as ! j) = Some (block_size (ucast (buf_size (ps ! j)))) \<and>
      unat (buf_size (ps ! j)) \<le> block_size (ucast (buf_size (ps ! j)))" if "j < length as" for j
  proof -
    have "ul_packet_ok (ps ! j)" using l that a(2) by (simp add: list_all_length)
    note bs = buf_size_u16[OF this]
    have "map block_size (take (length as) (ul_sizes ?s 0 ps)) ! j = block_size (ucast (buf_size (ps ! j)))"
      "length as \<le> length (map block_size (take (length as) (ul_sizes ?s 0 ps)))"
      using that a(2,3) by (auto simp: ul_sizes_def)
    then show ?thesis using map_upds_nth[OF a(4) _ that] a(6) bs ul_mm.block_enough[of "ucast (buf_size (ps ! j))"] by fastforce
  qed
  moreover have "as \<noteq> [] \<longrightarrow> descr_chain (shared s') DMA_DESCR_UL_ARRAY (map2 (\<lambda>p a. (phys_buf e p, a, buf_size p)) ps as)"
    using r(3) fill_descrs_chain by (auto simp: ul_transfers_def)
  ultimately show ?thesis using a(2,4,5,7,8) r(1) q by (intro exI[of _ as] exI[of _ s']) simp
qed

text \<open>
  C27. Submitting uplink frames: the first \<open>n\<close> of them get distinct unused blocks large enough for
  them, enter the DMA table and are described to the DMA engine, while the rings stay as they are.
  Fewer than all, which pauses the uplink, are taken only when the ring is full or the memory has no block for the next one.
\<close>

theorem IPC_4GHIF_submit_ul_effect:
  assumes "ghif_reach e y" "env_ok e" "ul_ready (ap y)" "ul_packets_ok ps"
  shows "\<exists>as s'. length as \<le> length ps \<and> distinct as \<and> set as \<inter> dom (live (mm (ap y))) = {} \<and>
    IPC_4GHIF_submit_ul e (Some ps) (ap y) =
      Inr (if length as < length ps then IPC_4GHIF_STATUS_RESOURCES_FULL else IPC_4GHIF_STATUS_OK, of_nat (length as),
        Some (marked (length as) ps), s') \<and>
    (length as < length ps \<longrightarrow> b_ul_pause s' \<and>
       (length as + length (ul_queue (shared (ap y))) = 255 \<or>
        (\<exists>m'. IPC_4GHIF_data_ul_mm_alloc (mm s') (ucast (buf_size (ps ! length as))) = Inr (0, m')))) \<and>
    queues (shared s') = queues (shared (ap y)) \<and> ul_moving s' = ul_msgs ps as \<and>
    (\<forall>i<length as. live (mm s') (as ! i) = Some (block_size (ucast (buf_size (ps ! i)))) \<and>
       unat (buf_size (ps ! i)) \<le> block_size (ucast (buf_size (ps ! i)))) \<and>
    (as \<noteq> [] \<longrightarrow> descr_chain (shared s') DMA_DESCR_UL_ARRAY (map2 (\<lambda>p a. (phys_buf e p, a, buf_size p)) ps as))"
  using submit_ul_facts[OF assms] by blast

text \<open>
  C28. Submitting downlink buffers: the first frames of the ring leave it for the DMA table, as many
  as there are buffers and announced frames; each buffer is told length, type and bearer of its
  frame, and the DMA engine gets a descriptor from the frame to the buffer.
\<close>

theorem IPC_4GHIF_submit_dl_effect:
  assumes "ghif_reach e y" "env_ok e" "dl_ready (ap y)" "dl_packets_ok ps (ap y)"
  shows "\<exists>s' ps'. let n = min (length ps) (incoming_dl_packet_nb (ap y)); q = dl_queue (shared (ap y)) in
    IPC_4GHIF_submit_dl e (Some ps) (ap y) = Inr (IPC_4GHIF_STATUS_OK, of_nat n, Some ps', s') \<and> length ps' = length ps \<and>
    drop n ps' = drop n ps \<and> dl_moving s' = take n q \<and> dl_queue (shared s') = drop n q \<and>
    (\<forall>i<n. ps' ! i = (ps ! i)\<lparr>buf_size := ucast (msg_length (q ! i)), packet_type := pi_type (dl_info (q ! i)),
       transferred_status := True, bearerID := msg_tag (q ! i)\<rparr>) \<and>
    descr_chain (shared s') DMA_DESCR_DL_ARRAY
      (map2 (\<lambda>p msg. (start_address msg, phys_buf e p, ucast (msg_length msg))) (take n ps) (take n q))"
proof -
  let ?s = "ap y"
  let ?n = "dl_count ps ?s" and ?q = "dl_queue (shared ?s)" and ?ps = "dl_filled ps ?s"
  have inv: "ctl_inv ?s" "dl_base y" "\<not> b_sdma_dl_transfer_on_going ?s \<longrightarrow> dl_incoming ?s"
    using reach_inv[OF assms(1,2)] by (simp_all add: ghif_inv_def)
  note b = dl_baseD[OF inv(2)]
  have i: "inds_ok ?s" and e: "dma_available e" and inc: "dl_incoming ?s"
    using inv(1,3) assms(2,3) by (auto simp: ctl_inv_def dl_ready_def env_ok_def)
  have c: "incoming_dl_packet_nb ?s \<le> length ?q" "incoming_dl_packet_nb ?s \<le> IPC_4GHIF_MAX_NB_DL_FRAMES"
    "take (incoming_dl_packet_nb ?s) (fifo_data_dl_msg_table ?s) = take (incoming_dl_packet_nb ?s) ?q"
    "take (incoming_dl_packet_nb ?s) (frames_info ?s) = map dl_info (take (incoming_dl_packet_nb ?s) ?q)"
    using inc by (auto simp: dl_incoming_def Let_def)
  obtain s' t m where r: "IPC_4GHIF_submit_dl e (Some ps) ?s = Inr (IPC_4GHIF_STATUS_OK, of_nat ?n, Some ?ps, s')"
    "ring_step (dl_submitted ps t ?s) (ul_queue (shared ?s), drop ?n ?q, ul_acks (shared ?s), dl_acks (shared ?s)) s'"
    "shared s' = fill_descrs DMA_DESCR_DL_ARRAY 0 (dl_transfers e ps ?s) m"
    using submit_dl_ok[OF assms(3,4) e i b(1) c(1)] by blast
  note d = ring_stepD[OF r(2)]
  note f = strip_fields(12,14,18)[OF d(6), unfolded dl_submitted_def, simplified]
  have n: "?n \<le> length ps" "?n \<le> incoming_dl_packet_nb ?s" by (simp_all add: dl_count_def)
  have tk: "take ?n (fifo_data_dl_msg_table ?s) = take ?n ?q"
    using arg_cong[OF c(3), of "take ?n"] n by (simp add: min_absorb1)
  have fi: "frames_info ?s ! j = dl_info (?q ! j)" if "j < ?n" for j
    using arg_cong[OF c(4), of "\<lambda>xs. xs ! j"] that n c(1) by simp
  have l: "?n \<le> length ?q" "?n \<le> length (frames_info ?s)" using n c(1,2) b(1) by (auto simp: dl_tables_ok_def)
  have at: "?ps ! j = (ps ! j)\<lparr>buf_size := ucast (msg_length (?q ! j)), packet_type := pi_type (dl_info (?q ! j)),
       transferred_status := True, bearerID := msg_tag (?q ! j)\<rparr>" if "j < ?n" for j
    using that n(1) l fi[OF that] by (simp add: dl_filled_def tk nth_append dl_fill_def)
  have len: "length ?ps = length ps" "drop ?n ?ps = drop ?n ps" using n(1) l by (simp_all add: dl_filled_def tk)
  have mv: "dl_moving s' = take ?n ?q" using f tk by (simp add: dl_moving_def)
  have "dl_transfers e ps ?s = map2 (\<lambda>p msg. (start_address msg, phys_buf e p, ucast (msg_length msg))) (take ?n ps) (take ?n ?q)"
    using n(1) l len(1) at unfolding dl_transfers_def tk by (simp add: list_eq_iff_nth_eq phys_buf_def)
  then have "descr_chain (shared s') DMA_DESCR_DL_ARRAY
      (map2 (\<lambda>p msg. (start_address msg, phys_buf e p, ucast (msg_length msg))) (take ?n ps) (take ?n ?q))"
    using r(3) fill_descrs_chain by simp
  then show ?thesis
    using r(1) len mv d(3) at unfolding Let_def dl_count_def[symmetric]
    by (intro exI[of _ s'] exI[of _ ?ps] conjI allI impI) auto
qed

section \<open>A session\<close>

text \<open>
  An opened interface, the baseband's hello, its interrupt and the answer of the data driver: from
  here on frames can be submitted. Together with one downlink frame this is the setting of the
  examples below.
\<close>

definition env0 :: ghif_env where
  "env0 = \<lparr>dma_available = True, irq_available = True, mbox_available = True, mbox_countable = True, virt_to_phys_g = \<lambda>a. of_nat a\<rparr>"

definition all_callbacks :: ipc_4ghif_callbacks where
  "all_callbacks = \<lparr>cb_bp_ready = True, cb_receive_dl = True, cb_dl_complete = True, cb_ul_complete = True, cb_ul_resume = True\<rparr>"

lemma env0_ok: "env_ok env0"
  by (simp add: env_ok_def env0_def)

lemma start_ex:
  "\<exists>y. ghif_reach env0 y \<and> \<not> hello y \<and> p_bp_ready (ap y) \<and> b_ipc_4ghif_open (ap y) \<and> mm (ap y) = IPC_4GHIF_data_ul_mm_init \<and>
     \<not> b_process_dl_msg_on_going (ap y) \<and> dl_out y = []"
proof -
  obtain s where s: "IPC_4GHIF_open env0 all_callbacks (ghif_boot (\<lambda>_. 0)) = Inr (IPC_4GHIF_STATUS_OK, s)"
    "p_bp_ready s" "b_ipc_4ghif_open s" "mm s = IPC_4GHIF_data_ul_mm_init" "\<not> b_process_dl_msg_on_going s"
    by (simp add: IPC_4GHIF_open_def ghif_boot_def all_callbacks_def env0_def fifo_4ghif_init_def fifo_ack_4ghif_init_def ind_defs Let_def)
  have "bp_inds_zero (\<lambda>_. 0)" by (simp add: bp_inds_zero_def)
  from ghif_reach.start[OF this s(1)] show ?thesis using s by (intro exI conjI) auto
qed

lemma process_msgs_no_acks:
  assumes "inds_ok s" "ul_acks (shared s) = []"
  shows "\<exists>s1. process_msgs s = fifo_4ghif_process_dl_msg s1 \<and> ring_step s (queues (shared s)) s1"
proof -
  have "acked s (mm s) = s" using assms(2) by (simp add: acked_def resumes_def)
  moreover have "ul_mm.release_all (ul_acks (shared s)) (mm s) = Inr (mm s)" using assms(2) by simp
  ultimately obtain s1 where "ack_loop s = Some (Inr s1)" "ring_step s (queues (shared s)) s1"
    using ack_loop_ok[OF assms(1), of "mm s"] assms(2) by (auto simp: queues_def)
  then show ?thesis by (auto simp: process_msgs_def fifo_ack_4ghif_process_dl_msg_def)
qed

definition hello_msg :: fifo_msg where
  "hello_msg = \<lparr>msg_type = eIPC_MSG_TYPE_INIT_REQ, msg_tag = 0, msg_length = 0, start_address = 0\<rparr>"

definition dl_frame :: fifo_msg where
  "dl_frame = \<lparr>msg_type = eIPC_MSG_TYPE_DL_DATA, msg_tag = 5, msg_length = 1400, start_address = 0x81100000\<rparr>"

lemma dl_frame_ok: "dl_msg_ok dl_frame"
  by (simp add: dl_msg_ok_def dl_type_ok_def dl_length_ok_def dl_frame_def DATA_DL_PACKET_MAX_SIZE_def)

lemma p_bp_ready_strip: "strip s' = strip s \<Longrightarrow> p_bp_ready s' = p_bp_ready s"
  by (rule strip_field) (auto simp: strip_def)

text \<open>The hello and the frame are in the ring.\<close>

lemma greeted_ex:
  "\<exists>y. ghif_reach env0 y \<and> dl_queue (shared (ap y)) = [hello_msg, dl_frame] \<and> \<not> b_bp_ready (ap y) \<and> ul_acks (shared (ap y)) = [] \<and>
     p_bp_ready (ap y) \<and> b_ipc_4ghif_open (ap y) \<and> mm (ap y) = IPC_4GHIF_data_ul_mm_init \<and> \<not> b_process_dl_msg_on_going (ap y) \<and>
     ul_queue (shared (ap y)) = [] \<and> dl_acks (shared (ap y)) = [] \<and> dl_out y = [start_address dl_frame]"
proof -
  let ?put = "\<lambda>msg m. (write_msg m (FIFO_DL_BASE + unat (m FIFO_DL_WRITE_IND) * 8) msg)(FIFO_DL_WRITE_IND := m FIFO_DL_WRITE_IND + 1)"
  obtain y where y: "ghif_reach env0 y" "\<not> hello y" "p_bp_ready (ap y)" "b_ipc_4ghif_open (ap y)"
    "mm (ap y) = IPC_4GHIF_data_ul_mm_init" "\<not> b_process_dl_msg_on_going (ap y)" "dl_out y = []"
    using start_ex by blast
  note inv = reach_inv[OF y(1) env0_ok]
  then have b: "\<not> b_bp_ready (ap y)" "dl_queue (shared (ap y)) = []" "dl_acks (shared (ap y)) = []"
    using dl_baseD(2,6)[of y] y(2,7) by (auto simp: ghif_inv_def dl_hello_ok_def split: if_splits)
  have "set (ul_flight y) = {}" "ul_queue (shared (ap y)) = []"
    using inv uplink_invD(7,9)[of y] b(1) ul_mm.start(2) y(5) by (auto simp: ghif_inv_def ctl_inv_def)
  then have u: "ul_acks (shared (ap y)) = []" "ul_queue (shared (ap y)) = []" by (auto simp: ul_flight_def)
  let ?y1 = "on_ap (?put hello_msg) (y\<lparr>hello := True\<rparr>)"
  have r1: "ghif_reach env0 ?y1" using b(2) y by (intro ghif_reach.step[OF y(1)] bp_hello) (simp_all add: hello_msg_def)
  have q1: "queues (?put hello_msg (shared (ap y))) = ([], [hello_msg], [], [])"
    using append_dl[of "shared (ap y)" hello_msg] b u by simp
  let ?y2 = "on_ap (?put dl_frame) (?y1\<lparr>dl_out := dl_out ?y1 @ [start_address dl_frame]\<rparr>)"
  have r2: "ghif_reach env0 ?y2"
    using q1 dl_frame_ok by (intro ghif_reach.step[OF r1] bp_send) (simp_all add: queues_split on_ap_def)
  have q2: "queues (?put dl_frame (?put hello_msg (shared (ap y)))) = ([], [hello_msg, dl_frame], [], [])"
    using append_dl[of "?put hello_msg (shared (ap y))" dl_frame] q1 by (simp add: queues_split)
  show ?thesis
    by (rule exI[of _ ?y2]) (use r2 q2 y b in \<open>simp add: queues_split on_ap_def\<close>)
qed

lemma ready_effect:
  assumes "inds_ok s" "b_ipc_4ghif_open s" "b_bp_ready s" "\<not> b_ap_ready s" "ul_queue (shared s) = []"
  shows "\<exists>s'. IPC_4GHIF_ready env0 s = Inr (IPC_4GHIF_STATUS_OK, s') \<and>
    ring_step (s\<lparr>b_ap_ready := True, mbox3 := mbox3 s @ [MAILBOX_READY_MSG]\<rparr>)
      ([init_cnf], dl_queue (shared s), ul_acks (shared s), dl_acks (shared s)) s'"
proof -
  obtain s1 where a: "fifo_4ghif_add_msg s init_cnf = (IPC_4GHIF_FIFO_STATUS_OK, s1)"
    "ring_step s ([init_cnf], dl_queue (shared s), ul_acks (shared s), dl_acks (shared s)) s1"
    using add_msg_ok[OF assms(1), of init_cnf] assms(5) by auto
  have "mbox3 s1 = mbox3 s" using strip_fields(25) ring_stepD(6)[OF a(2)] by blast
  then have "IPC_4GHIF_ready env0 s =
      Inr (IPC_4GHIF_STATUS_OK, s1\<lparr>mbox3 := mbox3 s @ [MAILBOX_READY_MSG], b_ap_ready := True\<rparr>)"
    using a(1) assms(2-4) by (simp add: IPC_4GHIF_ready_def init_cnf_def mailbox_4ghif_send_msg_def env0_def)
  then show ?thesis using a(2) by (auto simp: ring_step_def strip_upd)
qed

text \<open>The interrupt has seen the hello; the tasklet that tells the data driver is scheduled.\<close>

lemma announced_ex:
  "\<exists>y. ghif_reach env0 y \<and> inds_ok (ap y) \<and> queues (shared (ap y)) = ([], [dl_frame], [], []) \<and> b_ipc_4ghif_open (ap y) \<and>
     b_bp_ready (ap y) \<and> \<not> b_ap_ready (ap y) \<and> bp_ready_tasklet (ap y) \<and> mm (ap y) = IPC_4GHIF_data_ul_mm_init \<and>
     p_bp_ready (ap y) \<and> \<not> dma_ul (ap y) \<and> \<not> b_sdma_ul_transfer_on_going (ap y) \<and> \<not> b_sdma_dl_transfer_on_going (ap y) \<and>
     dl_tables_ok (ap y)"
proof -
  obtain y where y: "ghif_reach env0 y" "dl_queue (shared (ap y)) = [hello_msg, dl_frame]" "\<not> b_bp_ready (ap y)"
    "ul_acks (shared (ap y)) = []" "p_bp_ready (ap y)" "b_ipc_4ghif_open (ap y)" "mm (ap y) = IPC_4GHIF_data_ul_mm_init"
    "\<not> b_process_dl_msg_on_going (ap y)" "ul_queue (shared (ap y)) = []" "dl_acks (shared (ap y)) = []"
    using greeted_ex by blast
  note inv = reach_inv[OF y(1) env0_ok]
  have c: "inds_ok (ap y)" "\<not> b_ap_ready (ap y)" "\<not> dma_ul (ap y)" "\<not> b_sdma_ul_transfer_on_going (ap y)"
    "\<not> b_sdma_dl_transfer_on_going (ap y)" "dl_tables_ok (ap y)"
    using inv y(3) dl_baseD(1) by (auto simp: ghif_inv_def ctl_inv_def)
  let ?s0 = "(upd_ghif_stats (\<lambda>t. t\<lparr>stat_irq_nb := stat_irq_nb t + 1\<rparr>) (ap y))\<lparr>mbox2 := 0\<rparr>"
  have s0: "shared ?s0 = shared (ap y)" "\<not> b_process_dl_msg_on_going ?s0" "\<not> b_bp_ready ?s0"
    using y by (simp_all add: upd_ghif_stats_def)
  obtain s1 where s1: "process_msgs ?s0 = fifo_4ghif_process_dl_msg s1" "ring_step ?s0 ([], [hello_msg, dl_frame], [], []) s1"
    using process_msgs_no_acks[of ?s0] c(1) s0(1) y(2,4,9,10) by (auto simp: queues_def)
  note d1 = ring_stepD[OF s1(2)]
  note f1 = strip_fields[OF d1(6)]
  obtain s2 where s2: "fifo_4ghif_process_dl_msg s1 = Inr s2"
    "ring_step (s1\<lparr>b_bp_ready := True, b_process_dl_msg_on_going := True, bp_ready_tasklet := True\<rparr>) ([], [dl_frame], [], []) s2"
    using process_dl_init[OF d1(1)] f1(3,8) s0 d1 by (auto simp: hello_msg_def)
  note d2 = ring_stepD[OF s2(2)]
  note f2 = strip_fields[OF d2(6), simplified]
  have ap2: "b_ipc_4ghif_open s2" "b_bp_ready s2" "\<not> b_ap_ready s2" "bp_ready_tasklet s2" "mm s2 = IPC_4GHIF_data_ul_mm_init"
    "p_bp_ready s2" "\<not> dma_ul s2" "\<not> b_sdma_ul_transfer_on_going s2" "\<not> b_sdma_dl_transfer_on_going s2"
    "dl_tables_ok s2"
    using f2 f1 c y(5-7) p_bp_ready_strip[OF d2(6)] p_bp_ready_strip[OF d1(6)] by (simp_all add: upd_ghif_stats_def dl_tables_ok_def)
  have "ghif_step env0 y (after y s2)"
    using ap_event[of Mailbox_irq y env0 s2] s1(1) s2(1) by (simp add: enabled_def ap_run_def after_def mailbox_ISR_4GHIF_def env0_def)
  then have "ghif_reach env0 (y\<lparr>ap := s2\<rparr>)" using ghif_reach.step[OF y(1)] ap2(7) by (simp add: after_idle)
  then show ?thesis using ap2 d2 by (intro exI[of _ "y\<lparr>ap := s2\<rparr>"]) (simp add: queues_def)
qed

lemma initialised_ex:
  "\<exists>y. ghif_reach env0 y \<and> ul_ready (ap y) \<and> dl_ready (ap y) \<and> incoming_dl_packet_nb (ap y) = 1 \<and>
     dl_queue (shared (ap y)) = [dl_frame] \<and> live (mm (ap y)) = Map.empty \<and> ul_queue (shared (ap y)) = [init_cnf]"
proof -
  obtain y where r2: "ghif_reach env0 y" and d2: "inds_ok (ap y)" "queues (shared (ap y)) = ([], [dl_frame], [], [])" and
    ap2: "b_ipc_4ghif_open (ap y)" "b_bp_ready (ap y)" "\<not> b_ap_ready (ap y)" "bp_ready_tasklet (ap y)"
    "mm (ap y) = IPC_4GHIF_data_ul_mm_init" "p_bp_ready (ap y)" "\<not> dma_ul (ap y)" "\<not> b_sdma_ul_transfer_on_going (ap y)"
    "\<not> b_sdma_dl_transfer_on_going (ap y)" "dl_tables_ok (ap y)"
    using announced_ex by blast
  obtain s3 where s3: "IPC_4GHIF_ready env0 ((ap y)\<lparr>bp_ready_tasklet := False\<rparr>) = Inr (IPC_4GHIF_STATUS_OK, s3)"
    "ring_step ((ap y)\<lparr>bp_ready_tasklet := False, b_ap_ready := True, mbox3 := mbox3 (ap y) @ [MAILBOX_READY_MSG]\<rparr>) ([init_cnf], [dl_frame], [], []) s3"
    using ready_effect[of "(ap y)\<lparr>bp_ready_tasklet := False\<rparr>"] ap2 d2 by (auto simp: queues_split)
  note d3 = ring_stepD[OF s3(2)]
  note f3 = strip_fields[OF d3(6), simplified]
  obtain s4 where s4: "process_msgs (s3\<lparr>b_process_dl_msg_on_going := False\<rparr>) = fifo_4ghif_process_dl_msg s4"
    "ring_step (s3\<lparr>b_process_dl_msg_on_going := False\<rparr>) ([init_cnf], [dl_frame], [], []) s4"
    using process_msgs_no_acks[of "s3\<lparr>b_process_dl_msg_on_going := False\<rparr>"] d3 by (auto simp: queues_def)
  note d4 = ring_stepD[OF s4(2)]
  note f4 = strip_fields[OF d4(6), simplified]
  have tab: "dl_tables_ok s4" using ap2(10) f3(9,14) f4(9,14) by (simp add: dl_tables_ok_def)
  have k: "collectable (shared s4) = 1" using d4 by (simp add: collectable_def IPC_4GHIF_MAX_NB_DL_FRAMES_def)
  obtain s5 where s5: "fifo_4ghif_process_dl_msg s4 = Inr s5"
    "ring_step (dl_announced 1 s4) ([init_cnf], [dl_frame], [], []) s5"
    using process_dl_data[OF d4(1) _ _ _ tab] k f4(3,8) f3(3) ap2(2) d4 dl_frame_ok by (auto simp: queues_def)
  note d5 = ring_stepD[OF s5(2)]
  note f5 = strip_fields[OF d5(6), unfolded dl_announced_def collected_def, simplified]
  have "ap_run env0 Bp_ready (ap y) = Inr s5"
    using s3(1) s4(1) s5(1) ap2(6) by (simp add: ap_run_def bp_ready_tasklet_function_def)
  moreover have "\<not> dma_ul s5" using f5(17) f4(17) f3(17) ap2(7) by simp
  ultimately have "ghif_step env0 y (after y s5)"
    using ap_event[of Bp_ready y env0 s5] ap2(4) by (simp add: enabled_def after_def)
  then have "ghif_reach env0 (after y s5)" by (rule ghif_reach.step[OF r2])
  moreover have "ap (after y s5) = s5" by (simp add: after_def)
  moreover have "ul_ready s5" "dl_ready s5" "incoming_dl_packet_nb s5 = 1" "mm s5 = IPC_4GHIF_data_ul_mm_init"
    using f5(1-6,8,13) f4(1-6,8) f3(1-6,8) ap2 by (simp_all add: ul_ready_def dl_ready_def)
  ultimately show ?thesis using d5(2,3) ul_mm.start(2) by (metis)
qed

definition ul_packet :: sdma_packet where
  "ul_packet = \<lparr>packet_type = PKT_TYPE_UL_DATA, pbuf = Some 4096, buf_size = 1400, transferred_status = False, bearerID = 5,
     sdma_user = 0, puser_xfer = None\<rparr>"

definition dl_buffer :: sdma_packet where
  "dl_buffer = \<lparr>packet_type = 0, pbuf = Some 8192, buf_size = 2048, transferred_status = False, bearerID = 0,
     sdma_user = 0, puser_xfer = None\<rparr>"

lemma ul_packet_fits: "ul_packets_ok [ul_packet]"
  by (simp add: ul_packets_ok_def ul_packet_ok_def ul_packet_def IPC_4GHIF_MAX_NB_UL_FRAMES_def DATA_UL_PACKET_MAX_SIZE_def ghif_type_defs)

text \<open>One uplink frame is on its way.\<close>

lemma sending_ex: "\<exists>y. ghif_reach env0 y \<and> ul_moving (ap y) \<noteq> [] \<and> dl_queue (shared (ap y)) = [dl_frame]"
proof -
  obtain y where y: "ghif_reach env0 y" "ul_ready (ap y)" "dl_queue (shared (ap y)) = [dl_frame]" "live (mm (ap y)) = Map.empty"
    "ul_queue (shared (ap y)) = [init_cnf]" using initialised_ex by blast
  obtain as s' st n qs where r: "IPC_4GHIF_submit_ul env0 (Some [ul_packet]) (ap y) = Inr (st, n, qs, s')"
    "queues (shared s') = queues (shared (ap y))" "ul_moving s' = ul_msgs [ul_packet] as" "as \<noteq> []"
    using submit_ul_facts[OF y(1) env0_ok y(2) ul_packet_fits] y(4,5) by auto
  have "ghif_step env0 y (after y s')"
    using ap_event[of "Submit_ul (Some [ul_packet])" y env0 s'] r(1) by (simp add: enabled_def ap_run_def after_def)
  then have "ghif_reach env0 (after y s')" by (rule ghif_reach.step[OF y(1)])
  moreover have "ul_moving s' \<noteq> []" using r(3,4) by (cases as) (simp_all add: ul_msgs_def)
  moreover have "ap (after y s') = s'" "dl_queue (shared s') = [dl_frame]" using r(2) y(3) by (simp_all add: after_def queues_def)
  ultimately show ?thesis by metis
qed

text \<open>
  A baseband that takes nothing: every frame that is submitted and transferred stays in the ring,
  until a submission finds the memory or the ring full.
\<close>

lemma one_more_frame:
  assumes y: "ghif_reach env0 y" "ul_ready (ap y)"
  shows "\<exists>y'. ghif_reach env0 y' \<and>
    (b_ul_pause (ap y') \<or> ul_ready (ap y') \<and> length (ul_queue (shared (ap y))) < length (ul_queue (shared (ap y'))))"
proof -
  from submit_ul_facts[OF y(1) env0_ok y(2) ul_packet_fits] obtain as s' where
    r: "IPC_4GHIF_submit_ul env0 (Some [ul_packet]) (ap y) =
       Inr (if length as < length [ul_packet] then IPC_4GHIF_STATUS_RESOURCES_FULL else IPC_4GHIF_STATUS_OK, of_nat (length as),
         Some (marked (length as) [ul_packet]), s')"
    "queues (shared s') = queues (shared (ap y))" "ul_moving s' = ul_msgs [ul_packet] as" "length as < length [ul_packet] \<longrightarrow> b_ul_pause s'"
    "ul_status s' = ul_status (ap y)" by blast
  have "ghif_step env0 y (after y s')"
    using ap_event[of "Submit_ul (Some [ul_packet])" y env0 s'] r(1) by (simp add: enabled_def ap_run_def after_def)
  then have r1: "ghif_reach env0 (after y s')" and a1: "ap (after y s') = s'" by (rule ghif_reach.step[OF y(1)], simp add: after_def)
  show ?thesis
  proof (cases "as = []")
    case True
    then have "b_ul_pause (ap (after y s'))" using r(4) a1 by simp
    then show ?thesis using r1 by blast
  next
    case False
    then have mv: "ul_moving s' \<noteq> []" using r(3) by (cases as) (simp_all add: ul_msgs_def)
    then have d: "dma_ul s'" by (simp add: ul_moving_def split: if_splits)
    obtain s2 where s2: "sdma_4ghif_ul_callback env0 s' = Inr s2" "ul_queue (shared s2) = ul_queue (shared s') @ ul_moving s'"
      "ul_status s2 = ul_status s'" "ul_complete_tasklet s2"
      using ul_done_inv[OF reach_inv[OF r1 env0_ok], of env0] d a1 by (auto simp: env0_def)
    have "ghif_step env0 (after y s') (after (after y s') s2)"
      using ap_event[of Ul_dma_done "after y s'" env0 s2] s2(1) d a1 by (simp add: enabled_def ap_run_def after_def)
    then have r2: "ghif_reach env0 (after (after y s') s2)" by (rule ghif_reach.step[OF r1])
    let ?s3 = "s2\<lparr>ul_complete_tasklet := False, b_sdma_ul_transfer_on_going := False\<rparr>"
    have "ghif_step env0 (after (after y s') s2) (after (after (after y s') s2) ?s3)"
      using ap_event[of Ul_complete "after (after y s') s2" env0 ?s3] s2(4)
      by (simp add: enabled_def ap_run_def after_def ul_complete_tasklet_function_def)
    then have "ghif_reach env0 (after (after (after y s') s2) ?s3)" by (rule ghif_reach.step[OF r2])
    moreover have "ap (after (after (after y s') s2) ?s3) = ?s3" by (simp add: after_def)
    moreover have "ul_ready ?s3" using y(2) s2(3) r(5) by (simp add: ul_ready_def ul_status_def)
    moreover have "length (ul_queue (shared (ap y))) < length (ul_queue (shared ?s3))" using s2(2) r(2) mv by (simp add: queues_def)
    ultimately show ?thesis by metis
  qed
qed

lemma paused_from:
  "ghif_reach env0 y \<Longrightarrow> ul_ready (ap y) \<Longrightarrow> \<exists>y'. ghif_reach env0 y' \<and> b_ul_pause (ap y')"
proof (induction "256 - length (ul_queue (shared (ap y)))" arbitrary: y rule: less_induct)
  case less
  have "length (ul_queue (shared (ap y'))) < 256" for y' by (simp add: ul_queue_def unat_u8_less)
  then show ?case using one_more_frame[OF less.prems] less.hyps by (metis diff_less_mono2 less_trans)
qed

lemma paused_ex: "\<exists>y. ghif_reach env0 y \<and> b_ul_pause (ap y)"
  using initialised_ex paused_from by blast

section \<open>Examples\<close>

theorem ghif_pause_ends_witness:
  "\<exists>y y'. ghif_reach env0 y \<and> b_ul_pause (ap y) \<and> ul_flight y \<noteq> [] \<and> (ghif_step env0)\<^sup>*\<^sup>* y y' \<and> \<not> b_ul_pause (ap y') \<and>
    ul_resume_tasklet (ap y')"
  using paused_ex ghif_pause_ends[OF _ env0_ok] by blast

theorem ghif_panics_exactly_witness:
  "\<exists>y s'. ghif_reach env0 y \<and> ul_moving (ap y) \<noteq> [] \<and> ap_run env0 Mailbox_irq (ap y) = Inr s' \<and> ap_run env0 Cancel_ul (ap y) = Inl Panic"
proof -
  obtain y where y: "ghif_reach env0 y" "ul_moving (ap y) \<noteq> []" using sending_ex by blast
  have en: "enabled Mailbox_irq (ap y)" "enabled Cancel_ul (ap y)" by (simp_all add: enabled_def)
  have "b_sdma_ul_transfer_on_going (ap y)"
    using reach_inv[OF y(1) env0_ok] y(2) by (auto simp: ghif_inv_def ctl_inv_def ul_moving_def split: if_splits)
  then show ?thesis using ghif_panics_exactly[OF y(1) env0_ok en(1)] ghif_panics_exactly[OF y(1) env0_ok en(2)] y by auto
qed

theorem ghif_uplink_in_order_witness:
  "\<exists>y. ghif_reach env0 y \<and> ul_moving (ap y) \<noteq> [] \<and>
     ul_out y = ul_data (ul_in y) @ ul_data (ul_queue (shared (ap y))) @ ul_moving (ap y)"
  using sending_ex ghif_uplink_in_order[OF _ env0_ok] by blast

theorem ghif_uplink_memory_witness:
  "\<exists>y. ghif_reach env0 y \<and> ul_flight y \<noteq> [] \<and> distinct (ul_flight y) \<and> set (ul_flight y) = dom (live (mm (ap y)))"
proof -
  obtain y where y: "ghif_reach env0 y" "ul_moving (ap y) \<noteq> []" using sending_ex by blast
  have "ul_flight y \<noteq> []" using y(2) by (simp add: ul_flight_def)
  with ghif_uplink_memory[OF y(1) env0_ok] y(1) show ?thesis by blast
qed

theorem ghif_downlink_in_order_witness:
  "\<exists>y. ghif_reach env0 y \<and> dl_queue (shared (ap y)) = [dl_frame] \<and>
     dl_out y = dl_got y @ dl_acks (shared (ap y)) @ map start_address (dl_moving (ap y)) @ [start_address dl_frame]"
proof -
  obtain y where y: "ghif_reach env0 y" "dl_queue (shared (ap y)) = [dl_frame]" using sending_ex by blast
  have "dl_data [dl_frame] = [dl_frame]" by (simp add: dl_data_def dl_frame_def ghif_type_defs)
  with ghif_downlink_in_order[OF y(1) env0_ok] y show ?thesis by (intro exI[of _ y]) simp
qed

theorem IPC_4GHIF_submit_ul_effect_witness:
  "\<exists>y as s'. ghif_reach env0 y \<and> live (mm (ap y)) = Map.empty \<and> length as \<le> 1 \<and>
     IPC_4GHIF_submit_ul env0 (Some [ul_packet]) (ap y) =
       Inr (if length as < 1 then IPC_4GHIF_STATUS_RESOURCES_FULL else IPC_4GHIF_STATUS_OK, of_nat (length as),
         Some (marked (length as) [ul_packet]), s') \<and> ul_moving s' = ul_msgs [ul_packet] as"
proof -
  obtain y where y: "ghif_reach env0 y" "ul_ready (ap y)" "live (mm (ap y)) = Map.empty" using initialised_ex by blast
  from IPC_4GHIF_submit_ul_effect[OF y(1) env0_ok y(2) ul_packet_fits] obtain as s' where
    "length as \<le> length [ul_packet]" "IPC_4GHIF_submit_ul env0 (Some [ul_packet]) (ap y) =
       Inr (if length as < length [ul_packet] then IPC_4GHIF_STATUS_RESOURCES_FULL else IPC_4GHIF_STATUS_OK, of_nat (length as),
         Some (marked (length as) [ul_packet]), s')" "ul_moving s' = ul_msgs [ul_packet] as" by blast
  then show ?thesis using y by (intro exI[of _ y] exI[of _ as] exI[of _ s']) simp
qed

theorem IPC_4GHIF_submit_dl_effect_witness:
  "\<exists>y s' ps'. ghif_reach env0 y \<and> dl_queue (shared (ap y)) = [dl_frame] \<and>
     IPC_4GHIF_submit_dl env0 (Some [dl_buffer]) (ap y) = Inr (IPC_4GHIF_STATUS_OK, 1, Some ps', s') \<and>
     dl_moving s' = [dl_frame] \<and> dl_queue (shared s') = [] \<and> buf_size (ps' ! 0) = 1400"
proof -
  obtain y where y: "ghif_reach env0 y" "dl_ready (ap y)" "incoming_dl_packet_nb (ap y) = 1" "dl_queue (shared (ap y)) = [dl_frame]"
    using initialised_ex by blast
  have "dl_incoming (ap y)" using reach_inv[OF y(1) env0_ok] y(2) by (simp add: ghif_inv_def dl_ready_def)
  then have "take 1 (fifo_data_dl_msg_table (ap y)) = [dl_frame]" using y(3,4) by (simp add: dl_incoming_def)
  then have "dl_packets_ok [dl_buffer] (ap y)"
    using y(3) by (simp add: dl_packets_ok_def dl_count_def IPC_4GHIF_MAX_NB_DL_FRAMES_def dl_buffer_ok_def dl_buffer_def dl_frame_def)
  from IPC_4GHIF_submit_dl_effect[OF y(1) env0_ok y(2) this] y(1,3,4) show ?thesis
    by (auto simp: dl_frame_def Let_def)
qed

end
