(* ===== verification/GhifUplink.thy ===== *)
theory GhifUplink
  imports Uplink GhifProps
begin

text \<open>
  The data driver on the baseband interface: its transmit routine with the submission function of
  the interface in place of the parameter. Both sides agree on the transfer that results.
\<close>

definition ghif_dd_env :: "ghif_env \<Rightarrow> ghif \<Rightarrow> dd_env \<Rightarrow> dd_env" where
  "ghif_dd_env e s de = de\<lparr>submit_ul := (\<lambda>ps. case IPC_4GHIF_submit_ul e (Some ps) s of
     Inl f \<Rightarrow> (IPC_4GHIF_STATUS_BUSY, 0) | Inr (st, n, qs, s') \<Rightarrow> (st, n))\<rparr>"

definition throttled :: "lte_dd_dev_t \<Rightarrow> bool" where
  "throttled d \<longleftrightarrow> dd_flags d AND LTE_DD_FLAG_TX_THROTTLE \<noteq> 0"

lemma throttle_bits:
  "(x AND NOT LTE_DD_FLAG_TX_BUSY) AND LTE_DD_FLAG_TX_THROTTLE = x AND LTE_DD_FLAG_TX_THROTTLE"
  "(x OR LTE_DD_FLAG_TX_THROTTLE) AND LTE_DD_FLAG_TX_THROTTLE \<noteq> 0"
  by (simp_all add: bit.conj_disj_distrib2 and.assoc dd_flag_defs)

text \<open>The data driver after the interface has accepted \<open>n'\<close> of the \<open>n\<close> packets.\<close>

lemma dd_accepts:
  assumes p: "tx_prepared i a n w r" and n': "n' \<le> n" and idle: "\<not> throttled (bus w)"
  shows "\<exists>w'. tx_submitted de i (if n' < n then IPC_4GHIF_STATUS_RESOURCES_FULL else IPC_4GHIF_STATUS_OK) (of_nat n') r = Inr w' \<and>
    ul_inv w' \<and> (tx_busy (bus w') \<longleftrightarrow> n' \<noteq> 0) \<and> (throttled (bus w') \<longleftrightarrow> n' < n) \<and>
    (n' \<noteq> 0 \<longrightarrow> tx_sdma_packet_cnt (bus w') = n' \<and> (\<forall>k < n'. tx_sdma_xfer (bus w') ! k = ul_xfer w i k))"
proof -
  have s: "sending r i a" "tx_sdma_packet_cnt (bus r) = n" "\<forall>k < n. tx_sdma_xfer (bus r) ! k = ul_xfer w i k" "0 < n" "n \<le> 31"
    "\<not> throttled (bus r)"
    using p idle by (simp_all add: tx_prepared_def IPC_4GHIF_MAX_NB_UL_FRAMES_def throttled_def dd_flag_defs bit.conj_disj_distrib2)
  have busy: "tx_busy (bus r)" using s(1) by (simp add: sending_def)
  have u: "unat (of_nat n' :: u8) = n'" "(of_nat n' :: u8) = 0 \<longleftrightarrow> n' = 0"
    using s(5) n' unat_of_nat_u8[of n'] by (auto simp: word_unat_eq_iff)
  show ?thesis
  proof (cases "n' < n")
    case False
    let ?w = "upd_bus r (\<lambda>d. d\<lparr>tx_packet_cnt := tx_packet_cnt d + ucast (of_nat n' :: u8)\<rparr>)"
    have "sending ?w i a" using s(1) by (intro sending_upd_bus(1)[OF s(1)]) (simp_all add: sending_def tx_busy_def)
    then show ?thesis using False n' s busy sending_inv[of ?w i a] by (simp add: tx_submitted_def tx_busy_def throttled_def)
  next
    case True
    let ?g = "\<lambda>d. d\<lparr>tx_sdma_packet_cnt := n', tx_sdma_xfer_cnt := n', tx_packet_cnt := tx_packet_cnt d + ucast (of_nat n' :: u8),
      dd_flags := dd_flags d OR LTE_DD_FLAG_TX_THROTTLE, tx_throttle_close_cnt := tx_throttle_close_cnt d + 1,
      tx_data_throttle_start_time := jiffies de\<rparr>"
    have fl: "tx_busy (?g (bus r))" "throttled (?g (bus r))"
      using busy by (simp_all add: tx_busy_def throttled_def busy_masks dd_flag_defs bit.conj_disj_distrib2)
    have s': "sending (upd_bus r ?g) i a" using fl s(2) True by (intro sending_upd_bus(1)[OF s(1)]) simp_all
    have run: "tx_submitted de i IPC_4GHIF_STATUS_RESOURCES_FULL (of_nat n') r =
      (if n' = 0 then clear_tx_busy (upd_bus r ?g) i else Inr (upd_bus r ?g))"
      using True s(2) u by (simp add: tx_submitted_def upd_bus_def Let_def)
    show ?thesis
    proof (cases "n' = 0")
      case False
      then show ?thesis using True run fl s(3) sending_inv[OF s'] by simp
    next
      case zero: True
      have "ul_base (upd_bus r ?g)" "i < NETDRV_MAX_NUM_DEVICES" using s' by (simp_all only: sending_def)
      from clear_tx_busy_step[OF this] obtain w' where w': "clear_tx_busy (upd_bus r ?g) i = Inr w'" "ul_step (upd_bus r ?g) w'"
        "\<not> tx_busy (bus w')" "dd_flags (bus w') = dd_flags (bus (upd_bus r ?g)) AND NOT LTE_DD_FLAG_TX_BUSY" by auto
      have "throttled (bus w')" using w'(4) fl(2) by (simp add: throttled_def throttle_bits)
      then show ?thesis using True zero run w' by (simp add: ul_step_def)
    qed
  qed
qed

lemma ucast_u16_of_nat: "(ucast (of_nat n :: u32) :: u16) = of_nat n"
  by (rule bit_word_eqI) (simp add: bit_simps)

text \<open>The packets of the data driver are valid for the interface when their lengths are.\<close>

definition lengths_ok :: "'q dd_sys \<Rightarrow> bool" where
  "lengths_ok w \<longleftrightarrow> (\<forall>i<NETDRV_MAX_NUM_DEVICES. \<forall>s\<in>set (qlist w i).
     0 < skb_len (pkt (the (skbs w s))) \<and> skb_len (pkt (the (skbs w s))) \<le> DATA_UL_PACKET_MAX_SIZE)"

lemma dd_packets_ok:
  assumes "lengths_ok w" "i < NETDRV_MAX_NUM_DEVICES" "0 < n" "n \<le> length (qlist w i)" "n \<le> IPC_4GHIF_MAX_NB_UL_FRAMES"
  shows "ul_packets_ok (map (sdma \<circ> ul_xfer w i) [0..<n])"
proof -
  have "ul_packet_ok (sdma (ul_xfer w i k))" if "k < n" for k
  proof -
    let ?l = "skb_len (pkt (the (skbs w (qlist w i ! k))))"
    have "qlist w i ! k \<in> set (qlist w i)" using that assms(4) by simp
    then have l: "0 < ?l" "?l \<le> 8188" using assms(1,2) by (auto simp: lengths_ok_def DATA_UL_PACKET_MAX_SIZE_def)
    then have "unat (of_nat ?l :: u32) = ?l" by (simp add: unsigned_of_nat take_bit_nat_eq_self)
    with l show ?thesis
      by (auto simp: ul_packet_ok_def ul_xfer_def Let_def DATA_UL_PACKET_MAX_SIZE_def ghif_type_defs word_unat_eq_iff)
  qed
  then show ?thesis using assms(3,5) by (simp add: ul_packets_ok_def list_all_length)
qed

text \<open>
  C8. The transmit routine of the data driver on the interface: it submits the first packets of one
  FIFO, the interface never rejects them, and the two agree on the transfer. The data driver is
  busy exactly when a DMA transfer runs, with as many packets as the DMA table; message \<open>k\<close> carries
  length and bearer of packet \<open>k\<close> of the FIFO; and the data driver throttles itself exactly when the
  interface took fewer packets and has paused the uplink, so that it will be told to go on.
\<close>

theorem uplink_transfer_agrees:
  assumes "DataDriverInv.ul_inv w" "\<not> tx_busy (bus w)" "\<not> throttled (bus w)" "lengths_ok w"
    "j < NETDRV_MAX_NUM_DEVICES" "qlist w j \<noteq> []" "ni_interfaces_cnt (bus w) = 1 \<Longrightarrow> j = 0"
    "ghif_reach e y" "env_ok e" "ul_ready (ap y)"
  shows "\<exists>i n w' st acc ps s'. 0 < n \<and> n \<le> length (qlist w i) \<and>
    IPC_4GHIF_submit_ul e (Some (map (sdma \<circ> ul_xfer w i) [0..<n])) (ap y) = Inr (st, acc, ps, s') \<and>
    lte_dd_sdma_tx (ghif_dd_env e (ap y) de) w = Inr (AMP_ERROR_NONE, w') \<and> DataDriverInv.ul_inv w' \<and>
    (tx_busy (bus w') \<longleftrightarrow> ul_moving s' \<noteq> []) \<and> (tx_busy (bus w') \<longrightarrow> tx_sdma_packet_cnt (bus w') = length (ul_moving s')) \<and>
    (throttled (bus w') \<longleftrightarrow> length (ul_moving s') < n) \<and> (throttled (bus w') \<longrightarrow> b_ul_pause s') \<and>
    (\<forall>k < length (ul_moving s'). let b = the (skbs w (qlist w i ! k)) in
       msg_length (ul_moving s' ! k) = of_nat (skb_len (pkt b)) \<and> msg_tag (ul_moving s' ! k) = hd (skb_cb b))"
proof -
  let ?e = "ghif_dd_env e (ap y) de"
  have base: "ul_base w" using assms(1) by (simp add: DataDriverInv.ul_inv_def)
  obtain i num ri where look: "lte_dd_ni_interface_fifo_lookup w = Inr (Some (i, num), upd_bus w (\<lambda>d. d\<lparr>running_index := ri\<rparr>))"
    and g: "good_choice w (i, num)" using fifo_lookup_finds[OF base assms(5-7)] by auto
  have idle: "dd_flags (bus w) AND LTE_DD_FLAG_TX_BUSY = 0" "dd_flags (bus w) AND LTE_DD_FLAG_TX_THROTTLE = 0"
    using assms(2,3) by (simp_all add: tx_busy_def throttled_def)
  obtain a n r where p: "tx_prepared i a n w r"
    "lte_dd_sdma_tx ?e w = (case submit_ul ?e (map (sdma \<circ> ul_xfer w i) [0..<n]) of (st, acc) \<Rightarrow>
      rbind (tx_submitted ?e i st acc r) (\<lambda>w5. Inr (AMP_ERROR_NONE, w5)))"
    using sdma_tx_prepared[OF base idle look g, of ?e] by blast
  have n: "0 < n" "n \<le> length (qlist w i)" "n \<le> IPC_4GHIF_MAX_NB_UL_FRAMES" using p(1) by (simp_all add: tx_prepared_def)
  let ?ps = "map (sdma \<circ> ul_xfer w i) [0..<n]"
  have "ul_packets_ok ?ps" using dd_packets_ok[OF assms(4) _ n] g by (simp add: good_choice_def)
  from submit_ul_facts[OF assms(8-10) this] obtain as s' where
    a: "length as \<le> n" "IPC_4GHIF_submit_ul e (Some ?ps) (ap y) =
      Inr (if length as < n then IPC_4GHIF_STATUS_RESOURCES_FULL else IPC_4GHIF_STATUS_OK, of_nat (length as), Some (marked (length as) ?ps), s')"
    "length as < n \<longrightarrow> b_ul_pause s'" "ul_moving s' = ul_msgs ?ps as" by auto
  obtain w' where w': "tx_submitted ?e i (if length as < n then IPC_4GHIF_STATUS_RESOURCES_FULL else IPC_4GHIF_STATUS_OK) (of_nat (length as)) r = Inr w'"
    "DataDriverInv.ul_inv w'" "tx_busy (bus w') \<longleftrightarrow> length as \<noteq> 0" "throttled (bus w') \<longleftrightarrow> length as < n"
    "length as \<noteq> 0 \<longrightarrow> tx_sdma_packet_cnt (bus w') = length as"
    using dd_accepts[OF p(1) a(1) assms(3), of ?e] by blast
  have run: "lte_dd_sdma_tx ?e w = Inr (AMP_ERROR_NONE, w')" using p(2) a(2) w'(1) by (simp add: ghif_dd_env_def)
  have len: "length (ul_moving s') = length as" using a(1,4) by simp
  have fr: "msg_length (ul_moving s' ! k) = of_nat (skb_len (pkt (the (skbs w (qlist w i ! k))))) \<and>
      msg_tag (ul_moving s' ! k) = hd (skb_cb (the (skbs w (qlist w i ! k))))" if "k < length as" for k
    using that a(1,4) by (simp add: ul_msgs_def ul_msg_def ul_xfer_def Let_def ghif_type_defs ucast_u16_of_nat)
  show ?thesis
  proof (intro exI conjI)
    show "0 < n" "n \<le> length (qlist w i)" using n by simp_all
    show "IPC_4GHIF_submit_ul e (Some ?ps) (ap y) =
      Inr (if length as < n then IPC_4GHIF_STATUS_RESOURCES_FULL else IPC_4GHIF_STATUS_OK, of_nat (length as), Some (marked (length as) ?ps), s')"
      by (rule a(2))
    show "lte_dd_sdma_tx ?e w = Inr (AMP_ERROR_NONE, w')" "DataDriverInv.ul_inv w'" by (rule run, rule w'(2))
    show "tx_busy (bus w') \<longleftrightarrow> ul_moving s' \<noteq> []" using w'(3) len by auto
    show "tx_busy (bus w') \<longrightarrow> tx_sdma_packet_cnt (bus w') = length (ul_moving s')" using w'(3,5) len by simp
    show "throttled (bus w') \<longleftrightarrow> length (ul_moving s') < n" "throttled (bus w') \<longrightarrow> b_ul_pause s'" using w'(4) len a(3) by simp_all
    show "\<forall>k < length (ul_moving s'). let b = the (skbs w (qlist w i ! k)) in
       msg_length (ul_moving s' ! k) = of_nat (skb_len (pkt b)) \<and> msg_tag (ul_moving s' ! k) = hd (skb_cb b)"
      using fr len by simp
  qed
qed

theorem uplink_transfer_agrees_witness:
  "\<exists>y i n w' st acc ps s'. ghif_reach env0 y \<and> 0 < n \<and>
     IPC_4GHIF_submit_ul env0 (Some (map (sdma \<circ> ul_xfer (lte0_sys 3 LTE_DD_FLAG_MULTI_PACKET 0 ()) i) [0..<n])) (ap y) =
       Inr (st, acc, ps, s') \<and>
     lte_dd_sdma_tx (ghif_dd_env env0 (ap y) (lte0_env (IPC_4GHIF_STATUS_OK, 3))) (lte0_sys 3 LTE_DD_FLAG_MULTI_PACKET 0 ()) =
       Inr (AMP_ERROR_NONE, w') \<and> (tx_busy (bus w') \<longleftrightarrow> ul_moving s' \<noteq> [])"
proof -
  let ?w = "lte0_sys 3 LTE_DD_FLAG_MULTI_PACKET 0 ()"
  obtain y where y: "ghif_reach env0 y" "ul_ready (ap y)" using initialised_ex by blast
  have inv: "DataDriverInv.ul_inv ?w" by (rule lte0_inv) (simp_all add: dd_flag_defs)
  have fl: "\<not> tx_busy (bus ?w)" "\<not> throttled (bus ?w)"
    by (simp_all add: tx_busy_def throttled_def lte0_sys_def lte0_bus_def Let_def dd_flag_defs)
  have 0: "0 < NETDRV_MAX_NUM_DEVICES" by (simp add: NETDRV_MAX_NUM_DEVICES_def)
  have q: "qlist ?w i = (if i = 0 then [0, 1, 2] else [])" if "i < NETDRV_MAX_NUM_DEVICES" for i
    using lte0_qlist[OF _ that, of 3 LTE_DD_FLAG_MULTI_PACKET 0 "()"] by (simp add: upt_rec)
  have "lengths_ok ?w"
    using q by (auto simp: lengths_ok_def lte0_sys_def lte0_skb_def Let_def DATA_UL_PACKET_MAX_SIZE_def split: if_splits)
  from uplink_transfer_agrees[OF inv fl this 0 _ _ y(1) env0_ok y(2), of "lte0_env (IPC_4GHIF_STATUS_OK, 3)"] q[OF 0] y(1)
  show ?thesis by (simp add: o_def) blast
qed

end
