(* ===== verification/GhifLoop.thy ===== *)
theory GhifLoop
  imports GhifReach
begin

text \<open>
  The loopback stub of the baseband, ipc_4ghif_stub_bp_loopback.c: it returns uplink frames as
  downlink frames and downlink acknowledgements as uplink acknowledgements.
\<close>

section \<open>Copying a message\<close>

lemma byte_of_u16:
  "(ucast (push_bit 8 (ucast (b :: u8)) + ucast (a :: u8) :: u16) :: u8) = a"
  "(ucast (drop_bit 8 (push_bit 8 (ucast b) + ucast a :: u16)) :: u8) = b"
proof -
  have e: "push_bit 8 (ucast b) + ucast a = (push_bit 8 (ucast b) OR ucast a :: u16)"
    by (subst disjunctive_add) (auto simp: bit_simps dest: bit_imp_le_length)
  show "(ucast (push_bit 8 (ucast b) + ucast a :: u16) :: u8) = a"
    "(ucast (drop_bit 8 (push_bit 8 (ucast b) + ucast a :: u16)) :: u8) = b"
    unfolding e by (rule bit_word_eqI; auto simp: bit_simps dest: bit_imp_le_length)+
qed

lemma bytes_of_u32:
  defines "x d c b a \<equiv> push_bit 24 (ucast (d :: u8)) + push_bit 16 (ucast (c :: u8)) + push_bit 8 (ucast (b :: u8)) + ucast (a :: u8) :: u32"
  shows "(ucast (x d c b a) :: u8) = a" "(ucast (drop_bit 8 (x d c b a)) :: u8) = b"
    "(ucast (drop_bit 16 (x d c b a)) :: u8) = c" "(ucast (drop_bit 24 (x d c b a)) :: u8) = d"
proof -
  have e: "x d c b a = ((push_bit 24 (ucast d) OR push_bit 16 (ucast c)) OR push_bit 8 (ucast b)) OR ucast a"
    unfolding x_def by (subst disjunctive_add; (auto simp: bit_simps dest!: bit_imp_le_length)?)+
  show "(ucast (x d c b a) :: u8) = a" "(ucast (drop_bit 8 (x d c b a)) :: u8) = b"
    "(ucast (drop_bit 16 (x d c b a)) :: u8) = c" "(ucast (drop_bit 24 (x d c b a)) :: u8) = d"
    unfolding e by (rule bit_word_eqI; auto simp: bit_simps dest: bit_imp_le_length)+
qed

lemma copy_msg:
  "m(w := t, w + 1 := m (r + 1), w + 2 := m (r + 2), w + 3 := m (r + 3), w + 4 := m (r + 4), w + 5 := m (r + 5),
     w + 6 := m (r + 6), w + 7 := m (r + 7)) = write_msg m w ((read_msg m r)\<lparr>msg_type := t\<rparr>)"
  by (simp add: write_msg_def read_msg_def put32_def get32_def byte_of_u16 bytes_of_u32)
    (simp add: add.commute)

section \<open>Frames\<close>

definition is_ul_frame :: "fifo_msg \<Rightarrow> bool" where
  "is_ul_frame msg \<longleftrightarrow> msg_type msg = eIPC_MSG_TYPE_UL_DATA \<or> msg_type msg = eIPC_MSG_TYPE_UL_MGMT"

definition returned_frame :: "fifo_msg \<Rightarrow> fifo_msg" where
  "returned_frame msg =
     msg\<lparr>msg_type := (if msg_type msg = eIPC_MSG_TYPE_UL_DATA then eIPC_MSG_TYPE_DL_DATA else eIPC_MSG_TYPE_DL_MGMT)\<rparr>"

lemma ring8_full: "w + 1 = r \<longleftrightarrow> length (ring f r w) = 255"
proof -
  have "w + 1 = r \<longleftrightarrow> w - r = - 1" by (auto simp: algebra_simps)
  also have "\<dots> \<longleftrightarrow> unat (w - r) = 255" by (simp add: word_unat_eq_iff unsigned_minus_1_eq_mask mask_eq_exp_minus_1)
  finally show ?thesis by simp
qed

definition loop_one :: "shm \<Rightarrow> shm" where
  "loop_one m =
     (let r = FIFO_UL_BASE + 8 * unat (m FIFO_UL_READ_IND); w = FIFO_DL_BASE + 8 * unat (m FIFO_DL_WRITE_IND) in
      (if m r = eIPC_MSG_TYPE_UL_DATA \<or> m r = eIPC_MSG_TYPE_UL_MGMT then
         (m(w := (if m r = eIPC_MSG_TYPE_UL_DATA then eIPC_MSG_TYPE_DL_DATA else eIPC_MSG_TYPE_DL_MGMT),
            w + 1 := m (r + 1), w + 2 := m (r + 2), w + 3 := m (r + 3), w + 4 := m (r + 4),
            w + 5 := m (r + 5), w + 6 := m (r + 6), w + 7 := m (r + 7)))
           (FIFO_DL_WRITE_IND := m FIFO_DL_WRITE_IND + 1)
       else m)(FIFO_UL_READ_IND := m FIFO_UL_READ_IND + 1))"

lemma loopback_unfold:
  "loopback_frames s =
     (if ul_queue (shared s) = [] then Some (Inr s)
      else if length (dl_queue (shared s)) = 255 then Some (Inl Panic)
      else loopback_frames (s\<lparr>shared := loop_one (shared s)\<rparr>))"
proof -
  let ?m = "shared s"
  have "(?m FIFO_UL_READ_IND = ?m FIFO_UL_WRITE_IND) = (ul_queue ?m = [])" by (simp add: ul_queue_def ring_empty)
  moreover have "(?m FIFO_DL_WRITE_IND + 1 = ?m FIFO_DL_READ_IND) = (length (dl_queue ?m) = 255)"
    unfolding dl_queue_def by (rule ring8_full)
  ultimately show ?thesis unfolding loopback_frames.simps[of s] Let_def loop_one_def by (simp only:)
qed

lemma loop_one_queues:
  assumes "ul_queue m = msg # q" "length (dl_queue m) < 255"
  shows "queues (loop_one m) = (q, dl_queue m @ map returned_frame (filter is_ul_frame [msg]), ul_acks m, dl_acks m)"
proof -
  let ?r = "m FIFO_UL_READ_IND" and ?w = "m FIFO_DL_WRITE_IND"
  have "?r \<noteq> m FIFO_UL_WRITE_IND" using assms(1) by (metis list.discI ring_empty ul_queue_def)
  from ring_pop[OF this, of "\<lambda>i. read_msg m (FIFO_UL_BASE + unat i * 8)"]
  have msg: "msg = read_msg m (FIFO_UL_BASE + unat ?r * 8)" using assms(1) by (simp add: ul_queue_def)
  have ty: "m (FIFO_UL_BASE + 8 * unat ?r) = msg_type msg" by (simp add: msg read_msg_def mult.commute)
  let ?m1 = "if is_ul_frame msg then (write_msg m (FIFO_DL_BASE + unat ?w * 8) (returned_frame msg))(FIFO_DL_WRITE_IND := ?w + 1) else m"
  have one: "loop_one m = ?m1(FIFO_UL_READ_IND := ?r + 1)"
    unfolding loop_one_def Let_def copy_msg ty by (simp add: is_ul_frame_def returned_frame_def msg mult.commute)
  have q1: "queues ?m1 = (msg # q, dl_queue m @ map returned_frame (filter is_ul_frame [msg]), ul_acks m, dl_acks m)"
    using append_dl[OF assms(2), of "returned_frame msg"] assms(1) by (simp add: queues_def)
  have "?m1 FIFO_UL_READ_IND = ?r" using write_dl_slot(1)[of FIFO_UL_READ_IND m ?w "returned_frame msg"] by (simp add: shm_layout)
  then show ?thesis using advance_read(1)[of 1 ?m1] q1 one by (simp add: queues_split)
qed

lemma loopback_returns: "\<exists>r. loopback_frames s = Some r \<and> r \<noteq> Inl Diverges \<and>
    (length (dl_queue (shared s)) + length (ul_queue (shared s)) \<le> 255 \<longrightarrow>
      (\<exists>s'. r = Inr s' \<and> queues (shared s') = ([], dl_queue (shared s) @ map returned_frame (filter is_ul_frame (ul_queue (shared s))),
         ul_acks (shared s), dl_acks (shared s))))"
proof (induction "ul_queue (shared s)" arbitrary: s)
  case Nil
  then show ?case by (subst loopback_unfold) (simp add: queues_def)
next
  case (Cons msg q)
  show ?case
  proof (cases "length (dl_queue (shared s)) = 255")
    case True
    then show ?thesis using Cons.hyps(2)[symmetric] by (subst loopback_unfold) simp
  next
    case False
    let ?s = "s\<lparr>shared := loop_one (shared s)\<rparr>"
    have "length (dl_queue (shared s)) < 256" by (simp add: dl_queue_def unat_u8_less)
    with False have q: "queues (shared ?s) = (q, dl_queue (shared s) @ map returned_frame (filter is_ul_frame [msg]),
        ul_acks (shared s), dl_acks (shared s))"
      using loop_one_queues[OF Cons.hyps(2)[symmetric]] by simp
    have "loopback_frames s = loopback_frames ?s" using Cons.hyps(2)[symmetric] False by (subst loopback_unfold) simp
    moreover have "length (filter is_ul_frame [msg]) \<le> 1" by simp
    ultimately show ?thesis using Cons.hyps(1)[of ?s] q Cons.hyps(2)[symmetric] by (auto simp: queues_split split: if_splits)
  qed
qed

text \<open>
  C31. The loopback stub always returns. When the downlink ring has room for the waiting uplink
  messages it empties the uplink ring and puts its frames, with the types of the downlink and
  otherwise unchanged, into the downlink ring in order, and raises the interrupt.
\<close>

theorem simulate_loopback_bp_frames_returns:
  "simulate_loopback_bp_frames s \<noteq> Inl Diverges \<and>
   (length (dl_queue (shared s)) + length (ul_queue (shared s)) \<le> 255 \<longrightarrow>
     (\<exists>s'. simulate_loopback_bp_frames s = Inr s' \<and> mbox2 s' > 0 \<and>
        queues (shared s') = ([], dl_queue (shared s) @ map returned_frame (filter is_ul_frame (ul_queue (shared s))),
          ul_acks (shared s), dl_acks (shared s))))"
proof -
  obtain r where r: "loopback_frames s = Some r" "r \<noteq> Inl Diverges"
    "length (dl_queue (shared s)) + length (ul_queue (shared s)) \<le> 255 \<longrightarrow>
      (\<exists>s'. r = Inr s' \<and> queues (shared s') = ([], dl_queue (shared s) @ map returned_frame (filter is_ul_frame (ul_queue (shared s))),
         ul_acks (shared s), dl_acks (shared s)))"
    using loopback_returns by blast
  then show ?thesis by (cases r) (auto simp: simulate_loopback_bp_frames_def)
qed

text \<open>One uplink frame in an otherwise empty memory.\<close>

definition ul_frame :: fifo_msg where
  "ul_frame = \<lparr>msg_type = eIPC_MSG_TYPE_UL_DATA, msg_tag = 5, msg_length = 1400, start_address = 0x81080000\<rparr>"

definition one_frame :: shm where
  "one_frame = (write_msg (\<lambda>_. 0) FIFO_UL_BASE ul_frame)(FIFO_UL_WRITE_IND := 1)"

lemma one_frame_queues: "queues one_frame = ([ul_frame], [], [], [])"
proof -
  have "queues (\<lambda>_. 0) = ([], [], [], [])" by (simp add: queues_def queue_defs ring_empty)
  then show ?thesis using append_ul[of "\<lambda>_. 0" ul_frame] by (simp add: one_frame_def queues_split)
qed

theorem simulate_loopback_bp_frames_returns_witness:
  "\<exists>s'. simulate_loopback_bp_frames (ghif_boot one_frame) = Inr s' \<and> ul_queue (shared s') = [] \<and>
     dl_queue (shared s') = [ul_frame\<lparr>msg_type := eIPC_MSG_TYPE_DL_DATA\<rparr>]"
  using simulate_loopback_bp_frames_returns[of "ghif_boot one_frame"] one_frame_queues
  by (auto simp: ghif_boot_def queues_split is_ul_frame_def returned_frame_def ul_frame_def)

end
