(* ===== verification/DdCmds.thy ===== *)
theory DdCmds
  imports UplinkQos Ghif
begin

text \<open>
  The commands of the data driver, src/kernel/drivers/lte/lte_data_driver/lte_data_driver_cmds.c,
  and what is done with them, \<open>lte_dd_process_dd_cmds\<close> and \<open>ltedd_proc_write\<close> of
  lte_data_driver_main_sdma.c. A text written to the proc file is cut into tokens, each token into a
  command and its parameters, and these are stored in an array of structures with a union; the
  array is then executed. The array is modelled as its bytes: the structures have the layout of the
  32-bit little-endian ABI, and a store outside of the array is a fault. The functions of the
  kernel library the parser calls (lib/vsprintf.c, lib/ctype.c) are modelled as far as they are
  used. A C string is the list of its characters before the terminating NUL.
\<close>

section \<open>Characters and numbers\<close>

definition isspace :: "char \<Rightarrow> bool" where
  "isspace c = (let n = of_char c :: nat in 9 \<le> n \<and> n \<le> 13 \<or> n = 32 \<or> n = 160)"

definition isdigit :: "char \<Rightarrow> bool" where
  "isdigit c = (let n = of_char c :: nat in 48 \<le> n \<and> n \<le> 57)"

definition isxdigit :: "char \<Rightarrow> bool" where
  "isxdigit c = (let n = of_char c :: nat in isdigit c \<or> 65 \<le> n \<and> n \<le> 70 \<or> 97 \<le> n \<and> n \<le> 102)"

definition digit_value :: "char \<Rightarrow> nat" where
  "digit_value c = (let n = of_char c :: nat in
     if isdigit c then n - 48 else if 97 \<le> n then n - 97 + 10 else n - 65 + 10)"

fun strtoul_digits :: "nat \<Rightarrow> string \<Rightarrow> u32 \<Rightarrow> u32" where
  "strtoul_digits base [] acc = acc"
| "strtoul_digits base (c # cs) acc =
     (if isxdigit c \<and> digit_value c < base then strtoul_digits base cs (acc * of_nat base + of_nat (digit_value c)) else acc)"

definition simple_strtoul :: "string \<Rightarrow> nat \<Rightarrow> u32" where
  "simple_strtoul cp base =
     (case cp of
        a # x # cs \<Rightarrow> if base = 16 \<and> a = CHR ''0'' \<and> (x = CHR ''x'' \<or> x = CHR ''X'')
          then strtoul_digits base cs 0 else strtoul_digits base cp 0
      | _ \<Rightarrow> strtoul_digits base cp 0)"

definition simple_strtol :: "string \<Rightarrow> nat \<Rightarrow> u32" where
  "simple_strtol cp base =
     (case cp of c # cs \<Rightarrow> if c = CHR ''-'' then - simple_strtoul cs base else simple_strtoul cp base
      | [] \<Rightarrow> simple_strtoul cp base)"

text \<open>\<open>sscanf\<close> with the format \<open>%d\<close>: nothing is stored when no digit follows the sign.\<close>

definition sscanf_d :: "string \<Rightarrow> u32 option" where
  "sscanf_d str =
     (let s = dropWhile isspace str;
          d = (case s of c # cs \<Rightarrow> if c = CHR ''-'' then cs else s | [] \<Rightarrow> []) in
      case d of c # _ \<Rightarrow> if isdigit c then Some (simple_strtol s 10) else None | [] \<Rightarrow> None)"

text \<open>
  \<open>sscanf\<close> with \<open>k\<close> conversions \<open>%127s\<close>. A conversion is tried while there is text left, be it only
  white space, and then succeeds with the empty word.
\<close>

fun sscanf_words :: "nat \<Rightarrow> string \<Rightarrow> string list" where
  "sscanf_words 0 s = []"
| "sscanf_words (Suc k) s =
     (if s = [] then []
      else let s1 = dropWhile isspace s; w = take 127 (takeWhile (\<lambda>c. \<not> isspace c) s1) in
        w # sscanf_words k (drop (length w) s1))"

section \<open>Tokens\<close>

text \<open>
  \<open>__strtok\<close>: the token and the static variable \<open>last\<close> it leaves, given the text that remains.
\<close>

definition strtok :: "string option \<Rightarrow> string \<Rightarrow> string option \<times> string option" where
  "strtok s delim =
     (case s of
        None \<Rightarrow> (None, None)
      | Some text \<Rightarrow>
          let s1 = dropWhile (\<lambda>c. c \<in> set delim) text; tok = takeWhile (\<lambda>c. c \<notin> set delim) s1; rest = drop (length tok) s1 in
          if s1 = [] then (None, None)
          else (Some tok, if rest = [] then None else Some (tl rest)))"

definition replace_with_whitespace :: "string \<Rightarrow> string \<Rightarrow> string" where
  "replace_with_whitespace s hits = map (\<lambda>c. if c \<in> set hits then CHR '' '' else c) s"

definition strlwr :: "string \<Rightarrow> string" where
  "strlwr s = map to_lower s"

section \<open>Storing parameters\<close>

definition mem_put :: "u8 list \<Rightarrow> nat \<Rightarrow> u8 list \<Rightarrow> u8 list res" where
  "mem_put mem a bs =
     (if a + length bs \<le> length mem then Inr (take a mem @ bs @ drop (a + length bs) mem) else Inl OutOfBounds)"

definition mem_get :: "u8 list \<Rightarrow> nat \<Rightarrow> nat \<Rightarrow> u8 list" where
  "mem_get mem a n = take n (drop a mem)"

definition long_bytes :: "u32 \<Rightarrow> u8 list" where
  "long_bytes x = [ucast x, ucast (drop_bit 8 x), ucast (drop_bit 16 x), ucast (drop_bit 24 x)]"

definition bytes_long :: "u8 list \<Rightarrow> u32" where
  "bytes_long bs = ucast (bs ! 0) OR push_bit 8 (ucast (bs ! 1)) OR push_bit 16 (ucast (bs ! 2)) OR push_bit 24 (ucast (bs ! 3))"

definition char_byte :: "char \<Rightarrow> u8" where
  "char_byte c = of_nat (of_char c)"

definition byte_char :: "u8 \<Rightarrow> char" where
  "byte_char b = char_of (unat b)"

definition stringParser :: "u8 list \<Rightarrow> nat \<Rightarrow> string \<Rightarrow> int \<Rightarrow> int \<Rightarrow> u8 list res" where
  "stringParser mem dest src param1 param2 =
     (let n = nat param1 - 1 in mem_put mem dest (take n (map char_byte src @ replicate n 0) @ [0]))"

definition COERCE_VAL :: "int \<Rightarrow> int \<Rightarrow> int \<Rightarrow> int" where
  "COERCE_VAL val mn mx = (if val < mn then mn else if mx < val then mx else val)"

definition longParser :: "u8 list \<Rightarrow> nat \<Rightarrow> string \<Rightarrow> int \<Rightarrow> int \<Rightarrow> u8 list res" where
  "longParser mem dest src param1 param2 =
     (let ival = (case sscanf_d src of None \<Rightarrow> 0 | Some v \<Rightarrow> sint v) in
      mem_put mem dest (long_bytes (word_of_int (COERCE_VAL ival param1 param2))))"

definition macParser :: "u8 list \<Rightarrow> nat \<Rightarrow> string \<Rightarrow> int \<Rightarrow> int \<Rightarrow> u8 list res" where
  "macParser mem dest src param1 param2 =
     (if length src \<noteq> ETH_ALEN * 2 then mem_put mem dest (replicate ETH_ALEN 0)
      else mem_put mem dest (map (\<lambda>i. ucast (simple_strtoul (take 2 (drop (i * 2) src)) 16)) [0..<ETH_ALEN]))"

section \<open>The table of commands\<close>

definition LTE_DD_MIN_EPS :: int where "LTE_DD_MIN_EPS = 0"
definition LTE_DD_MAX_EPS :: int where "LTE_DD_MAX_EPS = 15"
definition MAX_DD_CMD_ARRAY :: nat where "MAX_DD_CMD_ARRAY = 64"
definition AMP_LOG_LEVEL_ERROR :: int where "AMP_LOG_LEVEL_ERROR = 2"
definition AMP_LOG_LEVEL_DEBUG3 :: int where "AMP_LOG_LEVEL_DEBUG3 = 6"

datatype lte_dd_cmd_id_t =
    lte_dd_cmd_net_new | lte_dd_cmd_net_delete | lte_dd_cmd_net_eps | lte_dd_cmd_net_eps_mac_map_add_dl
  | lte_dd_cmd_net_eps_mac_map_rm_dl | lte_dd_cmd_net_bridge_mode_dl | lte_dd_cmd_net_eps_mac_map_add_ul
  | lte_dd_cmd_net_eps_mac_map_rm_ul | lte_dd_cmd_net_bridge_mode_ul | lte_dd_cmd_net_priority | lte_dd_cmd_net_log
  | lte_dd_cmd_net_perf_test | lte_dd_cmd_dd_log | lte_dd_cmd_dd_ul_packet_profile | lte_dd_cmd_dd_dl_packet_profile
  | lte_dd_cmd_dd_multipacket | lte_dd_cmd_dd_lpbp_mode | lte_dd_cmd_dd_disable_ul | lte_dd_cmd_qos_log
  | lte_dd_cmd_qos_mode | lte_dd_cmd_hif_cmd

text \<open>The identifiers in the order of the enumeration.\<close>

definition cmd_ids :: "lte_dd_cmd_id_t list" where
  "cmd_ids = [lte_dd_cmd_net_new, lte_dd_cmd_net_delete, lte_dd_cmd_net_eps, lte_dd_cmd_net_eps_mac_map_add_dl,
     lte_dd_cmd_net_eps_mac_map_rm_dl, lte_dd_cmd_net_bridge_mode_dl, lte_dd_cmd_net_eps_mac_map_add_ul,
     lte_dd_cmd_net_eps_mac_map_rm_ul, lte_dd_cmd_net_bridge_mode_ul, lte_dd_cmd_net_priority, lte_dd_cmd_net_log,
     lte_dd_cmd_net_perf_test, lte_dd_cmd_dd_log, lte_dd_cmd_dd_ul_packet_profile, lte_dd_cmd_dd_dl_packet_profile,
     lte_dd_cmd_dd_multipacket, lte_dd_cmd_dd_lpbp_mode, lte_dd_cmd_dd_disable_ul, lte_dd_cmd_qos_log,
     lte_dd_cmd_qos_mode, lte_dd_cmd_hif_cmd]"

fun index_of :: "'a list \<Rightarrow> 'a \<Rightarrow> nat" where
  "index_of [] x = 0"
| "index_of (y # ys) x = (if x = y then 0 else Suc (index_of ys x))"

definition cmd_code :: "lte_dd_cmd_id_t \<Rightarrow> u32" where
  "cmd_code i = of_nat (index_of cmd_ids i)"

datatype PARSINGFUNC = StringParser | LongParser | MacParser

record PARSING_INFO =
  parsingFunc :: PARSINGFUNC
  paramDestOffset :: nat
  funcParam1 :: int
  funcParam2 :: int

definition run_parser :: "PARSINGFUNC \<Rightarrow> u8 list \<Rightarrow> nat \<Rightarrow> string \<Rightarrow> int \<Rightarrow> int \<Rightarrow> u8 list res" where
  "run_parser f = (case f of StringParser \<Rightarrow> stringParser | LongParser \<Rightarrow> longParser | MacParser \<Rightarrow> macParser)"

record COMMAND_INFO =
  cmdString :: string
  commandId :: lte_dd_cmd_id_t
  cmdParams :: "PARSING_INFO list"

definition string_param :: "nat \<Rightarrow> PARSING_INFO" where
  "string_param off = \<lparr>parsingFunc = StringParser, paramDestOffset = off, funcParam1 = int NETDRV_MAX_DEV_NAME, funcParam2 = 0\<rparr>"

definition long_param :: "nat \<Rightarrow> int \<Rightarrow> int \<Rightarrow> PARSING_INFO" where
  "long_param off mn mx = \<lparr>parsingFunc = LongParser, paramDestOffset = off, funcParam1 = mn, funcParam2 = mx\<rparr>"

definition mac_param :: "nat \<Rightarrow> PARSING_INFO" where
  "mac_param off = \<lparr>parsingFunc = MacParser, paramDestOffset = off, funcParam1 = 0, funcParam2 = 0\<rparr>"

text \<open>
  The parameters of each command with the offset of the member they go to. \<open>eps_id\<close> and \<open>priority\<close>
  are single bytes, but the parser of numbers stores four.
\<close>

fun params_of :: "lte_dd_cmd_id_t \<Rightarrow> PARSING_INFO list" where
  "params_of lte_dd_cmd_net_new = [string_param 0, long_param NETDRV_MAX_DEV_NAME LTE_DD_MIN_EPS LTE_DD_MAX_EPS,
     long_param (NETDRV_MAX_DEV_NAME + 1) 0 255]"
| "params_of lte_dd_cmd_net_delete = [string_param 0]"
| "params_of lte_dd_cmd_net_eps = [string_param 0, long_param NETDRV_MAX_DEV_NAME LTE_DD_MIN_EPS LTE_DD_MAX_EPS]"
| "params_of lte_dd_cmd_net_eps_mac_map_add_dl = [long_param 0 LTE_DD_MIN_EPS LTE_DD_MAX_EPS, mac_param 1]"
| "params_of lte_dd_cmd_net_eps_mac_map_rm_dl = [long_param 0 LTE_DD_MIN_EPS LTE_DD_MAX_EPS]"
| "params_of lte_dd_cmd_net_bridge_mode_dl = [long_param 0 0 1]"
| "params_of lte_dd_cmd_net_eps_mac_map_add_ul = [long_param 0 LTE_DD_MIN_EPS LTE_DD_MAX_EPS, mac_param 1]"
| "params_of lte_dd_cmd_net_eps_mac_map_rm_ul = [long_param 0 LTE_DD_MIN_EPS LTE_DD_MAX_EPS]"
| "params_of lte_dd_cmd_net_bridge_mode_ul = [long_param 0 0 1]"
| "params_of lte_dd_cmd_net_priority = [string_param 0, long_param NETDRV_MAX_DEV_NAME 0 255]"
| "params_of lte_dd_cmd_net_log = [long_param 0 AMP_LOG_LEVEL_ERROR AMP_LOG_LEVEL_DEBUG3]"
| "params_of lte_dd_cmd_net_perf_test = [long_param 0 1 (5 * 60), long_param 4 64 NETDRV_MTU, long_param 8 0 0x7FFFFFFF]"
| "params_of lte_dd_cmd_dd_log = [long_param 0 AMP_LOG_LEVEL_ERROR AMP_LOG_LEVEL_DEBUG3]"
| "params_of lte_dd_cmd_dd_ul_packet_profile = [long_param 0 0 1, long_param 4 0 1]"
| "params_of lte_dd_cmd_dd_dl_packet_profile = [long_param 0 0 1, long_param 4 0 1]"
| "params_of lte_dd_cmd_dd_multipacket = [long_param 0 0 1]"
| "params_of lte_dd_cmd_dd_lpbp_mode = [long_param 0 0 1]"
| "params_of lte_dd_cmd_dd_disable_ul = [long_param 0 0 1]"
| "params_of lte_dd_cmd_qos_log = [long_param 0 AMP_LOG_LEVEL_ERROR AMP_LOG_LEVEL_DEBUG3]"
| "params_of lte_dd_cmd_qos_mode = [long_param 0 0 1]"
| "params_of lte_dd_cmd_hif_cmd = [long_param 0 (- 2147483647) 2147483647]"

fun cmd_str_of :: "lte_dd_cmd_id_t \<Rightarrow> string" where
  "cmd_str_of lte_dd_cmd_net_new = ''net_new''"
| "cmd_str_of lte_dd_cmd_net_delete = ''net_delete''"
| "cmd_str_of lte_dd_cmd_net_eps = ''net_eps''"
| "cmd_str_of lte_dd_cmd_net_eps_mac_map_add_dl = ''net_eps_mac_map_add_dl''"
| "cmd_str_of lte_dd_cmd_net_eps_mac_map_rm_dl = ''net_eps_mac_map_rm_dl''"
| "cmd_str_of lte_dd_cmd_net_bridge_mode_dl = ''net_bridge_mode_dl''"
| "cmd_str_of lte_dd_cmd_net_eps_mac_map_add_ul = ''net_eps_mac_map_add_ul''"
| "cmd_str_of lte_dd_cmd_net_eps_mac_map_rm_ul = ''net_eps_mac_map_rm_ul''"
| "cmd_str_of lte_dd_cmd_net_bridge_mode_ul = ''net_bridge_mode_ul''"
| "cmd_str_of lte_dd_cmd_net_priority = ''net_priority''"
| "cmd_str_of lte_dd_cmd_net_log = ''net_log''"
| "cmd_str_of lte_dd_cmd_net_perf_test = ''net_perf_test''"
| "cmd_str_of lte_dd_cmd_dd_log = ''dd_log''"
| "cmd_str_of lte_dd_cmd_dd_ul_packet_profile = ''dd_ul_packet_profile''"
| "cmd_str_of lte_dd_cmd_dd_dl_packet_profile = ''dd_dl_packet_profile''"
| "cmd_str_of lte_dd_cmd_dd_multipacket = ''dd_multipacket''"
| "cmd_str_of lte_dd_cmd_dd_lpbp_mode = ''dd_lpbp_mode''"
| "cmd_str_of lte_dd_cmd_dd_disable_ul = ''dd_disable_ul''"
| "cmd_str_of lte_dd_cmd_qos_log = ''qos_log''"
| "cmd_str_of lte_dd_cmd_qos_mode = ''qos_mode''"
| "cmd_str_of lte_dd_cmd_hif_cmd = ''hif_cmd''"

definition commandList :: "COMMAND_INFO list" where
  "commandList = map (\<lambda>i. \<lparr>cmdString = cmd_str_of i, commandId = i, cmdParams = params_of i\<rparr>) cmd_ids"

section \<open>Parsing\<close>

text \<open>
  The size of a command structure: the four bytes of the identifier and the union, whose largest
  member \<open>net_new\<close> has 130 bytes and is padded to a multiple of four.
\<close>

definition sizeof_cmd :: nat where "sizeof_cmd = 136"

fun run_params :: "PARSING_INFO list \<Rightarrow> string list \<Rightarrow> nat \<Rightarrow> u8 list \<Rightarrow> u8 list res" where
  "run_params (p # ps) (w # ws) base mem =
     rbind (run_parser (parsingFunc p) mem (base + paramDestOffset p) w (funcParam1 p) (funcParam2 p)) (run_params ps ws base)"
| "run_params _ _ base mem = Inr mem"

text \<open>
  One token. A parameter is read only when the scan of this token has stored it, so that what the
  buffers held before does not matter. The result says whether the array is full.
\<close>

definition parse_token :: "string \<Rightarrow> u8 list \<times> nat \<Rightarrow> (bool \<times> u8 list \<times> nat) res" where
  "parse_token token st =
     (case st of (mem, populated) \<Rightarrow>
        (case sscanf_words 4 (replace_with_whitespace token '':;'') of
           [] \<Rightarrow> Inr (False, mem, populated)
         | commandStr # param \<Rightarrow>
             (case find (\<lambda>ci. cmdString ci = commandStr) commandList of
                None \<Rightarrow> Inr (False, mem, populated)
              | Some ci \<Rightarrow>
                  if length param < length (cmdParams ci) then Inr (False, mem, populated)
                  else let pcmd = populated * sizeof_cmd in
                    rbind (mem_put mem pcmd (long_bytes (cmd_code (commandId ci)))) (\<lambda>mem1.
                    rbind (run_params (cmdParams ci) param (pcmd + 4) mem1) (\<lambda>mem2.
                    Inr (populated + 1 = MAX_DD_CMD_ARRAY, mem2, populated + 1))))))"

definition dd_seps :: string where
  "dd_seps = [CHR '' '', CHR '','', CHR 0x09, CHR 0x0A]"

lemma strtok_shorter:
  assumes "strtok (Some s) delim = (Some t, Some r)"
  shows "length r < length s"
proof -
  let ?s1 = "dropWhile (\<lambda>c. c \<in> set delim) s"
  obtain n where r: "drop n ?s1 \<noteq> []" "r = tl (drop n ?s1)"
    using assms by (auto simp: strtok_def Let_def split: if_splits)
  then have "length r < length (drop n ?s1)" by simp
  also have "\<dots> \<le> length s" using length_dropWhile_le[of "\<lambda>c. c \<in> set delim" s] by simp
  finally show ?thesis .
qed

function parse_tokens :: "string option \<times> string option \<Rightarrow> u8 list \<times> nat \<Rightarrow> (u8 list \<times> nat) res" where
  "parse_tokens (None, rest) st = Inr st"
| "parse_tokens (Some token, rest) st =
     (case parse_token token st of
        Inl f \<Rightarrow> Inl f
      | Inr (full, st1) \<Rightarrow> if full then Inr st1 else parse_tokens (strtok rest dd_seps) st1)"
  by pat_completeness auto

termination
proof (relation "measure (\<lambda>((t, rest), _). case t of None \<Rightarrow> 0 | Some _ \<Rightarrow> (case rest of None \<Rightarrow> 1 | Some s \<Rightarrow> 2 + length s))")
  fix token rest st x full st1
  show "((strtok rest dd_seps, st1), (Some token, rest), st) \<in>
    measure (\<lambda>((t, rest), _). case t of None \<Rightarrow> 0 | Some _ \<Rightarrow> (case rest of None \<Rightarrow> 1 | Some s \<Rightarrow> 2 + length s))"
    using strtok_shorter[of _ dd_seps] by (cases rest) (fastforce simp: strtok_def[of None] split: prod.splits option.splits)+
qed simp

text \<open>
  \<open>lte_dd_parse_dd_cmds\<close>. \<open>sizeof\<close> of the parameter \<open>cmd_array\<close> is that of a pointer, so the first
  four bytes are cleared. \<open>km\<close> is the answer of \<open>kmalloc\<close>.
\<close>

definition lte_dd_parse_dd_cmds ::
  "bool \<Rightarrow> string option \<Rightarrow> u8 list option \<Rightarrow> nat option \<Rightarrow> (int \<times> u8 list option \<times> nat option) res" where
  "lte_dd_parse_dd_cmds km cmd_str cmd_array populated =
     (case (cmd_str, cmd_array, populated) of
        (Some text, Some mem, Some _) \<Rightarrow>
          rbind (mem_put mem 0 (replicate 4 0)) (\<lambda>mem1.
          if text = [] then Inr (- 2, Some mem1, Some 0)
          else if \<not> km then Inr (- 3, Some mem1, Some 0)
          else rbind (parse_tokens (strtok (Some (strlwr text)) dd_seps) (mem1, 0)) (\<lambda>(mem2, n).
            Inr (0, Some mem2, Some n)))
      | _ \<Rightarrow> Inr (- 1, cmd_array, populated))"

section \<open>Execution\<close>

text \<open>The contents of a command structure: the identifier with the members of its part of the union.\<close>

datatype dd_cmd =
    Net_new string u8 u8 | Net_delete string | Net_eps string u8 | Mac_map_add_dl u8 "u8 list" | Mac_map_rm_dl u8
  | Bridge_mode_dl u32 | Mac_map_add_ul u8 "u8 list" | Mac_map_rm_ul u8 | Bridge_mode_ul u32 | Net_priority string u8
  | Net_log u32 | Net_perf_test u32 u32 u32 | Dd_log u32 | Ul_packet_profile u32 u32 | Dl_packet_profile u32 u32
  | Multipacket u32 | Lpbp_mode u32 | Disable_ul u32 | Qos_log u32 | Qos_mode u32 | Hif_cmd u32

definition get_string :: "u8 list \<Rightarrow> nat \<Rightarrow> string" where
  "get_string mem a = map byte_char (takeWhile (\<lambda>b. b \<noteq> 0) (mem_get mem a NETDRV_MAX_DEV_NAME))"

definition get_byte :: "u8 list \<Rightarrow> nat \<Rightarrow> u8" where
  "get_byte mem a = hd (mem_get mem a 1)"

definition get_long :: "u8 list \<Rightarrow> nat \<Rightarrow> u32" where
  "get_long mem a = bytes_long (mem_get mem a 4)"

definition get_mac :: "u8 list \<Rightarrow> nat \<Rightarrow> u8 list" where
  "get_mac mem a = mem_get mem a ETH_ALEN"

fun read_data :: "u8 list \<Rightarrow> nat \<Rightarrow> lte_dd_cmd_id_t \<Rightarrow> dd_cmd" where
  "read_data mem a lte_dd_cmd_net_new =
     Net_new (get_string mem a) (get_byte mem (a + NETDRV_MAX_DEV_NAME)) (get_byte mem (a + NETDRV_MAX_DEV_NAME + 1))"
| "read_data mem a lte_dd_cmd_net_delete = Net_delete (get_string mem a)"
| "read_data mem a lte_dd_cmd_net_eps = Net_eps (get_string mem a) (get_byte mem (a + NETDRV_MAX_DEV_NAME))"
| "read_data mem a lte_dd_cmd_net_eps_mac_map_add_dl = Mac_map_add_dl (get_byte mem a) (get_mac mem (a + 1))"
| "read_data mem a lte_dd_cmd_net_eps_mac_map_rm_dl = Mac_map_rm_dl (get_byte mem a)"
| "read_data mem a lte_dd_cmd_net_bridge_mode_dl = Bridge_mode_dl (get_long mem a)"
| "read_data mem a lte_dd_cmd_net_eps_mac_map_add_ul = Mac_map_add_ul (get_byte mem a) (get_mac mem (a + 1))"
| "read_data mem a lte_dd_cmd_net_eps_mac_map_rm_ul = Mac_map_rm_ul (get_byte mem a)"
| "read_data mem a lte_dd_cmd_net_bridge_mode_ul = Bridge_mode_ul (get_long mem a)"
| "read_data mem a lte_dd_cmd_net_priority = Net_priority (get_string mem a) (get_byte mem (a + NETDRV_MAX_DEV_NAME))"
| "read_data mem a lte_dd_cmd_net_log = Net_log (get_long mem a)"
| "read_data mem a lte_dd_cmd_net_perf_test = Net_perf_test (get_long mem a) (get_long mem (a + 4)) (get_long mem (a + 8))"
| "read_data mem a lte_dd_cmd_dd_log = Dd_log (get_long mem a)"
| "read_data mem a lte_dd_cmd_dd_ul_packet_profile = Ul_packet_profile (get_long mem a) (get_long mem (a + 4))"
| "read_data mem a lte_dd_cmd_dd_dl_packet_profile = Dl_packet_profile (get_long mem a) (get_long mem (a + 4))"
| "read_data mem a lte_dd_cmd_dd_multipacket = Multipacket (get_long mem a)"
| "read_data mem a lte_dd_cmd_dd_lpbp_mode = Lpbp_mode (get_long mem a)"
| "read_data mem a lte_dd_cmd_dd_disable_ul = Disable_ul (get_long mem a)"
| "read_data mem a lte_dd_cmd_qos_log = Qos_log (get_long mem a)"
| "read_data mem a lte_dd_cmd_qos_mode = Qos_mode (get_long mem a)"
| "read_data mem a lte_dd_cmd_hif_cmd = Hif_cmd (get_long mem a)"

definition read_cmd :: "u8 list \<Rightarrow> nat \<Rightarrow> dd_cmd option" where
  "read_cmd mem base =
     (let code = unat (get_long mem base) in
      if code < length cmd_ids then Some (read_data mem (base + 4) (cmd_ids ! code)) else None)"

text \<open>
  The drivers below: network driver, data driver and QoS agent in one state, and the baseband
  interface. \<open>cmd_env\<close> has the answers of the kernel when the command of that number creates an
  interface, and the device.
\<close>

type_synonym drivers = "(qa_state \<times> cla_state) dd_sys \<times> ghif"

record cmd_env =
  new_obj :: "nat \<Rightarrow> bool"
  new_data :: "nat \<Rightarrow> u32 \<Rightarrow> addr list option"
  new_dev :: "nat \<Rightarrow> ptr"
  new_reg :: "nat \<Rightarrow> int"
  g_pdev :: ptr

definition dd_cmd_net_priority :: "'q dd_sys \<Rightarrow> string \<Rightarrow> u8 \<Rightarrow> 'q dd_sys res" where
  "dd_cmd_net_priority w name prio =
     (case lte_dd_ni_interface_find_ifname w (Some name) of
        None \<Rightarrow> Inr w
      | Some i \<Rightarrow> upd_ni w i (\<lambda>ni. ni\<lparr>priority := prio\<rparr>))"

definition set_dd_flag :: "'q dd_sys \<Rightarrow> u32 \<Rightarrow> u32 \<Rightarrow> 'q dd_sys" where
  "set_dd_flag w flag en =
     upd_bus w (\<lambda>d. d\<lparr>dd_flags := if en \<noteq> 0 then dd_flags d OR flag else dd_flags d AND NOT flag\<rparr>)"

definition profile_log :: "u32 \<Rightarrow> u32 \<Rightarrow> tsl_log_t option \<Rightarrow> tsl_log_t option res" where
  "profile_log en reset p =
     rbind (if reset \<noteq> 0 then rbind (tsl_reset p) (\<lambda>(_, p1). Inr p1) else Inr p) (\<lambda>p1. Inr (snd (tsl_enable p1 en)))"

definition qa_mac_map :: "u8 \<Rightarrow> u8 list option \<Rightarrow> ('b, qa_state \<times> cla_state) lte_sys \<Rightarrow> ('b, qa_state \<times> cla_state) lte_sys res" where
  "qa_mac_map eps mac w =
     (case qos w of (s, c) \<Rightarrow> rbind (lte_qa_set_eps_mac_map s eps mac) (\<lambda>(_, s1). Inr (w\<lparr>qos := (s1, c)\<rparr>)))"

text \<open>The switch over the identifier. The commands that set a log level change nothing but the log.\<close>

fun exec_cmd :: "cmd_env \<Rightarrow> nat \<Rightarrow> addr \<Rightarrow> dd_cmd \<Rightarrow> drivers \<Rightarrow> drivers res" where
  "exec_cmd e i pdev (Net_new name eps prio) (w, g) =
     rbind (dd_cmd_net_new (new_obj e i) (new_data e i) (new_dev e i) (new_reg e i) pdev w name eps prio) (\<lambda>w1. Inr (w1, g))"
| "exec_cmd e i pdev (Net_delete name) (w, g) = rbind (dd_cmd_net_delete w name) (\<lambda>w1. Inr (w1, g))"
| "exec_cmd e i pdev (Net_eps name eps) (w, g) = rbind (dd_cmd_net_eps w name eps) (\<lambda>w1. Inr (w1, g))"
| "exec_cmd e i pdev (Mac_map_add_dl eps mac) (w, g) =
     (if mac = replicate ETH_ALEN 0 then Inr (w, g)
      else rbind (net_drv_set_eps_mac_map w eps (Some mac)) (\<lambda>(_, w1). Inr (w1, g)))"
| "exec_cmd e i pdev (Mac_map_rm_dl eps) (w, g) = rbind (net_drv_set_eps_mac_map w eps None) (\<lambda>(_, w1). Inr (w1, g))"
| "exec_cmd e i pdev (Bridge_mode_dl en) (w, g) = Inr (snd (net_drv_set_bridge_mode w en), g)"
| "exec_cmd e i pdev (Mac_map_add_ul eps mac) (w, g) =
     (if mac = replicate ETH_ALEN 0 then Inr (w, g) else rbind (qa_mac_map eps (Some mac) w) (\<lambda>w1. Inr (w1, g)))"
| "exec_cmd e i pdev (Mac_map_rm_ul eps) (w, g) = rbind (qa_mac_map eps None w) (\<lambda>w1. Inr (w1, g))"
| "exec_cmd e i pdev (Bridge_mode_ul en) (w, g) =
     (case qos w of (s, c) \<Rightarrow> Inr (w\<lparr>qos := (s, lte_qa_set_bridge_mode c en)\<rparr>, g))"
| "exec_cmd e i pdev (Net_priority name prio) (w, g) = rbind (dd_cmd_net_priority w name prio) (\<lambda>w1. Inr (w1, g))"
| "exec_cmd e i pdev (Net_log level) (w, g) = Inr (w, g)"
| "exec_cmd e i pdev (Net_perf_test dur sz delay) (w, g) = Inr (snd (net_drv_perf_test w dur sz delay), g)"
| "exec_cmd e i pdev (Dd_log level) (w, g) = Inr (w, g)"
| "exec_cmd e i pdev (Ul_packet_profile en reset) (w, g) =
     rbind (profile_log en reset (ptsl_ul (bus w))) (\<lambda>p. Inr (upd_bus w (\<lambda>d. d\<lparr>ptsl_ul := p\<rparr>), g))"
| "exec_cmd e i pdev (Dl_packet_profile en reset) (w, g) =
     rbind (profile_log en reset (ptsl_dl (bus w))) (\<lambda>p. Inr (upd_bus w (\<lambda>d. d\<lparr>ptsl_dl := p\<rparr>), g))"
| "exec_cmd e i pdev (Multipacket en) (w, g) = Inr (set_dd_flag w LTE_DD_FLAG_MULTI_PACKET en, g)"
| "exec_cmd e i pdev (Lpbp_mode en) (w, g) = Inr (set_dd_flag w LTE_DD_FLAG_LPBP en, g)"
| "exec_cmd e i pdev (Disable_ul en) (w, g) = Inr (snd (net_drv_set_disable_ul w en), g)"
| "exec_cmd e i pdev (Qos_log level) (w, g) = Inr (w, g)"
| "exec_cmd e i pdev (Qos_mode m) (w, g) =
     Inr (snd (net_drv_set_qos_mode w (if m \<noteq> 0 then NET_DRV_QOS_MODE_IPTABLES else NET_DRV_QOS_MODE_QOS_MODULE)), g)"
| "exec_cmd e i pdev (Hif_cmd order) (w, g) = Inr (w, snd (IPC_4GHIF_debug_order (unat order) g))"

fun process_loop :: "cmd_env \<Rightarrow> addr \<Rightarrow> u8 list \<Rightarrow> nat list \<Rightarrow> drivers \<Rightarrow> drivers res" where
  "process_loop e pdev mem [] st = Inr st"
| "process_loop e pdev mem (i # is) st =
     rbind (case read_cmd mem (i * sizeof_cmd) of None \<Rightarrow> Inr st | Some c \<Rightarrow> exec_cmd e i pdev c st)
       (process_loop e pdev mem is)"

definition lte_dd_process_dd_cmds :: "cmd_env \<Rightarrow> ptr \<Rightarrow> u8 list \<Rightarrow> nat \<Rightarrow> drivers \<Rightarrow> (u32 \<times> drivers) res" where
  "lte_dd_process_dd_cmds e pdev mem populated st =
     (case pdev of
        None \<Rightarrow> Inr (AMP_ERROR_LTEDD_INVALID_PARAM, st)
      | Some a \<Rightarrow> rbind (process_loop e a mem [0..<populated] st) (\<lambda>st1. Inr (0, st1)))"

text \<open>
  The write to the proc file. The bytes go to a zeroed buffer of 512, of which the last stays 0;
  \<open>cmd_array\<close> is static. \<open>copied\<close> says that the copy from user space succeeds.
\<close>

definition ltedd_proc_write ::
  "cmd_env \<Rightarrow> bool \<Rightarrow> bool \<Rightarrow> u8 list \<Rightarrow> drivers \<times> u8 list \<Rightarrow> (int \<times> drivers \<times> u8 list) res" where
  "ltedd_proc_write e copied km buff st =
     (case st of (s, mem) \<Rightarrow>
        if buff = [] then Inr (0, s, mem)
        else if \<not> copied then Inr (- 14, s, mem)
        else let text = map byte_char (takeWhile (\<lambda>b. b \<noteq> 0) (take 511 buff)) in
          rbind (lte_dd_parse_dd_cmds km (Some text) (Some mem) (Some 0)) (\<lambda>(_, mem1, n).
          rbind (if 0 < the n then lte_dd_process_dd_cmds e (g_pdev e) (the mem1) (the n) s else Inr (0, s)) (\<lambda>(_, s1).
          Inr (int (length buff), s1, the mem1))))"

end
