(* ===== verification/DdCmdsParse.thy ===== *)
theory DdCmdsParse
  imports DdCmds
begin

text \<open>
  The parser of the commands: its loop over the tokens, the commands it accepts, and the bounds of
  the array it fills.
\<close>

section \<open>Tokens\<close>

function toks :: "string \<Rightarrow> string list" where
  "toks s =
     (case strtok (Some s) dd_seps of
        (None, _) \<Rightarrow> []
      | (Some t, None) \<Rightarrow> [t]
      | (Some t, Some r) \<Rightarrow> t # toks r)"
  by pat_completeness auto
termination by (relation "measure length") (auto intro: strtok_shorter[OF sym])

declare toks.simps [simp del]

text \<open>A token and the rest of the text: what was before it is at least its delimiters.\<close>

lemma strtok_length:
  assumes "strtok (Some s) delim = (Some t, r)"
  shows "t \<noteq> [] \<and> length t + (case r of None \<Rightarrow> 0 | Some r \<Rightarrow> 1 + length r) \<le> length s"
proof -
  let ?s1 = "dropWhile (\<lambda>c. c \<in> set delim) s" and ?n = "length t"
  have t: "t = takeWhile (\<lambda>c. c \<notin> set delim) ?s1" "?s1 \<noteq> []" "r = (if drop ?n ?s1 = [] then None else Some (tl (drop ?n ?s1)))"
    using assms by (auto simp: strtok_def Let_def split: if_splits)
  have "?n \<le> length ?s1" using t(1) length_takeWhile_le by metis
  moreover have "length ?s1 \<le> length s" by (rule length_dropWhile_le)
  moreover have "t \<noteq> []" using t(1,2) hd_dropWhile[OF t(2)] by (cases ?s1) auto
  ultimately show ?thesis using t(3) by auto
qed

lemma toks_length: "sum_list (map (\<lambda>t. length t + 1) (toks s)) \<le> length s + 1"
proof (induction s rule: toks.induct)
  case (1 s)
  obtain t r where st: "strtok (Some s) dd_seps = (t, r)" by (cases "strtok (Some s) dd_seps")
  then show ?case
    using 1[OF st[symmetric]] strtok_length[of s dd_seps _ r] by (cases t; cases r) (fastforce simp: toks.simps[of s])+
qed

section \<open>Accepted commands\<close>

definition accept :: "string \<Rightarrow> (COMMAND_INFO \<times> string list) option" where
  "accept token =
     (case sscanf_words 4 (replace_with_whitespace token '':;'') of
        [] \<Rightarrow> None
      | w # ws \<Rightarrow>
          (case find (\<lambda>ci. cmdString ci = w) commandList of
             None \<Rightarrow> None
           | Some ci \<Rightarrow> if length ws < length (cmdParams ci) then None else Some (ci, ws)))"

definition store :: "COMMAND_INFO \<times> string list \<Rightarrow> nat \<Rightarrow> u8 list \<Rightarrow> u8 list res" where
  "store c base mem =
     (case c of (ci, ws) \<Rightarrow>
        rbind (mem_put mem base (long_bytes (cmd_code (commandId ci)))) (run_params (cmdParams ci) ws (base + 4)))"

lemma parse_token_accept:
  "parse_token t (mem, n) =
     (case accept t of
        None \<Rightarrow> Inr (False, mem, n)
      | Some c \<Rightarrow> rbind (store c (n * sizeof_cmd) mem) (\<lambda>mem'. Inr (n + 1 = MAX_DD_CMD_ARRAY, mem', n + 1)))"
  by (auto simp: parse_token_def accept_def store_def Let_def rbind_assoc split: list.splits option.splits)

text \<open>The accepted commands of a text, and storing them one after the other.\<close>

definition accepted :: "string \<Rightarrow> (COMMAND_INFO \<times> string list) list" where
  "accepted text = List.map_filter accept (toks (strlwr text))"

fun store_all :: "(COMMAND_INFO \<times> string list) list \<Rightarrow> u8 list \<times> nat \<Rightarrow> (u8 list \<times> nat) res" where
  "store_all [] st = Inr st"
| "store_all (c # cs) (mem, n) =
     rbind (store c (n * sizeof_cmd) mem) (\<lambda>mem'.
     if n + 1 = MAX_DD_CMD_ARRAY then Inr (mem', n + 1) else store_all cs (mem', n + 1))"

fun parse_list :: "string list \<Rightarrow> u8 list \<times> nat \<Rightarrow> (u8 list \<times> nat) res" where
  "parse_list [] st = Inr st"
| "parse_list (t # ts) st =
     (case parse_token t st of Inl f \<Rightarrow> Inl f | Inr (full, st1) \<Rightarrow> if full then Inr st1 else parse_list ts st1)"

lemma parse_tokens_toks: "parse_tokens (strtok (Some s) dd_seps) st = parse_list (toks s) st"
proof (induction s arbitrary: st rule: toks.induct)
  case (1 s)
  obtain t r where st: "strtok (Some s) dd_seps = (t, r)" by (cases "strtok (Some s) dd_seps")
  have none: "strtok None dd_seps = (None, None)" by (simp add: strtok_def)
  show ?case
  proof (cases t)
    case None
    then show ?thesis using st by (simp add: toks.simps[of s])
  next
    case (Some a)
    then show ?thesis using 1[OF st[symmetric]] st none
      by (cases r) (auto simp: toks.simps[of s] split: sum.splits)
  qed
qed

lemma parse_list_accepted: "parse_list ts (mem, n) = store_all (List.map_filter accept ts) (mem, n)"
proof (induction ts arbitrary: mem n)
  case (Cons t ts)
  show ?case
  proof (cases "accept t")
    case None
    then show ?thesis using Cons by (simp add: parse_token_accept map_filter_simps)
  next
    case (Some c)
    then show ?thesis using Cons
      by (cases "store c (n * sizeof_cmd) mem") (simp_all add: parse_token_accept map_filter_simps)
  qed
qed (simp add: map_filter_simps)

lemma parse_store_all:
  assumes "text \<noteq> []" "4 \<le> length mem"
  shows "lte_dd_parse_dd_cmds True (Some text) (Some mem) (Some k) =
    rbind (store_all (accepted text) (replicate 4 0 @ drop 4 mem, 0)) (\<lambda>(mem', n). Inr (0, Some mem', Some n))"
  using assms by (simp add: lte_dd_parse_dd_cmds_def mem_put_def parse_tokens_toks parse_list_accepted accepted_def)

section \<open>Lengths\<close>

lemma accept_cases:
  assumes "accept t = Some (ci, ws)"
  obtains i where "ci = \<lparr>cmdString = cmd_str_of i, commandId = i, cmdParams = params_of i\<rparr>"
    "sscanf_words 4 (replace_with_whitespace t '':;'') = cmd_str_of i # ws" "length (params_of i) \<le> length ws"
proof -
  obtain w where w: "sscanf_words 4 (replace_with_whitespace t '':;'') = w # ws"
    "find (\<lambda>ci. cmdString ci = w) commandList = Some ci" "length (cmdParams ci) \<le> length ws"
    using assms by (auto simp: accept_def split: list.splits option.splits if_splits)
  have "ci \<in> set commandList" "cmdString ci = w" using w(2) by (auto simp: find_Some_iff)
  then show ?thesis using w that by (auto simp: commandList_def)
qed

lemma scan_word:
  assumes "sscanf_words (Suc k) s = w # ws" "ws \<noteq> []"
  obtains r where "sscanf_words k r = ws" "r \<noteq> []" "w \<noteq> []" "length (dropWhile isspace s) = length w + length r"
    "length w < 127 \<Longrightarrow> isspace (hd r)"
proof -
  let ?s = "dropWhile isspace s" and ?p = "\<lambda>c. \<not> isspace c"
  have w: "w = take 127 (takeWhile ?p ?s)" "sscanf_words k (drop (length w) ?s) = ws"
    using assms(1) by (auto simp: Let_def split: if_splits)
  have r: "drop (length w) ?s \<noteq> []" using w(2) assms(2) by (cases k) auto
  then have s: "?s \<noteq> []" by (metis drop_Nil)
  then have "w \<noteq> []" using w(1) hd_dropWhile[OF s] by (cases ?s) auto
  moreover have "length w \<le> length ?s" using w(1) length_takeWhile_le[of ?p ?s] by simp
  moreover have "isspace (hd (drop (length w) ?s))" if "length w < 127"
  proof -
    have "length w = length (takeWhile ?p ?s)" using that w(1) by simp
    then have "drop (length w) ?s = dropWhile ?p ?s" by (metis dropWhile_eq_drop)
    then show ?thesis using r hd_dropWhile[of ?p ?s] by simp
  qed
  ultimately show ?thesis using that[OF w(2) r] by simp
qed

lemma words_after_space:
  "r \<noteq> [] \<Longrightarrow> isspace (hd r) \<Longrightarrow> k \<le> 4 \<Longrightarrow> 2 * length (sscanf_words k r) \<le> length r + 1"
proof (induction k arbitrary: r)
  case (Suc k)
  obtain w ws where ws: "sscanf_words (Suc k) r = w # ws" using Suc.prems(1) by (simp add: Let_def)
  have "length (dropWhile isspace r) < length r"
    using Suc.prems length_dropWhile_le[of isspace "tl r"] by (cases r) auto
  moreover have "length (sscanf_words j s) \<le> j" for j s by (induction j arbitrary: s) (auto simp: Let_def)
  note this[of k]
  ultimately show ?case
  proof (cases "ws = []")
    case False
    then obtain r' where r': "sscanf_words k r' = ws" "r' \<noteq> []" "w \<noteq> []" "length (dropWhile isspace r) = length w + length r'"
      "length w < 127 \<Longrightarrow> isspace (hd r')" using scan_word[OF ws] by blast
    have "length ws \<le> k" using r'(1) \<open>\<And>s. length (sscanf_words k s) \<le> k\<close> by metis
    moreover have "0 < length w" using r'(3) by simp
    moreover have "length w < 127 \<longrightarrow> 2 * length ws \<le> length r' + 1" using Suc.IH[OF r'(2) r'(5)] r'(1) Suc.prems(3) by simp
    ultimately have "2 * (length ws + 1) \<le> length r + 1"
      using r'(4) \<open>length (dropWhile isspace r) < length r\<close> Suc.prems(3) by arith
    then show ?thesis using ws by simp
  qed (use ws Suc.prems in \<open>cases r; simp\<close>)
qed simp

lemma cmd_str_lengths: "6 \<le> length (cmd_str_of i)" "length (cmd_str_of i) < 127" "params_of i \<noteq> []" "length (params_of i) \<le> 3"
  by (cases i; simp)+

lemma accept_length:
  assumes "accept t = Some (ci, ws)"
  shows "length (cmdString ci) + 2 * length (cmdParams ci) \<le> length t + 1"
proof -
  obtain i where i: "ci = \<lparr>cmdString = cmd_str_of i, commandId = i, cmdParams = params_of i\<rparr>"
    "sscanf_words (Suc 3) (replace_with_whitespace t '':;'') = cmd_str_of i # ws" "length (params_of i) \<le> length ws"
    using assms by (rule accept_cases) (simp add: eval_nat_numeral)
  then have "ws \<noteq> []" using cmd_str_lengths(3)[of i] by auto
  from scan_word[OF i(2) this] cmd_str_lengths(2)[of i] obtain r where
    r: "sscanf_words 3 r = ws" "r \<noteq> []" "isspace (hd r)"
      "length (dropWhile isspace (replace_with_whitespace t '':;'')) = length (cmd_str_of i) + length r" by metis
  have "2 * length ws \<le> length r + 1" using words_after_space[OF r(2,3), of 3] r(1) by simp
  moreover have "length (dropWhile isspace (replace_with_whitespace t '':;'')) \<le> length t"
    using length_dropWhile_le[of isspace "replace_with_whitespace t '':;''"] by (simp add: replace_with_whitespace_def)
  ultimately show ?thesis using r(4) i(1,3) by simp
qed

section \<open>Stores\<close>

definition put_at :: "u8 list \<Rightarrow> nat \<Rightarrow> u8 list \<Rightarrow> u8 list" where
  "put_at mem a bs = take a mem @ bs @ drop (a + length bs) mem"

lemma mem_put_at: "mem_put mem a bs = (if a + length bs \<le> length mem then Inr (put_at mem a bs) else Inl OutOfBounds)"
  by (simp add: mem_put_def put_at_def)

lemma length_put_at [simp]: "a + length bs \<le> length mem \<Longrightarrow> length (put_at mem a bs) = length mem"
  by (simp add: put_at_def)

definition param_bytes :: "PARSING_INFO \<Rightarrow> string \<Rightarrow> u8 list" where
  "param_bytes p w =
     (case parsingFunc p of
        StringParser \<Rightarrow> let n = nat (funcParam1 p) - 1 in take n (map char_byte w @ replicate n 0) @ [0]
      | LongParser \<Rightarrow> long_bytes (word_of_int (COERCE_VAL (case sscanf_d w of None \<Rightarrow> 0 | Some v \<Rightarrow> sint v) (funcParam1 p) (funcParam2 p)))
      | MacParser \<Rightarrow> if length w \<noteq> ETH_ALEN * 2 then replicate ETH_ALEN 0
          else map (\<lambda>i. ucast (simple_strtoul (take 2 (drop (i * 2) w)) 16)) [0..<ETH_ALEN])"

lemma run_parser_put: "run_parser (parsingFunc p) mem a w (funcParam1 p) (funcParam2 p) = mem_put mem a (param_bytes p w)"
  by (cases "parsingFunc p") (simp_all add: run_parser_def param_bytes_def stringParser_def longParser_def macParser_def Let_def)

definition param_size :: "PARSING_INFO \<Rightarrow> nat" where
  "param_size p = (case parsingFunc p of StringParser \<Rightarrow> nat (funcParam1 p) - 1 + 1 | LongParser \<Rightarrow> 4 | MacParser \<Rightarrow> ETH_ALEN)"

lemma length_param_bytes [simp]: "length (param_bytes p w) = param_size p"
  by (cases "parsingFunc p") (auto simp: param_bytes_def param_size_def long_bytes_def Let_def min_def)

lemma run_params_put:
  "run_params (p # ps) (w # ws) base mem =
     (if base + paramDestOffset p + param_size p \<le> length mem
      then run_params ps ws base (put_at mem (base + paramDestOffset p) (param_bytes p w)) else Inl OutOfBounds)"
  by (simp add: run_parser_put mem_put_at)

lemma run_params_ok:
  "\<forall>p\<in>set ps. base + paramDestOffset p + param_size p \<le> length mem \<Longrightarrow>
     \<exists>mem'. run_params ps ws base mem = Inr mem' \<and> length mem' = length mem"
proof (induction ps arbitrary: ws mem)
  case (Cons p ps)
  then show ?case
  proof (cases ws)
    case (Cons w ws')
    let ?mem = "put_at mem (base + paramDestOffset p) (param_bytes p w)"
    have len: "length ?mem = length mem" using Cons.prems by simp
    then show ?thesis using Cons.IH[of ?mem ws'] Cons.prems Cons by (simp add: run_params_put del: run_params.simps(1))
  qed simp
qed simp

text \<open>The bytes a command may write: \<open>net_new\<close> one more than a structure has.\<close>

definition cmd_extent :: "lte_dd_cmd_id_t \<Rightarrow> nat" where
  "cmd_extent i = (if i = lte_dd_cmd_net_new then sizeof_cmd + 1 else sizeof_cmd)"

definition info :: "lte_dd_cmd_id_t \<Rightarrow> COMMAND_INFO" where
  "info i = \<lparr>cmdString = cmd_str_of i, commandId = i, cmdParams = params_of i\<rparr>"

lemma info_simps [simp]: "cmdString (info i) = cmd_str_of i" "commandId (info i) = i" "cmdParams (info i) = params_of i"
  by (simp_all add: info_def)

lemmas param_defs = string_param_def long_param_def mac_param_def param_size_def

lemma params_extent:
  "\<forall>p\<in>set (params_of i). 4 + paramDestOffset p + param_size p \<le> cmd_extent i"
  by (cases i) (simp_all add: param_defs NETDRV_MAX_DEV_NAME_def cmd_extent_def sizeof_cmd_def ETH_ALEN_def)

lemma store_in_bounds:
  assumes "base + cmd_extent i \<le> length mem"
  shows "\<exists>mem'. store (info i, ws) base mem = Inr mem' \<and> length mem' = length mem"
proof -
  have id: "base + 4 \<le> length mem" using assms by (simp add: cmd_extent_def sizeof_cmd_def split: if_splits)
  let ?mem = "put_at mem base (long_bytes (cmd_code i))"
  have len: "length ?mem = length mem" using id by (simp add: long_bytes_def)
  have "\<forall>p\<in>set (params_of i). base + 4 + paramDestOffset p + param_size p \<le> length ?mem"
    using params_extent[of i] assms unfolding len by fastforce
  from run_params_ok[OF this, of ws] show ?thesis
    using id len by (auto simp: store_def mem_put_at long_bytes_def)
qed

lemma store_net_new_outside:
  assumes "length mem = base + sizeof_cmd" "3 \<le> length ws"
  shows "store (info lte_dd_cmd_net_new, ws) base mem = Inl OutOfBounds"
proof -
  obtain a b c r where "ws = a # b # c # r" using assms(2) by (metis Suc_le_length_iff numeral_3_eq_3)
  then show ?thesis using assms(1)
    by (simp add: store_def mem_put_at run_params_put param_defs NETDRV_MAX_DEV_NAME_def sizeof_cmd_def long_bytes_def
        del: run_params.simps(1))
qed

definition accept_form :: "COMMAND_INFO \<times> string list \<Rightarrow> bool" where
  "accept_form c \<longleftrightarrow> (\<exists>i. fst c = info i \<and> length (params_of i) \<le> length (snd c))"

lemma accepted_form: "c \<in> set (accepted text) \<Longrightarrow> accept_form c"
proof -
  assume "c \<in> set (accepted text)"
  then obtain t where "accept t = Some (fst c, snd c)" by (auto simp: accepted_def map_filter_def)
  then show ?thesis by (rule accept_cases) (auto simp: accept_form_def info_def)
qed

lemma store_all_bounds:
  assumes "\<forall>c\<in>set cs. accept_form c" "length mem = MAX_DD_CMD_ARRAY * sizeof_cmd" "n < MAX_DD_CMD_ARRAY"
  shows "if MAX_DD_CMD_ARRAY - n \<le> length cs \<and> commandId (fst (cs ! (MAX_DD_CMD_ARRAY - n - 1))) = lte_dd_cmd_net_new
     then store_all cs (mem, n) = Inl OutOfBounds
     else \<exists>mem'. store_all cs (mem, n) = Inr (mem', min MAX_DD_CMD_ARRAY (n + length cs)) \<and> length mem' = length mem"
  using assms
proof (induction cs arbitrary: mem n)
  case Nil
  then show ?case by simp
next
  case (Cons c cs)
  let ?N = MAX_DD_CMD_ARRAY
  obtain i ws where c: "c = (info i, ws)" "length (params_of i) \<le> length ws"
    using Cons.prems(1) by (cases c) (auto simp: accept_form_def)
  have cs: "\<forall>c\<in>set cs. accept_form c" using Cons.prems(1) by simp
  have lim: "n * sizeof_cmd + sizeof_cmd \<le> length mem"
    using Cons.prems(2,3) mult_le_mono1[of "Suc n" ?N sizeof_cmd] by simp
  show ?case
  proof (cases "n + 1 = ?N")
    case True
    then have len: "length mem = n * sizeof_cmd + sizeof_cmd" using Cons.prems(2) by (metis add_mult_distrib mult_1)
    have n: "?N - n = 1" using True by simp
    show ?thesis
    proof (cases "i = lte_dd_cmd_net_new")
      case True
      then show ?thesis using n c store_net_new_outside[OF len] by simp
    next
      case False
      then obtain mem' where "store c (n * sizeof_cmd) mem = Inr mem'" "length mem' = length mem"
        using store_in_bounds[of "n * sizeof_cmd" i mem ws] lim c by (auto simp: cmd_extent_def)
      then show ?thesis using True n c False by simp
    qed
  next
    case False
    then have n: "Suc n < ?N" "?N - n - 1 = Suc (?N - Suc n - 1)" using Cons.prems(3) by auto
    then have "n * sizeof_cmd + cmd_extent i \<le> length mem"
      using Cons.prems(2) mult_le_mono1[of "n + 2" ?N sizeof_cmd] by (simp add: cmd_extent_def sizeof_cmd_def)
    then obtain mem' where m: "store c (n * sizeof_cmd) mem = Inr mem'" "length mem' = length mem"
      using store_in_bounds[of "n * sizeof_cmd" i mem ws] c by auto
    have "store_all (c # cs) (mem, n) = store_all cs (mem', Suc n)" using m False by simp
    moreover have "?N - n \<le> length (c # cs) \<longleftrightarrow> ?N - Suc n \<le> length cs" "n + length (c # cs) = Suc n + length cs" using n by auto
    ultimately show ?thesis using Cons.IH[OF cs _ n(1), of mem'] Cons.prems(2) m(2) n(2) by (auto simp del: store_all.simps split: if_splits)
  qed
qed

lemma parse_dd_cmds_stores:
  assumes "text \<noteq> []" "length mem = MAX_DD_CMD_ARRAY * sizeof_cmd"
  shows "if MAX_DD_CMD_ARRAY \<le> length (accepted text) \<and> commandId (fst (accepted text ! 63)) = lte_dd_cmd_net_new
     then lte_dd_parse_dd_cmds True (Some text) (Some mem) (Some k) = Inl OutOfBounds
     else \<exists>mem'. lte_dd_parse_dd_cmds True (Some text) (Some mem) (Some k) =
       Inr (0, Some mem', Some (min MAX_DD_CMD_ARRAY (length (accepted text)))) \<and> length mem' = length mem"
proof -
  have four: "4 \<le> length mem" using assms(2) by (simp add: MAX_DD_CMD_ARRAY_def sizeof_cmd_def)
  have N: "0 < MAX_DD_CMD_ARRAY" "MAX_DD_CMD_ARRAY - 0 - 1 = 63" by (simp_all add: MAX_DD_CMD_ARRAY_def)
  have len: "length (replicate 4 0 @ drop 4 mem) = MAX_DD_CMD_ARRAY * sizeof_cmd" using four assms(2) by simp
  show ?thesis
    using store_all_bounds[OF _ len N(1), of "accepted text"] accepted_form
    four[unfolded assms(2)] unfolding parse_store_all[OF assms(1) four] N(2) by (auto simp: assms(2) split: if_splits)
qed

lemma weights: 
  assumes "\<And>t c. f t = Some c \<Longrightarrow> w c \<le> (v t :: nat)"
  shows "sum_list (map w (List.map_filter f ts)) \<le> sum_list (map v ts)"
proof (induction ts)
  case (Cons t ts)
  then show ?case using assms[of t] by (cases "f t") (fastforce simp: map_filter_simps)+
qed (simp add: map_filter_simps)

text \<open>
  What the commands of a text take of it. The text of a write to the proc file has room for 64 of
  them, but not for 64 of which the last is \<open>net_new\<close>.
\<close>

definition weight :: "COMMAND_INFO \<times> string list \<Rightarrow> nat" where
  "weight c = length (cmdString (fst c)) + 2 * length (cmdParams (fst c))"

lemma accepted_weight: "sum_list (map weight (accepted text)) \<le> length text + 1"
proof -
  have "sum_list (map weight (accepted text)) \<le> sum_list (map (\<lambda>t. length t + 1) (toks (strlwr text)))"
    unfolding accepted_def by (rule weights) (metis accept_length prod.collapse weight_def)
  also have "\<dots> \<le> length text + 1" using toks_length[of "strlwr text"] by (simp add: strlwr_def)
  finally show ?thesis .
qed

lemma accept_form_weight: "accept_form c \<Longrightarrow> 8 \<le> weight c \<and> (commandId (fst c) = lte_dd_cmd_net_new \<longrightarrow> weight c = 13)"
proof -
  assume "accept_form c"
  then obtain i where "fst c = info i" by (auto simp: accept_form_def)
  moreover have "1 \<le> length (params_of i)" using cmd_str_lengths(3)[of i] by (cases "params_of i") auto
  ultimately show ?thesis using cmd_str_lengths(1)[of i] by (auto simp: weight_def)
qed

lemma weight_count: "\<forall>c\<in>set cs. accept_form c \<Longrightarrow> 8 * length cs \<le> sum_list (map weight cs)"
proof (induction cs)
  case (Cons c cs)
  then show ?case using accept_form_weight[of c] by simp
qed simp

lemma accepted_count:
  assumes "length text \<le> 511"
  shows "length (accepted text) \<le> MAX_DD_CMD_ARRAY"
  using assms weight_count[of "accepted text"] accepted_weight[of "text"] accepted_form by (auto simp: MAX_DD_CMD_ARRAY_def)

lemma accepted_short:
  assumes "length text \<le> 511" "MAX_DD_CMD_ARRAY \<le> length (accepted text)"
  shows "commandId (fst (accepted text ! 63)) \<noteq> lte_dd_cmd_net_new"
proof
  let ?cs = "accepted text"
  assume nn: "commandId (fst (?cs ! 63)) = lte_dd_cmd_net_new"
  have 64: "64 \<le> length ?cs" using assms(2) by (simp add: MAX_DD_CMD_ARRAY_def)
  have form: "\<forall>c\<in>set ?cs. accept_form c" using accepted_form by blast
  then have "\<forall>c\<in>set (take 63 ?cs). accept_form c" by (auto dest: in_set_takeD)
  then have "8 * 63 \<le> sum_list (map weight (take 63 ?cs))" using weight_count[of "take 63 ?cs"] 64 by simp
  moreover have "weight (?cs ! 63) = 13" using accept_form_weight[of "?cs ! 63"] form 64 nn by simp
  moreover have "?cs = take 63 ?cs @ ?cs ! 63 # drop 64 ?cs" using 64 id_take_nth_drop[of 63 ?cs] by simp
  then have "sum_list (map weight ?cs) = sum_list (map weight (take 63 ?cs)) + weight (?cs ! 63) + sum_list (map weight (drop 64 ?cs))"
    by (metis (no_types, lifting) add.assoc list.simps(9) map_append sum_list.Cons sum_list_append)
  ultimately show False using accepted_weight[of "text"] assms(1) by simp
qed

end
