(* ===== verification/DdCmdsRun.thy ===== *)
theory DdCmdsRun
  imports DdCmdsParse
begin

text \<open>
  Commands as text and back: printed commands are parsed and read back from the array as they were,
  so that a write of the text to the proc file executes them one after the other.
\<close>

section \<open>Printing\<close>

definition digit_char :: "nat \<Rightarrow> char" where
  "digit_char d = char_of (if d < 10 then 48 + d else 87 + d)"

fun dec :: "nat \<Rightarrow> string" where
  "dec n = (if n < 10 then [digit_char n] else dec (n div 10) @ [digit_char (n mod 10)])"

declare dec.simps [simp del]

definition show_int :: "int \<Rightarrow> string" where
  "show_int i = (if i < 0 then CHR ''-'' # dec (nat (- i)) else dec (nat i))"

definition show_byte :: "u8 \<Rightarrow> string" where
  "show_byte b = dec (unat b)"

definition show_long :: "u32 \<Rightarrow> string" where
  "show_long x = show_int (sint x)"

definition show_mac :: "u8 list \<Rightarrow> string" where
  "show_mac m = concat (map (\<lambda>b. [digit_char (unat b div 16), digit_char (unat b mod 16)]) m)"

fun join :: "char \<Rightarrow> string list \<Rightarrow> string" where
  "join d [] = []"
| "join d [w] = w"
| "join d (w # v # ws) = w @ d # join d (v # ws)"

fun id_of :: "dd_cmd \<Rightarrow> lte_dd_cmd_id_t" where
  "id_of (Net_new n e p) = lte_dd_cmd_net_new" | "id_of (Net_delete n) = lte_dd_cmd_net_delete"
| "id_of (Net_eps n e) = lte_dd_cmd_net_eps" | "id_of (Mac_map_add_dl e m) = lte_dd_cmd_net_eps_mac_map_add_dl"
| "id_of (Mac_map_rm_dl e) = lte_dd_cmd_net_eps_mac_map_rm_dl" | "id_of (Bridge_mode_dl v) = lte_dd_cmd_net_bridge_mode_dl"
| "id_of (Mac_map_add_ul e m) = lte_dd_cmd_net_eps_mac_map_add_ul" | "id_of (Mac_map_rm_ul e) = lte_dd_cmd_net_eps_mac_map_rm_ul"
| "id_of (Bridge_mode_ul v) = lte_dd_cmd_net_bridge_mode_ul" | "id_of (Net_priority n p) = lte_dd_cmd_net_priority"
| "id_of (Net_log v) = lte_dd_cmd_net_log" | "id_of (Net_perf_test u v x) = lte_dd_cmd_net_perf_test"
| "id_of (Dd_log v) = lte_dd_cmd_dd_log" | "id_of (Ul_packet_profile u v) = lte_dd_cmd_dd_ul_packet_profile"
| "id_of (Dl_packet_profile u v) = lte_dd_cmd_dd_dl_packet_profile" | "id_of (Multipacket v) = lte_dd_cmd_dd_multipacket"
| "id_of (Lpbp_mode v) = lte_dd_cmd_dd_lpbp_mode" | "id_of (Disable_ul v) = lte_dd_cmd_dd_disable_ul"
| "id_of (Qos_log v) = lte_dd_cmd_qos_log" | "id_of (Qos_mode v) = lte_dd_cmd_qos_mode"
| "id_of (Hif_cmd v) = lte_dd_cmd_hif_cmd"

fun words_of :: "dd_cmd \<Rightarrow> string list" where
  "words_of (Net_new n e p) = [n, show_byte e, show_byte p]" | "words_of (Net_delete n) = [n]"
| "words_of (Net_eps n e) = [n, show_byte e]" | "words_of (Mac_map_add_dl e m) = [show_byte e, show_mac m]"
| "words_of (Mac_map_rm_dl e) = [show_byte e]" | "words_of (Bridge_mode_dl v) = [show_long v]"
| "words_of (Mac_map_add_ul e m) = [show_byte e, show_mac m]" | "words_of (Mac_map_rm_ul e) = [show_byte e]"
| "words_of (Bridge_mode_ul v) = [show_long v]" | "words_of (Net_priority n p) = [n, show_byte p]"
| "words_of (Net_log v) = [show_long v]" | "words_of (Net_perf_test u v x) = [show_long u, show_long v, show_long x]"
| "words_of (Dd_log v) = [show_long v]" | "words_of (Ul_packet_profile u v) = [show_long u, show_long v]"
| "words_of (Dl_packet_profile u v) = [show_long u, show_long v]" | "words_of (Multipacket v) = [show_long v]"
| "words_of (Lpbp_mode v) = [show_long v]" | "words_of (Disable_ul v) = [show_long v]"
| "words_of (Qos_log v) = [show_long v]" | "words_of (Qos_mode v) = [show_long v]"
| "words_of (Hif_cmd v) = [show_long v]"

definition print_cmd :: "dd_cmd \<Rightarrow> string" where
  "print_cmd c = join CHR '':'' (cmd_str_of (id_of c) # words_of c)"

definition cmd_line :: "dd_cmd list \<Rightarrow> string" where
  "cmd_line cs = join CHR '' '' (map print_cmd cs)"

text \<open>
  The commands that have a text: a name is a word of plain characters in lower case, numbers are in
  their range.
\<close>

definition plain :: "char \<Rightarrow> bool" where
  "plain c \<longleftrightarrow> \<not> isspace c \<and> c \<noteq> CHR '':'' \<and> c \<noteq> CHR '';'' \<and> c \<noteq> CHR '','' \<and> to_lower c = c \<and> of_char c \<noteq> (0 :: nat)"

definition word_ok :: "string \<Rightarrow> bool" where
  "word_ok w \<longleftrightarrow> w \<noteq> [] \<and> length w \<le> 127 \<and> list_all plain w"

definition long_ok :: "int \<Rightarrow> int \<Rightarrow> u32 \<Rightarrow> bool" where
  "long_ok mn mx v \<longleftrightarrow> mn \<le> sint v \<and> sint v \<le> mx"

fun cmd_ok :: "dd_cmd \<Rightarrow> bool" where
  "cmd_ok (Net_new n e p) = (word_ok n \<and> e \<le> 15)" | "cmd_ok (Net_delete n) = word_ok n"
| "cmd_ok (Net_eps n e) = (word_ok n \<and> e \<le> 15)" | "cmd_ok (Mac_map_add_dl e m) = (e \<le> 15 \<and> length m = ETH_ALEN)"
| "cmd_ok (Mac_map_rm_dl e) = (e \<le> 15)" | "cmd_ok (Bridge_mode_dl v) = long_ok 0 1 v"
| "cmd_ok (Mac_map_add_ul e m) = (e \<le> 15 \<and> length m = ETH_ALEN)" | "cmd_ok (Mac_map_rm_ul e) = (e \<le> 15)"
| "cmd_ok (Bridge_mode_ul v) = long_ok 0 1 v" | "cmd_ok (Net_priority n p) = word_ok n"
| "cmd_ok (Net_log v) = long_ok 2 6 v" | "cmd_ok (Net_perf_test u v x) = (long_ok 1 300 u \<and> long_ok 64 NETDRV_MTU v \<and> long_ok 0 0x7fffffff x)"
| "cmd_ok (Dd_log v) = long_ok 2 6 v" | "cmd_ok (Ul_packet_profile u v) = (long_ok 0 1 u \<and> long_ok 0 1 v)"
| "cmd_ok (Dl_packet_profile u v) = (long_ok 0 1 u \<and> long_ok 0 1 v)" | "cmd_ok (Multipacket v) = long_ok 0 1 v"
| "cmd_ok (Lpbp_mode v) = long_ok 0 1 v" | "cmd_ok (Disable_ul v) = long_ok 0 1 v"
| "cmd_ok (Qos_log v) = long_ok 2 6 v" | "cmd_ok (Qos_mode v) = long_ok 0 1 v"
| "cmd_ok (Hif_cmd v) = long_ok (- 2147483647) 2147483647 v"

section \<open>Numbers\<close>

lemma digit_char_code: "d < 16 \<Longrightarrow> of_char (digit_char d) = (if d < 10 then 48 + d else 87 + d :: nat)"
  by (simp add: digit_char_def)

lemma char_neqI: "of_char c \<noteq> (of_char d :: nat) \<Longrightarrow> c \<noteq> d"
  by auto

lemma digit_char_props:
  assumes "d < 16"
  shows "plain (digit_char d)" "isxdigit (digit_char d)" "digit_value (digit_char d) = d"
    "d < 10 \<Longrightarrow> isdigit (digit_char d)" "digit_char d \<noteq> CHR ''x''" "digit_char d \<noteq> CHR ''X''"
proof -
  note n = digit_char_code[OF assms]
  have "digit_char d \<noteq> c" if "of_char c \<notin> {48..57} \<union> {97..102 :: nat}" for c
    using that n assms by (intro char_neqI) (auto split: if_splits)
  from this[of "CHR '':''"] this[of "CHR '';''"] this[of "CHR '',''"] this[of "CHR ''x''"] this[of "CHR ''X''"]
  show "plain (digit_char d)" "digit_char d \<noteq> CHR ''x''" "digit_char d \<noteq> CHR ''X''"
    using n assms by (auto simp: plain_def isspace_def to_lower_def Let_def)
  show "isxdigit (digit_char d)" "digit_value (digit_char d) = d" "d < 10 \<Longrightarrow> isdigit (digit_char d)"
    using n assms by (auto simp: isxdigit_def isdigit_def digit_value_def Let_def)
qed

lemma strtoul_digits_append:
  "list_all (\<lambda>c. isxdigit c \<and> digit_value c < base) cs \<Longrightarrow>
     strtoul_digits base (cs @ ds) acc = strtoul_digits base ds (strtoul_digits base cs acc)"
  by (induction cs arbitrary: acc) simp_all

lemma dec_digits: "list_all (\<lambda>c. isdigit c \<and> isxdigit c \<and> digit_value c < 10 \<and> plain c) (dec n)"
proof (induction n rule: dec.induct)
  case (1 n)
  then show ?case
    by (subst dec.simps) (simp add: digit_char_props)
qed

lemma strtoul_dec: "strtoul_digits 10 (dec n) 0 = of_nat n"
proof (induction n rule: dec.induct)
  case (1 n)
  show ?case
  proof (cases "n < 10")
    case True
    then show ?thesis by (subst dec.simps) (simp add: digit_char_props)
  next
    case False
    have "list_all (\<lambda>c. isxdigit c \<and> digit_value c < 10) (dec (n div 10))"
      using dec_digits[of "n div 10"] by (simp add: list_all_iff)
    moreover have "of_nat (n div 10) * 10 + of_nat (n mod 10) = (of_nat n :: u32)"
      by (metis div_mult_mod_eq of_nat_add of_nat_mult of_nat_numeral)
    ultimately show ?thesis using False 1
      by (subst dec.simps) (simp add: strtoul_digits_append digit_char_props)
  qed
qed

lemma dec_Cons: obtains c cs where "dec n = c # cs" "isdigit c" "c \<noteq> CHR ''-''"
proof -
  have "dec n \<noteq> []" by (subst dec.simps) simp
  then obtain c cs where "dec n = c # cs" by (cases "dec n") auto
  moreover from this have "isdigit c" using dec_digits[of n] by simp
  moreover from this have "c \<noteq> CHR ''-''" by (auto simp: isdigit_def Let_def)
  ultimately show ?thesis using that by blast
qed

lemma strtoul_dec_simple: "simple_strtoul (dec n) 10 = of_nat n"
  using strtoul_dec[of n] by (auto simp: simple_strtoul_def split: list.splits)

lemma sscanf_show_int: "sscanf_d (show_int i) = Some (word_of_int i)"
proof (cases "i < 0")
  case True
  obtain c cs where c: "dec (nat (- i)) = c # cs" "isdigit c" by (rule dec_Cons)
  have "\<not> isspace CHR ''-''" by (simp add: isspace_def)
  moreover have "- of_nat (nat (- i)) = (word_of_int i :: u32)" using True by simp
  ultimately show ?thesis using True c strtoul_dec_simple[of "nat (- i)"]
    by (simp add: show_int_def sscanf_d_def simple_strtol_def)
next
  case False
  obtain c cs where c: "dec (nat i) = c # cs" "isdigit c" "c \<noteq> CHR ''-''" by (rule dec_Cons)
  have "\<not> isspace c" using c(2) by (auto simp: isspace_def isdigit_def Let_def)
  then show ?thesis using False c strtoul_dec_simple[of "nat i"]
    by (simp add: show_int_def sscanf_d_def simple_strtol_def)
qed

section \<open>Parameters\<close>

lemma long_bytes_param: "long_ok mn mx v \<Longrightarrow> param_bytes (long_param off mn mx) (show_long v) = long_bytes v"
  by (simp add: param_bytes_def long_param_def show_long_def sscanf_show_int COERCE_VAL_def long_ok_def)

lemma sscanf_show_byte: "sscanf_d (show_byte b) = Some (word_of_int (uint b))"
proof -
  have "show_byte b = show_int (uint b)" by (simp add: show_byte_def show_int_def)
  then show ?thesis by (simp only: sscanf_show_int)
qed

lemma byte_of_byte: "(ucast (ucast b :: u32) :: u8) = b"
  by (intro bit_word_eqI) (auto simp: bit_ucast_iff)

lemma long_bytes_byte: "long_bytes (ucast (b :: u8)) = [b, 0, 0, 0]"
proof -
  have "(ucast (drop_bit n (ucast b :: u32)) :: u8) = 0" if "8 \<le> n" for n
    using that by (intro bit_word_eqI) (auto simp: bit_ucast_iff bit_drop_bit_eq dest: bit_imp_le_length)
  then show ?thesis by (simp add: long_bytes_def byte_of_byte)
qed

lemma byte_param:
  assumes "uint b \<le> mx" "mx \<le> 255"
  shows "param_bytes (long_param off 0 mx) (show_byte b) = [b, 0, 0, 0]"
proof -
  have s: "sint (word_of_int (uint b) :: u32) = uint b"
    using assms uint_lt2p[of b] unfolding int_word_sint by simp
  have "COERCE_VAL (sint (word_of_int (uint b) :: u32)) 0 mx = uint b"
    using assms(1) unfolding COERCE_VAL_def s by simp
  then have "param_bytes (long_param off 0 mx) (show_byte b) = long_bytes (word_of_int (uint b))"
    unfolding param_bytes_def long_param_def sscanf_show_byte by (simp del: word_of_int_uint of_int_uint)
  also have "word_of_int (uint b) = (ucast b :: u32)" by (rule ucast_eq[symmetric])
  finally show ?thesis unfolding long_bytes_byte .
qed

lemma char_byte_char: "byte_char (char_byte c) = c"
  by (simp add: byte_char_def char_byte_def unat_of_nat)

lemma char_byte_zero: "char_byte c = 0 \<longleftrightarrow> of_char c = (0 :: nat)"
proof -
  have "of_char c < (256 :: nat)" by simp
  then show ?thesis by (simp add: char_byte_def word_unat_eq_iff unat_of_nat)
qed

lemma string_param_bytes:
  assumes "length w \<le> 127"
  shows "param_bytes (string_param off) w = map char_byte w @ replicate (128 - length w) 0"
proof -
  have "replicate (127 - length w) 0 @ [0] = replicate (128 - length w) (0 :: u8)"
    using assms replicate_append_same[of "127 - length w" "0 :: u8"] by (simp add: Suc_diff_le flip: replicate_Suc)
  then show ?thesis using assms by (simp add: param_bytes_def string_param_def NETDRV_MAX_DEV_NAME_def Let_def min_def)
qed

lemma takeWhile_name:
  assumes "list_all plain w"
  shows "map byte_char (takeWhile (\<lambda>b. b \<noteq> 0) (map char_byte w @ replicate n 0)) = w"
proof -
  have "\<forall>b\<in>set (map char_byte w). b \<noteq> 0" using assms by (auto simp: list_all_iff plain_def char_byte_zero)
  then have "takeWhile (\<lambda>b. b \<noteq> 0) (map char_byte w @ replicate n 0) = map char_byte w"
    by (subst takeWhile_append2) (auto simp: takeWhile_eq_Nil_iff)
  then show ?thesis by (simp add: char_byte_char comp_def map_idI)
qed

lemma unat_byte: "unat (b :: u8) < 256"
  using unsigned_less[of b] by simp

lemma hex_byte: "simple_strtoul [digit_char (unat b div 16), digit_char (unat b mod 16)] 16 = ucast (b :: u8)"
proof -
  have d: "unat b div 16 < 16" "unat b mod 16 < 16" using unat_byte[of b] by simp_all
  have "of_nat (unat b div 16) * 16 + of_nat (unat b mod 16) = (of_nat (unat b) :: u32)"
    by (metis div_mult_mod_eq of_nat_add of_nat_mult of_nat_numeral)
  then show ?thesis using d digit_char_props[OF d(1)] digit_char_props[OF d(2)]
    by (simp add: simple_strtoul_def)
qed

lemma mac_bytes_at:
  "i < length m \<Longrightarrow> take 2 (drop (i * 2) (show_mac m)) = [digit_char (unat (m ! i) div 16), digit_char (unat (m ! i) mod 16)]"
proof (induction m arbitrary: i)
  case (Cons b m)
  then show ?case by (cases i) (simp_all add: show_mac_def)
qed simp

lemma mac_param_bytes:
  assumes "length m = ETH_ALEN"
  shows "param_bytes (mac_param off) (show_mac m) = m"
proof -
  have "length (show_mac m) = 2 * length m" by (induction m) (simp_all add: show_mac_def)
  then have "param_bytes (mac_param off) (show_mac m) = map (\<lambda>i. ucast (simple_strtoul (take 2 (drop (i * 2) (show_mac m))) 16)) [0..<ETH_ALEN]"
    using assms by (simp add: param_bytes_def mac_param_def)
  also have "\<dots> = m" using assms
    by (intro nth_equalityI) (simp_all add: mac_bytes_at hex_byte byte_of_byte)
  finally show ?thesis .
qed

section \<open>Reading back\<close>

lemma get_put_same: "a + length bs \<le> length mem \<Longrightarrow> b = a \<Longrightarrow> n \<le> length bs \<Longrightarrow> mem_get (put_at mem a bs) b n = take n bs"
  by (simp add: mem_get_def put_at_def)

lemma get_put_other:
  assumes "a + length bs \<le> length mem" "b + n \<le> a \<or> a + length bs \<le> b"
  shows "mem_get (put_at mem a bs) b n = mem_get mem b n"
  using assms(2)
proof
  assume "b + n \<le> a"
  then show ?thesis using assms(1) by (simp add: mem_get_def put_at_def take_drop min_def)
next
  assume "a + length bs \<le> b"
  then show ?thesis using assms(1) by (simp add: mem_get_def put_at_def)
qed

lemma take_put_at: "a + length bs \<le> length mem \<Longrightarrow> k \<le> a \<Longrightarrow> take k (put_at mem a bs) = take k mem"
  by (simp add: put_at_def min_def)

lemma bytes_long_bytes: "bytes_long (long_bytes x) = x"
proof (rule bit_word_eqI)
  fix n
  assume "n < LENGTH(32)"
  then consider "n < 8" | "8 \<le> n" "n < 16" | "16 \<le> n" "n < 24" | "24 \<le> n" "n < 32" by force
  then show "bit (bytes_long (long_bytes x)) n = bit x n"
    by cases (auto simp: bytes_long_def long_bytes_def bit_or_iff bit_push_bit_iff bit_ucast_iff bit_drop_bit_eq)
qed

lemma length_long_bytes [simp]: "length (long_bytes x) = 4"
  by (simp add: long_bytes_def)

lemma cmd_code_read: "unat (cmd_code i) < length cmd_ids \<and> cmd_ids ! unat (cmd_code i) = i"
  by (cases i) (simp_all add: cmd_code_def cmd_ids_def)

lemma param_simps [simp]:
  "paramDestOffset (string_param off) = off" "paramDestOffset (long_param off mn mx) = off" "paramDestOffset (mac_param off) = off"
  "param_size (string_param off) = 128" "param_size (long_param off mn mx) = 4" "param_size (mac_param off) = 6"
  by (simp_all add: param_defs NETDRV_MAX_DEV_NAME_def ETH_ALEN_def)

lemma eps_param: "e \<le> 15 \<Longrightarrow> param_bytes (long_param off LTE_DD_MIN_EPS LTE_DD_MAX_EPS) (show_byte e) = [e, 0, 0, 0]"
  unfolding LTE_DD_MIN_EPS_def LTE_DD_MAX_EPS_def by (rule byte_param) (simp_all add: word_le_def)

lemma priority_param: "param_bytes (long_param off 0 255) (show_byte e) = [e, 0, 0, 0]"
  by (rule byte_param) (use uint_lt2p[of e] in simp_all)

lemma get_put_all: "a + length bs \<le> length mem \<Longrightarrow> n = length bs \<Longrightarrow> mem_get (put_at mem a bs) a n = bs"
  by (simp add: get_put_same)

lemma run_params_frame:
  "run_params ps ws base mem = Inr mem' \<Longrightarrow> length mem' = length mem \<and> take base mem' = take base mem"
proof (induction ps ws base mem rule: run_params.induct)
  case (1 p ps w ws base mem)
  then show ?case by (auto simp: run_parser_put mem_put_at take_put_at split: if_splits)
qed simp_all

lemmas param_reads = eps_param priority_param long_bytes_param string_param_bytes mac_param_bytes
lemmas field_reads = get_string_def get_byte_def get_long_def get_mac_def get_put_all get_put_same get_put_other
  bytes_long_bytes takeWhile_name

lemma params_read:
  assumes "cmd_ok c" "base + cmd_extent (id_of c) \<le> length mem + 4"
  shows "\<exists>mem'. run_params (params_of (id_of c)) (words_of c) base mem = Inr mem' \<and> read_data mem' base (id_of c) = c"
  using assms
  by (cases c)
    (simp_all add: run_params_put param_reads field_reads cmd_extent_def sizeof_cmd_def NETDRV_MAX_DEV_NAME_def ETH_ALEN_def
      word_ok_def AMP_LOG_LEVEL_ERROR_def AMP_LOG_LEVEL_DEBUG3_def del: run_params.simps(1))

lemma store_reads:
  assumes "cmd_ok c" "base + cmd_extent (id_of c) \<le> length mem"
  shows "\<exists>mem'. store (info (id_of c), words_of c) base mem = Inr mem' \<and> read_cmd mem' base = Some c \<and>
    length mem' = length mem \<and> take base mem' = take base mem"
proof -
  let ?i = "id_of c" and ?mem = "put_at mem base (long_bytes (cmd_code (id_of c)))"
  have b: "base + 4 \<le> length mem" using assms(2) by (simp add: cmd_extent_def sizeof_cmd_def split: if_splits)
  then have len: "length ?mem = length mem" by simp
  obtain mem' where m: "run_params (params_of ?i) (words_of c) (base + 4) ?mem = Inr mem'" "read_data mem' (base + 4) ?i = c"
    using params_read[of c "base + 4" ?mem] assms len by auto
  have fr: "length mem' = length ?mem" "take (base + 4) mem' = take (base + 4) ?mem" using run_params_frame[OF m(1)] by auto
  have "mem_get mem' base 4 = mem_get ?mem base 4"
    using fr(2) unfolding mem_get_def by (metis add.commute take_drop)
  also have "\<dots> = long_bytes (cmd_code ?i)" using b by (simp add: get_put_all)
  finally have "get_long mem' base = cmd_code ?i" by (simp add: get_long_def bytes_long_bytes)
  then have "read_cmd mem' base = Some c" using cmd_code_read[of ?i] m(2) by (simp add: read_cmd_def)
  moreover have "take base mem' = take base mem"
    using fr(2) take_put_at[of base "long_bytes (cmd_code ?i)" mem base] b
    by (metis length_long_bytes le_add1 min.absorb1 order_refl take_take)
  ultimately show ?thesis using m(1) b fr(1) len by (simp add: store_def mem_put_at)
qed

section \<open>Lexing\<close>

lemma set_join: "set (join d ws) \<subseteq> insert d (\<Union> (set ` set ws))"
  by (induction d ws rule: join.induct) auto

lemma map_join: "map f (join d ws) = join (f d) (map (map f) ws)"
  by (induction d ws rule: join.induct) simp_all

lemma join_Nil: "\<forall>w\<in>set ws. w \<noteq> [] \<Longrightarrow> join d ws = [] \<longleftrightarrow> ws = []"
  by (cases "(d, ws)" rule: join.cases) auto

lemma plain_not_sep: "plain c \<Longrightarrow> c \<notin> set dd_seps"
  by (auto simp: plain_def dd_seps_def isspace_def)

lemma colon_not_sep: "CHR '':'' \<notin> set dd_seps"
  by (simp add: dd_seps_def)

lemma space_is_sep: "CHR '' '' \<in> set dd_seps"
  by (simp add: dd_seps_def)

text \<open>Tokens with a space between them are found again.\<close>

lemma strtok_token:
  assumes "t \<noteq> []" "\<forall>c\<in>set t. c \<notin> set dd_seps"
  shows "strtok (Some t) dd_seps = (Some t, None)" "strtok (Some (t @ CHR '' '' # r)) dd_seps = (Some t, Some r)"
proof -
  have d: "dropWhile (\<lambda>c. c \<in> set dd_seps) (t @ r) = t @ r" for r using assms by (cases t) auto
  have t: "takeWhile (\<lambda>c. c \<notin> set dd_seps) t = t" using assms(2) by simp
  show "strtok (Some t) dd_seps = (Some t, None)" using assms(1) d[of "[]"] t by (simp add: strtok_def Let_def del: takeWhile_eq_all_conv)
  have "takeWhile (\<lambda>c. c \<notin> set dd_seps) (t @ CHR '' '' # r) = t"
    using assms(2) space_is_sep by (subst takeWhile_append2) simp_all
  then show "strtok (Some (t @ CHR '' '' # r)) dd_seps = (Some t, Some r)" by (simp add: strtok_def Let_def d)
qed

lemma toks_join:
  "\<forall>t\<in>set ts. t \<noteq> [] \<and> (\<forall>c\<in>set t. c \<notin> set dd_seps) \<Longrightarrow> toks (join CHR '' '' ts) = ts"
proof (induction "CHR '' ''" ts rule: join.induct)
  case 1
  then show ?case by (subst toks.simps) (simp add: strtok_def)
next
  case (2 w)
  then show ?case by (subst toks.simps) (simp add: strtok_token)
next
  case (3 w v ws)
  then show ?case by (subst toks.simps) (simp add: strtok_token)
qed

text \<open>So are words, also after a space.\<close>

lemma scan_step:
  assumes "word_ok w" "r = [] \<or> isspace (hd r)" "set p \<subseteq> Collect isspace"
  shows "sscanf_words (Suc k) (p @ w @ r) = w # sscanf_words k r"
proof -
  have ns: "\<forall>c\<in>set w. \<not> isspace c" and w: "w \<noteq> []" "length w \<le> 127"
    using assms(1) by (auto simp: word_ok_def list_all_iff plain_def)
  have "dropWhile isspace (p @ w @ r) = dropWhile isspace (w @ r)" using assms(3) by (intro dropWhile_append2) auto
  also have "\<dots> = w @ r" using ns w(1) by (cases w) auto
  finally have d: "dropWhile isspace (p @ w @ r) = w @ r" .
  have "takeWhile (\<lambda>c. \<not> isspace c) (w @ r) = w"
    using assms(2) ns by (subst takeWhile_append2) (cases r; simp)+
  then show ?thesis using d w by (simp add: Let_def)
qed

lemma scan_join:
  "\<forall>w\<in>set ws. word_ok w \<Longrightarrow> length ws \<le> k \<Longrightarrow> set p \<subseteq> Collect isspace \<Longrightarrow> ws \<noteq> [] \<Longrightarrow>
     sscanf_words k (p @ join CHR '' '' ws) = ws"
proof (induction "CHR '' ''" ws arbitrary: k p rule: join.induct)
  case (2 w)
  then obtain j where "k = Suc j" by (cases k) auto
  then show ?case using 2 scan_step[of w "[]" p j] by (cases j) simp_all
next
  case (3 w v ws)
  have sp: "isspace CHR '' ''" by (simp add: isspace_def)
  obtain j where j: "k = Suc j" using 3 by (cases k) auto
  then have "sscanf_words j ([CHR '' ''] @ join CHR '' '' (v # ws)) = v # ws" using 3 sp by (intro 3(1)) auto
  then show ?case using 3(2,4) j sp scan_step[of w "CHR '' '' # join CHR '' '' (v # ws)" p j] by simp
qed simp

section \<open>Words of a command\<close>

lemma length_dec: "n < 10 ^ Suc k \<Longrightarrow> length (dec n) \<le> Suc k"
proof (induction k arbitrary: n)
  case 0
  then show ?case by (simp add: dec.simps[of n])
next
  case (Suc k)
  then have "length (dec (n div 10)) \<le> Suc k" by simp
  then show ?case by (simp add: dec.simps[of n])
qed

lemma word_ok_dec: "n < 10 ^ 10 \<Longrightarrow> word_ok (dec n)"
  using length_dec[of n 9] dec_digits[of n] dec_Cons[of n] by (force simp: word_ok_def list_all_iff)

lemma word_ok_show_byte: "word_ok (show_byte b)"
  using unat_byte[of b] by (simp add: show_byte_def word_ok_dec)

lemma word_ok_show_long: "word_ok (show_long x)"
proof -
  have "- (2 ^ 31) \<le> sint x" "sint x < 2 ^ 31" using sint_ge[of x] sint_lt[of x] by simp_all
  then have n: "nat (sint x) < 10 ^ 9 * 10" "nat (- sint x) < 10 ^ 9 * 10" by simp_all
  have "plain CHR ''-''" by (simp add: plain_def isspace_def to_lower_def)
  then show ?thesis
    using length_dec[of "nat (- sint x)" 9] dec_digits[of "nat (- sint x)"] word_ok_dec[of "nat (sint x)"] n
    by (auto simp: show_long_def show_int_def word_ok_def list_all_iff)
qed

lemma word_ok_show_mac:
  assumes "length m = ETH_ALEN"
  shows "word_ok (show_mac m)"
proof -
  have "unat b div 16 < 16" for b :: u8 using unat_byte[of b] by simp
  then have "list_all plain (show_mac m)" by (auto simp: show_mac_def list_all_iff digit_char_props)
  moreover have "length (show_mac m) = 12" using assms by (simp add: show_mac_def length_concat comp_def ETH_ALEN_def sum_list_triv)
  ultimately show ?thesis by (auto simp: word_ok_def)
qed

lemma word_ok_cmd_str: "word_ok (cmd_str_of i)"
  by (cases i) (simp_all add: word_ok_def plain_def isspace_def to_lower_def)

lemma words_ok: "cmd_ok c \<Longrightarrow> \<forall>w\<in>set (cmd_str_of (id_of c) # words_of c). word_ok w"
  using word_ok_cmd_str[of "id_of c"]
  by (cases c) (simp_all add: word_ok_show_byte word_ok_show_long word_ok_show_mac)

lemma words_length: "length (words_of c) = length (params_of (id_of c))"
  by (cases c) simp_all

lemma find_command: "find (\<lambda>ci. cmdString ci = cmd_str_of i) commandList = Some (info i)"
  by (cases i) (simp_all add: commandList_def cmd_ids_def info_def)

lemma print_cmd_accept:
  assumes "cmd_ok c"
  shows "accept (print_cmd c) = Some (info (id_of c), words_of c)"
proof -
  let ?ws = "cmd_str_of (id_of c) # words_of c"
  have ok: "\<forall>w\<in>set ?ws. word_ok w" by (rule words_ok[OF assms])
  then have "map (map (\<lambda>c. if c \<in> set '':;'' then CHR '' '' else c)) ?ws = ?ws"
    by (intro map_idI) (auto simp: word_ok_def list_all_iff plain_def intro!: map_idI)
  then have "replace_with_whitespace (print_cmd c) '':;'' = join CHR '' '' ?ws"
    unfolding replace_with_whitespace_def print_cmd_def map_join by simp
  moreover have "sscanf_words 4 (join CHR '' '' ?ws) = ?ws"
    using scan_join[OF ok, of 4 "[]"] words_length[of c] cmd_str_lengths(4)[of "id_of c"] by simp
  ultimately show ?thesis by (simp add: accept_def find_command words_length)
qed

lemma print_cmd_chars:
  assumes "cmd_ok c"
  shows "print_cmd c \<noteq> []" "\<forall>a\<in>set (print_cmd c). a \<notin> set dd_seps \<and> to_lower a = a \<and> of_char a \<noteq> (0 :: nat)"
proof -
  let ?ws = "cmd_str_of (id_of c) # words_of c"
  have ok: "\<forall>w\<in>set ?ws. word_ok w" by (rule words_ok[OF assms])
  then show "print_cmd c \<noteq> []" unfolding print_cmd_def by (subst join_Nil) (auto simp: word_ok_def)
  have "plain a \<or> a = CHR '':''" if "a \<in> set (print_cmd c)" for a
    using that set_join[of "CHR '':''" ?ws] ok unfolding print_cmd_def by (fastforce simp: word_ok_def list_all_iff)
  then show "\<forall>a\<in>set (print_cmd c). a \<notin> set dd_seps \<and> to_lower a = a \<and> of_char a \<noteq> (0 :: nat)"
    using plain_not_sep colon_not_sep by (fastforce simp: plain_def to_lower_def)
qed

lemma accepted_cmd_line:
  assumes "\<forall>c\<in>set cs. cmd_ok c"
  shows "accepted (cmd_line cs) = map (\<lambda>c. (info (id_of c), words_of c)) cs"
proof -
  have "to_lower CHR '' '' = CHR '' ''" by (simp add: to_lower_def)
  moreover have "map (map to_lower) (map print_cmd cs) = map print_cmd cs"
    using print_cmd_chars(2) assms by (intro map_idI) (auto intro!: map_idI)
  ultimately have "strlwr (cmd_line cs) = cmd_line cs"
    unfolding strlwr_def cmd_line_def map_join by (simp only:)
  moreover have "toks (cmd_line cs) = map print_cmd cs"
    unfolding cmd_line_def by (rule toks_join) (use print_cmd_chars assms in auto)
  moreover have "List.map_filter accept (map print_cmd cs) = map (\<lambda>c. (info (id_of c), words_of c)) cs"
    using assms by (induction cs) (simp_all add: map_filter_simps print_cmd_accept)
  ultimately show ?thesis by (simp add: accepted_def)
qed

section \<open>The array\<close>

lemma mem_get_take: "a + n \<le> k \<Longrightarrow> mem_get (take k mem) a n = mem_get mem a n"
  by (simp add: mem_get_def drop_take)

lemma mem_get_cong: "take k mem = take k mem' \<Longrightarrow> a + n \<le> k \<Longrightarrow> mem_get mem a n = mem_get mem' a n"
  by (metis mem_get_take)

lemma read_data_cong:
  assumes "take k mem = take k mem'" "base + 130 \<le> k"
  shows "read_data mem base i = read_data mem' base i"
proof -
  have "mem_get mem a n = mem_get mem' a n" if "a + n \<le> base + 130" for a n
    using that mem_get_cong[OF assms(1)] assms(2) by (meson order_trans)
  then show ?thesis
    by (cases i) (simp_all add: get_string_def get_byte_def get_long_def get_mac_def NETDRV_MAX_DEV_NAME_def ETH_ALEN_def)
qed

lemma read_cmd_cong:
  assumes "take k mem = take k mem'" "base + sizeof_cmd \<le> k"
  shows "read_cmd mem base = read_cmd mem' base"
  using read_data_cong[OF assms(1), of "base + 4"] mem_get_cong[OF assms(1), of base 4] assms(2)
  by (simp add: read_cmd_def get_long_def sizeof_cmd_def Let_def)

definition entry :: "dd_cmd \<Rightarrow> COMMAND_INFO \<times> string list" where
  "entry c = (info (id_of c), words_of c)"

text \<open>The room for a command: the last structure has none for \<open>net_new\<close>.\<close>

definition fits :: "nat \<Rightarrow> dd_cmd \<Rightarrow> bool" where
  "fits n c \<longleftrightarrow> n < MAX_DD_CMD_ARRAY \<and> (Suc n = MAX_DD_CMD_ARRAY \<longrightarrow> id_of c \<noteq> lte_dd_cmd_net_new)"

lemma fits_extent:
  assumes "fits n c" "length mem = MAX_DD_CMD_ARRAY * sizeof_cmd"
  shows "n * sizeof_cmd + cmd_extent (id_of c) \<le> length mem"
  using assms by (auto simp: fits_def cmd_extent_def sizeof_cmd_def MAX_DD_CMD_ARRAY_def)

lemma store_all_reads:
  assumes "\<forall>c\<in>set cs. cmd_ok c" "\<forall>j<length cs. fits (n + j) (cs ! j)" "length mem = MAX_DD_CMD_ARRAY * sizeof_cmd"
  shows "\<exists>mem'. store_all (map entry cs) (mem, n) = Inr (mem', n + length cs) \<and> length mem' = length mem \<and>
    take (n * sizeof_cmd) mem' = take (n * sizeof_cmd) mem \<and> (\<forall>j<length cs. read_cmd mem' ((n + j) * sizeof_cmd) = Some (cs ! j))"
  using assms
proof (induction cs arbitrary: mem n)
  case (Cons c cs)
  let ?a = "n * sizeof_cmd"
  have fit: "fits n c" "\<forall>j<length cs. fits (Suc n + j) (cs ! j)" using Cons.prems(2) by (auto dest: spec[of _ 0] spec[of _ "Suc j" for j])
  obtain mem1 where m1: "store (entry c) ?a mem = Inr mem1" "read_cmd mem1 ?a = Some c" "length mem1 = length mem"
    "take ?a mem1 = take ?a mem"
    using store_reads[of c ?a mem] fits_extent[OF fit(1) Cons.prems(3)] Cons.prems(1) by (auto simp: entry_def)
  obtain mem' where m': "store_all (map entry cs) (mem1, Suc n) = Inr (mem', Suc n + length cs)" "length mem' = length mem1"
    "take (Suc n * sizeof_cmd) mem' = take (Suc n * sizeof_cmd) mem1"
    "\<forall>j<length cs. read_cmd mem' ((Suc n + j) * sizeof_cmd) = Some (cs ! j)"
    using Cons.IH[of "Suc n" mem1] fit(2) Cons.prems(1,3) m1(3) by auto
  have "store_all (map entry (c # cs)) (mem, n) = Inr (mem', n + length (c # cs))"
  proof (cases "Suc n = MAX_DD_CMD_ARRAY")
    case True
    then have "cs = []" using fit(2) by (cases cs) (auto simp: fits_def)
    then show ?thesis using m1(1) m'(1) True by simp
  next
    case False
    then show ?thesis using m1(1) m'(1) by simp
  qed
  moreover have "take ?a mem' = take ?a mem"
    using m'(3) m1(4) by (metis le_add2 min.absorb1 mult_Suc take_take)
  moreover have "read_cmd mem' ?a = Some c" using m1(2) read_cmd_cong[OF m'(3), of ?a] by simp
  then have "\<forall>j<length (c # cs). read_cmd mem' ((n + j) * sizeof_cmd) = Some ((c # cs) ! j)"
    using m'(4) by (auto simp: less_Suc_eq_0_disj)
  ultimately show ?case using m'(2) m1(3) by (metis (no_types, lifting))
qed simp

lemma parse_cmd_line:
  assumes "cs \<noteq> []" "\<forall>c\<in>set cs. cmd_ok c" "\<forall>j<length cs. fits j (cs ! j)" "length mem = MAX_DD_CMD_ARRAY * sizeof_cmd"
  shows "\<exists>mem'. lte_dd_parse_dd_cmds True (Some (cmd_line cs)) (Some mem) (Some k) = Inr (0, Some mem', Some (length cs)) \<and>
    length mem' = length mem \<and> (\<forall>j<length cs. read_cmd mem' (j * sizeof_cmd) = Some (cs ! j))"
proof -
  have ne: "cmd_line cs \<noteq> []" using assms(1,2) print_cmd_chars(1) unfolding cmd_line_def by (subst join_Nil) auto
  have four: "4 \<le> length mem" using assms(4) by (simp add: MAX_DD_CMD_ARRAY_def sizeof_cmd_def)
  have acc: "accepted (cmd_line cs) = map entry cs" using accepted_cmd_line[OF assms(2)] by (simp add: entry_def[abs_def])
  have "length (replicate 4 0 @ drop 4 mem) = MAX_DD_CMD_ARRAY * sizeof_cmd" using four assms(4) by simp
  from store_all_reads[OF assms(2) _ this, of 0] assms(3) show ?thesis
    unfolding parse_store_all[OF ne four] acc using four by auto
qed

section \<open>Execution in order\<close>

fun exec_all :: "cmd_env \<Rightarrow> addr \<Rightarrow> nat \<Rightarrow> dd_cmd list \<Rightarrow> drivers \<Rightarrow> drivers res" where
  "exec_all e pdev i [] st = Inr st"
| "exec_all e pdev i (c # cs) st = rbind (exec_cmd e i pdev c st) (exec_all e pdev (Suc i) cs)"

lemma process_exec_all:
  "\<forall>j<length cs. read_cmd mem ((i + j) * sizeof_cmd) = Some (cs ! j) \<Longrightarrow>
     process_loop e pdev mem [i..<i + length cs] st = exec_all e pdev i cs st"
proof (induction cs arbitrary: i st)
  case (Cons c cs)
  have "process_loop e pdev mem [Suc i..<Suc i + length cs] = exec_all e pdev (Suc i) cs"
    using Cons.prems by (intro ext Cons.IH) (auto dest: spec[of _ "Suc j" for j])
  moreover have "[i..<i + length (c # cs)] = i # [Suc i..<Suc i + length cs]" by (subst upt_conv_Cons) simp_all
  moreover have "read_cmd mem (i * sizeof_cmd) = Some c" using Cons.prems by (auto dest: spec[of _ 0])
  ultimately show ?case by simp
qed simp

lemma short_line_fits:
  assumes "\<forall>c\<in>set cs. cmd_ok c" "length (cmd_line cs) \<le> 511"
  shows "\<forall>j<length cs. fits j (cs ! j)"
proof (intro allI impI)
  fix j assume j: "j < length cs"
  have acc: "accepted (cmd_line cs) = map entry cs" using accepted_cmd_line[OF assms(1)] by (simp add: entry_def[abs_def])
  have "length cs \<le> MAX_DD_CMD_ARRAY" using accepted_count[OF assms(2)] acc by simp
  moreover have "id_of (cs ! j) \<noteq> lte_dd_cmd_net_new" if "Suc j = MAX_DD_CMD_ARRAY"
    using accepted_short[OF assms(2)] acc j that by (auto simp: entry_def MAX_DD_CMD_ARRAY_def)
  ultimately show "fits j (cs ! j)" using j by (auto simp: fits_def)
qed

lemma cmd_line_bytes:
  assumes "\<forall>c\<in>set cs. cmd_ok c" "length (cmd_line cs) \<le> 511"
  shows "map byte_char (takeWhile (\<lambda>b. b \<noteq> 0) (take 511 (map char_byte (cmd_line cs)))) = cmd_line cs"
proof -
  have "of_char a \<noteq> (0 :: nat)" if "a \<in> set (cmd_line cs)" for a
    using that set_join[of "CHR '' ''" "map print_cmd cs"] print_cmd_chars(2) assms(1) unfolding cmd_line_def by fastforce
  then have "\<forall>b\<in>set (map char_byte (cmd_line cs)). b \<noteq> 0" by (auto simp: char_byte_zero)
  then have "takeWhile (\<lambda>b. b \<noteq> 0) (map char_byte (cmd_line cs)) = map char_byte (cmd_line cs)" by (simp add: takeWhile_eq_all_conv)
  then show ?thesis using assms(2) by (simp add: char_byte_char comp_def map_idI del: takeWhile_eq_all_conv)
qed


end
