(* ===== verification/DdIface.thy ===== *)
theory DdIface
  imports UplinkQos
begin

text \<open>
  Creating and deleting interfaces while the driver runs: \<open>lte_dd_create_net_iface\<close> and
  \<open>lte_dd_delete_net_iface\<close> of lte_data_driver_main_sdma.c with the probe and disconnect functions of
  the network driver, as the commands call them. Both keep the invariant of the uplink, also when
  a transfer of another interface is in progress.
\<close>

section \<open>One slot changes\<close>

lemma dev_ok_slot: "dev_ok w a i \<Longrightarrow> dev_ok w a j \<Longrightarrow> i = j"
  by (auto simp: dev_ok_def)

lemma dev_ok_kept:
  assumes "dev_ok w b j" "devs w' b = devs w b" "bus_ifs w' j = bus_ifs w j"
  shows "dev_ok w' b j"
  using assms by (simp add: dev_ok_def)

text \<open>
  A slot is given a new net info with an empty FIFO or none, the others and what they use stay.
\<close>

lemma ul_inv_slot:
  assumes inv: "ul_inv w" and i: "i < NETDRV_MAX_NUM_DEVICES"
    and nis: "ni_interfaces (bus w') = (ni_interfaces (bus w))[i := ni]"
    and tx: "dd_valid (bus w') = dd_valid (bus w)" "dd_flags (bus w') = dd_flags (bus w)" "tx_sdma_xfer (bus w') = tx_sdma_xfer (bus w)"
      "tx_sdma_packet (bus w') = tx_sdma_packet (bus w)" "tx_sdma_packet_cnt (bus w') = tx_sdma_packet_cnt (bus w)"
    and idle: "pnet (ni_at w i) = None \<or> ni_flags (ni_at w i) AND LTE_NI_FLAG_TX_BUSY = 0"
    and others: "\<And>j b. j < NETDRV_MAX_NUM_DEVICES \<Longrightarrow> j \<noteq> i \<Longrightarrow> dev_ok w b j \<Longrightarrow> dev_ok w' b j"
    and skb: "\<And>j s. j < NETDRV_MAX_NUM_DEVICES \<Longrightarrow> j \<noteq> i \<Longrightarrow> s \<in> set (qlist w j) \<Longrightarrow> skbs w' s = skbs w s"
    and new: "iface_ok w' i" "fifo_list (h_tx_data_fifo ni) = []"
  shows "ul_inv w'"
proof -
  have base: "ul_base w" using inv by (simp add: ul_inv_def)
  have len: "length (ni_interfaces (bus w)) = NETDRV_MAX_NUM_DEVICES" using base by (rule ul_base_length)
  have at: "ni_at w' j = (if j = i then ni else ni_at w j)" if "j < NETDRV_MAX_NUM_DEVICES" for j
    using nis that len i by simp
  have q: "qlist w' j = (if j = i then [] else qlist w j)" if "j < NETDRV_MAX_NUM_DEVICES" for j
    using at[OF that] new(2) by (simp add: qlist_def)
  have ok: "iface_ok w' j" if j: "j < NETDRV_MAX_NUM_DEVICES" for j
  proof (cases "j = i")
    case False
    have "iface_ok w j" using base j by (simp add: ul_base_def)
    then show ?thesis using at[OF j] False others[OF j False] by (auto simp: iface_ok_def split: option.splits)
  qed (use new(1) in simp)
  have sk: "skb_ok w' s" if "j < NETDRV_MAX_NUM_DEVICES" "s \<in> set (qlist w' j)" for j s
    using that q[OF that(1)] skb[of j s] base by (auto simp: ul_base_def skb_ok_def split: if_splits)
  have base': "ul_base w'"
    unfolding ul_base_def using base tx(1) nis ok q sk len by (auto simp: ul_base_def)
  show ?thesis
  proof (cases "tx_busy (bus w)")
    case True
    then obtain k where k: "k < NETDRV_MAX_NUM_DEVICES" "pnet (ni_at w k) \<noteq> None" "ni_flags (ni_at w k) AND LTE_NI_FLAG_TX_BUSY \<noteq> 0"
      "in_transfer (bus w) k (qlist w k) (tx_sdma_packet_cnt (bus w))" using inv by (auto simp: ul_inv_def)
    have "k \<noteq> i" using k(2,3) idle by auto
    then have "in_transfer (bus w') k (qlist w' k) (tx_sdma_packet_cnt (bus w'))" "ni_at w' k = ni_at w k"
      using k(4) q[OF k(1)] at[OF k(1)] tx by (simp_all add: in_transfer_def)
    then show ?thesis using base' k by (auto simp: ul_inv_def)
  next
    case False
    then show ?thesis using base' tx(2) by (simp add: ul_inv_def tx_busy_def)
  qed
qed

section \<open>Updates of one device\<close>

definition touches :: "addr \<Rightarrow> ('b, 'q) lte_sys \<Rightarrow> ('b, 'q) lte_sys \<Rightarrow> bool" where
  "touches a w w' \<longleftrightarrow> (\<exists>d d'. devs w a = Some d \<and> dev_core d' = dev_core d \<and> w' = set_dev w a d')"

lemma touches_refl: "devs w a = Some d \<Longrightarrow> touches a w w"
  by (auto simp: touches_def set_dev_def fun_upd_idem intro!: exI[of _ d])

lemma touches_trans: "touches a w w' \<Longrightarrow> touches a w' w'' \<Longrightarrow> touches a w w''"
  by (auto simp: touches_def set_dev_def)

lemma touches_dev:
  assumes "touches a w w'" "devs w a = Some d"
  obtains d' where "devs w' a = Some d'" "dev_core d' = dev_core d"
  using assms by (auto simp: touches_def set_dev_def)

lemma touches_fields:
  assumes "touches a w w'"
  shows "bus w' = bus w" "skbs w' = skbs w" "bus_ifs w' = bus_ifs w" "g_net_dev_list w' = g_net_dev_list w"
    "b \<noteq> a \<Longrightarrow> devs w' b = devs w b" "(devs w')(a := x) = (devs w)(a := x)"
    "g_net_eps_id_to_mac_addr_table w' = g_net_eps_id_to_mac_addr_table w" "default_mac_addr w' = default_mac_addr w"
  using assms by (auto simp: touches_def set_dev_def)

lemma upd_priv_touches:
  assumes "devs w a = Some d" "dev_core (d\<lparr>priv := f (priv d)\<rparr>) = dev_core d"
  shows "\<exists>w'. upd_priv w a f = Inr w' \<and> touches a w w'"
  using assms by (auto simp: upd_priv_Some touches_def)

lemma upd_net_dev_touches:
  assumes "devs w a = Some d" "dev_core (f d) = dev_core d"
  shows "\<exists>w'. upd_net_dev w (Some a) f = Inr w' \<and> touches a w w'"
  using assms by (auto simp: upd_net_dev_def get_dev_def touches_def)

lemma stop_queue_touches:
  assumes "devs w a = Some d" "pnet_dev (priv d) = Some a"
  shows "\<exists>w'. net_drv_stop_queue w a = Inr w' \<and> touches a w w'"
  using net_drv_stop_queue_frame[OF assms] assms(1) by (auto simp: touches_def)

lemma unregister_touches:
  assumes d: "devs w a = Some d" "pnet_dev (priv d) = Some a"
  shows "\<exists>w'. unregister_netdev w a = Inr w' \<and> touches a w w'"
proof (cases "dev_up d")
  case True
  obtain w1 where w1: "net_drv_stop_queue w a = Inr w1" "touches a w w1" using stop_queue_touches[OF d] by blast
  obtain d1 where d1: "devs w1 a = Some d1" using touches_dev[OF w1(2) d(1)] by blast
  have "dev_core (d1\<lparr>dev_up := False\<rparr>) = dev_core d1" by (simp add: dev_core_def)
  then obtain w2 where "upd_net_dev w1 (Some a) (\<lambda>d. d\<lparr>dev_up := False\<rparr>) = Inr w2" "touches a w1 w2"
    using upd_net_dev_touches[OF d1, of "\<lambda>d. d\<lparr>dev_up := False\<rparr>"] by blast
  then show ?thesis using d(1) w1 True touches_trans
    by (auto simp: unregister_netdev_def get_dev_def net_drv_dev_release_def)
next
  case False
  then show ?thesis using d(1) touches_refl[OF d(1)] by (simp add: unregister_netdev_def get_dev_def)
qed

section \<open>Deletion\<close>

text \<open>A FIFO of live buffers is flushed; they are freed.\<close>

lemma flush_frees:
  assumes "fifo_inv q" "fifo_list q = ss" "distinct ss" "\<forall>s\<in>set ss. skbs w s \<noteq> None"
  shows "\<exists>q'. flush_tx_loop q w = Some (Inr (q', w\<lparr>skbs := skbs w |` (- set ss)\<rparr>)) \<and> fifo_inv q' \<and> fifo_list q' = [] \<and>
    fifo_cap q' = fifo_cap q"
  using assms
proof (induction ss arbitrary: q w)
  case Nil
  have "ptr_fifo_remove q True = Inr (- 6, None, q)" using Nil ptr_ring.rem_empty by blast
  moreover have "skbs w |` (- set []) = skbs w" by (simp add: restrict_map_def)
  ultimately show ?case using Nil(1,2) by (subst flush_tx_loop.simps) simp
next
  case (Cons s ss)
  obtain q' where q': "ptr_fifo_remove q True = Inr (0, Some s, q')" "fifo_inv q'" "fifo_list q' = ss" "fifo_cap q' = fifo_cap q"
    using ptr_ring.rem_some[OF Cons.prems(1,2)] by blast
  let ?w = "w\<lparr>skbs := (skbs w)(s := None)\<rparr>"
  have "kfree_skb w s = Inr ?w" using Cons.prems(4) by (auto simp: kfree_skb_def)
  moreover have "\<forall>t\<in>set ss. skbs ?w t \<noteq> None" "distinct ss" using Cons.prems(3,4) by auto
  from Cons.IH[OF q'(2,3) this(2,1)] obtain q'' where
    "flush_tx_loop q' ?w = Some (Inr (q'', ?w\<lparr>skbs := skbs ?w |` (- set ss)\<rparr>))" "fifo_inv q''" "fifo_list q'' = []" "fifo_cap q'' = fifo_cap q'"
    by blast
  moreover have "skbs ?w |` (- set ss) = skbs w |` (- set (s # ss))" by (auto simp: restrict_map_def)
  ultimately show ?case using q'(1,4) by (subst flush_tx_loop.simps) (simp del: fun_upd_apply restrict_fun_upd)
qed

text \<open>Two further parts of the state that neither creation nor deletion shortens.\<close>

definition same_config :: "('b, 'q) lte_sys \<Rightarrow> ('b, 'q) lte_sys \<Rightarrow> bool" where
  "same_config w w' \<longleftrightarrow> g_net_eps_id_to_mac_addr_table w' = g_net_eps_id_to_mac_addr_table w \<and>
     length (default_mac_addr w') = length (default_mac_addr w)"

text \<open>The part of the disconnection that takes a registered device from the stack.\<close>

definition leave_stack :: "('b, 'q) lte_sys \<Rightarrow> addr \<Rightarrow> net_device \<Rightarrow> ('b, 'q) lte_sys res" where
  "leave_stack w a d =
     (if driver_status (priv d) AND NETDRV_STATUS_REGISTERED \<noteq> 0 then
        rbind (upd_net_dev w (Some a) (\<lambda>d. d\<lparr>present := False\<rparr>)) (\<lambda>w2.
        rbind (net_drv_stop_queue w2 a) (\<lambda>w3.
        rbind (upd_net_dev w3 (Some a) (\<lambda>d. d\<lparr>carrier_ok := False\<rparr>)) (\<lambda>w4.
        rbind (unregister_netdev w4 a) (\<lambda>w5.
        upd_priv w5 a (\<lambda>p. p\<lparr>driver_status := driver_status p AND NOT NETDRV_STATUS_REGISTERED\<rparr>)))))
      else Inr w)"

lemma leave_stack_touches:
  assumes d: "devs w a = Some d" "pnet_dev (priv d) = Some a"
  shows "\<exists>w'. leave_stack w a d = Inr w' \<and> touches a w w'"
proof (cases "driver_status (priv d) AND NETDRV_STATUS_REGISTERED \<noteq> 0")
  case True
  obtain w2 where w2: "upd_net_dev w (Some a) (\<lambda>d. d\<lparr>present := False\<rparr>) = Inr w2" "touches a w w2"
    using upd_net_dev_touches[OF d(1), of "\<lambda>d. d\<lparr>present := False\<rparr>"] by (auto simp: dev_core_def)
  obtain d2 where d2: "devs w2 a = Some d2" "dev_core d2 = dev_core d" using touches_dev[OF w2(2) d(1)] .
  obtain w3 where w3: "net_drv_stop_queue w2 a = Inr w3" "touches a w2 w3"
    using stop_queue_touches[OF d2(1)] d2(2) d(2) by (auto simp: dev_core_def)
  obtain d3 where d3: "devs w3 a = Some d3" "dev_core d3 = dev_core d2" using touches_dev[OF w3(2) d2(1)] .
  obtain w4 where w4: "upd_net_dev w3 (Some a) (\<lambda>d. d\<lparr>carrier_ok := False\<rparr>) = Inr w4" "touches a w3 w4"
    using upd_net_dev_touches[OF d3(1), of "\<lambda>d. d\<lparr>carrier_ok := False\<rparr>"] by (auto simp: dev_core_def)
  obtain d4 where d4: "devs w4 a = Some d4" "dev_core d4 = dev_core d3" using touches_dev[OF w4(2) d3(1)] .
  have "pnet_dev (priv d4) = Some a" using d4(2) d3(2) d2(2) d(2) by (simp add: dev_core_def)
  from unregister_touches[OF d4(1) this] obtain w5 where w5: "unregister_netdev w4 a = Inr w5" "touches a w4 w5" by blast
  obtain d5 where d5: "devs w5 a = Some d5" using touches_dev[OF w5(2) d4(1)] by blast
  obtain w6 where w6: "upd_priv w5 a (\<lambda>p. p\<lparr>driver_status := driver_status p AND NOT NETDRV_STATUS_REGISTERED\<rparr>) = Inr w6" "touches a w5 w6"
    using upd_priv_touches[OF d5, of "\<lambda>p. p\<lparr>driver_status := driver_status p AND NOT NETDRV_STATUS_REGISTERED\<rparr>"] by (auto simp: dev_core_def)
  have "touches a w w6" using w2(2) w3(2) w4(2) w5(2) w6(2) touches_trans by blast
  then show ?thesis using True w2(1) w3(1) w4(1) w5(1) w6(1) by (simp add: leave_stack_def)
qed (use touches_refl[OF d(1)] in \<open>simp add: leave_stack_def\<close>)

lemma disconnect_removes:
  assumes d: "devs w a = Some d" "nd_signature (priv d) = NETDRV_SIGNATURE" "nd_size_ok (priv d)" "pnet_dev (priv d) = Some a"
    and l: "find_slot (\<lambda>e. e = Some a) (g_net_dev_list w) = Some k"
  shows "\<exists>w'. net_drv_disconnect w (Some a) = Inr (AMP_ERROR_NONE, w') \<and> bus w' = bus w \<and> skbs w' = skbs w \<and>
    bus_ifs w' = bus_ifs w \<and> devs w' = (devs w)(a := None) \<and> g_net_dev_list w' = (g_net_dev_list w)[k := None] \<and> same_config w w'"
proof -
  have v: "net_drv_private_valid w (Some a) = Inr AMP_ERROR_NONE" using d by (simp add: net_drv_private_valid_def get_dev_def)
  obtain w1 where w1: "upd_priv w a (\<lambda>p. p\<lparr>driver_status := driver_status p OR NETDRV_STATUS_LINKDOWN\<rparr>) = Inr w1" "touches a w w1"
    using upd_priv_touches[OF d(1), of "\<lambda>p. p\<lparr>driver_status := driver_status p OR NETDRV_STATUS_LINKDOWN\<rparr>"] by (auto simp: dev_core_def)
  obtain d1 where d1: "devs w1 a = Some d1" "dev_core d1 = dev_core d" using touches_dev[OF w1(2) d(1)] .
  then have p1: "pnet_dev (priv d1) = Some a" using d(4) by (simp add: dev_core_def)
  obtain w6 where w6: "leave_stack w1 a d1 = Inr w6" "touches a w1 w6" using leave_stack_touches[OF d1(1) p1] by blast
  have t: "touches a w w6" using w1(2) w6(2) touches_trans by blast
  obtain d6 where d6: "devs w6 a = Some d6" using touches_dev[OF t d(1)] by blast
  define w7 where "w7 = w6\<lparr>devs := (devs w6)(a := None)\<rparr>"
  have w7: "free_netdev w6 (Some a) = Inr w7" using d6 by (simp add: free_netdev_def get_dev_def w7_def)
  note f = touches_fields[OF t]
  have l7: "find_slot (\<lambda>e. e = Some a) (g_net_dev_list w7) = Some k" using l f(4) by (simp add: w7_def)
  have "net_drv_disconnect w (Some a) = rbind (rbind (leave_stack w1 a d1) (\<lambda>w6. free_netdev w6 (Some a))) (\<lambda>w7.
      let (_, w8) = net_drv_device_list_remove w7 a in Inr (AMP_ERROR_NONE, w8))"
    using v l w1(1) d1(1) p1 by (simp add: net_drv_disconnect_def get_dev_def net_drv_device_list_get_entry_def leave_stack_def)
  also have "\<dots> = Inr (AMP_ERROR_NONE, w7\<lparr>g_net_dev_list := (g_net_dev_list w7)[k := None]\<rparr>)"
    using w6(1) w7 l7 by (simp add: net_drv_device_list_remove_def)
  finally show ?thesis using f by (simp add: w7_def same_config_def)
qed

text \<open>What deleting interface \<open>i\<close> with device \<open>a\<close> does to the state.\<close>

definition iface_deleted :: "nat \<Rightarrow> addr \<Rightarrow> 'q dd_sys \<Rightarrow> 'q dd_sys \<Rightarrow> bool" where
  "iface_deleted i a w w' \<longleftrightarrow>
     devs w' = (devs w)(a := None) \<and> skbs w' = skbs w |` (- set (qlist w i)) \<and> bus_ifs w' = (bus_ifs w)(i \<mapsto> zero_bus_if) \<and>
     bus w' = (bus w)\<lparr>ni_interfaces := (ni_interfaces (bus w))[i := zero_ni], ni_interfaces_cnt := ni_interfaces_cnt (bus w) - 1\<rparr> \<and>
     (\<exists>k. k < length (g_net_dev_list w) \<and> g_net_dev_list w ! k = Some a \<and> g_net_dev_list w' = (g_net_dev_list w)[k := None]) \<and> same_config w w'"

lemma delete_iface:
  assumes d: "devs w a = Some d" "nd_signature (priv d) = NETDRV_SIGNATURE" "nd_size_ok (priv d)" "pnet_dev (priv d) = Some a"
    and l: "Some a \<in> set (g_net_dev_list w)"
    and q: "pnet ni = Some a" "fifo_inv (h_tx_data_fifo ni)" "distinct (fifo_list (h_tx_data_fifo ni))"
      "\<forall>s\<in>set (fifo_list (h_tx_data_fifo ni)). skbs w s \<noteq> None"
  shows "\<exists>w'. lte_dd_delete_net_iface w ni f = Inr (AMP_ERROR_NONE, w') \<and> devs w' = (devs w)(a := None) \<and>
    skbs w' = skbs w |` (- set (fifo_list (h_tx_data_fifo ni))) \<and> bus_ifs w' = bus_ifs w \<and>
    bus w' = (bus w)\<lparr>ni_interfaces_cnt := ni_interfaces_cnt (bus w) - 1\<rparr> \<and>
    (\<exists>k. k < length (g_net_dev_list w) \<and> g_net_dev_list w ! k = Some a \<and> g_net_dev_list w' = (g_net_dev_list w)[k := None]) \<and> same_config w w'"
proof -
  have v: "net_drv_private_valid w (Some a) = Inr AMP_ERROR_NONE" using d by (simp add: net_drv_private_valid_def get_dev_def)
  obtain k where k: "find_slot (\<lambda>e. e = Some a) (g_net_dev_list w) = Some k" using l find_slot_None[of "\<lambda>e. e = Some a"] by fastforce
  obtain w1 where w1: "(if net_control f then rbind (net_drv_net_control w (Some a) NETDRV_NET_CONTROL_SUSPEND) (\<lambda>(_, w1). Inr w1) else Inr w) = Inr w1"
    "touches a w w1"
    using stop_queue_touches[OF d(1,4)] touches_refl[OF d(1)] v by (cases "net_control f") (auto simp: net_drv_net_control_def)
  note f1 = touches_fields[OF w1(2)]
  obtain d1 where d1: "devs w1 a = Some d1" "dev_core d1 = dev_core d" using touches_dev[OF w1(2) d(1)] .
  define w2 where "w2 = w1\<lparr>skbs := skbs w1 |` (- set (fifo_list (h_tx_data_fifo ni)))\<rparr>"
  have live: "\<forall>s\<in>set (fifo_list (h_tx_data_fifo ni)). skbs w1 s \<noteq> None" using q(4) f1(2) by simp
  obtain q' where w2: "flush_tx_loop (h_tx_data_fifo ni) w1 = Some (Inr (q', w2))"
    using flush_frees[OF q(2) refl q(3) live] unfolding w2_def by blast
  have h: "h_tx_data_fifo ni \<noteq> None" using q(2) by (cases "h_tx_data_fifo ni") auto
  have d2: "devs w2 a = Some d1" using d1(1) by (simp add: w2_def)
  have sig: "nd_signature (priv d1) = NETDRV_SIGNATURE" "nd_size_ok (priv d1)" "pnet_dev (priv d1) = Some a"
    using d1(2) d(2-4) by (simp_all add: dev_core_def)
  have k2: "find_slot (\<lambda>e. e = Some a) (g_net_dev_list w2) = Some k" using k f1(4) by (simp add: w2_def)
  obtain w3 where w3: "net_drv_disconnect w2 (Some a) = Inr (AMP_ERROR_NONE, w3)" "bus w3 = bus w2" "skbs w3 = skbs w2"
    "bus_ifs w3 = bus_ifs w2" "devs w3 = (devs w2)(a := None)" "g_net_dev_list w3 = (g_net_dev_list w2)[k := None]" "same_config w2 w3"
    using disconnect_removes[OF d2 sig k2] by blast
  have "lte_dd_delete_net_iface w ni f = Inr (AMP_ERROR_NONE, upd_bus w3 (\<lambda>d. d\<lparr>ni_interfaces_cnt := ni_interfaces_cnt d - 1\<rparr>))"
    using w1(1) w2 w3(1) q(1) h by (simp add: lte_dd_delete_net_iface_def lte_dd_flush_tx_data_fifo_def del: if_split_asm) (auto split: if_splits)
  then show ?thesis using w3(2-7) f1 find_slot_Some[OF k] by (auto simp: w2_def upd_bus_def same_config_def)
qed

lemma cmd_net_delete_effect:
  assumes inv: "ul_inv w" and n: "\<not> same_name name ''lte0''" and fi: "lte_dd_ni_interface_find_ifname w (Some name) = Some i"
    and idle: "ni_flags (ni_at w i) AND LTE_NI_FLAG_TX_BUSY = 0" and p: "pnet (ni_at w i) = Some a"
    and l: "Some a \<in> set (g_net_dev_list w)"
  shows "\<exists>w'. dd_cmd_net_delete w name = Inr w' \<and> iface_deleted i a w w'"
proof -
  have base: "ul_base w" using inv by (simp add: ul_inv_def)
  have i: "i < NETDRV_MAX_NUM_DEVICES" using find_slot_Some[of _ "ni_interfaces (bus w)" i] fi ul_base_length[OF base]
    by (auto simp: lte_dd_ni_interface_find_ifname_def)
  have len: "i < length (ni_interfaces (bus w))" using i ul_base_length[OF base] by simp
  note fifo = ul_base_fifo[OF base i p]
  obtain d f where d: "devs w a = Some d" "nd_signature (priv d) = NETDRV_SIGNATURE" "nd_size_ok (priv d)" "pnet_dev (priv d) = Some a"
    "bus_ifs w i = Some f" using fifo(3) by (auto simp: dev_ok_def)
  let ?ni = "ni_at w i"
  define w1 where "w1 = upd_bus w (\<lambda>d. d\<lparr>ni_interfaces := (ni_interfaces d)[i := ?ni\<lparr>pnet := None\<rparr>]\<rparr>)"
  have u: "upd_ni w i (\<lambda>ni. ni\<lparr>pnet := None\<rparr>) = Inr w1" using len by (simp add: upd_ni_def get_ni_def w1_def)
  have live: "distinct (fifo_list (h_tx_data_fifo ?ni))" "\<forall>s\<in>set (fifo_list (h_tx_data_fifo ?ni)). skbs w1 s \<noteq> None"
    using base i by (fastforce simp: ul_base_def qlist_def skb_ok_def w1_def upd_bus_def)+
  have d1: "devs w1 a = Some d" "Some a \<in> set (g_net_dev_list w1)" using d(1) l by (simp_all add: w1_def upd_bus_def)
  obtain w2 where w2: "lte_dd_delete_net_iface w1 ?ni f = Inr (AMP_ERROR_NONE, w2)" "devs w2 = (devs w1)(a := None)"
    "skbs w2 = skbs w1 |` (- set (fifo_list (h_tx_data_fifo ?ni)))" "bus_ifs w2 = bus_ifs w1"
    "bus w2 = (bus w1)\<lparr>ni_interfaces_cnt := ni_interfaces_cnt (bus w1) - 1\<rparr>"
    "\<exists>k. k < length (g_net_dev_list w1) \<and> g_net_dev_list w1 ! k = Some a \<and> g_net_dev_list w2 = (g_net_dev_list w1)[k := None]" "same_config w1 w2"
    using delete_iface[OF d1(1) d(2-4) d1(2) p fifo(1) live] by blast
  have "i < length (ni_interfaces (bus w2))" using w2(5) len by (simp add: w1_def upd_bus_def)
  then have "lte_dd_ni_interface_free w2 i =
      Inr ((upd_bus w2 (\<lambda>d. d\<lparr>ni_interfaces := (ni_interfaces d)[i := zero_ni]\<rparr>))\<lparr>bus_ifs := (bus_ifs w2)(i \<mapsto> zero_bus_if)\<rparr>)"
    by (simp add: lte_dd_ni_interface_free_def upd_ni_def get_ni_def upd_bus_def)
  then show ?thesis using n fi idle u w2 len d(5)
    by (simp add: dd_cmd_net_delete_def get_ni_def iface_deleted_def w1_def upd_bus_def qlist_def same_config_def)
qed

lemma iface_deleted_inv:
  assumes inv: "ul_inv w" and i: "i < NETDRV_MAX_NUM_DEVICES" and p: "pnet (ni_at w i) = Some a"
    and idle: "ni_flags (ni_at w i) AND LTE_NI_FLAG_TX_BUSY = 0" and del: "iface_deleted i a w w'"
  shows "ul_inv w'"
proof (rule ul_inv_slot[OF inv i, of w' zero_ni])
  have base: "ul_base w" using inv by (simp add: ul_inv_def)
  have ok: "dev_ok w a i" using ul_base_fifo(3)[OF base i p] .
  show "dev_ok w' b j" if "j \<noteq> i" "dev_ok w b j" for j b
  proof -
    have "b \<noteq> a" using that ok dev_ok_slot by metis
    then show ?thesis using dev_ok_kept[OF that(2), of w'] del that(1) by (simp add: iface_deleted_def)
  qed
  show "skbs w' s = skbs w s" if "j < NETDRV_MAX_NUM_DEVICES" "j \<noteq> i" "s \<in> set (qlist w j)" for j s
  proof -
    have "set (qlist w i) \<inter> set (qlist w j) = {}" using that(1,2) base i by (auto simp: ul_base_def)
    then have "s \<notin> set (qlist w i)" using that(3) by blast
    then show ?thesis using del by (simp add: iface_deleted_def)
  qed
  have "ni_at w' i = zero_ni" using del i ul_base_length[OF base] by (simp add: iface_deleted_def)
  then show "iface_ok w' i" by (simp add: iface_ok_def zero_ni_def)
qed (use del idle in \<open>simp_all add: iface_deleted_def zero_ni_def\<close>)

section \<open>Creation\<close>

text \<open>A failed creation leaves the slot cleared; a successful one fills it.\<close>

definition slot_cleared :: "nat \<Rightarrow> 'q dd_sys \<Rightarrow> 'q dd_sys \<Rightarrow> bool" where
  "slot_cleared i w w' \<longleftrightarrow> devs w' = devs w \<and> skbs w' = skbs w \<and> bus_ifs w' = (bus_ifs w)(i \<mapsto> zero_bus_if) \<and>
     bus w' = (bus w)\<lparr>ni_interfaces := (ni_interfaces (bus w))[i := zero_ni]\<rparr> \<and> g_net_dev_list w' = g_net_dev_list w \<and> same_config w w'"

definition iface_created :: "nat \<Rightarrow> addr \<Rightarrow> string \<Rightarrow> u8 \<Rightarrow> u8 \<Rightarrow> addr \<Rightarrow> 'q dd_sys \<Rightarrow> 'q dd_sys \<Rightarrow> bool" where
  "iface_created i a name eps prio pdev w w' \<longleftrightarrow> (\<exists>d q f ni.
     devs w' = (devs w)(a \<mapsto> d) \<and> nd_signature (priv d) = NETDRV_SIGNATURE \<and> nd_size_ok (priv d) \<and> pnet_dev (priv d) = Some a \<and>
     pnet_drv_bus_interface (priv d) = Some i \<and> pbus (priv d) = Some pdev \<and> (eps \<le> NETDRV_MAX_EPS_ID \<longrightarrow> eps_id (priv d) = eps) \<and>
     skbs w' = skbs w \<and> bus_ifs w' = (bus_ifs w)(i \<mapsto> f) \<and> tx_start f \<and> tx_complete f \<and> bus_control f \<and>
     fifo_inv q \<and> fifo_cap q = 64 \<and> fifo_list q = [] \<and> pnet ni = Some a \<and> h_tx_data_fifo ni = q \<and>
     ifname ni = take (NETDRV_MAX_DEV_NAME - 1) name \<and> ni_eps_id ni = eps \<and> priority ni = prio \<and> ni_flags ni = 0 \<and>
     bus w' = (bus w)\<lparr>ni_interfaces := (ni_interfaces (bus w))[i := ni], ni_interfaces_cnt := ni_interfaces_cnt (bus w) + 1\<rparr> \<and>
     insert (Some a) (set (g_net_dev_list w) - {None}) \<subseteq> set (g_net_dev_list w') \<and>
     same_config w w')"

lemma interface_free_clears:
  assumes "i < length (ni_interfaces (bus w))"
  shows "lte_dd_ni_interface_free w i =
    Inr ((upd_bus w (\<lambda>d. d\<lparr>ni_interfaces := (ni_interfaces d)[i := zero_ni]\<rparr>))\<lparr>bus_ifs := (bus_ifs w)(i \<mapsto> zero_bus_if)\<rparr>)"
  using assms by (simp add: lte_dd_ni_interface_free_def upd_ni_def get_ni_def upd_bus_def)

text \<open>\<open>kmalloc\<close> returns as many bytes as it is asked for, or nothing.\<close>

definition km_ok :: "(u32 \<Rightarrow> addr list option) \<Rightarrow> bool" where
  "km_ok km \<longleftrightarrow> (\<forall>sz blk. km sz = Some blk \<longrightarrow> unat sz \<le> 4 * length blk)"

lemma fifo_alloc_64:
  assumes "km_ok km" "km 260 \<noteq> None"
  shows "\<exists>q. ptr_fifo_alloc True km LTE_DD_TX_DATA_PACKET_FIFO_SIZE 0 (Some None) = (PTR_FIFO_ERROR_NONE, Some q) \<and>
    fifo_inv q \<and> fifo_list q = [] \<and> fifo_cap q = 64"
  using ptr_fifo_alloc_inv[of km 64 0 None] assms by (auto simp: km_ok_def LTE_DD_TX_DATA_PACKET_FIFO_SIZE_def)

text \<open>The probe registers a new device, or fails for want of a slot or memory and changes nothing.\<close>

lemma probe_registers:
  assumes f: "bus_ifs w i = Some f" "tx_start f" "bus_control f" and m: "4 < length (default_mac_addr w)"
    and l: "None \<in> set (g_net_dev_list w)" and n: "length name < IFNAMSIZ"
  shows "\<exists>w' d k. net_drv_probe (Some a) 0 w (Some name) (Some pdev) (Some i) True = Inr (AMP_ERROR_NONE, Some (Some a), w') \<and>
    devs w' = (devs w)(a \<mapsto> d) \<and> nd_signature (priv d) = NETDRV_SIGNATURE \<and> nd_size_ok (priv d) \<and> pnet_dev (priv d) = Some a \<and>
    pnet_drv_bus_interface (priv d) = Some i \<and> pbus (priv d) = Some pdev \<and> skbs w' = skbs w \<and> bus w' = bus w \<and>
    bus_ifs w' = (bus_ifs w)(i \<mapsto> f\<lparr>tx_complete := True, rx_start := True, rx_complete := True, net_control := True\<rparr>) \<and>
    k < length (g_net_dev_list w) \<and> g_net_dev_list w ! k = None \<and> g_net_dev_list w' = (g_net_dev_list w)[k := Some a] \<and> same_config w w'"
proof -
  obtain k where k: "find_slot (\<lambda>e. e = None) (g_net_dev_list w) = Some k" using l find_slot_None[of "\<lambda>e. e = None"] by fastforce
  have av: "net_drv_device_list_free_avail w \<noteq> 0" using l by (auto simp: net_drv_device_list_free_avail_def filter_empty_conv)
  show ?thesis using f m k av n find_slot_Some[OF k]
    by (simp add: net_drv_probe_def alloc_netdev_def net_drv_gen_mac_addr_def upd_net_dev_def upd_priv_def get_dev_def set_dev_def
        net_drv_device_list_add_def new_net_device_def same_config_def Let_def) (rule exI, rule conjI, rule refl, auto)
qed

lemma probe_fails:
  assumes f: "bus_ifs w i = Some f" and no: "alloc = None \<and> length name < IFNAMSIZ \<or> None \<notin> set (g_net_dev_list w)"
  shows "\<exists>rc. net_drv_probe alloc reg w (Some name) (Some pdev) (Some i) True = Inr (rc, Some None, w)"
proof -
  have "net_drv_device_list_free_avail w = 0" if "None \<notin> set (g_net_dev_list w)"
    using that by (simp add: net_drv_device_list_free_avail_def filter_empty_conv) (metis not_None_eq)
  then show ?thesis using assms by (auto simp: net_drv_probe_def alloc_netdev_def)
qed

text \<open>It stops the kernel when the name is too long, and writes to the freed device when the registration fails.\<close>

lemma probe_faults:
  assumes f: "bus_ifs w i = Some f" "tx_start f" "bus_control f" and m: "4 < length (default_mac_addr w)"
    and l: "None \<in> set (g_net_dev_list w)" and no: "IFNAMSIZ \<le> length name \<or> alloc \<noteq> None \<and> reg \<noteq> 0"
  shows "net_drv_probe alloc reg w (Some name) (Some pdev) (Some i) True = Inl (if IFNAMSIZ \<le> length name then Panic else DanglingDeref)"
proof -
  have "net_drv_device_list_free_avail w \<noteq> 0" using l by (auto simp: net_drv_device_list_free_avail_def filter_empty_conv)
  moreover have "(NETDRV_STATUS_INITIAL OR NETDRV_STATUS_LINKDOWN) AND NETDRV_STATUS_REGISTERED = 0" by (simp add: status_defs)
  ultimately show ?thesis using f m no
    by (auto simp: net_drv_probe_def alloc_netdev_def net_drv_gen_mac_addr_def upd_priv_def get_dev_def set_dev_def probe_error_exit_def
        free_netdev_def new_net_device_def Let_def)
qed

lemma create_fails:
  assumes i: "i < length (ni_interfaces (bus w))"
    and no: "\<not> km_obj \<or> km_data 260 = None \<or> alloc = None \<and> length name < IFNAMSIZ \<or> None \<notin> set (g_net_dev_list w)"
  shows "\<exists>rc w1 w'. lte_dd_create_net_iface km_obj km_data alloc reg pdev w name eps prio i = Inr (rc, w1) \<and> rc \<noteq> AMP_ERROR_NONE \<and>
    lte_dd_ni_interface_free w1 i = Inr w' \<and> slot_cleared i w w'"
proof (cases "ptr_fifo_alloc km_obj km_data LTE_DD_TX_DATA_PACKET_FIFO_SIZE 0 (Some None)")
  case (Pair pfval h)
  have rc: "AMP_ERROR_LTEDD_RESOURCE_ALLOC \<noteq> AMP_ERROR_NONE" by (simp add: AMP_ERROR_LTEDD_RESOURCE_ALLOC_def AMP_ERROR_NONE_def)
  show ?thesis
  proof (cases "pfval = PTR_FIFO_ERROR_NONE")
    case False
    then have h: "h = Some None" using Pair
      by (auto simp: ptr_fifo_alloc_def LTE_DD_TX_DATA_PACKET_FIFO_SIZE_def Let_def split: if_splits option.splits)
    show ?thesis using i rc False h Pair
      by (simp add: lte_dd_create_net_iface_def interface_free_clears upd_ni_def get_ni_def upd_bus_def slot_cleared_def same_config_def)
  next
    case True
    then have na: "alloc = None \<and> length name < IFNAMSIZ \<or> None \<notin> set (g_net_dev_list w)" using no Pair
      by (auto simp: ptr_fifo_alloc_def LTE_DD_TX_DATA_PACKET_FIFO_SIZE_def Let_def split: if_splits option.splits)
    define w2 where "w2 = (upd_bus w (\<lambda>d. d\<lparr>ni_interfaces := (ni_interfaces d)[i := zero_ni\<lparr>ifname := take (NETDRV_MAX_DEV_NAME - 1) name,
      ni_eps_id := eps, priority := prio, h_tx_data_fifo := the h\<rparr>]\<rparr>))\<lparr>bus_ifs := (bus_ifs w)(i \<mapsto> zero_bus_if\<lparr>tx_start := True, bus_control := True\<rparr>)\<rparr>"
    have g: "None \<in> set (g_net_dev_list w2) \<longleftrightarrow> None \<in> set (g_net_dev_list w)" by (simp add: w2_def upd_bus_def)
    have "bus_ifs w2 i = Some (zero_bus_if\<lparr>tx_start := True, bus_control := True\<rparr>)" by (simp add: w2_def)
    from probe_fails[OF this, of alloc "take (NETDRV_MAX_DEV_NAME - 1) name" reg pdev] obtain r where
      p: "net_drv_probe alloc reg w2 (Some (take (NETDRV_MAX_DEV_NAME - 1) name)) (Some pdev) (Some i) True = Inr (r, Some None, w2)"
      using g na by (auto simp: min_less_iff_disj)
    have c: "lte_dd_create_net_iface km_obj km_data alloc reg pdev w name eps prio i =
      rbind (if the h \<noteq> None then upd_ni w2 i (\<lambda>ni. ni\<lparr>h_tx_data_fifo := the (snd (ptr_fifo_free h))\<rparr>) else Inr w2)
        (\<lambda>w4. Inr (AMP_ERROR_LTEDD_RESOURCE_ALLOC, w4))"
      using i True Pair p by (simp add: lte_dd_create_net_iface_def upd_ni_def get_ni_def upd_bus_def w2_def)
    show ?thesis using i rc
      by (simp add: c interface_free_clears upd_ni_def get_ni_def upd_bus_def slot_cleared_def same_config_def w2_def)
  qed
qed

lemma set_update_other: "k < length xs \<Longrightarrow> set xs - {xs ! k} \<subseteq> set (xs[k := x])"
  by (auto simp: in_set_conv_nth nth_list_update) (metis nth_list_update_neq length_list_update)

lemma create_succeeds:
  assumes i: "i < length (ni_interfaces (bus w))" and m: "4 < length (default_mac_addr w)" and l: "None \<in> set (g_net_dev_list w)"
    and km: "km_ok km_data" "km_data 260 \<noteq> None" and n: "length name < IFNAMSIZ"
  shows "\<exists>w'. lte_dd_create_net_iface True km_data (Some a) 0 pdev w name eps prio i = Inr (AMP_ERROR_NONE, w') \<and>
    iface_created i a name eps prio pdev w w'"
proof -
  obtain q where q: "ptr_fifo_alloc True km_data LTE_DD_TX_DATA_PACKET_FIFO_SIZE 0 (Some None) = (PTR_FIFO_ERROR_NONE, Some q)"
    "fifo_inv q" "fifo_list q = []" "fifo_cap q = 64" using fifo_alloc_64[OF km] by blast
  let ?name = "take (NETDRV_MAX_DEV_NAME - 1) name" and ?f = "zero_bus_if\<lparr>tx_start := True, bus_control := True\<rparr>"
  define ni where "ni = zero_ni\<lparr>ifname := ?name, ni_eps_id := eps, priority := prio, h_tx_data_fifo := q\<rparr>"
  define w2 where "w2 = (upd_bus w (\<lambda>d. d\<lparr>ni_interfaces := (ni_interfaces d)[i := ni]\<rparr>))\<lparr>bus_ifs := (bus_ifs w)(i \<mapsto> ?f)\<rparr>"
  have w2: "bus_ifs w2 i = Some ?f" "4 < length (default_mac_addr w2)" "None \<in> set (g_net_dev_list w2)"
    using m l by (simp_all add: w2_def upd_bus_def)
  have n': "length ?name < IFNAMSIZ" using n by simp
  obtain w3 d k where p: "net_drv_probe (Some a) 0 w2 (Some ?name) (Some pdev) (Some i) True = Inr (AMP_ERROR_NONE, Some (Some a), w3)"
    and w3: "devs w3 = (devs w2)(a \<mapsto> d)" "nd_signature (priv d) = NETDRV_SIGNATURE" "nd_size_ok (priv d)" "pnet_dev (priv d) = Some a"
      "pnet_drv_bus_interface (priv d) = Some i" "pbus (priv d) = Some pdev" "skbs w3 = skbs w2" "bus w3 = bus w2"
      "bus_ifs w3 = (bus_ifs w2)(i \<mapsto> ?f\<lparr>tx_complete := True, rx_start := True, rx_complete := True, net_control := True\<rparr>)"
      "k < length (g_net_dev_list w2)" "g_net_dev_list w2 ! k = None" "g_net_dev_list w3 = (g_net_dev_list w2)[k := Some a]"
      "same_config w2 w3"
    using probe_registers[OF w2(1) _ _ w2(2,3) n', of a pdev] by auto
  define d' where "d' = (if NETDRV_MAX_EPS_ID < eps then d else d\<lparr>priv := (priv d)\<lparr>eps_id := eps\<rparr>\<rparr>)"
  define w4 where "w4 = (if NETDRV_MAX_EPS_ID < eps then w3 else set_dev w3 a d')"
  have e: "\<exists>rc. net_drv_set_eps_id w3 (Some a) eps = Inr (rc, w4)"
    using w3(1-3) by (simp add: net_drv_set_eps_id_def net_drv_private_valid_def get_dev_def upd_priv_def w4_def d'_def)
  have w4: "devs w4 = (devs w)(a \<mapsto> d')" "skbs w4 = skbs w" "bus w4 = bus w2" "g_net_dev_list w4 = g_net_dev_list w3"
    "bus_ifs w4 = (bus_ifs w)(i \<mapsto> ?f\<lparr>tx_complete := True, rx_start := True, rx_complete := True, net_control := True\<rparr>)"
    using w3 by (auto simp: w4_def d'_def set_dev_def w2_def upd_bus_def)
  have li: "i < length (ni_interfaces (bus w4))" "ni_interfaces (bus w4) ! i = ni" using i w4(3) by (simp_all add: w2_def upd_bus_def)
  define w' where "w' = upd_bus (upd_bus w4 (\<lambda>d. d\<lparr>ni_interfaces := (ni_interfaces d)[i := ni\<lparr>pnet := Some a\<rparr>]\<rparr>))
    (\<lambda>d. d\<lparr>ni_interfaces_cnt := ni_interfaces_cnt d + 1\<rparr>)"
  have "lte_dd_create_net_iface True km_data (Some a) 0 pdev w name eps prio i =
    rbind (net_drv_set_eps_id w3 (Some a) eps) (\<lambda>(_, w4). rbind (upd_ni w4 i (\<lambda>ni. ni\<lparr>pnet := Some a\<rparr>)) (\<lambda>w5.
      Inr (AMP_ERROR_NONE, upd_bus w5 (\<lambda>d. d\<lparr>ni_interfaces_cnt := ni_interfaces_cnt d + 1\<rparr>))))"
    using i q(1) p by (simp add: lte_dd_create_net_iface_def upd_ni_def get_ni_def upd_bus_def w2_def ni_def)
  also have "\<dots> = Inr (AMP_ERROR_NONE, w')" using e li by (auto simp: upd_ni_def get_ni_def w'_def)
  finally show ?thesis
  proof (intro exI conjI)
    have "g_net_dev_list w' = (g_net_dev_list w)[k := Some a]" "same_config w w'"
      using w3(12,13) by (simp_all add: same_config_def w'_def w4_def w2_def upd_bus_def set_dev_def)
    moreover have "insert (Some a) (set (g_net_dev_list w) - {None}) \<subseteq> set ((g_net_dev_list w)[k := Some a])"
      using set_update_other[of k "g_net_dev_list w" "Some a"] w3(10,11) by (simp add: w2_def upd_bus_def set_update_memI)
    ultimately show "iface_created i a name eps prio pdev w w'"
      unfolding iface_created_def using w3(2-6) w4 q(2-4)
      by (intro exI[of _ d'] exI[of _ q] exI[of _ "?f\<lparr>tx_complete := True, rx_start := True, rx_complete := True, net_control := True\<rparr>"]
          exI[of _ "ni\<lparr>pnet := Some a\<rparr>"]) (simp add: d'_def w'_def ni_def w2_def zero_ni_def upd_bus_def leD)
  qed
qed

lemma create_faults:
  assumes i: "i < length (ni_interfaces (bus w))" and m: "4 < length (default_mac_addr w)" and l: "None \<in> set (g_net_dev_list w)"
    and km: "km_ok km_data" "km_data 260 \<noteq> None" and no: "IFNAMSIZ \<le> length name \<or> alloc \<noteq> None \<and> reg \<noteq> 0"
  shows "lte_dd_create_net_iface True km_data alloc reg pdev w name eps prio i =
    Inl (if IFNAMSIZ \<le> length name then Panic else DanglingDeref)"
proof -
  obtain q where q: "ptr_fifo_alloc True km_data LTE_DD_TX_DATA_PACKET_FIFO_SIZE 0 (Some None) = (PTR_FIFO_ERROR_NONE, Some q)"
    using fifo_alloc_64[OF km] by blast
  let ?name = "take (NETDRV_MAX_DEV_NAME - 1) name" and ?f = "zero_bus_if\<lparr>tx_start := True, bus_control := True\<rparr>"
  define w2 where "w2 = (upd_bus w (\<lambda>d. d\<lparr>ni_interfaces := (ni_interfaces d)[i := zero_ni\<lparr>ifname := ?name, ni_eps_id := eps,
    priority := prio, h_tx_data_fifo := q\<rparr>]\<rparr>))\<lparr>bus_ifs := (bus_ifs w)(i \<mapsto> ?f)\<rparr>"
  have w2: "bus_ifs w2 i = Some ?f" "4 < length (default_mac_addr w2)" "None \<in> set (g_net_dev_list w2)"
    using m l by (simp_all add: w2_def upd_bus_def)
  have n: "IFNAMSIZ \<le> length ?name \<longleftrightarrow> IFNAMSIZ \<le> length name" by (simp add: IFNAMSIZ_def NETDRV_MAX_DEV_NAME_def)
  from probe_faults[OF w2(1) _ _ w2(2,3), where name = ?name and alloc = alloc and reg = reg and pdev = pdev] have
    "net_drv_probe alloc reg w2 (Some ?name) (Some pdev) (Some i) True = Inl (if IFNAMSIZ \<le> length name then Panic else DanglingDeref)"
    unfolding n using no by simp
  then show ?thesis using i q by (simp add: lte_dd_create_net_iface_def upd_ni_def get_ni_def upd_bus_def w2_def)
qed

lemma cleared_inv:
  assumes inv: "ul_inv w" and i: "i < NETDRV_MAX_NUM_DEVICES" and p: "pnet (ni_at w i) = None" and c: "slot_cleared i w w'"
  shows "ul_inv w'"
proof (rule ul_inv_slot[OF inv i, of w' zero_ni])
  have len: "length (ni_interfaces (bus w)) = NETDRV_MAX_NUM_DEVICES" using inv ul_base_length[of w] by (simp add: ul_inv_def)
  show "dev_ok w' b j" if "j \<noteq> i" "dev_ok w b j" for j b
    using dev_ok_kept[OF that(2), of w'] that(1) c by (simp add: slot_cleared_def)
  have "ni_at w' i = zero_ni" using c i len by (simp add: slot_cleared_def)
  then show "iface_ok w' i" by (simp add: iface_ok_def zero_ni_def)
qed (use c p in \<open>simp_all add: slot_cleared_def zero_ni_def\<close>)

lemma created_inv:
  assumes inv: "ul_inv w" and i: "i < NETDRV_MAX_NUM_DEVICES" and p: "pnet (ni_at w i) = None" and fresh: "devs w a = None"
    and c: "iface_created i a name eps prio pdev w w'"
  shows "ul_inv w'"
proof -
  have len: "length (ni_interfaces (bus w)) = NETDRV_MAX_NUM_DEVICES" using inv ul_base_length[of w] by (simp add: ul_inv_def)
  obtain d q f ni where w': "devs w' = (devs w)(a \<mapsto> d)" "nd_signature (priv d) = NETDRV_SIGNATURE" "nd_size_ok (priv d)"
    "pnet_dev (priv d) = Some a" "pnet_drv_bus_interface (priv d) = Some i" "pbus (priv d) = Some pdev" "skbs w' = skbs w"
    "bus_ifs w' = (bus_ifs w)(i \<mapsto> f)" "tx_start f" "tx_complete f" "bus_control f" "fifo_inv q" "fifo_cap q = 64" "fifo_list q = []"
    "pnet ni = Some a" "h_tx_data_fifo ni = q"
    "bus w' = (bus w)\<lparr>ni_interfaces := (ni_interfaces (bus w))[i := ni], ni_interfaces_cnt := ni_interfaces_cnt (bus w) + 1\<rparr>"
    using c unfolding iface_created_def by blast
  show ?thesis
  proof (rule ul_inv_slot[OF inv i, of w' ni])
    show "dev_ok w' b j" if "j \<noteq> i" "dev_ok w b j" for j b
    proof -
      have "b \<noteq> a" using that(2) fresh by (auto simp: dev_ok_def)
      then show ?thesis using dev_ok_kept[OF that(2), of w'] that(1) w'(1,8) by simp
    qed
    have "ni_at w' i = ni" using w'(17) i len by simp
    then show "iface_ok w' i" using w' by (simp add: iface_ok_def dev_ok_def)
  qed (use w' p in simp_all)
qed

section \<open>The commands\<close>

lemma find_slot_update: "find_slot P xs = None \<Longrightarrow> P x \<Longrightarrow> i < length xs \<Longrightarrow> find_slot P (xs[i := x]) = Some i"
  by (induction xs arbitrary: i) (auto simp: less_Suc_eq_0_disj split: if_splits)

lemma interface_alloc_slot:
  assumes "ul_inv w" "lte_dd_ni_interface_alloc w = Some i"
  shows "i < NETDRV_MAX_NUM_DEVICES" "pnet (ni_at w i) = None" "i < length (ni_interfaces (bus w))"
  using assms find_slot_Some[of _ "ni_interfaces (bus w)" i] ul_base_length[of w] by (auto simp: lte_dd_ni_interface_alloc_def ul_inv_def)

lemma created_found:
  assumes "lte_dd_ni_interface_find_ifname w (Some name) = None" "i < length (ni_interfaces (bus w))" "length name < NETDRV_MAX_DEV_NAME"
    "iface_created i a name eps prio pdev w w'"
  shows "lte_dd_ni_interface_find_ifname w' (Some name) = Some i"
proof -
  obtain ni where ni: "pnet ni = Some a" "ifname ni = take (NETDRV_MAX_DEV_NAME - 1) name" "ni_interfaces (bus w') = (ni_interfaces (bus w))[i := ni]"
    using assms(4) unfolding iface_created_def by auto
  have "ifname ni = name" using ni(2) assms(3) by simp
  then show ?thesis using assms(1,2) ni
    by (simp add: lte_dd_ni_interface_find_ifname_def find_slot_update same_name_def)
qed

text \<open>The resources a creation needs: a slot, the FIFO, a device and a place in the list of devices.\<close>

definition can_create :: "bool \<Rightarrow> (u32 \<Rightarrow> addr list option) \<Rightarrow> ptr \<Rightarrow> 'q dd_sys \<Rightarrow> bool" where
  "can_create km_obj km_data alloc w \<longleftrightarrow> lte_dd_ni_interface_alloc w \<noteq> None \<and> km_obj \<and> km_data 260 \<noteq> None \<and> alloc \<noteq> None \<and>
     None \<in> set (g_net_dev_list w)"

text \<open>
  The creation that goes wrong: it gets as far as the allocation of the device, and then the name
  is too long for the kernel or the registration of the device fails.
\<close>

definition create_unsafe :: "bool \<Rightarrow> (u32 \<Rightarrow> addr list option) \<Rightarrow> ptr \<Rightarrow> int \<Rightarrow> 'q dd_sys \<Rightarrow> string \<Rightarrow> bool" where
  "create_unsafe km_obj km_data alloc regval w name \<longleftrightarrow> lte_dd_ni_interface_find_ifname w (Some name) = None \<and>
     lte_dd_ni_interface_alloc w \<noteq> None \<and> km_obj \<and> km_data 260 \<noteq> None \<and> None \<in> set (g_net_dev_list w) \<and>
     (IFNAMSIZ \<le> length name \<or> alloc \<noteq> None \<and> regval \<noteq> 0)"

lemma cmd_net_new_faults:
  assumes inv: "ul_inv w" and km: "km_ok km_data" and m: "4 < length (default_mac_addr w)"
    and u: "create_unsafe km_obj km_data alloc reg w name"
  shows "dd_cmd_net_new km_obj km_data alloc reg pdev w name eps prio = Inl (if IFNAMSIZ \<le> length name then Panic else DanglingDeref)"
proof -
  obtain i where i: "lte_dd_ni_interface_alloc w = Some i" using u by (auto simp: create_unsafe_def)
  have c: "km_data 260 \<noteq> None" "None \<in> set (g_net_dev_list w)" "IFNAMSIZ \<le> length name \<or> alloc \<noteq> None \<and> reg \<noteq> 0" "km_obj"
    "lte_dd_ni_interface_find_ifname w (Some name) = None"
    using u by (auto simp: create_unsafe_def)
  show ?thesis
    using create_faults[OF interface_alloc_slot(3)[OF inv i] m c(2) km c(1,3), of pdev eps prio] i c(4,5) by (simp add: dd_cmd_net_new_def)
qed

lemma cmd_net_new_effect:
  assumes inv: "ul_inv w" and km: "km_ok km_data" and m: "4 < length (default_mac_addr w)"
    and safe: "\<not> create_unsafe km_obj km_data alloc reg w name"
  shows "\<exists>w'. dd_cmd_net_new km_obj km_data alloc reg pdev w name eps prio = Inr w' \<and>
    (if lte_dd_ni_interface_find_ifname w (Some name) = None \<and> can_create km_obj km_data alloc w
     then iface_created (the (lte_dd_ni_interface_alloc w)) (the alloc) name eps prio pdev w w'
     else w' = w \<or> (\<exists>i. lte_dd_ni_interface_alloc w = Some i \<and> slot_cleared i w w'))"
proof (cases "lte_dd_ni_interface_find_ifname w (Some name) = None \<and> lte_dd_ni_interface_alloc w \<noteq> None")
  case False
  then show ?thesis by (auto simp: dd_cmd_net_new_def can_create_def)
next
  case True
  then obtain i where i: "lte_dd_ni_interface_alloc w = Some i" by blast
  note slot = interface_alloc_slot[OF inv i]
  show ?thesis
  proof (cases "can_create km_obj km_data alloc w")
    case True
    then obtain a where a: "alloc = Some a" "km_obj" "km_data 260 \<noteq> None" "None \<in> set (g_net_dev_list w)" by (auto simp: can_create_def)
    have s: "length name < IFNAMSIZ" "reg = 0" using safe a \<open>_ \<and> _\<close> by (auto simp: create_unsafe_def)
    obtain w' where "lte_dd_create_net_iface True km_data (Some a) 0 pdev w name eps prio i = Inr (AMP_ERROR_NONE, w')"
      "iface_created i a name eps prio pdev w w'" using create_succeeds[OF slot(3) m a(4) km a(3) s(1)] by blast
    then show ?thesis using i a True s(2) \<open>_ \<and> _\<close> by (simp add: dd_cmd_net_new_def)
  next
    case False
    then have "\<not> km_obj \<or> km_data 260 = None \<or> alloc = None \<and> length name < IFNAMSIZ \<or> None \<notin> set (g_net_dev_list w)"
      using i safe \<open>_ \<and> lte_dd_ni_interface_alloc w \<noteq> None\<close> by (auto simp: can_create_def create_unsafe_def)
    then obtain rc w1 w' where
      c: "lte_dd_create_net_iface km_obj km_data alloc reg pdev w name eps prio i = Inr (rc, w1)" "rc \<noteq> AMP_ERROR_NONE"
      "lte_dd_ni_interface_free w1 i = Inr w'" "slot_cleared i w w'"
      using create_fails[OF slot(3), where km_obj = km_obj and km_data = km_data and alloc = alloc and reg = reg] by metis
    then show ?thesis using i False \<open>_ \<and> lte_dd_ni_interface_alloc w \<noteq> None\<close> by (simp add: dd_cmd_net_new_def)
  qed
qed

text \<open>Every device of an interface is in the list of the network driver.\<close>

definition devs_listed :: "'q dd_sys \<Rightarrow> bool" where
  "devs_listed w \<longleftrightarrow> (\<forall>j < NETDRV_MAX_NUM_DEVICES. \<forall>a. pnet (ni_at w j) = Some a \<longrightarrow> Some a \<in> set (g_net_dev_list w))"

lemma closed_queue: "ul_inv w \<Longrightarrow> i < NETDRV_MAX_NUM_DEVICES \<Longrightarrow> pnet (ni_at w i) = None \<Longrightarrow> qlist w i = []"
  by (auto simp: ul_inv_def ul_base_def iface_ok_def qlist_def)

lemma net_new_ok:
  assumes inv: "ul_inv w" and km: "km_ok km_data" and m: "4 < length (default_mac_addr w)" and fresh: "\<forall>a. alloc = Some a \<longrightarrow> devs w a = None"
    and safe: "\<not> create_unsafe km_obj km_data alloc reg w name"
  shows "\<exists>w'. dd_cmd_net_new km_obj km_data alloc reg pdev w name eps prio = Inr w' \<and> ul_inv w' \<and> skbs w' = skbs w \<and>
    (\<forall>j < NETDRV_MAX_NUM_DEVICES. qlist w' j = qlist w j) \<and> same_config w w' \<and> (devs_listed w \<longrightarrow> devs_listed w') \<and>
    (\<forall>b. alloc \<noteq> Some b \<longrightarrow> devs w' b = devs w b) \<and> ptsl_ul (bus w') = ptsl_ul (bus w) \<and> ptsl_dl (bus w') = ptsl_dl (bus w) \<and>
    (lte_dd_ni_interface_find_ifname w (Some name) = None \<and> can_create km_obj km_data alloc w \<longrightarrow>
       (\<exists>i. lte_dd_ni_interface_alloc w = Some i \<and> iface_created i (the alloc) name eps prio pdev w w'))"
proof -
  have len: "length (ni_interfaces (bus w)) = NETDRV_MAX_NUM_DEVICES" using inv ul_base_length[of w] by (simp add: ul_inv_def)
  obtain w' where w': "dd_cmd_net_new km_obj km_data alloc reg pdev w name eps prio = Inr w'"
    "if lte_dd_ni_interface_find_ifname w (Some name) = None \<and> can_create km_obj km_data alloc w
     then iface_created (the (lte_dd_ni_interface_alloc w)) (the alloc) name eps prio pdev w w'
     else w' = w \<or> (\<exists>i. lte_dd_ni_interface_alloc w = Some i \<and> slot_cleared i w w')" using cmd_net_new_effect[OF inv km m safe] by blast
  consider (new) i a where "lte_dd_ni_interface_alloc w = Some i" "alloc = Some a" "iface_created i a name eps prio pdev w w'"
    "lte_dd_ni_interface_find_ifname w (Some name) = None \<and> can_create km_obj km_data alloc w"
    | (same) "w' = w" "\<not> (lte_dd_ni_interface_find_ifname w (Some name) = None \<and> can_create km_obj km_data alloc w)"
    | (clear) i where "lte_dd_ni_interface_alloc w = Some i" "slot_cleared i w w'"
      "\<not> (lte_dd_ni_interface_find_ifname w (Some name) = None \<and> can_create km_obj km_data alloc w)"
    using w'(2) by (cases "lte_dd_ni_interface_find_ifname w (Some name) = None \<and> can_create km_obj km_data alloc w") (auto simp: can_create_def)
  then show ?thesis
  proof cases
    case new
    note slot = interface_alloc_slot[OF inv new(1)]
    obtain d q f ni where c: "devs w' = (devs w)(a \<mapsto> d)" "skbs w' = skbs w" "pnet ni = Some a" "h_tx_data_fifo ni = q" "fifo_list q = []"
      "bus w' = (bus w)\<lparr>ni_interfaces := (ni_interfaces (bus w))[i := ni], ni_interfaces_cnt := ni_interfaces_cnt (bus w) + 1\<rparr>"
      "insert (Some a) (set (g_net_dev_list w) - {None}) \<subseteq> set (g_net_dev_list w')" "same_config w w'"
      using new(3) unfolding iface_created_def by blast
    have at: "ni_at w' j = (if j = i then ni else ni_at w j)" if "j < NETDRV_MAX_NUM_DEVICES" for j using c(6) that len by simp
    have "ul_inv w'" using created_inv[OF inv slot(1,2) _ new(3)] fresh new(2) by simp
    moreover have "qlist w' j = qlist w j" if "j < NETDRV_MAX_NUM_DEVICES" for j
      using at[OF that] c(4,5) closed_queue[OF inv slot(1,2)] by (simp add: qlist_def)
    moreover have "devs_listed w'" if "devs_listed w" using that at c(3,7) by (auto simp: devs_listed_def)
    ultimately show ?thesis using w'(1) c new by auto
  next
    case same
    then show ?thesis using w'(1) inv by (auto simp: same_config_def)
  next
    case clear
    note slot = interface_alloc_slot[OF inv clear(1)]
    have c: "devs w' = devs w" "skbs w' = skbs w" "bus w' = (bus w)\<lparr>ni_interfaces := (ni_interfaces (bus w))[i := zero_ni]\<rparr>"
      "g_net_dev_list w' = g_net_dev_list w" "same_config w w'" using clear(2) by (simp_all add: slot_cleared_def)
    have at: "ni_at w' j = (if j = i then zero_ni else ni_at w j)" if "j < NETDRV_MAX_NUM_DEVICES" for j using c(3) that len by simp
    have "ul_inv w'" using cleared_inv[OF inv slot(1,2) clear(2)] .
    moreover have "qlist w' j = qlist w j" if "j < NETDRV_MAX_NUM_DEVICES" for j
      using at[OF that] closed_queue[OF inv slot(1,2)] by (simp add: qlist_def zero_ni_def)
    moreover have "devs_listed w'" if "devs_listed w" using that at c(4) by (auto simp: devs_listed_def zero_ni_def)
    ultimately show ?thesis using w'(1) c clear(3) by auto
  qed
qed

lemma net_delete_ok:
  assumes inv: "ul_inv w" and l: "devs_listed w"
  shows "\<exists>w'. dd_cmd_net_delete w name = Inr w' \<and> ul_inv w' \<and> devs_listed w' \<and> same_config w w' \<and> (\<forall>b. devs w b = None \<longrightarrow> devs w' b = None) \<and>
    ptsl_ul (bus w') = ptsl_ul (bus w) \<and> ptsl_dl (bus w') = ptsl_dl (bus w) \<and>
    (case lte_dd_ni_interface_find_ifname w (Some name) of
       None \<Rightarrow> w' = w
     | Some i \<Rightarrow> if same_name name ''lte0'' \<or> ni_flags (ni_at w i) AND LTE_NI_FLAG_TX_BUSY \<noteq> 0 then w' = w
         else \<exists>a. pnet (ni_at w i) = Some a \<and> iface_deleted i a w w')"
proof (cases "lte_dd_ni_interface_find_ifname w (Some name)")
  case None
  then show ?thesis using inv l by (auto simp: dd_cmd_net_delete_def same_config_def)
next
  case (Some i)
  have base: "ul_base w" using inv by (simp add: ul_inv_def)
  have i: "i < NETDRV_MAX_NUM_DEVICES" "pnet (ni_at w i) \<noteq> None" using find_slot_Some[of _ "ni_interfaces (bus w)" i] Some ul_base_length[OF base]
    by (auto simp: lte_dd_ni_interface_find_ifname_def)
  show ?thesis
  proof (cases "same_name name ''lte0'' \<or> ni_flags (ni_at w i) AND LTE_NI_FLAG_TX_BUSY \<noteq> 0")
    case True
    then show ?thesis using inv l Some i ul_base_length[OF base] by (auto simp: dd_cmd_net_delete_def same_config_def get_ni_def)
  next
    case False
    then have idle: "ni_flags (ni_at w i) AND LTE_NI_FLAG_TX_BUSY = 0" and n: "\<not> same_name name ''lte0''" by simp_all
    obtain a where a: "pnet (ni_at w i) = Some a" using i(2) by blast
    have la: "Some a \<in> set (g_net_dev_list w)" using l i(1) a by (simp add: devs_listed_def)
    obtain w' where w': "dd_cmd_net_delete w name = Inr w'" "iface_deleted i a w w'"
      using cmd_net_delete_effect[OF inv n Some idle a la] by blast
    then obtain k where c: "devs w' = (devs w)(a := None)" "k < length (g_net_dev_list w)" "g_net_dev_list w ! k = Some a"
      "g_net_dev_list w' = (g_net_dev_list w)[k := None]" "same_config w w'"
      "bus w' = (bus w)\<lparr>ni_interfaces := (ni_interfaces (bus w))[i := zero_ni], ni_interfaces_cnt := ni_interfaces_cnt (bus w) - 1\<rparr>"
      by (auto simp: iface_deleted_def)
    have "Some b \<in> set (g_net_dev_list w')" if j: "j < NETDRV_MAX_NUM_DEVICES" "pnet (ni_at w' j) = Some b" for j b
    proof -
      have ji: "j \<noteq> i" "pnet (ni_at w j) = Some b" using j c(6) i(1) ul_base_length[OF base] by (auto simp: zero_ni_def nth_list_update split: if_splits)
      have "b \<noteq> a" using ul_base_fifo(3)[OF base j(1) ji(2)] ul_base_fifo(3)[OF base i(1) a] dev_ok_slot ji(1) by metis
      then show ?thesis using l j(1) ji(2) set_update_other[OF c(2), of None] c(3,4) by (auto simp: devs_listed_def)
    qed
    then have "devs_listed w'" by (simp add: devs_listed_def)
    then show ?thesis using w' c iface_deleted_inv[OF inv i(1) a idle w'(2)] Some False a by auto
  qed
qed

section \<open>The control entry\<close>

text \<open>
  The command to flush an interface frees its queued buffers. No transfer of the interface may be in
  progress: the packets of a transfer stay in the FIFO until it is complete.
\<close>

lemma find_pnet_at:
  assumes "ul_base w" "lte_dd_ni_interface_find_pnet w (Some a) = Some i"
  shows "i < NETDRV_MAX_NUM_DEVICES" "pnet (ni_at w i) = Some a"
  using assms find_slot_Some[of _ "ni_interfaces (bus w)" i] ul_base_length[OF assms(1)]
  by (auto simp: lte_dd_ni_interface_find_pnet_def split: if_splits)

lemma flush_step:
  assumes inv: "ul_inv w" and f: "lte_dd_ni_interface_find_pnet w (Some a) = Some i"
    and idle: "ni_flags (ni_at w i) AND LTE_NI_FLAG_TX_BUSY = 0" and v: "lte_dd_private_valid w pdev = AMP_ERROR_NONE"
  shows "\<exists>w'. lte_dd_bus_control e a pdev NETDRV_BUS_CONTROL_FLUSH c w = Inr (AMP_ERROR_NONE, w') \<and> ul_inv w' \<and> ul_moves w w' \<and>
    qlist w' i = []"
proof -
  have base: "ul_base w" using inv by (simp add: ul_inv_def)
  have len: "length (ni_interfaces (bus w)) = NETDRV_MAX_NUM_DEVICES" using base by (rule ul_base_length)
  note i = find_pnet_at[OF base f] and fifo = ul_base_fifo[OF base find_pnet_at[OF base f]]
  let ?ni = "ni_at w i"
  have live: "distinct (fifo_list (h_tx_data_fifo ?ni))" "\<forall>s\<in>set (fifo_list (h_tx_data_fifo ?ni)). skbs w s \<noteq> None"
    using base i(1) by (fastforce simp: ul_base_def qlist_def skb_ok_def)+
  obtain q where q: "flush_tx_loop (h_tx_data_fifo ?ni) w = Some (Inr (q, w\<lparr>skbs := skbs w |` (- set (qlist w i))\<rparr>))"
    "fifo_inv q" "fifo_list q = []" "fifo_cap q = 64"
    using flush_frees[OF fifo(1) refl live] fifo(2) by (auto simp: qlist_def)
  define ni where "ni = ?ni\<lparr>h_tx_data_fifo := q, tx_data_packet_write_fifo_cnt := 0, tx_data_packet_read_fifo_cnt := 0\<rparr>"
  define w' where "w' = upd_bus (w\<lparr>skbs := skbs w |` (- set (qlist w i))\<rparr>) (\<lambda>d. d\<lparr>ni_interfaces := (ni_interfaces d)[i := ni]\<rparr>)"
  have r: "lte_dd_bus_control e a pdev NETDRV_BUS_CONTROL_FLUSH c w = Inr (AMP_ERROR_NONE, w')"
    using f q(1) i(1) len v
    by (simp add: lte_dd_bus_control_def lte_dd_flush_tx_data_fifo_def upd_ni_def get_ni_def w'_def ni_def)
  have w': "devs w' = devs w" "bus_ifs w' = bus_ifs w" "skbs w' = skbs w |` (- set (qlist w i))"
    "ni_interfaces (bus w') = (ni_interfaces (bus w))[i := ni]" by (simp_all add: w'_def upd_bus_def)
  have at: "ni_at w' j = (if j = i then ni else ni_at w j)" if "j < NETDRV_MAX_NUM_DEVICES" for j using w'(4) that len by simp
  have ql: "qlist w' j = (if j = i then [] else qlist w j)" if "j < NETDRV_MAX_NUM_DEVICES" for j
    using at[OF that] q(3) by (simp add: qlist_def ni_def)
  have dis: "set (qlist w i) \<inter> set (qlist w j) = {}" if "j < NETDRV_MAX_NUM_DEVICES" "j \<noteq> i" for j using that base i(1) by (auto simp: ul_base_def)
  have ok: "dev_ok w' b j \<longleftrightarrow> dev_ok w b j" for b j using w'(1,2) by (simp add: dev_ok_def)
  have "ul_inv w'"
  proof (rule ul_inv_slot[OF inv i(1), of w' ni])
    show "iface_ok w' i" using at[OF i(1)] i(2) q ok fifo(3) by (simp add: iface_ok_def ni_def)
    show "skbs w' s = skbs w s" if "j < NETDRV_MAX_NUM_DEVICES" "j \<noteq> i" "s \<in> set (qlist w j)" for j s
      using dis[OF that(1,2)] that(3) w'(3) by (auto simp: restrict_map_def)
  qed (use w'(4) ok idle q(3) in \<open>simp_all add: ni_def, simp_all add: w'_def upd_bus_def\<close>)
  moreover have "owned w - owned w' = set (qlist w i)"
    using ql dis i(1) by (fastforce simp: owned_def split: if_splits)
  then have "ul_moves w w'"
    using w' at i(2) ql by (auto simp: ul_moves_def same_shape_def ni_def intro: exI[of _ "length (qlist w i)"] exI[of _ 0])
  ultimately show ?thesis using r ql[OF i(1)] by auto
qed

lemma control_step:
  assumes "ul_inv w" "cmd = NETDRV_BUS_CONTROL_FLUSH \<longrightarrow>
      (\<forall>i. lte_dd_ni_interface_find_pnet w (Some a) = Some i \<longrightarrow> ni_flags (ni_at w i) AND LTE_NI_FLAG_TX_BUSY = 0)"
  shows "\<exists>rc w'. lte_dd_bus_control e a pdev cmd c w = Inr (rc, w') \<and> ul_inv w' \<and> ul_moves w w'"
proof (cases "cmd = NETDRV_BUS_CONTROL_FLUSH")
  case False
  then show ?thesis using bus_control_step[OF assms(1), of cmd e a pdev c] by (auto simp: ul_step_def)
next
  case True
  have r: "ul_inv w \<and> ul_moves w w" using ul_step_refl[OF assms(1)] by (simp add: ul_step_def)
  show ?thesis
  proof (cases "lte_dd_private_valid w pdev = AMP_ERROR_NONE \<and> lte_dd_ni_interface_find_pnet w (Some a) \<noteq> None")
    case False
    then show ?thesis using r True by (auto simp: lte_dd_bus_control_def Let_def)
  next
    case c: True
    then show ?thesis using flush_step[OF assms(1)] assms(2) True by blast
  qed
qed

section \<open>Properties\<close>

text \<open>
  C5. Safety of the uplink: in every state of the invariant the callbacks of the baseband interface,
  given the driver's array or another one, the transmit routine and every control command
  return without a fault and lead to a state of the invariant, in which packets have only left
  the FIFOs from the front and exactly those are freed. For one command there is a condition: flushing
  an interface frees all of its FIFO, so no transfer of that interface may be in progress.
\<close>

theorem uplink_entries_keep_invariant:
  assumes "ul_inv w"
  shows "(\<exists>w'. lte_dd_4ghif_ul_complete_cb e given ours w = Inr w' \<and> ul_inv w' \<and> ul_moves w w') \<and>
     (\<exists>w'. lte_dd_4ghif_ul_resume_cb e w = Inr w' \<and> ul_inv w' \<and> ul_moves w w') \<and>
     (\<forall>cmd. (cmd = NETDRV_BUS_CONTROL_FLUSH \<longrightarrow>
          (\<forall>i. lte_dd_ni_interface_find_pnet w (Some a) = Some i \<longrightarrow> ni_flags (ni_at w i) AND LTE_NI_FLAG_TX_BUSY = 0)) \<longrightarrow>
        (\<exists>rc w'. lte_dd_bus_control e a pdev cmd c w = Inr (rc, w') \<and> ul_inv w' \<and> ul_moves w w')) \<and>
     (\<exists>rc w'. lte_dd_sdma_tx e w = Inr (rc, w') \<and> ul_inv w' \<and> ul_moves w w')"
proof (intro conjI allI impI)
  show "\<exists>w'. lte_dd_4ghif_ul_complete_cb e given ours w = Inr w' \<and> ul_inv w' \<and> ul_moves w w'"
    using ul_complete_cb_step[OF assms] unfolding ul_step_def .
  show "\<exists>w'. lte_dd_4ghif_ul_resume_cb e w = Inr w' \<and> ul_inv w' \<and> ul_moves w w'"
    using ul_resume_step[OF assms] unfolding ul_step_def .
  show "\<exists>rc w'. lte_dd_bus_control e a pdev cmd c w = Inr (rc, w') \<and> ul_inv w' \<and> ul_moves w w'"
    if "cmd = NETDRV_BUS_CONTROL_FLUSH \<longrightarrow>
      (\<forall>i. lte_dd_ni_interface_find_pnet w (Some a) = Some i \<longrightarrow> ni_flags (ni_at w i) AND LTE_NI_FLAG_TX_BUSY = 0)" for cmd
    using control_step[OF assms that] .
  show "\<exists>rc w'. lte_dd_sdma_tx e w = Inr (rc, w') \<and> ul_inv w' \<and> ul_moves w w'"
    using sdma_tx_step[OF assms] unfolding ul_step_def .
qed

theorem uplink_entries_keep_invariant_witness:
  "\<exists>w'. lte_dd_4ghif_ul_resume_cb (lte0_env (IPC_4GHIF_STATUS_OK, 1)) (lte0_sys 64 LTE_DD_FLAG_TX_THROTTLE 0 ()) = Inr w' \<and> ul_inv w'"
proof -
  have "ul_inv (lte0_sys 64 LTE_DD_FLAG_TX_THROTTLE 0 ())" by (rule lte0_inv) (simp_all add: dd_flag_defs)
  from uplink_entries_keep_invariant[OF this, of "lte0_env (IPC_4GHIF_STATUS_OK, 1)"] show ?thesis by blast
qed


text \<open>
  C16. The command that creates an interface, for every name and every answer of the kernel. It goes
  wrong exactly when the name is new, a slot, the FIFO and a place in the list of devices are there, and
  then either the name has sixteen characters or more, which stops the kernel in \<open>alloc_netdev\<close>, or
  \<open>register_netdev\<close> fails on the allocated device, which the probe function frees and then writes to.
  In every other case it returns, keeps the invariant of the uplink and touches no buffer and no queue
  of the others; when the name is new and the resources are there, the interface is found under
  its name afterwards, with the bearer and priority of the command, an empty FIFO and a registered
  device that points back to it.
\<close>

theorem dd_cmd_net_new_creates:
  assumes "ul_inv w" "km_ok km_data" "4 < length (default_mac_addr w)" "\<forall>a. alloc = Some a \<longrightarrow> devs w a = None"
  shows "if lte_dd_ni_interface_find_ifname w (Some name) = None \<and> lte_dd_ni_interface_alloc w \<noteq> None \<and> km_obj \<and> km_data 260 \<noteq> None \<and>
      None \<in> set (g_net_dev_list w) \<and> (16 \<le> length name \<or> alloc \<noteq> None \<and> regval \<noteq> 0)
    then dd_cmd_net_new km_obj km_data alloc regval pdev w name eps prio = Inl (if 16 \<le> length name then Panic else DanglingDeref)
    else \<exists>w'. dd_cmd_net_new km_obj km_data alloc regval pdev w name eps prio = Inr w' \<and> ul_inv w' \<and> skbs w' = skbs w \<and>
      (\<forall>j < NETDRV_MAX_NUM_DEVICES. qlist w' j = qlist w j) \<and>
      (lte_dd_ni_interface_find_ifname w (Some name) = None \<and> can_create km_obj km_data alloc w \<longrightarrow>
         (\<exists>i. lte_dd_ni_interface_find_ifname w' (Some name) = Some i \<and> iface_created i (the alloc) name eps prio pdev w w'))"
proof (cases "create_unsafe km_obj km_data alloc regval w name")
  case True
  then show ?thesis using cmd_net_new_faults[OF assms(1-3) True] by (simp add: create_unsafe_def IFNAMSIZ_def)
next
  case False
  obtain w' where w': "dd_cmd_net_new km_obj km_data alloc regval pdev w name eps prio = Inr w'" "ul_inv w'" "skbs w' = skbs w"
    "\<forall>j < NETDRV_MAX_NUM_DEVICES. qlist w' j = qlist w j"
    "lte_dd_ni_interface_find_ifname w (Some name) = None \<and> can_create km_obj km_data alloc w \<longrightarrow>
       (\<exists>i. lte_dd_ni_interface_alloc w = Some i \<and> iface_created i (the alloc) name eps prio pdev w w')"
    using net_new_ok[OF assms(1-4) False] by blast
  have "length name < NETDRV_MAX_DEV_NAME" if "lte_dd_ni_interface_find_ifname w (Some name) = None \<and> can_create km_obj km_data alloc w"
    using that False by (auto simp: create_unsafe_def can_create_def IFNAMSIZ_def NETDRV_MAX_DEV_NAME_def)
  then have "\<exists>w'. dd_cmd_net_new km_obj km_data alloc regval pdev w name eps prio = Inr w' \<and> ul_inv w' \<and> skbs w' = skbs w \<and>
      (\<forall>j < NETDRV_MAX_NUM_DEVICES. qlist w' j = qlist w j) \<and>
      (lte_dd_ni_interface_find_ifname w (Some name) = None \<and> can_create km_obj km_data alloc w \<longrightarrow>
         (\<exists>i. lte_dd_ni_interface_find_ifname w' (Some name) = Some i \<and> iface_created i (the alloc) name eps prio pdev w w'))"
    using w' created_found[OF _ interface_alloc_slot(3)[OF assms(1)]] by (intro exI[of _ w']) auto
  moreover have "\<not> (lte_dd_ni_interface_find_ifname w (Some name) = None \<and> lte_dd_ni_interface_alloc w \<noteq> None \<and> km_obj \<and> km_data 260 \<noteq> None \<and>
      None \<in> set (g_net_dev_list w) \<and> (16 \<le> length name \<or> alloc \<noteq> None \<and> regval \<noteq> 0))" using False by (simp add: create_unsafe_def IFNAMSIZ_def)
  ultimately show ?thesis by (simp only: if_False)
qed

definition words_km :: "u32 \<Rightarrow> addr list option" where
  "words_km sz = Some (replicate (unat sz) 0)"

lemma words_km_ok: "km_ok words_km"
  by (simp add: km_ok_def words_km_def)

lemma lte0_config:
  "4 < length (default_mac_addr (lte0_sys n fl st q))" "devs (lte0_sys n fl st q) 1 = None" "devs_listed (lte0_sys n fl st q)"
  "lte_dd_ni_interface_find_ifname (lte0_sys n fl st q) (Some ''wan1'') = None" "can_create True words_km (Some 1) (lte0_sys n fl st q)"
  "lte_dd_ni_interface_alloc (lte0_sys n fl st q) = Some 1"
proof -
  let ?w = "lte0_sys n fl st q"
  show "4 < length (default_mac_addr ?w)" "devs ?w 1 = None" by (simp_all add: lte0_sys_def Let_def DEFAULT_BAS_MAC_ADDR_def)
  have at: "ni_at ?w j = (if j = 0 then zero_ni\<lparr>ifname := ''lte0'', ni_eps_id := 5, pnet := Some 0, h_tx_data_fifo := Some (lte0_fifo n)\<rparr> else zero_ni)"
    if "j < NETDRV_MAX_NUM_DEVICES" for j
    using that by (cases j) (simp_all add: lte0_sys_def lte0_bus_def Let_def NETDRV_MAX_NUM_DEVICES_def)
  show "devs_listed ?w"
    unfolding devs_listed_def using at by (auto simp: zero_ni_def) (simp add: lte0_sys_def Let_def)
  have seven: "replicate 7 x = [x, x, x, x, x, x, x]" for x :: lte_dd_net_info_t by (simp add: eval_nat_numeral)
  show a: "lte_dd_ni_interface_alloc ?w = Some 1" "lte_dd_ni_interface_find_ifname ?w (Some ''wan1'') = None"
    by (simp_all add: lte_dd_ni_interface_alloc_def lte_dd_ni_interface_find_ifname_def lte0_sys_def lte0_bus_def Let_def zero_ni_def seven
        same_name_def to_lower_def)
  show "can_create True words_km (Some 1) ?w" using a by (simp add: can_create_def words_km_def lte0_sys_def Let_def)
qed

lemma wan1_safe: "\<not> create_unsafe True words_km (Some 1) 0 (lte0_sys n fl st q) ''wan1''"
  by (simp add: create_unsafe_def IFNAMSIZ_def)

theorem dd_cmd_net_new_creates_witness:
  "\<exists>w'. dd_cmd_net_new True words_km (Some 1) 0 0 (lte0_sys 3 0 0 ()) ''wan1'' 6 2 = Inr w' \<and> ul_inv w' \<and>
     (\<exists>i. lte_dd_ni_interface_find_ifname w' (Some ''wan1'') = Some i \<and> iface_created i 1 ''wan1'' 6 2 0 (lte0_sys 3 0 0 ()) w') \<and>
     dd_cmd_net_new True words_km (Some 1) (- 17) 0 (lte0_sys 3 0 0 ()) ''wan1'' 6 2 = Inl DanglingDeref"
proof -
  have inv: "ul_inv (lte0_sys 3 0 0 ())" by (rule lte0_inv) simp_all
  have a: "\<forall>a. Some 1 = Some a \<longrightarrow> devs (lte0_sys 3 0 0 ()) a = None" using lte0_config(2) by simp
  have c: "can_create True words_km (Some 1) (lte0_sys 3 0 0 ())" by (rule lte0_config(5))
  then show ?thesis
    using dd_cmd_net_new_creates[OF inv words_km_ok lte0_config(1) a, of "''wan1''" True 0 0 6 2]
      dd_cmd_net_new_creates[OF inv words_km_ok lte0_config(1) a, of "''wan1''" True "- 17" 0 6 2] lte0_config(4)[of 3 0 0 "()"]
    unfolding can_create_def by auto
qed

text \<open>
  C17. The command that deletes an interface. It returns and keeps the invariant of the uplink. The
  persistent interface, an unknown one and one with a transfer in progress are refused and nothing
  changes; otherwise the device is freed and leaves the list, exactly the buffers queued at the
  interface are freed, and its slot is cleared.
\<close>

theorem dd_cmd_net_delete_removes:
  assumes "ul_inv w" "devs_listed w"
  shows "\<exists>w'. dd_cmd_net_delete w name = Inr w' \<and> ul_inv w' \<and> devs_listed w' \<and>
    (case lte_dd_ni_interface_find_ifname w (Some name) of
       None \<Rightarrow> w' = w
     | Some i \<Rightarrow> if same_name name ''lte0'' \<or> ni_flags (ni_at w i) AND LTE_NI_FLAG_TX_BUSY \<noteq> 0 then w' = w
         else \<exists>a. pnet (ni_at w i) = Some a \<and> iface_deleted i a w w')"
  using net_delete_ok[OF assms, of name] by blast

text \<open>The witness deletes an interface that a command has created.\<close>

lemma wan1_system:
  "\<exists>w. dd_cmd_net_new True words_km (Some 1) 0 0 (lte0_sys 3 0 0 ()) ''wan1'' 6 2 = Inr w \<and> ul_inv w \<and> devs_listed w \<and>
     lte_dd_ni_interface_find_ifname w (Some ''wan1'') = Some 1 \<and> pnet (ni_at w 1) = Some 1 \<and> ni_flags (ni_at w 1) = 0"
proof -
  let ?w = "lte0_sys 3 0 0 ()"
  have inv: "ul_inv ?w" by (rule lte0_inv) simp_all
  have f: "\<forall>a. Some 1 = Some a \<longrightarrow> devs ?w a = None" using lte0_config(2) by simp
  obtain w where w: "dd_cmd_net_new True words_km (Some 1) 0 0 ?w ''wan1'' 6 2 = Inr w" "ul_inv w" "devs_listed w"
    "iface_created 1 1 ''wan1'' 6 2 0 ?w w"
    using net_new_ok[OF inv words_km_ok lte0_config(1) f wan1_safe, of 0 6 2] lte0_config(3-6)[of 3 0 0 "()"] by auto
  have n: "1 < length (ni_interfaces (bus ?w))" "length ''wan1'' < NETDRV_MAX_DEV_NAME"
    by (simp_all add: lte0_sys_def lte0_bus_def Let_def NETDRV_MAX_DEV_NAME_def)
  have "lte_dd_ni_interface_find_ifname w (Some ''wan1'') = Some 1" using created_found[OF lte0_config(4) n w(4)] .
  moreover have "pnet (ni_at w 1) = Some 1" "ni_flags (ni_at w 1) = 0" using w(4) n(1) unfolding iface_created_def by auto
  ultimately show ?thesis using w(1-3) by blast
qed

theorem dd_cmd_net_delete_removes_witness:
  "\<exists>w w'. dd_cmd_net_new True words_km (Some 1) 0 0 (lte0_sys 3 0 0 ()) ''wan1'' 6 2 = Inr w \<and>
     dd_cmd_net_delete w ''wan1'' = Inr w' \<and> ul_inv w' \<and> iface_deleted 1 1 w w'"
proof -
  obtain w where w: "dd_cmd_net_new True words_km (Some 1) 0 0 (lte0_sys 3 0 0 ()) ''wan1'' 6 2 = Inr w" "ul_inv w" "devs_listed w"
    "lte_dd_ni_interface_find_ifname w (Some ''wan1'') = Some 1" "pnet (ni_at w 1) = Some 1" "ni_flags (ni_at w 1) = 0" using wan1_system by blast
  have "\<not> same_name ''wan1'' ''lte0''" by (simp add: same_name_def to_lower_def)
  then show ?thesis using dd_cmd_net_delete_removes[OF w(2,3), of "''wan1''"] w(1,4-6) by auto
qed

end
