(* ===== verification/DdCmdsConfig.thy ===== *)
theory DdCmdsConfig
  imports DdCmdsRun DdIface QaHandlers GhifProto
begin

text \<open>
  The commands and the uplink. The commands that configure the drivers, that is all but those that
  create or delete an interface, leave the uplink with its interfaces, queues and transfer alone;
  every command keeps its invariant. At the end stand the properties of the component.
\<close>

section \<open>Frame\<close>

text \<open>What the invariant of the uplink reads is the same in both states.\<close>

definition tx_part :: "lte_dd_dev_t \<Rightarrow> bool \<times> u32 \<times> lte_dd_sdma_xfer_t list \<times> nat option list \<times> nat" where
  "tx_part d = (dd_valid d, dd_flags d AND LTE_DD_FLAG_TX_BUSY, tx_sdma_xfer d, tx_sdma_packet d, tx_sdma_packet_cnt d)"

definition config_frame :: "'q dd_sys \<Rightarrow> 'q dd_sys \<Rightarrow> bool" where
  "config_frame w w' \<longleftrightarrow> same_shape w w' \<and> skbs w' = skbs w \<and> tx_part (bus w') = tx_part (bus w) \<and>
     map ni_core (ni_interfaces (bus w')) = map ni_core (ni_interfaces (bus w))"

lemma config_frame_refl [simp]: "config_frame w w"
  by (simp add: config_frame_def)

lemma config_frame_trans: "config_frame w w' \<Longrightarrow> config_frame w' w'' \<Longrightarrow> config_frame w w''"
  using same_shape_trans by (auto simp: config_frame_def)

lemma config_frame_qlist:
  assumes "config_frame w w'" "i < length (ni_interfaces (bus w))"
  shows "qlist w' i = qlist w i"
  using assms qlist_cong by (auto simp: config_frame_def)

lemma config_frame_inv:
  assumes "ul_inv w" "config_frame w w'"
  shows "ul_inv w'"
proof -
  let ?n = "NETDRV_MAX_NUM_DEVICES"
  have base: "ul_base w" and fr: "map ni_core (ni_interfaces (bus w')) = map ni_core (ni_interfaces (bus w))"
    "same_shape w w'" "skbs w' = skbs w" "tx_part (bus w') = tx_part (bus w)"
    using assms by (auto simp: ul_inv_def config_frame_def)
  have len: "length (ni_interfaces (bus w)) = ?n" using base by (rule ul_base_length)
  have "map (\<lambda>(p, h, f). (p, h)) (map ni_core (ni_interfaces (bus w'))) = map (\<lambda>(p, h, f). (p, h)) (map ni_core (ni_interfaces (bus w)))"
    using fr(1) by simp
  then have sf: "same_fifos w w'" by (simp add: same_fifos_def ni_core_def comp_def)
  have base': "ul_base w'" using ul_base_same_fifos[OF base sf fr(2,3)] fr(4) by (simp add: tx_part_def)
  have same: "pnet (ni_at w' i) = pnet (ni_at w i)" "ni_flags (ni_at w' i) = ni_flags (ni_at w i)" "qlist w' i = qlist w i" if "i < ?n" for i
    using map_core_nth[OF fr(1), of i] that len by (simp_all add: qlist_def)
  have "in_transfer (bus w') i q n = in_transfer (bus w) i q n" for i q n using fr(4) by (simp add: in_transfer_def tx_part_def)
  moreover have "tx_busy (bus w') = tx_busy (bus w)" "tx_sdma_packet_cnt (bus w') = tx_sdma_packet_cnt (bus w)"
    using fr(4) by (simp_all add: tx_busy_def tx_part_def)
  ultimately show ?thesis using assms(1) base' same by (auto simp: ul_inv_def)
qed

section \<open>Configuration commands\<close>

fun config_cmd :: "dd_cmd \<Rightarrow> bool" where
  "config_cmd (Net_new n e p) = False" | "config_cmd (Net_delete n) = False" | "config_cmd _ = True"

definition log_fits :: "tsl_log_t option \<Rightarrow> bool" where
  "log_fits p \<longleftrightarrow> (case p of None \<Rightarrow> True | Some t \<Rightarrow> unat (tsl_entry_num_elements t) \<le> length (ptsl_entry t))"

definition config_ok :: "'q dd_sys \<Rightarrow> bool" where
  "config_ok w \<longleftrightarrow> ul_inv w \<and> length (g_net_eps_id_to_mac_addr_table w) = 16 \<and> log_fits (ptsl_ul (bus w)) \<and> log_fits (ptsl_dl (bus w))"

text \<open>A step returns, in a state that is well-formed again, and touches nothing of the uplink.\<close>

definition config_step :: "'q dd_sys \<Rightarrow> 'q dd_sys \<Rightarrow> bool" where
  "config_step w w' \<longleftrightarrow> config_frame w w' \<and> length (g_net_eps_id_to_mac_addr_table w') = length (g_net_eps_id_to_mac_addr_table w) \<and>
     (log_fits (ptsl_ul (bus w)) \<longrightarrow> log_fits (ptsl_ul (bus w'))) \<and> (log_fits (ptsl_dl (bus w)) \<longrightarrow> log_fits (ptsl_dl (bus w'))) \<and>
     g_net_dev_list w' = g_net_dev_list w \<and> default_mac_addr w' = default_mac_addr w"

lemma config_step_refl [simp]: "config_step w w"
  by (simp add: config_step_def)

lemma config_step_trans: "config_step w w' \<Longrightarrow> config_step w' w'' \<Longrightarrow> config_step w w''"
  using config_frame_trans by (auto simp: config_step_def)

lemma config_step_ok: "config_ok w \<Longrightarrow> config_step w w' \<Longrightarrow> config_ok w'"
  using config_frame_inv by (auto simp: config_ok_def config_step_def)

text \<open>Fields that neither driver's invariant reads.\<close>

lemma config_step_fields:
  assumes "bus w' = bus w" "devs w' = devs w" "skbs w' = skbs w" "bus_ifs w' = bus_ifs w"
    "length (g_net_eps_id_to_mac_addr_table w') = length (g_net_eps_id_to_mac_addr_table w)"
    "g_net_dev_list w' = g_net_dev_list w" "default_mac_addr w' = default_mac_addr w"
  shows "config_step w w'"
  using assms by (simp add: config_step_def config_frame_def same_shape_def)

lemma config_step_bus:
  assumes "tx_part (f (bus w)) = tx_part (bus w)" "map ni_core (ni_interfaces (f (bus w))) = map ni_core (ni_interfaces (bus w))"
    "log_fits (ptsl_ul (bus w)) \<Longrightarrow> log_fits (ptsl_ul (f (bus w)))" "log_fits (ptsl_dl (bus w)) \<Longrightarrow> log_fits (ptsl_dl (f (bus w)))"
  shows "config_step w (upd_bus w f)"
  using assms by (simp add: config_step_def config_frame_def same_shape_def upd_bus_def)

lemma config_step_ni:
  assumes "i < length (ni_interfaces (bus w))" "\<And>ni. ni_core (f ni) = ni_core ni"
  shows "\<exists>w'. upd_ni w i f = Inr w' \<and> config_step w w' \<and> devs w' = devs w"
proof -
  have "map ni_core ((ni_interfaces (bus w))[i := f (ni_at w i)]) = map ni_core (ni_interfaces (bus w))"
    using assms by (simp add: map_update list_update_same_conv)
  then have "config_step w (upd_bus w (\<lambda>d. d\<lparr>ni_interfaces := (ni_interfaces d)[i := f (ni_at w i)]\<rparr>))"
    by (intro config_step_bus) (simp_all add: tx_part_def)
  then show ?thesis using assms(1) by (simp add: upd_ni_def get_ni_def upd_bus_def)
qed

lemma find_ifname_Some:
  assumes "ul_inv w" "lte_dd_ni_interface_find_ifname w (Some name) = Some i"
  obtains a where "i < NETDRV_MAX_NUM_DEVICES" "i < length (ni_interfaces (bus w))" "pnet (ni_at w i) = Some a" "dev_ok w a i"
proof -
  have base: "ul_base w" using assms(1) by (simp add: ul_inv_def)
  have i: "i < length (ni_interfaces (bus w))" "pnet (ni_at w i) \<noteq> None"
    using find_slot_Some[of _ "ni_interfaces (bus w)" i] assms(2) by (auto simp: lte_dd_ni_interface_find_ifname_def)
  then obtain a where a: "pnet (ni_at w i) = Some a" by blast
  have n: "i < NETDRV_MAX_NUM_DEVICES" using i(1) ul_base_length[OF base] by simp
  then have "iface_ok w i" using base by (simp add: ul_base_def)
  then show ?thesis using that[OF n i(1) a] a by (simp add: iface_ok_def)
qed

lemma set_eps_id_step:
  assumes "dev_ok w a i"
  shows "\<exists>rc w'. net_drv_set_eps_id w (Some a) eps = Inr (rc, w') \<and> config_step w w'"
proof -
  obtain d where d: "devs w a = Some d" "nd_signature (priv d) = NETDRV_SIGNATURE" "nd_size_ok (priv d)"
    using assms by (auto simp: dev_ok_def)
  then have v: "net_drv_private_valid w (Some a) = Inr AMP_ERROR_NONE" by (simp add: net_drv_private_valid_def get_dev_def)
  let ?d = "d\<lparr>priv := (priv d)\<lparr>eps_id := eps\<rparr>\<rparr>"
  have "same_shape w (set_dev w a ?d)" using d(1) by (rule same_shape_set_dev) (simp add: dev_core_def)
  then have "config_step w (set_dev w a ?d)" by (simp add: config_step_def config_frame_def set_dev_def)
  then show ?thesis using v d(1) by (auto simp: net_drv_set_eps_id_def upd_priv_Some)
qed

lemma net_eps_step:
  assumes "ul_inv w"
  shows "\<exists>w'. dd_cmd_net_eps w name eps = Inr w' \<and> config_step w w'"
proof (cases "lte_dd_ni_interface_find_ifname w (Some name)")
  case (Some i)
  obtain a where a: "i < length (ni_interfaces (bus w))" "pnet (ni_at w i) = Some a" "dev_ok w a i"
    using find_ifname_Some[OF assms Some] by blast
  obtain w1 where w1: "upd_ni w i (\<lambda>ni. ni\<lparr>ni_eps_id := eps\<rparr>) = Inr w1" "config_step w w1"
    using config_step_ni[OF a(1), of "\<lambda>ni. ni\<lparr>ni_eps_id := eps\<rparr>"] by (auto simp: ni_core_def)
  have "dev_ok w1 a i" using dev_ok_shape[OF a(3)] w1(2) by (simp add: config_step_def config_frame_def)
  from set_eps_id_step[OF this] obtain rc w2 where "net_drv_set_eps_id w1 (Some a) eps = Inr (rc, w2)" "config_step w1 w2" by blast
  then show ?thesis using Some a(1,2) w1 config_step_trans by (auto simp: dd_cmd_net_eps_def get_ni_def)
qed (simp add: dd_cmd_net_eps_def)

lemma net_priority_step:
  assumes "ul_inv w"
  shows "\<exists>w'. dd_cmd_net_priority w name prio = Inr w' \<and> config_step w w'"
proof (cases "lte_dd_ni_interface_find_ifname w (Some name)")
  case (Some i)
  obtain a where "i < length (ni_interfaces (bus w))" using find_ifname_Some[OF assms Some] by blast
  from config_step_ni[OF this, of "\<lambda>ni. ni\<lparr>priority := prio\<rparr>"] Some show ?thesis
    by (auto simp: ni_core_def dd_cmd_net_priority_def)
qed (simp add: dd_cmd_net_priority_def)

lemma set_mac_map_step:
  assumes "length (g_net_eps_id_to_mac_addr_table w) = 16" "\<forall>m. mac = Some m \<longrightarrow> length m = ETH_ALEN"
  shows "\<exists>rc w'. net_drv_set_eps_mac_map w eps mac = Inr (rc, w') \<and> config_step w w'"
proof (cases "NETDRV_MAX_EPS_ID < eps")
  case False
  then have "unat eps < 16" by (simp add: NETDRV_MAX_EPS_ID_def word_less_nat_alt not_less)
  moreover obtain m' where "(case mac of None \<Rightarrow> Inr default_dev_mac_addr
      | Some m \<Rightarrow> if ETH_ALEN \<le> length m then Inr (take ETH_ALEN m) else Inl OutOfBounds) = Inr m'"
    using assms(2) by (cases mac) auto
  ultimately show ?thesis using False assms(1)
    by (auto simp: net_drv_set_eps_mac_map_def intro!: config_step_fields)
qed (simp add: net_drv_set_eps_mac_map_def)

lemma qa_mac_map_step:
  assumes "\<forall>m. mac = Some m \<longrightarrow> length m = ETH_ALEN"
  shows "\<exists>w'. qa_mac_map eps mac w = Inr w' \<and> config_step w w'"
proof -
  obtain s c where q: "qos w = (s, c)" by (cases "qos w")
  have "\<exists>r s1. lte_qa_set_eps_mac_map s eps mac = Inr (r, s1)"
    using assms find_classifier_table_Some[of s eps] by (cases mac) (auto simp: lte_qa_set_eps_mac_map_def split: option.splits)
  then obtain r s1 where "lte_qa_set_eps_mac_map s eps mac = Inr (r, s1)" by blast
  moreover have "config_step w (w\<lparr>qos := (s1, c)\<rparr>)" by (rule config_step_fields) simp_all
  ultimately show ?thesis using q by (simp add: qa_mac_map_def)
qed

lemma profile_log_fits:
  assumes "log_fits p"
  shows "\<exists>p'. profile_log en reset p = Inr p' \<and> log_fits p'"
proof -
  have en: "log_fits (snd (tsl_enable p en))" if "log_fits p" for p
    using that by (cases p) (auto simp: tsl_enable_def log_fits_def Let_def tsl_private_valid_def)
  have "\<exists>rc p'. tsl_reset p = Inr (rc, p') \<and> log_fits p'"
    using assms by (cases p) (auto simp: tsl_reset_def log_fits_def Let_def tsl_private_valid_def fresh_entries_def)
  then show ?thesis using en assms by (auto simp: profile_log_def)
qed

lemma set_dd_flag_step:
  assumes "flag AND LTE_DD_FLAG_TX_BUSY = 0" "NOT flag AND LTE_DD_FLAG_TX_BUSY = LTE_DD_FLAG_TX_BUSY"
  shows "config_step w (set_dd_flag w flag en)"
  unfolding set_dd_flag_def
  by (rule config_step_bus) (use assms in \<open>auto simp: tx_part_def bit.conj_disj_distrib2 and.assoc\<close>)

text \<open>The two profiles.\<close>

lemma ul_profile_step:
  assumes "log_fits p" shows "config_step w (upd_bus w (\<lambda>d. d\<lparr>ptsl_ul := p\<rparr>))"
  by (rule config_step_bus) (use assms in \<open>simp_all add: tx_part_def\<close>)

lemma dl_profile_step:
  assumes "log_fits p" shows "config_step w (upd_bus w (\<lambda>d. d\<lparr>ptsl_dl := p\<rparr>))"
  by (rule config_step_bus) (use assms in \<open>simp_all add: tx_part_def\<close>)

lemma qos_mode_step: "config_step w (snd (net_drv_set_qos_mode w m))"
  by (rule config_step_fields) (simp_all add: net_drv_set_qos_mode_def net_drv_set_active_qos_handers_def Let_def)

lemma global_step:
  "config_step w (snd (net_drv_set_bridge_mode w en))" "config_step w (snd (net_drv_set_disable_ul w en))"
  "config_step w (snd (net_drv_perf_test w dur sz delay))" "config_step w (w\<lparr>qos := q\<rparr>)"
  by (rule config_step_fields; simp add: net_drv_set_bridge_mode_def net_drv_set_disable_ul_def set_global_flag_def net_drv_perf_test_def)+

lemma exec_config_cmd:
  assumes "config_ok w" "cmd_ok c" "config_cmd c"
  shows "\<exists>w' g'. exec_cmd e i pdev c (w, g) = Inr (w', g') \<and> config_step w w'"
proof -
  have inv: "ul_inv w" "length (g_net_eps_id_to_mac_addr_table w) = 16" "log_fits (ptsl_ul (bus w))" "log_fits (ptsl_dl (bus w))"
    using assms(1) by (simp_all add: config_ok_def)
  obtain s k where q: "qos w = (s, k)" by (cases "qos w")
  have fl: "config_step w (set_dd_flag w LTE_DD_FLAG_MULTI_PACKET v)" "config_step w (set_dd_flag w LTE_DD_FLAG_LPBP v)" for v
    by (rule set_dd_flag_step; simp add: dd_flag_defs)+
  have add: "\<exists>w'. qa_mac_map eps (Some m) w = Inr w' \<and> config_step w w'"
    "\<exists>rc w'. net_drv_set_eps_mac_map w eps (Some m) = Inr (rc, w') \<and> config_step w w'" if "length m = ETH_ALEN" for eps m
    using qa_mac_map_step[of "Some m" eps w] set_mac_map_step[OF inv(2), of "Some m" eps] that by auto
  have rm: "\<exists>w'. qa_mac_map eps None w = Inr w' \<and> config_step w w'"
    "\<exists>rc w'. net_drv_set_eps_mac_map w eps None = Inr (rc, w') \<and> config_step w w'" for eps
    using qa_mac_map_step[of None eps w] set_mac_map_step[OF inv(2), of None eps] by auto
  have lift: "\<exists>w' g'. rbind r (\<lambda>w1. Inr (w1, g)) = Inr (w', g') \<and> config_step w w'"
    if "\<exists>w'. r = Inr w' \<and> config_step w w'" for r :: "(qa_state \<times> cla_state) dd_sys res" using that by auto
  have lift2: "\<exists>w' g'. rbind r (\<lambda>(_, w1). Inr (w1, g)) = Inr (w', g') \<and> config_step w w'"
    if "\<exists>rc w'. r = Inr (rc, w') \<and> config_step w w'" for r :: "(u32 \<times> (qa_state \<times> cla_state) dd_sys) res" using that by auto
  have ul: "\<exists>w' g'. rbind (profile_log en r (ptsl_ul (bus w))) (\<lambda>p. Inr (upd_bus w (\<lambda>d. d\<lparr>ptsl_ul := p\<rparr>), g)) = Inr (w', g') \<and> config_step w w'"
    for en r using profile_log_fits[OF inv(3), of en r] ul_profile_step by auto
  have dl: "\<exists>w' g'. rbind (profile_log en r (ptsl_dl (bus w))) (\<lambda>p. Inr (upd_bus w (\<lambda>d. d\<lparr>ptsl_dl := p\<rparr>), g)) = Inr (w', g') \<and> config_step w w'"
    for en r using profile_log_fits[OF inv(4), of en r] dl_profile_step by auto
  note steps = lift[OF add(1)] lift2[OF add(2)] lift[OF rm(1)] lift2[OF rm(2)] lift[OF net_eps_step[OF inv(1)]]
    lift[OF net_priority_step[OF inv(1)]] ul dl
  show ?thesis
    using assms(2,3) by (cases c) (simp_all only: exec_cmd.simps cmd_ok.simps config_cmd.simps steps simp_thms if_True if_False q prod.case
      split: if_split, simp_all add: fl global_step qos_mode_step)
qed

lemma exec_config_all:
  assumes "config_ok w" "\<forall>c\<in>set cs. cmd_ok c \<and> config_cmd c"
  shows "\<exists>w' g'. exec_all e pdev i cs (w, g) = Inr (w', g') \<and> config_step w w'"
  using assms
proof (induction cs arbitrary: i w g)
  case (Cons c cs)
  obtain w1 g1 where w1: "exec_cmd e i pdev c (w, g) = Inr (w1, g1)" "config_step w w1"
    using exec_config_cmd[OF Cons.prems(1), of c] Cons.prems(2) by fastforce
  have "config_ok w1" using config_step_ok[OF Cons.prems(1) w1(2)] .
  then obtain w2 g2 where "exec_all e pdev (Suc i) cs (w1, g1) = Inr (w2, g2)" "config_step w1 w2"
    using Cons.IH[of w1] Cons.prems(2) by fastforce
  then show ?case using w1 config_step_trans by (auto intro!: exI[of _ w2])
qed simp

section \<open>All commands\<close>

text \<open>
  The kernel below the commands: allocations have the size asked for, and the devices of different
  commands are different; any of them may fail. A state is ready for the commands from
  number \<open>i\<close> on when the addresses their devices get are not in use.
\<close>

definition env_ok :: "cmd_env \<Rightarrow> bool" where
  "env_ok e \<longleftrightarrow> (\<forall>k. km_ok (new_data e k)) \<and> (\<forall>k l a. new_dev e k = Some a \<and> new_dev e l = Some a \<longrightarrow> k = l)"

definition cmd_ready :: "cmd_env \<Rightarrow> nat \<Rightarrow> 'q dd_sys \<Rightarrow> bool" where
  "cmd_ready e i w \<longleftrightarrow> config_ok w \<and> devs_listed w \<and> 4 < length (default_mac_addr w) \<and> (\<forall>k\<ge>i. \<forall>a. new_dev e k = Some a \<longrightarrow> devs w a = None)"

lemma cmd_ready_fresh: "cmd_ready e i w \<Longrightarrow> Suc i \<le> k \<Longrightarrow> new_dev e k = Some a \<Longrightarrow> devs w a = None"
  unfolding cmd_ready_def by (meson Suc_leD)

lemma config_step_ready:
  assumes "cmd_ready e i w" "config_step w w'"
  shows "cmd_ready e (Suc i) w'"
proof -
  have fr: "config_frame w w'" "g_net_dev_list w' = g_net_dev_list w" "default_mac_addr w' = default_mac_addr w"
    using assms(2) by (auto simp: config_step_def)
  have len: "length (ni_interfaces (bus w)) = NETDRV_MAX_NUM_DEVICES"
    using assms(1) ul_base_length[of w] by (simp add: cmd_ready_def config_ok_def ul_inv_def)
  have "pnet (ni_at w' j) = pnet (ni_at w j)" if "j < NETDRV_MAX_NUM_DEVICES" for j
    using map_core_nth(1)[of "ni_interfaces (bus w')" "ni_interfaces (bus w)" j] fr(1) that len by (simp add: config_frame_def)
  then have "devs_listed w'" using assms(1) fr(2) by (auto simp: cmd_ready_def devs_listed_def)
  moreover have "devs w' a = None \<longleftrightarrow> devs w a = None" for a
  proof -
    have "map_option dev_core (devs w' a) = map_option dev_core (devs w a)" using fr(1) by (simp add: config_frame_def same_shape_def)
    then show ?thesis by (metis option.map_disc_iff)
  qed
  moreover have "devs w a = None" if "Suc i \<le> k" "new_dev e k = Some a" for k a using cmd_ready_fresh[OF assms(1) that] .
  ultimately show ?thesis using assms config_step_ok[of w w'] fr(3) by (simp add: cmd_ready_def)
qed

text \<open>
  The fault of a command that creates an interface: the name is too long for the kernel, or the
  registration of the allocated device fails.
\<close>

fun new_fault :: "cmd_env \<Rightarrow> nat \<Rightarrow> dd_cmd \<Rightarrow> fault \<Rightarrow> bool" where
  "new_fault e i (Net_new name eps prio) f \<longleftrightarrow>
     (if IFNAMSIZ \<le> length name then f = Panic else new_dev e i \<noteq> None \<and> new_reg e i \<noteq> 0 \<and> f = DanglingDeref)"
| "new_fault e i c f \<longleftrightarrow> False"

lemma exec_cmd_ready:
  assumes e: "env_ok e" and r: "cmd_ready e i w" and c: "cmd_ok c"
  shows "(\<exists>w' g'. exec_cmd e i pdev c (w, g) = Inr (w', g') \<and> cmd_ready e (Suc i) w') \<or>
    (\<exists>f. exec_cmd e i pdev c (w, g) = Inl f \<and> new_fault e i c f)"
proof -
  have inv: "ul_inv w" "config_ok w" "devs_listed w" "4 < length (default_mac_addr w)" "\<forall>a. new_dev e i = Some a \<longrightarrow> devs w a = None"
    using r by (auto simp: cmd_ready_def config_ok_def)
  show ?thesis
  proof (cases "config_cmd c")
    case True
    then show ?thesis using exec_config_cmd[OF inv(2) c] config_step_ready[OF r] by blast
  next
    case False
    then consider (new) n x p where "c = Net_new n x p" | (del) n where "c = Net_delete n" by (cases c) auto
    then show ?thesis
    proof cases
      case new
      have km: "km_ok (new_data e i)" using e by (simp add: env_ok_def)
      show ?thesis
      proof (cases "create_unsafe (new_obj e i) (new_data e i) (new_dev e i) (new_reg e i) w n")
        case True
        then show ?thesis using cmd_net_new_faults[OF inv(1) km inv(4) True] new by (auto simp: create_unsafe_def)
      next
        case False
        obtain w' where w': "dd_cmd_net_new (new_obj e i) (new_data e i) (new_dev e i) (new_reg e i) pdev w n x p = Inr w'" "ul_inv w'" "same_config w w'"
          "devs_listed w'" "\<forall>b. new_dev e i \<noteq> Some b \<longrightarrow> devs w' b = devs w b" "ptsl_ul (bus w') = ptsl_ul (bus w)" "ptsl_dl (bus w') = ptsl_dl (bus w)"
          using net_new_ok[OF inv(1) km inv(4,5) False] inv(3) by blast
        have "devs w' a = None" if "Suc i \<le> k" "new_dev e k = Some a" for k a
        proof -
          have "new_dev e i \<noteq> Some a" using e that by (fastforce simp: env_ok_def)
          then show ?thesis using w'(5) cmd_ready_fresh[OF r that] by simp
        qed
        then have "cmd_ready e (Suc i) w'" using w' inv by (auto simp: cmd_ready_def config_ok_def same_config_def)
        then show ?thesis using new w'(1) by simp
      qed
    next
      case del
      obtain w' where w': "dd_cmd_net_delete w n = Inr w'" "ul_inv w'" "devs_listed w'" "same_config w w'" "\<forall>b. devs w b = None \<longrightarrow> devs w' b = None"
        "ptsl_ul (bus w') = ptsl_ul (bus w)" "ptsl_dl (bus w') = ptsl_dl (bus w)" using net_delete_ok[OF inv(1,3), of n] by blast
      have "devs w' a = None" if "Suc i \<le> k" "new_dev e k = Some a" for k a using w'(5) cmd_ready_fresh[OF r that] by simp
      then have "cmd_ready e (Suc i) w'" using w' inv by (auto simp: cmd_ready_def config_ok_def same_config_def)
      then show ?thesis using del w'(1) by simp
    qed
  qed
qed

lemma exec_all_ready:
  assumes "env_ok e" "cmd_ready e i w" "\<forall>c\<in>set cs. cmd_ok c"
  shows "(\<exists>w' g'. exec_all e pdev i cs (w, g) = Inr (w', g') \<and> ul_inv w') \<or>
    (\<exists>j < length cs. \<exists>f. exec_all e pdev i cs (w, g) = Inl f \<and> new_fault e (i + j) (cs ! j) f)"
  using assms(2,3)
proof (induction cs arbitrary: i w g)
  case Nil
  then show ?case by (simp add: cmd_ready_def config_ok_def)
next
  case (Cons c cs)
  have "cmd_ok c" using Cons.prems(2) by simp
  from exec_cmd_ready[OF assms(1) Cons.prems(1) this, of pdev g]
  consider (ok) w1 g1 where "exec_cmd e i pdev c (w, g) = Inr (w1, g1)" "cmd_ready e (Suc i) w1"
    | (fault) f where "exec_cmd e i pdev c (w, g) = Inl f" "new_fault e i c f" by blast
  then show ?case
  proof cases
    case ok
    then show ?thesis using Cons.IH[OF ok(2), of g1] Cons.prems(2) by (fastforce intro: exI[of _ "Suc j" for j])
  next
    case fault
    then show ?thesis by (intro disjI2 exI[of _ 0]) auto
  qed
qed

section \<open>Properties\<close>

lemma array_size: "length (replicate 8704 (0 :: u8)) = MAX_DD_CMD_ARRAY * sizeof_cmd"
  by (simp add: MAX_DD_CMD_ARRAY_def sizeof_cmd_def)

lemma proc_write_executes:
  assumes "cs \<noteq> []" "\<forall>c\<in>set cs. cmd_ok c" "length (cmd_line cs) \<le> 511" "length mem = MAX_DD_CMD_ARRAY * sizeof_cmd"
    "g_pdev e = Some a"
  shows "\<exists>mem'. length mem' = length mem \<and> ltedd_proc_write e True True (map char_byte (cmd_line cs)) (s, mem) =
    rbind (exec_all e a 0 cs s) (\<lambda>s'. Inr (int (length (cmd_line cs)), s', mem'))"
proof -
  obtain mem' where m: "lte_dd_parse_dd_cmds True (Some (cmd_line cs)) (Some mem) (Some 0) = Inr (0, Some mem', Some (length cs))"
    "length mem' = length mem" "\<forall>j<length cs. read_cmd mem' (j * sizeof_cmd) = Some (cs ! j)"
    using parse_cmd_line[OF assms(1,2) short_line_fits[OF assms(2,3)] assms(4)] by blast
  have "cmd_line cs \<noteq> []" using assms(1,2) print_cmd_chars(1) unfolding cmd_line_def by (subst join_Nil) auto
  then have "ltedd_proc_write e True True (map char_byte (cmd_line cs)) (s, mem) =
    rbind (process_loop e a mem' [0..<0 + length cs] s) (\<lambda>s'. Inr (int (length (cmd_line cs)), s', mem'))"
    using m(1) assms(1,5) by (simp add: ltedd_proc_write_def cmd_line_bytes[OF assms(2,3)] lte_dd_process_dd_cmds_def rbind_assoc)
  then show ?thesis using m(2,3) process_exec_all[of cs mem' 0 e a s] by auto
qed

text \<open>
  C9. A write of command lines to the proc file does what they say: when the text of commands with
  parameters in their ranges fits into the buffer, the write executes exactly these commands, one
  after the other and with the numbers and names of the text, and returns the length of the text;
  a fault is that of a command. The text can have as many commands as the array has room for.
\<close>

theorem ltedd_proc_write_executes:
  assumes "cs \<noteq> []" "\<forall>c\<in>set cs. cmd_ok c" "length (cmd_line cs) \<le> 511" "length mem = MAX_DD_CMD_ARRAY * sizeof_cmd"
    "g_pdev e = Some a"
  shows "\<exists>mem'. length mem' = length mem \<and> ltedd_proc_write e True True (map char_byte (cmd_line cs)) (s, mem) =
    rbind (exec_all e a 0 cs s) (\<lambda>s'. Inr (int (length (cmd_line cs)), s', mem'))"
  using assms by (rule proc_write_executes)

definition cmd_env0 :: cmd_env where
  "cmd_env0 = \<lparr>new_obj = \<lambda>_. True, new_data = \<lambda>_ n. Some (replicate (unat n) 0), new_dev = \<lambda>i. Some (Suc i), new_reg = \<lambda>_. 0, g_pdev = Some 0\<rparr>"

lemma cmd_line_priority: "cmd_line [Net_priority ''lte0'' 3, Qos_mode 1] = ''net_priority:lte0:3 qos_mode:1''"
  by code_simp

lemma priority_cmds_ok: "\<forall>c\<in>set [Net_priority ''lte0'' 3, Qos_mode 1]. cmd_ok c \<and> config_cmd c"
  by code_simp

theorem ltedd_proc_write_executes_witness:
  "\<exists>mem'. ltedd_proc_write cmd_env0 True True (map char_byte ''net_priority:lte0:3 qos_mode:1'') ((web_sys, ghif_boot (\<lambda>_. 0)), replicate 8704 0) =
    rbind (exec_all cmd_env0 0 0 [Net_priority ''lte0'' 3, Qos_mode 1] (web_sys, ghif_boot (\<lambda>_. 0))) (\<lambda>s'. Inr (30, s', mem'))"
proof -
  have "length ''net_priority:lte0:3 qos_mode:1'' = 30" "g_pdev cmd_env0 = Some 0" by (simp_all add: cmd_env0_def)
  then show ?thesis
    using ltedd_proc_write_executes[of "[Net_priority ''lte0'' 3, Qos_mode 1]" "replicate 8704 0" cmd_env0 0 "(web_sys, ghif_boot (\<lambda>_. 0))"]
      array_size priority_cmds_ok unfolding cmd_line_priority by auto
qed

text \<open>
  C21. Parsing inverts printing: of the text of at most 64 commands, the last of 64 not \<open>net_new\<close>,
  every command is stored in its structure of the array, from which it is read back as it was.
\<close>

theorem lte_dd_parse_dd_cmds_roundtrip:
  assumes "cs \<noteq> []" "\<forall>c\<in>set cs. cmd_ok c" "length cs \<le> MAX_DD_CMD_ARRAY"
    "length cs = MAX_DD_CMD_ARRAY \<longrightarrow> id_of (last cs) \<noteq> lte_dd_cmd_net_new" "length mem = MAX_DD_CMD_ARRAY * sizeof_cmd"
  shows "\<exists>mem'. lte_dd_parse_dd_cmds True (Some (cmd_line cs)) (Some mem) (Some k) = Inr (0, Some mem', Some (length cs)) \<and>
    length mem' = length mem \<and> (\<forall>j<length cs. read_cmd mem' (j * sizeof_cmd) = Some (cs ! j))"
proof (rule parse_cmd_line[OF assms(1,2) _ assms(5)], intro allI impI)
  fix j
  assume j: "j < length cs"
  have "id_of (cs ! j) \<noteq> lte_dd_cmd_net_new" if "Suc j = MAX_DD_CMD_ARRAY"
  proof -
    have "length cs = Suc j" using that j assms(3) by simp
    then have "cs ! j = last cs" using assms(1) by (simp add: last_conv_nth)
    then show ?thesis using assms(4) that \<open>length cs = Suc j\<close> by simp
  qed
  then show "fits j (cs ! j)" using j assms(3) by (auto simp: fits_def)
qed

lemma sample_cmds_ok:
  "\<forall>c\<in>set [Net_new ''wan1'' 6 3, Mac_map_add_dl 5 [0, 17, 34, 171, 204, 255], Hif_cmd (- 7)]. cmd_ok c"
  by code_simp

lemma sample_cmd_line:
  "cmd_line [Net_new ''wan1'' 6 3, Mac_map_add_dl 5 [0, 17, 34, 171, 204, 255], Hif_cmd (- 7)] =
     ''net_new:wan1:6:3 net_eps_mac_map_add_dl:5:001122abccff hif_cmd:-7''"
  by code_simp

theorem lte_dd_parse_dd_cmds_roundtrip_witness:
  "\<exists>mem'. lte_dd_parse_dd_cmds True (Some ''net_new:wan1:6:3 net_eps_mac_map_add_dl:5:001122abccff hif_cmd:-7'')
      (Some (replicate 8704 255)) (Some 0) = Inr (0, Some mem', Some 3) \<and>
    read_cmd mem' 136 = Some (Mac_map_add_dl 5 [0, 17, 34, 171, 204, 255])"
proof -
  let ?cs = "[Net_new ''wan1'' 6 3, Mac_map_add_dl 5 [0, 17, 34, 171, 204, 255], Hif_cmd (- 7)]"
  have n: "?cs \<noteq> []" "length ?cs \<le> MAX_DD_CMD_ARRAY" "length ?cs = MAX_DD_CMD_ARRAY \<longrightarrow> id_of (last ?cs) \<noteq> lte_dd_cmd_net_new"
    "length (replicate 8704 (255 :: u8)) = MAX_DD_CMD_ARRAY * sizeof_cmd" by (simp_all add: MAX_DD_CMD_ARRAY_def sizeof_cmd_def)
  obtain mem' where m: "lte_dd_parse_dd_cmds True (Some (cmd_line ?cs)) (Some (replicate 8704 255)) (Some 0) = Inr (0, Some mem', Some (length ?cs))"
    "\<forall>j<length ?cs. read_cmd mem' (j * sizeof_cmd) = Some (?cs ! j)"
    using lte_dd_parse_dd_cmds_roundtrip[OF n(1) sample_cmds_ok n(2,3,4), of 0] by blast
  show ?thesis using m(1) m(2)[rule_format, of 1] unfolding sample_cmd_line by (simp add: sizeof_cmd_def)
qed

text \<open>
  C22. The parser fills at most the 64 structures of the array, in the order of the accepted commands,
  and writes outside of it in exactly one case: the last structure gets a \<open>net_new\<close>, whose priority
  is a byte that is stored as a number of four.
\<close>

theorem lte_dd_parse_dd_cmds_bounds:
  assumes "text \<noteq> []" "length mem = MAX_DD_CMD_ARRAY * sizeof_cmd"
  shows "if MAX_DD_CMD_ARRAY \<le> length (accepted text) \<and> commandId (fst (accepted text ! 63)) = lte_dd_cmd_net_new
     then lte_dd_parse_dd_cmds True (Some text) (Some mem) (Some k) = Inl OutOfBounds
     else \<exists>mem'. lte_dd_parse_dd_cmds True (Some text) (Some mem) (Some k) =
       Inr (0, Some mem', Some (min MAX_DD_CMD_ARRAY (length (accepted text)))) \<and> length mem' = length mem"
  using parse_dd_cmds_stores[OF assms] .

lemma net_new_line: "\<forall>c\<in>set (replicate 64 (Net_new ''a'' 1 1)). cmd_ok c"
  by (simp add: word_ok_def plain_def isspace_def to_lower_def)

theorem lte_dd_parse_dd_cmds_bounds_witness:
  "lte_dd_parse_dd_cmds True (Some (cmd_line (replicate 64 (Net_new ''a'' 1 1)))) (Some (replicate 8704 0)) (Some 0) = Inl OutOfBounds"
proof -
  let ?cs = "replicate 64 (Net_new ''a'' 1 1)"
  have "cmd_line ?cs \<noteq> []" unfolding cmd_line_def using net_new_line print_cmd_chars(1) by (subst join_Nil) auto
  from lte_dd_parse_dd_cmds_bounds[OF this array_size, of 0] show ?thesis
    unfolding accepted_cmd_line[OF net_new_line] by (simp add: MAX_DD_CMD_ARRAY_def)
qed

text \<open>
  C29. A write to the proc file never stores outside of the array, whatever the bytes: when it faults,
  the fault is one of a command it executes.
\<close>

theorem ltedd_proc_write_in_bounds:
  assumes "length mem = MAX_DD_CMD_ARRAY * sizeof_cmd"
  shows "(\<exists>ret s' mem'. ltedd_proc_write e copied km buff (s, mem) = Inr (ret, s', mem') \<and> length mem' = length mem) \<or>
    (\<exists>f n mem'. n \<le> MAX_DD_CMD_ARRAY \<and> length mem' = length mem \<and>
       lte_dd_process_dd_cmds e (g_pdev e) mem' n s = Inl f \<and> ltedd_proc_write e copied km buff (s, mem) = Inl f)"
proof -
  define cmds where "cmds = map byte_char (takeWhile (\<lambda>b. b \<noteq> 0) (take 511 buff))"
  have "length cmds \<le> 511" using length_takeWhile_le[of "\<lambda>b. b \<noteq> 0" "take 511 buff"] by (simp add: cmds_def)
  have four: "4 \<le> length mem" using assms by (simp add: MAX_DD_CMD_ARRAY_def sizeof_cmd_def)
  have "\<exists>ret mem' n. lte_dd_parse_dd_cmds km (Some cmds) (Some mem) (Some 0) = Inr (ret, Some mem', Some n) \<and>
    n \<le> MAX_DD_CMD_ARRAY \<and> length mem' = length mem"
  proof (cases "cmds = [] \<or> \<not> km")
    case True
    then show ?thesis using four by (auto simp: lte_dd_parse_dd_cmds_def mem_put_def)
  next
    case False
    have "\<not> (MAX_DD_CMD_ARRAY \<le> length (accepted cmds) \<and> commandId (fst (accepted cmds ! 63)) = lte_dd_cmd_net_new)"
      using accepted_short[OF \<open>length cmds \<le> 511\<close>] by blast
    then show ?thesis using parse_dd_cmds_stores[of cmds mem 0] False assms by (auto split: if_splits)
  qed
  then obtain ret mem' n where p: "lte_dd_parse_dd_cmds km (Some cmds) (Some mem) (Some 0) = Inr (ret, Some mem', Some n)"
    "n \<le> MAX_DD_CMD_ARRAY" "length mem' = length mem" by blast
  show ?thesis
  proof (cases "buff = [] \<or> \<not> copied")
    case True
    then show ?thesis by (auto simp: ltedd_proc_write_def)
  next
    case False
    then have "ltedd_proc_write e copied km buff (s, mem) =
      rbind (if 0 < n then lte_dd_process_dd_cmds e (g_pdev e) mem' n s else Inr (0, s)) (\<lambda>(_, s1).
      Inr (int (length buff), s1, mem'))"
      using p(1) by (simp add: ltedd_proc_write_def Let_def flip: cmds_def)
    then show ?thesis using p(2,3) by (cases "lte_dd_process_dd_cmds e (g_pdev e) mem' n s") (auto split: if_splits)
  qed
qed

theorem ltedd_proc_write_in_bounds_witness:
  "(\<exists>ret s' mem'. ltedd_proc_write cmd_env0 True True (replicate 600 65) ((web_sys, ghif_boot (\<lambda>_. 0)), replicate 8704 0) =
       Inr (ret, s', mem') \<and> length mem' = 8704) \<or>
    (\<exists>f n mem'. lte_dd_process_dd_cmds cmd_env0 (Some 0) mem' n (web_sys, ghif_boot (\<lambda>_. 0)) = Inl f)"
proof -
  have "g_pdev cmd_env0 = Some 0" by (simp add: cmd_env0_def)
  then show ?thesis
    using ltedd_proc_write_in_bounds[OF array_size, of cmd_env0 True True "replicate 600 65" "(web_sys, ghif_boot (\<lambda>_. 0))"] by auto
qed

text \<open>
  C10. A write of commands keeps the invariant of the uplink, also while a transfer runs and also
  when the commands create and delete interfaces, whichever allocations fail. Either it returns in a
  state of the invariant, or a command that creates an interface goes wrong: one with a name of
  sixteen characters or more, which stops the kernel, or one whose device the kernel does not
  register, which is written to after it was freed. There is no other fault. Commands that only
  configure the drivers always return and leave every queue and buffer as it was.
\<close>

theorem proc_commands_keep_uplink:
  assumes "env_ok e" "cmd_ready e 0 w" "cs \<noteq> []" "\<forall>c\<in>set cs. cmd_ok c" "length (cmd_line cs) \<le> 511"
    "length mem = MAX_DD_CMD_ARRAY * sizeof_cmd" "g_pdev e = Some a"
  shows "(\<exists>w' g' mem'. ltedd_proc_write e True True (map char_byte (cmd_line cs)) ((w, g), mem) =
       Inr (int (length (cmd_line cs)), (w', g'), mem') \<and> ul_inv w' \<and>
       (list_all config_cmd cs \<longrightarrow> skbs w' = skbs w \<and> (\<forall>i < NETDRV_MAX_NUM_DEVICES. qlist w' i = qlist w i))) \<or>
    (\<exists>j < length cs. \<exists>name eps prio. cs ! j = Net_new name eps prio \<and>
       (if 16 \<le> length name then ltedd_proc_write e True True (map char_byte (cmd_line cs)) ((w, g), mem) = Inl Panic
        else new_dev e j \<noteq> None \<and> new_reg e j \<noteq> 0 \<and>
          ltedd_proc_write e True True (map char_byte (cmd_line cs)) ((w, g), mem) = Inl DanglingDeref))"
proof -
  have cfg: "config_ok w" using assms(2) by (simp add: cmd_ready_def)
  have len: "length (ni_interfaces (bus w)) = NETDRV_MAX_NUM_DEVICES" using cfg ul_base_length[of w] by (simp add: config_ok_def ul_inv_def)
  obtain mem' where run: "ltedd_proc_write e True True (map char_byte (cmd_line cs)) ((w, g), mem) =
      rbind (exec_all e a 0 cs (w, g)) (\<lambda>s'. Inr (int (length (cmd_line cs)), s', mem'))"
    using proc_write_executes[of cs mem e a "(w, g)"] assms(3-7) by blast
  consider (ok) w' g' where "exec_all e a 0 cs (w, g) = Inr (w', g')" "ul_inv w'"
    | (fault) j f where "j < length cs" "exec_all e a 0 cs (w, g) = Inl f" "new_fault e j (cs ! j) f"
    using exec_all_ready[OF assms(1,2,4), of a g] by auto
  then show ?thesis
  proof cases
    case ok
    have "skbs w' = skbs w \<and> (\<forall>i < NETDRV_MAX_NUM_DEVICES. qlist w' i = qlist w i)" if "list_all config_cmd cs"
    proof -
      have "config_step w w'" using exec_config_all[OF cfg, of cs e a 0 g] that assms(4) ok(1) by (auto simp: list_all_iff)
      then show ?thesis using config_frame_qlist[of w w'] len by (auto simp: config_step_def config_frame_def)
    qed
    then show ?thesis using run ok by auto
  next
    case fault
    then obtain name eps prio where "cs ! j = Net_new name eps prio" by (cases "cs ! j") auto
    then show ?thesis using fault run by (intro disjI2 exI[of _ j]) (auto simp: IFNAMSIZ_def split: if_splits)
  qed
qed

lemma web_sys_config_ok: "config_ok web_sys"
proof -
  have "length (g_net_eps_id_to_mac_addr_table web_sys) = 16" "ptsl_ul (bus web_sys) = None" "ptsl_dl (bus web_sys) = None"
    by (simp_all add: web_sys_def qa_register_handlers_def net_drv_qos_register_def net_drv_set_qos_mode_def
        net_drv_set_active_qos_handers_def Let_def set_skb_def lte0_sys_def lte0_bus_def)
  then show ?thesis using web_sys_inv(1) by (simp add: config_ok_def log_fits_def)
qed

lemma web_sys_ready: "env_ok cmd_env0" "cmd_ready cmd_env0 0 web_sys"
proof -
  show "env_ok cmd_env0" by (auto simp: env_ok_def cmd_env0_def km_ok_def)
  have w: "devs web_sys = devs (lte0_sys 0 0 0 (web_state, cla_init))" "g_net_dev_list web_sys = g_net_dev_list (lte0_sys 0 0 0 (web_state, cla_init))"
    "default_mac_addr web_sys = default_mac_addr (lte0_sys 0 0 0 (web_state, cla_init))" "bus web_sys = bus (lte0_sys 0 0 0 (web_state, cla_init))"
    by (simp_all add: web_sys_def qa_register_handlers_def net_drv_qos_register_def net_drv_set_qos_mode_def
        net_drv_set_active_qos_handers_def Let_def set_skb_def)
  have "devs web_sys a = None" if "new_dev cmd_env0 k = Some a" for k a
    unfolding w(1) using that by (auto simp: cmd_env0_def lte0_sys_def Let_def)
  then show "cmd_ready cmd_env0 0 web_sys"
    using web_sys_config_ok lte0_config(1,3)[of 0 0 0 "(web_state, cla_init)"] unfolding cmd_ready_def devs_listed_def w by auto
qed

lemma cmd_line_new: "cmd_line [Net_new ''wan1'' 6 2, Net_delete ''wan1''] = ''net_new:wan1:6:2 net_delete:wan1''"
  by code_simp

lemma new_cmds_ok: "\<forall>c\<in>set [Net_new ''wan1'' 6 2, Net_delete ''wan1'']. cmd_ok c"
  by code_simp

theorem proc_commands_keep_uplink_witness:
  "\<exists>w' g' mem'. ltedd_proc_write cmd_env0 True True (map char_byte ''net_new:wan1:6:2 net_delete:wan1'')
      ((web_sys, ghif_boot (\<lambda>_. 0)), replicate 8704 0) = Inr (32, (w', g'), mem') \<and> ul_inv w'"
proof -
  have n: "length ''net_new:wan1:6:2 net_delete:wan1'' = 32" "g_pdev cmd_env0 = Some 0" by (simp_all add: cmd_env0_def)
  then show ?thesis
    using proc_commands_keep_uplink[OF web_sys_ready _ new_cmds_ok, of "replicate 8704 0" 0 "ghif_boot (\<lambda>_. 0)"] array_size
    unfolding cmd_line_new by (auto simp: cmd_env0_def less_Suc_eq)
qed

end
