(* ===== verification/Spec2Isabelle.thy ===== *)
theory Spec2Isabelle
  imports QaReplace QaDev TimeStampLog UplinkQos GhifUplink GhifLoop DdCmdsConfig
begin

text \<open>
  Verification of the LTE modem drivers: src/kernel/drivers/lte and the baseband interface in
  src/kernel/drivers/usb/ipchost. The rest of src/kernel is the Linux tree they are built in.

  \<^bold>\<open>The program.\<close> Above is the Linux network stack, below the baseband processor behind a
  shared memory.
  The network driver (net_driver/net_driver_main.c) owns the net devices: its transmit method
  hands every uplink packet to the callback of the QoS agent (lte_classifier/lte_qos_agent.c),
  which examines the headers and searches the classifier table of the packet's network for the
  first filter that applies; the filter names the bearer. The packet, without its ethernet header
  and with the bearer in its control block, goes through the bus interface to the SDMA data driver
  (lte_data_driver/lte_data_driver_main_sdma.c), which queues it in the FIFO of its interface,
  submits transfers of up to a fixed number of packets to the baseband, completes them in a
  callback, and stops and wakes the net queue. The downlink runs the other way: buffers are
  allocated for announced packets, filled by the baseband, given an ethernet header and handed to
  the stack. The classifier tables are built from NAS messages a user process writes to the
  agent's character device: confirmations of networks, allocation, modification and release of
  bearers with their packet filters. Replies go back through a pointer FIFO (common/ptr_fifo.c)
  that reads of the device drain. The data driver logs the time stamps of each packet in a ring
  (common/time_stamp_log.c). It is configured by command lines written to a proc file
  (lte_data_driver/lte_data_driver_cmds.c): the text is parsed into an array of structures, and
  each command then calls the driver it is for.
  Below the data driver the baseband interface (ipchost/ipc_4ghif.c) keeps four rings of messages
  in shared memory: frames and acknowledgements in each direction. An uplink frame gets a block of
  the shared memory from a buddy memory manager (ipc_4ghif_mm.c), is copied there by a DMA engine
  driven by a chain of descriptors, announced in a ring and released when the baseband
  acknowledges it; a full ring or memory pauses the uplink until an acknowledgement resumes it.
  Downlink frames are announced by a mailbox interrupt, fetched by DMA into the buffers of the
  data driver and acknowledged. Tasklets run the callbacks of the data driver. A stub
  (ipc_4ghif_stub_bp_loopback.c) can play the baseband.

  \<^bold>\<open>Theories and code.\<close>
  \<^item> \<open>LtePrelude\<close>: machine words, pointers, faults and the result type, arrays with bounds.
  \<^item> \<open>PtrFifo\<close>: ptr_fifo.c. The object is a record with the slot array; the abstract queue is the
    list between head and tail. Insert, remove, the queries and both peeks refine the queue; the
    interface the agent relies on is a locale with its interpretation on these operations.
  \<^item> \<open>QaTypes\<close>: the structures of lte_host_qos.h and lte_qos_agent.h; table entries live in a
    heap from addresses to entries, linked by next and previous pointers.
  \<^item> \<open>QaTable\<close>: the list operations under the table (walk, sorted insertion, unlinking) and their
    effect on a doubly linked segment of the heap.
  \<^item> \<open>QaOps\<close>: every operation on tables and bearers (\<open>Qa_Add_SortTFT\<close>, \<open>Qa_Delete_Filter\<close>,
    \<open>Qa_Bearer_Delete\<close>, \<open>Qa_Replace_SortTFT\<close> and their helpers). \<open>QaInv\<close>: the representation
    invariant (each table a sorted list of live entries, each entry owned by one slot of one
    bearer). \<open>QaAdd\<close>, \<open>QaDelete\<close>, \<open>QaReplace\<close>: the operations keep it and act on the
    abstract table as sorted insertion, removal and replacement; where the code does not, the
    case is a theorem. Deleting a default bearer frees its entries and keeps the invariant exactly
    when no bearer beyond the count of dedicated bearers owns a filter.
  \<^item> \<open>QaClassify\<close>: \<open>QA_CsExam\<close>, \<open>QA_Cla\<close>, \<open>QA_CmpRuleResults\<close>, the callback and bridge mode.
    \<open>QaMatch\<close> and \<open>QaExam\<close>: the comparison decides the components of the filter, the search
    returns the applicable uplink filter of least precedence, the callback composes both.
  \<^item> \<open>QaParse\<close>: the parsers of packet filters and QoS, with a round trip from an encoder for
    filters without port ranges: the parser puts the upper port of a range together with the
    wrong high byte.
  \<^item> \<open>QaMsg\<close>, \<open>QaHandlers\<close>: the message handlers and dispatchers and their effect on the state
    and the reply FIFO. \<open>QaDev\<close>: reading, writing and flushing the character device.
  \<^item> \<open>TimeStampLog\<close>: time_stamp_log.c and time_calc.c. The states of a log are those reached from
    its creation; each is related to the history of reservations, and reading returns the newest
    part of the history in order.

  \<^item> \<open>NetDriver\<close>: net_driver_main.c. One state record for the whole kernel side (net devices,
    interfaces, socket buffers in a heap, counters, the QoS handlers); the calls into the bus, the
    QoS handlers and the kernel are an environment record of functions. \<open>NetBus\<close>: what the
    transmit method relies on below it is the locale \<open>uplink_bus\<close>; in it, \<open>net_drv_dev_tx\<close> takes
    a packet exactly once or hands it back unchanged.
  \<^item> \<open>DataDriver\<close>: lte_data_driver_main_sdma.c, the interfaces with their FIFOs, the transfer
    arrays, both directions, the callbacks, the watchdog and the interface commands.
    \<open>DataDriverInv\<close>: the invariant of the uplink (every queued buffer is live, in one place, of
    the length it had; a transfer in progress is the front of one FIFO). \<open>DataDriverTx\<close>: the
    transmit routine as a step of that invariant.
  \<^item> \<open>Uplink\<close>: the entry points of the data driver, the interpretation of \<open>uplink_bus\<close> on them,
    completion and the transmit routine. \<open>UplinkQos\<close>: the QoS agent registered as
    handler of the network driver, so that one theorem follows a packet from the transmit method
    through the classifier into the FIFO.
  \<^item> \<open>GhifTypes\<close>: the types of ipc_4ghif.h. \<open>UlMm\<close>: the buddy memory manager, bit fields as in the
    code. \<open>UlMmBits\<close>: the bit fields as sets of pages, the invariant and the map from addresses to
    blocks in use. \<open>UlMmOps\<close>: allocation and release refine that map; the locale \<open>block_memory\<close>
    is what the interface relies on.
  \<^item> \<open>GhifFifo\<close>, \<open>Ghif\<close>: ipc_4ghif.c over the bytes of the shared memory, and the stub. \<open>GhifRing\<close>:
    the bytes of a ring as a queue of messages. \<open>GhifOps\<close>, \<open>GhifUl\<close>, \<open>GhifDl\<close>: each operation as a
    change of the four queues, its loops included.
  \<^item> \<open>GhifProto\<close>: the interface together with a baseband that conforms to the protocol as a step
    relation; every call, interrupt, DMA end and tasklet is an event that can happen at any time.
    \<open>GhifSafe\<close>, \<open>GhifReach\<close>: the invariant of the reachable states. \<open>GhifProps\<close>: the events that
    panic (cancelling a transfer that is going on, asking for frames before the greeting of the
    baseband was taken) and no others, frames arrive in order and once, memory does not leak, how
    a pause ends. \<open>GhifLoop\<close>: the stub.
    \<open>GhifUplink\<close>: the data driver on the interface.
  \<^item> \<open>DdCmds\<close>: lte_data_driver_cmds.c, \<open>lte_dd_process_dd_cmds\<close> and \<open>ltedd_proc_write\<close>, over the bytes
    of the array of structures, with the scanning functions of the kernel they use. \<open>DdCmdsParse\<close>:
    the loop over the tokens as storing the accepted commands one after the other, and how much of
    the text and of the array each takes. \<open>DdCmdsRun\<close>: a printer for commands; what is printed is
    scanned, stored and read back as it was. \<open>DdIface\<close>: creating and deleting an interface keep the
    invariant of the uplink, unless the creation faults: it does with a name of 16 characters or
    more (BUG_ON of \<open>alloc_netdev\<close>) and when the kernel refuses the registration (a write to the
    freed device). The entries of the bus interface keep the invariant; flushing an interface
    does so while none of its packets is in transfer. \<open>DdCmdsConfig\<close>: every command keeps the
    invariant or is such a creation, hence so does every write to the proc file; the properties of the component.

  \<^bold>\<open>Conventions.\<close> An operation is one step: the spinlocks and the semaphore make it atomic. The calls
  of the baseband interface run with interrupts enabled; an interrupt in the middle of one of them
  is not modelled, nor is a failure of the mailbox driver to count its messages, on which the
  interrupt panics, in the reachable states (\<open>env_ok\<close>). The interface is followed from its opening;
  it can be opened twice and closed, but not opened again after that, and the debug orders that
  switch to the loopback are followed only in \<open>GhifLoop\<close>. C
  error codes are values; a null or dangling dereference, an access out of bounds, a free of a
  pointer that was never allocated and a loop that does not end are faults (\<open>Inl\<close>). \<open>kmalloc\<close>,
  \<open>pskb_may_pull\<close>, the copies from and to user space and the clock are parameters. Logging is
  compiled out in the code and left out here.

  \<^bold>\<open>Loops.\<close> Loops over linked lists and the FIFO drain are \<open>partial_function (option)\<close>; not
  returning is the fault \<open>Diverges\<close>, and the theorems show the value they return. Loops over
  arrays are structural. The loop over the tokens of a command line ends because each takes a
  part of the text. The loops over the rings end because each round takes a
  message. The reader of the time stamp log has fuel; as many calls as there are reservations
  held are enough.

  \<^bold>\<open>Not modelled.\<close> Module initialisation and the registration of character devices and proc
  files (kernel calls in sequence); of the network driver the performance thread and the methods
  that do nothing; of the data driver the profile files, the text of the proc file, the loopback reply
  and the character device stubs; the log levels; of the baseband interface the time stamps and the text of the statistics, the manager of equal
  blocks, which is compiled out, and the test device (ipc_4ghif_test.c); lte_data_driver_main.c and ipc_4ghif_stub.c,
  which are not built; AMP_platform.c, wrappers of kernel primitives; the Linux kernel itself. The
  history of the time stamp log is followed up to the wrap of its 32-bit reservation counter.
\<close>

end
